(* ===== verification/Prelude.thy ===== *)
theory Prelude
  imports Complex_Main "HOL-Library.Char_ord" "HOL-Library.List_Lexorder"
begin

text \<open>
  What every component shares: Go's 64-bit \<open>int\<close> (values as \<open>int\<close>, the wrap-around written
  out by \<open>wrap64\<close>), Go's truncating division, byte strings, and generic facts on lists.
  \<^item> \<open>go_arith\<close> collects the facts that discharge the absence of wrap-around;
  \<^item> \<open>go_defs\<close> collects the definitions of the language primitives.
\<close>

named_theorems go_arith
named_theorems go_defs

section \<open>Machine integers\<close>

text \<open>Go's \<open>int\<close>, \<open>int64\<close> and \<open>time.Duration\<close> are 64-bit two's complement on the platforms
  the module targets. A value is an \<open>int\<close> in the range below; an operation of the language is
  the mathematical one followed by \<open>wrap64\<close>.\<close>

definition MaxInt :: int where
  "MaxInt = 9223372036854775807"

definition MinInt :: int where
  "MinInt = - 9223372036854775808"

definition in_int64 :: "int \<Rightarrow> bool" where
  "in_int64 x \<longleftrightarrow> MinInt \<le> x \<and> x \<le> MaxInt"

definition wrap64 :: "int \<Rightarrow> int" where
  "wrap64 x = (x + 9223372036854775808) mod 18446744073709551616 - 9223372036854775808"

definition go_add :: "int \<Rightarrow> int \<Rightarrow> int" where
  "go_add a b = wrap64 (a + b)"

definition go_sub :: "int \<Rightarrow> int \<Rightarrow> int" where
  "go_sub a b = wrap64 (a - b)"

definition go_mul :: "int \<Rightarrow> int \<Rightarrow> int" where
  "go_mul a b = wrap64 (a * b)"

text \<open>Integer division and remainder truncate towards zero. The divisors of the source are
  non-zero constants.\<close>

definition go_div :: "int \<Rightarrow> int \<Rightarrow> int" where
  "go_div a b = sgn a * sgn b * (\<bar>a\<bar> div \<bar>b\<bar>)"

definition go_rem :: "int \<Rightarrow> int \<Rightarrow> int" where
  "go_rem a b = a - go_div a b * b"

lemmas go_int_defs = MaxInt_def MinInt_def in_int64_def wrap64_def

lemma wrap64_in_range [simp, go_arith]: "in_int64 (wrap64 x)"
proof -
  have "0 \<le> (x + 9223372036854775808) mod 18446744073709551616"
    and "(x + 9223372036854775808) mod 18446744073709551616 < 18446744073709551616"
    by simp_all
  then show ?thesis by (simp add: go_int_defs)
qed

lemma wrap64_id [simp, go_arith]: "in_int64 x \<Longrightarrow> wrap64 x = x"
  by (simp add: go_int_defs)

lemma wrap64_id_iff: "wrap64 x = x \<longleftrightarrow> in_int64 x"
  using wrap64_in_range wrap64_id by metis

lemma go_add_in_range [simp, go_arith]: "in_int64 (go_add a b)"
  and go_sub_in_range [simp, go_arith]: "in_int64 (go_sub a b)"
  by (simp_all add: go_add_def go_sub_def)

lemma go_add_exact [go_arith]: "in_int64 (a + b) \<Longrightarrow> go_add a b = a + b"
  by (simp add: go_add_def)

lemma go_sub_exact [go_arith]: "in_int64 (a - b) \<Longrightarrow> go_sub a b = a - b"
  by (simp add: go_sub_def)

lemma in_int64_zero [simp, go_arith]: "in_int64 0" and in_int64_one [simp, go_arith]: "in_int64 1"
  by (simp_all add: go_int_defs)

lemma in_int64_MaxInt [simp, go_arith]: "in_int64 MaxInt"
  and in_int64_MinInt [simp, go_arith]: "in_int64 MinInt"
  by (simp_all add: go_int_defs)

lemma in_int64_max [simp, go_arith]: "in_int64 a \<Longrightarrow> in_int64 b \<Longrightarrow> in_int64 (max a b)"
  and in_int64_min [simp, go_arith]: "in_int64 a \<Longrightarrow> in_int64 b \<Longrightarrow> in_int64 (min a b)"
  by (auto simp: max_def min_def)

lemma in_int64_between: "in_int64 a \<Longrightarrow> in_int64 c \<Longrightarrow> a \<le> b \<Longrightarrow> b \<le> c \<Longrightarrow> in_int64 b"
  by (simp add: in_int64_def)

lemma MaxInt_pos [simp]: "0 < MaxInt" and MinInt_neg [simp]: "MinInt < 0"
  by (simp_all add: MaxInt_def MinInt_def)

lemma go_div_nonneg_eq [simp]: "0 \<le> a \<Longrightarrow> 0 < b \<Longrightarrow> go_div a b = a div b"
  by (cases "a = 0") (simp_all add: go_div_def)

section \<open>Byte strings\<close>

text \<open>A Go string is a sequence of bytes: a \<open>char list\<close>, whose order (\<open>Char_ord\<close>,
  \<open>List_Lexorder\<close>) is Go's.\<close>

definition has_prefix :: "string \<Rightarrow> string \<Rightarrow> bool" where
  "has_prefix s p \<longleftrightarrow> take (length p) s = p"

definition trim_prefix :: "string \<Rightarrow> string \<Rightarrow> string" where
  "trim_prefix s p = (if has_prefix s p then drop (length p) s else s)"

lemma has_prefix_append [simp]: "has_prefix (p @ s) p"
  by (simp add: has_prefix_def)

lemma trim_prefix_append [simp]: "trim_prefix (p @ s) p = s"
  by (simp add: trim_prefix_def)

section \<open>Lists\<close>

lemma takeWhile_drop_split: "xs = take n xs @ take m (drop n xs) @ drop (n + m) xs"
  by (metis append_take_drop_id drop_drop add.commute)

lemma find_Some_mem: "find P xs = Some x \<Longrightarrow> x \<in> set xs \<and> P x"
  by (auto simp: find_Some_iff in_set_conv_nth)

lemma filter_noop: "(\<And>x. x \<in> set xs \<Longrightarrow> P x) \<Longrightarrow> filter P xs = xs"
  by (simp add: filter_id_conv)

lemma length_filter_update:
  assumes "n < length xs"
  shows "length (filter P (xs[n := y])) + (if P (xs ! n) then 1 else 0) =
    length (filter P xs) + (if P y then 1 else 0)"
proof -
  have xs: "xs = take n xs @ xs ! n # drop (Suc n) xs" using assms by (simp add: id_take_nth_drop)
  have "filter P (xs[n := y]) = filter P (take n xs) @ filter P [y] @ filter P (drop (Suc n) xs)"
    using assms by (simp add: upd_conv_take_nth_drop)
  moreover have "filter P xs = filter P (take n xs) @ filter P [xs ! n] @ filter P (drop (Suc n) xs)"
    using arg_cong [OF xs, of "filter P"] by simp
  ultimately show ?thesis by simp
qed

end
