(* ===== verification/Satint.thy ===== *)
theory Satint
  imports Prelude
begin

text \<open>
  \<open>llms/internal/satint/satint.go\<close>: saturating addition and subtraction of Go ints. The guards
  are translated with the wrap-around of the language's own arithmetic, and the lemmas show that
  no guard wraps, so each function is the clamp of the mathematical result.
\<close>

definition Add :: "int \<Rightarrow> int \<Rightarrow> int" where
  "Add a b =
     (if b > 0 \<and> a > go_sub MaxInt b then MaxInt
      else if b < 0 \<and> a < go_sub MinInt b then MinInt
      else go_add a b)"

definition Sub :: "int \<Rightarrow> int \<Rightarrow> int" where
  "Sub a b =
     (if b < 0 \<and> a > go_add MaxInt b then MaxInt
      else if b > 0 \<and> a < go_add MinInt b then MinInt
      else go_sub a b)"

definition clamp64 :: "int \<Rightarrow> int" where
  "clamp64 x = max MinInt (min MaxInt x)"

lemma clamp64_in_range [simp, go_arith]: "in_int64 (clamp64 x)"
  by (simp add: clamp64_def go_int_defs)

lemma clamp64_id [simp, go_arith]: "in_int64 x \<Longrightarrow> clamp64 x = x"
  by (simp add: clamp64_def in_int64_def)

lemma clamp64_mono: "x \<le> y \<Longrightarrow> clamp64 x \<le> clamp64 y"
  by (simp add: clamp64_def)

lemma Add_eq_clamp: "in_int64 a \<Longrightarrow> in_int64 b \<Longrightarrow> Add a b = clamp64 (a + b)"
  by (auto simp: Add_def clamp64_def go_add_def go_sub_def go_int_defs)

lemma Sub_eq_clamp: "in_int64 a \<Longrightarrow> in_int64 b \<Longrightarrow> Sub a b = clamp64 (a - b)"
  by (auto simp: Sub_def clamp64_def go_add_def go_sub_def go_int_defs)

lemma Add_in_range [simp, go_arith]: "in_int64 a \<Longrightarrow> in_int64 b \<Longrightarrow> in_int64 (Add a b)"
  and Sub_in_range [simp, go_arith]: "in_int64 a \<Longrightarrow> in_int64 b \<Longrightarrow> in_int64 (Sub a b)"
  by (simp_all add: Add_eq_clamp Sub_eq_clamp)

text \<open>
  saturating arithmetic never wraps: for all pairs of Go ints, \<open>Add\<close> and \<open>Sub\<close> are the exact
  sum and difference clamped to the range of \<open>int\<close>.
\<close>

theorem satint_is_clamped_arithmetic:
  assumes "in_int64 a" and "in_int64 b"
  shows "Add a b = clamp64 (a + b) \<and> Sub a b = clamp64 (a - b)"
  using assms by (simp add: Add_eq_clamp Sub_eq_clamp)

theorem satint_is_clamped_arithmetic_witness:
  "Add MaxInt 1 = clamp64 (MaxInt + 1) \<and> Sub MaxInt 1 = clamp64 (MaxInt - 1)"
  by (rule satint_is_clamped_arithmetic) simp_all

end
