(* ===== verification/Llms.thy ===== *)
theory Llms
  imports GoStrings
begin

text \<open>
  The data model of package \<open>llms\<close> (\<open>model.go\<close>, \<open>message.go\<close>, \<open>tool.go\<close>, \<open>chat.go\<close>,
  \<open>embedding.go\<close>, \<open>usage.go\<close>, \<open>estimate.go\<close>, \<open>model_list.go\<close>). A Go struct is a record with
  the source's fields; an open string type (\<open>Role\<close>, \<open>ContentPartType\<close>, ...) is a string with
  its constants as definitions, since the code meets values outside the constants. A pointer that
  may be nil is an \<open>option\<close>; \<open>json.RawMessage\<close> and \<open>[]byte\<close> are byte strings; a map read by key
  is a partial function. \<open>any\<close> values that travel to a provider are \<open>json\<close> values.
\<close>

section \<open>Models and labels (model.go)\<close>

type_synonym provider_id = string
type_synonym purpose = string

record model_ref =
  mr_Provider :: provider_id
  mr_Name :: string

definition ProviderAnthropic :: provider_id where "ProviderAnthropic = ''anthropic''"
definition ProviderOpenAI :: provider_id where "ProviderOpenAI = ''openai''"
definition ProviderGoogle :: provider_id where "ProviderGoogle = ''google''"
definition ProviderOllama :: provider_id where "ProviderOllama = ''ollama''"
definition ProviderOpenAICompat :: provider_id where "ProviderOpenAICompat = ''openaicompat''"

section \<open>JSON values\<close>

datatype json =
    JNull
  | JBool bool
  | JNum string
  | JStr string
  | JArr "json list"
  | JObj "(string \<times> json) list"

section \<open>Tools (tool.go)\<close>

record tool_definition =
  td_Name :: string
  td_Description :: string
  td_InputSchema :: string

type_synonym tool_choice_type = string

definition ToolChoiceAuto :: tool_choice_type where "ToolChoiceAuto = ''auto''"
definition ToolChoiceNone :: tool_choice_type where "ToolChoiceNone = ''none''"
definition ToolChoiceRequired :: tool_choice_type where "ToolChoiceRequired = ''required''"
definition ToolChoiceTool :: tool_choice_type where "ToolChoiceTool = ''tool''"

lemmas tool_choice_consts =
  ToolChoiceAuto_def ToolChoiceNone_def ToolChoiceRequired_def ToolChoiceTool_def

record tool_choice =
  tch_Type :: tool_choice_type
  tch_Name :: string

definition RequiresTools :: "tool_choice \<Rightarrow> bool" where
  "RequiresTools tc \<longleftrightarrow> tch_Type tc = ToolChoiceRequired \<or> tch_Type tc = ToolChoiceTool"

record tool_call =
  tc_ID :: string
  tc_Name :: string
  tc_Parameters :: string
  tc_ProviderSignature :: string

record tool_result =
  tr_ToolCallID :: string
  tr_Content :: string
  tr_IsError :: bool

section \<open>Messages (message.go)\<close>

type_synonym role = string

definition RoleUser :: role where "RoleUser = ''user''"
definition RoleAssistant :: role where "RoleAssistant = ''assistant''"
definition RoleTool :: role where "RoleTool = ''tool''"

lemmas role_consts = RoleUser_def RoleAssistant_def RoleTool_def

lemma role_distinct [simp]:
  "RoleUser \<noteq> RoleAssistant" "RoleUser \<noteq> RoleTool" "RoleAssistant \<noteq> RoleTool"
  "RoleAssistant \<noteq> RoleUser" "RoleTool \<noteq> RoleUser" "RoleTool \<noteq> RoleAssistant"
  by (simp_all add: role_consts)

type_synonym content_part_type = string

definition ContentText :: content_part_type where "ContentText = ''text''"
definition ContentToolCall :: content_part_type where "ContentToolCall = ''tool_call''"
definition ContentToolResult :: content_part_type where "ContentToolResult = ''tool_result''"
definition ContentReasoning :: content_part_type where "ContentReasoning = ''reasoning''"

lemmas content_consts =
  ContentText_def ContentToolCall_def ContentToolResult_def ContentReasoning_def

lemma content_distinct [simp]:
  "ContentText \<noteq> ContentToolCall" "ContentText \<noteq> ContentToolResult" "ContentText \<noteq> ContentReasoning"
  "ContentToolCall \<noteq> ContentText" "ContentToolCall \<noteq> ContentToolResult"
  "ContentToolCall \<noteq> ContentReasoning" "ContentToolResult \<noteq> ContentText"
  "ContentToolResult \<noteq> ContentToolCall" "ContentToolResult \<noteq> ContentReasoning"
  "ContentReasoning \<noteq> ContentText" "ContentReasoning \<noteq> ContentToolCall"
  "ContentReasoning \<noteq> ContentToolResult"
  by (simp_all add: content_consts)

record reasoning =
  rs_Provider :: provider_id
  rs_Text :: string
  rs_ProviderData :: string

record content_part =
  cp_Type :: content_part_type
  cp_Text :: string
  cp_ToolCall :: "tool_call option"
  cp_ToolResult :: "tool_result option"
  cp_Reasoning :: "reasoning option"
  cp_CacheBreakpoint :: bool

record message =
  m_Role :: role
  m_Content :: "content_part list"

definition zero_part :: content_part where
  "zero_part = \<lparr>cp_Type = [], cp_Text = [], cp_ToolCall = None, cp_ToolResult = None,
     cp_Reasoning = None, cp_CacheBreakpoint = False\<rparr>"

definition Text :: "string \<Rightarrow> content_part" where
  "Text s = zero_part\<lparr>cp_Type := ContentText, cp_Text := s\<rparr>"

definition UserText :: "string \<Rightarrow> message" where
  "UserText s = \<lparr>m_Role = RoleUser, m_Content = [Text s]\<rparr>"

definition AssistantText :: "string \<Rightarrow> message" where
  "AssistantText s = \<lparr>m_Role = RoleAssistant, m_Content = [Text s]\<rparr>"

definition ToolResultMessage :: "tool_result list \<Rightarrow> message" where
  "ToolResultMessage results =
     \<lparr>m_Role = RoleTool,
      m_Content = map (\<lambda>r. zero_part\<lparr>cp_Type := ContentToolResult, cp_ToolResult := Some r\<rparr>) results\<rparr>"

lemma Text_sel [simp]:
  "cp_Type (Text s) = ContentText" "cp_Text (Text s) = s" "cp_ToolCall (Text s) = None"
  "cp_ToolResult (Text s) = None" "cp_Reasoning (Text s) = None"
  by (simp_all add: Text_def zero_part_def)

lemma UserText_sel [simp]:
  "m_Role (UserText s) = RoleUser" "m_Content (UserText s) = [Text s]"
  by (simp_all add: UserText_def)

lemma ToolResultMessage_role [simp]: "m_Role (ToolResultMessage rs) = RoleTool"
  by (simp add: ToolResultMessage_def)

section \<open>Usage (usage.go)\<close>

record usage =
  u_InputTokens :: int
  u_OutputTokens :: int
  u_TotalTokens :: int
  u_ReasoningTokens :: int
  u_BillableOutputTokens :: int
  u_EmbeddingTokens :: int
  u_CacheReadTokens :: int
  u_CacheWriteTokens :: int
  u_ProviderRequestID :: string

definition zero_usage :: usage where
  "zero_usage = \<lparr>u_InputTokens = 0, u_OutputTokens = 0, u_TotalTokens = 0, u_ReasoningTokens = 0,
     u_BillableOutputTokens = 0, u_EmbeddingTokens = 0, u_CacheReadTokens = 0,
     u_CacheWriteTokens = 0, u_ProviderRequestID = []\<rparr>"

definition usage_in_range :: "usage \<Rightarrow> bool" where
  "usage_in_range u \<longleftrightarrow> in_int64 (u_InputTokens u) \<and> in_int64 (u_OutputTokens u) \<and>
     in_int64 (u_TotalTokens u) \<and> in_int64 (u_ReasoningTokens u) \<and>
     in_int64 (u_BillableOutputTokens u) \<and> in_int64 (u_EmbeddingTokens u) \<and>
     in_int64 (u_CacheReadTokens u) \<and> in_int64 (u_CacheWriteTokens u)"

definition CacheSplit :: "int \<Rightarrow> int \<Rightarrow> int \<Rightarrow> int \<times> int" where
  "CacheSplit input rd wr =
     (let input = max input 0;
          cacheRead = min (max rd 0) input;
          cacheWrite = min (max wr 0) (go_sub input cacheRead)
      in (cacheRead, cacheWrite))"

section \<open>Chat (chat.go)\<close>

type_synonym reasoning_effort = string

definition ReasoningEffortNone :: reasoning_effort where "ReasoningEffortNone = ''none''"
definition ReasoningEffortMinimal :: reasoning_effort where "ReasoningEffortMinimal = ''minimal''"
definition ReasoningEffortLow :: reasoning_effort where "ReasoningEffortLow = ''low''"
definition ReasoningEffortMedium :: reasoning_effort where "ReasoningEffortMedium = ''medium''"
definition ReasoningEffortHigh :: reasoning_effort where "ReasoningEffortHigh = ''high''"
definition ReasoningEffortXHigh :: reasoning_effort where "ReasoningEffortXHigh = ''xhigh''"
definition ReasoningEffortMax :: reasoning_effort where "ReasoningEffortMax = ''max''"

record reasoning_config =
  rc_Effort :: reasoning_effort
  rc_BudgetTokens :: int

type_synonym metadata = "string \<rightharpoonup> string"

record chat_request =
  cr_System :: "content_part list"
  cr_Messages :: "message list"
  cr_Tools :: "tool_definition list"
  cr_ToolChoice :: tool_choice
  cr_Purpose :: purpose
  cr_MaxTokens :: int
  cr_Temperature :: "rat option"
  cr_Metadata :: metadata
  cr_Reasoning :: "reasoning_config option"
  cr_ProviderParams :: "provider_id \<rightharpoonup> (string \<times> json) list"

record chat_response =
  rsp_Message :: message
  rsp_Text :: string
  rsp_ToolCalls :: "tool_call list"
  rsp_StopReason :: string
  rsp_Usage :: usage
  rsp_AppliedReasoning :: "reasoning_config option"
  rsp_Raw :: "json option"

definition zero_request :: chat_request where
  "zero_request = \<lparr>cr_System = [], cr_Messages = [], cr_Tools = [],
     cr_ToolChoice = \<lparr>tch_Type = [], tch_Name = []\<rparr>, cr_Purpose = [], cr_MaxTokens = 0,
     cr_Temperature = None, cr_Metadata = Map.empty, cr_Reasoning = None,
     cr_ProviderParams = Map.empty\<rparr>"

definition zero_response :: chat_response where
  "zero_response = \<lparr>rsp_Message = \<lparr>m_Role = [], m_Content = []\<rparr>, rsp_Text = [], rsp_ToolCalls = [],
     rsp_StopReason = [], rsp_Usage = zero_usage, rsp_AppliedReasoning = None, rsp_Raw = None\<rparr>"

section \<open>Embeddings (embedding.go)\<close>

record embedding_input =
  ei_ID :: string
  ei_Text :: string
  ei_Title :: string

record embedding_request =
  er_Inputs :: "embedding_input list"
  er_Purpose :: purpose
  er_Dimensions :: int
  er_Task :: string
  er_Metadata :: metadata

record embedding_vector =
  ev_ID :: string
  ev_Values :: "rat list"

record embedding_response =
  ersp_Vectors :: "embedding_vector list"
  ersp_Usage :: usage
  ersp_Raw :: "json option"

definition zero_embedding_response :: embedding_response where
  "zero_embedding_response = \<lparr>ersp_Vectors = [], ersp_Usage = zero_usage, ersp_Raw = None\<rparr>"

section \<open>Text token estimate (estimate.go)\<close>

definition EstimateTextTokens :: "string \<Rightarrow> int" where
  "EstimateTextTokens s =
     (if s = [] then 0
      else go_div (go_sub (go_add (int (RuneCountInString s)) 4) 1) 4)"

lemma CacheSplit_eq:
  assumes "in_int64 input"
  shows "CacheSplit input rd wr =
    (min (max rd 0) (max input 0), min (max wr 0) (max input 0 - min (max rd 0) (max input 0)))"
proof -
  have "in_int64 (max input 0)" using assms by simp
  moreover have "0 \<le> max input 0 - min (max rd 0) (max input 0)" by simp
  moreover have "max input 0 - min (max rd 0) (max input 0) \<le> max input 0" by simp
  ultimately have "in_int64 (max input 0 - min (max rd 0) (max input 0))"
    using in_int64_between in_int64_zero by blast
  then show ?thesis by (simp add: CacheSplit_def Let_def go_sub_exact)
qed

lemma CacheSplit_bounds:
  assumes "in_int64 input" and "CacheSplit input rd wr = (r, w)"
  shows "0 \<le> r \<and> 0 \<le> w \<and> r + w \<le> max input 0"
  using assms(2) by (simp add: CacheSplit_eq [OF assms(1)]) linarith

lemma CacheSplit_consistent:
  assumes "in_int64 input" and "0 \<le> r" and "0 \<le> w" and "r + w \<le> input"
  shows "CacheSplit input r w = (r, w)"
  using assms by (simp add: CacheSplit_eq)

text \<open>
  whatever counts a server reports, \<open>CacheSplit\<close> returns two non-negative parts whose sum is at
  most the (non-negative) input, so the uncached remainder is never negative; and counts that are
  already consistent come back unchanged.
\<close>

theorem cache_split_partitions_input:
  assumes "in_int64 input" and "CacheSplit input rd wr = (r, w)"
  shows "0 \<le> r \<and> 0 \<le> w \<and> 0 \<le> max input 0 - r - w \<and>
         (0 \<le> rd \<and> 0 \<le> wr \<and> rd + wr \<le> input \<longrightarrow> r = rd \<and> w = wr)"
  using CacheSplit_bounds [OF assms] CacheSplit_consistent [OF assms(1), of rd wr] assms(2)
  by auto

theorem cache_split_partitions_input_witness:
  "CacheSplit 100 30 7 = (30, 7) \<and> 0 \<le> (100::int) - 30 - 7"
proof -
  have r: "in_int64 100" by (simp add: go_int_defs)
  obtain r w where split: "CacheSplit 100 30 7 = (r, w)" by (cases "CacheSplit 100 30 7")
  from cache_split_partitions_input [OF r split] have "r = 30" and "w = 7" by simp_all
  with split show ?thesis by simp
qed

lemma EstimateTextTokens_eq:
  assumes "int (length s) \<le> MaxInt - 4"
  shows "EstimateTextTokens s = (int (RuneCountInString s) + 3) div 4"
proof -
  have "int (RuneCountInString s) \<le> MaxInt - 4" using assms RuneCount_le_length [of s] by linarith
  then have "go_sub (go_add (int (RuneCountInString s)) 4) 1 = int (RuneCountInString s) + 3"
    by (simp add: go_add_def go_sub_def go_int_defs)
  then show ?thesis by (simp add: EstimateTextTokens_def)
qed

end
