(* ===== verification/Reasoning.thy ===== *)
theory Reasoning
  imports Llms
begin

text \<open>
  \<open>llms/reasoning.go\<close>: removal of reasoning parts from a transcript. The source copies only from
  the first message that changes and returns the argument itself when nothing changes; the model
  follows that structure (\<open>filterReasoning\<close>), and the lemmas show that it is the plain per-message
  filter \<open>strip\<close>.
\<close>

definition rejected :: "(reasoning option \<Rightarrow> bool) \<Rightarrow> content_part \<Rightarrow> bool" where
  "rejected keep p \<longleftrightarrow> cp_Type p = ContentReasoning \<and> \<not> keep (cp_Reasoning p)"

definition dropCount :: "message \<Rightarrow> (reasoning option \<Rightarrow> bool) \<Rightarrow> nat" where
  "dropCount m keep =
     foldl (\<lambda>n p. if cp_Type p = ContentReasoning \<and> \<not> keep (cp_Reasoning p) then n + 1 else n)
       0 (m_Content m)"

text \<open>The index of the first message with a part to drop (\<open>first\<close>), -1 when there is none.\<close>

fun first_drop :: "message list \<Rightarrow> (reasoning option \<Rightarrow> bool) \<Rightarrow> nat \<Rightarrow> int" where
  "first_drop [] keep i = - 1"
| "first_drop (m # ms) keep i = (if dropCount m keep > 0 then int i else first_drop ms keep (Suc i))"

fun filter_rest :: "message list \<Rightarrow> (reasoning option \<Rightarrow> bool) \<Rightarrow> message list \<Rightarrow> message list" where
  "filter_rest out keep [] = out"
| "filter_rest out keep (m # ms) =
     (if dropCount m keep = 0 then filter_rest (out @ [m]) keep ms
      else filter_rest
        (out @ [\<lparr>m_Role = m_Role m,
                 m_Content = filter (\<lambda>p. cp_Type p \<noteq> ContentReasoning \<or> keep (cp_Reasoning p)) (m_Content m)\<rparr>])
        keep ms)"

definition filterReasoning :: "message list \<Rightarrow> (reasoning option \<Rightarrow> bool) \<Rightarrow> message list" where
  "filterReasoning msgs keep =
     (let first = first_drop msgs keep 0 in
      if first < 0 then msgs
      else filter_rest (take (nat first) msgs) keep (drop (nat first) msgs))"

definition ReasoningFrom :: "provider_id \<Rightarrow> message list \<Rightarrow> message list" where
  "ReasoningFrom p msgs =
     filterReasoning msgs (\<lambda>r. case r of None \<Rightarrow> False | Some r \<Rightarrow> rs_Provider r = p)"

definition WithoutReasoning :: "message list \<Rightarrow> message list" where
  "WithoutReasoning msgs = filterReasoning msgs (\<lambda>_. False)"

section \<open>The filter as a specification\<close>

definition strip :: "(reasoning option \<Rightarrow> bool) \<Rightarrow> message \<Rightarrow> message" where
  "strip keep m = m\<lparr>m_Content := filter (\<lambda>p. \<not> rejected keep p) (m_Content m)\<rparr>"

lemma strip_sel [simp]:
  "m_Role (strip keep m) = m_Role m"
  "m_Content (strip keep m) = filter (\<lambda>p. \<not> rejected keep p) (m_Content m)"
  by (simp_all add: strip_def)

lemma dropCount_eq: "dropCount m keep = length (filter (rejected keep) (m_Content m))"
proof -
  have "foldl (\<lambda>n p. if cp_Type p = ContentReasoning \<and> \<not> keep (cp_Reasoning p) then n + 1 else n) k ps
      = k + length (filter (rejected keep) ps)" for k :: nat and ps
    by (induction ps arbitrary: k) (auto simp: rejected_def)
  then show ?thesis by (simp add: dropCount_def)
qed

lemma strip_noop: "dropCount m keep = 0 \<Longrightarrow> strip keep m = m"
  by (simp add: dropCount_eq strip_def filter_empty_conv filter_noop)

lemma strip_copy:
  "\<lparr>m_Role = m_Role m, m_Content =
      filter (\<lambda>p. cp_Type p = ContentReasoning \<longrightarrow> keep (cp_Reasoning p)) (m_Content m)\<rparr> = strip keep m"
  by (simp add: strip_def rejected_def)

lemma filter_rest_eq: "filter_rest out keep ms = out @ map (strip keep) ms"
  by (induction ms arbitrary: out) (simp_all add: strip_noop strip_copy)

lemma first_drop_cases:
  "(first_drop ms keep i < 0 \<and> (\<forall>m \<in> set ms. dropCount m keep = 0)) \<or>
   (\<exists>k \<le> length ms. first_drop ms keep i = int (i + k) \<and> (\<forall>m \<in> set (take k ms). dropCount m keep = 0))"
proof (induction ms arbitrary: i)
  case (Cons m ms)
  show ?case
  proof (cases "dropCount m keep > 0")
    case False
    from Cons.IH [of "Suc i"] show ?thesis
    proof
      assume "\<exists>k \<le> length ms. first_drop ms keep (Suc i) = int (Suc i + k) \<and>
        (\<forall>m \<in> set (take k ms). dropCount m keep = 0)"
      then obtain k where "k \<le> length ms" "first_drop ms keep (Suc i) = int (Suc i + k)"
        "\<forall>m \<in> set (take k ms). dropCount m keep = 0" by blast
      with False show ?thesis by (intro disjI2 exI [of _ "Suc k"]) auto
    qed (use False in simp)
  qed (auto intro: exI [of _ 0])
qed simp

lemma filterReasoning_eq: "filterReasoning msgs keep = map (strip keep) msgs"
proof -
  have noop: "map (strip keep) ms = ms" if "\<forall>m \<in> set ms. dropCount m keep = 0" for ms
    using that by (induction ms) (simp_all add: strip_noop)
  from first_drop_cases [of msgs keep 0] show ?thesis
  proof
    assume "\<exists>k \<le> length msgs. first_drop msgs keep 0 = int (0 + k) \<and>
      (\<forall>m \<in> set (take k msgs). dropCount m keep = 0)"
    then obtain k where "first_drop msgs keep 0 = int k"
      and "\<forall>m \<in> set (take k msgs). dropCount m keep = 0" by auto
    then have "filterReasoning msgs keep = map (strip keep) (take k msgs) @ map (strip keep) (drop k msgs)"
      by (simp add: filterReasoning_def filter_rest_eq noop)
    also have "\<dots> = map (strip keep) msgs" by (simp flip: map_append)
    finally show ?thesis .
  qed (simp add: filterReasoning_def noop)
qed

lemma WithoutReasoning_eq: "WithoutReasoning msgs = map (strip (\<lambda>_. False)) msgs"
  by (simp add: WithoutReasoning_def filterReasoning_eq)

lemma WithoutReasoning_length [simp]: "length (WithoutReasoning msgs) = length msgs"
  by (simp add: WithoutReasoning_eq)

lemma WithoutReasoning_Nil_iff [simp]: "WithoutReasoning msgs = [] \<longleftrightarrow> msgs = []"
  by (simp add: WithoutReasoning_eq)

lemma WithoutReasoning_parts:
  "m \<in> set (WithoutReasoning msgs) \<Longrightarrow> p \<in> set (m_Content m) \<Longrightarrow> cp_Type p \<noteq> ContentReasoning"
  by (auto simp: WithoutReasoning_eq rejected_def)

text \<open>
  \<open>ReasoningFrom p\<close> is exactly the transcript with every reasoning part of another provider (or
  with no payload) removed: same messages, same roles and order, no other part touched; what it
  returns contains no foreign reasoning, and applying it twice changes nothing more.
\<close>

theorem reasoning_from_filters_exactly:
  "ReasoningFrom p msgs =
     map (\<lambda>m. m\<lparr>m_Content := filter (\<lambda>c. \<not> (cp_Type c = ContentReasoning \<and>
            map_option rs_Provider (cp_Reasoning c) \<noteq> Some p)) (m_Content m)\<rparr>) msgs
   \<and> ReasoningFrom p (ReasoningFrom p msgs) = ReasoningFrom p msgs"
proof -
  let ?keep = "\<lambda>r. case r of None \<Rightarrow> False | Some r \<Rightarrow> rs_Provider r = p"
  have part: "rejected ?keep c \<longleftrightarrow> cp_Type c = ContentReasoning \<and>
      map_option rs_Provider (cp_Reasoning c) \<noteq> Some p" for c
    by (auto simp: rejected_def split: option.splits)
  show ?thesis
    by (simp add: ReasoningFrom_def filterReasoning_eq strip_def part cong: filter_cong)
qed

end
