(* ===== verification/LlmsError.thy ===== *)
theory LlmsError
  imports Llms
begin

text \<open>
  The error model (\<open>llms/error.go\<close>) over Go's error values. An error is a tree: a typed error of
  the module, a sentinel of the standard library's \<open>context\<close>, or an error built by
  \<open>errors.New\<close>/\<open>fmt.Errorf\<close> (\<open>Wrapped\<close>, with the errors it wraps by \<open>%w\<close>, none for a plain
  one; an application's own error type is one of these). \<open>errors.As\<close> and \<open>errors.Is\<close> walk the tree in pre-order, as the
  standard library does. A reason string built by \<open>fmt.Sprintf\<close> is a datatype whose constructors
  name the format and carry its arguments.
\<close>

section \<open>Error values\<close>

type_synonym error_kind = string

definition ErrorKindConfig :: error_kind where "ErrorKindConfig = ''config''"
definition ErrorKindAuth :: error_kind where "ErrorKindAuth = ''auth''"
definition ErrorKindRateLimited :: error_kind where "ErrorKindRateLimited = ''rate_limited''"
definition ErrorKindTimeout :: error_kind where "ErrorKindTimeout = ''timeout''"
definition ErrorKindUnavailable :: error_kind where "ErrorKindUnavailable = ''unavailable''"
definition ErrorKindBadRequest :: error_kind where "ErrorKindBadRequest = ''bad_request''"
definition ErrorKindContentPolicy :: error_kind where "ErrorKindContentPolicy = ''content_policy''"
definition ErrorKindContextLength :: error_kind where "ErrorKindContextLength = ''context_length''"
definition ErrorKindUnknown :: error_kind where "ErrorKindUnknown = ''unknown''"

lemmas error_kind_consts =
  ErrorKindConfig_def ErrorKindAuth_def ErrorKindRateLimited_def ErrorKindTimeout_def
  ErrorKindUnavailable_def ErrorKindBadRequest_def ErrorKindContentPolicy_def
  ErrorKindContextLength_def ErrorKindUnknown_def

text \<open>The reasons of \<open>middleware.ValidationError\<close>: one constructor per message of
  \<open>validation.go\<close>, with the message and part indices it prints.\<close>

datatype validation_reason =
    SystemPartNotText nat content_part_type
  | NoMessages
  | EmptyAssistantContent nat role
  | EmptyContent nat role
  | ToolCallMissing nat nat
  | ToolCallRole nat nat role
  | ToolResultMissing nat nat
  | ToolResultRole nat nat role
  | UnknownContentType nat nat content_part_type
  | ReasoningMissing nat nat
  | ReasoningRole nat nat role
  | UserBeforeResults nat "string list"
  | UnknownRole nat role
  | CallsWithoutResults nat "string list"
  | DuplicateToolCall nat string
  | ToolMessageOnlyResults nat
  | DuplicateToolResult nat string
  | OrphanedToolResult nat string
  | EndsWithPending "string list"

text \<open>The reasons of \<open>toolloop.ConfigError\<close>.\<close>

datatype config_reason =
    ClientRequired
  | NoRequestMessages
  | RequestToolsSet
  | ToolNameEmpty nat
  | ToolExecuteNil nat string
  | DuplicateToolName string
  | BothToolChoices
  | UnknownToolChoice string
  | ChoiceRequiresTools string
  | ChoiceNamesUnknownTool string

type_synonym compact_reason = string

definition CompactBeforeTurn :: compact_reason where "CompactBeforeTurn = ''before_turn''"
definition CompactOverflow :: compact_reason where "CompactOverflow = ''overflow''"

text \<open>Durations are in nanoseconds.\<close>

datatype error =
    ProviderError (pe_Provider: provider_id) (pe_Model: string) (pe_Kind: error_kind)
      (pe_StatusCode: int) (pe_Message: string) (pe_RetryAfter: int) (pe_Cause: "error option")
  | LimitError (le_Cause: "error option") (le_Provider: provider_id) (le_Model: string)
      (le_Reason: string) (le_RetryAfter: int) (le_Permanent: bool)
  | BucketLimitError (ble_Cause: "error option") (ble_Key: string) (ble_Reason: string)
      (ble_RetryAfter: int) (ble_Permanent: bool)
  | CircuitOpenError (coe_Provider: provider_id) (coe_Model: string) (coe_RetryAfter: int)
  | ValidationError validation_reason
  | ConfigError config_reason
  | CompactionError (ce_Reason: compact_reason) (ce_Err: error)
  | SchemaError (se_Cause: "error option") (se_Required: int) (se_Found: int)
  | Canceled
  | DeadlineExceeded
  | Wrapped (w_Message: string) (w_Errs: "error list")

fun unwrap :: "error \<Rightarrow> error list" where
  "unwrap (ProviderError _ _ _ _ _ _ cause) = (case cause of None \<Rightarrow> [] | Some e \<Rightarrow> [e])"
| "unwrap (LimitError cause _ _ _ _ _) = (case cause of None \<Rightarrow> [] | Some e \<Rightarrow> [e])"
| "unwrap (BucketLimitError cause _ _ _ _) = (case cause of None \<Rightarrow> [] | Some e \<Rightarrow> [e])"
| "unwrap (CompactionError _ e) = [e]"
| "unwrap (SchemaError cause _ _) = (case cause of None \<Rightarrow> [] | Some e \<Rightarrow> [e])"
| "unwrap (Wrapped _ es) = es"
| "unwrap _ = []"

fun chain :: "error \<Rightarrow> error list" where
  "chain (ProviderError p m k sc msg ra cause) =
     ProviderError p m k sc msg ra cause # (case cause of None \<Rightarrow> [] | Some e \<Rightarrow> chain e)"
| "chain (LimitError cause p m r ra pm) =
     LimitError cause p m r ra pm # (case cause of None \<Rightarrow> [] | Some e \<Rightarrow> chain e)"
| "chain (BucketLimitError cause k r ra pm) =
     BucketLimitError cause k r ra pm # (case cause of None \<Rightarrow> [] | Some e \<Rightarrow> chain e)"
| "chain (CompactionError r e) = CompactionError r e # chain e"
| "chain (SchemaError cause r f) = SchemaError cause r f # (case cause of None \<Rightarrow> [] | Some e \<Rightarrow> chain e)"
| "chain (Wrapped s es) = Wrapped s es # concat (map chain es)"
| "chain e = [e]"

lemma chain_unfold: "chain e = e # concat (map chain (unwrap e))"
  by (cases e) (simp_all split: option.split)

lemma chain_hd [simp]: "e \<in> set (chain e)"
  by (simp add: chain_unfold [of e])

definition opt_chain :: "error option \<Rightarrow> error list" where
  "opt_chain e = (case e of None \<Rightarrow> [] | Some e \<Rightarrow> chain e)"

lemma opt_chain_simps [simp]: "opt_chain None = []" "opt_chain (Some e) = chain e"
  by (simp_all add: opt_chain_def)

text \<open>\<open>errors.As\<close> for a type given by its test, \<open>errors.Is\<close> for a target value.\<close>

definition errors_As :: "(error \<Rightarrow> bool) \<Rightarrow> error option \<Rightarrow> error option" where
  "errors_As is_type e = find is_type (opt_chain e)"

definition errors_Is :: "error option \<Rightarrow> error \<Rightarrow> bool" where
  "errors_Is e target \<longleftrightarrow> target \<in> set (opt_chain e)"

lemma errors_As_None [simp]: "errors_As P None = None"
  by (simp add: errors_As_def)

lemma errors_As_self: "P e \<Longrightarrow> errors_As P (Some e) = Some e"
  by (simp add: errors_As_def chain_unfold [of e])

lemma errors_As_SomeD: "errors_As P e = Some x \<Longrightarrow> P x \<and> x \<in> set (opt_chain e)"
  unfolding errors_As_def by (drule find_Some_mem) simp

lemma errors_As_wrap:
  "\<not> P (Wrapped s [e]) \<Longrightarrow> errors_As P (Some (Wrapped s [e])) = errors_As P (Some e)"
  by (simp add: errors_As_def)

lemma errors_Is_self [simp]: "errors_Is (Some e) e"
  by (simp add: errors_Is_def)

lemma errors_Is_None [simp]: "\<not> errors_Is None t"
  by (simp add: errors_Is_def)

section \<open>Retryability (error.go)\<close>

definition ProviderError_Retryable :: "error \<Rightarrow> bool" where
  "ProviderError_Retryable e \<longleftrightarrow>
     \<not> (pe_Kind e \<in> {ErrorKindAuth, ErrorKindConfig, ErrorKindBadRequest, ErrorKindContentPolicy,
                     ErrorKindContextLength})"

definition LimitError_Retryable :: "error \<Rightarrow> bool" where
  "LimitError_Retryable e \<longleftrightarrow> \<not> le_Permanent e \<and> \<not> errors_Is (le_Cause e) Canceled"

definition Retryable :: "error option \<Rightarrow> bool" where
  "Retryable err =
     (case errors_As is_ProviderError err of
        Some pe \<Rightarrow> ProviderError_Retryable pe
      | None \<Rightarrow>
          (case errors_As is_LimitError err of
             Some le \<Rightarrow> LimitError_Retryable le
           | None \<Rightarrow> False))"

definition RetryAfter :: "error option \<Rightarrow> int" where
  "RetryAfter err =
     (case errors_As is_ProviderError err of
        Some pe \<Rightarrow> pe_RetryAfter pe
      | None \<Rightarrow>
          (case errors_As is_LimitError err of
             Some le \<Rightarrow> le_RetryAfter le
           | None \<Rightarrow> 0))"

lemma Retryable_None [simp]: "\<not> Retryable None"
  by (simp add: Retryable_def)

lemma Retryable_provider [simp]:
  "Retryable (Some (ProviderError p m k sc msg ra c)) =
     ProviderError_Retryable (ProviderError p m k sc msg ra c)"
  by (simp add: Retryable_def errors_As_self)

lemma Retryable_wrapped [simp]: "Retryable (Some (Wrapped s [e])) = Retryable (Some e)"
  by (simp add: Retryable_def errors_As_wrap split: option.split)

lemma RetryAfter_wrapped [simp]: "RetryAfter (Some (Wrapped s [e])) = RetryAfter (Some e)"
  by (simp add: RetryAfter_def errors_As_wrap split: option.split)

lemma Retryable_leaf [simp]:
  "\<not> Retryable (Some (CircuitOpenError p m ra))" "\<not> Retryable (Some (ValidationError r))"
  "\<not> Retryable (Some (ConfigError c))" "\<not> Retryable (Some Canceled)"
  "\<not> Retryable (Some DeadlineExceeded)" "\<not> Retryable (Some (Wrapped s []))"
  by (simp_all add: Retryable_def errors_As_def)

lemma Retryable_knownD:
  "Retryable err \<Longrightarrow> \<exists>e \<in> set (opt_chain err). is_ProviderError e \<or> is_LimitError e"
  unfolding Retryable_def by (auto dest: errors_As_SomeD split: option.splits)

lemma Retryable_limit:
  "errors_As is_ProviderError c = None \<Longrightarrow>
     Retryable (Some (LimitError c p m r ra pm)) = (\<not> pm \<and> \<not> errors_Is c Canceled) \<and> RetryAfter (Some (LimitError c p m r ra pm)) = ra"
  by (cases c) (simp_all add: Retryable_def RetryAfter_def errors_As_def LimitError_Retryable_def)

text \<open>An error under some layers of \<open>fmt.Errorf("...: %w", err)\<close>.\<close>

fun wrap_all :: "string list \<Rightarrow> error \<Rightarrow> error" where
  "wrap_all [] e = e"
| "wrap_all (s # ss) e = Wrapped s [wrap_all ss e]"

lemma wrap_all_simps [simp]: "Retryable (Some (wrap_all ss e)) = Retryable (Some e)" "RetryAfter (Some (wrap_all ss e)) = RetryAfter (Some e)"
  by (induction ss) simp_all

text \<open>
  C3: classification is stable under any depth of wrapping and decided by the typed error inside. A provider error is retryable exactly
  when its kind is none of auth, config, bad request, content policy and context length, whatever its cause is. A limit error that no
  provider error caused is retryable exactly when it is neither permanent nor due to a cancellation. Both give their own retry-after
  hint. An error that carries neither is not retryable and has no hint.
\<close>

theorem retryable_classification:
  "(Retryable (Some (wrap_all ss (ProviderError p m k sc msg ra c))) \<longleftrightarrow>
      k \<notin> {ErrorKindAuth, ErrorKindConfig, ErrorKindBadRequest, ErrorKindContentPolicy, ErrorKindContextLength}) \<and>
   RetryAfter (Some (wrap_all ss (ProviderError p m k sc msg ra c))) = ra \<and>
   (errors_As is_ProviderError c = None \<longrightarrow>
      (Retryable (Some (wrap_all ss (LimitError c p m reason ra permanent))) \<longleftrightarrow> \<not> permanent \<and> \<not> errors_Is c Canceled) \<and>
      RetryAfter (Some (wrap_all ss (LimitError c p m reason ra permanent))) = ra) \<and>
   Retryable (Some (wrap_all ss e)) = Retryable (Some e) \<and> RetryAfter (Some (wrap_all ss e)) = RetryAfter (Some e) \<and>
   ((\<forall>x \<in> set (opt_chain err). \<not> is_ProviderError x \<and> \<not> is_LimitError x) \<longrightarrow> \<not> Retryable err \<and> RetryAfter err = 0)"
proof -
  have "errors_As is_ProviderError err = None" "errors_As is_LimitError err = None"
    if "\<forall>x \<in> set (opt_chain err). \<not> is_ProviderError x \<and> \<not> is_LimitError x"
    using that by (auto simp: errors_As_def find_None_iff)
  then have none: "\<not> Retryable err \<and> RetryAfter err = 0"
    if "\<forall>x \<in> set (opt_chain err). \<not> is_ProviderError x \<and> \<not> is_LimitError x"
    using that by (simp add: Retryable_def RetryAfter_def)
  have "RetryAfter (Some (ProviderError p m k sc msg ra c)) = ra"
    by (simp add: RetryAfter_def errors_As_self)
  then show ?thesis
    using none Retryable_limit [of c p m reason ra permanent] by (simp add: ProviderError_Retryable_def)
qed

text \<open>Witness of the implications: a temporary rejection whose wait was canceled, and an error of neither type.\<close>

theorem retryable_classification_witness:
  "\<not> Retryable (Some (wrap_all [''x'', ''y''] (LimitError (Some Canceled) ''openai'' ''m'' [] 5 False))) \<and>
   RetryAfter (Some (wrap_all [''x'', ''y''] (LimitError (Some Canceled) ''openai'' ''m'' [] 5 False))) = 5 \<and>
   \<not> Retryable (Some (ConfigError ClientRequired))"
  using retryable_classification [of "[''x'', ''y'']" "''openai''" "''m''" "[]" 0 "[]" 5 "Some Canceled" "[]" False Canceled "Some (ConfigError ClientRequired)"]
  by (simp add: errors_As_def)

end
