(* ===== verification/Validation.thy ===== *)
theory Validation
  imports LlmsError Reasoning
begin

text \<open>
  \<open>llms/middleware/validation.go\<close>: the structural validation of a chat request. \<open>pairing\<close> is the
  state of the tool-call pairing (the maps \<open>pending\<close> and \<open>resolved\<close> as sets of IDs); every function
  returns the source's error or the state after it. The source leaves the state half-updated on an
  error, which nobody reads; the model returns the error alone.
\<close>

record pairing =
  pending :: "string set"
  resolved :: "string set"

definition idList :: "string set \<Rightarrow> string list" where
  "idList s = sorted_list_of_set s"

section \<open>One message\<close>

definition hasNonReasoning :: "message \<Rightarrow> bool" where
  "hasNonReasoning m \<longleftrightarrow> list_ex (\<lambda>p. cp_Type p \<noteq> ContentReasoning) (m_Content m)"

definition validateReasoning :: "nat \<Rightarrow> nat \<Rightarrow> role \<Rightarrow> content_part \<Rightarrow> validation_reason option" where
  "validateReasoning mi pn r p =
     (if (case cp_Reasoning p of None \<Rightarrow> True | Some rs \<Rightarrow> rs_Provider rs = [])
        then Some (ReasoningMissing mi pn)
      else if r \<noteq> RoleAssistant then Some (ReasoningRole mi pn r)
      else None)"

definition validatePart :: "nat \<Rightarrow> nat \<Rightarrow> role \<Rightarrow> content_part \<Rightarrow> validation_reason option" where
  "validatePart mi pn r p =
     (if cp_Type p = ContentText then None
      else if cp_Type p = ContentToolCall then
        (if (case cp_ToolCall p of None \<Rightarrow> True | Some tc \<Rightarrow> tc_ID tc = [])
           then Some (ToolCallMissing mi pn)
         else if r \<noteq> RoleAssistant then Some (ToolCallRole mi pn r)
         else None)
      else if cp_Type p = ContentReasoning then validateReasoning mi pn r p
      else if cp_Type p = ContentToolResult then
        (if (case cp_ToolResult p of None \<Rightarrow> True | Some tr \<Rightarrow> tr_ToolCallID tr = [])
           then Some (ToolResultMissing mi pn)
         else if r \<noteq> RoleTool then Some (ToolResultRole mi pn r)
         else None)
      else Some (UnknownContentType mi pn (cp_Type p)))"

fun validatePartsFrom :: "nat \<Rightarrow> nat \<Rightarrow> role \<Rightarrow> content_part list \<Rightarrow> validation_reason option" where
  "validatePartsFrom mi pn r [] = None"
| "validatePartsFrom mi pn r (p # ps) =
     (case validatePart mi pn r p of
        Some e \<Rightarrow> Some e
      | None \<Rightarrow> validatePartsFrom mi (Suc pn) r ps)"

definition validateParts :: "nat \<Rightarrow> message \<Rightarrow> validation_reason option" where
  "validateParts mi m = validatePartsFrom mi 0 (m_Role m) (m_Content m)"

section \<open>Pairing\<close>

fun add_calls :: "nat \<Rightarrow> string set \<Rightarrow> content_part list \<Rightarrow> validation_reason + string set" where
  "add_calls mi pend [] = Inr pend"
| "add_calls mi pend (p # ps) =
     (if cp_Type p \<noteq> ContentToolCall then add_calls mi pend ps
      else let id = tc_ID (the (cp_ToolCall p)) in
        if id \<in> pend then Inl (DuplicateToolCall mi id)
        else add_calls mi (insert id pend) ps)"

definition pairing_assistant :: "pairing \<Rightarrow> nat \<Rightarrow> message \<Rightarrow> validation_reason + pairing" where
  "pairing_assistant s mi m =
     (if pending s \<noteq> {} then Inl (CallsWithoutResults mi (idList (pending s)))
      else case add_calls mi (pending s) (m_Content m) of
             Inl e \<Rightarrow> Inl e
           | Inr pend \<Rightarrow> Inr \<lparr>pending = pend, resolved = {}\<rparr>)"

fun take_results :: "nat \<Rightarrow> pairing \<Rightarrow> content_part list \<Rightarrow> validation_reason + pairing" where
  "take_results mi s [] = Inr s"
| "take_results mi s (p # ps) =
     (if cp_Type p \<noteq> ContentToolResult then Inl (ToolMessageOnlyResults mi)
      else let id = tr_ToolCallID (the (cp_ToolResult p)) in
        if id \<notin> pending s then
          (if id \<in> resolved s then Inl (DuplicateToolResult mi id)
           else Inl (OrphanedToolResult mi id))
        else take_results mi \<lparr>pending = pending s - {id}, resolved = insert id (resolved s)\<rparr> ps)"

definition pairing_tool :: "pairing \<Rightarrow> nat \<Rightarrow> message \<Rightarrow> validation_reason + pairing" where
  "pairing_tool s mi m = take_results mi s (m_Content m)"

definition pairing_step :: "pairing \<Rightarrow> nat \<Rightarrow> message \<Rightarrow> validation_reason + pairing" where
  "pairing_step s mi m =
     (if m_Role m = RoleAssistant then pairing_assistant s mi m
      else if m_Role m = RoleTool then pairing_tool s mi m
      else if m_Role m = RoleUser then
        (if pending s \<noteq> {} then Inl (UserBeforeResults mi (idList (pending s))) else Inr s)
      else Inl (UnknownRole mi (m_Role m)))"

section \<open>A transcript and a request\<close>

definition validate_message :: "pairing \<Rightarrow> nat \<Rightarrow> message \<Rightarrow> validation_reason + pairing" where
  "validate_message s mi m =
     (if \<not> hasNonReasoning m then
        (if m_Role m = RoleAssistant then Inl (EmptyAssistantContent mi (m_Role m))
         else Inl (EmptyContent mi (m_Role m)))
      else case validateParts mi m of
             Some e \<Rightarrow> Inl e
           | None \<Rightarrow> pairing_step s mi m)"

fun validate_from :: "pairing \<Rightarrow> nat \<Rightarrow> message list \<Rightarrow> validation_reason + pairing" where
  "validate_from s mi [] = Inr s"
| "validate_from s mi (m # ms) =
     (case validate_message s mi m of
        Inl e \<Rightarrow> Inl e
      | Inr s' \<Rightarrow> validate_from s' (Suc mi) ms)"

definition ValidateMessages :: "message list \<Rightarrow> error option" where
  "ValidateMessages msgs =
     (if msgs = [] then Some (ValidationError NoMessages)
      else case validate_from \<lparr>pending = {}, resolved = {}\<rparr> 0 msgs of
             Inl e \<Rightarrow> Some (ValidationError e)
           | Inr s \<Rightarrow>
               if pending s \<noteq> {} then Some (ValidationError (EndsWithPending (idList (pending s))))
               else None)"

fun system_check :: "nat \<Rightarrow> content_part list \<Rightarrow> validation_reason option" where
  "system_check i [] = None"
| "system_check i (p # ps) =
     (if cp_Type p \<noteq> ContentText then Some (SystemPartNotText i (cp_Type p))
      else system_check (Suc i) ps)"

definition validateChatRequest :: "chat_request \<Rightarrow> error option" where
  "validateChatRequest req =
     (case system_check 0 (cr_System req) of
        Some e \<Rightarrow> Some (ValidationError e)
      | None \<Rightarrow> ValidateMessages (cr_Messages req))"

end
