(* ===== verification/Transcript.thy ===== *)
theory Transcript
  imports Validation Reasoning
begin

text \<open>
  The transcripts the validator accepts, as a grammar: user messages, and assistant turns followed
  by the tool messages that answer each of the turn's calls exactly once. \<open>wf_transcript\<close> is the
  specification; the main lemma is that \<open>ValidateMessages\<close> accepts exactly its non-empty members.
  Clients of the validator (the tool loop, the compactors) reason with the grammar.
\<close>

section \<open>The parts a role may carry\<close>

definition call_ids :: "message \<Rightarrow> string list" where
  "call_ids m = map (\<lambda>p. tc_ID (the (cp_ToolCall p)))
     (filter (\<lambda>p. cp_Type p = ContentToolCall) (m_Content m))"

definition result_ids :: "message \<Rightarrow> string list" where
  "result_ids m = map (\<lambda>p. tr_ToolCallID (the (cp_ToolResult p))) (m_Content m)"

definition call_part_ok :: "content_part \<Rightarrow> bool" where
  "call_part_ok p \<longleftrightarrow> (\<exists>tc. cp_ToolCall p = Some tc \<and> tc_ID tc \<noteq> [])"

definition reasoning_part_ok :: "content_part \<Rightarrow> bool" where
  "reasoning_part_ok p \<longleftrightarrow> (\<exists>r. cp_Reasoning p = Some r \<and> rs_Provider r \<noteq> [])"

definition result_part_ok :: "content_part \<Rightarrow> bool" where
  "result_part_ok p \<longleftrightarrow> cp_Type p = ContentToolResult \<and>
     (\<exists>tr. cp_ToolResult p = Some tr \<and> tr_ToolCallID tr \<noteq> [])"

definition user_ok :: "message \<Rightarrow> bool" where
  "user_ok m \<longleftrightarrow> m_Role m = RoleUser \<and> m_Content m \<noteq> [] \<and>
     (\<forall>p \<in> set (m_Content m). cp_Type p = ContentText)"

definition assistant_ok :: "message \<Rightarrow> bool" where
  "assistant_ok m \<longleftrightarrow> m_Role m = RoleAssistant \<and> hasNonReasoning m \<and> distinct (call_ids m) \<and>
     (\<forall>p \<in> set (m_Content m). cp_Type p = ContentText \<or>
        (cp_Type p = ContentToolCall \<and> call_part_ok p) \<or>
        (cp_Type p = ContentReasoning \<and> reasoning_part_ok p))"

definition tool_ok :: "message \<Rightarrow> bool" where
  "tool_ok m \<longleftrightarrow> m_Role m = RoleTool \<and> m_Content m \<noteq> [] \<and>
     (\<forall>p \<in> set (m_Content m). result_part_ok p)"

inductive wf_transcript :: "message list \<Rightarrow> bool" where
  wf_Nil: "wf_transcript []"
| wf_user: "wf_transcript ms \<Longrightarrow> user_ok u \<Longrightarrow> wf_transcript (ms @ [u])"
| wf_turn: "wf_transcript ms \<Longrightarrow> assistant_ok a \<Longrightarrow> (\<forall>t \<in> set tools. tool_ok t) \<Longrightarrow>
     distinct (concat (map result_ids tools)) \<Longrightarrow>
     set (concat (map result_ids tools)) = set (call_ids a) \<Longrightarrow>
     wf_transcript (ms @ a # tools)"

declare wf_Nil [simp, intro]

section \<open>The validator, without message numbers\<close>

definition part_legal :: "role \<Rightarrow> content_part \<Rightarrow> bool" where
  "part_legal r p \<longleftrightarrow>
     cp_Type p = ContentText \<or>
     (cp_Type p = ContentToolCall \<and> call_part_ok p \<and> r = RoleAssistant) \<or>
     (cp_Type p = ContentReasoning \<and> reasoning_part_ok p \<and> r = RoleAssistant) \<or>
     (result_part_ok p \<and> r = RoleTool)"

lemma validatePart_None_iff: "validatePart mi pn r p = None \<longleftrightarrow> part_legal r p"
  by (auto simp: validatePart_def validateReasoning_def call_part_ok_def reasoning_part_ok_def
      result_part_ok_def part_legal_def split: option.splits if_splits)

lemma validateParts_None_iff: "validateParts mi m = None \<longleftrightarrow> (\<forall>p \<in> set (m_Content m). part_legal (m_Role m) p)"
proof -
  have "validatePartsFrom mi pn r ps = None \<longleftrightarrow> (\<forall>p \<in> set ps. part_legal r p)" for pn r ps
  proof (induction ps arbitrary: pn)
    case (Cons p ps)
    show ?case
    proof (cases "validatePart mi pn r p")
      case None
      moreover from None have "part_legal r p" by (simp add: validatePart_None_iff)
      ultimately show ?thesis by (simp add: Cons.IH)
    next
      case (Some e)
      then have "\<not> part_legal r p" by (simp flip: validatePart_None_iff [of mi pn])
      with Some show ?thesis by simp
    qed
  qed simp
  then show ?thesis by (simp add: validateParts_def)
qed

lemma add_calls_Inr_iff:
  "add_calls mi pend ps = Inr pend' \<longleftrightarrow>
     (let ids = map (\<lambda>p. tc_ID (the (cp_ToolCall p))) (filter (\<lambda>p. cp_Type p = ContentToolCall) ps)
      in distinct ids \<and> set ids \<inter> pend = {} \<and> pend' = set ids \<union> pend)"
  by (induction ps arbitrary: pend) (auto simp: Let_def)

lemma take_results_Inr_iff:
  "take_results mi s ps = Inr s' \<longleftrightarrow>
     (let ids = map (\<lambda>p. tr_ToolCallID (the (cp_ToolResult p))) ps
      in (\<forall>p \<in> set ps. cp_Type p = ContentToolResult) \<and> distinct ids \<and> set ids \<subseteq> pending s \<and>
         pending s' = pending s - set ids \<and> resolved s' = set ids \<union> resolved s)"
proof (induction ps arbitrary: s)
  case (Cons p ps)
  show ?case by (auto simp: Let_def Cons.IH) (metis imageI)
qed (auto simp: Let_def)

lemma hasNonReasoning_iff: "hasNonReasoning m \<longleftrightarrow> (\<exists>p \<in> set (m_Content m). cp_Type p \<noteq> ContentReasoning)"
  by (simp add: hasNonReasoning_def list_ex_iff)

lemma validate_message_Inr_iff:
  "validate_message s mi m = Inr s' \<longleftrightarrow>
     hasNonReasoning m \<and> (\<forall>p \<in> set (m_Content m). part_legal (m_Role m) p) \<and> pairing_step s mi m = Inr s'"
proof (cases "hasNonReasoning m")
  case True
  then show ?thesis
    by (cases "validateParts mi m")
      (simp_all add: validate_message_def flip: validateParts_None_iff [of mi])
qed (simp add: validate_message_def)

lemma user_ok_iff:
  "m_Role m = RoleUser \<Longrightarrow>
     hasNonReasoning m \<and> (\<forall>p \<in> set (m_Content m). part_legal (m_Role m) p) \<longleftrightarrow> user_ok m"
  by (cases "m_Content m") (auto simp: user_ok_def part_legal_def hasNonReasoning_iff)

lemma tool_ok_iff:
  "m_Role m = RoleTool \<Longrightarrow>
     hasNonReasoning m \<and> (\<forall>p \<in> set (m_Content m). part_legal (m_Role m) p) \<and>
       (\<forall>p \<in> set (m_Content m). cp_Type p = ContentToolResult) \<longleftrightarrow> tool_ok m"
  by (cases "m_Content m") (auto simp: tool_ok_def part_legal_def hasNonReasoning_iff result_part_ok_def)

lemma assistant_ok_iff:
  "m_Role m = RoleAssistant \<Longrightarrow>
     hasNonReasoning m \<and> (\<forall>p \<in> set (m_Content m). part_legal (m_Role m) p) \<and> distinct (call_ids m)
       \<longleftrightarrow> assistant_ok m"
  by (auto simp: assistant_ok_def part_legal_def)

lemma validate_user:
  assumes "m_Role m = RoleUser"
  shows "validate_message s mi m = Inr s' \<longleftrightarrow> user_ok m \<and> pending s = {} \<and> s' = s"
  using assms user_ok_iff [OF assms]
  by (auto simp: validate_message_Inr_iff pairing_step_def split: if_splits)

lemma pairing_assistant_Inr_iff:
  "pairing_assistant s mi m = Inr s' \<longleftrightarrow>
     distinct (call_ids m) \<and> pending s = {} \<and> s' = \<lparr>pending = set (call_ids m), resolved = {}\<rparr>"
proof (cases "pending s = {}")
  case True
  show ?thesis
    using add_calls_Inr_iff [of mi "{}" "m_Content m"] True
    by (cases "add_calls mi {} (m_Content m)")
      (auto simp: pairing_assistant_def call_ids_def Let_def)
qed (simp add: pairing_assistant_def)

lemma validate_assistant:
  assumes "m_Role m = RoleAssistant"
  shows "validate_message s mi m = Inr s' \<longleftrightarrow>
       assistant_ok m \<and> pending s = {} \<and> s' = \<lparr>pending = set (call_ids m), resolved = {}\<rparr>"
  using assms assistant_ok_iff [OF assms]
  by (auto simp: validate_message_Inr_iff pairing_step_def pairing_assistant_Inr_iff)

lemma validate_tool:
  assumes "m_Role m = RoleTool"
  shows "validate_message s mi m = Inr s' \<longleftrightarrow>
       tool_ok m \<and> distinct (result_ids m) \<and> set (result_ids m) \<subseteq> pending s \<and>
       pending s' = pending s - set (result_ids m) \<and> resolved s' = set (result_ids m) \<union> resolved s"
  using assms tool_ok_iff [OF assms]
  by (auto simp: validate_message_Inr_iff pairing_step_def pairing_tool_def take_results_Inr_iff
      result_ids_def Let_def)

lemma validate_message_cases:
  assumes ok: "validate_message s mi m = Inr s'"
  obtains (user) "user_ok m" "pending s = {}" "s' = s"
  | (assistant) "assistant_ok m" "pending s = {}" "s' = \<lparr>pending = set (call_ids m), resolved = {}\<rparr>"
  | (tool) "tool_ok m" "distinct (result_ids m)" "set (result_ids m) \<subseteq> pending s"
      "pending s' = pending s - set (result_ids m)"
proof -
  from ok have "pairing_step s mi m = Inr s'" by (simp add: validate_message_Inr_iff)
  then consider "m_Role m = RoleUser" | "m_Role m = RoleAssistant" | "m_Role m = RoleTool"
    by (auto simp: pairing_step_def split: if_splits)
  then show ?thesis
  proof cases
    case 1
    from ok [unfolded validate_user [OF 1]] show ?thesis by (auto intro: user)
  next
    case 2
    from ok [unfolded validate_assistant [OF 2]] show ?thesis by (auto intro: assistant)
  next
    case 3
    from ok [unfolded validate_tool [OF 3]] show ?thesis by (auto intro: tool)
  qed
qed

lemma validate_from_append:
  "validate_from s mi (xs @ ys) =
     (case validate_from s mi xs of Inl e \<Rightarrow> Inl e | Inr s' \<Rightarrow> validate_from s' (mi + length xs) ys)"
  by (induction xs arbitrary: s mi) (auto split: sum.splits)


section \<open>Removing reasoning\<close>

lemma rejected_all [simp]: "rejected (\<lambda>_. False) p \<longleftrightarrow> cp_Type p = ContentReasoning"
  by (simp add: rejected_def)

lemma rejected_reasoning: "rejected keep p \<Longrightarrow> cp_Type p = ContentReasoning"
  by (simp add: rejected_def)

lemma strip_keeps_ids: "call_ids (strip keep m) = call_ids m"
  by (auto simp: call_ids_def filter_filter rejected_def intro!: arg_cong [where f = "map _"] filter_cong)

lemma user_ok_strip: "user_ok m \<Longrightarrow> strip keep m = m"
  by (simp add: user_ok_def strip_def filter_noop rejected_def)

lemma tool_ok_strip: "tool_ok m \<Longrightarrow> strip keep m = m"
  by (simp add: tool_ok_def result_part_ok_def strip_def filter_noop rejected_def)

lemma assistant_ok_strip: "assistant_ok m \<Longrightarrow> assistant_ok (strip keep m)"
  by (auto simp: assistant_ok_def strip_keeps_ids hasNonReasoning_iff dest: rejected_reasoning)

lemma wf_strip: "wf_transcript ms \<Longrightarrow> wf_transcript (map (strip keep) ms)"
proof (induction rule: wf_transcript.induct)
  case (wf_user ms u)
  then show ?case by (simp add: user_ok_strip wf_transcript.wf_user)
next
  case (wf_turn ms a tools)
  have "map (strip keep) tools = tools" using wf_turn(3) by (simp add: map_idI tool_ok_strip)
  with wf_turn wf_transcript.wf_turn [of "map (strip keep) ms" "strip keep a" tools]
  show ?case by (simp add: assistant_ok_strip strip_keeps_ids)
qed simp

section \<open>The validator decides the grammar\<close>

abbreviation "init_pairing \<equiv> \<lparr>pending = {}, resolved = {}\<rparr>"

text \<open>A turn under way: the tool messages so far answer calls of the assistant message, each at most
  once; \<open>pend\<close> are the calls still open.\<close>

definition open_turn :: "message \<Rightarrow> message list \<Rightarrow> string set \<Rightarrow> bool" where
  "open_turn a tools pend \<longleftrightarrow> assistant_ok a \<and> (\<forall>t \<in> set tools. tool_ok t) \<and>
     distinct (concat (map result_ids tools)) \<and>
     set (concat (map result_ids tools)) \<union> pend = set (call_ids a) \<and>
     set (concat (map result_ids tools)) \<inter> pend = {}"

lemma open_turn_closed: "wf_transcript ms \<Longrightarrow> open_turn a tools {} \<Longrightarrow> wf_transcript (ms @ a # tools)"
  by (auto simp: open_turn_def intro: wf_turn)

lemma open_turn_start: "assistant_ok a \<Longrightarrow> open_turn a [] (set (call_ids a))"
  by (simp add: open_turn_def)

lemma open_turn_result:
  "open_turn a tools pend \<Longrightarrow> tool_ok t \<Longrightarrow> distinct (result_ids t) \<Longrightarrow> set (result_ids t) \<subseteq> pend \<Longrightarrow>
     open_turn a (tools @ [t]) (pend - set (result_ids t))"
  by (auto simp: open_turn_def)

definition parses_to :: "message list \<Rightarrow> string set \<Rightarrow> bool" where
  "parses_to ms pend \<longleftrightarrow> (wf_transcript ms \<and> pend = {}) \<or>
     (\<exists>pre a tools. ms = pre @ a # tools \<and> wf_transcript pre \<and> open_turn a tools pend)"

lemma parses_to_closed: "parses_to ms {} \<longleftrightarrow> wf_transcript ms"
  by (auto simp: parses_to_def intro: open_turn_closed)

lemma parses_to_message:
  assumes ms: "parses_to ms (pending s)" and m: "validate_message s mi m = Inr s'"
  shows "parses_to (ms @ [m]) (pending s')"
  using m
proof (cases rule: validate_message_cases)
  case user
  with ms show ?thesis by (auto simp: parses_to_closed intro: wf_user)
next
  case assistant
  then show ?thesis
    using ms open_turn_start [of m] by (auto simp: parses_to_closed) (auto simp: parses_to_def)
next
  case tool
  from \<open>tool_ok m\<close> have "result_ids m \<noteq> []" by (simp add: tool_ok_def result_ids_def)
  with tool have "pending s \<noteq> {}" by (cases "result_ids m") auto
  with ms obtain pre a tools where "ms = pre @ a # tools" "wf_transcript pre"
    and "open_turn a tools (pending s)" by (auto simp: parses_to_def)
  with tool open_turn_result [of a tools "pending s" m] show ?thesis
    unfolding parses_to_def by (intro disjI2 exI [of _ pre] exI [of _ a] exI [of _ "tools @ [m]"]) simp
qed

lemma validate_from_parses:
  "parses_to ms (pending s) \<Longrightarrow> validate_from s mi xs = Inr s' \<Longrightarrow> parses_to (ms @ xs) (pending s')"
proof (induction xs arbitrary: ms s mi)
  case (Cons x xs)
  from Cons.prems(2) obtain t where "validate_message s mi x = Inr t" and "validate_from t (Suc mi) xs = Inr s'"
    by (auto split: sum.splits)
  with Cons.IH [of "ms @ [x]" t] parses_to_message [OF Cons.prems(1)] show ?case by fastforce
qed simp

lemma validate_tools:
  "(\<forall>t \<in> set tools. tool_ok t) \<Longrightarrow> distinct (concat (map result_ids tools)) \<Longrightarrow>
     set (concat (map result_ids tools)) \<subseteq> pending s \<Longrightarrow>
     \<exists>s'. validate_from s mi tools = Inr s' \<and> pending s' = pending s - set (concat (map result_ids tools))"
proof (induction tools arbitrary: s mi)
  case (Cons t ts)
  let ?s = "\<lparr>pending = pending s - set (result_ids t), resolved = set (result_ids t) \<union> resolved s\<rparr>"
  have "m_Role t = RoleTool" using Cons.prems(1) by (simp add: tool_ok_def)
  from validate_tool [OF this, of s mi ?s] Cons.prems have step: "validate_message s mi t = Inr ?s"
    by auto
  have "\<exists>s'. validate_from ?s (Suc mi) ts = Inr s' \<and>
      pending s' = pending ?s - set (concat (map result_ids ts))"
    using Cons.prems by (intro Cons.IH) auto
  with step show ?case by (auto simp: Diff_eq Int_assoc)
qed simp

lemma wf_transcript_validates:
  "wf_transcript ms \<Longrightarrow> \<exists>s'. validate_from init_pairing mi ms = Inr s' \<and> pending s' = {}"
proof (induction rule: wf_transcript.induct)
  case (wf_user ms u)
  then obtain s where s: "validate_from init_pairing mi ms = Inr s" "pending s = {}" by blast
  from wf_user have "m_Role u = RoleUser" by (simp add: user_ok_def)
  from validate_user [OF this, of s _ s] wf_user s show ?case by (simp add: validate_from_append)
next
  case (wf_turn ms a tools)
  then obtain s where s: "validate_from init_pairing mi ms = Inr s" "pending s = {}" by blast
  let ?s = "\<lparr>pending = set (call_ids a), resolved = {}\<rparr>"
  from wf_turn have "m_Role a = RoleAssistant" by (simp add: assistant_ok_def)
  from validate_assistant [OF this, of s _ ?s] wf_turn s
  have "validate_message s (mi + length ms) a = Inr ?s" by simp
  moreover from validate_tools [of tools ?s "Suc (mi + length ms)"] wf_turn
  obtain s' where "validate_from ?s (Suc (mi + length ms)) tools = Inr s'" "pending s' = {}" by auto
  ultimately show ?case using s by (simp add: validate_from_append)
qed simp

lemma ValidateMessages_None_iff: "ValidateMessages ms = None \<longleftrightarrow> ms \<noteq> [] \<and> wf_transcript ms"
proof
  assume "ValidateMessages ms = None"
  then obtain s where "ms \<noteq> []" "validate_from init_pairing 0 ms = Inr s" "pending s = {}"
    by (auto simp: ValidateMessages_def split: if_splits sum.splits)
  then show "ms \<noteq> [] \<and> wf_transcript ms"
    using validate_from_parses [of "[]" init_pairing 0 ms s] by (simp add: parses_to_closed)
next
  assume "ms \<noteq> [] \<and> wf_transcript ms"
  with wf_transcript_validates [of ms 0] show "ValidateMessages ms = None"
    by (auto simp: ValidateMessages_def)
qed

text \<open>
  C1: the validator accepts a transcript exactly when it is non-empty and belongs to the grammar
  \<open>wf_transcript\<close>: text-only user messages and assistant turns whose every tool call is answered
  exactly once, by the tool messages directly after it, before anything else is said.
\<close>

theorem ValidateMessages_decides_grammar:
  "ValidateMessages ms = None \<longleftrightarrow> ms \<noteq> [] \<and> wf_transcript ms"
  by (rule ValidateMessages_None_iff)

end
