(* ===== verification/GoFloat.thy ===== *)
theory GoFloat
  imports Prelude "HOL-Library.Log_Nat"
begin

text \<open>
  Go's \<open>float64\<close> as the module uses it: a finite value is a rational, and every operation is the
  exact one followed by \<open>fl\<close>, rounding to nearest with ties to even at 53 significant bits. The
  exponent is unbounded: the code's products and sums stay far inside the exponent range, except
  products with an application's scale factor, whose overflow and underflow the code only compares
  with bounds it decides the same way. A value an application supplies (a buffer or backoff factor)
  is a \<open>gofloat\<close>, which may also be NaN or an infinity.

  The lemmas: rounding is monotone, odd, exact on 53-bit values (so on small integers), and keeps
  the sign; these are all the later theories use.
\<close>

datatype gofloat = NaN | PosInf | NegInf | Fin rat

section \<open>Rounding to nearest, ties to even\<close>

definition rne :: "rat \<Rightarrow> int" where
  "rne y = (let f = \<lfloor>y\<rfloor>; d = y - of_int f in
     if d < 1 / 2 then f else if d > 1 / 2 then f + 1 else if even f then f else f + 1)"

text \<open>The binary exponent of a non-zero value: \<open>2 powi fexp x \<le> \<bar>x\<bar> < 2 powi (fexp x + 1)\<close>.\<close>

definition fexp :: "rat \<Rightarrow> int" where
  "fexp x = (let (p, q) = quotient_of \<bar>x\<bar>; e = bitlen p - bitlen q in
     if 2 powi e \<le> \<bar>x\<bar> then e else e - 1)"

definition fl :: "rat \<Rightarrow> rat" where
  "fl x = (if x = 0 then 0 else of_int (rne (x / 2 powi (fexp x - 52))) * 2 powi (fexp x - 52))"

lemma rne_of_int [simp]: "rne (of_int n) = n"
  by (simp add: rne_def Let_def)

lemma rne_bounds: "\<lfloor>y\<rfloor> \<le> rne y" "rne y \<le> \<lfloor>y\<rfloor> + 1"
  by (simp_all add: rne_def Let_def)

lemma rne_mono: assumes "y \<le> z" shows "rne y \<le> rne z"
proof (cases "\<lfloor>y\<rfloor> = \<lfloor>z\<rfloor>")
  case True
  with assms show ?thesis by (auto simp: rne_def Let_def)
next
  case False
  with assms have "\<lfloor>y\<rfloor> + 1 \<le> \<lfloor>z\<rfloor>" using floor_mono [OF assms] by linarith
  then show ?thesis using rne_bounds [of y] rne_bounds [of z] by linarith
qed

lemma rne_minus: "rne (- y) = - rne y"
proof (cases "y = of_int \<lfloor>y\<rfloor>")
  case True
  have "rne (- of_int \<lfloor>y\<rfloor>) = - \<lfloor>y\<rfloor>" using rne_of_int [of "- \<lfloor>y\<rfloor>"] by simp
  moreover have "rne (of_int \<lfloor>y\<rfloor>) = \<lfloor>y\<rfloor>" by simp
  ultimately show ?thesis using True by simp
next
  case False
  have "\<lfloor>- y\<rfloor> = - \<lfloor>y\<rfloor> - 1"
    using False by (intro floor_unique) (simp_all, linarith+)
  then show ?thesis by (auto simp: rne_def Let_def)
qed

lemma two_powi_pos: "(0::rat) < 2 powi k"
  by (simp add: zero_less_power_int)

lemma bitlen_powi:
  assumes "0 < p"
  shows "(2::rat) powi (bitlen p - 1) \<le> of_int p" and "of_int p < (2::rat) powi bitlen p"
proof -
  have b: "1 \<le> bitlen p" using assms bitlen_nonneg [of p] bitlen_eq_zero_iff [of p] by linarith
  from bitlen_bounds [OF assms] have "(of_int (2 ^ nat (bitlen p - 1)) :: rat) \<le> of_int p"
    and "(of_int p :: rat) < of_int (2 ^ nat (bitlen p))"
    by (simp_all only: of_int_le_iff of_int_less_iff)
  with b show "(2::rat) powi (bitlen p - 1) \<le> of_int p" and "of_int p < (2::rat) powi bitlen p"
    by (simp_all add: power_int_def)
qed

lemma fexp_bounds:
  assumes "x \<noteq> 0"
  shows "2 powi fexp x \<le> \<bar>x\<bar> \<and> \<bar>x\<bar> < 2 powi (fexp x + 1)"
proof -
  obtain p q where pq: "quotient_of \<bar>x\<bar> = (p, q)" by (cases "quotient_of \<bar>x\<bar>")
  have q: "0 < q" using quotient_of_denom_pos [OF pq] .
  have x: "\<bar>x\<bar> = of_int p / of_int q" using quotient_of_div [OF pq] .
  have "0 < \<bar>x\<bar>" using assms by simp
  with q have p: "0 < p" unfolding x by (simp add: zero_less_divide_iff)
  let ?e = "bitlen p - bitlen q"
  note bp = bitlen_powi [OF p] and bq = bitlen_powi [OF q]
  have q': "(0::rat) < of_int q" using q by simp
  have "\<bar>x\<bar> < 2 powi bitlen p / 2 powi (bitlen q - 1)"
    unfolding x using bp bq q' p by (intro frac_less) simp_all
  then have hi: "\<bar>x\<bar> < 2 powi (?e + 1)" by (simp flip: power_int_diff add: algebra_simps)
  have "2 powi (bitlen p - 1) / 2 powi bitlen q \<le> \<bar>x\<bar>"
    unfolding x using bp bq q' p by (intro frac_le) simp_all
  then have lo: "2 powi (?e - 1) \<le> \<bar>x\<bar>" by (simp flip: power_int_diff add: algebra_simps)
  show ?thesis using hi lo by (simp add: fexp_def pq Let_def)
qed

lemma powi_mono: "i \<le> j \<Longrightarrow> (2::rat) powi i \<le> 2 powi j"
  by (simp add: power_int_increasing)

lemma fexp_unique:
  assumes "2 powi e \<le> \<bar>x\<bar>" and "\<bar>x\<bar> < 2 powi (e + 1)"
  shows "fexp x = e"
proof -
  from assms(1) two_powi_pos [of e] have "0 < \<bar>x\<bar>" by linarith
  then have "x \<noteq> 0" by simp
  from fexp_bounds [OF this] assms show ?thesis
    using powi_mono [of "e + 1" "fexp x"] powi_mono [of "fexp x + 1" e] by force
qed

lemma fexp_minus [simp]: "fexp (- x) = fexp x"
  by (simp add: fexp_def)

lemma fexp_mono: assumes "0 < x" and "x \<le> y" shows "fexp x \<le> fexp y"
proof (rule ccontr)
  assume "\<not> fexp x \<le> fexp y"
  then have "2 powi (fexp y + 1) \<le> (2::rat) powi fexp x" by (intro powi_mono) simp
  with fexp_bounds [of x] fexp_bounds [of y] assms show False by simp
qed

section \<open>Facts about rounding\<close>

lemma fl_zero [simp]: "fl 0 = 0"
  by (simp add: fl_def)

lemma fl_minus: "fl (- x) = - fl x"
  by (simp add: fl_def rne_minus)

lemma fl_binade:
  assumes "0 < x"
  shows "2 powi fexp x \<le> fl x \<and> fl x \<le> 2 powi (fexp x + 1)"
proof -
  let ?u = "(2::rat) powi (fexp x - 52)"
  have u: "0 < ?u" by simp
  have lo: "2 powi fexp x = 2 ^ 52 * ?u" and hi: "2 powi (fexp x + 1) = 2 ^ 53 * ?u"
    by (simp_all add: power_int_diff power_int_add)
  have "of_int (2 ^ 52) \<le> x / ?u" "x / ?u \<le> of_int (2 ^ 53)"
    using fexp_bounds [of x] assms u by (simp_all add: lo hi pos_le_divide_eq pos_divide_le_eq)
  then have "2 ^ 52 \<le> rne (x / ?u)" "rne (x / ?u) \<le> 2 ^ 53"
    using rne_mono rne_of_int by metis+
  then have "(2 ^ 52 :: rat) \<le> of_int (rne (x / ?u))" "(of_int (rne (x / ?u)) :: rat) \<le> 2 ^ 53"
    by (metis of_int_le_iff of_int_numeral of_int_power)+
  then show ?thesis using assms u by (simp add: fl_def lo hi)
qed

lemma fl_pos: "0 < x \<Longrightarrow> 0 < fl x"
  using fl_binade [of x] two_powi_pos [of "fexp x"] by linarith

lemma fl_mono_pos: assumes "0 < x" and "x \<le> y" shows "fl x \<le> fl y"
proof (cases "fexp x = fexp y")
  case True
  let ?u = "(2::rat) powi (fexp y - 52)"
  have "x / ?u \<le> y / ?u" using assms by (simp add: divide_right_mono)
  then have "rne (x / ?u) \<le> rne (y / ?u)" by (rule rne_mono)
  then show ?thesis using assms True by (simp add: fl_def mult_right_mono)
next
  case False
  with fexp_mono [OF assms] have "2 powi (fexp x + 1) \<le> (2::rat) powi fexp y" by (intro powi_mono) simp
  with fl_binade [of x] fl_binade [of y] assms show ?thesis by simp
qed

lemma fl_mono: assumes "x \<le> y" shows "fl x \<le> fl y"
proof -
  consider "0 < x" | "x = 0" "y = 0" | "x \<le> 0" "0 < y" | "x < 0" "y = 0" | "x < 0" "y < 0"
    using assms by fastforce
  then show ?thesis
  proof cases
    case 3
    then have "fl x \<le> 0" using fl_pos [of "- x"] by (cases "x = 0") (simp_all add: fl_minus)
    with 3 fl_pos [of y] show ?thesis by simp
  next
    case 4
    with fl_pos [of "- x"] show ?thesis by (simp add: fl_minus)
  next
    case 5
    with assms fl_mono_pos [of "- y" "- x"] show ?thesis by (simp add: fl_minus)
  qed (use assms fl_mono_pos in auto)
qed

lemma fl_nonneg: "0 \<le> x \<Longrightarrow> 0 \<le> fl x"
  using fl_mono [of 0 x] by simp

lemma fl_nonpos: "x \<le> 0 \<Longrightarrow> fl x \<le> 0"
  using fl_mono [of x 0] by simp

text \<open>A value with at most 53 significant bits is represented exactly.\<close>

definition representable :: "rat \<Rightarrow> bool" where
  "representable x \<longleftrightarrow> (\<exists>m k. \<bar>m\<bar> \<le> 2 ^ 53 \<and> x = of_int m * 2 powi k)"

lemma rne_of_int_eq: "y = of_int n \<Longrightarrow> rne y = n"
  by simp

lemma powi_shift: "(2::rat) powi i = 2 ^ nat (i - j) * 2 powi j" if "j \<le> i"
proof -
  have "(2::rat) powi i = 2 powi (i - j) * 2 powi j" by (simp flip: power_int_add)
  then show ?thesis using that by (simp add: power_int_def [of 2 "i - j"])
qed

lemma fl_exact_pos:
  assumes x: "x = of_int m * 2 powi k" and m: "0 < m" "m \<le> 2 ^ 53"
  shows "fl x = x"
proof -
  let ?e = "fexp x"
  have pos: "0 < x" using x m two_powi_pos [of k] by simp
  then have b: "2 powi ?e \<le> x" using fexp_bounds [of x] by simp
  obtain n where n: "x = of_int n * 2 powi (?e - 52)"
  proof (cases "?e - 52 \<le> k")
    case True
    have "x = of_int (m * 2 ^ nat (k - (?e - 52))) * 2 powi (?e - 52)"
      using x powi_shift [OF True] by simp
    then show ?thesis by (rule that)
  next
    case False
    then have "2 powi ?e = (2::rat) ^ nat (?e - k) * 2 powi k" by (intro powi_shift) simp
    with b have "(2::rat) ^ nat (?e - k) * 2 powi k \<le> x" by (simp only:)
    then have "(2::rat) ^ nat (?e - k) * 2 powi k \<le> of_int m * 2 powi k" by (subst (asm) (2) x)
    then have "(2::rat) ^ nat (?e - k) \<le> of_int m" using two_powi_pos [of k] by simp
    then have le: "2 ^ nat (?e - k) \<le> m" by (metis of_int_le_iff of_int_numeral of_int_power)
    have "(2::int) ^ 53 \<le> 2 ^ nat (?e - k)" using False by (intro power_increasing) auto
    with le m have "m = 2 ^ 53" by linarith
    with le have "(2::int) ^ nat (?e - k) \<le> 2 ^ 53" by simp
    then have "nat (?e - k) \<le> 53" by (subst (asm) power_increasing_iff) simp_all
    with False have k: "k = ?e - 53" by linarith
    have "x = 2 ^ 53 * 2 powi (?e - 53)" using x \<open>m = 2 ^ 53\<close> k by simp
    also have "\<dots> = of_int (2 ^ 52) * 2 powi (?e - 52)"
      using powi_shift [of "?e - 53" "?e - 52"] by simp
    finally show ?thesis by (rule that)
  qed
  have "x / 2 powi (?e - 52) = of_int n" using n two_powi_pos [of "?e - 52"] by (simp add: field_simps)
  then have "rne (x / 2 powi (?e - 52)) = n" by (rule rne_of_int_eq)
  with n pos show ?thesis by (simp add: fl_def)
qed

lemma fl_exact: assumes "representable x" shows "fl x = x"
proof -
  obtain m k where m: "\<bar>m\<bar> \<le> 2 ^ 53" and x: "x = of_int m * 2 powi k"
    using assms by (auto simp: representable_def)
  consider "m = 0" | "0 < m" | "0 < - m" by linarith
  then show ?thesis
  proof cases
    case 3
    have "- x = of_int (- m) * 2 powi k" using x by simp
    from fl_exact_pos [OF this 3] m have "fl (- x) = - x" by simp
    then show ?thesis by (simp add: fl_minus)
  qed (use x m fl_exact_pos [OF x] in simp_all)
qed

lemma representable_int: "\<bar>n\<bar> \<le> 2 ^ 53 \<Longrightarrow> representable (of_int n)"
  unfolding representable_def by (intro exI [of _ n] exI [of _ 0]) simp

lemma representable_powi: "representable (2 powi k)"
  unfolding representable_def by (intro exI [of _ 1] exI [of _ k]) simp

lemma fl_int [simp]: "\<bar>n\<bar> \<le> 2 ^ 53 \<Longrightarrow> fl (of_int n) = of_int n"
  by (simp add: fl_exact representable_int)

lemma fl_representable: "representable (fl x)"
proof -
  have pos: "representable (fl x)" if "0 < x" for x
  proof -
    have "of_int (rne (x / 2 powi (fexp x - 52))) * (2::rat) powi (fexp x - 52) \<le> 2 ^ 53 * 2 powi (fexp x - 52)"
      using fl_binade [OF that] that by (simp add: fl_def power_int_diff power_int_add)
    then have "(of_int (rne (x / 2 powi (fexp x - 52))) :: rat) \<le> 2 ^ 53"
      using two_powi_pos [of "fexp x - 52"] by simp
    then have "rne (x / 2 powi (fexp x - 52)) \<le> 2 ^ 53"
      by (metis of_int_le_iff of_int_numeral of_int_power)
    moreover have "0 \<le> rne (x / 2 powi (fexp x - 52))"
      using rne_mono [of 0 "x / 2 powi (fexp x - 52)"] rne_of_int [of 0] that by simp
    ultimately show ?thesis using that by (auto simp: representable_def fl_def intro!: exI)
  qed
  have neg: "representable (- y)" if r: "representable y" for y
  proof -
    obtain m k where "\<bar>m\<bar> \<le> 2 ^ 53" "y = of_int m * 2 powi k" using r by (auto simp: representable_def)
    then show ?thesis unfolding representable_def by (intro exI [of _ "- m"] exI [of _ k]) simp
  qed
  consider "0 < x" | "x = 0" | "0 < - x" by linarith
  then show ?thesis
  proof cases
    case 2
    then show ?thesis using representable_int [of 0] by simp
  next
    case 3
    from neg [OF pos [OF 3]] show ?thesis by (simp add: fl_minus)
  qed (rule pos)
qed

lemma fl_fl [simp]: "fl (fl x) = fl x"
  by (simp add: fl_exact fl_representable)

section \<open>Conversions\<close>

text \<open>\<open>float64(n)\<close>; and \<open>int(x)\<close>, which truncates towards zero. Outside the range of \<open>int\<close> the
  language leaves the result to the implementation: \<open>float_to_int\<close> takes it as a parameter.\<close>

definition float_of_int :: "int \<Rightarrow> rat" where
  "float_of_int n = fl (of_int n)"

definition go_trunc :: "rat \<Rightarrow> int" where
  "go_trunc x = (if 0 \<le> x then \<lfloor>x\<rfloor> else \<lceil>x\<rceil>)"

definition float_to_int :: "(rat \<Rightarrow> int) \<Rightarrow> rat \<Rightarrow> int" where
  "float_to_int oob x = (if in_int64 (go_trunc x) then go_trunc x else oob x)"

lemma float_of_int_mono: "m \<le> n \<Longrightarrow> float_of_int m \<le> float_of_int n"
  by (simp add: float_of_int_def fl_mono)

lemma float_of_int_zero [simp]: "float_of_int 0 = 0"
  by (simp add: float_of_int_def)

lemma float_of_int_nonneg: "0 \<le> n \<Longrightarrow> 0 \<le> float_of_int n"
  by (simp add: float_of_int_def fl_nonneg)

lemma float_of_int_exact: "\<bar>n\<bar> \<le> 2 ^ 53 \<Longrightarrow> float_of_int n = of_int n"
  by (simp add: float_of_int_def)

lemma float_of_int_pos: "0 < n \<Longrightarrow> 1 \<le> float_of_int n"
  using float_of_int_mono [of 1 n] float_of_int_exact [of 1] by simp

lemma fl_float_of_int [simp]: "fl (float_of_int n) = float_of_int n"
  by (simp add: float_of_int_def)

lemma float_of_MaxInt: "float_of_int MaxInt = 9223372036854775808"
proof (rule antisym)
  have "fl (2 powi 63) = 2 powi 63" by (rule fl_exact [OF representable_powi])
  moreover have "(of_int MaxInt :: rat) \<le> 2 powi 63" by (simp add: MaxInt_def)
  ultimately show "float_of_int MaxInt \<le> 9223372036854775808"
    unfolding float_of_int_def using fl_mono by fastforce
next
  have "fexp (of_int MaxInt) = 62"
    by (rule fexp_unique) (simp_all add: MaxInt_def)
  then have "fl (of_int MaxInt) = of_int (rne (of_int MaxInt / 1024)) * 1024"
    by (simp add: fl_def MaxInt_def)
  also have "rne (of_int MaxInt / 1024) = 9007199254740992"
  proof -
    have "\<lfloor>(of_int MaxInt / 1024 :: rat)\<rfloor> = 9007199254740991"
      by (rule floor_unique) (simp_all add: MaxInt_def)
    then show ?thesis by (simp add: rne_def Let_def MaxInt_def)
  qed
  finally show "9223372036854775808 \<le> float_of_int MaxInt" by (simp add: float_of_int_def)
qed

lemma go_trunc_mono: "x \<le> y \<Longrightarrow> go_trunc x \<le> go_trunc y"
  unfolding go_trunc_def using floor_mono [of x y] ceiling_mono [of x y]
  by (auto simp: ceiling_le_iff) (metis ceiling_le_zero le_floor_iff of_int_0 order.trans not_le less_imp_le)

lemma go_trunc_of_int [simp]: "go_trunc (of_int n) = n"
  by (simp add: go_trunc_def)

end
