(* ===== verification/Runtime.thy ===== *)
theory Runtime
  imports GoFloat LlmsError
begin

text \<open>
  The parts of Go's runtime and standard library the blocking code uses: a clock in nanoseconds,
  \<open>context.Context\<close>, timers raced against a context, and random draws. The environment is a
  \<open>world\<close> record that blocking code threads; a component that keeps more state extends it. Code
  between two blocking points takes no time. When a timer and a context end at the same instant,
  Go's \<open>select\<close> picks either: \<open>w_tie\<close> decides, and no lemma depends on how.
\<close>

record ctx =
  c_done :: "(int \<times> error) option"
  c_attempt :: "int option"

record world =
  w_clock :: int
  w_tie :: "int \<Rightarrow> bool"
  w_rand :: "nat \<Rightarrow> rat"
  w_draws :: nat
  w_oob :: "rat \<Rightarrow> int"

text \<open>\<open>c_done\<close> is the instant at which the context ends and the error it ends with, \<open>Canceled\<close> or
  \<open>DeadlineExceeded\<close>; an instant in the past is a context that is already done. \<open>w_oob\<close> is the
  implementation's result for a float-to-int conversion out of range.\<close>

definition background :: ctx where
  "background = \<lparr>c_done = None, c_attempt = None\<rparr>"

definition ctx_Err :: "ctx \<Rightarrow> 'a world_scheme \<Rightarrow> error option" where
  "ctx_Err c w = (case c_done c of
     None \<Rightarrow> None
   | Some (t, e) \<Rightarrow> if t \<le> w_clock w then Some e else None)"

definition WithTimeout :: "ctx \<Rightarrow> int \<Rightarrow> 'a world_scheme \<Rightarrow> ctx" where
  "WithTimeout c d w = (case c_done c of
     Some (t, e) \<Rightarrow> if t \<le> w_clock w + d then c else c\<lparr>c_done := Some (w_clock w + d, DeadlineExceeded)\<rparr>
   | None \<Rightarrow> c\<lparr>c_done := Some (w_clock w + d, DeadlineExceeded)\<rparr>)"

definition WithoutCancel :: "ctx \<Rightarrow> ctx" where
  "WithoutCancel c = c\<lparr>c_done := None\<rparr>"

text \<open>A context is well-formed when it ends, if at all, with one of the two context errors.\<close>

definition wf_ctx :: "ctx \<Rightarrow> bool" where
  "wf_ctx c \<longleftrightarrow> (\<forall>t e. c_done c = Some (t, e) \<longrightarrow> e = Canceled \<or> e = DeadlineExceeded)"

text \<open>\<open>time.Time.Sub\<close> saturates at the range of a duration.\<close>

definition time_sub :: "int \<Rightarrow> int \<Rightarrow> int" where
  "time_sub t u = max MinInt (min MaxInt (t - u))"

text \<open>\<open>Duration.Seconds\<close>: the whole seconds plus the rest, in floats.\<close>

definition seconds :: "int \<Rightarrow> rat" where
  "seconds d = fl (float_of_int (go_div d 1000000000) +
     fl (float_of_int (go_rem d 1000000000) / 1000000000))"

text \<open>\<open>select\<close> between \<open>ctx.Done()\<close> and a timer of duration \<open>d\<close>: whether the context won, and the
  world at that moment.\<close>

definition sleep_or_done :: "ctx \<Rightarrow> int \<Rightarrow> 'a world_scheme \<Rightarrow> bool \<times> 'a world_scheme" where
  "sleep_or_done c d w =
     (let wake = w_clock w + max d 0 in
      case c_done c of
        None \<Rightarrow> (False, w\<lparr>w_clock := wake\<rparr>)
      | Some (t, e) \<Rightarrow>
          (let t' = max t (w_clock w) in
           if t' < wake \<or> (t' = wake \<and> w_tie w wake) then (True, w\<lparr>w_clock := t'\<rparr>)
           else (False, w\<lparr>w_clock := wake\<rparr>)))"

definition draw :: "'a world_scheme \<Rightarrow> rat \<times> 'a world_scheme" where
  "draw w = (w_rand w (w_draws w), w\<lparr>w_draws := Suc (w_draws w)\<rparr>)"

section \<open>Facts\<close>

lemma ctx_Err_background [simp]: "ctx_Err background w = None"
  by (simp add: ctx_Err_def background_def)

lemma ctx_Err_WithoutCancel [simp]: "ctx_Err (WithoutCancel c) w = None"
  by (simp add: ctx_Err_def WithoutCancel_def)

lemma wf_ctx_background [simp]: "wf_ctx background"
  by (simp add: wf_ctx_def background_def)

lemma wf_ctx_WithTimeout [simp]: "wf_ctx c \<Longrightarrow> wf_ctx (WithTimeout c d w)"
  by (auto simp: wf_ctx_def WithTimeout_def split: option.splits)

lemma wf_ctx_attempt [simp]: "wf_ctx (c\<lparr>c_attempt := a\<rparr>) = wf_ctx c"
  by (simp add: wf_ctx_def)

lemma ctx_Err_attempt [simp]: "ctx_Err (c\<lparr>c_attempt := a\<rparr>) w = ctx_Err c w"
  by (simp add: ctx_Err_def)

lemma ctx_Err_cases: "wf_ctx c \<Longrightarrow> ctx_Err c w \<in> {None, Some Canceled, Some DeadlineExceeded}"
  by (auto simp: ctx_Err_def wf_ctx_def split: option.splits)

lemma WithTimeout_attempt [simp]: "c_attempt (WithTimeout c d w) = c_attempt c"
  by (auto simp: WithTimeout_def split: option.splits)

lemma time_sub_in_range [simp]: "in_int64 (time_sub t u)"
  by (simp add: time_sub_def go_int_defs)

lemma sleep_clock_mono: "sleep_or_done c d w = (b, w') \<Longrightarrow> w_clock w \<le> w_clock w'"
  by (auto simp: sleep_or_done_def Let_def split: option.splits if_splits)

lemma sleep_done_Err: "sleep_or_done c d w = (True, w') \<Longrightarrow> ctx_Err c w' \<noteq> None"
  by (auto simp: sleep_or_done_def ctx_Err_def Let_def split: option.splits if_splits)

lemma sleep_clock_bound: "sleep_or_done c d w = (b, w') \<Longrightarrow> w_clock w' \<le> w_clock w + max d 0"
  by (auto simp: sleep_or_done_def Let_def split: option.splits if_splits)

lemma sleep_timer_clock: "sleep_or_done c d w = (False, w') \<Longrightarrow> w_clock w' = w_clock w + max d 0"
  by (auto simp: sleep_or_done_def Let_def split: option.splits if_splits)

lemma sleep_more [simp]: "world.more (snd (sleep_or_done c d w)) = world.more w"
  by (auto simp: sleep_or_done_def Let_def split: option.splits if_splits)

lemma sleep_frame:
  "sleep_or_done c d w = (b, w') \<Longrightarrow>
     world.more w' = world.more w \<and> w_rand w' = w_rand w \<and> w_draws w' = w_draws w \<and> w_oob w' = w_oob w"
  by (auto simp: sleep_or_done_def Let_def split: option.splits if_splits)

lemma draw_frame:
  "draw w = (r, w') \<Longrightarrow>
     world.more w' = world.more w \<and> w_rand w' = w_rand w \<and> w_clock w' = w_clock w \<and> w_oob w' = w_oob w"
  by (auto simp: draw_def)

lemma seconds_mono_pos: "0 < d \<Longrightarrow> 0 < seconds d"
proof -
  assume d: "0 < d"
  have q: "0 \<le> go_div d 1000000000" and r: "go_rem d 1000000000 = d mod 1000000000"
    using d by (simp_all add: go_rem_def minus_div_mult_eq_mod pos_imp_zdiv_nonneg_iff)
  have "0 < float_of_int (go_div d 1000000000) + fl (float_of_int (go_rem d 1000000000) / 1000000000)"
  proof (cases "go_div d 1000000000 = 0")
    case True
    then have "0 < go_rem d 1000000000" using d by (simp add: go_rem_def)
    then have "0 < float_of_int (go_rem d 1000000000)" using float_of_int_pos by force
    then show ?thesis using True by (simp add: fl_pos)
  next
    case False
    with q have "1 \<le> float_of_int (go_div d 1000000000)" by (intro float_of_int_pos) linarith
    moreover have "0 \<le> fl (float_of_int (go_rem d 1000000000) / 1000000000)"
      using r by (intro fl_nonneg) (simp add: float_of_int_nonneg)
    ultimately show ?thesis by linarith
  qed
  then show ?thesis by (simp add: seconds_def fl_pos)
qed

end
