(* ===== verification/Circuit.thy ===== *)
theory Circuit
  imports Runtime
begin

text \<open>
  The circuit breaker of \<open>llms/middleware/circuit.go\<close>: the three-state machine \<open>breaker\<close> with its
  two critical sections \<open>allow\<close> and \<open>record\<close>. Each runs under the breaker's mutex, so concurrent
  callers are an interleaving of these two operations, each for one call: \<open>cb_step\<close>. The mutex
  itself is what makes a rule of \<open>cb_step\<close> atomic.

  The lemmas give the invariant of all reachable states, the exact trip condition in terms of the
  results recorded, the fast failure while open, the neutrality of limiter and caller errors, the
  single probe while recovering, and the interleaving that admits a second probe.
\<close>

section \<open>Configuration and state\<close>

record circuit_config =
  FailureThreshold :: int
  SuccessThreshold :: int
  OpenTimeout :: int

definition DefaultCircuitConfig :: circuit_config where
  "DefaultCircuitConfig =
     \<lparr>FailureThreshold = 5, SuccessThreshold = 3, OpenTimeout = 30 * 1000000000\<rparr>"

definition circuit_normalized :: "circuit_config \<Rightarrow> circuit_config" where
  "circuit_normalized c =
     (let d = DefaultCircuitConfig;
          c = (if FailureThreshold c < 1 then c\<lparr>FailureThreshold := FailureThreshold d\<rparr> else c);
          c = (if SuccessThreshold c < 1 then c\<lparr>SuccessThreshold := SuccessThreshold d\<rparr> else c);
          c = (if OpenTimeout c \<le> 0 then c\<lparr>OpenTimeout := OpenTimeout d\<rparr> else c)
      in c)"

datatype circuit_state = stateClosed | stateOpen | stateHalfOpen

record breaker =
  b_openedAt :: int
  b_provider :: provider_id
  b_model :: string
  b_cfg :: circuit_config
  b_state :: circuit_state
  b_failures :: int
  b_successes :: int
  b_probing :: bool

text \<open>The breaker \<open>CircuitChat\<close> and \<open>CircuitEmbeddings\<close> create for a client; the zero \<open>openedAt\<close> lies
  before every clock reading.\<close>

definition new_breaker :: "circuit_config \<Rightarrow> model_ref \<Rightarrow> breaker" where
  "new_breaker cfg m =
     \<lparr>b_openedAt = 0, b_provider = mr_Provider m, b_model = mr_Name m,
      b_cfg = circuit_normalized cfg, b_state = stateClosed, b_failures = 0, b_successes = 0,
      b_probing = False\<rparr>"

section \<open>The operations\<close>

definition trip :: "int \<Rightarrow> breaker \<Rightarrow> breaker" where
  "trip now b = b\<lparr>b_state := stateOpen, b_openedAt := now, b_failures := 0, b_successes := 0,
     b_probing := False\<rparr>"

definition allow :: "int \<Rightarrow> breaker \<Rightarrow> error option \<times> breaker" where
  "allow now b = (case b_state b of
     stateClosed \<Rightarrow> (None, b)
   | stateOpen \<Rightarrow>
       (let remaining = go_sub (OpenTimeout (b_cfg b)) (time_sub now (b_openedAt b)) in
        if remaining > 0 then (Some (CircuitOpenError (b_provider b) (b_model b) remaining), b)
        else (None, b\<lparr>b_state := stateHalfOpen, b_successes := 0, b_probing := True\<rparr>))
   | stateHalfOpen \<Rightarrow>
       (if b_probing b then (Some (CircuitOpenError (b_provider b) (b_model b) 0), b)
        else (None, b\<lparr>b_probing := True\<rparr>)))"

definition is_failure :: "error option \<Rightarrow> bool" where
  "is_failure err \<longleftrightarrow> err \<noteq> None \<and> Retryable err \<and> errors_As is_LimitError err = None"

definition record_result :: "int \<Rightarrow> error option \<Rightarrow> breaker \<Rightarrow> breaker" where
  "record_result now err b =
     (let success = (err = None); failure = is_failure err in
      if \<not> success \<and> \<not> failure then
        (if b_state b = stateHalfOpen then b\<lparr>b_probing := False\<rparr> else b)
      else case b_state b of
        stateClosed \<Rightarrow>
          (if failure then
             (let b = b\<lparr>b_failures := b_failures b + 1\<rparr> in
              if b_failures b \<ge> FailureThreshold (b_cfg b) then trip now b else b)
           else b\<lparr>b_failures := 0\<rparr>)
      | stateHalfOpen \<Rightarrow>
          (if failure then trip now b
           else
             (let b = b\<lparr>b_successes := b_successes b + 1\<rparr>;
                  b = (if b_successes b \<ge> SuccessThreshold (b_cfg b)
                       then b\<lparr>b_state := stateClosed, b_failures := 0, b_successes := 0\<rparr> else b)
              in b\<lparr>b_probing := False\<rparr>))
      | stateOpen \<Rightarrow> (if failure then trip now b else b))"

lemma circuit_normalized_pos:
  "1 \<le> FailureThreshold (circuit_normalized c) \<and> 1 \<le> SuccessThreshold (circuit_normalized c) \<and>
   0 < OpenTimeout (circuit_normalized c)"
  by (simp add: circuit_normalized_def DefaultCircuitConfig_def Let_def)

lemma trip_sel [simp]:
  "b_state (trip now b) = stateOpen" "b_openedAt (trip now b) = now" "b_failures (trip now b) = 0"
  "b_successes (trip now b) = 0" "b_probing (trip now b) = False" "b_cfg (trip now b) = b_cfg b"
  "b_provider (trip now b) = b_provider b" "b_model (trip now b) = b_model b"
  by (simp_all add: trip_def)

lemma record_cfg [simp]: "b_cfg (record_result now err b) = b_cfg b"
  by (simp add: record_result_def Let_def split: circuit_state.split)

lemma allow_cfg: "allow now b = (e, b') \<Longrightarrow> b_cfg b' = b_cfg b"
  by (auto simp: allow_def Let_def split: circuit_state.splits if_splits)

lemma not_failure_limit [simp]: "\<not> is_failure (Some (LimitError c p m r ra pm))"
  by (simp add: is_failure_def errors_As_self)

lemma not_failure_None [simp]: "\<not> is_failure None"
  by (simp add: is_failure_def)

lemma is_failure_retryable: "is_failure err \<Longrightarrow> Retryable err"
  by (simp add: is_failure_def)

section \<open>When the breaker trips\<close>

fun record_all :: "int \<Rightarrow> error option list \<Rightarrow> breaker \<Rightarrow> breaker" where
  "record_all now [] b = b"
| "record_all now (r # rs) b = record_all now rs (record_result now r b)"

text \<open>The specification: the current streak of failures, which a success breaks and every other
  error leaves alone.\<close>

fun streak :: "int \<Rightarrow> error option list \<Rightarrow> int" where
  "streak n [] = n"
| "streak n (r # rs) = streak (if r = None then 0 else if is_failure r then n + 1 else n) rs"

lemma record_all_open: "b_state b = stateOpen \<Longrightarrow> b_state (record_all now rs b) = stateOpen"
  by (induction rs arbitrary: b) (auto simp: record_result_def Let_def)

lemma record_all_closed_iff:
  assumes "b_state b = stateClosed" and "b_failures b < FailureThreshold (b_cfg b)"
    and "0 < FailureThreshold (b_cfg b)"
  shows "(b_state (record_all now rs b) = stateClosed \<longleftrightarrow>
           (\<forall>k \<le> length rs. streak (b_failures b) (take k rs) < FailureThreshold (b_cfg b))) \<and>
         (b_state (record_all now rs b) = stateClosed \<longrightarrow>
           b_failures (record_all now rs b) = streak (b_failures b) rs) \<and>
         b_state (record_all now rs b) \<in> {stateClosed, stateOpen}"
  using assms
proof (induction rs arbitrary: b)
  case (Cons r rs)
  define n where "n = (if r = None then 0 else if is_failure r then b_failures b + 1 else b_failures b)"
  let ?F = "FailureThreshold (b_cfg b)" and ?b = "record_result now r b"
  have streak: "streak (b_failures b) (r # xs) = streak n xs" for xs by (simp add: n_def)
  have split: "(\<forall>k \<le> length (r # rs). streak (b_failures b) (take k (r # rs)) < ?F) \<longleftrightarrow>
      n < ?F \<and> (\<forall>k \<le> length rs. streak n (take k rs) < ?F)" (is "?L \<longleftrightarrow> ?R")
  proof
    assume L: ?L
    have *: "streak n (take k rs) < ?F" if "k \<le> length rs" for k
      using L [rule_format, of "Suc k"] that by (simp add: n_def)
    from * [of 0] * show ?R by simp
  next
    assume R: ?R
    show ?L
    proof (intro allI impI)
      fix k assume "k \<le> length (r # rs)"
      then show "streak (b_failures b) (take k (r # rs)) < ?F"
        using R Cons.prems(2) by (cases k) (auto simp: n_def)
    qed
  qed
  show ?case
  proof (cases "n < ?F")
    case True
    then have closed: "b_state ?b = stateClosed" and n: "b_failures ?b = n"
      using Cons.prems by (auto simp: n_def record_result_def Let_def split: if_splits)
    have "b_failures ?b < FailureThreshold (b_cfg ?b)" using n True by simp
    from Cons.IH [OF closed this] Cons.prems(3) show ?thesis
      unfolding split streak using True n by auto
  next
    case False
    then have "b_state ?b = stateOpen"
      using Cons.prems by (auto simp: n_def record_result_def Let_def split: if_splits)
    then show ?thesis unfolding split using False record_all_open by simp
  qed
qed simp

section \<open>Concurrent callers\<close>

text \<open>Calls in flight remember how they were admitted: through a closed breaker, or as a probe.\<close>

datatype call_kind = Normal | Probe

record cb_sys =
  cb_breaker :: breaker
  cb_now :: int
  cb_inflight :: "call_kind list"

definition drop_at :: "nat \<Rightarrow> 'a list \<Rightarrow> 'a list" where
  "drop_at i xs = take i xs @ drop (Suc i) xs"

inductive cb_step :: "cb_sys \<Rightarrow> cb_sys \<Rightarrow> bool" where
  tick: "cb_now s \<le> t \<Longrightarrow> cb_step s (s\<lparr>cb_now := t\<rparr>)"
| admit: "allow (cb_now s) (cb_breaker s) = (None, b') \<Longrightarrow>
    cb_step s (s\<lparr>cb_breaker := b', cb_inflight := cb_inflight s @
      [if b_state (cb_breaker s) = stateClosed then Normal else Probe]\<rparr>)"
| reject: "allow (cb_now s) (cb_breaker s) = (Some e, b') \<Longrightarrow> cb_step s (s\<lparr>cb_breaker := b'\<rparr>)"
| finish: "i < length (cb_inflight s) \<Longrightarrow>
    cb_step s (s\<lparr>cb_breaker := record_result (cb_now s) err (cb_breaker s),
                cb_inflight := drop_at i (cb_inflight s)\<rparr>)"

inductive_cases cb_stepE: "cb_step s t"

inductive cb_reachable :: "circuit_config \<Rightarrow> model_ref \<Rightarrow> cb_sys \<Rightarrow> bool" for cfg m where
  start: "0 \<le> t \<Longrightarrow>
    cb_reachable cfg m \<lparr>cb_breaker = new_breaker cfg m, cb_now = t, cb_inflight = []\<rparr>"
| step: "cb_reachable cfg m s \<Longrightarrow> cb_step s s' \<Longrightarrow> cb_reachable cfg m s'"

definition breaker_inv :: "int \<Rightarrow> breaker \<Rightarrow> bool" where
  "breaker_inv now b \<longleftrightarrow>
     0 < FailureThreshold (b_cfg b) \<and> 0 < SuccessThreshold (b_cfg b) \<and> 0 < OpenTimeout (b_cfg b) \<and>
     b_openedAt b \<le> now \<and>
     0 \<le> b_failures b \<and> b_failures b < FailureThreshold (b_cfg b) \<and>
     0 \<le> b_successes b \<and> b_successes b < SuccessThreshold (b_cfg b) \<and>
     (b_state b \<noteq> stateClosed \<longrightarrow> b_failures b = 0) \<and>
     (b_state b \<noteq> stateHalfOpen \<longrightarrow> b_successes b = 0 \<and> \<not> b_probing b)"

lemma breaker_inv_new: "0 \<le> t \<Longrightarrow> breaker_inv t (new_breaker cfg m)"
  using circuit_normalized_pos [of cfg] by (simp add: breaker_inv_def new_breaker_def)

lemma breaker_inv_tick: "breaker_inv now b \<Longrightarrow> now \<le> t \<Longrightarrow> breaker_inv t b"
  by (auto simp: breaker_inv_def)

lemma breaker_inv_allow: "breaker_inv now b \<Longrightarrow> allow now b = (e, b') \<Longrightarrow> breaker_inv now b'"
  by (auto simp: breaker_inv_def allow_def Let_def split: circuit_state.splits if_splits)

lemma breaker_inv_record: "breaker_inv now b \<Longrightarrow> breaker_inv now (record_result now err b)"
  by (cases "b_state b") (auto simp: breaker_inv_def record_result_def Let_def trip_def)

lemma cb_step_inv: "cb_step s t \<Longrightarrow> breaker_inv (cb_now s) (cb_breaker s) \<Longrightarrow> breaker_inv (cb_now t) (cb_breaker t)"
  by (induction rule: cb_step.induct)
    (auto intro: breaker_inv_tick breaker_inv_allow breaker_inv_record)

lemma cb_reachable_inv: "cb_reachable cfg m s \<Longrightarrow> breaker_inv (cb_now s) (cb_breaker s)"
  by (induction rule: cb_reachable.induct) (auto simp: breaker_inv_new intro: cb_step_inv)

section \<open>Recovery\<close>

text \<open>A recovery: the states reached from an open breaker with no call in flight, until it closes
  again.\<close>

inductive cb_recovering :: "cb_sys \<Rightarrow> cb_sys \<Rightarrow> bool" for s0 where
  rec_start: "cb_recovering s0 s0"
| rec_step: "cb_recovering s0 s \<Longrightarrow> cb_step s t \<Longrightarrow> b_state (cb_breaker t) \<noteq> stateClosed \<Longrightarrow>
    cb_recovering s0 t"

definition single_probe :: "cb_sys \<Rightarrow> bool" where
  "single_probe s \<longleftrightarrow>
     (b_state (cb_breaker s) = stateOpen \<and> \<not> b_probing (cb_breaker s) \<and> cb_inflight s = []) \<or>
     (b_state (cb_breaker s) = stateHalfOpen \<and>
        cb_inflight s = (if b_probing (cb_breaker s) then [Probe] else []))"

lemma drop_at_single [simp]: "i < length [x] \<Longrightarrow> drop_at i [x] = []"
  by (simp add: drop_at_def)

lemma single_probe_step:
  "cb_step s t \<Longrightarrow> b_state (cb_breaker t) \<noteq> stateClosed \<Longrightarrow> single_probe s \<Longrightarrow> single_probe t"
proof (induction rule: cb_step.induct)
  case (tick s t)
  then show ?case by (simp add: single_probe_def)
next
  case (admit s b')
  then show ?case
    by (auto simp: single_probe_def allow_def Let_def split: circuit_state.splits if_splits)
next
  case (reject s e b')
  then show ?case
    by (auto simp: single_probe_def allow_def Let_def split: circuit_state.splits if_splits)
next
  case (finish i s err)
  then have half: "b_state (cb_breaker s) = stateHalfOpen" and "cb_inflight s = [Probe]"
    by (auto simp: single_probe_def split: if_splits)
  with finish have "drop_at i (cb_inflight s) = []" by simp
  with half finish.prems show ?case
    by (cases err) (auto simp: single_probe_def record_result_def Let_def split: if_splits)
qed

lemma cb_recovering_single_probe:
  "cb_recovering s0 s \<Longrightarrow> single_probe s0 \<Longrightarrow> single_probe s"
  by (induction rule: cb_recovering.induct) (auto intro: single_probe_step)


text \<open>Sequential probes: each caller asks, calls, and records before the next one asks.\<close>

fun probe_successes :: "int \<Rightarrow> nat \<Rightarrow> breaker \<Rightarrow> breaker option" where
  "probe_successes now 0 b = Some b"
| "probe_successes now (Suc n) b =
     (case allow now b of
        (Some e, b') \<Rightarrow> None
      | (None, b') \<Rightarrow> probe_successes now n (record_result now None b'))"

lemma probe_successes_half:
  "b_state b = stateHalfOpen \<Longrightarrow> \<not> b_probing b \<Longrightarrow>
     b_successes b + int (Suc n) = SuccessThreshold (b_cfg b) \<Longrightarrow>
     \<exists>b'. probe_successes now (Suc n) b = Some b' \<and> b_state b' = stateClosed \<and> b_failures b' = 0"
proof (induction n arbitrary: b)
  case 0
  then show ?case by (simp add: allow_def record_result_def)
next
  case (Suc n)
  let ?b = "record_result now None (b\<lparr>b_probing := True\<rparr>)"
  have "b_state ?b = stateHalfOpen" "\<not> b_probing ?b" "b_successes ?b = b_successes b + 1"
    using Suc.prems by (simp_all add: record_result_def Let_def)
  with Suc.IH [of ?b] Suc.prems have "\<exists>b'. probe_successes now (Suc n) ?b = Some b' \<and>
      b_state b' = stateClosed \<and> b_failures b' = 0" by simp
  with Suc.prems show ?case by (simp add: allow_def)
qed

lemma remaining_eq:
  assumes "b_openedAt b \<le> now" and "in_int64 (OpenTimeout (b_cfg b))" and "0 < OpenTimeout (b_cfg b)"
  shows "go_sub (OpenTimeout (b_cfg b)) (time_sub now (b_openedAt b)) > 0 \<longleftrightarrow>
      now < b_openedAt b + OpenTimeout (b_cfg b)"
    and "now < b_openedAt b + OpenTimeout (b_cfg b) \<Longrightarrow>
      go_sub (OpenTimeout (b_cfg b)) (time_sub now (b_openedAt b)) =
        b_openedAt b + OpenTimeout (b_cfg b) - now"
proof -
  have "in_int64 (OpenTimeout (b_cfg b) - time_sub now (b_openedAt b))"
    using assms by (auto simp: time_sub_def go_int_defs)
  then have *: "go_sub (OpenTimeout (b_cfg b)) (time_sub now (b_openedAt b)) =
      OpenTimeout (b_cfg b) - min MaxInt (now - b_openedAt b)"
    using assms by (simp add: go_sub_exact time_sub_def go_int_defs)
  show "go_sub (OpenTimeout (b_cfg b)) (time_sub now (b_openedAt b)) > 0 \<longleftrightarrow>
      now < b_openedAt b + OpenTimeout (b_cfg b)"
    and "now < b_openedAt b + OpenTimeout (b_cfg b) \<Longrightarrow>
      go_sub (OpenTimeout (b_cfg b)) (time_sub now (b_openedAt b)) =
        b_openedAt b + OpenTimeout (b_cfg b) - now"
    using assms unfolding * by (auto simp: in_int64_def)
qed

lemma allow_open_probe:
  assumes "breaker_inv now b" and "in_int64 (OpenTimeout (b_cfg b))" and "b_state b = stateOpen"
    and "b_openedAt b + OpenTimeout (b_cfg b) \<le> now"
  shows "allow now b = (None, b\<lparr>b_state := stateHalfOpen, b_successes := 0, b_probing := True\<rparr>)"
  using assms remaining_eq(1) [of b now] by (auto simp: allow_def Let_def breaker_inv_def)

section \<open>Properties\<close>

text \<open>
  C5: in every state any interleaving of concurrent callers reaches, the breaker's counters are
  consistent: the failure streak is below the threshold and counted only while closed, successes
  are below their threshold and counted only while half-open, the probe gate is held only while
  half-open, and the opening instant is not in the future.
\<close>

theorem breaker_reachable_invariant:
  assumes "cb_reachable cfg m s"
  shows "breaker_inv (cb_now s) (cb_breaker s)"
  using assms by (rule cb_reachable_inv)

theorem breaker_reachable_invariant_witness:
  "breaker_inv 7 (new_breaker (DefaultCircuitConfig\<lparr>FailureThreshold := 0\<rparr>) \<lparr>mr_Provider = [], mr_Name = []\<rparr>)"
  using breaker_reachable_invariant [OF cb_reachable.start [of 7]] by simp

text \<open>
  a closed breaker stays closed through a list of call results exactly as long as no point of
  the list ends a streak of \<open>FailureThreshold\<close> failures, where a success breaks the streak and limiter
  rejections and caller errors leave it alone; otherwise it is open.
\<close>

theorem breaker_trips_on_streak:
  "(b_state (record_all now rs (new_breaker cfg m)) = stateClosed \<longleftrightarrow>
      (\<forall>k \<le> length rs. streak 0 (take k rs) < FailureThreshold (circuit_normalized cfg))) \<and>
   b_state (record_all now rs (new_breaker cfg m)) \<in> {stateClosed, stateOpen}"
  using record_all_closed_iff [of "new_breaker cfg m" now rs] circuit_normalized_pos [of cfg]
  by (auto simp: new_breaker_def)

text \<open>The bounded quantifier of the trip condition, applied: five rate-limit failures open a default
  breaker, and a limiter rejection among four does not.\<close>

theorem breaker_trips_on_streak_witness:
  "b_state (record_all 0 (replicate 5 (Some (ProviderError [] [] ErrorKindRateLimited 429 [] 0 None)))
     (new_breaker DefaultCircuitConfig \<lparr>mr_Provider = [], mr_Name = []\<rparr>)) = stateOpen \<and>
   b_state (record_all 0 [Some (LimitError None [] [] [] 0 False)]
     (new_breaker DefaultCircuitConfig \<lparr>mr_Provider = [], mr_Name = []\<rparr>)) = stateClosed"
proof
  let ?r = "Some (ProviderError [] [] ErrorKindRateLimited 429 [] 0 None)"
  let ?b = "new_breaker DefaultCircuitConfig \<lparr>mr_Provider = [], mr_Name = []\<rparr>"
  have F: "FailureThreshold (circuit_normalized DefaultCircuitConfig) = 5"
    by (simp add: circuit_normalized_def DefaultCircuitConfig_def Let_def)
  have "is_failure ?r"
    by (simp add: is_failure_def ProviderError_Retryable_def error_kind_consts errors_As_def)
  then have "streak 0 (take 5 (replicate 5 ?r)) = 5" by (simp add: numeral_eq_Suc)
  then have "\<not> (\<forall>k \<le> length (replicate 5 ?r). streak 0 (take k (replicate 5 ?r)) <
      FailureThreshold (circuit_normalized DefaultCircuitConfig))"
    using F by (auto intro!: exI [of _ 5])
  then show "b_state (record_all 0 (replicate 5 ?r) ?b) = stateOpen"
    using breaker_trips_on_streak [where now = 0 and rs = "replicate 5 ?r" and cfg = DefaultCircuitConfig
        and m = "\<lparr>mr_Provider = [], mr_Name = []\<rparr>"] by blast
  show "b_state (record_all 0 [Some (LimitError None [] [] [] 0 False)] ?b) = stateClosed"
    using breaker_trips_on_streak [where now = 0 and rs = "[Some (LimitError None [] [] [] 0 False)]"
        and cfg = DefaultCircuitConfig and m = "\<lparr>mr_Provider = [], mr_Name = []\<rparr>"] F
    by (auto simp: le_Suc_eq)
qed

text \<open>
  while a breaker recovers (from an open breaker with nothing in flight, up to its closing) at
  most one call is in flight, however callers interleave: the single probe.
\<close>

theorem recovering_breaker_admits_one_probe:
  assumes "cb_recovering s0 s" and "b_state (cb_breaker s0) = stateOpen"
    and "\<not> b_probing (cb_breaker s0)" and "cb_inflight s0 = []"
  shows "length (cb_inflight s) \<le> 1 \<and> (cb_inflight s \<noteq> [] \<longrightarrow> b_probing (cb_breaker s))"
proof -
  from assms(2-4) have "single_probe s0" by (simp add: single_probe_def)
  from cb_recovering_single_probe [OF assms(1) this] show ?thesis
    by (auto simp: single_probe_def split: if_splits)
qed

theorem recovering_breaker_admits_one_probe_witness:
  "length (cb_inflight \<lparr>cb_breaker = trip 0 (new_breaker DefaultCircuitConfig \<lparr>mr_Provider = [], mr_Name = []\<rparr>),
      cb_now = 0, cb_inflight = []\<rparr>) \<le> 1"
  using recovering_breaker_admits_one_probe [OF cb_recovering.rec_start,
      of "\<lparr>cb_breaker = trip 0 (new_breaker DefaultCircuitConfig \<lparr>mr_Provider = [], mr_Name = []\<rparr>),
      cb_now = 0, cb_inflight = []\<rparr>"]
  by simp

text \<open>
  C38: an open breaker recovers: once \<open>OpenTimeout\<close> has passed since it opened, \<open>SuccessThreshold\<close>
  successful probes in sequence are all admitted and close it, with no failure counted; before that
  instant every caller is rejected with the exact remaining time, and the breaker is unchanged.
\<close>

theorem open_breaker_recovers:
  assumes "breaker_inv now b" and "in_int64 (OpenTimeout (b_cfg b))" and "b_state b = stateOpen"
  shows "(b_openedAt b + OpenTimeout (b_cfg b) \<le> now \<longrightarrow>
           (\<exists>b'. probe_successes now (nat (SuccessThreshold (b_cfg b))) b = Some b' \<and>
                 b_state b' = stateClosed \<and> b_failures b' = 0)) \<and>
         (now < b_openedAt b + OpenTimeout (b_cfg b) \<longrightarrow>
           allow now b = (Some (CircuitOpenError (b_provider b) (b_model b)
             (b_openedAt b + OpenTimeout (b_cfg b) - now)), b))"
proof (intro conjI impI)
  assume "b_openedAt b + OpenTimeout (b_cfg b) \<le> now"
  note allowed = allow_open_probe [OF assms this]
  let ?b = "b\<lparr>b_state := stateHalfOpen, b_successes := 0, b_probing := True\<rparr>"
  let ?c = "record_result now None ?b"
  obtain n where n: "nat (SuccessThreshold (b_cfg b)) = Suc n" "int (Suc n) = SuccessThreshold (b_cfg b)"
    using assms(1) by (intro that [of "nat (SuccessThreshold (b_cfg b)) - 1"]) (auto simp: breaker_inv_def)
  show "\<exists>b'. probe_successes now (nat (SuccessThreshold (b_cfg b))) b = Some b' \<and>
      b_state b' = stateClosed \<and> b_failures b' = 0"
  proof (cases n)
    case 0
    with n allowed show ?thesis by (simp add: record_result_def)
  next
    case (Suc k)
    have "b_state ?c = stateHalfOpen" "\<not> b_probing ?c" "b_successes ?c = 1"
      using n Suc by (simp_all add: record_result_def Let_def)
    then have "\<exists>b'. probe_successes now (Suc k) ?c = Some b' \<and> b_state b' = stateClosed \<and> b_failures b' = 0"
      using n Suc by (intro probe_successes_half) simp_all
    with n Suc allowed show ?thesis by simp
  qed
next
  assume "now < b_openedAt b + OpenTimeout (b_cfg b)"
  then show "allow now b = (Some (CircuitOpenError (b_provider b) (b_model b)
      (b_openedAt b + OpenTimeout (b_cfg b) - now)), b)"
    using assms remaining_eq [of b now] by (auto simp: allow_def Let_def breaker_inv_def)
qed

theorem open_breaker_recovers_witness:
  "allow 5 (trip 0 (new_breaker DefaultCircuitConfig \<lparr>mr_Provider = ''p'', mr_Name = ''m''\<rparr>)) =
     (Some (CircuitOpenError ''p'' ''m'' 29999999995),
      trip 0 (new_breaker DefaultCircuitConfig \<lparr>mr_Provider = ''p'', mr_Name = ''m''\<rparr>))"
proof -
  let ?b = "trip 0 (new_breaker DefaultCircuitConfig \<lparr>mr_Provider = ''p'', mr_Name = ''m''\<rparr>)"
  have "breaker_inv 5 ?b"
    by (simp add: breaker_inv_def new_breaker_def trip_def circuit_normalized_def DefaultCircuitConfig_def Let_def)
  moreover have "in_int64 (OpenTimeout (b_cfg ?b))" "b_state ?b = stateOpen"
    by (simp_all add: new_breaker_def trip_def circuit_normalized_def DefaultCircuitConfig_def Let_def go_int_defs)
  ultimately show ?thesis
    using open_breaker_recovers [of 5 ?b]
    by (simp add: new_breaker_def trip_def circuit_normalized_def DefaultCircuitConfig_def Let_def)
qed

text \<open>
  the single-probe gate is not kept when a call admitted before the breaker opened is still in
  flight: some interleaving of three callers reaches a half-open breaker with two probes in flight,
  because the late neutral result of the old call releases the gate the first probe holds.
\<close>

theorem late_result_admits_second_probe:
  "\<exists>s. cb_reachable \<lparr>FailureThreshold = 1, SuccessThreshold = 3, OpenTimeout = 10\<rparr> m s \<and>
       b_state (cb_breaker s) = stateHalfOpen \<and> cb_inflight s = [Probe, Probe]"
proof -
  let ?cfg = "\<lparr>FailureThreshold = 1, SuccessThreshold = 3, OpenTimeout = 10\<rparr>"
  let ?b0 = "new_breaker ?cfg m"
  let ?fail = "Some (ProviderError [] [] ErrorKindRateLimited 429 [] 0 None)"
  have F: "is_failure ?fail"
    by (simp add: is_failure_def ProviderError_Retryable_def error_kind_consts errors_As_def)
  have N: "\<not> is_failure (Some Canceled)" by (simp add: is_failure_def)
  have b0: "b_state ?b0 = stateClosed" "b_cfg ?b0 = ?cfg"
    by (simp_all add: new_breaker_def circuit_normalized_def Let_def DefaultCircuitConfig_def)
  let ?open = "trip 0 (?b0\<lparr>b_failures := b_failures ?b0 + 1\<rparr>)"
  let ?half = "?open\<lparr>b_state := stateHalfOpen, b_successes := 0, b_probing := True\<rparr>"
  note reach = cb_reachable.step
  have s0: "cb_reachable ?cfg m \<lparr>cb_breaker = ?b0, cb_now = 0, cb_inflight = []\<rparr>"
    by (rule cb_reachable.start) simp
  have s1: "cb_reachable ?cfg m \<lparr>cb_breaker = ?b0, cb_now = 0, cb_inflight = [Normal]\<rparr>"
    using reach [OF s0 cb_step.admit, of ?b0] b0 by (simp add: allow_def)
  have s2: "cb_reachable ?cfg m \<lparr>cb_breaker = ?b0, cb_now = 0, cb_inflight = [Normal, Normal]\<rparr>"
    using reach [OF s1 cb_step.admit, of ?b0] b0 by (simp add: allow_def)
  have s3: "cb_reachable ?cfg m \<lparr>cb_breaker = ?open, cb_now = 0, cb_inflight = [Normal]\<rparr>"
    using reach [OF s2 cb_step.finish [of 0 _ ?fail]] b0 F
    by (simp add: record_result_def Let_def drop_at_def new_breaker_def)
  have s4: "cb_reachable ?cfg m \<lparr>cb_breaker = ?open, cb_now = 10, cb_inflight = [Normal]\<rparr>"
    using reach [OF s3 cb_step.tick [of _ 10]] by simp
  have s5: "cb_reachable ?cfg m \<lparr>cb_breaker = ?half, cb_now = 10, cb_inflight = [Normal, Probe]\<rparr>"
    using reach [OF s4 cb_step.admit, of ?half] b0
    by (simp add: allow_def Let_def time_sub_def go_sub_def go_int_defs)
  have s6: "cb_reachable ?cfg m \<lparr>cb_breaker = ?half\<lparr>b_probing := False\<rparr>, cb_now = 10, cb_inflight = [Probe]\<rparr>"
    using reach [OF s5 cb_step.finish [of 0 _ "Some Canceled"]] N
    by (simp add: record_result_def Let_def drop_at_def)
  let ?s = "\<lparr>cb_breaker = ?half, cb_now = 10, cb_inflight = [Probe, Probe]\<rparr>"
  have "cb_reachable ?cfg m ?s"
    using reach [OF s6 cb_step.admit, of ?half] by (simp add: allow_def)
  moreover have "b_state (cb_breaker ?s) = stateHalfOpen \<and> cb_inflight ?s = [Probe, Probe]" by simp
  ultimately show ?thesis by blast
qed

end
