(* ===== verification/Retry.thy ===== *)
theory Retry
  imports Runtime
begin

text \<open>
  The retry policy of \<open>llms/middleware/retry.go\<close>: configuration with its normalisation, the jittered
  backoff in floats, and the attempt loop \<open>retry\<close>, which is generic in the call it repeats. The
  lemmas bound the number of attempts and the time spent waiting, and say which error comes out.
\<close>

section \<open>Configuration\<close>

record retry_config =
  MaxAttempts :: int
  InitialDelay :: int
  MaxDelay :: int
  BackoffFactor :: gofloat
  Jitter :: gofloat

definition DefaultRetryConfig :: retry_config where
  "DefaultRetryConfig = \<lparr>MaxAttempts = 5, InitialDelay = 1000000000, MaxDelay = 30 * 1000000000,
     BackoffFactor = Fin 2, Jitter = Fin (fl (1 / 10))\<rparr>"

text \<open>The five checks of \<open>normalized\<close>, one per field, in the order of the source.\<close>

definition norm_MaxAttempts :: "retry_config \<Rightarrow> retry_config" where
  "norm_MaxAttempts c = (if MaxAttempts c < 1 then c\<lparr>MaxAttempts := MaxAttempts DefaultRetryConfig\<rparr> else c)"

definition norm_InitialDelay :: "retry_config \<Rightarrow> retry_config" where
  "norm_InitialDelay c = (if InitialDelay c \<le> 0 then c\<lparr>InitialDelay := InitialDelay DefaultRetryConfig\<rparr> else c)"

definition norm_MaxDelay :: "retry_config \<Rightarrow> retry_config" where
  "norm_MaxDelay c = (if MaxDelay c \<le> 0 then c\<lparr>MaxDelay := MaxDelay DefaultRetryConfig\<rparr> else c)"

definition norm_BackoffFactor :: "retry_config \<Rightarrow> retry_config" where
  "norm_BackoffFactor c = (case BackoffFactor c of
     Fin x \<Rightarrow> if x < 1 then c\<lparr>BackoffFactor := BackoffFactor DefaultRetryConfig\<rparr> else c
   | _ \<Rightarrow> c\<lparr>BackoffFactor := BackoffFactor DefaultRetryConfig\<rparr>)"

definition norm_Jitter :: "retry_config \<Rightarrow> retry_config" where
  "norm_Jitter c = (case Jitter c of
     Fin x \<Rightarrow> if x < 0 then c\<lparr>Jitter := Fin 0\<rparr> else if x > 1 then c\<lparr>Jitter := Fin 1\<rparr> else c
   | _ \<Rightarrow> c\<lparr>Jitter := Fin 0\<rparr>)"

definition retry_normalized :: "retry_config \<Rightarrow> retry_config" where
  "retry_normalized c =
     norm_Jitter (norm_BackoffFactor (norm_MaxDelay (norm_InitialDelay (norm_MaxAttempts c))))"

definition retryOrDefault :: "retry_config option \<Rightarrow> retry_config" where
  "retryOrDefault c = (case c of None \<Rightarrow> DefaultRetryConfig | Some c \<Rightarrow> c)"

text \<open>The value of a finite float; a normalised configuration has no other.\<close>

definition fin_val :: "gofloat \<Rightarrow> rat" where
  "fin_val x = (case x of Fin q \<Rightarrow> q | _ \<Rightarrow> 0)"

section \<open>Backoff\<close>

definition jittered :: "int \<Rightarrow> rat \<Rightarrow> 'a world_scheme \<Rightarrow> int \<times> 'a world_scheme" where
  "jittered d fraction w =
     (if fraction \<le> 0 then (d, w)
      else let (r, w) = draw w;
               delta = fl (fl (fl (r * 2) - 1) * fraction)
           in (max (float_to_int (w_oob w) (fl (float_of_int d * fl (1 + delta)))) 0, w))"

definition next_delay :: "retry_config \<Rightarrow> (rat \<Rightarrow> int) \<Rightarrow> int \<Rightarrow> int" where
  "next_delay cfg oob delay =
     min (float_to_int oob (fl (float_of_int delay * fin_val (BackoffFactor cfg)))) (MaxDelay cfg)"

definition backoff_wait :: "retry_config \<Rightarrow> int \<Rightarrow> error option \<Rightarrow> int" where
  "backoff_wait cfg delay err =
     (let wait = delay; wait = (if RetryAfter err > wait then RetryAfter err else wait)
      in min wait (MaxDelay cfg))"

section \<open>The attempt loop\<close>

type_synonym ('r, 'a) call = "ctx \<Rightarrow> 'a world_scheme \<Rightarrow> ('r \<times> error option) \<times> 'a world_scheme"

definition withAttempt :: "ctx \<Rightarrow> int \<Rightarrow> ctx" where
  "withAttempt c n = c\<lparr>c_attempt := Some n\<rparr>"

definition AttemptFromContext :: "ctx \<Rightarrow> int \<times> bool" where
  "AttemptFromContext c = (case c_attempt c of None \<Rightarrow> (0, False) | Some n \<Rightarrow> (n, True))"

function retry_loop ::
  "ctx \<Rightarrow> retry_config \<Rightarrow> 'r \<Rightarrow> ('r, 'a) call \<Rightarrow> int \<Rightarrow> int \<Rightarrow> 'a world_scheme \<Rightarrow>
     ('r \<times> error option) \<times> 'a world_scheme" where
  "retry_loop c cfg zero call attempt delay w =
     (if attempt > MaxAttempts cfg then ((zero, None), w)
      else case call (withAttempt c attempt) w of ((resp, err), w) \<Rightarrow>
        if err = None \<or> \<not> Retryable err then ((resp, err), w)
        else if attempt = MaxAttempts cfg then ((resp, err), w)
        else case jittered (backoff_wait cfg delay err) (fin_val (Jitter cfg)) w of (wait, w) \<Rightarrow>
          case sleep_or_done c wait w of (ended, w) \<Rightarrow>
            if ended then ((zero, ctx_Err c w), w)
            else retry_loop c cfg zero call (attempt + 1) (next_delay cfg (w_oob w) delay) w)"
  by pat_completeness auto
termination
  by (relation "measure (\<lambda>(c, cfg, zero, call, attempt, delay, w). nat (MaxAttempts cfg + 1 - attempt))") auto

declare retry_loop.simps [simp del]

definition retry :: "ctx \<Rightarrow> retry_config \<Rightarrow> 'r \<Rightarrow> ('r, 'a) call \<Rightarrow> 'a world_scheme \<Rightarrow>
    ('r \<times> error option) \<times> 'a world_scheme" where
  "retry c cfg zero call w = retry_loop c cfg zero call 1 (InitialDelay cfg) w"

section \<open>Facts\<close>

text \<open>Each field is normalised on its own.\<close>

lemma norm_frame [simp]:
  "InitialDelay (norm_MaxAttempts c) = InitialDelay c" "MaxDelay (norm_MaxAttempts c) = MaxDelay c"
  "BackoffFactor (norm_MaxAttempts c) = BackoffFactor c" "Jitter (norm_MaxAttempts c) = Jitter c"
  "MaxAttempts (norm_InitialDelay c) = MaxAttempts c" "MaxDelay (norm_InitialDelay c) = MaxDelay c"
  "BackoffFactor (norm_InitialDelay c) = BackoffFactor c" "Jitter (norm_InitialDelay c) = Jitter c"
  "MaxAttempts (norm_MaxDelay c) = MaxAttempts c" "InitialDelay (norm_MaxDelay c) = InitialDelay c"
  "BackoffFactor (norm_MaxDelay c) = BackoffFactor c" "Jitter (norm_MaxDelay c) = Jitter c"
  "MaxAttempts (norm_BackoffFactor c) = MaxAttempts c" "InitialDelay (norm_BackoffFactor c) = InitialDelay c"
  "MaxDelay (norm_BackoffFactor c) = MaxDelay c" "Jitter (norm_BackoffFactor c) = Jitter c"
  "MaxAttempts (norm_Jitter c) = MaxAttempts c" "InitialDelay (norm_Jitter c) = InitialDelay c"
  "MaxDelay (norm_Jitter c) = MaxDelay c" "BackoffFactor (norm_Jitter c) = BackoffFactor c"
  by (simp_all add: norm_MaxAttempts_def norm_InitialDelay_def norm_MaxDelay_def norm_BackoffFactor_def
      norm_Jitter_def split: gofloat.split)

lemma norm_own:
  "MaxAttempts (norm_MaxAttempts c) = (if MaxAttempts c < 1 then 5 else MaxAttempts c)"
  "InitialDelay (norm_InitialDelay c) = (if InitialDelay c \<le> 0 then 1000000000 else InitialDelay c)"
  "MaxDelay (norm_MaxDelay c) = (if MaxDelay c \<le> 0 then 30000000000 else MaxDelay c)"
  "BackoffFactor (norm_BackoffFactor c) = (case BackoffFactor c of Fin x \<Rightarrow> if x < 1 then Fin 2 else Fin x | _ \<Rightarrow> Fin 2)"
  "Jitter (norm_Jitter c) = (case Jitter c of Fin x \<Rightarrow> Fin (max 0 (min 1 x)) | _ \<Rightarrow> Fin 0)"
  by (simp_all add: norm_MaxAttempts_def norm_InitialDelay_def norm_MaxDelay_def norm_BackoffFactor_def
      norm_Jitter_def DefaultRetryConfig_def split: gofloat.split)

lemma retry_normalized_sel:
  "MaxAttempts (retry_normalized c) = (if MaxAttempts c < 1 then 5 else MaxAttempts c)"
  "InitialDelay (retry_normalized c) = (if InitialDelay c \<le> 0 then 1000000000 else InitialDelay c)"
  "MaxDelay (retry_normalized c) = (if MaxDelay c \<le> 0 then 30000000000 else MaxDelay c)"
  "BackoffFactor (retry_normalized c) = (case BackoffFactor c of Fin x \<Rightarrow> if x < 1 then Fin 2 else Fin x | _ \<Rightarrow> Fin 2)"
  "Jitter (retry_normalized c) = (case Jitter c of Fin x \<Rightarrow> Fin (max 0 (min 1 x)) | _ \<Rightarrow> Fin 0)"
  by (simp_all only: retry_normalized_def norm_frame norm_own)

lemma retry_normalized_ok:
  "1 \<le> MaxAttempts (retry_normalized c) \<and> 0 < InitialDelay (retry_normalized c) \<and>
   0 < MaxDelay (retry_normalized c) \<and>
   (\<exists>x. BackoffFactor (retry_normalized c) = Fin x \<and> 1 \<le> x) \<and>
   (\<exists>x. Jitter (retry_normalized c) = Fin x \<and> 0 \<le> x \<and> x \<le> 1)"
  by (auto simp: retry_normalized_sel split: gofloat.split)

lemma withAttempt_sel [simp]:
  "c_attempt (withAttempt c n) = Some n" "c_done (withAttempt c n) = c_done c"
  by (simp_all add: withAttempt_def)

lemma AttemptFromContext_withAttempt: "AttemptFromContext (withAttempt c n) = (n, True)"
  by (simp add: AttemptFromContext_def)

lemma jittered_frame:
  "jittered d f w = (d', w') \<Longrightarrow>
     world.more w' = world.more w \<and> w_clock w' = w_clock w \<and> w_oob w' = w_oob w"
  by (auto simp: jittered_def draw_def Let_def split: if_splits)

lemma jittered_off [simp]: "f \<le> 0 \<Longrightarrow> jittered d f w = (d, w)"
  by (simp add: jittered_def)

lemma backoff_wait_le: "backoff_wait cfg delay err \<le> MaxDelay cfg"
  by (simp add: backoff_wait_def Let_def)

lemma next_delay_le: "next_delay cfg oob delay \<le> MaxDelay cfg"
  by (simp add: next_delay_def)

lemma ctx_Err_not_retryable: "wf_ctx c \<Longrightarrow> \<not> Retryable (ctx_Err c w)"
  using ctx_Err_cases [of c w] by auto

text \<open>A call that logs the attempt number its context carries, as the model's way to count calls.\<close>

definition trails_attempt :: "('r, 'a) call \<Rightarrow> ('a world_scheme \<Rightarrow> int option list) \<Rightarrow> bool" where
  "trails_attempt call trail \<longleftrightarrow>
     (\<forall>w w'. world.more w = world.more w' \<longrightarrow> trail w = trail w') \<and> (\<forall>c w r e w'. call c w = ((r, e), w') \<longrightarrow>
     trail w' = trail w @ [c_attempt c])"

lemma trails_attempt_call:
  assumes "trails_attempt call trail" and "call c w = ((r, e), w')"
  shows "trail w' = trail w @ [c_attempt c]"
  by (rule assms(1) [unfolded trails_attempt_def, THEN conjunct2, rule_format, OF assms(2)])

lemma trails_attempt_frame:
  assumes "trails_attempt call trail" and "world.more w = world.more w'"
  shows "trail w = trail w'"
  by (rule assms(1) [unfolded trails_attempt_def, THEN conjunct1, rule_format, OF assms(2)])

text \<open>One round of the loop: it stops with the call's result, the context ends during the backoff, or
  the next attempt follows.\<close>

lemma retry_loop_cases:
  assumes le: "attempt \<le> MaxAttempts cfg"
    and run: "retry_loop c cfg zero call attempt delay w = (re, w')"
  obtains (stop) "call (withAttempt c attempt) w = (re, w')"
      "snd re = None \<or> \<not> Retryable (snd re) \<or> attempt = MaxAttempts cfg"
  | (ended) r1 e1 w1 wait w2 where "call (withAttempt c attempt) w = ((r1, e1), w1)"
      "attempt < MaxAttempts cfg"
      "jittered (backoff_wait cfg delay e1) (fin_val (Jitter cfg)) w1 = (wait, w2)"
      "sleep_or_done c wait w2 = (True, w')" "re = (zero, ctx_Err c w')"
  | (again) r1 e1 w1 wait w2 w3 where "call (withAttempt c attempt) w = ((r1, e1), w1)"
      "attempt < MaxAttempts cfg"
      "jittered (backoff_wait cfg delay e1) (fin_val (Jitter cfg)) w1 = (wait, w2)"
      "sleep_or_done c wait w2 = (False, w3)"
      "retry_loop c cfg zero call (attempt + 1) (next_delay cfg (w_oob w3) delay) w3 = (re, w')"
proof -
  obtain r1 e1 w1 where call: "call (withAttempt c attempt) w = ((r1, e1), w1)" by (metis prod.exhaust)
  obtain wait w2 where jit: "jittered (backoff_wait cfg delay e1) (fin_val (Jitter cfg)) w1 = (wait, w2)"
    by (metis prod.exhaust)
  obtain fin w3 where sl: "sleep_or_done c wait w2 = (fin, w3)" by (metis prod.exhaust)
  note run' = run [unfolded retry_loop.simps [of c cfg zero call attempt delay w] call prod.case jit sl]
  show ?thesis
  proof (cases "e1 = None \<or> \<not> Retryable e1 \<or> attempt = MaxAttempts cfg")
    case True
    with run' le have "re = (r1, e1)" "w' = w1" by (auto split: if_splits)
    with True call show ?thesis by (intro stop) auto
  next
    case False
    with le have lt: "attempt < MaxAttempts cfg" by auto
    show ?thesis
    proof (cases fin)
      case True
      with False run' lt have "re = (zero, ctx_Err c w3)" "w' = w3" by auto
      with call lt jit sl True show ?thesis by (intro ended) auto
    next
      case go: False
      with False run' lt
      have "retry_loop c cfg zero call (attempt + 1) (next_delay cfg (w_oob w3) delay) w3 = (re, w')" by auto
      with call lt jit sl go show ?thesis by (intro again) auto
    qed
  qed
qed

lemma retry_loop_attempts:
  assumes trail: "trails_attempt call trail" and c: "wf_ctx c"
  shows "attempt \<le> MaxAttempts cfg \<Longrightarrow> retry_loop c cfg zero call attempt delay w = ((r, e), w') \<Longrightarrow>
     \<exists>n. attempt \<le> n \<and> n \<le> MaxAttempts cfg \<and> trail w' = trail w @ map Some [attempt..n] \<and>
       (Retryable e \<longrightarrow> n = MaxAttempts cfg)"
proof (induction "nat (MaxAttempts cfg - attempt)" arbitrary: attempt delay w rule: less_induct)
  case less
  have call: "trail w1 = trail w @ [Some attempt]"
    if "call (withAttempt c attempt) w = ((r1, e1), w1)" for r1 e1 w1
    using trails_attempt_call [OF trail that] by simp
  note frame = trails_attempt_frame [OF trail]
  from less.prems show ?case
  proof (cases rule: retry_loop_cases)
    case stop
    with call less.prems(1) show ?thesis by (intro exI [of _ attempt]) auto
  next
    case (ended r1 e1 w1 wait w2)
    then have "trail w' = trail w @ [Some attempt]"
      using call jittered_frame sleep_frame frame by metis
    with ended ctx_Err_not_retryable [OF c] show ?thesis by (intro exI [of _ attempt]) auto
  next
    case (again r1 e1 w1 wait w2 w3)
    then have t3: "trail w3 = trail w @ [Some attempt]"
      using call jittered_frame sleep_frame frame by metis
    from less.hyps [OF _ _ again(5)] again(2) obtain n where
      n: "attempt + 1 \<le> n" "n \<le> MaxAttempts cfg" "trail w' = trail w3 @ map Some [attempt + 1..n]"
         "Retryable e \<longrightarrow> n = MaxAttempts cfg" by auto
    then have "trail w' = trail w @ map Some [attempt..n]" using t3 by (simp add: upto_rec1)
    with n show ?thesis by (intro exI [of _ n]) auto
  qed
qed

text \<open>A call that takes no time, so that the clock measures the backoffs alone.\<close>

definition instant :: "('r, 'a) call \<Rightarrow> bool" where
  "instant call \<longleftrightarrow> (\<forall>c w r w'. call c w = (r, w') \<longrightarrow> w_clock w' = w_clock w)"

lemma instant_clock: "instant call \<Longrightarrow> call c w = (r, w') \<Longrightarrow> w_clock w' = w_clock w"
  by (cases r) (simp add: instant_def)

lemma retry_loop_clock:
  assumes inst: "instant call" and jit: "fin_val (Jitter cfg) \<le> 0" and max: "0 \<le> MaxDelay cfg"
  shows "attempt \<le> MaxAttempts cfg \<Longrightarrow> retry_loop c cfg zero call attempt delay w = (re, w') \<Longrightarrow>
     w_clock w' \<le> w_clock w + (MaxAttempts cfg - attempt) * MaxDelay cfg"
proof (induction "nat (MaxAttempts cfg - attempt)" arbitrary: attempt delay w rule: less_induct)
  case less
  have slept: "w_clock w3 \<le> w_clock w + MaxDelay cfg"
    if "call (withAttempt c attempt) w = (x, w1)"
      and "jittered (backoff_wait cfg delay e1) (fin_val (Jitter cfg)) w1 = (wait, w2)"
      and "sleep_or_done c wait w2 = (b, w3)" for x w1 e1 wait w2 b w3
  proof -
    from that(2) jit have "wait = backoff_wait cfg delay e1" "w2 = w1" by simp_all
    moreover from inst that(1) have "w_clock w1 = w_clock w" by (rule instant_clock)
    ultimately show ?thesis
      using sleep_clock_bound [OF that(3)] backoff_wait_le [of cfg delay e1] max by simp
  qed
  from less.prems show ?case
  proof (cases rule: retry_loop_cases)
    case stop
    have "w_clock w' = w_clock w" by (rule instant_clock [OF inst stop(1)])
    with less.prems(1) max show ?thesis by simp
  next
    case (ended r1 e1 w1 wait w2)
    have "MaxDelay cfg \<le> (MaxAttempts cfg - attempt) * MaxDelay cfg"
      using ended(2) max mult_right_mono [of 1 "MaxAttempts cfg - attempt" "MaxDelay cfg"] by simp
    with slept [OF ended(1,3,4)] show ?thesis by linarith
  next
    case (again r1 e1 w1 wait w2 w3)
    from less.hyps [OF _ _ again(5)] again(2)
    have "w_clock w' \<le> w_clock w3 + (MaxAttempts cfg - (attempt + 1)) * MaxDelay cfg" by simp
    with slept [OF again(1,3,4)] show ?thesis by (simp add: algebra_simps)
  qed
qed

lemma fl_power10: "fl (10 ^ 19) = 10 ^ 19"
proof -
  have "representable (10 ^ 19)"
    unfolding representable_def by (rule exI [of _ "19073486328125"], rule exI [of _ 19]) simp
  then show ?thesis by (rule fl_exact)
qed

section \<open>Properties\<close>

text \<open>
  C4: \<open>retry\<close> makes at least one and at most \<open>MaxAttempts\<close> calls, whose contexts carry the attempt
  numbers 1, 2, ... in order with no gap; and when it returns a retryable error it has used all of
  them, so it never gives up early on an error worth retrying.
\<close>

theorem retry_attempts_numbered_and_bounded:
  assumes "trails_attempt call trail" and "wf_ctx c" and "1 \<le> MaxAttempts cfg"
    and "retry c cfg zero call w = ((r, e), w')"
  shows "\<exists>n. 1 \<le> n \<and> n \<le> MaxAttempts cfg \<and>
     trail w' = trail w @ map Some [1..n] \<and>
     (Retryable e \<longrightarrow> n = MaxAttempts cfg)"
  using retry_loop_attempts [OF assms(1-3)] assms(4) unfolding retry_def by blast

text \<open>A world with a trail, and a call that logs and fails: it exhausts the default five attempts.\<close>

record trail_world = world +
  tw_trail :: "int option list"

definition timeout_error :: error where
  "timeout_error = ProviderError [] [] ErrorKindTimeout 0 [] 0 None"

definition failing_call :: "ctx \<Rightarrow> trail_world \<Rightarrow> (unit \<times> error option) \<times> trail_world" where
  "failing_call c w = (((), Some timeout_error), w\<lparr>tw_trail := tw_trail w @ [c_attempt c]\<rparr>)"

definition quiet_world :: trail_world where
  "quiet_world = \<lparr>w_clock = 0, w_tie = (\<lambda>_. False), w_rand = (\<lambda>_. 0), w_draws = 0, w_oob = (\<lambda>_. MinInt),
     tw_trail = []\<rparr>"

lemma timeout_error_retryable: "Retryable (Some timeout_error)"
  by (simp add: timeout_error_def ProviderError_Retryable_def error_kind_consts)

lemma failing_call_trails: "trails_attempt failing_call tw_trail"
  unfolding trails_attempt_def
proof (intro conjI allI impI)
  fix w w' :: trail_world
  assume "world.more w = world.more w'"
  then show "tw_trail w = tw_trail w'" by (cases w, cases w') simp
qed (auto simp: failing_call_def)

theorem retry_attempts_numbered_and_bounded_witness:
  "\<exists>n \<ge> 1. n \<le> 5 \<and> tw_trail (snd (retry background DefaultRetryConfig () failing_call quiet_world)) = map Some [1..n]"
proof -
  obtain r e w' where run: "retry background DefaultRetryConfig () failing_call quiet_world = ((r, e), w')"
    by (metis prod.exhaust)
  have "1 \<le> MaxAttempts DefaultRetryConfig" by (simp add: DefaultRetryConfig_def)
  from retry_attempts_numbered_and_bounded [OF failing_call_trails wf_ctx_background this run]
  show ?thesis using run by (auto simp: DefaultRetryConfig_def quiet_world_def)
qed

text \<open>
  with jitter off, the time \<open>retry\<close> spends between calls is at most \<open>MaxDelay\<close> for each retry,
  whatever \<open>Retry-After\<close> hints the errors carry and however the backoff grows.
\<close>

theorem retry_total_backoff_bounded:
  assumes "instant call" and "fin_val (Jitter cfg) \<le> 0" and "0 \<le> MaxDelay cfg" and "1 \<le> MaxAttempts cfg"
    and "retry c cfg zero call w = (re, w')"
  shows "w_clock w' \<le> w_clock w + (MaxAttempts cfg - 1) * MaxDelay cfg"
  using retry_loop_clock [OF assms(1-4)] assms(5) unfolding retry_def by blast

theorem retry_total_backoff_bounded_witness:
  "w_clock (snd (retry background (retry_normalized \<lparr>MaxAttempts = 3, InitialDelay = 5, MaxDelay = 7,
       BackoffFactor = NaN, Jitter = NaN\<rparr>) () failing_call quiet_world)) \<le> 14"
proof -
  let ?cfg = "retry_normalized \<lparr>MaxAttempts = 3, InitialDelay = 5, MaxDelay = 7, BackoffFactor = NaN, Jitter = NaN\<rparr>"
  have cfg: "MaxAttempts ?cfg = 3" "MaxDelay ?cfg = 7" "fin_val (Jitter ?cfg) \<le> 0"
    by (simp_all add: retry_normalized_sel fin_val_def)
  have "instant failing_call" by (auto simp: instant_def failing_call_def)
  moreover obtain re w' where "retry background ?cfg () failing_call quiet_world = (re, w')"
    by (metis prod.exhaust)
  ultimately show ?thesis
    using retry_total_backoff_bounded [of failing_call ?cfg background "()" quiet_world re w'] cfg
    by (simp add: quiet_world_def)
qed

text \<open>
  a large but finite \<open>BackoffFactor\<close> passes normalisation and overflows the float-to-duration
  conversion: with a one-second delay and factor 10^10, on an implementation that converts an
  out-of-range float to the least integer (amd64), the next delay is negative and the next backoff
  takes no time at all, though \<open>MaxDelay\<close> is 30 seconds.
\<close>

theorem backoff_overflow_skips_wait:
  "let cfg = retry_normalized \<lparr>MaxAttempts = 5, InitialDelay = 1000000000, MaxDelay = 30000000000,
         BackoffFactor = Fin (10 ^ 10), Jitter = Fin 0\<rparr>;
       delay = next_delay cfg (\<lambda>_. MinInt) (InitialDelay cfg);
       (wait, w1) = jittered (backoff_wait cfg delay (Some timeout_error)) (fin_val (Jitter cfg)) w
   in BackoffFactor cfg = Fin (10 ^ 10) \<and> delay = MinInt \<and> wait = 0 \<and>
      sleep_or_done background wait w1 = (False, w\<lparr>w_clock := w_clock w\<rparr>)"
proof -
  have "float_of_int 1000000000 = 10 ^ 9" using float_of_int_exact [of 1000000000] by simp
  then have "fl (float_of_int 1000000000 * 10 ^ 10) = 10 ^ 19" using fl_power10 by simp
  moreover have "go_trunc (10 ^ 19) = 10 ^ 19" using go_trunc_of_int [of "10 ^ 19"] by simp
  ultimately have "float_to_int (\<lambda>_. MinInt) (fl (float_of_int 1000000000 * 10 ^ 10)) = MinInt"
    by (simp add: float_to_int_def go_int_defs)
  then show ?thesis
    by (simp add: retry_normalized_sel Let_def next_delay_def fin_val_def backoff_wait_def MinInt_def
        RetryAfter_def timeout_error_def errors_As_def sleep_or_done_def background_def)
qed

end
