(* ===== verification/Bucket.thy ===== *)
theory Bucket
  imports Runtime
begin

text \<open>
  \<open>bucket/bucket.go\<close> and the token arithmetic of \<open>bucket/internal/core/core.go\<close>: the limits of a
  key with their validation and capacity, and the float balance arithmetic every backend shares
  (\<open>Settle\<close>, \<open>Adjusted\<close>, \<open>RetryAfter\<close>, \<open>Impossible\<close>, \<open>Fits\<close>). The lemmas rest on the monotonicity of
  rounding alone: a settled balance never exceeds the capacity and never shrinks an undersized one,
  an admission leaves a non-negative balance, and a request that is not impossible fits a full
  bucket.
\<close>

section \<open>Limits (bucket.go)\<close>

record limits =
  TokensPerMinute :: int
  MaxConcurrency :: int
  BufferFactor :: gofloat

definition DefaultBufferFactor :: rat where
  "DefaultBufferFactor = fl (9 / 10)"

definition EffectiveBufferFactor :: "limits \<Rightarrow> gofloat" where
  "EffectiveBufferFactor l = (case BufferFactor l of
     Fin x \<Rightarrow> if x \<le> 0 then Fin DefaultBufferFactor else Fin x
   | NegInf \<Rightarrow> Fin DefaultBufferFactor
   | x \<Rightarrow> x)"

definition factor :: "limits \<Rightarrow> rat" where
  "factor l = (case EffectiveBufferFactor l of Fin x \<Rightarrow> x | _ \<Rightarrow> 0)"

definition maxCapacity :: rat where
  "maxCapacity = float_of_int MaxInt"

definition Validate :: "limits \<Rightarrow> error option" where
  "Validate l =
     (if TokensPerMinute l < 0 then Some (Wrapped (''bucket: TokensPerMinute '' @ itoa (TokensPerMinute l) @ '' is negative'') [])
      else if MaxConcurrency l < 0 then Some (Wrapped (''bucket: MaxConcurrency '' @ itoa (MaxConcurrency l) @ '' is negative'') [])
      else if BufferFactor l = NaN \<or> BufferFactor l = PosInf \<or> BufferFactor l = NegInf
        then Some (Wrapped ''bucket: BufferFactor is not finite'' [])
      else if (case BufferFactor l of Fin x \<Rightarrow> x < 0 | _ \<Rightarrow> False)
        then Some (Wrapped ''bucket: BufferFactor is negative'' [])
      else if fl (float_of_int (TokensPerMinute l) * factor l) \<ge> maxCapacity
        then Some (Wrapped ''bucket: capacity TokensPerMinute * BufferFactor overflows int'' [])
      else None)"

definition Capacity :: "limits \<Rightarrow> int" where
  "Capacity l = (if TokensPerMinute l \<le> 0 then 0
     else max 1 (go_trunc (fl (float_of_int (TokensPerMinute l) * factor l))))"

definition TokenLimited :: "limits \<Rightarrow> bool" where
  "TokenLimited l \<longleftrightarrow> TokensPerMinute l > 0"

definition SlotLimited :: "limits \<Rightarrow> bool" where
  "SlotLimited l \<longleftrightarrow> MaxConcurrency l > 0"

definition RefillPerSecond :: "limits \<Rightarrow> rat" where
  "RefillPerSecond l = fl (float_of_int (TokensPerMinute l) / 60)"

definition ErrUnknownKey :: error where
  "ErrUnknownKey = Wrapped ''bucket: unknown key'' []"

definition ErrLeaseLost :: error where
  "ErrLeaseLost = Wrapped ''bucket: lease lost'' []"

definition UnknownKey :: "string \<Rightarrow> error" where
  "UnknownKey key = Wrapped (''bucket: unknown key '' @ quote key) [ErrUnknownKey]"

section \<open>Token arithmetic (core.go)\<close>

definition Settle :: "limits \<Rightarrow> rat \<Rightarrow> int \<Rightarrow> int \<Rightarrow> rat" where
  "Settle l balance lastRefill now =
     (if \<not> TokenLimited l then balance
      else let elapsed = seconds (time_sub now lastRefill);
               balance = (if elapsed > 0 then fl (balance + fl (elapsed * RefillPerSecond l)) else balance)
           in min balance (float_of_int (Capacity l)))"

definition Adjusted :: "limits \<Rightarrow> rat \<Rightarrow> int \<Rightarrow> int \<Rightarrow> rat" where
  "Adjusted l balance charged actual =
     (if \<not> TokenLimited l then balance
      else min (fl (balance - float_of_int (go_sub actual charged))) (float_of_int (Capacity l)))"

definition maxDurationNS :: rat where
  "maxDurationNS = float_of_int MaxInt"

definition core_RetryAfter :: "limits \<Rightarrow> rat \<Rightarrow> int \<Rightarrow> int" where
  "core_RetryAfter l balance tokens =
     (if \<not> TokenLimited l then 0
      else let deficit = fl (float_of_int tokens - balance) in
        if deficit \<le> 0 then 0
        else let ns = fl (fl (deficit / RefillPerSecond l) * 1000000000) in
          if ns \<ge> maxDurationNS then MaxInt else go_trunc ns)"

definition Impossible :: "limits \<Rightarrow> int \<Rightarrow> string" where
  "Impossible l tokens =
     (if TokenLimited l \<and> tokens > Capacity l
      then itoa tokens @ '' tokens exceed the bucket capacity of '' @ itoa (Capacity l) @
           ''; the request can never be admitted''
      else [])"

definition Fits :: "limits \<Rightarrow> rat \<Rightarrow> int \<Rightarrow> int \<Rightarrow> bool" where
  "Fits l balance tokens live =
     (let hasTokens = \<not> TokenLimited l \<or> balance \<ge> float_of_int tokens;
          hasSlot = \<not> SlotLimited l \<or> live < MaxConcurrency l
      in hasTokens \<and> hasSlot)"

section \<open>Facts\<close>

lemma DefaultBufferFactor_pos: "0 < DefaultBufferFactor"
  by (simp add: DefaultBufferFactor_def fl_pos)

lemma valid_limits:
  assumes "Validate l = None"
  shows "0 \<le> TokensPerMinute l" and "0 \<le> MaxConcurrency l" and "0 < factor l"
    and "fl (float_of_int (TokensPerMinute l) * factor l) < 9223372036854775808"
  using assms DefaultBufferFactor_pos
  by (auto simp: Validate_def factor_def EffectiveBufferFactor_def maxCapacity_def float_of_MaxInt
      split: if_splits gofloat.splits)

lemma Capacity_bounds:
  assumes "Validate l = None"
  shows "0 \<le> Capacity l" and "Capacity l \<le> MaxInt" and "TokenLimited l \<longleftrightarrow> 1 \<le> Capacity l"
proof -
  let ?p = "fl (float_of_int (TokensPerMinute l) * factor l)"
  have "0 \<le> ?p" using valid_limits [OF assms] by (intro fl_nonneg mult_nonneg_nonneg float_of_int_nonneg) auto
  then have "go_trunc ?p = \<lfloor>?p\<rfloor>" by (simp add: go_trunc_def)
  moreover have "\<lfloor>?p\<rfloor> \<le> MaxInt"
    using valid_limits(4) [OF assms] by (simp add: MaxInt_def floor_le_iff)
  ultimately show "0 \<le> Capacity l" "Capacity l \<le> MaxInt" "TokenLimited l \<longleftrightarrow> 1 \<le> Capacity l"
    by (auto simp: Capacity_def TokenLimited_def MaxInt_def)
qed

lemma RefillPerSecond_pos: "TokenLimited l \<Longrightarrow> 0 < RefillPerSecond l"
  unfolding RefillPerSecond_def TokenLimited_def
  using float_of_int_pos [of "TokensPerMinute l"] by (intro fl_pos) simp

lemma Settle_unlimited [simp]: "\<not> TokenLimited l \<Longrightarrow> Settle l b t u = b"
  by (simp add: Settle_def)

lemma Settle_le_capacity: "TokenLimited l \<Longrightarrow> Settle l b t u \<le> float_of_int (Capacity l)"
  by (simp add: Settle_def Let_def)

lemma Settle_ge:
  assumes "TokenLimited l" and "fl b = b"
  shows "min b (float_of_int (Capacity l)) \<le> Settle l b t u"
proof -
  have "b \<le> fl (b + fl (s * RefillPerSecond l))" if "0 < s" for s
  proof -
    have "0 \<le> fl (s * RefillPerSecond l)"
      using that RefillPerSecond_pos [OF assms(1)] by (intro fl_nonneg) simp
    then have "fl b \<le> fl (b + fl (s * RefillPerSecond l))" by (intro fl_mono) simp
    then show ?thesis using assms(2) by simp
  qed
  then show ?thesis using assms(1) by (auto simp: Settle_def Let_def min_le_iff_disj)
qed

lemma fl_min [simp]: "fl a = a \<Longrightarrow> fl b = b \<Longrightarrow> fl (min a b) = min a b"
  by (simp add: min_def)

lemma fl_Settle [simp]: "fl b = b \<Longrightarrow> fl (Settle l b t u) = Settle l b t u"
  by (simp add: Settle_def Let_def)

lemma fl_Adjusted [simp]: "fl b = b \<Longrightarrow> fl (Adjusted l b c a) = Adjusted l b c a"
  by (simp add: Adjusted_def)

lemma Adjusted_le_capacity: "TokenLimited l \<Longrightarrow> Adjusted l b c a \<le> float_of_int (Capacity l)"
  by (simp add: Adjusted_def)

lemma Impossible_iff: "Impossible l tokens = [] \<longleftrightarrow> \<not> (TokenLimited l \<and> tokens > Capacity l)"
  by (simp add: Impossible_def)

lemma Fits_charge: "TokenLimited l \<Longrightarrow> Fits l b tokens live \<Longrightarrow> 0 \<le> fl (b - float_of_int tokens)"
  by (intro fl_nonneg) (simp add: Fits_def)

lemma Fits_slot: "SlotLimited l \<Longrightarrow> Fits l b tokens live \<Longrightarrow> live < MaxConcurrency l"
  by (simp add: Fits_def Let_def)

text \<open>
  limits that pass \<open>Validate\<close> size a usable bucket: the capacity fits an int, and it is at
  least 1 exactly when the token dimension is on, so a tiny rate never turns limiting off and an
  oversized product never wraps.
\<close>

theorem validated_capacity_usable:
  assumes "Validate l = None"
  shows "0 \<le> Capacity l \<and> in_int64 (Capacity l) \<and> (TokenLimited l \<longleftrightarrow> 1 \<le> Capacity l) \<and>
         (TokenLimited l \<longrightarrow> 0 < RefillPerSecond l)"
  using Capacity_bounds [OF assms] RefillPerSecond_pos by (auto simp: in_int64_def MinInt_def)

theorem validated_capacity_usable_witness:
  "let l = \<lparr>TokensPerMinute = 1, MaxConcurrency = 2, BufferFactor = Fin (1 / 2)\<rparr> in
     1 \<le> Capacity l \<and> in_int64 (Capacity l) \<and> 0 < RefillPerSecond l"
proof -
  let ?l = "\<lparr>TokensPerMinute = 1, MaxConcurrency = 2, BufferFactor = Fin (1 / 2)\<rparr>"
  have "fl (1 / 2) \<le> 1" using fl_mono [of "1 / 2" 1] fl_int [of 1] by simp
  then have "Validate ?l = None"
    using float_of_int_exact [of 1]
    by (simp add: Validate_def factor_def EffectiveBufferFactor_def maxCapacity_def float_of_MaxInt)
  moreover have "TokenLimited ?l" by (simp add: TokenLimited_def)
  ultimately show ?thesis using validated_capacity_usable [of ?l] unfolding Let_def by blast
qed

text \<open>
  the shared admission arithmetic is sound under floating-point rounding: settling never
  exceeds the capacity and never loses tokens below it; an admission leaves a non-negative balance
  and respects the slot limit; and a request that is not \<open>Impossible\<close> fits a full bucket with a
  free slot, so it is never refused for ever.
\<close>

theorem admission_arithmetic_sound:
  assumes "TokenLimited l" and "fl b = b"
  shows "Settle l b t u \<le> float_of_int (Capacity l) \<and>
    (b \<le> float_of_int (Capacity l) \<longrightarrow> b \<le> Settle l b t u) \<and>
    (Fits l b tokens live \<longrightarrow> 0 \<le> fl (b - float_of_int tokens) \<and>
       (SlotLimited l \<longrightarrow> live < MaxConcurrency l)) \<and>
    (Impossible l tokens = [] \<and> (SlotLimited l \<longrightarrow> live < MaxConcurrency l) \<longrightarrow>
       Fits l (float_of_int (Capacity l)) tokens live)"
proof (intro conjI impI)
  show "Settle l b t u \<le> float_of_int (Capacity l)" by (rule Settle_le_capacity [OF assms(1)])
next
  assume "b \<le> float_of_int (Capacity l)"
  then show "b \<le> Settle l b t u" using Settle_ge [OF assms, of t u] by simp
next
  assume "Fits l b tokens live"
  then show "0 \<le> fl (b - float_of_int tokens)" by (rule Fits_charge [OF assms(1)])
next
  assume "Fits l b tokens live" and "SlotLimited l"
  then show "live < MaxConcurrency l" by (intro Fits_slot)
next
  assume "Impossible l tokens = [] \<and> (SlotLimited l \<longrightarrow> live < MaxConcurrency l)"
  then show "Fits l (float_of_int (Capacity l)) tokens live"
    using assms(1) float_of_int_mono [of tokens "Capacity l"] by (auto simp: Impossible_iff Fits_def Let_def)
qed

theorem admission_arithmetic_sound_witness:
  "let l = \<lparr>TokensPerMinute = 60, MaxConcurrency = 1, BufferFactor = Fin 1\<rparr> in
     Settle l 3 0 1000000000 \<le> float_of_int (Capacity l) \<and> 0 \<le> fl (3 - float_of_int 2)"
proof -
  let ?l = "\<lparr>TokensPerMinute = 60, MaxConcurrency = 1, BufferFactor = Fin 1\<rparr>"
  have "TokenLimited ?l" and "fl 3 = 3" using fl_int [of 3] by (simp_all add: TokenLimited_def)
  note adm = admission_arithmetic_sound [OF this, of 0 1000000000 2 0]
  have "Fits ?l 3 2 0" using float_of_int_exact [of 2] by (simp add: Fits_def)
  with adm show ?thesis unfolding Let_def by blast
qed

end
