(* ===== verification/BucketWait.thy ===== *)
theory BucketWait
  imports Bucket
begin

text \<open>
  The wait loop of \<open>bucket/internal/core/core.go\<close>, shared by the bucket backends and generic in the
  admission attempt: \<open>MaxWait\<close> as a deadline on the whole call, jittered exponential backoff, and
  the classification of a wait that ends. The loop takes fuel because a wait with neither a
  \<open>MaxWait\<close> nor a deadline need not end; every round sleeps at least one nanosecond, so a bounded
  wait returns with as much fuel as its budget has nanoseconds.
\<close>

record 'l result =
  r_Lease :: "'l option"
  r_Impossible :: string
  r_RetryAfter :: int

record waiter =
  wt_MaxWait :: int
  wt_Initial :: int
  wt_Max :: int

type_synonym ('l, 'a) attempt = "ctx \<Rightarrow> 'a world_scheme \<Rightarrow> (error + 'l result) \<times> 'a world_scheme"

text \<open>\<open>rand.N(n)\<close>, from a draw in [0, 1).\<close>

definition rand_N :: "int \<Rightarrow> rat \<Rightarrow> int" where
  "rand_N n r = \<lfloor>r * of_int n\<rfloor>"

definition jitter :: "int \<Rightarrow> 'a world_scheme \<Rightarrow> int \<times> 'a world_scheme" where
  "jitter d w =
     (if d \<le> 1 then (max d 1, w)
      else let half = go_div d 2; (r, w) = draw w
           in (go_add half (rand_N (go_add (go_sub d half) 1) r), w))"

definition ended :: "ctx \<Rightarrow> string \<Rightarrow> string \<Rightarrow> int \<Rightarrow> 'a world_scheme \<Rightarrow> error" where
  "ended c key when retryAfter w = (case ctx_Err c w of
     Some cause \<Rightarrow> BucketLimitError (Some cause) key (''context done '' @ when) retryAfter False
   | None \<Rightarrow> BucketLimitError None key (''wait exceeded MaxWait '' @ when) retryAfter False)"

fun wait_loop :: "nat \<Rightarrow> ctx \<Rightarrow> ctx \<Rightarrow> string \<Rightarrow> waiter \<Rightarrow> ('l, 'a) attempt \<Rightarrow> int \<Rightarrow> int \<Rightarrow>
    'a world_scheme \<Rightarrow> ((error + 'l) \<times> 'a world_scheme) option" where
  "wait_loop 0 c wc key wt attempt backoff retryAfter w = None"
| "wait_loop (Suc fuel) c wc key wt attempt backoff retryAfter w =
     (if ctx_Err wc w \<noteq> None
        then Some (Inl (ended c key ''before capacity was available'' retryAfter w), w)
      else case attempt wc w of
        (Inl err, w) \<Rightarrow>
          if ctx_Err wc w \<noteq> None then Some (Inl (ended c key ''while acquiring'' retryAfter w), w)
          else Some (Inl err, w)
      | (Inr res, w) \<Rightarrow> (case r_Lease res of
          Some l \<Rightarrow> Some (Inr l, w)
        | None \<Rightarrow>
            if r_Impossible res \<noteq> [] then Some (Inl (BucketLimitError None key (r_Impossible res) 0 True), w)
            else let retryAfter = r_RetryAfter res; (s, w) = jitter backoff w;
                     s = (if retryAfter > 0 then min s retryAfter else s);
                     (stop, w) = sleep_or_done wc s w
                 in if stop then Some (Inl (ended c key ''while waiting for capacity'' retryAfter w), w)
                    else wait_loop fuel c wc key wt attempt (min (go_mul backoff 2) (wt_Max wt)) retryAfter w))"

definition waitCtx :: "ctx \<Rightarrow> waiter \<Rightarrow> 'a world_scheme \<Rightarrow> ctx" where
  "waitCtx c wt w = (if wt_MaxWait wt > 0 then WithTimeout c (wt_MaxWait wt) w else c)"

definition Wait :: "nat \<Rightarrow> ctx \<Rightarrow> string \<Rightarrow> waiter \<Rightarrow> ('l, 'a) attempt \<Rightarrow> 'a world_scheme \<Rightarrow>
    ((error + 'l) \<times> 'a world_scheme) option" where
  "Wait fuel c key wt attempt w = wait_loop fuel c (waitCtx c wt w) key wt attempt (wt_Initial wt) 0 w"

section \<open>Facts\<close>

text \<open>Draws are in [0, 1), and the clock of an attempt never runs backwards.\<close>

definition rand_ok :: "'a world_scheme \<Rightarrow> bool" where
  "rand_ok w \<longleftrightarrow> (\<forall>n. 0 \<le> w_rand w n \<and> w_rand w n < 1)"

definition steady :: "('l, 'a) attempt \<Rightarrow> bool" where
  "steady attempt \<longleftrightarrow> (\<forall>c w r w'. attempt c w = (r, w') \<longrightarrow> w_clock w \<le> w_clock w' \<and> w_rand w' = w_rand w)"

definition wf_waiter :: "waiter \<Rightarrow> bool" where
  "wf_waiter wt \<longleftrightarrow> in_int64 (wt_Initial wt) \<and> in_int64 (wt_Max wt)"

lemma rand_N_bounds: "0 \<le> r \<Longrightarrow> r < 1 \<Longrightarrow> 0 < n \<Longrightarrow> 0 \<le> rand_N n r \<and> rand_N n r < n"
  by (simp add: rand_N_def floor_less_iff)

lemma jitter_frame: "jitter d w = (s, w') \<Longrightarrow>
    w_clock w' = w_clock w \<and> w_rand w' = w_rand w \<and> w_tie w' = w_tie w \<and> world.more w' = world.more w"
  by (auto simp: jitter_def draw_def Let_def split: if_splits)

lemma jitter_bounds:
  assumes "rand_ok w" and "in_int64 d" and "jitter d w = (s, w')"
  shows "1 \<le> s" and "s \<le> max d 1"
proof -
  have "1 \<le> s \<and> s \<le> max d 1"
  proof (cases "d \<le> 1")
    case True
    with assms(3) show ?thesis by (auto simp: jitter_def)
  next
    case False
    define h where "h = d div 2"
    define n where "n = rand_N (d - h + 1) (w_rand w (w_draws w))"
    have h: "1 \<le> h" "h \<le> d" "2 * h \<le> d" using False by (simp_all add: h_def)
    have n: "0 \<le> n" "n < d - h + 1"
      using rand_N_bounds [of "w_rand w (w_draws w)" "d - h + 1"] assms(1) h by (simp_all add: n_def rand_ok_def)
    have "go_sub d h = d - h" "go_add (d - h) 1 = d - h + 1" "go_add h n = h + n"
      using assms(2) h n by (simp_all add: go_add_def go_sub_def in_int64_def MinInt_def)
    with assms(3) False have "s = h + n"
      by (simp add: jitter_def draw_def Let_def h_def n_def)
    with h n show ?thesis by simp
  qed
  then show "1 \<le> s" "s \<le> max d 1" by auto
qed

lemma ctx_Err_mono: "ctx_Err c w \<noteq> None \<Longrightarrow> w_clock w \<le> w_clock w' \<Longrightarrow> ctx_Err c w' = ctx_Err c w"
  by (auto simp: ctx_Err_def split: option.splits if_splits)

text \<open>The ways a round of the loop goes: every proof about the loop analyses these.\<close>

lemma wait_loop_cases:
  assumes "wait_loop (Suc fuel) c wc key wt attempt backoff ra w = out"
  obtains (before) "ctx_Err wc w \<noteq> None" "out = Some (Inl (ended c key ''before capacity was available'' ra w), w)"
  | (acquiring) e w1 where "ctx_Err wc w = None" "attempt wc w = (Inl e, w1)" "ctx_Err wc w1 \<noteq> None"
      "out = Some (Inl (ended c key ''while acquiring'' ra w1), w1)"
  | (failed) e w1 where "ctx_Err wc w = None" "attempt wc w = (Inl e, w1)" "ctx_Err wc w1 = None"
      "out = Some (Inl e, w1)"
  | (admitted) res l w1 where "ctx_Err wc w = None" "attempt wc w = (Inr res, w1)" "r_Lease res = Some l"
      "out = Some (Inr l, w1)"
  | (impossible) res w1 where "ctx_Err wc w = None" "attempt wc w = (Inr res, w1)" "r_Lease res = None"
      "r_Impossible res \<noteq> []" "out = Some (Inl (BucketLimitError None key (r_Impossible res) 0 True), w1)"
  | (slept) res w1 j w2 s stop w3 where "ctx_Err wc w = None" "attempt wc w = (Inr res, w1)"
      "r_Lease res = None" "r_Impossible res = []" "jitter backoff w1 = (j, w2)"
      "s = (if r_RetryAfter res > 0 then min j (r_RetryAfter res) else j)"
      "sleep_or_done wc s w2 = (stop, w3)"
      "out = (if stop then Some (Inl (ended c key ''while waiting for capacity'' (r_RetryAfter res) w3), w3)
        else wait_loop fuel c wc key wt attempt (min (go_mul backoff 2) (wt_Max wt)) (r_RetryAfter res) w3)"
proof -
  obtain r w1 where a: "attempt wc w = (r, w1)" by (metis prod.exhaust)
  show ?thesis
  proof (cases "ctx_Err wc w = None")
    case False
    with assms show ?thesis by (intro before) auto
  next
    case True
    note run = assms [unfolded wait_loop.simps a prod.case]
    show ?thesis
    proof (cases r)
      case (Inl e)
      show ?thesis
        using acquiring [of e w1] failed [of e w1] run True a Inl by (cases "ctx_Err wc w1 = None") auto
    next
      case (Inr res)
      show ?thesis
      proof (cases "r_Lease res")
        case (Some l)
        with run True a Inr show ?thesis by (intro admitted [of res w1 l]) auto
      next
        case None
        show ?thesis
        proof (cases "r_Impossible res = []")
          case False
          with run True a Inr None show ?thesis by (intro impossible [of res w1]) auto
        next
          case imp: True
          obtain j w2 where j: "jitter backoff w1 = (j, w2)" by (metis prod.exhaust)
          obtain stop w3 where sl: "sleep_or_done wc (if r_RetryAfter res > 0 then min j (r_RetryAfter res) else j) w2
              = (stop, w3)" by (metis prod.exhaust)
          from run True a Inr None imp j sl show ?thesis
            by (intro slept [of res w1 j w2 _ stop w3]) (auto simp: Let_def)
        qed
      qed
    qed
  qed
qed


lemma wait_loop_terminates:
  assumes st: "steady attempt" and wf: "wf_waiter wt" and d: "c_done wc = Some (t, e)"
  shows "rand_ok w \<Longrightarrow> in_int64 backoff \<Longrightarrow> nat (t - w_clock w) < fuel \<Longrightarrow>
     wait_loop fuel c wc key wt attempt backoff ra w \<noteq> None"
proof (induction fuel arbitrary: w backoff ra)
  case 0
  then show ?case by simp
next
  case (Suc fuel)
  obtain out where out: "wait_loop (Suc fuel) c wc key wt attempt backoff ra w = out" by blast
  from out have "out \<noteq> None"
  proof (cases rule: wait_loop_cases)
    case (slept res w1 j w2 s stop w3)
    have clock: "w_clock w < t" using slept(1) d by (simp add: ctx_Err_def split: if_splits)
    have w1: "w_clock w \<le> w_clock w1" "w_rand w1 = w_rand w" using st slept(2) by (auto simp: steady_def)
    note w2 = jitter_frame [OF slept(5)]
    have "rand_ok w1" using Suc.prems(1) w1 by (simp add: rand_ok_def)
    from jitter_bounds(1) [OF this Suc.prems(2) slept(5)] slept(6) have s: "1 \<le> s" by auto
    show ?thesis
    proof (cases stop)
      case True
      with slept show ?thesis by simp
    next
      case False
      then have "w_clock w + 1 \<le> w_clock w3" using sleep_timer_clock [of wc s w2 w3] slept(7) s w1 w2 by simp
      moreover have "rand_ok w3" using Suc.prems(1) w1 w2 sleep_frame [OF slept(7)] by (simp add: rand_ok_def)
      moreover have "in_int64 (min (go_mul backoff 2) (wt_Max wt))"
        using wf by (simp add: wf_waiter_def go_mul_def)
      moreover have "nat (t - w_clock w3) < fuel" using Suc.prems(3) clock \<open>w_clock w + 1 \<le> w_clock w3\<close> by linarith
      ultimately show ?thesis using Suc.IH slept(8) False by simp
    qed
  qed auto
  with out show ?case by simp
qed

text \<open>What an ended wait may return: the admission of an attempt that began within the budget; the
  end of the budget, with the caller's own context error as the cause if there is one; a request
  that can never fit; or the backend's own failure.\<close>

definition wait_outcome :: "ctx \<Rightarrow> ctx \<Rightarrow> string \<Rightarrow> ('l, 'a) attempt \<Rightarrow> (error + 'l) \<Rightarrow> 'a world_scheme \<Rightarrow> bool" where
  "wait_outcome c wc key attempt r w' \<longleftrightarrow> (case r of
     Inr l \<Rightarrow> (\<exists>w res. ctx_Err wc w = None \<and> attempt wc w = (Inr res, w') \<and> r_Lease res = Some l)
   | Inl e \<Rightarrow>
       (ctx_Err wc w' \<noteq> None \<and> (\<exists>reason ra. e = BucketLimitError (ctx_Err c w') key reason ra False)) \<or>
       (\<exists>w res. ctx_Err wc w = None \<and> attempt wc w = (Inr res, w') \<and> r_Lease res = None \<and>
          r_Impossible res \<noteq> [] \<and> e = BucketLimitError None key (r_Impossible res) 0 True) \<or>
       (\<exists>w. ctx_Err wc w = None \<and> ctx_Err wc w' = None \<and> attempt wc w = (Inl e, w')))"

lemma ended_eq: "\<exists>reason. ended c key when ra w = BucketLimitError (ctx_Err c w) key reason ra False"
  by (simp add: ended_def split: option.split)

lemma wait_loop_outcome:
  "wait_loop fuel c wc key wt attempt backoff ra w = Some (r, w') \<Longrightarrow> wait_outcome c wc key attempt r w'"
proof (induction fuel arbitrary: w backoff ra)
  case 0
  then show ?case by simp
next
  case (Suc fuel)
  have stopped: "wait_outcome c wc key attempt (Inl (ended c key moment ra' w')) w'" if "ctx_Err wc w' \<noteq> None" for moment ra'
    using that ended_eq [of c key moment ra' w'] by (auto simp: wait_outcome_def)
  from Suc.prems show ?case
  proof (cases rule: wait_loop_cases)
    case before
    then show ?thesis using stopped by simp
  next
    case (acquiring e w1)
    then show ?thesis using stopped by simp
  next
    case (slept res w1 j w2 s stop w3)
    show ?thesis
    proof (cases stop)
      case True
      with slept sleep_done_Err [of wc s w2 w3] stopped show ?thesis by simp
    next
      case False
      with slept Suc.IH show ?thesis by simp
    qed
  qed (auto simp: wait_outcome_def)
qed

lemma Wait_outcome:
  "Wait fuel c key wt attempt w = Some (r, w') \<Longrightarrow> wait_outcome c (waitCtx c wt w) key attempt r w'"
  unfolding Wait_def by (rule wait_loop_outcome)

text \<open>One round that admits nothing: an attempt with the wait's context, then some time.\<close>

inductive wait_round :: "ctx \<Rightarrow> ('l, 'a) attempt \<Rightarrow> 'a world_scheme \<Rightarrow> 'a world_scheme \<Rightarrow> bool" for wc attempt where
  wait_round: "ctx_Err wc w = None \<Longrightarrow> attempt wc w = (Inr res, w1) \<Longrightarrow> r_Lease res = None \<Longrightarrow>
     world.more w2 = world.more w1 \<Longrightarrow> w_clock w1 \<le> w_clock w2 \<Longrightarrow> wait_round wc attempt w w2"

text \<open>A lease comes from the attempt that follows some such rounds.\<close>

lemma wait_loop_admitted:
  "wait_loop fuel c wc key wt attempt backoff ra w = Some (Inr l, w') \<Longrightarrow>
     \<exists>w0 res. (wait_round wc attempt)\<^sup>*\<^sup>* w w0 \<and> ctx_Err wc w0 = None \<and> attempt wc w0 = (Inr res, w') \<and> r_Lease res = Some l"
proof (induction fuel arbitrary: w backoff ra)
  case 0
  then show ?case by simp
next
  case (Suc fuel)
  from Suc.prems show ?case
  proof (cases rule: wait_loop_cases)
    case (slept res w1 j w2 s stop w3)
    have "wait_round wc attempt w w3"
      using slept(1-3) jitter_frame [OF slept(5)] sleep_frame [OF slept(7)] sleep_clock_mono [OF slept(7)]
      by (intro wait_round.intros [where attempt = attempt, OF slept(1) slept(2) slept(3)]) simp_all
    moreover have "wait_loop fuel c wc key wt attempt (min (go_mul backoff 2) (wt_Max wt)) (r_RetryAfter res) w3 = Some (Inr l, w')"
      using slept(8) by (auto split: if_splits)
    ultimately show ?thesis
      using Suc.IH by (meson converse_rtranclp_into_rtranclp)
  qed auto
qed

text \<open>An attempt that comes back by the end of the context it is given, as one must that blocks, on a lock say.\<close>

definition heeds_deadline :: "('l, 'a) attempt \<Rightarrow> bool" where
  "heeds_deadline attempt \<longleftrightarrow> (\<forall>c t e w r w'. c_done c = Some (t, e) \<longrightarrow> attempt c w = (r, w') \<longrightarrow> w_clock w' \<le> max t (w_clock w))"

lemma sleep_before_done:
  "c_done c = Some (t, e) \<Longrightarrow> sleep_or_done c d w = (b, w') \<Longrightarrow> w_clock w' \<le> max t (w_clock w)"
  by (auto simp: sleep_or_done_def Let_def split: if_splits)

lemma wait_loop_clock:
  assumes att: "heeds_deadline attempt" and d: "c_done wc = Some (t, e)"
  shows "wait_loop fuel c wc key wt attempt backoff ra w = Some (r, w') \<Longrightarrow> w_clock w' \<le> max t (w_clock w)"
proof (induction fuel arbitrary: w backoff ra)
  case 0
  then show ?case by simp
next
  case (Suc fuel)
  have clock: "w_clock w1 \<le> max t (w_clock w)" if "attempt wc w = (x, w1)" for x w1
    using that att d unfolding heeds_deadline_def by blast
  from Suc.prems show ?case
  proof (cases rule: wait_loop_cases)
    case (slept res w1 j w2 s stop w3)
    have "w_clock w3 \<le> max t (w_clock w)"
      using sleep_before_done [OF d slept(7)] clock [OF slept(2)] jitter_frame [OF slept(5)] by simp
    moreover have "w_clock w' \<le> max t (w_clock w3)"
      using slept(8) Suc.IH [of _ _ w3] by (cases stop) auto
    ultimately show ?thesis by simp
  qed (auto dest: clock)
qed

text \<open>What the attempts keep, and the clock and the sleeps do not touch, the wait keeps.\<close>

lemma wait_loop_preserves:
  assumes att: "\<And>w r w'. P w \<Longrightarrow> attempt wc w = (r, w') \<Longrightarrow> P w'"
    and frame: "\<And>w w'. world.more w = world.more w' \<Longrightarrow> w_rand w = w_rand w' \<Longrightarrow> P w \<Longrightarrow> P w'"
  shows "P w \<Longrightarrow> wait_loop fuel c wc key wt attempt backoff ra w = Some (r, w') \<Longrightarrow> P w'"
proof (induction fuel arbitrary: w backoff ra)
  case 0
  then show ?case by simp
next
  case (Suc fuel)
  from Suc.prems(2) show ?case
  proof (cases rule: wait_loop_cases)
    case (slept res w1 j w2 s stop w3)
    have "P w1" using att Suc.prems(1) slept(2) by blast
    moreover have "world.more w1 = world.more w3" "w_rand w1 = w_rand w3"
      using jitter_frame [OF slept(5)] sleep_frame [OF slept(7)] by simp_all
    ultimately have "P w3" using frame by blast
    with slept Suc.IH [of w3] show ?thesis by (cases stop) auto
  qed (use Suc.prems(1) att in auto)
qed

lemma waitCtx_done: "0 < wt_MaxWait wt \<Longrightarrow>
    \<exists>t e. c_done (waitCtx c wt w) = Some (t, e) \<and> t \<le> w_clock w + wt_MaxWait wt"
  by (auto simp: waitCtx_def WithTimeout_def split: option.splits)

section \<open>Properties\<close>


definition never_admits :: "(unit, 'a) attempt" where
  "never_admits c w = (Inr \<lparr>r_Lease = None, r_Impossible = [], r_RetryAfter = 0\<rparr>, w)"

definition calm_world :: world where
  "calm_world = \<lparr>w_clock = 0, w_tie = (\<lambda>_. True), w_rand = (\<lambda>_. 0), w_draws = 0, w_oob = (\<lambda>_. MinInt)\<rparr>"

text \<open>An attempt that blocks on a lock until its context ends, with an hour to go if the context has no end.\<close>

definition blocks :: "(unit, unit) attempt" where
  "blocks c w = (Inl (Wrapped ''lock'' []), w\<lparr>w_clock := max (w_clock w) (case c_done c of None \<Rightarrow> w_clock w + 3600 * 1000000000 | Some (t, e) \<Rightarrow> t)\<rparr>)"


text \<open>
  the classification of a wait. A lease was granted by an attempt that began before the budget
  was spent; a temporary rejection is returned only once the wait context is done, and its \<open>Cause\<close>
  is the caller's own context error, \<open>None\<close> when \<open>MaxWait\<close> alone ended it; a permanent one only for
  an attempt that found the request impossible; and a backend failure comes back as it is only
  while the wait context is live.
\<close>

theorem wait_outcome_classified:
  assumes "Wait fuel c key wt attempt w = Some (r, w')"
  shows "wait_outcome c (waitCtx c wt w) key attempt r w'"
  by (rule Wait_outcome [OF assms])

theorem wait_outcome_classified_witness:
  "wait_outcome background (waitCtx background \<lparr>wt_MaxWait = 1, wt_Initial = 1, wt_Max = 1\<rparr> calm_world) ''k''
     (never_admits :: (unit, unit) attempt)
     (Inl (BucketLimitError None ''k'' ''wait exceeded MaxWait while waiting for capacity'' 0 False))
     (calm_world\<lparr>w_clock := 1\<rparr>)"
  by (rule wait_outcome_classified [where fuel = 1])
     (simp add: Wait_def waitCtx_def WithTimeout_def background_def never_admits_def jitter_def sleep_or_done_def
       ended_def ctx_Err_def calm_world_def)

end
