(* ===== verification/Mutex.thy ===== *)
theory Mutex
  imports Runtime
begin

text \<open>
  An object shared between goroutines under a mutex, seen from one of them. \<open>sh_now\<close> is the reading
  of the object's configured clock at an instant of real time. When the goroutine takes the mutex for
  the \<open>n\<close>-th time it waits \<open>sh_delay n\<close> nanoseconds, and meanwhile the critical sections of the other
  goroutines turn the object into \<open>sh_others n\<close> of it. The theorems hold for every such interference.
\<close>

record 'l shared = world +
  sh_obj :: 'l
  sh_now :: "int \<Rightarrow> int"
  sh_locks :: nat
  sh_delay :: "nat \<Rightarrow> nat"
  sh_others :: "nat \<Rightarrow> 'l \<Rightarrow> 'l"

definition lock :: "('l, 'a) shared_scheme \<Rightarrow> ('l, 'a) shared_scheme" where
  "lock w = w\<lparr>w_clock := w_clock w + int (sh_delay w (sh_locks w)),
     sh_obj := sh_others w (sh_locks w) (sh_obj w), sh_locks := Suc (sh_locks w)\<rparr>"

text \<open>The object's clock, read without the mutex or with it.\<close>

definition sh_clock :: "('l, 'a) shared_scheme \<Rightarrow> int" where
  "sh_clock w = sh_now w (w_clock w)"

section \<open>Facts\<close>

lemma shared_more_frame:
  "world.more w = world.more w' \<Longrightarrow>
     sh_obj w = sh_obj w' \<and> sh_others w = sh_others w' \<and> sh_locks w = sh_locks w' \<and> sh_delay w = sh_delay w' \<and>
     sh_now w = sh_now w'"
  for w w' :: "('l, 'a) shared_scheme"
  by (cases w, cases w') simp

lemma lock_sel [simp]:
  "sh_obj (lock w) = sh_others w (sh_locks w) (sh_obj w)"
  "sh_others (lock w) = sh_others w" "sh_now (lock w) = sh_now w" "sh_delay (lock w) = sh_delay w"
  "sh_locks (lock w) = Suc (sh_locks w)" "w_clock (lock w) = w_clock w + int (sh_delay w (sh_locks w))"
  "w_rand (lock w) = w_rand w"
  by (simp_all add: lock_def)

text \<open>A property of the object that the critical sections of the others keep.\<close>

definition keeps :: "('l \<Rightarrow> bool) \<Rightarrow> ('l, 'a) shared_scheme \<Rightarrow> bool" where
  "keeps P w \<longleftrightarrow> (\<forall>n \<ge> sh_locks w. \<forall>l. P l \<longrightarrow> P (sh_others w n l))"

lemma keeps_lock: "keeps P w \<Longrightarrow> P (sh_obj w) \<Longrightarrow> P (sh_obj (lock w)) \<and> keeps P (lock w)"
  by (simp add: keeps_def)

lemma keeps_obj [simp]: "keeps P (w\<lparr>sh_obj := l\<rparr>) = keeps P w"
  by (simp add: keeps_def)

lemma keeps_clock [simp]: "keeps P (w\<lparr>w_clock := t\<rparr>) = keeps P w"
  by (simp add: keeps_def)

lemma keeps_frame: "world.more w = world.more w' \<Longrightarrow> keeps P w = keeps P w'"
  using shared_more_frame [of w w'] by (simp add: keeps_def)

end
