(* ===== verification/BucketMemory.thy ===== *)
theory BucketMemory
  imports BucketWait Mutex
begin

text \<open>
  The process-local bucket limiter, \<open>bucket/memory/memory.go\<close>. A limiter's state is a map from keys
  to token balances and live counts, with the leases it has handed out; a lease is a handle into
  that list, since key states are never removed. Each critical section of the limiter's mutex is one
  function from state to state, and any interleaving of goroutines is a path of \<open>mem_step\<close>.
\<close>

section \<open>State\<close>

record keyState =
  ks_lastRefill :: int
  ks_limits :: limits
  ks_balance :: rat
  ks_live :: int

record lease =
  ls_key :: string
  ls_tokens :: int
  ls_adjusted :: bool
  ls_released :: bool

record limiter =
  lm_limits :: "string \<rightharpoonup> limits"
  lm_def :: "limits option"
  lm_state :: "string \<rightharpoonup> keyState"
  lm_waiter :: waiter
  lm_leases :: "lease list"

text \<open>The configured limits are a list in the order in which \<open>range\<close> visits the map.\<close>

record mem_config =
  mc_Limits :: "(string \<times> limits) list"
  mc_Default :: "limits option"
  mc_MaxWait :: int
  mc_PollInterval :: int
  mc_MaxPollInterval :: int

definition defaultPollInterval :: int where "defaultPollInterval = 100 * 1000000"
definition defaultMaxPollInterval :: int where "defaultMaxPollInterval = 1000000000"

fun validate_limits :: "(string \<times> limits) list \<Rightarrow> error option" where
  "validate_limits [] = None"
| "validate_limits ((key, l) # rest) = (case Validate l of
     Some err \<Rightarrow> Some (Wrapped (''memory: key '' @ quote key) [err])
   | None \<Rightarrow> validate_limits rest)"

definition mem_New :: "mem_config \<Rightarrow> error + limiter" where
  "mem_New cfg = (case validate_limits (mc_Limits cfg) of
     Some err \<Rightarrow> Inl err
   | None \<Rightarrow> (case (case mc_Default cfg of None \<Rightarrow> None | Some d \<Rightarrow> Validate d) of
       Some err \<Rightarrow> Inl (Wrapped ''memory: default limits'' [err])
     | None \<Rightarrow>
         let poll = (if mc_PollInterval cfg \<le> 0 then defaultPollInterval else mc_PollInterval cfg);
             maxPoll = (if mc_MaxPollInterval cfg \<le> 0 then defaultMaxPollInterval else mc_MaxPollInterval cfg)
         in Inr \<lparr>lm_limits = map_of (mc_Limits cfg), lm_def = mc_Default cfg, lm_state = Map.empty,
              lm_waiter = \<lparr>wt_MaxWait = mc_MaxWait cfg, wt_Initial = poll, wt_Max = max poll maxPoll\<rparr>,
              lm_leases = []\<rparr>))"

section \<open>Critical sections\<close>

definition stateLocked :: "limiter \<Rightarrow> string \<Rightarrow> int \<Rightarrow> error + keyState \<times> limiter" where
  "stateLocked l key now = (case lm_state l key of
     Some s \<Rightarrow> Inr (s, l)
   | None \<Rightarrow> (case (case lm_limits l key of Some lmt \<Rightarrow> Some lmt | None \<Rightarrow> lm_def l) of
       None \<Rightarrow> Inl (UnknownKey key)
     | Some lmt \<Rightarrow>
         let s = \<lparr>ks_lastRefill = now, ks_limits = lmt, ks_balance = float_of_int (Capacity lmt), ks_live = 0\<rparr>
         in Inr (s, l\<lparr>lm_state := (lm_state l)(key \<mapsto> s)\<rparr>)))"

definition settleLocked :: "keyState \<Rightarrow> int \<Rightarrow> keyState" where
  "settleLocked s now = s\<lparr>ks_balance := Settle (ks_limits s) (ks_balance s) (ks_lastRefill s) now, ks_lastRefill := now\<rparr>"

text \<open>The live count is the number of lease objects in memory that are not released, far below 2^63, so
  its increments do not wrap.\<close>

text \<open>The body of an admission attempt, under the lock: \<open>err\<close> is the error of the attempt's context.\<close>

definition acquireLocked :: "error option \<Rightarrow> string \<Rightarrow> int \<Rightarrow> int \<Rightarrow> limiter \<Rightarrow> (error + nat result) \<times> limiter" where
  "acquireLocked err key tokens now l =
     (case err of Some e \<Rightarrow> (Inl (Wrapped ''memory'' [e]), l)
      | None \<Rightarrow> (case stateLocked l key now of
          Inl e \<Rightarrow> (Inl e, l)
        | Inr (s, l) \<Rightarrow>
            let reason = Impossible (ks_limits s) tokens in
            if reason \<noteq> [] then (Inr \<lparr>r_Lease = None, r_Impossible = reason, r_RetryAfter = 0\<rparr>, l)
            else let s = settleLocked s now in
              if \<not> Fits (ks_limits s) (ks_balance s) tokens (ks_live s)
              then (Inr \<lparr>r_Lease = None, r_Impossible = [],
                      r_RetryAfter = core_RetryAfter (ks_limits s) (ks_balance s) tokens\<rparr>,
                    l\<lparr>lm_state := (lm_state l)(key \<mapsto> s)\<rparr>)
              else let s = (if TokenLimited (ks_limits s)
                            then s\<lparr>ks_balance := fl (ks_balance s - float_of_int tokens)\<rparr> else s);
                       s = s\<lparr>ks_live := ks_live s + 1\<rparr>
                   in (Inr \<lparr>r_Lease = Some (length (lm_leases l)), r_Impossible = [], r_RetryAfter = 0\<rparr>,
                       l\<lparr>lm_state := (lm_state l)(key \<mapsto> s),
                         lm_leases := lm_leases l @ [\<lparr>ls_key = key, ls_tokens = tokens, ls_adjusted = False, ls_released = False\<rparr>]\<rparr>)))"

definition adjustLocked :: "nat \<Rightarrow> int \<Rightarrow> int \<Rightarrow> limiter \<Rightarrow> limiter" where
  "adjustLocked h actualTokens now l =
     (let r = lm_leases l ! h in
      if ls_adjusted r then l
      else case lm_state l (ls_key r) of None \<Rightarrow> l | Some s \<Rightarrow>
        let s = settleLocked s now;
            s = s\<lparr>ks_balance := Adjusted (ks_limits s) (ks_balance s) (ls_tokens r) (max actualTokens 0)\<rparr>
        in l\<lparr>lm_state := (lm_state l)(ls_key r \<mapsto> s), lm_leases := (lm_leases l)[h := r\<lparr>ls_adjusted := True\<rparr>]\<rparr>)"

definition releaseLocked :: "nat \<Rightarrow> limiter \<Rightarrow> limiter" where
  "releaseLocked h l =
     (let r = lm_leases l ! h in
      if ls_released r then l
      else case lm_state l (ls_key r) of None \<Rightarrow> l | Some s \<Rightarrow>
        l\<lparr>lm_state := (lm_state l)(ls_key r \<mapsto> s\<lparr>ks_live := max (ks_live s - 1) 0\<rparr>),
          lm_leases := (lm_leases l)[h := r\<lparr>ls_released := True\<rparr>]\<rparr>)"

section \<open>The operations\<close>

definition mem_attempt :: "string \<Rightarrow> int \<Rightarrow> ctx \<Rightarrow> (limiter, 'a) shared_scheme \<Rightarrow> (error + nat result) \<times> (limiter, 'a) shared_scheme" where
  "mem_attempt key tokens c w =
     (let w = lock w;
          (r, l) = acquireLocked (ctx_Err c w) key tokens (sh_clock w) (sh_obj w)
      in (r, w\<lparr>sh_obj := l\<rparr>))"

definition mem_Acquire :: "nat \<Rightarrow> ctx \<Rightarrow> string \<Rightarrow> int \<Rightarrow> (limiter, 'a) shared_scheme \<Rightarrow>
    ((error + nat) \<times> (limiter, 'a) shared_scheme) option" where
  "mem_Acquire fuel c key tokens w =
     (let tokens = max tokens 0 in Wait fuel c key (lm_waiter (sh_obj w)) (mem_attempt key tokens) w)"

definition mem_Adjust :: "nat \<Rightarrow> int \<Rightarrow> (limiter, 'a) shared_scheme \<Rightarrow> error option \<times> (limiter, 'a) shared_scheme" where
  "mem_Adjust h actualTokens w =
     (let w = lock w
      in (None, w\<lparr>sh_obj := adjustLocked h actualTokens (sh_clock w) (sh_obj w)\<rparr>))"

definition mem_Release :: "nat \<Rightarrow> (limiter, 'a) shared_scheme \<Rightarrow> error option \<times> (limiter, 'a) shared_scheme" where
  "mem_Release h w = (let w = lock w in (None, w\<lparr>sh_obj := releaseLocked h (sh_obj w)\<rparr>))"

section \<open>Interleavings\<close>

text \<open>Any goroutine may enter any critical section next. A handle is that of a lease handed out.\<close>

inductive mem_step :: "limiter \<Rightarrow> limiter \<Rightarrow> bool" where
  mem_acquire: "0 \<le> tokens \<Longrightarrow> acquireLocked err key tokens now l = (r, l') \<Longrightarrow> mem_step l l'"
| mem_adjust: "h < length (lm_leases l) \<Longrightarrow> mem_step l (adjustLocked h actual now l)"
| mem_release: "h < length (lm_leases l) \<Longrightarrow> mem_step l (releaseLocked h l)"

inductive_cases mem_stepE: "mem_step l l'"

inductive mem_reachable :: "mem_config \<Rightarrow> limiter \<Rightarrow> bool" for cfg where
  mem_init: "mem_New cfg = Inr l \<Longrightarrow> mem_reachable cfg l"
| mem_next: "mem_reachable cfg l \<Longrightarrow> mem_step l l' \<Longrightarrow> mem_reachable cfg l'"

text \<open>The leases of a key that are held.\<close>

definition held :: "string \<Rightarrow> lease list \<Rightarrow> nat" where
  "held key ls = length (filter (\<lambda>r. ls_key r = key \<and> \<not> ls_released r) ls)"

definition key_inv :: "lease list \<Rightarrow> string \<Rightarrow> keyState \<Rightarrow> bool" where
  "key_inv ls key s \<longleftrightarrow>
     Validate (ks_limits s) = None \<and> ks_live s = int (held key ls) \<and>
     (SlotLimited (ks_limits s) \<longrightarrow> ks_live s \<le> MaxConcurrency (ks_limits s)) \<and>
     (TokenLimited (ks_limits s) \<longrightarrow> ks_balance s \<le> float_of_int (Capacity (ks_limits s)))"

definition mem_inv :: "limiter \<Rightarrow> bool" where
  "mem_inv l \<longleftrightarrow>
     (\<forall>key lmt. lm_limits l key = Some lmt \<longrightarrow> Validate lmt = None) \<and>
     (\<forall>lmt. lm_def l = Some lmt \<longrightarrow> Validate lmt = None) \<and>
     (\<forall>key s. lm_state l key = Some s \<longrightarrow> key_inv (lm_leases l) key s) \<and>
     (\<forall>r \<in> set (lm_leases l). lm_state l (ls_key r) \<noteq> None)"


section \<open>Facts\<close>

lemma validate_limits_None: "validate_limits ls = None \<longleftrightarrow> (\<forall>(k, l) \<in> set ls. Validate l = None)"
  by (induction ls rule: validate_limits.induct) (auto split: option.split)

lemma held_append: "held key (ls @ [r]) = held key ls + (if ls_key r = key \<and> \<not> ls_released r then 1 else 0)"
  by (simp add: held_def)

lemma held_le: "held key ls \<le> length ls"
  by (simp add: held_def)

lemma held_update:
  "h < length ls \<Longrightarrow> held key (ls[h := r]) + (if ls_key (ls ! h) = key \<and> \<not> ls_released (ls ! h) then 1 else 0)
     = held key ls + (if ls_key r = key \<and> \<not> ls_released r then 1 else 0)"
  unfolding held_def by (rule length_filter_update)

lemma held_pos: "h < length ls \<Longrightarrow> ls_key (ls ! h) = key \<Longrightarrow> \<not> ls_released (ls ! h) \<Longrightarrow> 0 < held key ls"
  by (metis (mono_tags, lifting) held_def length_greater_0_conv filter_empty_conv nth_mem)

lemma held_same: "h < length ls \<Longrightarrow> ls_key r = ls_key (ls ! h) \<Longrightarrow> ls_released r = ls_released (ls ! h) \<Longrightarrow>
    held key (ls[h := r]) = held key ls"
  using held_update [of h ls key r] by (auto split: if_splits)

text \<open>Refill and reconciliation keep the invariant of a key.\<close>

lemma key_inv_settle [simp]: "key_inv ls key s \<Longrightarrow> key_inv ls key (settleLocked s now)"
  by (auto simp: key_inv_def settleLocked_def Settle_le_capacity)

lemma key_inv_adjusted:
  "key_inv ls key s \<Longrightarrow> key_inv ls key (s\<lparr>ks_balance := Adjusted (ks_limits s) (ks_balance s) c a\<rparr>)"
  by (auto simp: key_inv_def Adjusted_le_capacity)

lemma key_inv_leases: "held key ls = held key ls' \<Longrightarrow> key_inv ls key s \<Longrightarrow> key_inv ls' key s"
  by (auto simp: key_inv_def)

lemma mem_inv_state: "mem_inv l \<Longrightarrow> lm_state l key = Some s \<Longrightarrow> key_inv (lm_leases l) key s"
  by (simp add: mem_inv_def)

lemma mem_inv_put:
  assumes "mem_inv l" and "key_inv (lm_leases l) key s"
  shows "mem_inv (l\<lparr>lm_state := (lm_state l)(key \<mapsto> s)\<rparr>)"
  using assms by (auto simp: mem_inv_def)

lemma stateLocked_inv:
  assumes inv: "mem_inv l" and run: "stateLocked l key now = Inr (s, l')"
  shows "mem_inv l'" and "key_inv (lm_leases l') key s" and "lm_leases l' = lm_leases l"
proof -
  have "mem_inv l' \<and> key_inv (lm_leases l') key s \<and> lm_leases l' = lm_leases l"
  proof (cases "lm_state l key")
    case (Some s0)
    with run inv show ?thesis by (simp add: stateLocked_def mem_inv_state)
  next
    case None
    with run obtain lmt where lmt: "lm_limits l key = Some lmt \<or> lm_def l = Some lmt"
      and s: "s = \<lparr>ks_lastRefill = now, ks_limits = lmt, ks_balance = float_of_int (Capacity lmt), ks_live = 0\<rparr>"
      and l': "l' = l\<lparr>lm_state := (lm_state l)(key \<mapsto> s)\<rparr>"
      by (auto simp: stateLocked_def Let_def split: option.splits)
    have "Validate lmt = None" using inv lmt by (auto simp: mem_inv_def)
    moreover have "held key (lm_leases l) = 0"
      using inv None by (auto simp: mem_inv_def held_def filter_empty_conv)
    ultimately have k: "key_inv (lm_leases l) key s"
      using valid_limits(2) [of lmt] by (simp add: key_inv_def s)
    with mem_inv_put [OF inv k] l' show ?thesis by simp
  qed
  then show "mem_inv l'" "key_inv (lm_leases l') key s" "lm_leases l' = lm_leases l" by auto
qed

lemma key_inv_grant:
  assumes k: "key_inv ls key s" and fits: "Fits (ks_limits s) (ks_balance s) tokens (ks_live s)"
    and t: "0 \<le> tokens"
    and s1: "s1 = (if TokenLimited (ks_limits s) then s\<lparr>ks_balance := fl (ks_balance s - float_of_int tokens)\<rparr> else s)"
  shows "key_inv (ls @ [\<lparr>ls_key = key, ls_tokens = tokens, ls_adjusted = False, ls_released = False\<rparr>]) key
    (s1\<lparr>ks_live := ks_live s1 + 1\<rparr>)"
proof -
  have live: "ks_live s = int (held key ls)" using k by (simp add: key_inv_def)
  have "fl (ks_balance s - float_of_int tokens) \<le> float_of_int (Capacity (ks_limits s))"
    if "TokenLimited (ks_limits s)"
  proof -
    have "ks_balance s - float_of_int tokens \<le> float_of_int (Capacity (ks_limits s))"
      using k that float_of_int_nonneg [OF t] by (auto simp: key_inv_def)
    then have "fl (ks_balance s - float_of_int tokens) \<le> fl (float_of_int (Capacity (ks_limits s)))" by (rule fl_mono)
    then show ?thesis by simp
  qed
  moreover have "ks_live s + 1 \<le> MaxConcurrency (ks_limits s)" if "SlotLimited (ks_limits s)"
    using Fits_slot [OF that fits] by simp
  ultimately show ?thesis
    using k live by (auto simp: key_inv_def held_append s1)
qed


lemma mem_inv_leases:
  assumes "mem_inv l" and "key_inv ls' key s"
    and "\<And>k. k \<noteq> key \<Longrightarrow> held k ls' = held k (lm_leases l)"
    and "ls_key ` set ls' \<subseteq> insert key (ls_key ` set (lm_leases l))"
  shows "mem_inv (l\<lparr>lm_state := (lm_state l)(key \<mapsto> s), lm_leases := ls'\<rparr>)"
proof -
  have "key_inv ls' k s'" if "((lm_state l)(key \<mapsto> s)) k = Some s'" for k s'
  proof (cases "k = key")
    case True
    with that assms(2) show ?thesis by simp
  next
    case False
    with that mem_inv_state [OF assms(1)] assms(3) [of k] show ?thesis
      using key_inv_leases [of k "lm_leases l" ls' s'] by auto
  qed
  moreover have "lm_state l (ls_key r) \<noteq> None \<or> ls_key r = key" if "r \<in> set ls'" for r
  proof -
    have "ls_key r \<in> insert key (ls_key ` set (lm_leases l))" using assms(4) that by blast
    with assms(1) show ?thesis by (auto simp: mem_inv_def)
  qed
  ultimately show ?thesis using assms(1) by (auto simp: mem_inv_def)
qed

lemma acquireLocked_inv:
  assumes inv: "mem_inv l" and t: "0 \<le> tokens"
    and run: "acquireLocked err key tokens now l = (r, l')"
  shows "mem_inv l'"
proof (cases err)
  case (Some e)
  with run inv show ?thesis by (simp add: acquireLocked_def)
next
  case err: None
  show ?thesis
  proof (cases "stateLocked l key now")
    case (Inl e)
    with run inv err show ?thesis by (simp add: acquireLocked_def)
  next
    case (Inr p)
    obtain s l1 where p: "p = (s, l1)" by (cases p)
    note st = stateLocked_inv [OF inv Inr [unfolded p]]
    let ?s = "settleLocked s now"
    have k: "key_inv (lm_leases l1) key ?s" using st(2) by simp
    show ?thesis
    proof (cases "Impossible (ks_limits s) tokens = []")
      case False
      with run err Inr p st(1) show ?thesis by (simp add: acquireLocked_def Let_def)
    next
      case imp: True
      show ?thesis
      proof (cases "Fits (ks_limits ?s) (ks_balance ?s) tokens (ks_live ?s)")
        case False
        with run err Inr p imp mem_inv_put [OF st(1) k] show ?thesis by (simp add: acquireLocked_def Let_def)
      next
        case True
        define s1 where "s1 = (if TokenLimited (ks_limits ?s)
          then ?s\<lparr>ks_balance := fl (ks_balance ?s - float_of_int tokens)\<rparr> else ?s)"
        define new where "new = \<lparr>ls_key = key, ls_tokens = tokens, ls_adjusted = False, ls_released = False\<rparr>"
        have "l' = l1\<lparr>lm_state := (lm_state l1)(key \<mapsto> s1\<lparr>ks_live := ks_live s1 + 1\<rparr>),
            lm_leases := lm_leases l1 @ [new]\<rparr>"
          using run err Inr p imp True by (simp add: acquireLocked_def Let_def s1_def new_def)
        moreover have "key_inv (lm_leases l1 @ [new]) key (s1\<lparr>ks_live := ks_live s1 + 1\<rparr>)"
          unfolding new_def by (rule key_inv_grant [OF k True t s1_def])
        ultimately show ?thesis
          by (simp add: held_append new_def mem_inv_leases [OF st(1)])
      qed
    qed
  qed
qed

lemma mem_inv_lease_state:
  "mem_inv l \<Longrightarrow> h < length (lm_leases l) \<Longrightarrow> \<exists>s. lm_state l (ls_key (lm_leases l ! h)) = Some s"
  using nth_mem by (fastforce simp: mem_inv_def)

lemma keys_update: "h < length ls \<Longrightarrow> ls_key r = ls_key (ls ! h) \<Longrightarrow>
    ls_key ` set (ls[h := r]) \<subseteq> insert (ls_key (ls ! h)) (ls_key ` set ls)"
  by (auto dest!: set_update_subset_insert [THEN subsetD])

lemma adjustLocked_inv:
  assumes inv: "mem_inv l" and h: "h < length (lm_leases l)"
  shows "mem_inv (adjustLocked h actual now l)"
proof (cases "ls_adjusted (lm_leases l ! h)")
  case True
  with inv show ?thesis by (simp add: adjustLocked_def)
next
  case False
  let ?r = "lm_leases l ! h"
  let ?ls = "(lm_leases l)[h := ?r\<lparr>ls_adjusted := True\<rparr>]"
  obtain s where s: "lm_state l (ls_key ?r) = Some s" using mem_inv_lease_state [OF inv h] by blast
  have same: "held k ?ls = held k (lm_leases l)" for k by (rule held_same [OF h]) simp_all
  have "key_inv ?ls (ls_key ?r) (settleLocked s now)"
    using key_inv_leases [OF same [symmetric]] mem_inv_state [OF inv s] by simp
  from mem_inv_leases [OF inv key_inv_adjusted [OF this], of "ls_tokens ?r" "max actual 0"]
  show ?thesis
    using s False same inv keys_update [OF h, of "?r\<lparr>ls_adjusted := True\<rparr>"]
    by (simp add: adjustLocked_def Let_def mem_inv_def)
qed

lemma key_inv_release:
  assumes "key_inv ls key s" and "h < length ls" and "ls_key (ls ! h) = key" and "\<not> ls_released (ls ! h)"
  shows "key_inv (ls[h := (ls ! h)\<lparr>ls_released := True\<rparr>]) key (s\<lparr>ks_live := max (ks_live s - 1) 0\<rparr>)"
proof -
  have pos: "0 < held key ls" using held_pos assms(2-4) by blast
  have live: "ks_live s = int (held key ls)" using assms(1) by (simp add: key_inv_def)
  have "held key (ls[h := (ls ! h)\<lparr>ls_released := True\<rparr>]) + 1 = held key ls"
    using held_update [OF assms(2), of key "(ls ! h)\<lparr>ls_released := True\<rparr>"] assms(3,4) by simp
  then show ?thesis using assms(1) live pos by (auto simp: key_inv_def)
qed

lemma releaseLocked_inv:
  assumes inv: "mem_inv l" and h: "h < length (lm_leases l)"
  shows "mem_inv (releaseLocked h l)"
proof (cases "ls_released (lm_leases l ! h)")
  case True
  with inv show ?thesis by (simp add: releaseLocked_def)
next
  case False
  let ?r = "lm_leases l ! h"
  let ?ls = "(lm_leases l)[h := ?r\<lparr>ls_released := True\<rparr>]"
  obtain s where s: "lm_state l (ls_key ?r) = Some s" using mem_inv_lease_state [OF inv h] by blast
  from key_inv_release [OF mem_inv_state [OF inv s] h refl False]
  have "mem_inv (l\<lparr>lm_state := (lm_state l)(ls_key ?r \<mapsto> s\<lparr>ks_live := max (ks_live s - 1) 0\<rparr>), lm_leases := ?ls\<rparr>)"
  proof (rule mem_inv_leases [OF inv])
    show "held k ?ls = held k (lm_leases l)" if "k \<noteq> ls_key ?r" for k
      using held_update [OF h, of k "?r\<lparr>ls_released := True\<rparr>"] that by simp
  qed (use keys_update [OF h] inv in \<open>simp_all add: mem_inv_def\<close>)
  with s False show ?thesis by (simp add: releaseLocked_def Let_def)
qed

lemma mem_step_inv: "mem_step l l' \<Longrightarrow> mem_inv l \<Longrightarrow> mem_inv l'"
  by (elim mem_stepE) (auto intro: acquireLocked_inv adjustLocked_inv releaseLocked_inv)

lemma mem_New_inv: "mem_New cfg = Inr l \<Longrightarrow> mem_inv l"
  by (auto simp: mem_New_def mem_inv_def validate_limits_None MaxInt_def Let_def split: option.splits dest!: map_of_SomeD)

lemma mem_reachable_inv: "mem_reachable cfg l \<Longrightarrow> mem_inv l"
  by (induction rule: mem_reachable.induct) (auto intro: mem_New_inv mem_step_inv)


lemma acquireLocked_grants:
  assumes "acquireLocked err key tokens now l = (Inr res, l')" and "r_Lease res = Some h"
  shows "err = None" and "h = length (lm_leases l)"
    and "lm_leases l' = lm_leases l @ [\<lparr>ls_key = key, ls_tokens = tokens, ls_adjusted = False, ls_released = False\<rparr>]"
  using assms
  by (auto simp: acquireLocked_def stateLocked_def Let_def split: option.splits if_splits)

lemma mem_attempt_steady: "steady (mem_attempt key tokens)"
  unfolding steady_def mem_attempt_def lock_def by (auto simp: Let_def split: prod.splits)

text \<open>The critical sections of other goroutines keep the limiter's invariant.\<close>

definition fair_others :: "(limiter, 'a) shared_scheme \<Rightarrow> bool" where
  "fair_others w \<longleftrightarrow> (\<forall>n l. mem_inv l \<longrightarrow> mem_inv (sh_others w n l))"

lemma mem_attempt_inv:
  assumes "0 \<le> tokens" and "mem_inv (sh_obj w) \<and> fair_others w" and "mem_attempt key tokens c w = (r, w')"
  shows "mem_inv (sh_obj w') \<and> fair_others w'"
proof -
  obtain l' where a: "acquireLocked (ctx_Err c (lock w)) key tokens (sh_clock (lock w)) (sh_obj (lock w)) = (r, l')"
    and w': "w' = (lock w)\<lparr>sh_obj := l'\<rparr>"
    using assms(3) by (auto simp: mem_attempt_def Let_def split: prod.splits)
  have "mem_inv (sh_obj (lock w))"
    using assms(2) by (simp add: lock_def fair_others_def)
  from acquireLocked_inv [OF this assms(1) a] show ?thesis
    using assms(2) by (simp add: w' lock_def fair_others_def)
qed

lemma waitCtx_live: "ctx_Err (waitCtx c wt w) w' = None \<Longrightarrow>
    ctx_Err c w' = None \<and> (0 < wt_MaxWait wt \<longrightarrow> w_clock w' < w_clock w + wt_MaxWait wt)"
  by (auto simp: waitCtx_def WithTimeout_def ctx_Err_def split: option.splits if_splits)


lemma mem_Acquire_admission:
  assumes "mem_Acquire fuel c key tokens w = Some (Inr h, w')"
  shows "ctx_Err (waitCtx c (lm_waiter (sh_obj w)) w) w' = None \<and>
    h < length (lm_leases (sh_obj w')) \<and> \<not> ls_released (lm_leases (sh_obj w') ! h) \<and>
    ls_key (lm_leases (sh_obj w') ! h) = key \<and> ls_tokens (lm_leases (sh_obj w') ! h) = max tokens 0"
proof -
  let ?wc = "waitCtx c (lm_waiter (sh_obj w)) w"
  obtain w0 res where a: "mem_attempt key (max tokens 0) ?wc w0 = (Inr res, w')" and l: "r_Lease res = Some h"
    using Wait_outcome [OF assms [unfolded mem_Acquire_def Let_def]] by (auto simp: wait_outcome_def)
  then obtain l' where acq: "acquireLocked (ctx_Err ?wc (lock w0)) key (max tokens 0)
      (sh_clock (lock w0)) (sh_obj (lock w0)) = (Inr res, l')"
    and w': "w' = (lock w0)\<lparr>sh_obj := l'\<rparr>"
    by (auto simp: mem_attempt_def Let_def split: prod.splits)
  have "ctx_Err ?wc w' = ctx_Err ?wc (lock w0)" by (auto simp: w' ctx_Err_def split: option.split)
  with acquireLocked_grants [OF acq l] w' show ?thesis by simp
qed

lemma mem_Acquire_inv:
  assumes "mem_inv (sh_obj w)" and "fair_others w" and "mem_Acquire fuel c key tokens w = Some (r, w')"
  shows "mem_inv (sh_obj w')"
proof -
  let ?P = "\<lambda>w. mem_inv (sh_obj w) \<and> fair_others w"
  have "?P w'"
  proof (rule wait_loop_preserves [where P = ?P])
    show "?P w" using assms by simp
    show "wait_loop fuel c (waitCtx c (lm_waiter (sh_obj w)) w) key (lm_waiter (sh_obj w))
        (mem_attempt key (max tokens 0)) (wt_Initial (lm_waiter (sh_obj w))) 0 w = Some (r, w')"
      using assms(3) by (simp add: mem_Acquire_def Wait_def)
    show "?P w2" if "?P w1" and "mem_attempt key (max tokens 0) (waitCtx c (lm_waiter (sh_obj w)) w) w1 = (r', w2)"
      for w1 r' w2 by (rule mem_attempt_inv [OF _ that]) simp
    show "?P w2" if "world.more w1 = world.more w2" and "w_rand w1 = w_rand w2" and "?P w1" for w1 w2
      using shared_more_frame [OF that(1)] that(3) by (simp add: fair_others_def)
  qed
  then show ?thesis by simp
qed

lemma releaseLocked_idem [simp]:
  assumes "mem_inv l" and "h < length (lm_leases l)"
  shows "releaseLocked h (releaseLocked h l) = releaseLocked h l"
  using mem_inv_lease_state [OF assms] assms(2) by (auto simp: releaseLocked_def Let_def)

lemma releaseLocked_frees:
  assumes "mem_inv l" and "h < length (lm_leases l)" and "\<not> ls_released (lm_leases l ! h)"
  shows "held key (lm_leases (releaseLocked h l)) + (if key = ls_key (lm_leases l ! h) then 1 else 0) =
    held key (lm_leases l)"
  using mem_inv_lease_state [OF assms(1,2)] assms(3)
    held_update [OF assms(2), of key "(lm_leases l ! h)\<lparr>ls_released := True\<rparr>"]
  by (auto simp: releaseLocked_def Let_def)

lemma adjustLocked_idem:
  assumes "mem_inv l" and "h < length (lm_leases l)"
  shows "adjustLocked h a2 t2 (adjustLocked h a1 t1 l) = adjustLocked h a1 t1 l"
  using mem_inv_lease_state [OF assms] assms(2) by (auto simp: adjustLocked_def Let_def)

lemma adjustLocked_held:
  assumes "mem_inv l" and "h < length (lm_leases l)"
  shows "held key (lm_leases (adjustLocked h a t l)) = held key (lm_leases l)"
  using mem_inv_lease_state [OF assms] held_same [OF assms(2), of "(lm_leases l ! h)\<lparr>ls_adjusted := True\<rparr>" key]
  by (auto simp: adjustLocked_def Let_def)

section \<open>Properties\<close>

text \<open>
  C6: in every state a limiter can reach, by any interleaving of critical sections, each key's live
  count is the number of its leases that are held, it respects \<open>MaxConcurrency\<close>, and its token
  balance never exceeds the bucket's capacity.
\<close>

theorem bucket_limits_hold:
  assumes "mem_reachable cfg l" and "lm_state l key = Some s"
  shows "ks_live s = int (held key (lm_leases l)) \<and>
    (SlotLimited (ks_limits s) \<longrightarrow> int (held key (lm_leases l)) \<le> MaxConcurrency (ks_limits s)) \<and>
    (TokenLimited (ks_limits s) \<longrightarrow> ks_balance s \<le> float_of_int (Capacity (ks_limits s)))"
  using mem_inv_state [OF mem_reachable_inv [OF assms(1)] assms(2)] by (auto simp: key_inv_def)

definition one_slot :: limits where
  "one_slot = \<lparr>TokensPerMinute = 0, MaxConcurrency = 1, BufferFactor = Fin 0\<rparr>"

definition one_slot_config :: mem_config where
  "one_slot_config = \<lparr>mc_Limits = [(''k'', one_slot)], mc_Default = None, mc_MaxWait = 10,
     mc_PollInterval = 2, mc_MaxPollInterval = 4\<rparr>"

definition one_slot_limiter :: limiter where
  "one_slot_limiter = \<lparr>lm_limits = [''k'' \<mapsto> one_slot], lm_def = None, lm_state = Map.empty,
     lm_waiter = \<lparr>wt_MaxWait = 10, wt_Initial = 2, wt_Max = 4\<rparr>, lm_leases = []\<rparr>"

lemma one_slot_valid: "Validate one_slot = None" "Capacity one_slot = 0" "\<not> TokenLimited one_slot"
  "SlotLimited one_slot"
  by (simp_all add: one_slot_def Validate_def maxCapacity_def float_of_MaxInt Capacity_def TokenLimited_def SlotLimited_def)

lemma one_slot_New: "mem_New one_slot_config = Inr one_slot_limiter"
  by (simp add: mem_New_def one_slot_config_def one_slot_limiter_def one_slot_valid Let_def)

lemma one_slot_acquire:
  "acquireLocked None ''k'' 5 7 one_slot_limiter =
     (Inr \<lparr>r_Lease = Some 0, r_Impossible = [], r_RetryAfter = 0\<rparr>,
      one_slot_limiter\<lparr>lm_state := [''k'' \<mapsto> \<lparr>ks_lastRefill = 7, ks_limits = one_slot, ks_balance = 0, ks_live = 1\<rparr>],
        lm_leases := [\<lparr>ls_key = ''k'', ls_tokens = 5, ls_adjusted = False, ls_released = False\<rparr>]\<rparr>)"
  using one_slot_valid
  by (simp add: acquireLocked_def stateLocked_def one_slot_limiter_def Let_def Impossible_def Fits_def
      settleLocked_def, simp add: one_slot_def)

theorem bucket_limits_hold_witness:
  "ks_live (the (lm_state (snd (acquireLocked None ''k'' 5 7 one_slot_limiter)) ''k'')) = 1 \<and>
   int (held ''k'' (lm_leases (snd (acquireLocked None ''k'' 5 7 one_slot_limiter)))) \<le> MaxConcurrency one_slot"
proof -
  let ?l = "snd (acquireLocked None ''k'' 5 7 one_slot_limiter)"
  have "mem_step one_slot_limiter ?l"
    by (rule mem_acquire [of 5]) (auto simp: one_slot_limiter_def MaxInt_def intro: surjective_pairing)
  then have "mem_reachable one_slot_config ?l" using mem_init [OF one_slot_New] mem_next by blast
  from bucket_limits_hold [OF this, of "''k''"] show ?thesis
    using one_slot_acquire by (simp add: one_slot_valid held_def)
qed

text \<open>
  \<open>Acquire\<close> never admits outside its budget, whatever the other goroutines do and however long
  the mutex is contended: a lease is granted only while the caller's context is live and strictly
  before \<open>MaxWait\<close> has elapsed; the lease it returns is held, on the requested key, for the tokens
  asked; and the limiter's invariant is kept.
\<close>

theorem acquire_within_budget:
  assumes "mem_inv (sh_obj w)" and "fair_others w"
    and "mem_Acquire fuel c key tokens w = Some (Inr h, w')"
  shows "ctx_Err c w' = None \<and>
    (0 < wt_MaxWait (lm_waiter (sh_obj w)) \<longrightarrow> w_clock w' < w_clock w + wt_MaxWait (lm_waiter (sh_obj w))) \<and>
    mem_inv (sh_obj w') \<and> h < length (lm_leases (sh_obj w')) \<and>
    (let r = lm_leases (sh_obj w') ! h in \<not> ls_released r \<and> ls_key r = key \<and> ls_tokens r = max tokens 0)"
  using mem_Acquire_admission [OF assms(3)] mem_Acquire_inv [OF assms]
    waitCtx_live [of c "lm_waiter (sh_obj w)" w w'] by (simp add: Let_def)

text \<open>A goroutine alone with a fresh one-slot limiter, on a mutex that takes 3 ns.\<close>

definition solo_world :: "limiter shared" where
  "solo_world = \<lparr>w_clock = 0, w_tie = (\<lambda>_. True), w_rand = (\<lambda>_. 0), w_draws = 0, w_oob = (\<lambda>_. MinInt),
     sh_obj = one_slot_limiter, sh_now = (\<lambda>t. 7), sh_locks = 0, sh_delay = (\<lambda>_. 3),
     sh_others = (\<lambda>n l. l)\<rparr>"

theorem acquire_within_budget_witness:
  "\<exists>w'. mem_Acquire 1 background ''k'' 5 solo_world = Some (Inr 0, w') \<and> w_clock w' < 10 \<and>
     ls_key (lm_leases (sh_obj w') ! 0) = ''k''"
proof -
  have inv: "mem_inv one_slot_limiter" by (rule mem_New_inv [OF one_slot_New])
  then have a: "mem_inv (sh_obj solo_world)" by (simp add: solo_world_def)
  have b: "fair_others solo_world" using inv by (simp add: fair_others_def solo_world_def one_slot_limiter_def MaxInt_def)
  have lk: "lock solo_world = solo_world\<lparr>w_clock := 3, sh_locks := 1\<rparr>"
    by (simp add: lock_def solo_world_def one_slot_limiter_def MaxInt_def)
  have wt: "lm_waiter (sh_obj solo_world) = \<lparr>wt_MaxWait = 10, wt_Initial = 2, wt_Max = 4\<rparr>"
    by (simp add: solo_world_def one_slot_limiter_def)
  define wc where "wc = waitCtx background \<lparr>wt_MaxWait = 10, wt_Initial = 2, wt_Max = 4\<rparr> solo_world"
  have live: "ctx_Err wc solo_world = None" "ctx_Err wc (solo_world\<lparr>w_clock := 3, sh_locks := 1\<rparr>) = None"
    by (simp_all add: wc_def waitCtx_def WithTimeout_def background_def ctx_Err_def solo_world_def)
  have lim: "sh_obj solo_world = one_slot_limiter" "sh_clock (solo_world\<lparr>w_clock := t, sh_locks := n\<rparr>) = 7" for t n
    by (simp_all add: solo_world_def sh_clock_def)
  obtain w' where "mem_attempt ''k'' 5 wc solo_world =
      (Inr \<lparr>r_Lease = Some 0, r_Impossible = [], r_RetryAfter = 0\<rparr>, w')"
    using live(2) by (simp add: mem_attempt_def lk lim Let_def one_slot_acquire)
  then have c: "mem_Acquire 1 background ''k'' 5 solo_world = Some (Inr 0, w')"
    using live by (simp add: mem_Acquire_def Wait_def wt wc_def)
  from acquire_within_budget [OF a b c] show ?thesis
    using c by (auto simp: Let_def solo_world_def one_slot_limiter_def)
qed

text \<open>
  the lease protocol. Releasing a held lease frees exactly one slot, its own key's; releasing it
  again changes nothing, so a double release cannot free another holder's slot. Only the first
  \<open>Adjust\<close> has an effect, and none frees a slot, before or after the release.
\<close>

theorem lease_protocol:
  assumes "mem_inv l" and "h < length (lm_leases l)" and "\<not> ls_released (lm_leases l ! h)"
  shows "held key (lm_leases (releaseLocked h l)) + (if key = ls_key (lm_leases l ! h) then 1 else 0)
       = held key (lm_leases l) \<and>
    releaseLocked h (releaseLocked h l) = releaseLocked h l \<and>
    adjustLocked h a2 t2 (adjustLocked h a1 t1 l) = adjustLocked h a1 t1 l \<and>
    held key (lm_leases (adjustLocked h a t l)) = held key (lm_leases l)"
  using releaseLocked_frees [OF assms] releaseLocked_idem adjustLocked_idem adjustLocked_held assms(1,2) by blast

theorem lease_protocol_witness:
  "let l = snd (acquireLocked None ''k'' 5 7 one_slot_limiter) in
     held ''k'' (lm_leases (releaseLocked 0 l)) + 1 = held ''k'' (lm_leases l)"
proof -
  let ?l = "snd (acquireLocked None ''k'' 5 7 one_slot_limiter)"
  have "mem_inv ?l"
    by (rule acquireLocked_inv [OF mem_New_inv [OF one_slot_New], of 5 None "''k''" 7])
      (auto simp: one_slot_limiter_def MaxInt_def intro: surjective_pairing)
  from lease_protocol [OF this, of 0 "''k''"] one_slot_acquire show ?thesis by (simp add: Let_def)
qed

end
