(* ===== verification/RateLimit.thy ===== *)
theory RateLimit
  imports Bucket Mutex Satint
begin

text \<open>
  The reservation protocol of \<open>llms/ratelimit/ratelimit.go\<close> and its process-local implementation,
  \<open>InMemoryLimiter\<close> of \<open>ratelimit/memory.go\<close>: a token bucket kept in ints with a float carry, and a
  concurrency semaphore. As for the bucket limiter, each critical section of the mutex is a function
  of the limiter's state, a reservation is a handle into the list of those handed out, and \<open>il_step\<close>
  is any interleaving.
\<close>

section \<open>Units and requests (ratelimit.go)\<close>

record usage_units =
  uu_InputTokens :: int
  uu_OutputTokensMax :: int
  uu_TotalTokensMax :: int
  uu_Requests :: int

definition Tokens :: "usage_units \<Rightarrow> int" where
  "Tokens u = (let t = uu_TotalTokensMax u;
                   t = (if t \<le> 0 then Add (uu_InputTokens u) (uu_OutputTokensMax u) else t)
               in max t 0)"

definition Slots :: "usage_units \<Rightarrow> int" where
  "Slots u = max (uu_Requests u) 1"

type_synonym operation = string

definition OperationChat :: operation where "OperationChat = ''chat''"
definition OperationEmbedding :: operation where "OperationEmbedding = ''embedding''"

record subject =
  sj_TenantID :: string
  sj_UserID :: string
  sj_JobID :: string

record reservation_request =
  rr_Provider :: provider_id
  rr_Model :: string
  rr_Operation :: operation
  rr_Purpose :: purpose
  rr_Metadata :: metadata
  rr_Subject :: subject
  rr_EstimatedUnits :: usage_units

record limiter_snapshot =
  sn_AvailableTokens :: int
  sn_MaxCapacity :: int
  sn_ActiveRequests :: int
  sn_MaxConcurrency :: int
  sn_TokenWaitHits :: int
  sn_SlotWaitHits :: int

section \<open>State (memory.go)\<close>

record il_config =
  ic_TokensPerMinute :: int
  ic_MaxConcurrency :: int
  ic_MaxWait :: int
  ic_PollInterval :: int
  ic_BufferFactor :: gofloat

record reservation =
  rv_tokens :: int
  rv_slots :: int
  rv_committed :: bool
  rv_released :: bool

record in_mem =
  il_lastRefill :: int
  il_maxWait :: int
  il_pollInterval :: int
  il_refillPerSec :: rat
  il_tokenCarry :: rat
  il_availableTok :: int
  il_maxCapacity :: int
  il_activeReqs :: int
  il_maxConcurrency :: int
  il_tokenWaitHits :: int
  il_slotWaitHits :: int
  il_tokenLimiting :: bool
  il_slotLimiting :: bool
  il_reservations :: "reservation list"

definition il_defaultPoll :: int where "il_defaultPoll = 100 * 1000000"

definition NewInMemoryLimiter :: "il_config \<Rightarrow> int \<Rightarrow> error + in_mem" where
  "NewInMemoryLimiter cfg now =
     (let limits = \<lparr>TokensPerMinute = ic_TokensPerMinute cfg, MaxConcurrency = ic_MaxConcurrency cfg,
                    BufferFactor = ic_BufferFactor cfg\<rparr>
      in case Validate limits of
        Some err \<Rightarrow> Inl (Wrapped ''ratelimit'' [err])
      | None \<Rightarrow>
          let poll = (if ic_PollInterval cfg \<le> 0 then il_defaultPoll else ic_PollInterval cfg);
              capacity = Capacity limits
          in Inr \<lparr>il_lastRefill = now, il_maxWait = ic_MaxWait cfg, il_pollInterval = poll,
               il_refillPerSec = RefillPerSecond limits, il_tokenCarry = 0, il_availableTok = capacity,
               il_maxCapacity = capacity, il_activeReqs = 0, il_maxConcurrency = ic_MaxConcurrency cfg,
               il_tokenWaitHits = 0, il_slotWaitHits = 0, il_tokenLimiting = TokenLimited limits,
               il_slotLimiting = SlotLimited limits, il_reservations = []\<rparr>)"

section \<open>Critical sections\<close>

definition maxCarry :: rat where
  "maxCarry = float_of_int MaxInt"

text \<open>The loop that consumes the carry, with the capacity it stops at; \<open>None\<close> is a loop still
  running when the fuel is spent.\<close>

fun refill_loop :: "nat \<Rightarrow> int \<Rightarrow> int \<Rightarrow> rat \<Rightarrow> (int \<times> rat) option" where
  "refill_loop 0 cap avail carry = None"
| "refill_loop (Suc fuel) cap avail carry =
     (if \<not> 1 \<le> carry then Some (avail, carry)
      else let whole = (if carry < maxCarry then go_trunc carry else MaxInt) in
        if avail \<ge> go_sub cap MaxInt \<and> whole \<ge> go_sub cap avail then Some (cap, 0)
        else refill_loop fuel cap (go_add avail whole) (fl (carry - float_of_int whole)))"

definition refillLocked :: "int \<Rightarrow> in_mem \<Rightarrow> in_mem" where
  "refillLocked now l =
     (if \<not> il_tokenLimiting l then l
      else let elapsed = seconds (time_sub now (il_lastRefill l)) in
        if elapsed \<le> 0 then l
        else let carry = fl (il_tokenCarry l + fl (elapsed * il_refillPerSec l)) in
          case refill_loop 4 (il_maxCapacity l) (il_availableTok l) carry of
            None \<Rightarrow> l
          | Some (avail, carry) \<Rightarrow>
              l\<lparr>il_lastRefill := now, il_tokenCarry := carry, il_availableTok := avail\<rparr>)"

definition retryAfterLocked :: "in_mem \<Rightarrow> int \<Rightarrow> bool \<Rightarrow> int" where
  "retryAfterLocked l tokens hasTokens =
     (if hasTokens \<or> il_refillPerSec l \<le> 0 then 0
      else let deficit = fl (float_of_int tokens - float_of_int (il_availableTok l));
               deficit = (if il_availableTok l \<ge> go_sub tokens MaxInt
                          then float_of_int (go_sub tokens (il_availableTok l)) else deficit)
        in if deficit \<le> 0 then 0
           else let ns = fl (fl (deficit / il_refillPerSec l) * 1000000000) in
             if ns \<ge> maxDurationNS then MaxInt else go_trunc ns)"

definition tryAcquireLocked :: "int \<Rightarrow> int \<Rightarrow> in_mem \<Rightarrow> (bool \<times> int) \<times> in_mem" where
  "tryAcquireLocked tokens slots l =
     (let hasTokens = \<not> il_tokenLimiting l \<or> il_availableTok l \<ge> tokens;
          hasSlot = \<not> il_slotLimiting l \<or> slots \<le> go_sub (il_maxConcurrency l) (il_activeReqs l)
      in if hasTokens \<and> hasSlot
         then let l = (if il_tokenLimiting l then l\<lparr>il_availableTok := go_sub (il_availableTok l) tokens\<rparr> else l)
              in ((True, 0), l\<lparr>il_activeReqs := Add (il_activeReqs l) slots\<rparr>)
         else let l = (if \<not> hasTokens then l\<lparr>il_tokenWaitHits := go_add (il_tokenWaitHits l) 1\<rparr> else l);
                  l = (if \<not> hasSlot then l\<lparr>il_slotWaitHits := go_add (il_slotWaitHits l) 1\<rparr> else l)
              in ((False, retryAfterLocked l tokens hasTokens), l))"

text \<open>The critical section of \<open>Reserve\<close> with, on success, the reservation it then returns.\<close>

definition reserveLocked :: "int \<Rightarrow> int \<Rightarrow> int \<Rightarrow> in_mem \<Rightarrow> (nat option \<times> int) \<times> in_mem" where
  "reserveLocked tokens slots now l =
     (case tryAcquireLocked tokens slots (refillLocked now l) of
        ((True, _), l) \<Rightarrow>
          ((Some (length (il_reservations l)), 0),
           l\<lparr>il_reservations := il_reservations l @
               [\<lparr>rv_tokens = tokens, rv_slots = slots, rv_committed = False, rv_released = False\<rparr>]\<rparr>)
      | ((False, retryAfter), l) \<Rightarrow> ((None, retryAfter), l))"

definition effectiveTokens :: "usage \<Rightarrow> int" where
  "effectiveTokens u =
     (let input = max (max (u_InputTokens u) (u_EmbeddingTokens u)) 0;
          output = u_BillableOutputTokens u;
          output = (if output \<le> 0 then Add (max (u_OutputTokens u) 0) (max (u_ReasoningTokens u) 0) else output)
      in max (Add input output) (u_TotalTokens u))"

definition commitLocked :: "nat \<Rightarrow> usage \<Rightarrow> int \<Rightarrow> in_mem \<Rightarrow> in_mem" where
  "commitLocked h u now l =
     (let r = il_reservations l ! h in
      if rv_committed r then l
      else let l = l\<lparr>il_reservations := (il_reservations l)[h := r\<lparr>rv_committed := True\<rparr>]\<rparr> in
        if \<not> il_tokenLimiting l then l
        else let l = refillLocked now l; delta = go_sub (effectiveTokens u) (rv_tokens r)
             in l\<lparr>il_availableTok := min (Sub (il_availableTok l) delta) (il_maxCapacity l)\<rparr>)"

definition il_releaseLocked :: "nat \<Rightarrow> in_mem \<Rightarrow> in_mem" where
  "il_releaseLocked h l =
     (let r = il_reservations l ! h in
      if rv_released r then l
      else let l = l\<lparr>il_reservations := (il_reservations l)[h := r\<lparr>rv_released := True\<rparr>]\<rparr>;
               l = l\<lparr>il_activeReqs := go_sub (il_activeReqs l) (rv_slots r)\<rparr>
           in l\<lparr>il_activeReqs := max (il_activeReqs l) 0\<rparr>)"

definition statsLocked :: "int \<Rightarrow> in_mem \<Rightarrow> limiter_snapshot \<times> in_mem" where
  "statsLocked now l =
     (let l = refillLocked now l in
      (\<lparr>sn_AvailableTokens = il_availableTok l, sn_MaxCapacity = il_maxCapacity l,
        sn_ActiveRequests = il_activeReqs l, sn_MaxConcurrency = il_maxConcurrency l,
        sn_TokenWaitHits = il_tokenWaitHits l, sn_SlotWaitHits = il_slotWaitHits l\<rparr>, l))"

section \<open>Reserve, Commit and Release\<close>

definition limitErr :: "reservation_request \<Rightarrow> string \<Rightarrow> int \<Rightarrow> error option \<Rightarrow> bool \<Rightarrow> error" where
  "limitErr req reason retryAfter cause perm =
     LimitError cause (rr_Provider req) (rr_Model req) reason retryAfter perm"

definition ctxDone :: "ctx \<Rightarrow> reservation_request \<Rightarrow> string \<Rightarrow> int \<Rightarrow> 'a world_scheme \<Rightarrow> error" where
  "ctxDone c req reason retryAfter w = limitErr req reason retryAfter (ctx_Err c w) False"

definition il_impossible :: "in_mem \<Rightarrow> reservation_request \<Rightarrow> int \<Rightarrow> int \<Rightarrow> error option" where
  "il_impossible l req tokens slots =
     (if il_tokenLimiting l \<and> tokens > il_maxCapacity l
        then Some (limitErr req ''estimated tokens exceed maximum bucket capacity; request can never be admitted'' 0 None True)
      else if il_slotLimiting l \<and> slots > il_maxConcurrency l
        then Some (limitErr req ''requested concurrency exceeds maximum; request can never be admitted'' 0 None True)
      else None)"

fun reserve_loop :: "nat \<Rightarrow> ctx \<Rightarrow> reservation_request \<Rightarrow> int \<Rightarrow> int \<Rightarrow> int \<Rightarrow> (in_mem, 'a) shared_scheme \<Rightarrow>
    ((error + nat) \<times> (in_mem, 'a) shared_scheme) option" where
  "reserve_loop 0 c req tokens slots start w = None"
| "reserve_loop (Suc fuel) c req tokens slots start w =
     (if ctx_Err c w \<noteq> None
        then Some (Inl (ctxDone c req ''context done before rate-limit capacity available'' 0 w), w)
      else let w = lock w in
        case reserveLocked tokens slots (sh_clock w) (sh_obj w) of
          ((Some h, _), l) \<Rightarrow> Some (Inr h, w\<lparr>sh_obj := l\<rparr>)
        | ((None, retryAfter), l) \<Rightarrow>
            let w = w\<lparr>sh_obj := l\<rparr>;
                remaining = go_sub (il_maxWait l) (time_sub (sh_clock w) start) in
            if il_maxWait l > 0 \<and> remaining \<le> 0
              then Some (Inl (limitErr req ''rate limit wait exceeded MaxWait'' retryAfter None False), w)
            else let s = (if il_maxWait l > 0 then min (il_pollInterval l) remaining else il_pollInterval l);
                     (stop, w) = sleep_or_done c s w
                 in if stop
                    then Some (Inl (ctxDone c req ''context done while waiting for rate-limit capacity'' retryAfter w), w)
                    else reserve_loop fuel c req tokens slots start w)"

definition il_Reserve :: "nat \<Rightarrow> ctx \<Rightarrow> reservation_request \<Rightarrow> (in_mem, 'a) shared_scheme \<Rightarrow>
    ((error + nat) \<times> (in_mem, 'a) shared_scheme) option" where
  "il_Reserve fuel c req w =
     (let tokens = Tokens (rr_EstimatedUnits req); slots = Slots (rr_EstimatedUnits req) in
      case il_impossible (sh_obj w) req tokens slots of
        Some le \<Rightarrow> Some (Inl le, w)
      | None \<Rightarrow> reserve_loop fuel c req tokens slots (sh_clock w) w)"

definition il_Commit :: "nat \<Rightarrow> usage \<Rightarrow> (in_mem, 'a) shared_scheme \<Rightarrow> error option \<times> (in_mem, 'a) shared_scheme" where
  "il_Commit h u w = (let w = lock w in (None, w\<lparr>sh_obj := commitLocked h u (sh_clock w) (sh_obj w)\<rparr>))"

definition il_Release :: "nat \<Rightarrow> (in_mem, 'a) shared_scheme \<Rightarrow> error option \<times> (in_mem, 'a) shared_scheme" where
  "il_Release h w = (let w = lock w in (None, w\<lparr>sh_obj := il_releaseLocked h (sh_obj w)\<rparr>))"

definition il_Stats :: "(in_mem, 'a) shared_scheme \<Rightarrow> limiter_snapshot \<times> (in_mem, 'a) shared_scheme" where
  "il_Stats w = (let w = lock w; (sn, l) = statsLocked (sh_clock w) (sh_obj w) in (sn, w\<lparr>sh_obj := l\<rparr>))"

section \<open>Interleavings\<close>

text \<open>\<open>Reserve\<close> enters its critical section only for a request that is not impossible. Slots and
  tokens are ints, and usage counters too.\<close>

inductive il_step :: "in_mem \<Rightarrow> in_mem \<Rightarrow> bool" where
  il_reserve: "il_impossible l req tokens slots = None \<Longrightarrow> 0 \<le> tokens \<Longrightarrow> 1 \<le> slots \<Longrightarrow> in_int64 tokens \<Longrightarrow>
     in_int64 slots \<Longrightarrow> il_step l (snd (reserveLocked tokens slots now l))"
| il_commit: "h < length (il_reservations l) \<Longrightarrow> usage_in_range u \<Longrightarrow> il_step l (commitLocked h u now l)"
| il_release: "h < length (il_reservations l) \<Longrightarrow> il_step l (il_releaseLocked h l)"
| il_stats: "il_step l (snd (statsLocked now l))"

inductive_cases il_stepE: "il_step l l'"

inductive il_reachable :: "il_config \<Rightarrow> in_mem \<Rightarrow> bool" for cfg where
  il_init: "NewInMemoryLimiter cfg now = Inr l \<Longrightarrow> il_reachable cfg l"
| il_next: "il_reachable cfg l \<Longrightarrow> il_step l l' \<Longrightarrow> il_reachable cfg l'"

text \<open>The slots of the reservations not yet released.\<close>

definition held_slots :: "reservation list \<Rightarrow> int" where
  "held_slots rs = sum_list (map (\<lambda>r. if rv_released r then 0 else rv_slots r) rs)"

definition token_inv :: "in_mem \<Rightarrow> bool" where
  "token_inv l \<longleftrightarrow> il_tokenLimiting l \<longrightarrow>
     1 \<le> il_maxCapacity l \<and> in_int64 (il_maxCapacity l) \<and> in_int64 (il_availableTok l) \<and>
     il_availableTok l \<le> il_maxCapacity l \<and> 0 \<le> il_tokenCarry l \<and> il_tokenCarry l < 1 \<and>
     0 < il_refillPerSec l"

definition reservation_ok :: "reservation \<Rightarrow> bool" where
  "reservation_ok r \<longleftrightarrow> 1 \<le> rv_slots r \<and> 0 \<le> rv_tokens r \<and> in_int64 (rv_tokens r) \<and> in_int64 (rv_slots r)"

definition slots_ok :: "reservation list \<Rightarrow> bool" where
  "slots_ok rs \<longleftrightarrow> (\<forall>r \<in> set rs. reservation_ok r)"

definition slot_inv :: "in_mem \<Rightarrow> bool" where
  "slot_inv l \<longleftrightarrow> 0 \<le> il_activeReqs l \<and> in_int64 (il_activeReqs l) \<and>
     (il_slotLimiting l \<longrightarrow> il_activeReqs l = held_slots (il_reservations l) \<and>
        il_activeReqs l \<le> il_maxConcurrency l \<and> in_int64 (il_maxConcurrency l)) \<and>
     slots_ok (il_reservations l)"

definition il_inv :: "in_mem \<Rightarrow> bool" where
  "il_inv l \<longleftrightarrow> token_inv l \<and> slot_inv l"

section \<open>Facts\<close>

subsection \<open>Units\<close>

lemma Tokens_nonneg: "0 \<le> Tokens u"
  by (simp add: Tokens_def Let_def)

lemma Tokens_in_range: "in_int64 (uu_InputTokens u) \<Longrightarrow> in_int64 (uu_OutputTokensMax u) \<Longrightarrow>
    in_int64 (uu_TotalTokensMax u) \<Longrightarrow> in_int64 (Tokens u)"
  by (simp add: Tokens_def Let_def)

lemma Slots_pos: "1 \<le> Slots u"
  by (simp add: Slots_def)

lemma effectiveTokens_in_range: "usage_in_range u \<Longrightarrow> in_int64 (effectiveTokens u)"
  by (simp add: effectiveTokens_def usage_in_range_def Let_def)

lemma clamp64_nonneg: "0 \<le> x \<Longrightarrow> 0 \<le> clamp64 x"
  by (simp add: clamp64_def MaxInt_def MinInt_def)

lemma effectiveTokens_eq:
  assumes "usage_in_range u"
  shows "effectiveTokens u =
     max (clamp64 (max 0 (max (u_InputTokens u) (u_EmbeddingTokens u)) +
            (if 0 < u_BillableOutputTokens u then u_BillableOutputTokens u
             else clamp64 (max 0 (u_OutputTokens u) + max 0 (u_ReasoningTokens u)))))
       (u_TotalTokens u)"
  using assms
  by (simp add: effectiveTokens_def usage_in_range_def Let_def Add_eq_clamp max.commute max.left_commute)

lemma effectiveTokens_nonneg:
  assumes "usage_in_range u"
  shows "0 \<le> effectiveTokens u"
proof -
  have "0 \<le> clamp64 (max 0 (u_OutputTokens u) + max 0 (u_ReasoningTokens u))" by (intro clamp64_nonneg) simp
  then have "0 \<le> clamp64 (max 0 (max (u_InputTokens u) (u_EmbeddingTokens u)) +
            (if 0 < u_BillableOutputTokens u then u_BillableOutputTokens u
             else clamp64 (max 0 (u_OutputTokens u) + max 0 (u_ReasoningTokens u))))"
    by (intro clamp64_nonneg) simp
  then show ?thesis by (simp add: effectiveTokens_eq [OF assms] le_max_iff_disj)
qed

subsection \<open>Refill\<close>

text \<open>Taking the whole part off a float is exact.\<close>

lemma fl_minus_floor:
  assumes "fl x = x" and "0 < x"
  shows "fl (x - float_of_int \<lfloor>x\<rfloor>) = x - of_int \<lfloor>x\<rfloor>"
proof -
  obtain m k where m: "\<bar>m\<bar> \<le> 2 ^ 53" and x: "x = of_int m * 2 powi k"
    using fl_representable [of x] assms(1) by (auto simp: representable_def)
  show ?thesis
  proof (cases "0 \<le> k")
    case True
    then have "x = of_int (m * 2 ^ nat k)" by (simp add: x power_int_def)
    then have e: "of_int \<lfloor>x\<rfloor> = x" by (metis floor_of_int)
    then have "float_of_int \<lfloor>x\<rfloor> = x" unfolding float_of_int_def using assms(1) by metis
    with e show ?thesis by (metis diff_self fl_zero)
  next
    case False
    define d :: int where "d = 2 ^ nat (- k)"
    have d: "0 < d" by (simp add: d_def)
    have pk: "2 powi k = 1 / (of_int d :: rat)" using False by (simp add: d_def power_int_def field_simps)
    have xd: "x = of_int m / of_int d" by (simp add: x pk)
    have m0: "0 < m" using assms(2) d xd by (simp add: zero_less_divide_iff)
    have fx: "\<lfloor>x\<rfloor> = m div d" by (simp add: xd floor_divide_of_int_eq)
    have "m div d \<le> m" and "m mod d \<le> m" and "0 \<le> m div d" and "0 \<le> m mod d"
      using m0 d by (simp_all add: pos_imp_zdiv_nonneg_iff zmod_le_nonneg_dividend int_div_le_self order.order_iff_strict [of d])
    then have e: "float_of_int (m div d) = of_int (m div d)" using m m0 by (simp add: float_of_int_exact)
    have "of_int m = of_int (m div d) * of_int d + (of_int (m mod d) :: rat)"
      by (metis div_mult_mod_eq of_int_add of_int_mult)
    then have r: "x - of_int (m div d) = of_int (m mod d) * 2 powi k" using d by (simp add: xd pk field_simps)
    have "representable (x - of_int (m div d))"
      unfolding representable_def using r m m0 \<open>m mod d \<le> m\<close> \<open>0 \<le> m mod d\<close> by (intro exI [of _ "m mod d"] exI [of _ k]) auto
    then show ?thesis by (simp add: e fx fl_exact)
  qed
qed

lemma maxCarry_eq: "maxCarry = 9223372036854775808"
  by (simp add: maxCarry_def float_of_MaxInt)

lemma floor_below_maxCarry: "x < maxCarry \<Longrightarrow> \<lfloor>x\<rfloor> \<le> MaxInt"
  by (simp add: maxCarry_eq MaxInt_def floor_le_iff)

lemma refill_small:
  assumes "in_int64 cap" and "in_int64 avail" and "1 \<le> cap" and "avail \<le> cap"
    and "fl carry = carry" and "1 \<le> carry" and "carry < maxCarry"
  shows "refill_loop (Suc (Suc fuel)) cap avail carry =
    Some (if cap - avail \<le> \<lfloor>carry\<rfloor> then (cap, 0) else (avail + \<lfloor>carry\<rfloor>, carry - of_int \<lfloor>carry\<rfloor>))"
proof -
  let ?n = "\<lfloor>carry\<rfloor>"
  have n: "1 \<le> ?n" "?n \<le> MaxInt" using assms(6,7) floor_below_maxCarry by (simp_all add: le_floor_iff)
  have tr: "go_trunc carry = ?n" using assms(6) by (simp add: go_trunc_def)
  have capm: "go_sub cap MaxInt = cap - MaxInt" using assms(1,3) by (intro go_sub_exact) (simp add: go_int_defs)
  have guard: "(avail \<ge> go_sub cap MaxInt \<and> ?n \<ge> go_sub cap avail) \<longleftrightarrow> cap - avail \<le> ?n"
  proof (cases "avail \<ge> cap - MaxInt")
    case True
    then have "go_sub cap avail = cap - avail" using assms(4) by (intro go_sub_exact) (simp add: go_int_defs)
    with True capm show ?thesis by simp
  next
    case False
    with n capm show ?thesis by simp
  qed
  have add: "go_add avail ?n = avail + ?n" if "\<not> cap - avail \<le> ?n"
    using that assms(1,2) n unfolding in_int64_def by (intro go_add_exact) (simp add: in_int64_def del: le_floor_iff one_le_floor)
  have "\<not> 1 \<le> carry - of_int ?n" using floor_correct [of carry] by linarith
  then show ?thesis
    using assms(5-7) guard add by (simp add: tr fl_minus_floor Let_def del: not_le)
qed

definition refill_done :: "nat \<Rightarrow> int \<Rightarrow> int \<Rightarrow> rat \<Rightarrow> bool" where
  "refill_done fuel cap avail carry \<longleftrightarrow>
     (\<exists>a c. refill_loop fuel cap avail carry = Some (a, c) \<and> avail \<le> a \<and> a \<le> cap \<and> 0 \<le> c \<and> c < 1)"

lemma refill_done_small:
  assumes "in_int64 cap" and "in_int64 avail" and "1 \<le> cap" and "avail \<le> cap"
    and "fl carry = carry" and "0 \<le> carry" and "carry < maxCarry"
  shows "refill_done (Suc (Suc fuel)) cap avail carry"
proof (cases "1 \<le> carry")
  case True
  then have "1 \<le> \<lfloor>carry\<rfloor>" by (simp add: le_floor_iff)
  moreover have "carry - of_int \<lfloor>carry\<rfloor> < 1" "of_int \<lfloor>carry\<rfloor> \<le> carry" using floor_correct [of carry] by linarith+
  ultimately show ?thesis
    using refill_small [OF assms(1-5) True assms(7), of fuel] assms(4) by (simp add: refill_done_def)
next
  case False
  with assms(4,6) show ?thesis by (simp add: refill_done_def)
qed

text \<open>A carry of at least 2^63 fills the bucket at once, unless the debt is deeper than the largest
  int; then it is repaid by one chunk.\<close>

lemma refill_big:
  assumes "in_int64 cap" and "1 \<le> cap" and "avail \<le> cap" and "maxCarry \<le> carry"
  shows "refill_loop (Suc fuel) cap avail carry =
    (if cap - MaxInt \<le> avail then Some (cap, 0)
     else refill_loop fuel cap (go_add avail MaxInt) (fl (carry - maxCarry)))"
proof -
  have capm: "go_sub cap MaxInt = cap - MaxInt" using assms(1,2) by (intro go_sub_exact) (simp add: go_int_defs)
  have "go_sub cap avail = cap - avail" if "cap - MaxInt \<le> avail"
    using that assms(3) by (intro go_sub_exact) (simp add: go_int_defs)
  moreover have "1 \<le> carry" using assms(4) by (simp add: maxCarry_eq)
  ultimately show ?thesis using assms(4) capm by (simp add: Let_def maxCarry_def)
qed

lemma refill_done_shallow:
  assumes "in_int64 cap" and "in_int64 avail" and "1 \<le> cap" and "avail \<le> cap"
    and "fl carry = carry" and "0 \<le> carry" and "cap - MaxInt \<le> avail"
  shows "refill_done (Suc (Suc fuel)) cap avail carry"
  using refill_done_small [OF assms(1-6)] refill_big [OF assms(1,3,4), of carry "Suc fuel"] assms(4,7)
  by (cases "carry < maxCarry") (simp_all add: refill_done_def)

lemma refill_done_chunk:
  assumes "in_int64 cap" and "in_int64 avail" and "1 \<le> cap" and "avail \<le> cap"
    and "maxCarry \<le> carry" and "avail < cap - MaxInt"
    and "refill_done fuel cap (avail + MaxInt) (fl (carry - maxCarry))"
  shows "refill_done (Suc fuel) cap avail carry"
proof -
  have "go_add avail MaxInt = avail + MaxInt"
    using assms(1,2,6) by (intro go_add_exact) (simp add: go_int_defs)
  with refill_big [OF assms(1,3,4,5), of fuel] assms(6,7) show ?thesis
    by (auto simp: refill_done_def MaxInt_def)
qed

lemma refill_done_debt:
  assumes "in_int64 cap" and "in_int64 avail" and "1 \<le> cap" and "avail \<le> cap"
    and "fl carry = carry" and "0 \<le> carry" and "- 1 \<le> avail"
  shows "refill_done (Suc (Suc (Suc fuel))) cap avail carry"
proof (cases "carry < maxCarry \<or> cap - MaxInt \<le> avail")
  case True
  then show ?thesis using refill_done_small [OF assms(1-6)] refill_done_shallow [OF assms(1-6)] by blast
next
  case False
  then have lt: "avail < cap - MaxInt" "maxCarry \<le> carry" by auto
  have "in_int64 (avail + MaxInt)" using assms(1,2,7) lt(1) by (simp add: go_int_defs)
  moreover have "0 \<le> fl (carry - maxCarry)" using lt by (intro fl_nonneg) simp
  ultimately have "refill_done (Suc (Suc fuel)) cap (avail + MaxInt) (fl (carry - maxCarry))"
    using assms(1,3,7) lt by (intro refill_done_shallow) (simp_all add: in_int64_def MaxInt_def)
  then show ?thesis by (rule refill_done_chunk [OF assms(1-4) lt(2,1)])
qed

lemma refill_done_any:
  assumes "in_int64 cap" and "in_int64 avail" and "1 \<le> cap" and "avail \<le> cap"
    and "fl carry = carry" and "0 \<le> carry"
  shows "refill_done 4 cap avail carry"
proof (cases "carry < maxCarry \<or> cap - MaxInt \<le> avail")
  case True
  then show ?thesis
    using refill_done_small [OF assms] refill_done_shallow [OF assms] by (auto simp: eval_nat_numeral)
next
  case False
  then have lt: "avail < cap - MaxInt" "maxCarry \<le> carry" by auto
  have "in_int64 (avail + MaxInt)" "- 1 \<le> avail + MaxInt" using assms(1,2) lt(1) by (simp_all add: go_int_defs)
  moreover have "0 \<le> fl (carry - maxCarry)" using lt by (intro fl_nonneg) simp
  ultimately have "refill_done (Suc (Suc (Suc 0))) cap (avail + MaxInt) (fl (carry - maxCarry))"
    using assms(1,3) lt by (intro refill_done_debt) simp_all
  from refill_done_chunk [OF assms(1-4) lt(2,1) this] show ?thesis by (simp add: eval_nat_numeral)
qed

end
