(* ===== verification/InMemory.thy ===== *)
theory InMemory
  imports RateLimit BucketWait
begin

text \<open>
  The correctness of \<open>InMemoryLimiter\<close>: its invariant under every interleaving of critical sections,
  exact refill, what a reservation charges and what a commit settles, and the outcome of \<open>Reserve\<close>
  under the interference of other goroutines.
\<close>

section \<open>Refill\<close>

lemma refillLocked_frame [simp]:
  "il_reservations (refillLocked now l) = il_reservations l"
  "il_activeReqs (refillLocked now l) = il_activeReqs l"
  "il_maxConcurrency (refillLocked now l) = il_maxConcurrency l"
  "il_slotLimiting (refillLocked now l) = il_slotLimiting l"
  "il_tokenLimiting (refillLocked now l) = il_tokenLimiting l"
  "il_maxCapacity (refillLocked now l) = il_maxCapacity l"
  "il_refillPerSec (refillLocked now l) = il_refillPerSec l"
  "il_maxWait (refillLocked now l) = il_maxWait l"
  "il_pollInterval (refillLocked now l) = il_pollInterval l"
  by (simp_all add: refillLocked_def Let_def split: option.split prod.split)

lemma slot_inv_refill [simp]: "slot_inv (refillLocked now l) = slot_inv l"
  by (simp add: slot_inv_def)

lemma refillLocked_gain:
  assumes "token_inv l"
  shows "token_inv (refillLocked now l)" and "il_availableTok l \<le> il_availableTok (refillLocked now l)"
proof -
  have "token_inv (refillLocked now l) \<and> il_availableTok l \<le> il_availableTok (refillLocked now l)"
  proof (cases "il_tokenLimiting l \<and> 0 < seconds (time_sub now (il_lastRefill l))")
    case False
    with assms show ?thesis by (auto simp: refillLocked_def Let_def)
  next
    case True
    let ?t = "seconds (time_sub now (il_lastRefill l))"
    let ?c = "fl (il_tokenCarry l + fl (?t * il_refillPerSec l))"
    have inv: "1 \<le> il_maxCapacity l" "in_int64 (il_maxCapacity l)" "in_int64 (il_availableTok l)"
      "il_availableTok l \<le> il_maxCapacity l" "0 \<le> il_tokenCarry l" "0 < il_refillPerSec l"
      using assms True by (simp_all add: token_inv_def)
    have "0 \<le> fl (?t * il_refillPerSec l)" using True inv(6) by (intro fl_nonneg) simp
    then have "0 \<le> ?c" using inv(5) by (intro fl_nonneg) simp
    from refill_done_any [OF inv(2,3,1,4) fl_fl this] obtain a c where
      r: "refill_loop 4 (il_maxCapacity l) (il_availableTok l) ?c = Some (a, c)"
        "il_availableTok l \<le> a" "a \<le> il_maxCapacity l" "0 \<le> c" "c < 1" by (auto simp: refill_done_def)
    have "refillLocked now l = l\<lparr>il_lastRefill := now, il_tokenCarry := c, il_availableTok := a\<rparr>"
      using True r(1) by (simp add: refillLocked_def Let_def)
    moreover have "in_int64 a" using inv(2,3) r(2,3) by (simp add: in_int64_def)
    ultimately show ?thesis using inv r by (simp add: token_inv_def)
  qed
  then show "token_inv (refillLocked now l)" "il_availableTok l \<le> il_availableTok (refillLocked now l)" by auto
qed

lemma refillLocked_inv [simp]: "il_inv l \<Longrightarrow> il_inv (refillLocked now l)"
  by (simp add: il_inv_def refillLocked_gain)

section \<open>The invariant\<close>

lemma held_slots_append [simp]: "held_slots (rs @ [r]) = held_slots rs + (if rv_released r then 0 else rv_slots r)"
  by (simp add: held_slots_def)

lemma held_slots_update:
  assumes "h < length rs"
  shows "held_slots (rs[h := r]) =
    held_slots rs - (if rv_released (rs ! h) then 0 else rv_slots (rs ! h)) + (if rv_released r then 0 else rv_slots r)"
  using assms
proof (induction rs arbitrary: h)
  case Nil
  then show ?case by simp
next
  case (Cons a rs)
  then show ?case by (cases h) (auto simp: held_slots_def)
qed

lemma slots_ok_simps [simp]:
  "slots_ok []" "slots_ok (r # rs) \<longleftrightarrow> reservation_ok r \<and> slots_ok rs"
  "slots_ok (rs @ [r]) \<longleftrightarrow> slots_ok rs \<and> reservation_ok r"
  by (auto simp: slots_ok_def)

lemma slots_ok_nth: "slots_ok rs \<Longrightarrow> h < length rs \<Longrightarrow> reservation_ok (rs ! h)"
  by (simp add: slots_ok_def)

lemma slots_ok_update: "slots_ok rs \<Longrightarrow> reservation_ok r \<Longrightarrow> slots_ok (rs[h := r])"
  unfolding slots_ok_def using set_update_subset_insert [of rs h r] by blast

lemma held_slots_nonneg: "slots_ok rs \<Longrightarrow> 0 \<le> held_slots rs"
  by (induction rs) (auto simp: held_slots_def reservation_ok_def)

lemma held_slots_ge:
  "slots_ok rs \<Longrightarrow> h < length rs \<Longrightarrow> \<not> rv_released (rs ! h) \<Longrightarrow> rv_slots (rs ! h) \<le> held_slots rs"
proof (induction rs arbitrary: h)
  case Nil
  then show ?case by simp
next
  case (Cons a rs)
  then have nn: "0 \<le> held_slots rs" by (intro held_slots_nonneg) simp
  show ?case
  proof (cases h)
    case 0
    with Cons.prems(3) nn show ?thesis by (simp add: held_slots_def)
  next
    case (Suc k)
    with Cons.IH [of k] Cons.prems have "rv_slots (rs ! k) \<le> held_slots rs" by simp
    with Cons.prems(1) Suc show ?thesis by (auto simp: held_slots_def reservation_ok_def)
  qed
qed

text \<open>A grant takes the tokens and the slots; a refusal changes only the counters of refusals.\<close>

lemma tryAcquire_grant:
  assumes "il_inv l" and "0 \<le> tokens" and "in_int64 tokens" and "1 \<le> slots" and "in_int64 slots"
    and "tryAcquireLocked tokens slots l = ((True, ra), l')"
  shows "il_tokenLimiting l \<Longrightarrow> tokens \<le> il_availableTok l \<and> il_availableTok l' = il_availableTok l - tokens"
    and "il_slotLimiting l \<Longrightarrow> il_activeReqs l' = il_activeReqs l + slots \<and> il_activeReqs l + slots \<le> il_maxConcurrency l"
    and "token_inv l'" and "0 \<le> il_activeReqs l' \<and> in_int64 (il_activeReqs l')"
    and "il_reservations l' = il_reservations l" and "il_slotLimiting l' = il_slotLimiting l"
    and "il_maxConcurrency l' = il_maxConcurrency l"
proof -
  have fit: "\<not> il_tokenLimiting l \<or> il_availableTok l \<ge> tokens"
    "\<not> il_slotLimiting l \<or> slots \<le> go_sub (il_maxConcurrency l) (il_activeReqs l)"
    and l': "l' = (if il_tokenLimiting l then l\<lparr>il_availableTok := go_sub (il_availableTok l) tokens\<rparr> else l)
      \<lparr>il_activeReqs := Add (il_activeReqs l) slots\<rparr>"
    using assms(6) by (auto simp: tryAcquireLocked_def Let_def split: if_splits)
  have act: "0 \<le> il_activeReqs l" "in_int64 (il_activeReqs l)" using assms(1) by (simp_all add: il_inv_def slot_inv_def)
  have tok: "go_sub (il_availableTok l) tokens = il_availableTok l - tokens" if "il_tokenLimiting l"
    using that fit(1) assms(1-3) by (intro go_sub_exact) (auto simp: il_inv_def token_inv_def go_int_defs)
  have slot: "slots \<le> il_maxConcurrency l - il_activeReqs l" "in_int64 (il_maxConcurrency l)" if "il_slotLimiting l"
  proof -
    have m: "il_activeReqs l \<le> il_maxConcurrency l" "in_int64 (il_maxConcurrency l)"
      using that assms(1) by (simp_all add: il_inv_def slot_inv_def)
    then have "go_sub (il_maxConcurrency l) (il_activeReqs l) = il_maxConcurrency l - il_activeReqs l"
      using act by (intro go_sub_exact) (simp add: go_int_defs)
    with fit(2) that m show "slots \<le> il_maxConcurrency l - il_activeReqs l" "in_int64 (il_maxConcurrency l)" by auto
  qed
  have add: "Add (il_activeReqs l) slots = il_activeReqs l + slots" if "il_slotLimiting l"
    using slot [OF that] act assms(4,5) by (simp add: Add_eq_clamp clamp64_id go_int_defs)
  show "il_tokenLimiting l \<Longrightarrow> tokens \<le> il_availableTok l \<and> il_availableTok l' = il_availableTok l - tokens"
    using fit tok by (simp add: l')
  show "il_slotLimiting l \<Longrightarrow> il_activeReqs l' = il_activeReqs l + slots \<and> il_activeReqs l + slots \<le> il_maxConcurrency l"
    using slot add by (simp add: l')
  show "token_inv l'"
    using assms(1-3) fit(1) tok by (auto simp: l' il_inv_def token_inv_def go_int_defs)
  show "0 \<le> il_activeReqs l' \<and> in_int64 (il_activeReqs l')"
    using act assms(4,5) by (simp add: l' Add_eq_clamp clamp64_nonneg)
qed (use assms(6) in \<open>auto simp: tryAcquireLocked_def Let_def split: if_splits\<close>)

lemma tryAcquire_refuse_eq:
  assumes "tryAcquireLocked tokens slots l = ((False, ra), l')"
  shows "\<exists>a b. l' = l\<lparr>il_tokenWaitHits := a, il_slotWaitHits := b\<rparr>"
proof -
  have "l' = l\<lparr>il_tokenWaitHits := il_tokenWaitHits l', il_slotWaitHits := il_slotWaitHits l'\<rparr>"
    using assms unfolding tryAcquireLocked_def Let_def
    by (cases "\<not> il_tokenLimiting l \<or> il_availableTok l \<ge> tokens";
        cases "\<not> il_slotLimiting l \<or> slots \<le> go_sub (il_maxConcurrency l) (il_activeReqs l)") auto
  then show ?thesis by blast
qed

lemma tryAcquire_refuse:
  assumes "tryAcquireLocked tokens slots l = ((False, ra), l')"
  shows "il_inv l' = il_inv l" and "il_reservations l' = il_reservations l" and "il_activeReqs l' = il_activeReqs l"
    and "il_availableTok l' = il_availableTok l"
    and "il_maxWait l' = il_maxWait l" and "il_pollInterval l' = il_pollInterval l"
  using tryAcquire_refuse_eq [OF assms] by (auto simp: il_inv_def token_inv_def slot_inv_def)

lemma reserveLocked_cases:
  obtains (refused) ra l' where "tryAcquireLocked tokens slots (refillLocked now l) = ((False, ra), l')"
      "reserveLocked tokens slots now l = ((None, ra), l')"
  | (granted) ra l' where "tryAcquireLocked tokens slots (refillLocked now l) = ((True, ra), l')"
      "reserveLocked tokens slots now l = ((Some (length (il_reservations l)), 0),
         l'\<lparr>il_reservations := il_reservations l @
            [\<lparr>rv_tokens = tokens, rv_slots = slots, rv_committed = False, rv_released = False\<rparr>]\<rparr>)"
proof -
  obtain ok ra l' where t: "tryAcquireLocked tokens slots (refillLocked now l) = ((ok, ra), l')"
    by (metis prod.exhaust)
  show ?thesis
  proof (cases ok)
    case True
    then have "il_reservations l' = il_reservations l"
      using t by (auto simp: tryAcquireLocked_def Let_def split: if_splits)
    with t True show ?thesis by (intro granted) (simp_all add: reserveLocked_def)
  next
    case False
    with t show ?thesis by (intro refused) (simp_all add: reserveLocked_def)
  qed
qed

lemma reserveLocked_inv:
  assumes "il_inv l" and "0 \<le> tokens" and "in_int64 tokens" and "1 \<le> slots" and "in_int64 slots"
  shows "il_inv (snd (reserveLocked tokens slots now l))"
proof (cases rule: reserveLocked_cases [of tokens slots now l])
  case (refused ra l')
  with assms(1) tryAcquire_refuse [OF refused(1)] show ?thesis by simp
next
  case (granted ra l')
  note g = tryAcquire_grant [OF refillLocked_inv [OF assms(1)] assms(2-5) granted(1)]
  have "slot_inv l" using assms(1) by (simp add: il_inv_def)
  with g assms(2-5) have "slot_inv (l'\<lparr>il_reservations := il_reservations l @
      [\<lparr>rv_tokens = tokens, rv_slots = slots, rv_committed = False, rv_released = False\<rparr>]\<rparr>)"
    by (auto simp: slot_inv_def reservation_ok_def)
  moreover have "token_inv (l'\<lparr>il_reservations := rs\<rparr>)" for rs using g(3) by (simp add: token_inv_def)
  ultimately show ?thesis by (simp add: granted(2) il_inv_def)
qed


lemma slot_inv_reservation:
  "slot_inv l \<Longrightarrow> h < length (il_reservations l) \<Longrightarrow> reservation_ok (il_reservations l ! h)"
  by (simp add: slot_inv_def slots_ok_nth)

lemma slot_invD:
  assumes "slot_inv l"
  shows "0 \<le> il_activeReqs l" and "in_int64 (il_activeReqs l)" and "slots_ok (il_reservations l)"
    and "il_slotLimiting l \<Longrightarrow> il_activeReqs l = held_slots (il_reservations l)"
    and "il_slotLimiting l \<Longrightarrow> il_activeReqs l \<le> il_maxConcurrency l"
    and "il_slotLimiting l \<Longrightarrow> in_int64 (il_maxConcurrency l)"
  using assms unfolding slot_inv_def by auto

lemma slot_inv_cong:
  assumes "slot_inv l" and "il_activeReqs l' = il_activeReqs l" and "il_slotLimiting l' = il_slotLimiting l"
    and "il_maxConcurrency l' = il_maxConcurrency l"
    and "held_slots (il_reservations l') = held_slots (il_reservations l)" and "slots_ok (il_reservations l')"
  shows "slot_inv l'"
  using assms unfolding slot_inv_def by metis

lemma slot_inv_commit:
  assumes "slot_inv l" and "h < length (il_reservations l)"
  shows "slot_inv (l\<lparr>il_reservations := (il_reservations l)[h := (il_reservations l ! h)\<lparr>rv_committed := True\<rparr>]\<rparr>)"
proof (rule slot_inv_cong [OF assms(1)])
  show "slots_ok (il_reservations (l\<lparr>il_reservations := (il_reservations l)[h := (il_reservations l ! h)\<lparr>rv_committed := True\<rparr>]\<rparr>))"
    using slot_inv_reservation [OF assms] assms(1)
    by (simp add: slots_ok_update slot_inv_def reservation_ok_def)
qed (use assms(2) in \<open>simp_all add: held_slots_update\<close>)

text \<open>What a first commit does to the balance: the tokens reserved are exchanged for those used, up to
  the capacity, with saturation instead of wrap-around.\<close>

lemma commitLocked_eq:
  assumes inv: "il_inv l" and h: "h < length (il_reservations l)" and u: "usage_in_range u"
    and lim: "il_tokenLimiting l" and nc: "\<not> rv_committed (il_reservations l ! h)"
  shows "commitLocked h u now l =
    (refillLocked now (l\<lparr>il_reservations := (il_reservations l)[h := (il_reservations l ! h)\<lparr>rv_committed := True\<rparr>]\<rparr>))
      \<lparr>il_availableTok := min (clamp64 (il_availableTok (refillLocked now l) -
          (effectiveTokens u - rv_tokens (il_reservations l ! h)))) (il_maxCapacity l)\<rparr>"
proof -
  let ?r = "il_reservations l ! h"
  let ?l = "l\<lparr>il_reservations := (il_reservations l)[h := ?r\<lparr>rv_committed := True\<rparr>]\<rparr>"
  have r: "0 \<le> rv_tokens ?r" "in_int64 (rv_tokens ?r)"
    using slot_inv_reservation [OF _ h] inv by (simp_all add: il_inv_def reservation_ok_def)
  have e: "0 \<le> effectiveTokens u" "in_int64 (effectiveTokens u)"
    using u effectiveTokens_nonneg effectiveTokens_in_range by blast+
  have d: "go_sub (effectiveTokens u) (rv_tokens ?r) = effectiveTokens u - rv_tokens ?r"
    using r e by (intro go_sub_exact) (simp add: go_int_defs)
  have avail: "il_availableTok (refillLocked now ?l) = il_availableTok (refillLocked now l)"
    by (simp add: refillLocked_def Let_def split: option.split prod.split)
  have "in_int64 (il_availableTok (refillLocked now l))"
    using refillLocked_inv [OF inv, of now] lim by (simp add: il_inv_def token_inv_def)
  then have "Sub (il_availableTok (refillLocked now ?l)) (effectiveTokens u - rv_tokens ?r) =
      clamp64 (il_availableTok (refillLocked now l) - (effectiveTokens u - rv_tokens ?r))"
    using r e by (simp only: avail) (intro Sub_eq_clamp; simp add: go_int_defs)
  then show ?thesis using nc lim d by (simp add: commitLocked_def Let_def)
qed

lemma commitLocked_frame:
  "il_activeReqs (commitLocked h u now l) = il_activeReqs l"
  "il_reservations (commitLocked h u now l) =
     (if rv_committed (il_reservations l ! h) then il_reservations l
      else (il_reservations l)[h := (il_reservations l ! h)\<lparr>rv_committed := True\<rparr>])"
  by (simp_all add: commitLocked_def Let_def)

lemma commitLocked_inv:
  assumes inv: "il_inv l" and h: "h < length (il_reservations l)" and u: "usage_in_range u"
  shows "il_inv (commitLocked h u now l)"
proof (cases "rv_committed (il_reservations l ! h)")
  case True
  with inv show ?thesis by (simp add: commitLocked_def)
next
  case False
  let ?l = "l\<lparr>il_reservations := (il_reservations l)[h := (il_reservations l ! h)\<lparr>rv_committed := True\<rparr>]\<rparr>"
  have s: "slot_inv ?l" using inv slot_inv_commit [OF _ h] by (simp add: il_inv_def)
  have t: "token_inv ?l" using inv by (simp add: il_inv_def token_inv_def)
  show ?thesis
  proof (cases "il_tokenLimiting l")
    case lim: True
    have "token_inv (refillLocked now ?l)" by (rule refillLocked_gain [OF t])
    moreover have "in_int64 (min (clamp64 x) (il_maxCapacity l))" for x
      using inv lim by (simp add: il_inv_def token_inv_def)
    ultimately have "token_inv (commitLocked h u now l)"
      using lim by (simp add: commitLocked_eq [OF inv h u lim False] token_inv_def)
    moreover have "slot_inv (commitLocked h u now l)"
    proof (rule slot_inv_cong [OF s])
      show "slots_ok (il_reservations (commitLocked h u now l))"
        using slot_invD(3) [OF s] by (simp add: commitLocked_eq [OF inv h u lim False])
    qed (simp_all add: commitLocked_eq [OF inv h u lim False])
    ultimately show ?thesis by (simp add: il_inv_def)
  next
    case nolim: False
    with s t False show ?thesis by (simp add: commitLocked_def Let_def il_inv_def)
  qed
qed

text \<open>A first release gives back exactly the slots of its reservation.\<close>

lemma releaseLocked_slots:
  assumes inv: "il_inv l" and h: "h < length (il_reservations l)" and nr: "\<not> rv_released (il_reservations l ! h)"
  shows "held_slots (il_reservations (il_releaseLocked h l)) = held_slots (il_reservations l) - rv_slots (il_reservations l ! h)"
    and "il_slotLimiting l \<Longrightarrow> il_activeReqs (il_releaseLocked h l) = il_activeReqs l - rv_slots (il_reservations l ! h)"
proof -
  let ?r = "il_reservations l ! h"
  show "held_slots (il_reservations (il_releaseLocked h l)) = held_slots (il_reservations l) - rv_slots ?r"
    using h nr by (simp add: il_releaseLocked_def Let_def held_slots_update)
  have act: "0 \<le> il_activeReqs l" "in_int64 (il_activeReqs l)" "1 \<le> rv_slots ?r" "in_int64 (rv_slots ?r)"
    using inv slot_inv_reservation [OF _ h] slot_invD(1,2) [of l] by (simp_all add: il_inv_def reservation_ok_def)
  then have "go_sub (il_activeReqs l) (rv_slots ?r) = il_activeReqs l - rv_slots ?r"
    by (intro go_sub_exact) (simp add: go_int_defs)
  moreover assume "il_slotLimiting l"
  then have "rv_slots ?r \<le> il_activeReqs l"
    using inv held_slots_ge [OF _ h nr] slot_invD(3,4) [of l] by (simp add: il_inv_def)
  ultimately show "il_activeReqs (il_releaseLocked h l) = il_activeReqs l - rv_slots ?r"
    using nr by (simp add: il_releaseLocked_def Let_def)
qed

lemma il_releaseLocked_frame [simp]:
  "token_inv (il_releaseLocked h l) = token_inv l"
  "il_slotLimiting (il_releaseLocked h l) = il_slotLimiting l"
  "il_maxConcurrency (il_releaseLocked h l) = il_maxConcurrency l"
  "il_availableTok (il_releaseLocked h l) = il_availableTok l"
  by (simp_all add: il_releaseLocked_def Let_def token_inv_def)

lemma il_releaseLocked_inv:
  assumes inv: "il_inv l" and h: "h < length (il_reservations l)"
  shows "il_inv (il_releaseLocked h l)"
proof (cases "rv_released (il_reservations l ! h)")
  case True
  with inv show ?thesis by (simp add: il_releaseLocked_def)
next
  case nr: False
  let ?r = "il_reservations l ! h"
  have s: "slot_inv l" using inv by (simp add: il_inv_def)
  note r = slot_inv_reservation [OF s h]
  have res: "il_reservations (il_releaseLocked h l) = (il_reservations l)[h := ?r\<lparr>rv_released := True\<rparr>]"
    and act: "il_activeReqs (il_releaseLocked h l) = max (go_sub (il_activeReqs l) (rv_slots ?r)) 0"
    using nr by (simp_all add: il_releaseLocked_def Let_def)
  have "slots_ok (il_reservations (il_releaseLocked h l))"
    unfolding res using s r by (intro slots_ok_update) (simp_all add: slot_inv_def reservation_ok_def)
  moreover have "rv_slots ?r \<le> held_slots (il_reservations l)"
    using s held_slots_ge [OF _ h nr] by (simp add: slot_inv_def)
  ultimately have "slot_inv (il_releaseLocked h l)"
    using s r releaseLocked_slots [OF inv h nr] act by (auto simp: slot_inv_def reservation_ok_def)
  with inv show ?thesis by (simp add: il_inv_def)
qed

lemma il_step_inv: "il_step l l' \<Longrightarrow> il_inv l \<Longrightarrow> il_inv l'"
  by (elim il_stepE)
    (auto intro: reserveLocked_inv commitLocked_inv il_releaseLocked_inv simp: statsLocked_def Let_def)

lemma NewInMemoryLimiter_inv:
  assumes "in_int64 (ic_MaxConcurrency cfg)" and "NewInMemoryLimiter cfg now = Inr l"
  shows "il_inv l"
proof -
  let ?lm = "\<lparr>TokensPerMinute = ic_TokensPerMinute cfg, MaxConcurrency = ic_MaxConcurrency cfg,
                    BufferFactor = ic_BufferFactor cfg\<rparr>"
  have v: "Validate ?lm = None" using assms(2) by (auto simp: NewInMemoryLimiter_def Let_def split: option.splits)
  note c = Capacity_bounds [OF v] valid_limits(2) [OF v]
  have "in_int64 (Capacity ?lm)" using c by (simp add: in_int64_def MinInt_def)
  then show ?thesis
    using assms v c RefillPerSecond_pos [of ?lm]
    by (auto simp: NewInMemoryLimiter_def Let_def il_inv_def token_inv_def slot_inv_def held_slots_def SlotLimited_def)
qed

lemma il_reachable_inv: "in_int64 (ic_MaxConcurrency cfg) \<Longrightarrow> il_reachable cfg l \<Longrightarrow> il_inv l"
  by (rotate_tac, induction rule: il_reachable.induct) (auto intro: NewInMemoryLimiter_inv il_step_inv)


section \<open>Charging\<close>

lemma time_sub_self [simp]: "time_sub t t = 0"
  by (simp add: time_sub_def MinInt_def MaxInt_def)

lemma seconds_zero [simp]: "seconds 0 = 0"
  by (simp add: seconds_def go_div_def go_rem_def)

text \<open>A second refill at the same instant adds nothing, whatever was charged in between.\<close>

lemma refillLocked_lastRefill:
  assumes "token_inv l"
  shows "seconds (time_sub now (il_lastRefill (refillLocked now l))) \<le> 0 \<or> \<not> il_tokenLimiting l"
proof (cases "il_tokenLimiting l \<and> 0 < seconds (time_sub now (il_lastRefill l))")
  case False
  then show ?thesis by (auto simp: refillLocked_def Let_def)
next
  case True
  let ?c = "fl (il_tokenCarry l + fl (seconds (time_sub now (il_lastRefill l)) * il_refillPerSec l))"
  have inv: "1 \<le> il_maxCapacity l" "in_int64 (il_maxCapacity l)" "in_int64 (il_availableTok l)"
    "il_availableTok l \<le> il_maxCapacity l" "0 \<le> il_tokenCarry l" "0 < il_refillPerSec l"
    using assms True by (simp_all add: token_inv_def)
  have "0 \<le> fl (seconds (time_sub now (il_lastRefill l)) * il_refillPerSec l)" using True inv(6) by (intro fl_nonneg) simp
  then have "0 \<le> ?c" using inv(5) by (intro fl_nonneg) simp
  from refill_done_any [OF inv(2,3,1,4) fl_fl this] obtain a c where
    "refill_loop 4 (il_maxCapacity l) (il_availableTok l) ?c = Some (a, c)" by (auto simp: refill_done_def)
  then have "refillLocked now l = l\<lparr>il_lastRefill := now, il_tokenCarry := c, il_availableTok := a\<rparr>"
    using True by (simp add: refillLocked_def Let_def)
  then show ?thesis by simp
qed

lemma refill_settled:
  assumes "token_inv l" and "il_lastRefill l' = il_lastRefill (refillLocked now l)"
    and "il_tokenLimiting l' = il_tokenLimiting l"
  shows "refillLocked now l' = l'"
  using refillLocked_lastRefill [OF assms(1), of now] assms(2,3) by (auto simp: refillLocked_def Let_def)

lemma reserveLocked_grant:
  assumes "il_inv l" and "0 \<le> tokens" and "in_int64 tokens" and "1 \<le> slots" and "in_int64 slots"
    and "reserveLocked tokens slots now l = ((Some h, ra), l')"
  shows "h = length (il_reservations l)"
    and "il_reservations l' = il_reservations l @
      [\<lparr>rv_tokens = tokens, rv_slots = slots, rv_committed = False, rv_released = False\<rparr>]"
    and "il_tokenLimiting l \<Longrightarrow> tokens \<le> il_availableTok (refillLocked now l) \<and>
      il_availableTok l' = il_availableTok (refillLocked now l) - tokens"
    and "il_slotLimiting l \<Longrightarrow> il_activeReqs l' = il_activeReqs l + slots \<and> il_activeReqs l' \<le> il_maxConcurrency l"
    and "il_lastRefill l' = il_lastRefill (refillLocked now l)" and "il_tokenLimiting l' = il_tokenLimiting l"
    and "il_maxCapacity l' = il_maxCapacity l"
proof -
  obtain ra' l1 where granted: "tryAcquireLocked tokens slots (refillLocked now l) = ((True, ra'), l1)"
      "reserveLocked tokens slots now l = ((Some (length (il_reservations l)), 0),
         l1\<lparr>il_reservations := il_reservations l @
            [\<lparr>rv_tokens = tokens, rv_slots = slots, rv_committed = False, rv_released = False\<rparr>]\<rparr>)"
    using assms(6) by (cases rule: reserveLocked_cases [of tokens slots now l]) auto
  note g = tryAcquire_grant [OF refillLocked_inv [OF assms(1)] assms(2-5) granted(1)]
  have eq: "h = length (il_reservations l)"
    "l' = l1\<lparr>il_reservations := il_reservations l @
      [\<lparr>rv_tokens = tokens, rv_slots = slots, rv_committed = False, rv_released = False\<rparr>]\<rparr>"
    using granted(2) assms(6) by simp_all
  have fr: "il_lastRefill l1 = il_lastRefill (refillLocked now l)" "il_tokenLimiting l1 = il_tokenLimiting l"
    "il_maxCapacity l1 = il_maxCapacity l"
    using granted(1) by (auto simp: tryAcquireLocked_def Let_def split: if_splits)
  show "h = length (il_reservations l)" by (rule eq)
  show "il_reservations l' = il_reservations l @
      [\<lparr>rv_tokens = tokens, rv_slots = slots, rv_committed = False, rv_released = False\<rparr>]" by (simp add: eq)
  show "il_tokenLimiting l \<Longrightarrow> tokens \<le> il_availableTok (refillLocked now l) \<and>
      il_availableTok l' = il_availableTok (refillLocked now l) - tokens" using g(1) by (simp add: eq)
  show "il_slotLimiting l \<Longrightarrow> il_activeReqs l' = il_activeReqs l + slots \<and> il_activeReqs l' \<le> il_maxConcurrency l"
    using g(2) by (simp add: eq)
  show "il_lastRefill l' = il_lastRefill (refillLocked now l)" "il_tokenLimiting l' = il_tokenLimiting l"
    "il_maxCapacity l' = il_maxCapacity l" using fr by (simp_all add: eq)
qed

section \<open>Reserve\<close>

lemma reserve_loop_cases:
  assumes "reserve_loop (Suc fuel) c req tokens slots start w = out"
  obtains (before) "ctx_Err c w \<noteq> None"
      "out = Some (Inl (ctxDone c req ''context done before rate-limit capacity available'' 0 w), w)"
  | (granted) h ra l where "ctx_Err c w = None"
      "reserveLocked tokens slots (sh_clock (lock w)) (sh_obj (lock w)) = ((Some h, ra), l)"
      "out = Some (Inr h, (lock w)\<lparr>sh_obj := l\<rparr>)"
  | (expired) ra l where "ctx_Err c w = None"
      "reserveLocked tokens slots (sh_clock (lock w)) (sh_obj (lock w)) = ((None, ra), l)"
      "0 < il_maxWait l" "go_sub (il_maxWait l) (time_sub (sh_clock (lock w)) start) \<le> 0"
      "out = Some (Inl (limitErr req ''rate limit wait exceeded MaxWait'' ra None False), (lock w)\<lparr>sh_obj := l\<rparr>)"
  | (slept) ra l s stop w3 where "ctx_Err c w = None"
      "reserveLocked tokens slots (sh_clock (lock w)) (sh_obj (lock w)) = ((None, ra), l)"
      "\<not> (0 < il_maxWait l \<and> go_sub (il_maxWait l) (time_sub (sh_clock (lock w)) start) \<le> 0)"
      "s = (if 0 < il_maxWait l
            then min (il_pollInterval l) (go_sub (il_maxWait l) (time_sub (sh_clock (lock w)) start))
            else il_pollInterval l)"
      "sleep_or_done c s ((lock w)\<lparr>sh_obj := l\<rparr>) = (stop, w3)"
      "out = (if stop then Some (Inl (ctxDone c req ''context done while waiting for rate-limit capacity'' ra w3), w3)
              else reserve_loop fuel c req tokens slots start w3)"
proof -
  obtain r ra l where res: "reserveLocked tokens slots (sh_clock (lock w)) (sh_obj (lock w)) = ((r, ra), l)"
    by (metis prod.exhaust)
  let ?rem = "go_sub (il_maxWait l) (time_sub (sh_clock (lock w)) start)"
  let ?s = "if 0 < il_maxWait l then min (il_pollInterval l) ?rem else il_pollInterval l"
  obtain stop w3 where sl: "sleep_or_done c ?s ((lock w)\<lparr>sh_obj := l\<rparr>) = (stop, w3)" by (metis prod.exhaust)
  have cl: "sh_clock ((lock w)\<lparr>sh_obj := l\<rparr>) = sh_clock (lock w)" by (simp add: sh_clock_def)
  show ?thesis
  proof (cases "ctx_Err c w = None")
    case False
    with assms show ?thesis by (intro before) auto
  next
    case True
    note run = assms [unfolded reserve_loop.simps Let_def res prod.case cl]
    show ?thesis
    proof (cases r)
      case (Some h)
      with run True res show ?thesis by (intro granted) auto
    next
      case None
      show ?thesis
      proof (cases "0 < il_maxWait l \<and> ?rem \<le> 0")
        case exp: True
        with run True None res show ?thesis by (intro expired) auto
      next
        case False
        with run True None res sl show ?thesis by (intro slept) (auto split: if_splits)
      qed
    qed
  qed
qed


lemma reserve_loop_grant:
  "ctx_Err c w = None \<Longrightarrow>
     reserveLocked tokens slots (sh_clock (lock w)) (sh_obj (lock w)) = ((Some h, ra), l) \<Longrightarrow>
     reserve_loop (Suc fuel) c req tokens slots start w = Some (Inr h, (lock w)\<lparr>sh_obj := l\<rparr>)"
  by (simp add: Let_def del: lock_sel)

definition reserve_outcome :: "ctx \<Rightarrow> reservation_request \<Rightarrow> int \<Rightarrow> int \<Rightarrow> (error + nat) \<Rightarrow>
    (in_mem, 'a) shared_scheme \<Rightarrow> bool" where
  "reserve_outcome c req tokens slots r w' \<longleftrightarrow> il_inv (sh_obj w') \<and> (case r of
     Inr h \<Rightarrow> h < length (il_reservations (sh_obj w')) \<and> il_reservations (sh_obj w') ! h =
         \<lparr>rv_tokens = tokens, rv_slots = slots, rv_committed = False, rv_released = False\<rparr>
   | Inl e \<Rightarrow>
       (ctx_Err c w' \<noteq> None \<and> (\<exists>reason ra. e = limitErr req reason ra (ctx_Err c w') False)) \<or>
       (0 < il_maxWait (sh_obj w') \<and> (\<exists>ra. e = limitErr req ''rate limit wait exceeded MaxWait'' ra None False)))"

lemma sleep_shared_frame:
  "sleep_or_done c s w = (stop, w') \<Longrightarrow> sh_obj w' = sh_obj w \<and> sh_now w' = sh_now w \<and> keeps P w' = keeps P w"
  for w w' :: "('l, 'a) shared_scheme"
  using sleep_frame [of c s w stop w'] shared_more_frame [of w' w] keeps_frame [of w' w P] by simp

lemma reserve_loop_outcome:
  assumes t: "0 \<le> tokens" "in_int64 tokens" and s: "1 \<le> slots" "in_int64 slots"
  shows "il_inv (sh_obj w) \<Longrightarrow> keeps il_inv w \<Longrightarrow> reserve_loop fuel c req tokens slots start w = Some (r, w') \<Longrightarrow>
    reserve_outcome c req tokens slots r w'"
proof (induction fuel arbitrary: w)
  case 0
  then show ?case by simp
next
  case (Suc fuel)
  have lk: "il_inv (sh_obj (lock w))" "keeps il_inv (lock w)" using keeps_lock [of il_inv w] Suc.prems by simp_all
  have inv: "il_inv l" if "reserveLocked tokens slots (sh_clock (lock w)) (sh_obj (lock w)) = (x, l)" for x l
    using reserveLocked_inv [OF lk(1) t s, of "sh_clock (lock w)"] that by simp
  from Suc.prems(3) show ?case
  proof (cases rule: reserve_loop_cases)
    case before
    with Suc.prems(1) show ?thesis by (auto simp: reserve_outcome_def ctxDone_def)
  next
    case (granted h ra l)
    with reserveLocked_grant(1,2) [OF lk(1) t s granted(2)] inv show ?thesis by (simp add: reserve_outcome_def)
  next
    case (expired ra l)
    with inv show ?thesis by (auto simp: reserve_outcome_def)
  next
    case (slept ra l s stop w3)
    have "sh_obj w3 = l" "keeps il_inv w3"
      using sleep_shared_frame [OF slept(5), of il_inv] lk(2) by simp_all
    with slept inv Suc.IH [of w3] sleep_done_Err [of c s _ w3] show ?thesis
      by (cases stop) (auto simp: reserve_outcome_def ctxDone_def)
  qed
qed

text \<open>The settings of a limiter, which no critical section changes.\<close>

definition il_settings :: "int \<Rightarrow> int \<Rightarrow> in_mem \<Rightarrow> bool" where
  "il_settings mw poll l \<longleftrightarrow> il_maxWait l = mw \<and> il_pollInterval l = poll"

lemma reserveLocked_settings:
  "il_settings mw poll l \<Longrightarrow> reserveLocked tokens slots now l = (x, l') \<Longrightarrow> il_settings mw poll l'"
  by (auto simp: reserveLocked_def tryAcquireLocked_def il_settings_def Let_def split: prod.splits bool.splits if_splits)

definition real_clock :: "('l, 'a) shared_scheme \<Rightarrow> bool" where
  "real_clock w \<longleftrightarrow> sh_now w = (\<lambda>t. t)"

lemma reserve_loop_terminates:
  assumes mw: "0 < mw" "mw \<le> MaxInt" and poll: "1 \<le> poll"
  shows "il_settings mw poll (sh_obj w) \<Longrightarrow> keeps (il_settings mw poll) w \<Longrightarrow> real_clock w \<Longrightarrow> start \<le> w_clock w \<Longrightarrow>
    nat (start + mw - w_clock w) < fuel \<Longrightarrow> reserve_loop fuel c req tokens slots start w \<noteq> None"
proof (induction fuel arbitrary: w)
  case 0
  then show ?case by simp
next
  case (Suc fuel)
  obtain out where out: "reserve_loop (Suc fuel) c req tokens slots start w = out" by blast
  from out have "out \<noteq> None"
  proof (cases rule: reserve_loop_cases)
    case (slept ra l s stop w3)
    have lk: "il_settings mw poll (sh_obj (lock w))" "keeps (il_settings mw poll) (lock w)"
      using keeps_lock [of "il_settings mw poll" w] Suc.prems by simp_all
    have st: "il_settings mw poll l" by (rule reserveLocked_settings [OF lk(1) slept(2)])
    then have l: "il_maxWait l = mw" "il_pollInterval l = poll" by (simp_all add: il_settings_def)
    define t where "t = w_clock (lock w)"
    have now: "sh_clock (lock w) = t" "w_clock w \<le> t" using Suc.prems(3) by (simp_all add: sh_clock_def real_clock_def t_def)
    have sub: "time_sub t start = min MaxInt (t - start)" using now Suc.prems(4) by (simp add: time_sub_def go_int_defs)
    have "go_sub mw (time_sub t start) = mw - time_sub t start"
      using mw now Suc.prems(4) by (intro go_sub_exact) (simp add: sub, auto simp: go_int_defs)
    then have r: "0 < mw - time_sub t start" "s = min poll (mw - time_sub t start)"
      using slept(3,4) mw by (simp_all add: l now)
    then have early: "t - start < mw" "1 \<le> s" using mw poll sub by auto
    show ?thesis
    proof (cases stop)
      case True
      with slept show ?thesis by simp
    next
      case False
      have "w_clock w3 = t + s" using sleep_timer_clock [of c s _ w3] slept(5) False early(2) by (simp add: t_def)
      moreover have "real_clock w3" "keeps (il_settings mw poll) w3" "sh_obj w3 = l"
        using sleep_shared_frame [OF slept(5), of "il_settings mw poll"] lk(2) Suc.prems(3) by (simp_all add: real_clock_def)
      moreover have "nat (start + mw - w_clock w3) < fuel"
        using Suc.prems(5) now(2) early \<open>w_clock w3 = t + s\<close> by linarith
      ultimately have "reserve_loop fuel c req tokens slots start w3 \<noteq> None"
        using Suc.IH [of w3] st Suc.prems(4) now(2) early(2) by simp
      with slept False show ?thesis by simp
    qed
  qed auto
  with out show ?case by simp
qed


lemma il_Reserve_returns:
  assumes "0 < mw" and "mw \<le> MaxInt" and "1 \<le> poll"
    and "il_settings mw poll (sh_obj w)" and "keeps (il_settings mw poll) w" and "real_clock w"
  shows "\<exists>r w'. il_Reserve (Suc (nat mw)) c req w = Some (r, w')"
proof (cases "il_impossible (sh_obj w) req (Tokens (rr_EstimatedUnits req)) (Slots (rr_EstimatedUnits req))")
  case None
  have "sh_clock w = w_clock w" using assms(6) by (simp add: sh_clock_def real_clock_def)
  then have "reserve_loop (Suc (nat mw)) c req (Tokens (rr_EstimatedUnits req)) (Slots (rr_EstimatedUnits req)) (sh_clock w) w \<noteq> None"
    using reserve_loop_terminates [OF assms, of "w_clock w" "Suc (nat mw)"] by simp
  with None show ?thesis by (auto simp: il_Reserve_def)
qed (simp add: il_Reserve_def)

section \<open>Properties\<close>

text \<open>A limiter of ten tokens and two slots, full, settled at instant 0.\<close>

definition ten_tokens :: in_mem where
  "ten_tokens = \<lparr>il_lastRefill = 0, il_maxWait = 5, il_pollInterval = 2, il_refillPerSec = 1, il_tokenCarry = 0,
     il_availableTok = 10, il_maxCapacity = 10, il_activeReqs = 0, il_maxConcurrency = 2, il_tokenWaitHits = 0,
     il_slotWaitHits = 0, il_tokenLimiting = True, il_slotLimiting = True, il_reservations = []\<rparr>"

lemma ten_tokens_inv: "il_inv ten_tokens"
  by (simp add: il_inv_def token_inv_def slot_inv_def ten_tokens_def go_int_defs held_slots_def)

lemma ten_tokens_reserve:
  "reserveLocked 4 1 0 ten_tokens = ((Some 0, 0), ten_tokens\<lparr>il_availableTok := 6, il_activeReqs := 1,
     il_reservations := [\<lparr>rv_tokens = 4, rv_slots = 1, rv_committed = False, rv_released = False\<rparr>]\<rparr>)"
  by (simp add: reserveLocked_def tryAcquireLocked_def refillLocked_def ten_tokens_def Let_def go_sub_def Add_def go_add_def go_int_defs)

text \<open>
  in every state the in-memory limiter can reach, by any interleaving of reservations, commits,
  releases and statistics, the active slots are those of the reservations not released and respect
  \<open>MaxConcurrency\<close>, the available tokens are at most the capacity and never wrap around, and the
  carry is a proper fraction.
\<close>

theorem in_memory_limits_hold:
  assumes "in_int64 (ic_MaxConcurrency cfg)" and "il_reachable cfg l"
  shows "0 \<le> il_activeReqs l \<and>
    (il_slotLimiting l \<longrightarrow> il_activeReqs l = held_slots (il_reservations l) \<and> il_activeReqs l \<le> il_maxConcurrency l) \<and>
    (il_tokenLimiting l \<longrightarrow> il_availableTok l \<le> il_maxCapacity l \<and> in_int64 (il_availableTok l) \<and>
       0 \<le> il_tokenCarry l \<and> il_tokenCarry l < 1)"
  using il_reachable_inv [OF assms] slot_invD [of l] by (auto simp: il_inv_def token_inv_def)

definition two_slots_config :: il_config where
  "two_slots_config = \<lparr>ic_TokensPerMinute = 0, ic_MaxConcurrency = 2, ic_MaxWait = 5, ic_PollInterval = 2,
     ic_BufferFactor = Fin 0\<rparr>"

definition two_slots :: in_mem where
  "two_slots = \<lparr>il_lastRefill = 0, il_maxWait = 5, il_pollInterval = 2, il_refillPerSec = 0, il_tokenCarry = 0,
     il_availableTok = 0, il_maxCapacity = 0, il_activeReqs = 0, il_maxConcurrency = 2, il_tokenWaitHits = 0,
     il_slotWaitHits = 0, il_tokenLimiting = False, il_slotLimiting = True, il_reservations = []\<rparr>"

lemma two_slots_New: "NewInMemoryLimiter two_slots_config 0 = Inr two_slots"
  by (simp add: NewInMemoryLimiter_def two_slots_config_def two_slots_def Let_def Validate_def maxCapacity_def
      float_of_MaxInt Capacity_def RefillPerSecond_def TokenLimited_def SlotLimited_def)

theorem in_memory_limits_hold_witness:
  "il_activeReqs (snd (reserveLocked 4 2 0 two_slots)) = held_slots (il_reservations (snd (reserveLocked 4 2 0 two_slots)))"
proof -
  let ?l = "snd (reserveLocked 4 2 0 two_slots)"
  have "il_step two_slots ?l"
    by (rule il_reserve [where req = undefined]) (simp_all add: il_impossible_def two_slots_def go_int_defs)
  then have "il_reachable two_slots_config ?l" using il_init [OF two_slots_New] il_next by blast
  moreover have "il_slotLimiting ?l"
    by (simp add: two_slots_def reserveLocked_def tryAcquireLocked_def refillLocked_def go_sub_def go_int_defs Let_def)
  moreover have "in_int64 (ic_MaxConcurrency two_slots_config)" by (simp add: two_slots_config_def go_int_defs)
  ultimately show ?thesis using in_memory_limits_hold [of two_slots_config ?l] by blast
qed

text \<open>
  the refill loop always ends within three chunks, with a balance no lower than before and within
  capacity and a carry below one token, even from a debt deeper than the largest int; and below
  2^63 the refill is exact, with no token lost to rounding: the whole tokens of the carry are added
  unless they fill the bucket, and the fraction is kept.
\<close>

theorem refill_terminates_exactly:
  assumes "in_int64 cap" and "in_int64 avail" and "1 \<le> cap" and "avail \<le> cap" and "fl carry = carry" and "0 \<le> carry"
  shows "\<exists>a c. refill_loop 4 cap avail carry = Some (a, c) \<and> avail \<le> a \<and> a \<le> cap \<and> 0 \<le> c \<and> c < 1 \<and>
    (1 \<le> carry \<and> carry < maxCarry \<longrightarrow> (a, c) = (if cap - avail \<le> \<lfloor>carry\<rfloor> then (cap, 0) else (avail + \<lfloor>carry\<rfloor>, carry - of_int \<lfloor>carry\<rfloor>)))"
proof -
  obtain a c where r: "refill_loop 4 cap avail carry = Some (a, c)" "avail \<le> a" "a \<le> cap" "0 \<le> c" "c < 1"
    using refill_done_any [OF assms] by (auto simp: refill_done_def)
  moreover have "(a, c) = (if cap - avail \<le> \<lfloor>carry\<rfloor> then (cap, 0) else (avail + \<lfloor>carry\<rfloor>, carry - of_int \<lfloor>carry\<rfloor>))"
    if "1 \<le> carry" "carry < maxCarry"
    using refill_small [OF assms(1-5) that, of "Suc (Suc 0)"] r(1) by (simp add: eval_nat_numeral)
  ultimately show ?thesis by blast
qed

theorem refill_terminates_exactly_witness:
  "refill_loop 4 10 2 (5 / 2) = Some (4, 1 / 2)"
proof -
  have "representable (5 / 2)" unfolding representable_def by (rule exI [of _ 5], rule exI [of _ "- 1"]) simp
  then have "fl (5 / 2) = 5 / 2" by (rule fl_exact)
  moreover have "\<lfloor>5 / 2 :: rat\<rfloor> = 2" by (simp add: floor_eq_iff)
  ultimately show ?thesis
    using refill_terminates_exactly [of 10 2 "5 / 2"] by (auto simp: go_int_defs maxCarry_eq)
qed

text \<open>
  a commit settles what a reservation used. Reserving and then committing, at one instant, costs
  the effective tokens of the usage and not the estimate: a surplus is refunded up to the capacity,
  a shortfall is charged as debt, saturating at the ends of the int range. A second commit changes nothing.
\<close>

theorem commit_settles_actual_usage:
  assumes "il_inv l" and "0 \<le> tokens" and "in_int64 tokens" and "1 \<le> slots" and "in_int64 slots"
    and "usage_in_range u" and "il_tokenLimiting l" and "reserveLocked tokens slots now l = ((Some h, ra), l1)"
  shows "il_availableTok (commitLocked h u now l1) =
      min (clamp64 (il_availableTok (refillLocked now l) - effectiveTokens u)) (il_maxCapacity l) \<and>
    commitLocked h u2 now2 (commitLocked h u now l1) = commitLocked h u now l1"
proof -
  note g = reserveLocked_grant [OF assms(1-5,8)]
  have inv: "il_inv l1" using reserveLocked_inv [OF assms(1-5), of now] assms(8) by simp
  have h: "h < length (il_reservations l1)" "\<not> rv_committed (il_reservations l1 ! h)"
    "rv_tokens (il_reservations l1 ! h) = tokens" using g(1,2) by simp_all
  have "token_inv l" using assms(1) by (simp add: il_inv_def)
  from refill_settled [OF this g(5,6)] have "refillLocked now l1 = l1" .
  then have "il_availableTok (commitLocked h u now l1) =
      min (clamp64 (il_availableTok (refillLocked now l) - effectiveTokens u)) (il_maxCapacity l)"
    using commitLocked_eq [OF inv h(1) assms(6) _ h(2), of now] assms(7) g(3,6,7) by (simp add: h(3) algebra_simps)
  moreover have "commitLocked h u2 now2 (commitLocked h u now l1) = commitLocked h u now l1"
    using commitLocked_frame(2) [of h u now l1] h by (simp add: commitLocked_def [of h u2])
  ultimately show ?thesis by blast
qed

theorem commit_settles_actual_usage_witness:
  "il_availableTok (commitLocked 0 (zero_usage\<lparr>u_InputTokens := 7, u_OutputTokens := 6\<rparr>) 0
     (snd (reserveLocked 4 1 0 ten_tokens))) = - 3"
proof -
  let ?u = "zero_usage\<lparr>u_InputTokens := 7, u_OutputTokens := 6\<rparr>"
  have r: "usage_in_range ?u" by (simp add: usage_in_range_def zero_usage_def in_int64_def MinInt_def MaxInt_def)
  have u: "usage_in_range ?u" "effectiveTokens ?u = 13"
    using r effectiveTokens_eq [OF r] by (simp_all add: zero_usage_def clamp64_def MinInt_def MaxInt_def)
  have "refillLocked 0 ten_tokens = ten_tokens" by (simp add: refillLocked_def ten_tokens_def)
  with commit_settles_actual_usage [OF ten_tokens_inv _ _ _ _ u(1) _ ten_tokens_reserve]
  show ?thesis using u(2) ten_tokens_reserve by (simp add: go_int_defs ten_tokens_def clamp64_def)
qed

text \<open>
  usage is never undercounted. The effective tokens are at least the input and embedding tokens,
  the output tokens, and the total reported; negative fields count as zero; and the sum saturates,
  so no usage, however large, becomes a refund.
\<close>

theorem effective_tokens_never_undercount:
  assumes "usage_in_range u"
  shows "0 \<le> effectiveTokens u \<and> in_int64 (effectiveTokens u) \<and> u_TotalTokens u \<le> effectiveTokens u \<and>
    u_InputTokens u \<le> effectiveTokens u \<and> u_EmbeddingTokens u \<le> effectiveTokens u \<and>
    u_BillableOutputTokens u \<le> effectiveTokens u \<and>
    (u_BillableOutputTokens u \<le> 0 \<longrightarrow> u_OutputTokens u \<le> effectiveTokens u \<and> u_ReasoningTokens u \<le> effectiveTokens u)"
proof -
  have mono: "x \<le> clamp64 (y + z)" if "in_int64 x" "x \<le> y" "0 \<le> z" for x y z
    using that by (simp add: clamp64_def in_int64_def)
  define i where "i = max 0 (max (u_InputTokens u) (u_EmbeddingTokens u))"
  define q where "q = clamp64 (max 0 (u_OutputTokens u) + max 0 (u_ReasoningTokens u))"
  define o' where "o' = (if 0 < u_BillableOutputTokens u then u_BillableOutputTokens u else q)"
  have e: "effectiveTokens u = max (clamp64 (i + o')) (u_TotalTokens u)"
    unfolding i_def o'_def q_def by (rule effectiveTokens_eq [OF assms])
  have i: "0 \<le> i" "u_InputTokens u \<le> i" "u_EmbeddingTokens u \<le> i" by (simp_all add: i_def)
  have q: "0 \<le> q" "u_OutputTokens u \<le> q" "u_ReasoningTokens u \<le> q"
    using mono [of "u_OutputTokens u" "max 0 (u_OutputTokens u)" "max 0 (u_ReasoningTokens u)"]
      mono [of "u_ReasoningTokens u" "max 0 (u_ReasoningTokens u)" "max 0 (u_OutputTokens u)"] assms
    by (simp_all add: q_def usage_in_range_def clamp64_nonneg add.commute)
  have o: "0 \<le> o'" "u_BillableOutputTokens u \<le> o'" using q by (auto simp: o'_def)
  have rng: "in_int64 (u_InputTokens u)" "in_int64 (u_EmbeddingTokens u)" "in_int64 (u_BillableOutputTokens u)"
    "in_int64 (u_OutputTokens u)" "in_int64 (u_ReasoningTokens u)" using assms by (simp_all add: usage_in_range_def)
  have out: "u_OutputTokens u \<le> o'" "u_ReasoningTokens u \<le> o'" if "u_BillableOutputTokens u \<le> 0"
    using q that by (simp_all add: o'_def)
  note le = mono [OF rng(1) i(2) o(1)] mono [OF rng(2) i(3) o(1)] mono [OF rng(3) o(2) i(1)]
    mono [OF rng(4) out(1) i(1)] mono [OF rng(5) out(2) i(1)]
  show ?thesis
    using le effectiveTokens_nonneg [OF assms] effectiveTokens_in_range [OF assms]
    unfolding e add.commute [of o'] by (auto intro: max.coboundedI1)
qed

theorem effective_tokens_never_undercount_witness:
  "u_ReasoningTokens (zero_usage\<lparr>u_ReasoningTokens := 9\<rparr>) \<le> effectiveTokens (zero_usage\<lparr>u_ReasoningTokens := 9\<rparr>)"
  using effective_tokens_never_undercount [of "zero_usage\<lparr>u_ReasoningTokens := 9\<rparr>"]
  by (simp add: usage_in_range_def zero_usage_def go_int_defs)


text \<open>
  the outcome of \<open>Reserve\<close>, whatever the other goroutines do in between. A reservation granted
  is held, for the canonical tokens and slots of the request; a rejection is a \<open>LimitError\<close> of the
  request's provider and model, permanent exactly when the request can never fit, in which case
  nothing changed, and otherwise temporary: with the context's error as its cause when the context
  ended the wait, with none when \<open>MaxWait\<close> did. In every case the limiter's invariant is kept.
\<close>

theorem reserve_outcome_classified:
  assumes "il_inv (sh_obj w)" and "keeps il_inv w"
    and "in_int64 (Tokens (rr_EstimatedUnits req))" and "in_int64 (Slots (rr_EstimatedUnits req))"
    and "il_Reserve fuel c req w = Some (r, w')"
  shows "il_inv (sh_obj w') \<and>
    (case r of
      Inr h \<Rightarrow> h < length (il_reservations (sh_obj w')) \<and> il_reservations (sh_obj w') ! h =
         \<lparr>rv_tokens = Tokens (rr_EstimatedUnits req), rv_slots = Slots (rr_EstimatedUnits req),
          rv_committed = False, rv_released = False\<rparr>
    | Inl e \<Rightarrow> (\<exists>reason ra cause perm. e = LimitError cause (rr_Provider req) (rr_Model req) reason ra perm \<and>
        (if perm then w' = w \<and> cause = None \<and>
           (il_tokenLimiting (sh_obj w) \<and> Tokens (rr_EstimatedUnits req) > il_maxCapacity (sh_obj w) \<or>
            il_slotLimiting (sh_obj w) \<and> Slots (rr_EstimatedUnits req) > il_maxConcurrency (sh_obj w))
         else if cause = None then 0 < il_maxWait (sh_obj w') else cause = ctx_Err c w')))"
proof (cases "il_impossible (sh_obj w) req (Tokens (rr_EstimatedUnits req)) (Slots (rr_EstimatedUnits req))")
  case None
  with assms(5) have "reserve_loop fuel c req (Tokens (rr_EstimatedUnits req)) (Slots (rr_EstimatedUnits req)) (sh_clock w) w = Some (r, w')"
    by (simp add: il_Reserve_def)
  from reserve_loop_outcome [OF Tokens_nonneg assms(3) Slots_pos assms(4,1,2) this]
  have out: "reserve_outcome c req (Tokens (rr_EstimatedUnits req)) (Slots (rr_EstimatedUnits req)) r w'" .
  show ?thesis
  proof (cases r)
    case (Inr h)
    with out show ?thesis by (simp add: reserve_outcome_def)
  next
    case (Inl e)
    from out Inl consider (ended) reason ra where "ctx_Err c w' \<noteq> None" "e = limitErr req reason ra (ctx_Err c w') False"
      | (expired) ra where "0 < il_maxWait (sh_obj w')" "e = limitErr req ''rate limit wait exceeded MaxWait'' ra None False"
      by (auto simp: reserve_outcome_def)
    then obtain reason ra cause where X: "e = LimitError cause (rr_Provider req) (rr_Model req) reason ra False \<and>
        (if cause = None then 0 < il_maxWait (sh_obj w') else cause = ctx_Err c w')"
      unfolding limitErr_def by cases auto
    have "il_inv (sh_obj w')" using out by (simp add: reserve_outcome_def)
    then show ?thesis unfolding Inl sum.case
    proof (rule conjI, intro exI)
      show "e = LimitError cause (rr_Provider req) (rr_Model req) reason ra False \<and>
        (if False then w' = w \<and> cause = None \<and>
           (il_tokenLimiting (sh_obj w) \<and> Tokens (rr_EstimatedUnits req) > il_maxCapacity (sh_obj w) \<or>
            il_slotLimiting (sh_obj w) \<and> Slots (rr_EstimatedUnits req) > il_maxConcurrency (sh_obj w))
         else if cause = None then 0 < il_maxWait (sh_obj w') else cause = ctx_Err c w')" using X by simp
    qed
  qed
next
  case (Some le)
  with assms(5) have "r = Inl le" "w' = w" by (simp_all add: il_Reserve_def)
  with Some assms(1) show ?thesis by (auto simp: il_impossible_def limitErr_def split: if_splits)
qed

definition two_slots_world :: "in_mem shared" where
  "two_slots_world = \<lparr>w_clock = 0, w_tie = (\<lambda>_. True), w_rand = (\<lambda>_. 0), w_draws = 0, w_oob = (\<lambda>_. MinInt),
     sh_obj = two_slots, sh_now = (\<lambda>t. t), sh_locks = 0, sh_delay = (\<lambda>_. 1), sh_others = (\<lambda>_ l. l)\<rparr>"

definition plain_request :: reservation_request where
  "plain_request = \<lparr>rr_Provider = ''openai'', rr_Model = ''m'', rr_Operation = OperationChat, rr_Purpose = [],
     rr_Metadata = Map.empty, rr_Subject = \<lparr>sj_TenantID = [], sj_UserID = [], sj_JobID = []\<rparr>,
     rr_EstimatedUnits = \<lparr>uu_InputTokens = 3, uu_OutputTokensMax = 4, uu_TotalTokensMax = 7, uu_Requests = 1\<rparr>\<rparr>"

lemma plain_request_units: "Tokens (rr_EstimatedUnits plain_request) = 7" "Slots (rr_EstimatedUnits plain_request) = 1"
  by (simp_all add: plain_request_def Tokens_def Slots_def)

lemma two_slots_inv: "il_inv two_slots"
  by (rule NewInMemoryLimiter_inv [OF _ two_slots_New]) (simp add: two_slots_config_def in_int64_def MinInt_def MaxInt_def)

theorem reserve_outcome_classified_witness:
  "\<exists>w'. il_Reserve 1 background plain_request two_slots_world = Some (Inr 0, w') \<and>
     rv_tokens (il_reservations (sh_obj w') ! 0) = 7"
proof -
  have inv: "il_inv (sh_obj two_slots_world)" "keeps il_inv two_slots_world"
    by (simp_all add: two_slots_world_def two_slots_inv keeps_def)
  have rng: "in_int64 (Tokens (rr_EstimatedUnits plain_request))" "in_int64 (Slots (rr_EstimatedUnits plain_request))"
    by (simp_all add: plain_request_units in_int64_def MinInt_def MaxInt_def)
  have sub: "go_sub 2 0 = 2" by (rule trans [OF go_sub_exact]) (simp_all add: in_int64_def MinInt_def MaxInt_def)
  have lk: "sh_obj (lock two_slots_world) = two_slots" by (simp add: two_slots_world_def)
  obtain ra l where res: "reserveLocked 7 1 t two_slots = ((Some 0, ra), l)" for t
    by (simp add: reserveLocked_def tryAcquireLocked_def refillLocked_def two_slots_def sub)
  have "il_impossible (sh_obj two_slots_world) plain_request 7 1 = None"
    by (simp add: il_impossible_def two_slots_world_def two_slots_def)
  then obtain w' where run: "il_Reserve 1 background plain_request two_slots_world = Some (Inr 0, w')"
    using reserve_loop_grant [OF ctx_Err_background, of 7 1 two_slots_world 0 ra l 0] lk res
    by (simp add: il_Reserve_def plain_request_units)
  from reserve_outcome_classified [OF inv rng run] run show ?thesis by (auto simp: plain_request_units)
qed

text \<open>
  with a \<open>MaxWait\<close> and the real clock, \<open>Reserve\<close> always returns: fuel for one round per nanosecond
  of the budget is enough, however the mutex is contended and the other goroutines use the capacity.
\<close>

theorem reserve_terminates:
  assumes "0 < mw" and "mw \<le> MaxInt" and "1 \<le> poll"
    and "il_settings mw poll (sh_obj w)" and "keeps (il_settings mw poll) w" and "real_clock w"
  shows "\<exists>r w'. il_Reserve (Suc (nat mw)) c req w = Some (r, w')"
  by (rule il_Reserve_returns [OF assms])

theorem reserve_terminates_witness:
  "\<exists>r w'. il_Reserve 6 background plain_request two_slots_world = Some (r, w')"
  using reserve_terminates [of 5 2 two_slots_world background plain_request]
  by (simp add: MaxInt_def il_settings_def keeps_def real_clock_def two_slots_world_def two_slots_def eval_nat_numeral)

end
