(* ===== verification/LimiterApi.thy ===== *)
theory LimiterApi
  imports RateLimit
begin

text \<open>
  The \<open>Limiter\<close> and \<open>Reservation\<close> interfaces of \<open>ratelimit.go\<close> as the operations a client calls, the
  laws a provider keeps as locales, and the client: \<open>reserved\<close> of \<open>middleware/ratelimit.go\<close>, the
  function both typed adapters share. The laws hold under interference: \<open>holds\<close> says that a handle is
  not released, and \<open>mine\<close> that no other goroutine will release it.
\<close>

record ('h, 'w) limiter_ops =
  op_Reserve :: "ctx \<Rightarrow> reservation_request \<Rightarrow> 'w \<Rightarrow> (error + 'h) \<times> 'w"
  op_Commit :: "ctx \<Rightarrow> 'h \<Rightarrow> usage \<Rightarrow> 'w \<Rightarrow> error option \<times> 'w"
  op_Release :: "ctx \<Rightarrow> 'h \<Rightarrow> 'w \<Rightarrow> error option \<times> 'w"

definition units_in_range :: "usage_units \<Rightarrow> bool" where
  "units_in_range u \<longleftrightarrow> in_int64 (uu_InputTokens u) \<and> in_int64 (uu_OutputTokensMax u) \<and>
     in_int64 (uu_TotalTokensMax u) \<and> in_int64 (uu_Requests u)"

lemma units_in_rangeD:
  assumes "units_in_range u"
  shows "in_int64 (Tokens u)" and "in_int64 (Slots u)"
  using assms by (simp_all add: units_in_range_def Tokens_in_range Slots_def)

section \<open>The client (middleware/ratelimit.go)\<close>

definition usageReported :: "usage \<Rightarrow> bool" where
  "usageReported u \<longleftrightarrow> u_InputTokens u \<noteq> 0 \<or> u_OutputTokens u \<noteq> 0 \<or> u_TotalTokens u \<noteq> 0 \<or>
     u_ReasoningTokens u \<noteq> 0 \<or> u_BillableOutputTokens u \<noteq> 0 \<or> u_EmbeddingTokens u \<noteq> 0 \<or>
     u_CacheReadTokens u \<noteq> 0 \<or> u_CacheWriteTokens u \<noteq> 0"

definition reserved :: "ctx \<Rightarrow> ('h, 'w) limiter_ops \<Rightarrow> reservation_request \<Rightarrow> 'r \<Rightarrow>
    (ctx \<Rightarrow> 'w \<Rightarrow> ('r \<times> error option) \<times> 'w) \<Rightarrow> ('r \<Rightarrow> usage) \<Rightarrow> 'w \<Rightarrow> ('r \<times> error option) \<times> 'w" where
  "reserved c limiter rr zero call usageOf w =
     (case op_Reserve limiter c rr w of
        (Inl err, w) \<Rightarrow> ((zero, Some err), w)
      | (Inr res, w) \<Rightarrow>
          (case call c w of ((resp, err), w) \<Rightarrow>
             let w = (if err = None \<and> usageReported (usageOf resp)
                      then snd (op_Commit limiter (WithoutCancel c) res (usageOf resp) w) else w);
                 w = snd (op_Release limiter (WithoutCancel c) res w)
             in ((resp, err), w)))"

text \<open>The ways a reserved call goes.\<close>

lemma reserved_cases:
  assumes "reserved c limiter rr zero call usageOf w = ((resp, err), w')"
  obtains (rejected) e where "op_Reserve limiter c rr w = (Inl e, w')" "resp = zero" "err = Some e"
  | (committed) h w1 w2 e3 w3 e4 where "op_Reserve limiter c rr w = (Inr h, w1)" "call c w1 = ((resp, err), w2)"
      "err = None" "usageReported (usageOf resp)"
      "op_Commit limiter (WithoutCancel c) h (usageOf resp) w2 = (e3, w3)"
      "op_Release limiter (WithoutCancel c) h w3 = (e4, w')"
  | (uncommitted) h w1 w2 e4 where "op_Reserve limiter c rr w = (Inr h, w1)" "call c w1 = ((resp, err), w2)"
      "\<not> (err = None \<and> usageReported (usageOf resp))"
      "op_Release limiter (WithoutCancel c) h w2 = (e4, w')"
proof -
  obtain r w1 where r: "op_Reserve limiter c rr w = (r, w1)" by (metis prod.exhaust)
  show ?thesis
  proof (cases r)
    case (Inl e)
    with assms r show ?thesis by (intro rejected) (auto simp: reserved_def)
  next
    case (Inr h)
    obtain resp1 err1 w2 where c: "call c w1 = ((resp1, err1), w2)" by (metis prod.exhaust)
    with assms r Inr have eq: "resp1 = resp" "err1 = err" by (auto simp: reserved_def Let_def)
    show ?thesis
    proof (cases "err = None \<and> usageReported (usageOf resp)")
      case True
      with assms r Inr c eq show ?thesis
        by (intro committed) (auto simp: reserved_def Let_def intro: surjective_pairing)
    next
      case False
      with assms r Inr c eq show ?thesis
        by (intro uncommitted) (auto simp: reserved_def Let_def prod_eq_iff)
    qed
  qed
qed

section \<open>The laws\<close>

locale limiter_protocol =
  fixes ops :: "('h, 'w) limiter_ops"
    and inv :: "'w \<Rightarrow> bool"
    and holds :: "'w \<Rightarrow> 'h \<Rightarrow> bool"
    and mine :: "'w \<Rightarrow> 'h \<Rightarrow> bool"
  assumes reserve_grants: "inv w \<Longrightarrow> units_in_range (rr_EstimatedUnits rr) \<Longrightarrow>
      op_Reserve ops c rr w = (Inr h, w') \<Longrightarrow> inv w' \<and> holds w' h"
    and reserve_rejects: "inv w \<Longrightarrow> units_in_range (rr_EstimatedUnits rr) \<Longrightarrow>
      op_Reserve ops c rr w = (Inl e, w') \<Longrightarrow> inv w'"
    and commit_keeps: "inv w \<Longrightarrow> holds w h \<Longrightarrow> mine w h \<Longrightarrow> usage_in_range u \<Longrightarrow>
      op_Commit ops c h u w = (x, w') \<Longrightarrow> inv w' \<and> holds w' h \<and> mine w' h"
    and release_frees: "inv w \<Longrightarrow> holds w h \<Longrightarrow> mine w h \<Longrightarrow>
      op_Release ops c h w = (x, w') \<Longrightarrow> inv w' \<and> \<not> holds w' h"
begin

text \<open>A reserved call never leaks its reservation.\<close>

lemma reserved_releases:
  assumes "inv w" and "units_in_range (rr_EstimatedUnits rr)"
    and call: "\<And>h w1 x w2. op_Reserve ops c rr w = (Inr h, w1) \<Longrightarrow> inv w1 \<Longrightarrow> holds w1 h \<Longrightarrow> call c w1 = (x, w2) \<Longrightarrow>
      inv w2 \<and> holds w2 h \<and> mine w2 h"
    and usage: "\<And>r. usage_in_range (usageOf r)"
    and run: "reserved c ops rr zero call usageOf w = ((resp, err), w')"
  shows "inv w' \<and>
    ((\<exists>e. op_Reserve ops c rr w = (Inl e, w') \<and> resp = zero \<and> err = Some e) \<or>
     (\<exists>h w1 w2. op_Reserve ops c rr w = (Inr h, w1) \<and> call c w1 = ((resp, err), w2) \<and> \<not> holds w' h))"
  using run
proof (cases rule: reserved_cases)
  case (rejected e)
  with reserve_rejects [OF assms(1,2)] show ?thesis by blast
next
  case (committed h w1 w2 e3 w3 e4)
  from reserve_grants [OF assms(1,2) committed(1)] call [OF committed(1) _ _ committed(2)]
  have "inv w2 \<and> holds w2 h \<and> mine w2 h" by blast
  with commit_keeps committed(5) usage have "inv w3 \<and> holds w3 h \<and> mine w3 h" by blast
  with release_frees committed(6) have "inv w' \<and> \<not> holds w' h" by blast
  with committed(1,2) show ?thesis by blast
next
  case (uncommitted h w1 w2 e4)
  from reserve_grants [OF assms(1,2) uncommitted(1)] call [OF uncommitted(1) _ _ uncommitted(2)]
  have "inv w2 \<and> holds w2 h \<and> mine w2 h" by blast
  with release_frees uncommitted(4) have "inv w' \<and> \<not> holds w' h" by blast
  with uncommitted(1,2) show ?thesis by blast
qed

end

text \<open>When no other goroutine touches the limiter (\<open>quiet\<close>), the slots in use can be counted.\<close>

locale counted_limiter = limiter_protocol +
  fixes used :: "'b \<Rightarrow> int"
    and cost :: "'b \<Rightarrow> 'a \<Rightarrow> int"
    and quiet :: "'b \<Rightarrow> bool"
  assumes quiet_mine: "quiet w \<Longrightarrow> mine w h"
    and reserve_uses: "inv w \<Longrightarrow> quiet w \<Longrightarrow> units_in_range (rr_EstimatedUnits rr) \<Longrightarrow>
      op_Reserve ops c rr w = (Inr h, w') \<Longrightarrow> quiet w' \<and> used w' = used w + cost w' h"
    and reject_uses: "inv w \<Longrightarrow> quiet w \<Longrightarrow> units_in_range (rr_EstimatedUnits rr) \<Longrightarrow>
      op_Reserve ops c rr w = (Inl e, w') \<Longrightarrow> quiet w' \<and> used w' = used w"
    and commit_uses: "inv w \<Longrightarrow> quiet w \<Longrightarrow> holds w h \<Longrightarrow> usage_in_range u \<Longrightarrow>
      op_Commit ops c h u w = (x, w') \<Longrightarrow> quiet w' \<and> used w' = used w \<and> cost w' h = cost w h"
    and release_uses: "inv w \<Longrightarrow> quiet w \<Longrightarrow> holds w h \<Longrightarrow>
      op_Release ops c h w = (x, w') \<Longrightarrow> quiet w' \<and> used w' = used w - cost w h"
begin

text \<open>A reserved call leaves as many slots in use as it found.\<close>

lemma reserved_restores:
  assumes "inv w" and "quiet w" and "units_in_range (rr_EstimatedUnits rr)"
    and call: "\<And>h w1 x w2. inv w1 \<Longrightarrow> quiet w1 \<Longrightarrow> holds w1 h \<Longrightarrow> call c w1 = (x, w2) \<Longrightarrow>
      inv w2 \<and> quiet w2 \<and> holds w2 h \<and> used w2 = used w1 \<and> cost w2 h = cost w1 h"
    and usage: "\<And>r. usage_in_range (usageOf r)"
    and run: "reserved c ops rr zero call usageOf w = ((resp, err), w')"
  shows "used w' = used w \<and> quiet w'"
  using run
proof (cases rule: reserved_cases)
  case (rejected e)
  with reject_uses [OF assms(1-3)] show ?thesis by blast
next
  case (committed h w1 w2 e3 w3 e4)
  note g = reserve_grants [OF assms(1,3) committed(1)] and u = reserve_uses [OF assms(1-3) committed(1)]
  note k = call [OF _ _ _ committed(2), of h]
  have "inv w3 \<and> holds w3 h"
    using commit_keeps [OF _ _ quiet_mine usage committed(5)] g u k by blast
  moreover have "quiet w3 \<and> used w3 = used w2 \<and> cost w3 h = cost w2 h"
    using commit_uses [OF _ _ _ usage committed(5)] g u k by blast
  ultimately show ?thesis using release_uses [OF _ _ _ committed(6)] g u k by auto
next
  case (uncommitted h w1 w2 e4)
  note g = reserve_grants [OF assms(1,3) uncommitted(1)] and u = reserve_uses [OF assms(1-3) uncommitted(1)]
  note k = call [OF _ _ _ uncommitted(2), of h]
  show ?thesis using release_uses [OF _ _ _ uncommitted(4)] g u k by auto
qed

end

end
