(* ===== verification/InMemoryApi.thy ===== *)
theory InMemoryApi
  imports InMemory LimiterApi
begin

text \<open>
  \<open>InMemoryLimiter\<close> as a provider of the reservation protocol: its operations as a \<open>limiter_ops\<close>
  record, the proof that they keep the laws under the interference of other goroutines
  (\<open>interpretation\<close>), and the resulting guarantees of \<open>reserved\<close> over it. \<open>Reserve\<close> runs with the
  fuel that a positive \<open>MaxWait\<close> makes sufficient; the record has no meaning for a limiter without one, whose
  \<open>Reserve\<close> may wait for ever, and \<open>il_world\<close> therefore asks for one.
\<close>

definition il_ops :: "(nat, (in_mem, 'a) shared_scheme) limiter_ops" where
  "il_ops = \<lparr>
     op_Reserve = (\<lambda>c req w. the (il_Reserve (Suc (nat (il_maxWait (sh_obj w)))) c req w)),
     op_Commit = (\<lambda>c h u w. il_Commit h u w),
     op_Release = (\<lambda>c h w. il_Release h w)\<rparr>"

lemma il_ops_simps [simp]:
  "op_Reserve il_ops c req w = the (il_Reserve (Suc (nat (il_maxWait (sh_obj w)))) c req w)"
  "op_Commit il_ops c h u w = il_Commit h u w" "op_Release il_ops c h w = il_Release h w"
  by (simp_all add: il_ops_def)

text \<open>A shared limiter with a \<open>MaxWait\<close>, on the real clock, that the others keep well-formed.\<close>

definition il_ok :: "int \<Rightarrow> int \<Rightarrow> in_mem \<Rightarrow> bool" where
  "il_ok mw poll l \<longleftrightarrow> il_inv l \<and> il_settings mw poll l"

definition il_world :: "int \<Rightarrow> int \<Rightarrow> (in_mem, 'a) shared_scheme \<Rightarrow> bool" where
  "il_world mw poll w \<longleftrightarrow> 0 < mw \<and> mw \<le> MaxInt \<and> 1 \<le> poll \<and> real_clock w \<and> il_ok mw poll (sh_obj w) \<and>
     keeps il_inv w \<and> keeps (il_settings mw poll) w"

definition rv_held :: "nat \<Rightarrow> in_mem \<Rightarrow> bool" where
  "rv_held h l \<longleftrightarrow> h < length (il_reservations l) \<and> \<not> rv_released (il_reservations l ! h)"

definition il_holds :: "(in_mem, 'a) shared_scheme \<Rightarrow> nat \<Rightarrow> bool" where
  "il_holds w h \<longleftrightarrow> rv_held h (sh_obj w)"

definition il_mine :: "(in_mem, 'a) shared_scheme \<Rightarrow> nat \<Rightarrow> bool" where
  "il_mine w h \<longleftrightarrow> keeps (rv_held h) w"

lemma reserve_loop_settings:
  "il_settings mw poll (sh_obj w) \<Longrightarrow> keeps (il_settings mw poll) w \<Longrightarrow> keeps il_inv w \<Longrightarrow> real_clock w \<Longrightarrow>
   reserve_loop fuel c req tokens slots start w = Some (r, w') \<Longrightarrow>
     il_settings mw poll (sh_obj w') \<and> keeps (il_settings mw poll) w' \<and> keeps il_inv w' \<and> real_clock w'"
proof (induction fuel arbitrary: w)
  case 0
  then show ?case by simp
next
  case (Suc fuel)
  let ?K = "\<lambda>w. keeps (il_settings mw poll) w \<and> keeps il_inv w \<and> real_clock w"
  have lk: "il_settings mw poll (sh_obj (lock w))" using keeps_lock [of "il_settings mw poll" w] Suc.prems(1,2) by simp
  have K: "?K (lock w)" using Suc.prems(2-4) by (simp add: keeps_def real_clock_def)
  have K': "?K ((lock w)\<lparr>sh_obj := l\<rparr>)" for l using K by (simp add: real_clock_def del: lock_sel)
  note st = reserveLocked_settings [OF lk]
  from Suc.prems(5) show ?case
  proof (cases rule: reserve_loop_cases)
    case before
    with Suc.prems show ?thesis by simp
  next
    case (granted h ra l)
    with st [OF granted(2)] K' [of l] show ?thesis by simp
  next
    case (expired ra l)
    with st [OF expired(2)] K' [of l] show ?thesis by simp
  next
    case (slept ra l s stop w3)
    have fr: "sh_obj w3 = l" "?K w3"
      using sleep_shared_frame [OF slept(5), of "il_settings mw poll"] sleep_shared_frame [OF slept(5), of il_inv] K' [of l]
      by (simp_all add: real_clock_def)
    show ?thesis
    proof (cases stop)
      case True
      with slept fr st [OF slept(2)] show ?thesis by simp
    next
      case False
      with slept Suc.IH [of w3] fr st [OF slept(2)] show ?thesis by simp
    qed
  qed
qed

lemma il_Reserve_world:
  assumes "il_world mw poll w" and "units_in_range (rr_EstimatedUnits rr)"
    and "op_Reserve il_ops c rr w = (r, w')"
  shows "il_Reserve (Suc (nat mw)) c rr w = Some (r, w')" and "il_world mw poll w'"
    and "r = Inr h \<Longrightarrow> il_holds w' h"
proof -
  have mw: "il_maxWait (sh_obj w) = mw" using assms(1) by (simp add: il_world_def il_ok_def il_settings_def)
  have t: "in_int64 (Tokens (rr_EstimatedUnits rr))" "in_int64 (Slots (rr_EstimatedUnits rr))"
    using units_in_rangeD [OF assms(2)] by simp_all
  obtain r1 w1 where run: "il_Reserve (Suc (nat mw)) c rr w = Some (r1, w1)"
    using il_Reserve_returns [of mw poll w c rr] assms(1) by (auto simp: il_world_def il_ok_def)
  with assms(3) mw have eq: "r1 = r" "w1 = w'" by simp_all
  with run show run': "il_Reserve (Suc (nat mw)) c rr w = Some (r, w')" by simp
  have W: "il_inv (sh_obj w)" "keeps il_inv w" "il_settings mw poll (sh_obj w)" "keeps (il_settings mw poll) w" "real_clock w"
    "0 < mw" "mw \<le> MaxInt" "1 \<le> poll"
    using assms(1) by (simp_all add: il_world_def il_ok_def)
  have "il_world mw poll w' \<and> (r = Inr h \<longrightarrow> il_holds w' h)"
  proof (cases "il_impossible (sh_obj w) rr (Tokens (rr_EstimatedUnits rr)) (Slots (rr_EstimatedUnits rr))")
    case None
    with run' have loop: "reserve_loop (Suc (nat mw)) c rr (Tokens (rr_EstimatedUnits rr)) (Slots (rr_EstimatedUnits rr))
        (sh_clock w) w = Some (r, w')" by (simp add: il_Reserve_def del: reserve_loop.simps)
    from reserve_loop_outcome [OF Tokens_nonneg t(1) Slots_pos t(2) W(1,2) loop]
    have "il_inv (sh_obj w')" "r = Inr h \<Longrightarrow> il_holds w' h" by (auto simp: reserve_outcome_def il_holds_def rv_held_def)
    with reserve_loop_settings [OF W(3,4,2,5) loop] W(6-) show ?thesis by (simp add: il_world_def il_ok_def)
  next
    case (Some e)
    with run' have "r = Inl e" "w' = w" by (simp_all add: il_Reserve_def)
    with assms(1) show ?thesis by simp
  qed
  then show "il_world mw poll w'" "r = Inr h \<Longrightarrow> il_holds w' h" by auto
qed

lemma commitLocked_settings: "il_settings mw poll (commitLocked h u now l) = il_settings mw poll l"
  by (simp add: commitLocked_def il_settings_def Let_def)

lemma il_releaseLocked_settings: "il_settings mw poll (il_releaseLocked h l) = il_settings mw poll l"
  by (simp add: il_releaseLocked_def il_settings_def Let_def)

lemma commitLocked_held: "rv_held h (commitLocked h u now l) = rv_held h l"
  by (cases "h < length (il_reservations l)") (auto simp: rv_held_def commitLocked_frame)

lemma il_world_lock: "il_world mw poll w \<Longrightarrow> il_world mw poll (lock w)"
  using keeps_lock [of il_inv w] keeps_lock [of "il_settings mw poll" w]
  by (simp add: il_world_def il_ok_def real_clock_def)

lemma il_world_put: "il_world mw poll w \<Longrightarrow> il_ok mw poll l \<Longrightarrow> il_world mw poll (w\<lparr>sh_obj := l\<rparr>)"
  by (simp add: il_world_def real_clock_def)

lemma il_mine_lock: "il_mine w h \<Longrightarrow> il_holds w h \<Longrightarrow> il_holds (lock w) h \<and> il_mine (lock w) h"
  using keeps_lock [of "rv_held h" w] by (simp add: il_mine_def il_holds_def)

interpretation il: limiter_protocol il_ops "il_world mw poll" il_holds il_mine for mw poll
proof
  fix w w' :: "(in_mem, 'a) shared_scheme" and rr c h
  assume A: "il_world mw poll w" "units_in_range (rr_EstimatedUnits rr)" "op_Reserve il_ops c rr w = (Inr h, w')"
  show "il_world mw poll w' \<and> il_holds w' h" using il_Reserve_world(2) [OF A] il_Reserve_world(3) [OF A refl] by simp
next
  fix w w' :: "(in_mem, 'a) shared_scheme" and rr c e
  assume A: "il_world mw poll w" "units_in_range (rr_EstimatedUnits rr)" "op_Reserve il_ops c rr w = (Inl e, w')"
  show "il_world mw poll w'" by (rule il_Reserve_world(2) [OF A])
next
  fix w w' :: "(in_mem, 'a) shared_scheme" and h u c x
  assume A: "il_world mw poll w" "il_holds w h" "il_mine w h" "usage_in_range u" "op_Commit il_ops c h u w = (x, w')"
  let ?l = "sh_obj (lock w)"
  have lk: "il_world mw poll (lock w)" "il_holds (lock w) h" "il_mine (lock w) h"
    using il_world_lock il_mine_lock A(1-3) by blast+
  have w': "w' = (lock w)\<lparr>sh_obj := commitLocked h u (sh_clock (lock w)) ?l\<rparr>" using A(5) by (simp add: il_Commit_def Let_def)
  have "il_ok mw poll ?l" "h < length (il_reservations ?l)" using lk by (auto simp: il_world_def il_holds_def rv_held_def)
  then have "il_ok mw poll (commitLocked h u (sh_clock (lock w)) ?l)"
    using commitLocked_inv [OF _ _ A(4), of ?l h] by (simp add: il_ok_def commitLocked_settings)
  then show "il_world mw poll w' \<and> il_holds w' h \<and> il_mine w' h"
    using lk il_world_put by (simp add: w' il_holds_def il_mine_def commitLocked_held del: lock_sel)
next
  fix w w' :: "(in_mem, 'a) shared_scheme" and h c x
  assume A: "il_world mw poll w" "il_holds w h" "il_mine w h" "op_Release il_ops c h w = (x, w')"
  let ?l = "sh_obj (lock w)"
  have lk: "il_world mw poll (lock w)" "il_holds (lock w) h"
    using il_world_lock il_mine_lock A(1-3) by blast+
  have w': "w' = (lock w)\<lparr>sh_obj := il_releaseLocked h ?l\<rparr>" using A(4) by (simp add: il_Release_def Let_def)
  have l: "il_ok mw poll ?l" "rv_held h ?l" using lk by (auto simp: il_world_def il_holds_def)
  then have "il_ok mw poll (il_releaseLocked h ?l)"
    by (simp add: il_ok_def il_releaseLocked_inv il_releaseLocked_settings rv_held_def)
  moreover have "\<not> rv_held h (il_releaseLocked h ?l)"
    using l(2) by (simp add: rv_held_def il_releaseLocked_def Let_def)
  ultimately show "il_world mw poll w' \<and> \<not> il_holds w' h"
    using lk il_world_put by (simp add: w' il_holds_def del: lock_sel)
qed


section \<open>Counting slots\<close>

definition sh_quiet :: "('l, 'a) shared_scheme \<Rightarrow> bool" where
  "sh_quiet w \<longleftrightarrow> sh_others w = (\<lambda>n l. l)"

definition il_used :: "(in_mem, 'a) shared_scheme \<Rightarrow> int" where
  "il_used w = held_slots (il_reservations (sh_obj w))"

definition il_cost :: "(in_mem, 'a) shared_scheme \<Rightarrow> nat \<Rightarrow> int" where
  "il_cost w h = rv_slots (il_reservations (sh_obj w) ! h)"

lemma sh_quiet_simps [simp]:
  "sh_quiet (lock w) = sh_quiet w" "sh_quiet (w\<lparr>sh_obj := l\<rparr>) = sh_quiet w"
  by (simp_all add: sh_quiet_def)

lemma sh_quiet_obj: "sh_quiet w \<Longrightarrow> sh_obj (lock w) = sh_obj w"
  by (simp add: sh_quiet_def)

lemma sh_quiet_sleep: "sleep_or_done c s w = (stop, w') \<Longrightarrow> sh_quiet w' = sh_quiet w"
  for w w' :: "('l, 'a) shared_scheme"
  using sleep_frame [of c s w stop w'] shared_more_frame [of w' w] by (simp add: sh_quiet_def)

lemma reserveLocked_reservations:
  "reserveLocked tokens slots now l = ((None, ra), l') \<Longrightarrow> il_reservations l' = il_reservations l"
  "reserveLocked tokens slots now l = ((Some h, ra), l') \<Longrightarrow> h = length (il_reservations l) \<and>
     il_reservations l' = il_reservations l @
       [\<lparr>rv_tokens = tokens, rv_slots = slots, rv_committed = False, rv_released = False\<rparr>]"
  by (cases rule: reserveLocked_cases [of tokens slots now l]; auto simp: tryAcquire_refuse(2))+

lemma reserve_loop_quiet:
  "sh_quiet w \<Longrightarrow> reserve_loop fuel c req tokens slots start w = Some (r, w') \<Longrightarrow> sh_quiet w' \<and>
    (case r of Inl e \<Rightarrow> il_reservations (sh_obj w') = il_reservations (sh_obj w)
     | Inr h \<Rightarrow> h = length (il_reservations (sh_obj w)) \<and> il_reservations (sh_obj w') = il_reservations (sh_obj w) @
         [\<lparr>rv_tokens = tokens, rv_slots = slots, rv_committed = False, rv_released = False\<rparr>])"
proof (induction fuel arbitrary: w)
  case 0
  then show ?case by simp
next
  case (Suc fuel)
  note lk = sh_quiet_obj [OF Suc.prems(1)]
  from Suc.prems(2) show ?case
  proof (cases rule: reserve_loop_cases)
    case (granted h ra l)
    with reserveLocked_reservations(2) [OF granted(2)] lk Suc.prems(1) show ?thesis by (simp del: lock_sel)
  next
    case (expired ra l)
    with reserveLocked_reservations(1) [OF expired(2)] lk Suc.prems(1) show ?thesis by (simp del: lock_sel)
  next
    case (slept ra l s stop w3)
    have q: "sh_quiet w3" using sh_quiet_sleep [OF slept(5)] Suc.prems(1) by (simp del: lock_sel)
    have "sh_obj w3 = l" using sleep_shared_frame [OF slept(5)] by simp
    then have "il_reservations (sh_obj w3) = il_reservations (sh_obj w)"
      using reserveLocked_reservations(1) [OF slept(2)] lk by simp
    with q slept Suc.IH [OF q] show ?thesis by (cases stop; cases r) (simp_all del: lock_sel)
  qed (use Suc.prems in simp)
qed

lemma il_Reserve_quiet:
  assumes "sh_quiet w" and "il_Reserve fuel c rr w = Some (r, w')"
  shows "sh_quiet w' \<and> il_used w' = il_used w + (case r of Inl e \<Rightarrow> 0 | Inr h \<Rightarrow> il_cost w' h)"
proof (cases "il_impossible (sh_obj w) rr (Tokens (rr_EstimatedUnits rr)) (Slots (rr_EstimatedUnits rr))")
  case None
  with assms(2) have "reserve_loop fuel c rr (Tokens (rr_EstimatedUnits rr)) (Slots (rr_EstimatedUnits rr)) (sh_clock w) w = Some (r, w')"
    by (simp add: il_Reserve_def)
  from reserve_loop_quiet [OF assms(1) this] show ?thesis by (cases r) (auto simp: il_used_def il_cost_def)
next
  case (Some e)
  with assms show ?thesis by (auto simp: il_Reserve_def)
qed

lemma commitLocked_slots:
  assumes "h < length (il_reservations l)"
  shows "held_slots (il_reservations (commitLocked h u now l)) = held_slots (il_reservations l) \<and>
    rv_slots (il_reservations (commitLocked h u now l) ! h) = rv_slots (il_reservations l ! h)"
  using assms by (simp add: commitLocked_frame held_slots_update)

interpretation il: counted_limiter il_ops "il_world mw poll" il_holds il_mine il_used il_cost sh_quiet for mw poll
proof
  fix w :: "(in_mem, 'a) shared_scheme" and h
  assume "sh_quiet w"
  then show "il_mine w h" by (simp add: sh_quiet_def il_mine_def keeps_def)
next
  fix w w' :: "(in_mem, 'a) shared_scheme" and rr c h
  assume A: "il_world mw poll w" "sh_quiet w" "units_in_range (rr_EstimatedUnits rr)" "op_Reserve il_ops c rr w = (Inr h, w')"
  show "sh_quiet w' \<and> il_used w' = il_used w + il_cost w' h"
    using il_Reserve_quiet [OF A(2) il_Reserve_world(1) [OF A(1,3,4)]] by simp
next
  fix w w' :: "(in_mem, 'a) shared_scheme" and rr c e
  assume A: "il_world mw poll w" "sh_quiet w" "units_in_range (rr_EstimatedUnits rr)" "op_Reserve il_ops c rr w = (Inl e, w')"
  show "sh_quiet w' \<and> il_used w' = il_used w"
    using il_Reserve_quiet [OF A(2) il_Reserve_world(1) [OF A(1,3,4)]] by simp
next
  fix w w' :: "(in_mem, 'a) shared_scheme" and h u c x
  assume A: "il_world mw poll w" "sh_quiet w" "il_holds w h" "usage_in_range u" "op_Commit il_ops c h u w = (x, w')"
  have "h < length (il_reservations (sh_obj w))" using A(3) by (simp add: il_holds_def rv_held_def)
  from commitLocked_slots [OF this, of u "sh_clock (lock w)"] A(2,5) sh_quiet_obj [OF A(2)]
  show "sh_quiet w' \<and> il_used w' = il_used w \<and> il_cost w' h = il_cost w h"
    by (auto simp: il_Commit_def Let_def il_used_def il_cost_def simp del: lock_sel)
next
  fix w w' :: "(in_mem, 'a) shared_scheme" and h c x
  assume A: "il_world mw poll w" "sh_quiet w" "il_holds w h" "op_Release il_ops c h w = (x, w')"
  have "il_inv (sh_obj w)" "h < length (il_reservations (sh_obj w))" "\<not> rv_released (il_reservations (sh_obj w) ! h)"
    using A(1,3) by (simp_all add: il_world_def il_ok_def il_holds_def rv_held_def)
  from releaseLocked_slots(1) [OF this] A(2,4) sh_quiet_obj [OF A(2)]
  show "sh_quiet w' \<and> il_used w' = il_used w - il_cost w h"
    by (auto simp: il_Release_def Let_def il_used_def il_cost_def simp del: lock_sel)
qed

section \<open>Properties\<close>

text \<open>
  C7: the rate-limit middleware never leaks a reservation. Over the in-memory limiter with a positive \<open>MaxWait\<close>, under any
  interference of other goroutines that does not release this one's reservation, \<open>reserved\<close> either
  passes the limiter's rejection on without making the call, or returns exactly what the call
  returned with its reservation released, whether the call failed, succeeded or reported no usage. The default, no
  \<open>MaxWait\<close>, is not covered: a \<open>Reserve\<close> without one may wait for ever, and then there is no result to speak of.
\<close>

theorem reserved_never_leaks:
  assumes "il_world mw poll w" and "units_in_range (rr_EstimatedUnits rr)"
    and "\<And>h w1 x w2. op_Reserve il_ops c rr w = (Inr h, w1) \<Longrightarrow> il_holds w1 h \<Longrightarrow> call c w1 = (x, w2) \<Longrightarrow>
      il_world mw poll w2 \<and> il_holds w2 h \<and> il_mine w2 h"
    and "\<And>r. usage_in_range (usageOf r)"
    and "reserved c il_ops rr zero call usageOf w = ((resp, err), w')"
  shows "il_world mw poll w' \<and>
    ((\<exists>e. op_Reserve il_ops c rr w = (Inl e, w') \<and> resp = zero \<and> err = Some e) \<or>
     (\<exists>h w1 w2. op_Reserve il_ops c rr w = (Inr h, w1) \<and> call c w1 = ((resp, err), w2) \<and> \<not> il_holds w' h))"
  by (rule il.reserved_releases [OF assms(1,2) assms(3) assms(4,5)])

definition failing_provider :: "ctx \<Rightarrow> 'w \<Rightarrow> (usage \<times> error option) \<times> 'w" where
  "failing_provider c w = ((zero_usage, Some DeadlineExceeded), w)"

definition usage_of :: "usage \<Rightarrow> usage" where
  "usage_of u = (if usage_in_range u then u else zero_usage)"

lemma usage_of_in_range: "usage_in_range (usage_of u)"
  by (simp add: usage_of_def usage_in_range_def zero_usage_def)

lemma two_slots_world_ok: "il_world 5 2 two_slots_world" "sh_quiet two_slots_world"
  "il_mine two_slots_world h" "units_in_range (rr_EstimatedUnits plain_request)"
  using two_slots_inv
  by (simp_all add: il_world_def il_ok_def two_slots_world_def real_clock_def keeps_def MaxInt_def il_settings_def
      two_slots_def sh_quiet_def il_mine_def units_in_range_def plain_request_def in_int64_def MinInt_def)

lemma il_Reserve_mine: "sh_quiet w \<Longrightarrow> il_Reserve fuel c rr w = Some (r, w') \<Longrightarrow> il_mine w' h"
  using il_Reserve_quiet [of w fuel c rr r w'] by (simp add: il.quiet_mine)

theorem reserved_never_leaks_witness:
  "il_world 5 2 (snd (reserved background il_ops plain_request zero_usage failing_provider usage_of two_slots_world))"
proof -
  obtain resp err w' where run:
    "reserved background il_ops plain_request zero_usage failing_provider usage_of two_slots_world = ((resp, err), w')"
    by (metis prod.exhaust)
  have call: "il_world 5 2 w2 \<and> il_holds w2 h \<and> il_mine w2 h"
    if "op_Reserve il_ops background plain_request two_slots_world = (Inr h, w1)" "il_holds w1 h"
      "failing_provider background w1 = (x, w2)" for h w1 x w2
  proof -
    have "w2 = w1" using that(3) by (simp add: failing_provider_def)
    with that(2) il_Reserve_world [OF two_slots_world_ok(1,4) that(1)] il_Reserve_mine [OF two_slots_world_ok(2)]
    show ?thesis by blast
  qed
  from reserved_never_leaks [OF two_slots_world_ok(1,4) call usage_of_in_range run] run show ?thesis by simp
qed

text \<open>
  when no other goroutine uses the limiter, a reserved call leaves exactly as many slots in use
  as it found, whatever the outcome of the reservation and of the call.
\<close>

theorem reserved_restores_slots:
  assumes "il_world mw poll w" and "sh_quiet w" and "units_in_range (rr_EstimatedUnits rr)"
    and "\<And>w1. call c w1 = (f w1, w1)" and "\<And>r. usage_in_range (usageOf r)"
    and "reserved c il_ops rr zero call usageOf w = ((resp, err), w')"
  shows "held_slots (il_reservations (sh_obj w')) = held_slots (il_reservations (sh_obj w))"
  using il.reserved_restores [OF assms(1-3) _ assms(5,6)] assms(4) by (simp add: il_used_def)

theorem reserved_restores_slots_witness:
  "held_slots (il_reservations (sh_obj (snd (reserved background il_ops plain_request zero_usage failing_provider
     usage_of two_slots_world)))) = 0"
proof -
  obtain resp err w' where run:
    "reserved background il_ops plain_request zero_usage failing_provider usage_of two_slots_world = ((resp, err), w')"
    by (metis prod.exhaust)
  have "failing_provider background w1 = ((zero_usage, Some DeadlineExceeded), w1)" for w1 :: "in_mem shared"
    by (simp add: failing_provider_def)
  from reserved_restores_slots [OF two_slots_world_ok(1,2,4) this usage_of_in_range run]
  show ?thesis using run by (simp add: two_slots_world_def two_slots_def held_slots_def)
qed

end
