(* ===== verification/FromBucket.thy ===== *)
theory FromBucket
  imports BucketMemory LimiterApi Circuit
begin

text \<open>
  \<open>ratelimit/bucket.go\<close>: the adapter from a generic bucket limiter to the reservation protocol. The
  bucket interface is a record of operations with its laws in \<open>bucket_backend\<close>; the adapter satisfies
  the protocol over every such backend (\<open>sublocale\<close>), and the in-memory bucket limiter is one
  (\<open>interpretation\<close>).
\<close>

record ('l, 'w) bucket_ops =
  bo_Acquire :: "ctx \<Rightarrow> string \<Rightarrow> int \<Rightarrow> 'w \<Rightarrow> (error + 'l) \<times> 'w"
  bo_Adjust :: "ctx \<Rightarrow> 'l \<Rightarrow> int \<Rightarrow> 'w \<Rightarrow> error option \<times> 'w"
  bo_Release :: "ctx \<Rightarrow> 'l \<Rightarrow> 'w \<Rightarrow> error option \<times> 'w"

text \<open>The error of a failed \<open>Acquire\<close>, as the middleware sees it.\<close>

definition from_bucket_error :: "reservation_request \<Rightarrow> error \<Rightarrow> error" where
  "from_bucket_error req err = (case errors_As is_BucketLimitError (Some err) of
     Some le \<Rightarrow> LimitError (ble_Cause le) (rr_Provider req) (rr_Model req)
       (''bucket '' @ quote (ble_Key le) @ '': '' @ ble_Reason le) (ble_RetryAfter le) (ble_Permanent le)
   | None \<Rightarrow> Wrapped ''ratelimit: bucket'' [err])"

definition bucketLimiter_Reserve :: "('l, 'w) bucket_ops \<Rightarrow> (reservation_request \<Rightarrow> string) \<Rightarrow>
    ctx \<Rightarrow> reservation_request \<Rightarrow> 'w \<Rightarrow> (error + 'l) \<times> 'w" where
  "bucketLimiter_Reserve l key c req w =
     (let slots = Slots (rr_EstimatedUnits req) in
      if slots > 1
      then (Inl (Wrapped (''ratelimit: bucket leases hold one slot; reservation asks for '' @ itoa slots) []), w)
      else case bo_Acquire l c (key req) (Tokens (rr_EstimatedUnits req)) w of
        (Inl err, w) \<Rightarrow> (Inl (from_bucket_error req err), w)
      | (Inr lease, w) \<Rightarrow> (Inr lease, w))"

definition FromBucket :: "('l, 'w) bucket_ops \<Rightarrow> (reservation_request \<Rightarrow> string) \<Rightarrow> ('l, 'w) limiter_ops" where
  "FromBucket l key = \<lparr>
     op_Reserve = bucketLimiter_Reserve l key,
     op_Commit = (\<lambda>c lease u w. bo_Adjust l c lease (effectiveTokens u) w),
     op_Release = (\<lambda>c lease w. bo_Release l c lease w)\<rparr>"

lemma FromBucket_simps [simp]:
  "op_Reserve (FromBucket l key) = bucketLimiter_Reserve l key"
  "op_Commit (FromBucket l key) c h u w = bo_Adjust l c h (effectiveTokens u) w"
  "op_Release (FromBucket l key) c h w = bo_Release l c h w"
  by (simp_all add: FromBucket_def)

section \<open>The laws of a backend\<close>

locale bucket_backend =
  fixes bops :: "('l, 'w) bucket_ops"
    and inv :: "'w \<Rightarrow> bool"
    and holds :: "'w \<Rightarrow> 'l \<Rightarrow> bool"
    and mine :: "'w \<Rightarrow> 'l \<Rightarrow> bool"
  assumes acquire_grants: "inv w \<Longrightarrow> in_int64 tokens \<Longrightarrow> bo_Acquire bops c key tokens w = (Inr h, w') \<Longrightarrow> inv w' \<and> holds w' h"
    and acquire_rejects: "inv w \<Longrightarrow> in_int64 tokens \<Longrightarrow> bo_Acquire bops c key tokens w = (Inl e, w') \<Longrightarrow> inv w'"
    and adjust_keeps: "inv w \<Longrightarrow> holds w h \<Longrightarrow> mine w h \<Longrightarrow> in_int64 actual \<Longrightarrow>
      bo_Adjust bops c h actual w = (x, w') \<Longrightarrow> inv w' \<and> holds w' h \<and> mine w' h"
    and lease_release: "inv w \<Longrightarrow> holds w h \<Longrightarrow> mine w h \<Longrightarrow>
      bo_Release bops c h w = (x, w') \<Longrightarrow> inv w' \<and> \<not> holds w' h"

locale bucket_adapter = bucket_backend bops inv holds mine
  for bops :: "('l, 'w) bucket_ops" and inv :: "'w \<Rightarrow> bool"
    and holds :: "'w \<Rightarrow> 'l \<Rightarrow> bool" and mine :: "'w \<Rightarrow> 'l \<Rightarrow> bool" +
  fixes key :: "reservation_request \<Rightarrow> string"

lemma bucketLimiter_Reserve_cases:
  assumes "bucketLimiter_Reserve l key c req w = (r, w')"
  obtains (slots) e where "r = Inl e" "w' = w"
  | (failed) e where "bo_Acquire l c (key req) (Tokens (rr_EstimatedUnits req)) w = (Inl e, w')" "r = Inl (from_bucket_error req e)"
  | (acquired) h where "bo_Acquire l c (key req) (Tokens (rr_EstimatedUnits req)) w = (Inr h, w')" "r = Inr h"
  using assms by (auto simp: bucketLimiter_Reserve_def Let_def split: if_splits prod.splits sum.splits)

sublocale bucket_adapter \<subseteq> adapted: limiter_protocol "FromBucket bops key" inv holds mine
proof
  fix w w' rr c h
  assume A: "inv w" "units_in_range (rr_EstimatedUnits rr)" "op_Reserve (FromBucket bops key) c rr w = (Inr h, w')"
  from A(3) have "bucketLimiter_Reserve bops key c rr w = (Inr h, w')" by simp
  then show "inv w' \<and> holds w' h"
  proof (cases rule: bucketLimiter_Reserve_cases)
    case (acquired h1)
    with acquire_grants [OF A(1) units_in_rangeD(1) [OF A(2)] acquired(1)] show ?thesis by simp
  qed simp_all
next
  fix w w' rr c e
  assume A: "inv w" "units_in_range (rr_EstimatedUnits rr)" "op_Reserve (FromBucket bops key) c rr w = (Inl e, w')"
  from A(3) have "bucketLimiter_Reserve bops key c rr w = (Inl e, w')" by simp
  then show "inv w'"
  proof (cases rule: bucketLimiter_Reserve_cases)
    case (slots e1)
    with A(1) show ?thesis by simp
  next
    case (failed e1)
    with acquire_rejects [OF A(1) units_in_rangeD(1) [OF A(2)] failed(1)] show ?thesis by simp
  qed simp
next
  fix w w' h u c x
  assume A: "inv w" "holds w h" "mine w h" "usage_in_range u" "op_Commit (FromBucket bops key) c h u w = (x, w')"
  then show "inv w' \<and> holds w' h \<and> mine w' h"
    using adjust_keeps [OF A(1-3) effectiveTokens_in_range [OF A(4)]] by simp
next
  fix w w' h c x
  assume A: "inv w" "holds w h" "mine w h" "op_Release (FromBucket bops key) c h w = (x, w')"
  show "inv w' \<and> \<not> holds w' h" by (rule lease_release [OF A(1-3) A(4) [unfolded FromBucket_simps]])
qed

section \<open>The in-memory bucket limiter as a backend\<close>

definition mem_ops :: "(nat, (limiter, 'a) shared_scheme) bucket_ops" where
  "mem_ops = \<lparr>
     bo_Acquire = (\<lambda>c key tokens w. the (mem_Acquire (Suc (nat (wt_MaxWait (lm_waiter (sh_obj w))))) c key tokens w)),
     bo_Adjust = (\<lambda>c h actual w. mem_Adjust h actual w),
     bo_Release = (\<lambda>c h w. mem_Release h w)\<rparr>"

lemma mem_ops_simps [simp]:
  "bo_Acquire mem_ops c key tokens w = the (mem_Acquire (Suc (nat (wt_MaxWait (lm_waiter (sh_obj w))))) c key tokens w)"
  "bo_Adjust mem_ops c h actual w = mem_Adjust h actual w" "bo_Release mem_ops c h w = mem_Release h w"
  by (simp_all add: mem_ops_def)

definition has_waiter :: "waiter \<Rightarrow> limiter \<Rightarrow> bool" where
  "has_waiter wt l \<longleftrightarrow> lm_waiter l = wt"

definition mem_ok :: "waiter \<Rightarrow> (limiter, 'a) shared_scheme \<Rightarrow> bool" where
  "mem_ok wt w \<longleftrightarrow> 0 < wt_MaxWait wt \<and> wf_waiter wt \<and> rand_ok w \<and> mem_inv (sh_obj w) \<and> has_waiter wt (sh_obj w) \<and>
     fair_others w \<and> keeps (has_waiter wt) w"

definition lease_held :: "nat \<Rightarrow> limiter \<Rightarrow> bool" where
  "lease_held h l \<longleftrightarrow> h < length (lm_leases l) \<and> \<not> ls_released (lm_leases l ! h)"

definition mem_holds :: "(limiter, 'a) shared_scheme \<Rightarrow> nat \<Rightarrow> bool" where
  "mem_holds w h \<longleftrightarrow> lease_held h (sh_obj w)"

definition mem_mine :: "(limiter, 'a) shared_scheme \<Rightarrow> nat \<Rightarrow> bool" where
  "mem_mine w h \<longleftrightarrow> keeps (lease_held h) w"

lemma acquireLocked_waiter: "acquireLocked err key tokens now l = (r, l') \<Longrightarrow> lm_waiter l' = lm_waiter l"
  by (auto simp: acquireLocked_def stateLocked_def Let_def split: option.splits if_splits)

lemma adjustLocked_waiter [simp]: "lm_waiter (adjustLocked h a t l) = lm_waiter l"
  by (simp add: adjustLocked_def Let_def split: option.split)

lemma releaseLocked_waiter [simp]: "lm_waiter (releaseLocked h l) = lm_waiter l"
  by (simp add: releaseLocked_def Let_def split: option.split)

lemma adjustLocked_lease_held: "h < length (lm_leases l) \<Longrightarrow> lease_held h (adjustLocked h a t l) = lease_held h l"
  by (simp add: lease_held_def adjustLocked_def Let_def split: option.split)

lemma releaseLocked_lease_held:
  assumes "mem_inv l" and "h < length (lm_leases l)"
  shows "\<not> lease_held h (releaseLocked h l)"
  using mem_inv_lease_state [OF assms] assms(2) by (auto simp: lease_held_def releaseLocked_def Let_def)

lemma fair_others_lock: "mem_inv (sh_obj w) \<Longrightarrow> fair_others w \<Longrightarrow> mem_inv (sh_obj (lock w)) \<and> fair_others (lock w)"
  by (simp add: fair_others_def)

lemma mem_ok_lock: "mem_ok wt w \<Longrightarrow> mem_ok wt (lock w)"
  using fair_others_lock [of w] keeps_lock [of "has_waiter wt" w]
  by (simp add: mem_ok_def rand_ok_def del: lock_sel(1))

lemma mem_ok_put: "mem_ok wt w \<Longrightarrow> mem_inv l \<Longrightarrow> has_waiter wt l \<Longrightarrow> mem_ok wt (w\<lparr>sh_obj := l\<rparr>)"
  by (simp add: mem_ok_def rand_ok_def fair_others_def)

lemma mem_attempt_ok:
  assumes "0 \<le> tokens" and "mem_ok wt w" and "mem_attempt key tokens c w = (r, w')"
  shows "mem_ok wt w'"
proof -
  obtain l' where a: "acquireLocked (ctx_Err c (lock w)) key tokens (sh_clock (lock w)) (sh_obj (lock w)) = (r, l')"
    and w': "w' = (lock w)\<lparr>sh_obj := l'\<rparr>"
    using assms(3) by (auto simp: mem_attempt_def Let_def simp del: lock_sel split: prod.splits)
  have ok: "mem_ok wt (lock w)" by (rule mem_ok_lock [OF assms(2)])
  then have "mem_inv (sh_obj (lock w))" by (simp add: mem_ok_def del: lock_sel)
  then have "mem_inv l'" using acquireLocked_inv assms(1) a by blast
  with ok acquireLocked_waiter [OF a] show ?thesis
    unfolding w' by (intro mem_ok_put) (simp_all add: mem_ok_def has_waiter_def del: lock_sel)
qed

lemma mem_Acquire_ok:
  assumes "mem_ok wt w" and "mem_Acquire fuel c key tokens w = Some (r, w')"
  shows "mem_ok wt w'"
proof (rule wait_loop_preserves [where P = "mem_ok wt"])
  show "mem_ok wt w" by (rule assms)
  show "wait_loop fuel c (waitCtx c (lm_waiter (sh_obj w)) w) key (lm_waiter (sh_obj w))
      (mem_attempt key (max tokens 0)) (wt_Initial (lm_waiter (sh_obj w))) 0 w = Some (r, w')"
    using assms(2) by (simp add: mem_Acquire_def Wait_def)
  show "mem_ok wt w2" if "mem_ok wt w1"
    and "mem_attempt key (max tokens 0) (waitCtx c (lm_waiter (sh_obj w)) w) w1 = (r', w2)" for w1 r' w2
    by (rule mem_attempt_ok [OF _ that]) simp
  show "mem_ok wt w2" if "world.more w1 = world.more w2" and "w_rand w1 = w_rand w2" and "mem_ok wt w1" for w1 w2
    using shared_more_frame [OF that(1)] that(2,3) keeps_frame [OF that(1), of "has_waiter wt"]
    by (simp add: mem_ok_def rand_ok_def fair_others_def)
qed

lemma mem_Acquire_returns:
  assumes "mem_ok wt w"
  shows "\<exists>r w'. mem_Acquire (Suc (nat (wt_MaxWait wt))) c key tokens w = Some (r, w')"
proof -
  have A: "0 < wt_MaxWait wt" "wf_waiter wt" "rand_ok w" "lm_waiter (sh_obj w) = wt"
    using assms by (simp_all add: mem_ok_def has_waiter_def)
  obtain t e where d: "c_done (waitCtx c wt w) = Some (t, e)" "t \<le> w_clock w + wt_MaxWait wt"
    using waitCtx_done [OF A(1)] by blast
  have "in_int64 (wt_Initial wt)" using A(2) by (simp add: wf_waiter_def)
  moreover have "nat (t - w_clock w) < Suc (nat (wt_MaxWait wt))" using d(2) by linarith
  ultimately show ?thesis
    using wait_loop_terminates [OF mem_attempt_steady A(2) d(1) A(3)] A(4)
    unfolding mem_Acquire_def Wait_def Let_def by fastforce
qed

lemma mem_Acquire_run:
  assumes "mem_ok wt w" and "bo_Acquire mem_ops c key tokens w = (r, w')"
  shows "mem_Acquire (Suc (nat (wt_MaxWait wt))) c key tokens w = Some (r, w')"
proof -
  obtain r1 w1 where "mem_Acquire (Suc (nat (wt_MaxWait wt))) c key tokens w = Some (r1, w1)"
    using mem_Acquire_returns [OF assms(1)] by blast
  moreover have "lm_waiter (sh_obj w) = wt" using assms(1) by (simp add: mem_ok_def has_waiter_def)
  ultimately show ?thesis using assms(2) by simp
qed

interpretation mem: bucket_backend mem_ops "mem_ok wt" mem_holds mem_mine for wt
proof
  fix w w' :: "(limiter, 'a) shared_scheme" and tokens c key h
  assume A: "mem_ok wt w" "in_int64 tokens" "bo_Acquire mem_ops c key tokens w = (Inr h, w')"
  have run: "mem_Acquire (Suc (nat (wt_MaxWait wt))) c key tokens w = Some (Inr h, w')" by (rule mem_Acquire_run [OF A(1,3)])
  show "mem_ok wt w' \<and> mem_holds w' h"
    using mem_Acquire_ok [OF A(1) run] mem_Acquire_admission [OF run] by (simp add: mem_holds_def lease_held_def)
next
  fix w w' :: "(limiter, 'a) shared_scheme" and tokens c key e
  assume A: "mem_ok wt w" "in_int64 tokens" "bo_Acquire mem_ops c key tokens w = (Inl e, w')"
  have run: "mem_Acquire (Suc (nat (wt_MaxWait wt))) c key tokens w = Some (Inl e, w')" by (rule mem_Acquire_run [OF A(1,3)])
  show "mem_ok wt w'" by (rule mem_Acquire_ok [OF A(1) run])
next
  fix w w' :: "(limiter, 'a) shared_scheme" and h actual c x
  assume A: "mem_ok wt w" "mem_holds w h" "mem_mine w h" "bo_Adjust mem_ops c h actual w = (x, w')"
  let ?l = "sh_obj (lock w)"
  have w': "w' = (lock w)\<lparr>sh_obj := adjustLocked h actual (sh_clock (lock w)) ?l\<rparr>"
    using A(4) by (simp add: mem_Adjust_def Let_def)
  have lk: "lease_held h ?l" "keeps (lease_held h) (lock w)" "mem_ok wt (lock w)"
    using keeps_lock [of "lease_held h" w] A(1-3) mem_ok_lock by (simp_all add: mem_holds_def mem_mine_def)
  then have l: "mem_inv ?l" "has_waiter wt ?l" "h < length (lm_leases ?l)" by (simp_all add: mem_ok_def lease_held_def del: lock_sel)
  have "mem_ok wt w'"
    unfolding w' by (rule mem_ok_put [OF lk(3) adjustLocked_inv [OF l(1,3)]]) (use l(2) in \<open>simp add: has_waiter_def\<close>)
  moreover have "lease_held h (adjustLocked h actual (sh_clock (lock w)) ?l)"
    using adjustLocked_lease_held [OF l(3)] lk(1) by blast
  ultimately show "mem_ok wt w' \<and> mem_holds w' h \<and> mem_mine w' h"
    using lk(2) by (simp add: w' mem_holds_def mem_mine_def del: lock_sel)
next
  fix w w' :: "(limiter, 'a) shared_scheme" and h c x
  assume A: "mem_ok wt w" "mem_holds w h" "mem_mine w h" "bo_Release mem_ops c h w = (x, w')"
  let ?l = "sh_obj (lock w)"
  have w': "w' = (lock w)\<lparr>sh_obj := releaseLocked h ?l\<rparr>" using A(4) by (simp add: mem_Release_def Let_def)
  have lk: "lease_held h ?l" "mem_ok wt (lock w)"
    using keeps_lock [of "lease_held h" w] A(1-3) mem_ok_lock by (simp_all add: mem_holds_def mem_mine_def)
  then have l: "mem_inv ?l" "has_waiter wt ?l" "h < length (lm_leases ?l)" by (simp_all add: mem_ok_def lease_held_def del: lock_sel)
  have "mem_ok wt w'"
    unfolding w' by (rule mem_ok_put [OF lk(2) releaseLocked_inv [OF l(1,3)]]) (use l(2) in \<open>simp add: has_waiter_def\<close>)
  with releaseLocked_lease_held [OF l(1,3)] show "mem_ok wt w' \<and> \<not> mem_holds w' h" by (simp add: w' mem_holds_def del: lock_sel)
qed

interpretation mem: bucket_adapter mem_ops "mem_ok wt" mem_holds mem_mine key for wt key
  by unfold_locales

section \<open>Properties\<close>

text \<open>
  over any backend, the adapter turns a bucket rejection, however wrapped, into a \<open>LimitError\<close> of
  the request's provider and model that keeps its hint, cause and permanence. The retry policy
  retries it exactly when it is temporary and not the caller's own cancellation, and the circuit
  breaker does not count it as a provider failure.
\<close>

theorem from_bucket_rejections:
  assumes "bo_Acquire l c (key req) (Tokens (rr_EstimatedUnits req)) w = (Inl err, w')"
    and "Slots (rr_EstimatedUnits req) = 1"
    and "errors_As is_BucketLimitError (Some err) = Some (BucketLimitError cause k reason ra perm)"
    and "cause = None \<or> cause = Some Canceled \<or> cause = Some DeadlineExceeded"
  shows "\<exists>le. bucketLimiter_Reserve l key c req w = (Inl le, w') \<and>
     le = LimitError cause (rr_Provider req) (rr_Model req) (''bucket '' @ quote k @ '': '' @ reason) ra perm \<and>
     RetryAfter (Some le) = ra \<and> Retryable (Some le) = (\<not> perm \<and> cause \<noteq> Some Canceled) \<and> \<not> is_failure (Some le)"
proof -
  let ?le = "LimitError cause (rr_Provider req) (rr_Model req) (''bucket '' @ quote k @ '': '' @ reason) ra perm"
  have "bucketLimiter_Reserve l key c req w = (Inl ?le, w')"
    using assms(1-3) by (simp add: bucketLimiter_Reserve_def from_bucket_error_def)
  moreover have "RetryAfter (Some ?le) = ra \<and> Retryable (Some ?le) = (\<not> perm \<and> cause \<noteq> Some Canceled)"
    using assms(4) by (auto simp: RetryAfter_def Retryable_def errors_As_def LimitError_Retryable_def errors_Is_def)
  moreover have "\<not> is_failure (Some ?le)" by (simp add: is_failure_def errors_As_self)
  ultimately show ?thesis by blast
qed

definition refusing :: "(nat, unit) bucket_ops" where
  "refusing = \<lparr>bo_Acquire = (\<lambda>c key tokens w. (Inl (Wrapped ''x'' [BucketLimitError None key ''full'' 9 False]), w)),
     bo_Adjust = (\<lambda>c h a w. (None, w)), bo_Release = (\<lambda>c h w. (None, w))\<rparr>"

theorem from_bucket_rejections_witness:
  "Retryable (Some (projl (fst (bucketLimiter_Reserve refusing (\<lambda>_. ''k'')
     background \<lparr>rr_Provider = ''openai'', rr_Model = ''m'', rr_Operation = OperationChat, rr_Purpose = [],
     rr_Metadata = Map.empty, rr_Subject = \<lparr>sj_TenantID = [], sj_UserID = [], sj_JobID = []\<rparr>,
     rr_EstimatedUnits = \<lparr>uu_InputTokens = 3, uu_OutputTokensMax = 4, uu_TotalTokensMax = 7, uu_Requests = 1\<rparr>\<rparr> ()))))"
proof -
  let ?req = "\<lparr>rr_Provider = ''openai'', rr_Model = ''m'', rr_Operation = OperationChat, rr_Purpose = [],
     rr_Metadata = Map.empty, rr_Subject = \<lparr>sj_TenantID = [], sj_UserID = [], sj_JobID = []\<rparr>,
     rr_EstimatedUnits = \<lparr>uu_InputTokens = 3, uu_OutputTokensMax = 4, uu_TotalTokensMax = 7, uu_Requests = 1\<rparr>\<rparr>"
  let ?err = "Wrapped ''x'' [BucketLimitError None ''k'' ''full'' 9 False]"
  have a: "bo_Acquire refusing background ''k'' (Tokens (rr_EstimatedUnits ?req)) () = (Inl ?err, ())"
    by (simp add: refusing_def)
  have b: "Slots (rr_EstimatedUnits ?req) = 1" by (simp add: Slots_def)
  have c: "errors_As is_BucketLimitError (Some ?err) = Some (BucketLimitError None ''k'' ''full'' 9 False)"
    by (simp add: errors_As_def)
  from from_bucket_rejections [of refusing background "\<lambda>_. ''k''" ?req "()" ?err "()", OF a b c] show ?thesis by auto
qed

text \<open>
  over the in-memory bucket limiter behind the adapter, under any interference that does not
  release this goroutine's lease, \<open>reserved\<close> never leaks a lease: either the rejection comes back and
  the call is not made, or the call's result comes back with the lease released.
\<close>

theorem bucket_reserved_never_leaks:
  assumes "mem_ok wt w" and "units_in_range (rr_EstimatedUnits rr)"
    and "\<And>h w1 x w2. op_Reserve (FromBucket mem_ops key) c rr w = (Inr h, w1) \<Longrightarrow> mem_holds w1 h \<Longrightarrow>
      call c w1 = (x, w2) \<Longrightarrow> mem_ok wt w2 \<and> mem_holds w2 h \<and> mem_mine w2 h"
    and "\<And>r. usage_in_range (usageOf r)"
    and "reserved c (FromBucket mem_ops key) rr zero call usageOf w = ((resp, err), w')"
  shows "mem_ok wt w' \<and>
    ((\<exists>e. op_Reserve (FromBucket mem_ops key) c rr w = (Inl e, w') \<and> resp = zero \<and> err = Some e) \<or>
     (\<exists>h w1 w2. op_Reserve (FromBucket mem_ops key) c rr w = (Inr h, w1) \<and> call c w1 = ((resp, err), w2) \<and> \<not> mem_holds w' h))"
  by (rule mem.adapted.reserved_releases [OF assms(1,2) assms(3) assms(4,5)])

lemma mem_Acquire_others:
  assumes "sh_others w = f" and "mem_Acquire fuel c key tokens w = Some (r, w')"
  shows "sh_others w' = f"
proof (rule wait_loop_preserves [where P = "\<lambda>w. sh_others w = f"])
  show "sh_others w = f" by (rule assms)
  show "wait_loop fuel c (waitCtx c (lm_waiter (sh_obj w)) w) key (lm_waiter (sh_obj w))
      (mem_attempt key (max tokens 0)) (wt_Initial (lm_waiter (sh_obj w))) 0 w = Some (r, w')"
    using assms(2) by (simp add: mem_Acquire_def Wait_def)
qed (auto simp: mem_attempt_def Let_def split: prod.splits dest: shared_more_frame)

theorem bucket_reserved_never_leaks_witness:
  "mem_ok \<lparr>wt_MaxWait = 10, wt_Initial = 2, wt_Max = 4\<rparr>
     (snd (reserved background (FromBucket mem_ops (\<lambda>_. ''k'')) \<lparr>rr_Provider = ''openai'', rr_Model = ''m'',
        rr_Operation = OperationChat, rr_Purpose = [], rr_Metadata = Map.empty,
        rr_Subject = \<lparr>sj_TenantID = [], sj_UserID = [], sj_JobID = []\<rparr>,
        rr_EstimatedUnits = \<lparr>uu_InputTokens = 3, uu_OutputTokensMax = 4, uu_TotalTokensMax = 7, uu_Requests = 1\<rparr>\<rparr>
        zero_usage (\<lambda>c w. ((zero_usage, None), w)) (\<lambda>u. zero_usage) solo_world))"
proof -
  let ?rr = "\<lparr>rr_Provider = ''openai'', rr_Model = ''m'', rr_Operation = OperationChat, rr_Purpose = [],
        rr_Metadata = Map.empty, rr_Subject = \<lparr>sj_TenantID = [], sj_UserID = [], sj_JobID = []\<rparr>,
        rr_EstimatedUnits = \<lparr>uu_InputTokens = 3, uu_OutputTokensMax = 4, uu_TotalTokensMax = 7, uu_Requests = 1\<rparr>\<rparr>"
  let ?call = "\<lambda>(c :: ctx) (w :: limiter shared). ((zero_usage, None), w)"
  let ?wt = "\<lparr>wt_MaxWait = 10, wt_Initial = 2, wt_Max = 4\<rparr>"
  obtain resp err w' where run: "reserved background (FromBucket mem_ops (\<lambda>_. ''k'')) ?rr zero_usage ?call
      (\<lambda>u. zero_usage) solo_world = ((resp, err), w')" by (metis prod.exhaust)
  have inv: "mem_inv one_slot_limiter" by (rule mem_New_inv [OF one_slot_New])
  have ok: "mem_ok ?wt solo_world"
    using inv by (simp add: mem_ok_def solo_world_def wf_waiter_def in_int64_def MinInt_def MaxInt_def rand_ok_def
        has_waiter_def one_slot_limiter_def fair_others_def keeps_def)
  have u: "units_in_range (rr_EstimatedUnits ?rr)" by (simp add: units_in_range_def in_int64_def MinInt_def MaxInt_def)
  have call: "mem_ok ?wt w2 \<and> mem_holds w2 h \<and> mem_mine w2 h"
    if A: "op_Reserve (FromBucket mem_ops (\<lambda>_. ''k'')) background ?rr solo_world = (Inr h, w1)" and "mem_holds w1 h"
      and "?call background w1 = (x, w2)" for h w1 x w2
  proof -
    have res: "bucketLimiter_Reserve mem_ops (\<lambda>_. ''k'') background ?rr solo_world = (Inr h, w1)" using A by simp
    then have "bo_Acquire mem_ops background ''k'' (Tokens (rr_EstimatedUnits ?rr)) solo_world = (Inr h, w1)"
      by (cases rule: bucketLimiter_Reserve_cases) simp_all
    note acq = mem_Acquire_run [OF ok this]
    have "sh_others w1 = (\<lambda>n l. l)" by (rule mem_Acquire_others [OF _ acq]) (simp add: solo_world_def)
    then have "mem_mine w1 h" by (simp add: mem_mine_def keeps_def)
    with mem_Acquire_ok [OF ok acq] that show ?thesis by simp
  qed
  have z: "usage_in_range zero_usage" by (simp add: usage_in_range_def zero_usage_def)
  have "mem_ok ?wt w'" by (rule conjunct1 [OF bucket_reserved_never_leaks [OF ok u _ z run]]) (rule call)
  with run show ?thesis by simp
qed

end
