(* ===== verification/Estimator.thy ===== *)
theory Estimator
  imports RateLimit
begin

text \<open>
  \<open>middleware/estimator.go\<close>: the byte-count estimate of a request. Its sums of string lengths and
  per-part padding are sizes of data in memory, so they are written without wrap-around; the one sum
  with a caller's number, \<open>MaxTokens\<close>, saturates as in the source.
\<close>

definition charsPerToken :: int where "charsPerToken = 3"
definition perPartOverhead :: int where "perPartOverhead = 8"
definition defaultOutputMax :: int where "defaultOutputMax = 1024"

definition tokensForText :: "string \<Rightarrow> int" where
  "tokensForText s = (if s = [] then 0 else go_div (int (length s) + charsPerToken - 1) charsPerToken)"

definition tokensForPart :: "content_part \<Rightarrow> int" where
  "tokensForPart p = perPartOverhead + tokensForText (cp_Text p) +
     (case cp_ToolCall p of None \<Rightarrow> 0
      | Some tc \<Rightarrow> tokensForText (tc_Name tc) + tokensForText (tc_Parameters tc) + tokensForText (tc_ProviderSignature tc)) +
     (case cp_ToolResult p of None \<Rightarrow> 0 | Some tr \<Rightarrow> tokensForText (tr_Content tr)) +
     (case cp_Reasoning p of None \<Rightarrow> 0 | Some r \<Rightarrow> tokensForText (rs_ProviderData r))"

fun tokensForPartsFrom :: "int \<Rightarrow> content_part list \<Rightarrow> int" where
  "tokensForPartsFrom acc [] = acc"
| "tokensForPartsFrom acc (p # ps) = tokensForPartsFrom (acc + tokensForPart p) ps"

definition tokensForParts :: "content_part list \<Rightarrow> int" where
  "tokensForParts ps = tokensForPartsFrom 0 ps"

definition tokensForTool :: "tool_definition \<Rightarrow> int" where
  "tokensForTool t = tokensForText (td_Name t) + tokensForText (td_Description t) + tokensForText (td_InputSchema t)"

definition EstimateChat :: "chat_request \<Rightarrow> usage_units" where
  "EstimateChat req =
     (let input = tokensForParts (cr_System req);
          input = foldl (\<lambda>n m. n + tokensForParts (m_Content m)) input (cr_Messages req);
          input = foldl (\<lambda>n t. n + tokensForTool t) input (cr_Tools req);
          outMax = (if cr_MaxTokens req \<le> 0 then defaultOutputMax else cr_MaxTokens req)
      in \<lparr>uu_InputTokens = input, uu_OutputTokensMax = outMax, uu_TotalTokensMax = Add input outMax, uu_Requests = 1\<rparr>)"

definition EstimateEmbeddings :: "embedding_request \<Rightarrow> usage_units" where
  "EstimateEmbeddings req =
     (let input = foldl (\<lambda>n i. n + tokensForText (ei_Text i)) 0 (er_Inputs req)
      in \<lparr>uu_InputTokens = input, uu_OutputTokensMax = 0, uu_TotalTokensMax = input, uu_Requests = 1\<rparr>)"

text \<open>The \<open>TokenEstimator\<close> interface, and the estimator a nil one selects.\<close>

record token_estimator =
  te_EstimateChat :: "chat_request \<Rightarrow> usage_units"
  te_EstimateEmbeddings :: "embedding_request \<Rightarrow> usage_units"

definition DefaultEstimator :: token_estimator where
  "DefaultEstimator = \<lparr>te_EstimateChat = EstimateChat, te_EstimateEmbeddings = EstimateEmbeddings\<rparr>"

definition estimatorOrDefault :: "token_estimator option \<Rightarrow> token_estimator" where
  "estimatorOrDefault est = (case est of None \<Rightarrow> DefaultEstimator | Some e \<Rightarrow> e)"

section \<open>Facts\<close>

lemma tokensForText_eq: "tokensForText s = (int (length s) + 2) div 3"
  by (simp add: tokensForText_def charsPerToken_def add.commute)

lemma tokensForText_covers: "int (length s) \<le> 3 * tokensForText s"
  by (simp add: tokensForText_eq)

lemma tokensForText_nonneg [simp]: "0 \<le> tokensForText s"
  by (simp add: tokensForText_eq)

lemma tokensForPartsFrom_eq: "tokensForPartsFrom acc ps = acc + sum_list (map tokensForPart ps)"
  by (induction ps arbitrary: acc) simp_all

lemma foldl_sum: "foldl (\<lambda>n x. n + f x) a xs = a + sum_list (map f xs)" for f :: "'x \<Rightarrow> int"
  by (induction xs arbitrary: a) simp_all

text \<open>The bytes a request sends: every text, tool name, argument, signature, result, reasoning payload
  and schema.\<close>

definition part_bytes :: "content_part \<Rightarrow> int" where
  "part_bytes p = int (length (cp_Text p)) +
     (case cp_ToolCall p of None \<Rightarrow> 0
      | Some tc \<Rightarrow> int (length (tc_Name tc) + length (tc_Parameters tc) + length (tc_ProviderSignature tc))) +
     (case cp_ToolResult p of None \<Rightarrow> 0 | Some tr \<Rightarrow> int (length (tr_Content tr))) +
     (case cp_Reasoning p of None \<Rightarrow> 0 | Some r \<Rightarrow> int (length (rs_ProviderData r)))"

definition chat_bytes :: "chat_request \<Rightarrow> int" where
  "chat_bytes req = sum_list (map part_bytes (cr_System req)) +
     sum_list (map (\<lambda>m. sum_list (map part_bytes (m_Content m))) (cr_Messages req)) +
     sum_list (map (\<lambda>t. int (length (td_Name t) + length (td_Description t) + length (td_InputSchema t))) (cr_Tools req))"

lemma sum_list_le: "(\<And>x. x \<in> set xs \<Longrightarrow> f x \<le> 3 * g x) \<Longrightarrow> sum_list (map f xs) \<le> 3 * sum_list (map g xs)"
  for f g :: "'x \<Rightarrow> int"
proof (induction xs)
  case (Cons x xs)
  from Cons.prems [of x] Cons.IH Cons.prems show ?case by (simp add: distrib_left add_mono)
qed simp

lemma part_bytes_covered: "part_bytes p \<le> 3 * tokensForPart p"
proof -
  note c = tokensForText_covers
  have "(case cp_ToolCall p of None \<Rightarrow> 0
      | Some tc \<Rightarrow> int (length (tc_Name tc) + length (tc_Parameters tc) + length (tc_ProviderSignature tc))) \<le>
    3 * (case cp_ToolCall p of None \<Rightarrow> 0
      | Some tc \<Rightarrow> tokensForText (tc_Name tc) + tokensForText (tc_Parameters tc) + tokensForText (tc_ProviderSignature tc))"
  proof (cases "cp_ToolCall p")
    case (Some tc)
    with c [of "tc_Name tc"] c [of "tc_Parameters tc"] c [of "tc_ProviderSignature tc"] show ?thesis by simp
  qed simp
  moreover have "(case cp_ToolResult p of None \<Rightarrow> 0 | Some tr \<Rightarrow> int (length (tr_Content tr))) \<le>
    3 * (case cp_ToolResult p of None \<Rightarrow> 0 | Some tr \<Rightarrow> tokensForText (tr_Content tr))"
    by (cases "cp_ToolResult p") (simp_all add: c)
  moreover have "(case cp_Reasoning p of None \<Rightarrow> 0 | Some r \<Rightarrow> int (length (rs_ProviderData r))) \<le>
    3 * (case cp_Reasoning p of None \<Rightarrow> 0 | Some r \<Rightarrow> tokensForText (rs_ProviderData r))"
    by (cases "cp_Reasoning p") (simp_all add: c)
  ultimately show ?thesis using c [of "cp_Text p"] by (simp add: part_bytes_def tokensForPart_def perPartOverhead_def)
qed

lemma EstimateChat_input:
  "uu_InputTokens (EstimateChat req) = sum_list (map tokensForPart (cr_System req)) +
     sum_list (map (\<lambda>m. sum_list (map tokensForPart (m_Content m))) (cr_Messages req)) +
     sum_list (map tokensForTool (cr_Tools req))"
  by (simp add: EstimateChat_def Let_def foldl_sum tokensForParts_def tokensForPartsFrom_eq)

lemma estimate_covers: "chat_bytes req \<le> 3 * uu_InputTokens (EstimateChat req)"
proof -
  have "int (length (td_Name t) + length (td_Description t) + length (td_InputSchema t)) \<le> 3 * tokensForTool t" for t
    using tokensForText_covers [of "td_Name t"] tokensForText_covers [of "td_Description t"]
      tokensForText_covers [of "td_InputSchema t"] by (simp add: tokensForTool_def)
  then have "sum_list (map (\<lambda>t. int (length (td_Name t) + length (td_Description t) + length (td_InputSchema t))) (cr_Tools req))
      \<le> 3 * sum_list (map tokensForTool (cr_Tools req))" by (intro sum_list_le)
  moreover have "sum_list (map (\<lambda>m. sum_list (map part_bytes (m_Content m))) (cr_Messages req)) \<le>
      3 * sum_list (map (\<lambda>m. sum_list (map tokensForPart (m_Content m))) (cr_Messages req))"
    by (intro sum_list_le part_bytes_covered)
  moreover have "sum_list (map part_bytes (cr_System req)) \<le> 3 * sum_list (map tokensForPart (cr_System req))"
    by (intro sum_list_le part_bytes_covered)
  ultimately show ?thesis by (simp add: chat_bytes_def EstimateChat_input)
qed

lemma part_bytes_nonneg: "0 \<le> part_bytes p"
  by (simp add: part_bytes_def split: option.split)

lemma chat_bytes_nonneg: "0 \<le> chat_bytes req"
  unfolding chat_bytes_def by (intro add_nonneg_nonneg sum_list_nonneg) (auto intro!: sum_list_nonneg part_bytes_nonneg)

section \<open>Properties\<close>

text \<open>
  the default estimate errs on the high side. The input estimate of a chat request is at least a
  third of all the bytes it sends; the tokens it makes a reservation hold are the input estimate
  plus the output budget, saturating and never negative even for a \<open>MaxTokens\<close> of the largest int,
  on exactly one slot; and the per-text estimate is never below the public \<open>EstimateTextTokens\<close>.
\<close>

theorem estimate_errs_high:
  assumes "in_int64 (uu_InputTokens (EstimateChat req))" and "in_int64 (cr_MaxTokens req)"
    and "int (length s) \<le> MaxInt - 4"
  shows "chat_bytes req \<le> 3 * uu_InputTokens (EstimateChat req) \<and>
    Tokens (EstimateChat req) = min MaxInt (uu_InputTokens (EstimateChat req) + uu_OutputTokensMax (EstimateChat req)) \<and>
    1 \<le> uu_OutputTokensMax (EstimateChat req) \<and> Slots (EstimateChat req) = 1 \<and>
    EstimateTextTokens s \<le> tokensForText s"
proof -
  let ?u = "EstimateChat req"
  have out: "1 \<le> uu_OutputTokensMax ?u" "in_int64 (uu_OutputTokensMax ?u)"
    using assms(2) by (auto simp: EstimateChat_def Let_def defaultOutputMax_def go_int_defs)
  have inp: "0 \<le> uu_InputTokens ?u" using estimate_covers [of req] chat_bytes_nonneg [of req] by linarith
  have tot: "uu_TotalTokensMax ?u = Add (uu_InputTokens ?u) (uu_OutputTokensMax ?u)"
    by (simp add: EstimateChat_def Let_def)
  have "Add (uu_InputTokens ?u) (uu_OutputTokensMax ?u) = min MaxInt (uu_InputTokens ?u + uu_OutputTokensMax ?u)"
    using out inp assms(1) by (simp add: Add_eq_clamp clamp64_def MinInt_def MaxInt_def)
  then have "Tokens ?u = min MaxInt (uu_InputTokens ?u + uu_OutputTokensMax ?u)"
    using out inp by (simp add: Tokens_def tot Let_def MaxInt_def)
  moreover have "Slots ?u = 1" by (simp add: Slots_def EstimateChat_def Let_def)
  moreover have "EstimateTextTokens s \<le> tokensForText s"
    using EstimateTextTokens_eq [OF assms(3)] RuneCount_le_length [of s] by (simp add: tokensForText_eq)
  ultimately show ?thesis using out(1) estimate_covers [of req] by blast
qed

theorem estimate_errs_high_witness:
  "Tokens (EstimateChat (zero_request\<lparr>cr_Messages := [UserText ''hello''], cr_MaxTokens := MaxInt\<rparr>)) = MaxInt"
proof -
  let ?req = "zero_request\<lparr>cr_Messages := [UserText ''hello''], cr_MaxTokens := MaxInt\<rparr>"
  have i: "uu_InputTokens (EstimateChat ?req) = 10"
    by (simp add: EstimateChat_input zero_request_def tokensForPart_def tokensForText_eq perPartOverhead_def)
  have o: "uu_OutputTokensMax (EstimateChat ?req) = MaxInt" by (simp add: EstimateChat_def Let_def MaxInt_def)
  from i have "in_int64 (uu_InputTokens (EstimateChat ?req))" by (simp add: in_int64_def MinInt_def MaxInt_def)
  from estimate_errs_high [OF this, of "''x''"] have
    "Tokens (EstimateChat ?req) = min MaxInt (uu_InputTokens (EstimateChat ?req) + uu_OutputTokensMax (EstimateChat ?req))"
    by (simp add: MaxInt_def in_int64_def MinInt_def)
  then show ?thesis unfolding i o by simp
qed

end
