(* ===== verification/Middleware.thy ===== *)
theory Middleware
  imports Retry Circuit Estimator LimiterApi Validation
begin

text \<open>
  The middleware chain of \<open>llms/middleware\<close>: the typed clients, every middleware as a function from
  client to client (\<open>chain.go\<close>, \<open>validation.go\<close>, \<open>retry.go\<close>, \<open>timeout.go\<close>, \<open>circuit.go\<close>, \<open>ratelimit.go\<close>,
  \<open>metrics.go\<close>) and the recommended composition (\<open>recommended.go\<close>). The breaker of a chain and the
  events its observer has received are in the world; the limiter is a \<open>limiter_ops\<close> record over the
  same world, and the provider client at the base is a parameter.
\<close>

section \<open>The world of a chain\<close>

record event =
  ev_Provider :: provider_id
  ev_Model :: string
  ev_Operation :: operation
  ev_Purpose :: purpose
  ev_Err :: "error option"
  ev_Usage :: usage
  ev_Latency :: int

text \<open>An event as delivered: with the context of the call for a \<open>ContextObserver\<close>.\<close>

datatype delivery = Observed event | ObservedContext ctx event

record chain_world = world +
  cw_breaker :: breaker
  cw_events :: "delivery list"

type_synonym ('q, 'p, 'w) api_call = "ctx \<Rightarrow> 'q \<Rightarrow> 'w \<Rightarrow> ('p \<times> error option) \<times> 'w"

record 'w chat_client =
  cc_Model :: model_ref
  cc_Complete :: "(chat_request, chat_response, 'w) api_call"

record 'w embedding_client =
  ec_Model :: model_ref
  ec_DefaultDimensions :: int
  ec_Embed :: "(embedding_request, embedding_response, 'w) api_call"

type_synonym 'w chat_middleware = "'w chat_client \<Rightarrow> 'w chat_client"
type_synonym 'w embedding_middleware = "'w embedding_client \<Rightarrow> 'w embedding_client"

definition ChainChat :: "'w chat_client \<Rightarrow> 'w chat_middleware list \<Rightarrow> 'w chat_client" where
  "ChainChat base mws = foldr (\<lambda>mw c. mw c) mws base"

definition ChainEmbeddings :: "'w embedding_client \<Rightarrow> 'w embedding_middleware list \<Rightarrow> 'w embedding_client" where
  "ChainEmbeddings base mws = foldr (\<lambda>mw c. mw c) mws base"

section \<open>The middlewares\<close>

definition ValidationChat :: "'w chat_middleware" where
  "ValidationChat nxt = nxt\<lparr>cc_Complete := \<lambda>c req w. (case validateChatRequest req of
     Some err \<Rightarrow> ((zero_response, Some err), w)
   | None \<Rightarrow> cc_Complete nxt c req w)\<rparr>"

definition RetryChat :: "retry_config \<Rightarrow> 'a world_scheme chat_middleware" where
  "RetryChat cfg nxt = nxt\<lparr>cc_Complete := \<lambda>c req.
     retry c (retry_normalized cfg) zero_response (\<lambda>c. cc_Complete nxt c req)\<rparr>"

definition RetryEmbeddings :: "retry_config \<Rightarrow> 'a world_scheme embedding_middleware" where
  "RetryEmbeddings cfg nxt = nxt\<lparr>ec_Embed := \<lambda>c req.
     retry c (retry_normalized cfg) zero_embedding_response (\<lambda>c. ec_Embed nxt c req)\<rparr>"

definition withTimeout :: "ctx \<Rightarrow> int \<Rightarrow> (ctx \<Rightarrow> 'a world_scheme \<Rightarrow> ('r \<times> error option) \<times> 'a world_scheme) \<Rightarrow>
    'a world_scheme \<Rightarrow> ('r \<times> error option) \<times> 'a world_scheme" where
  "withTimeout c d call w = (if d \<le> 0 then call c w else call (WithTimeout c d w) w)"

definition TimeoutChat :: "int \<Rightarrow> 'a world_scheme chat_middleware" where
  "TimeoutChat d nxt = nxt\<lparr>cc_Complete := \<lambda>c req. withTimeout c d (\<lambda>c. cc_Complete nxt c req)\<rparr>"

definition TimeoutEmbeddings :: "int \<Rightarrow> 'a world_scheme embedding_middleware" where
  "TimeoutEmbeddings d nxt = nxt\<lparr>ec_Embed := \<lambda>c req. withTimeout c d (\<lambda>c. ec_Embed nxt c req)\<rparr>"

definition guarded :: "'r \<Rightarrow> ('a chain_world_scheme \<Rightarrow> ('r \<times> error option) \<times> 'a chain_world_scheme) \<Rightarrow>
    'a chain_world_scheme \<Rightarrow> ('r \<times> error option) \<times> 'a chain_world_scheme" where
  "guarded zero call w = (case allow (w_clock w) (cw_breaker w) of
     (Some err, b) \<Rightarrow> ((zero, Some err), w\<lparr>cw_breaker := b\<rparr>)
   | (None, b) \<Rightarrow> (case call (w\<lparr>cw_breaker := b\<rparr>) of ((resp, err), w) \<Rightarrow>
       ((resp, err), w\<lparr>cw_breaker := record_result (w_clock w) err (cw_breaker w)\<rparr>)))"

text \<open>\<open>CircuitChat\<close> and \<open>CircuitEmbeddings\<close> create the breaker, \<open>new_breaker cfg (Model next)\<close>: the
  world a chain starts in holds it.\<close>

definition CircuitChat :: "circuit_config \<Rightarrow> 'a chain_world_scheme chat_middleware" where
  "CircuitChat cfg nxt = nxt\<lparr>cc_Complete := \<lambda>c req. guarded zero_response (cc_Complete nxt c req)\<rparr>"

definition CircuitEmbeddings :: "circuit_config \<Rightarrow> 'a chain_world_scheme embedding_middleware" where
  "CircuitEmbeddings cfg nxt = nxt\<lparr>ec_Embed := \<lambda>c req. guarded zero_embedding_response (ec_Embed nxt c req)\<rparr>"

definition no_subject :: subject where
  "no_subject = \<lparr>sj_TenantID = [], sj_UserID = [], sj_JobID = []\<rparr>"

definition RateLimitChat :: "('h, 'w) limiter_ops \<Rightarrow> token_estimator option \<Rightarrow> 'w chat_middleware" where
  "RateLimitChat limiter est nxt =
     (let est = estimatorOrDefault est; m = cc_Model nxt in
      nxt\<lparr>cc_Complete := \<lambda>c req. reserved c limiter
        \<lparr>rr_Provider = mr_Provider m, rr_Model = mr_Name m, rr_Operation = OperationChat, rr_Purpose = cr_Purpose req,
         rr_Metadata = cr_Metadata req, rr_Subject = no_subject, rr_EstimatedUnits = te_EstimateChat est req\<rparr>
        zero_response (\<lambda>c. cc_Complete nxt c req) rsp_Usage\<rparr>)"

definition RateLimitEmbeddings :: "('h, 'w) limiter_ops \<Rightarrow> token_estimator option \<Rightarrow> 'w embedding_middleware" where
  "RateLimitEmbeddings limiter est nxt =
     (let est = estimatorOrDefault est; m = ec_Model nxt in
      nxt\<lparr>ec_Embed := \<lambda>c req. reserved c limiter
        \<lparr>rr_Provider = mr_Provider m, rr_Model = mr_Name m, rr_Operation = OperationEmbedding, rr_Purpose = er_Purpose req,
         rr_Metadata = er_Metadata req, rr_Subject = no_subject, rr_EstimatedUnits = te_EstimateEmbeddings est req\<rparr>
        zero_embedding_response (\<lambda>c. ec_Embed nxt c req) ersp_Usage\<rparr>)"

text \<open>An observer either has only \<open>Observe\<close> or is a \<open>ContextObserver\<close> too; \<open>emitter\<close> delivers
  an event accordingly.\<close>

datatype observer = PlainObserver | ContextObserver

definition emitter :: "observer \<Rightarrow> ctx \<Rightarrow> event \<Rightarrow> 'a chain_world_scheme \<Rightarrow> 'a chain_world_scheme" where
  "emitter obs c ev w = w\<lparr>cw_events := cw_events w @
     [case obs of ContextObserver \<Rightarrow> ObservedContext c ev | PlainObserver \<Rightarrow> Observed ev]\<rparr>"

definition observed :: "ctx \<Rightarrow> observer \<Rightarrow> model_ref \<Rightarrow> operation \<Rightarrow> purpose \<Rightarrow> ('r \<Rightarrow> usage) \<Rightarrow>
    (ctx \<Rightarrow> 'a chain_world_scheme \<Rightarrow> ('r \<times> error option) \<times> 'a chain_world_scheme) \<Rightarrow>
    'a chain_world_scheme \<Rightarrow> ('r \<times> error option) \<times> 'a chain_world_scheme" where
  "observed c obs m op purp usageOf call w =
     (let start = w_clock w in
      case call c w of ((resp, err), w) \<Rightarrow>
        let ev = \<lparr>ev_Provider = mr_Provider m, ev_Model = mr_Name m, ev_Operation = op, ev_Purpose = purp,
                  ev_Err = err, ev_Usage = (if err = None then usageOf resp else zero_usage),
                  ev_Latency = time_sub (w_clock w) start\<rparr>
        in ((resp, err), emitter obs c ev w))"

definition MetricsChat :: "observer option \<Rightarrow> 'a chain_world_scheme chat_middleware" where
  "MetricsChat obs nxt = (case obs of None \<Rightarrow> nxt
   | Some obs \<Rightarrow> nxt\<lparr>cc_Complete := \<lambda>c req.
       observed c obs (cc_Model nxt) OperationChat (cr_Purpose req) rsp_Usage (\<lambda>c. cc_Complete nxt c req)\<rparr>)"

definition MetricsEmbeddings :: "observer option \<Rightarrow> 'a chain_world_scheme embedding_middleware" where
  "MetricsEmbeddings obs nxt = (case obs of None \<Rightarrow> nxt
   | Some obs \<Rightarrow> nxt\<lparr>ec_Embed := \<lambda>c req.
       observed c obs (ec_Model nxt) OperationEmbedding (er_Purpose req) ersp_Usage (\<lambda>c. ec_Embed nxt c req)\<rparr>)"

section \<open>The recommended chain\<close>

record ('h, 'w) recommended_config =
  rc_Limiter :: "('h, 'w) limiter_ops option"
  rc_Estimator :: "token_estimator option"
  rc_Observer :: "observer option"
  rc_Retry :: "retry_config option"
  rc_Circuit :: circuit_config
  rc_Timeout :: int

definition RecommendedChat :: "('h, 'a chain_world_scheme) recommended_config \<Rightarrow> 'a chain_world_scheme chat_middleware" where
  "RecommendedChat cfg base =
     (let mws = [ValidationChat, RetryChat (retryOrDefault (rc_Retry cfg))];
          mws = (if rc_Timeout cfg > 0 then mws @ [TimeoutChat (rc_Timeout cfg)] else mws);
          mws = mws @ [CircuitChat (rc_Circuit cfg)];
          mws = (case rc_Limiter cfg of None \<Rightarrow> mws | Some l \<Rightarrow> mws @ [RateLimitChat l (rc_Estimator cfg)]);
          mws = (case rc_Observer cfg of None \<Rightarrow> mws | Some obs \<Rightarrow> mws @ [MetricsChat (Some obs)])
      in ChainChat base mws)"

definition RecommendedEmbeddings :: "('h, 'a chain_world_scheme) recommended_config \<Rightarrow> 'a chain_world_scheme embedding_middleware" where
  "RecommendedEmbeddings cfg base =
     (let mws = [RetryEmbeddings (retryOrDefault (rc_Retry cfg))];
          mws = (if rc_Timeout cfg > 0 then mws @ [TimeoutEmbeddings (rc_Timeout cfg)] else mws);
          mws = mws @ [CircuitEmbeddings (rc_Circuit cfg)];
          mws = (case rc_Limiter cfg of None \<Rightarrow> mws | Some l \<Rightarrow> mws @ [RateLimitEmbeddings l (rc_Estimator cfg)]);
          mws = (case rc_Observer cfg of None \<Rightarrow> mws | Some obs \<Rightarrow> mws @ [MetricsEmbeddings (Some obs)])
      in ChainEmbeddings base mws)"

end
