(* ===== verification/Chain.thy ===== *)
theory Chain
  imports Middleware
begin

text \<open>
  What the recommended chain guarantees: its order, that a malformed request and an open circuit stop
  a call before anything else happens, that every provider attempt is reported exactly once and
  their number is bounded by the retry policy. The accounting is proved once for the generic
  functions under the middlewares (\<open>observed\<close>, \<open>reserved\<close>, \<open>guarded\<close>, \<open>withTimeout\<close>, \<open>retry\<close>) and holds
  for the chat and the embedding chain alike.
\<close>

section \<open>Order\<close>

text \<open>One attempt of the chain: everything inside retry.\<close>

definition attempt_chat :: "('h, 'a chain_world_scheme) recommended_config \<Rightarrow> 'a chain_world_scheme chat_middleware" where
  "attempt_chat cfg base =
     (if rc_Timeout cfg > 0 then TimeoutChat (rc_Timeout cfg) else id)
       (CircuitChat (rc_Circuit cfg)
         ((case rc_Limiter cfg of None \<Rightarrow> id | Some l \<Rightarrow> RateLimitChat l (rc_Estimator cfg))
           (MetricsChat (rc_Observer cfg) base)))"

definition attempt_embeddings :: "('h, 'a chain_world_scheme) recommended_config \<Rightarrow> 'a chain_world_scheme embedding_middleware" where
  "attempt_embeddings cfg base =
     (if rc_Timeout cfg > 0 then TimeoutEmbeddings (rc_Timeout cfg) else id)
       (CircuitEmbeddings (rc_Circuit cfg)
         ((case rc_Limiter cfg of None \<Rightarrow> id | Some l \<Rightarrow> RateLimitEmbeddings l (rc_Estimator cfg))
           (MetricsEmbeddings (rc_Observer cfg) base)))"

lemma RecommendedChat_order:
  "RecommendedChat cfg base = ValidationChat (RetryChat (retryOrDefault (rc_Retry cfg)) (attempt_chat cfg base))"
  by (simp add: RecommendedChat_def ChainChat_def attempt_chat_def MetricsChat_def Let_def split: option.split)

lemma RecommendedEmbeddings_order:
  "RecommendedEmbeddings cfg base = RetryEmbeddings (retryOrDefault (rc_Retry cfg)) (attempt_embeddings cfg base)"
  by (simp add: RecommendedEmbeddings_def ChainEmbeddings_def attempt_embeddings_def MetricsEmbeddings_def Let_def
      split: option.split)

section \<open>Accounting\<close>

text \<open>\<open>calls\<close> counts the provider calls in the part of the world outside the chain. A step of the
  chain makes at most one and delivers as many events.\<close>

definition outside :: "('a chain_world_scheme \<Rightarrow> int) \<Rightarrow> bool" where
  "outside calls \<longleftrightarrow> (\<forall>w w'. chain_world.more w = chain_world.more w' \<longrightarrow> calls w = calls w')"

definition silent :: "('a chain_world_scheme \<Rightarrow> int) \<Rightarrow> 'a chain_world_scheme \<Rightarrow> 'a chain_world_scheme \<Rightarrow> bool" where
  "silent calls w w' \<longleftrightarrow> calls w' = calls w \<and> length (cw_events w') = length (cw_events w)"

definition reported :: "('a chain_world_scheme \<Rightarrow> int) \<Rightarrow> 'a chain_world_scheme \<Rightarrow> 'a chain_world_scheme \<Rightarrow> bool" where
  "reported calls w w' \<longleftrightarrow>
     int (length (cw_events w')) - int (length (cw_events w)) = calls w' - calls w \<and> calls w \<le> calls w'"

definition one_call :: "('a chain_world_scheme \<Rightarrow> int) \<Rightarrow> 'a chain_world_scheme \<Rightarrow> 'a chain_world_scheme \<Rightarrow> bool" where
  "one_call calls w w' \<longleftrightarrow> reported calls w w' \<and> calls w' \<le> calls w + 1"

definition quiet_limiter :: "('a chain_world_scheme \<Rightarrow> int) \<Rightarrow> ('h, 'a chain_world_scheme) limiter_ops \<Rightarrow> bool" where
  "quiet_limiter calls l \<longleftrightarrow>
     (\<forall>c rr w r w'. op_Reserve l c rr w = (r, w') \<longrightarrow> silent calls w w') \<and>
     (\<forall>c h u w r w'. op_Commit l c h u w = (r, w') \<longrightarrow> silent calls w w') \<and>
     (\<forall>c h w r w'. op_Release l c h w = (r, w') \<longrightarrow> silent calls w w')"

lemma one_call_silent:
  "one_call calls w w1 \<Longrightarrow> silent calls w1 w2 \<Longrightarrow> one_call calls w w2"
  "silent calls w w1 \<Longrightarrow> one_call calls w1 w2 \<Longrightarrow> one_call calls w w2"
  by (simp_all add: one_call_def silent_def reported_def)

lemma silent_one_call: "silent calls w w' \<Longrightarrow> one_call calls w w'"
  by (simp add: one_call_def silent_def reported_def)

lemma outsideD: "outside calls \<Longrightarrow> chain_world.more w = chain_world.more w' \<Longrightarrow> calls w = calls w'"
  unfolding outside_def by blast

lemma silent_breaker: "outside calls \<Longrightarrow> silent calls w (w\<lparr>cw_breaker := b\<rparr>)"
  using outsideD [of calls "w\<lparr>cw_breaker := b\<rparr>" w] by (simp add: silent_def)

lemma silent_more:
  assumes "outside calls" and "world.more w = world.more w'"
  shows "silent calls w w'"
proof -
  have "cw_events w = cw_events w' \<and> chain_world.more w = chain_world.more w'"
    using assms(2) by (cases w; cases w') simp
  with outsideD [OF assms(1), of w' w] show ?thesis by (simp add: silent_def)
qed

lemma observed_one_call:
  assumes "outside calls" and "\<And>r w'. call c w = (r, w') \<Longrightarrow> calls w' = calls w + 1 \<and> cw_events w' = cw_events w"
    and "observed c obs m op p usageOf call w = (r, w')"
  shows "one_call calls w w'"
proof -
  obtain resp err w1 where c: "call c w = ((resp, err), w1)" by (metis prod.exhaust)
  obtain ev where w': "w' = emitter obs c ev w1" using assms(3) c by (auto simp: observed_def Let_def)
  have "calls w' = calls w1" by (rule outsideD [OF assms(1)]) (simp add: w' emitter_def)
  moreover have "length (cw_events w') = Suc (length (cw_events w1))" by (simp add: w' emitter_def)
  ultimately show ?thesis using assms(2) [OF c] by (simp add: one_call_def reported_def)
qed

lemma reserved_one_call:
  assumes "quiet_limiter calls l" and "\<And>w r w'. call c w = (r, w') \<Longrightarrow> one_call calls w w'"
    and "reserved c l rr zero call usageOf w = (r, w')"
  shows "one_call calls w w'"
proof -
  obtain resp err where r: "r = (resp, err)" by (cases r)
  note q = assms(1) [unfolded quiet_limiter_def]
  from assms(3) [unfolded r] show ?thesis
  proof (cases rule: reserved_cases)
    case (rejected e)
    with q show ?thesis by (blast intro: silent_one_call)
  next
    case (committed h w1 w2 e3 w3 e4)
    with q have "silent calls w w1" "silent calls w2 w3" "silent calls w3 w'" by blast+
    with assms(2) [OF committed(2)] one_call_silent show ?thesis by blast
  next
    case (uncommitted h w1 w2 e4)
    with q have "silent calls w w1" "silent calls w2 w'" by blast+
    with assms(2) [OF uncommitted(2)] one_call_silent show ?thesis by blast
  qed
qed

lemma guarded_one_call:
  assumes "outside calls" and "\<And>w r w'. call w = (r, w') \<Longrightarrow> one_call calls w w'"
    and "guarded zero call w = (r, w')"
  shows "one_call calls w w'"
proof -
  obtain e b where a: "allow (w_clock w) (cw_breaker w) = (e, b)" by (metis prod.exhaust)
  show ?thesis
  proof (cases e)
    case (Some err)
    with assms(3) a have "w' = w\<lparr>cw_breaker := b\<rparr>" by (simp add: guarded_def)
    with silent_breaker [OF assms(1)] show ?thesis by (simp add: silent_one_call)
  next
    case None
    obtain resp err w1 where c: "call (w\<lparr>cw_breaker := b\<rparr>) = ((resp, err), w1)" by (metis prod.exhaust)
    with assms(3) a None obtain b' where "w' = w1\<lparr>cw_breaker := b'\<rparr>" by (auto simp: guarded_def)
    with assms(2) [OF c] silent_breaker [OF assms(1)] one_call_silent show ?thesis by blast
  qed
qed

lemma withTimeout_one_call:
  assumes "\<And>c w r w'. call c w = (r, w') \<Longrightarrow> one_call calls w w'" and "withTimeout c d call w = (r, w')"
  shows "one_call calls w w'"
  using assms by (auto simp: withTimeout_def split: if_splits)

lemma retry_loop_reported:
  assumes out: "outside calls" and call: "\<And>c w r w'. call c w = (r, w') \<Longrightarrow> one_call calls w w'"
  shows "attempt \<le> MaxAttempts cfg \<Longrightarrow> retry_loop c cfg zero call attempt delay w = (re, w') \<Longrightarrow>
     reported calls w w' \<and> calls w' \<le> calls w + (MaxAttempts cfg - attempt + 1)"
proof (induction "nat (MaxAttempts cfg - attempt)" arbitrary: attempt delay w rule: less_induct)
  case less
  have quiet: "silent calls w1 w3" if "jittered x f w1 = (wait, w2)" and "sleep_or_done c wait w2 = (b, w3)"
    for x f w1 wait w2 b w3
    by (rule silent_more [OF out]) (use jittered_frame [OF that(1)] sleep_frame [OF that(2)] in simp)
  from less.prems show ?case
  proof (cases rule: retry_loop_cases)
    case stop
    from call [OF stop(1)] less.prems(1) show ?thesis by (simp add: one_call_def)
  next
    case (ended r1 e1 w1 wait w2)
    from call [OF ended(1)] quiet [OF ended(3,4)] ended(2) show ?thesis
      by (simp add: one_call_def silent_def reported_def)
  next
    case (again r1 e1 w1 wait w2 w3)
    from less.hyps [OF _ _ again(5)] again(2)
    have "reported calls w3 w' \<and> calls w' \<le> calls w3 + (MaxAttempts cfg - (attempt + 1) + 1)" by simp
    with call [OF again(1)] quiet [OF again(3,4)] show ?thesis
      by (simp add: one_call_def silent_def reported_def)
  qed
qed

text \<open>A provider client that counts its calls, makes exactly one per call and leaves the chain's events alone.\<close>

definition counting_chat :: "('a chain_world_scheme \<Rightarrow> int) \<Rightarrow> 'a chain_world_scheme chat_client \<Rightarrow> bool" where
  "counting_chat calls base \<longleftrightarrow> (\<forall>c req w r w'. cc_Complete base c req w = (r, w') \<longrightarrow>
     calls w' = calls w + 1 \<and> cw_events w' = cw_events w)"

definition counting_embeddings :: "('a chain_world_scheme \<Rightarrow> int) \<Rightarrow> 'a chain_world_scheme embedding_client \<Rightarrow> bool" where
  "counting_embeddings calls base \<longleftrightarrow> (\<forall>c req w r w'. ec_Embed base c req w = (r, w') \<longrightarrow>
     calls w' = calls w + 1 \<and> cw_events w' = cw_events w)"

lemma attempt_chat_one_call:
  assumes out: "outside calls" and base: "counting_chat calls base" and obs: "rc_Observer cfg = Some obs"
    and lim: "\<And>l. rc_Limiter cfg = Some l \<Longrightarrow> quiet_limiter calls l"
  shows "cc_Complete (attempt_chat cfg base) c req w = (r, w') \<Longrightarrow> one_call calls w w'"
proof -
  have m: "one_call calls w w'" if "cc_Complete (MetricsChat (rc_Observer cfg) base) c req w = (r, w')" for c w r w'
  proof -
    have "calls w2 = calls w1 + 1 \<and> cw_events w2 = cw_events w1" if "cc_Complete base c req w1 = (x, w2)" for w1 x w2
      using base that unfolding counting_chat_def by blast
    from observed_one_call [OF out this] that obs show ?thesis by (simp add: MetricsChat_def)
  qed
  have r: "one_call calls w w'" if "cc_Complete ((case rc_Limiter cfg of None \<Rightarrow> id | Some l \<Rightarrow> RateLimitChat l (rc_Estimator cfg))
      (MetricsChat (rc_Observer cfg) base)) c req w = (r, w')" for c w r w'
  proof (cases "rc_Limiter cfg")
    case None
    with that m show ?thesis by simp
  next
    case (Some l)
    with that reserved_one_call [OF lim [OF Some] m] show ?thesis by (simp add: RateLimitChat_def Let_def)
  qed
  have g: "one_call calls w w'" if "cc_Complete (CircuitChat (rc_Circuit cfg) ((case rc_Limiter cfg of None \<Rightarrow> id
      | Some l \<Rightarrow> RateLimitChat l (rc_Estimator cfg)) (MetricsChat (rc_Observer cfg) base))) c req w = (r, w')" for c w r w'
    using that guarded_one_call [OF out r] by (simp add: CircuitChat_def)
  assume run: "cc_Complete (attempt_chat cfg base) c req w = (r, w')"
  show ?thesis
  proof (cases "rc_Timeout cfg > 0")
    case True
    with run have "withTimeout c (rc_Timeout cfg) (\<lambda>c. cc_Complete (CircuitChat (rc_Circuit cfg) ((case rc_Limiter cfg of None \<Rightarrow> id
      | Some l \<Rightarrow> RateLimitChat l (rc_Estimator cfg)) (MetricsChat (rc_Observer cfg) base))) c req) w = (r, w')"
      by (simp add: attempt_chat_def TimeoutChat_def)
    then show ?thesis by (rule withTimeout_one_call [rotated]) (rule g)
  next
    case False
    with run g show ?thesis by (simp add: attempt_chat_def)
  qed
qed

lemma attempt_embeddings_one_call:
  assumes out: "outside calls" and base: "counting_embeddings calls base" and obs: "rc_Observer cfg = Some obs"
    and lim: "\<And>l. rc_Limiter cfg = Some l \<Longrightarrow> quiet_limiter calls l"
  shows "ec_Embed (attempt_embeddings cfg base) c req w = (r, w') \<Longrightarrow> one_call calls w w'"
proof -
  have m: "one_call calls w w'" if "ec_Embed (MetricsEmbeddings (rc_Observer cfg) base) c req w = (r, w')" for c w r w'
  proof -
    have "calls w2 = calls w1 + 1 \<and> cw_events w2 = cw_events w1" if "ec_Embed base c req w1 = (x, w2)" for w1 x w2
      using base that unfolding counting_embeddings_def by blast
    from observed_one_call [OF out this] that obs show ?thesis by (simp add: MetricsEmbeddings_def)
  qed
  have r: "one_call calls w w'" if "ec_Embed ((case rc_Limiter cfg of None \<Rightarrow> id | Some l \<Rightarrow> RateLimitEmbeddings l (rc_Estimator cfg))
      (MetricsEmbeddings (rc_Observer cfg) base)) c req w = (r, w')" for c w r w'
  proof (cases "rc_Limiter cfg")
    case None
    with that m show ?thesis by simp
  next
    case (Some l)
    with that reserved_one_call [OF lim [OF Some] m] show ?thesis by (simp add: RateLimitEmbeddings_def Let_def)
  qed
  have g: "one_call calls w w'" if "ec_Embed (CircuitEmbeddings (rc_Circuit cfg) ((case rc_Limiter cfg of None \<Rightarrow> id
      | Some l \<Rightarrow> RateLimitEmbeddings l (rc_Estimator cfg)) (MetricsEmbeddings (rc_Observer cfg) base))) c req w = (r, w')" for c w r w'
    using that guarded_one_call [OF out r] by (simp add: CircuitEmbeddings_def)
  assume run: "ec_Embed (attempt_embeddings cfg base) c req w = (r, w')"
  show ?thesis
  proof (cases "rc_Timeout cfg > 0")
    case True
    with run have "withTimeout c (rc_Timeout cfg) (\<lambda>c. ec_Embed (CircuitEmbeddings (rc_Circuit cfg) ((case rc_Limiter cfg of None \<Rightarrow> id
      | Some l \<Rightarrow> RateLimitEmbeddings l (rc_Estimator cfg)) (MetricsEmbeddings (rc_Observer cfg) base))) c req) w = (r, w')"
      by (simp add: attempt_embeddings_def TimeoutEmbeddings_def)
    then show ?thesis by (rule withTimeout_one_call [rotated]) (rule g)
  next
    case False
    with run g show ?thesis by (simp add: attempt_embeddings_def)
  qed
qed

section \<open>Properties\<close>

text \<open>
  C35: every provider attempt of the recommended chat chain is reported to the observer exactly once,
  whatever fails; nothing else is reported; and a call makes at most \<open>MaxAttempts\<close> attempts, none
  for an invalid request.
\<close>

theorem recommended_chat_reports_attempts:
  assumes "outside calls" and "counting_chat calls base" and "rc_Observer cfg = Some obs"
    and "\<And>l. rc_Limiter cfg = Some l \<Longrightarrow> quiet_limiter calls l"
    and "cc_Complete (RecommendedChat cfg base) c req w = (r, w')"
  shows "int (length (cw_events w')) - int (length (cw_events w)) = calls w' - calls w \<and> calls w \<le> calls w' \<and>
    calls w' \<le> calls w + (if validateChatRequest req = None then MaxAttempts (retry_normalized (retryOrDefault (rc_Retry cfg))) else 0)"
proof (cases "validateChatRequest req")
  case (Some e)
  with assms(5) show ?thesis by (simp add: RecommendedChat_order ValidationChat_def)
next
  case None
  let ?cfg = "retry_normalized (retryOrDefault (rc_Retry cfg))"
  have one: "one_call calls w1 w2" if "cc_Complete (attempt_chat cfg base) c1 req w1 = (x, w2)" for c1 w1 x w2
    by (rule attempt_chat_one_call [OF assms(1-4) that])
  have max: "1 \<le> MaxAttempts ?cfg" using retry_normalized_ok by blast
  have loop: "retry_loop c ?cfg zero_response (\<lambda>c. cc_Complete (attempt_chat cfg base) c req) 1 (InitialDelay ?cfg) w = (r, w')"
    using assms(5) None by (simp add: RecommendedChat_order ValidationChat_def RetryChat_def retry_def)
  have "reported calls w w' \<and> calls w' \<le> calls w + (MaxAttempts ?cfg - 1 + 1)"
    by (rule retry_loop_reported [OF assms(1) _ max loop]) (rule one)
  with None show ?thesis by (simp add: reported_def)
qed

record counted_world = chain_world +
  kw_calls :: int

definition failing_chat :: "counted_world chat_client" where
  "failing_chat = \<lparr>cc_Model = \<lparr>mr_Provider = ''openai'', mr_Name = ''m''\<rparr>,
     cc_Complete = (\<lambda>c req w. ((zero_response, Some timeout_error), w\<lparr>kw_calls := kw_calls w + 1\<rparr>))\<rparr>"

definition free_limiter :: "(unit, 'w) limiter_ops" where
  "free_limiter = \<lparr>op_Reserve = (\<lambda>c rr w. (Inr (), w)), op_Commit = (\<lambda>c h u w. (None, w)),
     op_Release = (\<lambda>c h w. (None, w))\<rparr>"

definition plain_config :: "(unit, counted_world) recommended_config" where
  "plain_config = \<lparr>rc_Limiter = Some free_limiter, rc_Estimator = None, rc_Observer = Some PlainObserver,
     rc_Retry = None, rc_Circuit = DefaultCircuitConfig, rc_Timeout = 7\<rparr>"

definition counted_start :: counted_world where
  "counted_start = \<lparr>w_clock = 0, w_tie = (\<lambda>_. False), w_rand = (\<lambda>_. 0), w_draws = 0, w_oob = (\<lambda>_. MinInt),
     cw_breaker = new_breaker DefaultCircuitConfig \<lparr>mr_Provider = ''openai'', mr_Name = ''m''\<rparr>, cw_events = [],
     kw_calls = 0\<rparr>"

lemma outside_calls: "outside (kw_calls :: counted_world \<Rightarrow> int)"
  unfolding outside_def
proof (intro allI impI)
  fix w w' :: counted_world
  assume "chain_world.more w = chain_world.more w'"
  then show "kw_calls w = kw_calls w'" by (cases w; cases w') simp
qed

lemma free_limiter_quiet: "quiet_limiter calls free_limiter"
  by (simp add: quiet_limiter_def free_limiter_def silent_def)

theorem recommended_chat_reports_attempts_witness:
  "int (length (cw_events (snd (cc_Complete (RecommendedChat plain_config failing_chat) background
       (zero_request\<lparr>cr_Messages := [UserText ''hi'']\<rparr>) counted_start)))) =
   kw_calls (snd (cc_Complete (RecommendedChat plain_config failing_chat) background
       (zero_request\<lparr>cr_Messages := [UserText ''hi'']\<rparr>) counted_start))"
proof -
  obtain r w' where run: "cc_Complete (RecommendedChat plain_config failing_chat) background
       (zero_request\<lparr>cr_Messages := [UserText ''hi'']\<rparr>) counted_start = (r, w')" by (metis prod.exhaust)
  have base: "counting_chat kw_calls failing_chat" by (auto simp: counting_chat_def failing_chat_def)
  have "rc_Observer plain_config = Some PlainObserver" by (simp add: plain_config_def)
  moreover have "quiet_limiter kw_calls l" if "rc_Limiter plain_config = Some l" for l
    using that free_limiter_quiet by (simp add: plain_config_def)
  ultimately have "int (length (cw_events w')) - int (length (cw_events counted_start)) = kw_calls w' - kw_calls counted_start"
    using recommended_chat_reports_attempts [OF outside_calls base _ _ run] by blast
  then show ?thesis using run by (simp add: counted_start_def)
qed

text \<open>
  the embedding chain likewise reports every attempt exactly once and makes at most
  \<open>MaxAttempts\<close> of them.
\<close>

theorem recommended_embeddings_reports_attempts:
  assumes "outside calls" and "counting_embeddings calls base" and "rc_Observer cfg = Some obs"
    and "\<And>l. rc_Limiter cfg = Some l \<Longrightarrow> quiet_limiter calls l"
    and "ec_Embed (RecommendedEmbeddings cfg base) c req w = (r, w')"
  shows "int (length (cw_events w')) - int (length (cw_events w)) = calls w' - calls w \<and> calls w \<le> calls w' \<and>
    calls w' \<le> calls w + MaxAttempts (retry_normalized (retryOrDefault (rc_Retry cfg)))"
proof -
  let ?cfg = "retry_normalized (retryOrDefault (rc_Retry cfg))"
  have one: "one_call calls w1 w2" if "ec_Embed (attempt_embeddings cfg base) c1 req w1 = (x, w2)" for c1 w1 x w2
    by (rule attempt_embeddings_one_call [OF assms(1-4) that])
  have max: "1 \<le> MaxAttempts ?cfg" using retry_normalized_ok by blast
  have loop: "retry_loop c ?cfg zero_embedding_response (\<lambda>c. ec_Embed (attempt_embeddings cfg base) c req) 1 (InitialDelay ?cfg) w = (r, w')"
    using assms(5) by (simp add: RecommendedEmbeddings_order RetryEmbeddings_def retry_def)
  have "reported calls w w' \<and> calls w' \<le> calls w + (MaxAttempts ?cfg - 1 + 1)"
    by (rule retry_loop_reported [OF assms(1) _ max loop]) (rule one)
  then show ?thesis by (simp add: reported_def)
qed

definition failing_embedder :: "counted_world embedding_client" where
  "failing_embedder = \<lparr>ec_Model = \<lparr>mr_Provider = ''openai'', mr_Name = ''m''\<rparr>, ec_DefaultDimensions = 3,
     ec_Embed = (\<lambda>c req w. ((zero_embedding_response, Some timeout_error), w\<lparr>kw_calls := kw_calls w + 1\<rparr>))\<rparr>"

theorem recommended_embeddings_reports_attempts_witness:
  "kw_calls (snd (ec_Embed (RecommendedEmbeddings plain_config failing_embedder) background
       \<lparr>er_Inputs = [], er_Purpose = [], er_Dimensions = 0, er_Task = [], er_Metadata = Map.empty\<rparr> counted_start)) \<le> 5"
proof -
  obtain r w' where run: "ec_Embed (RecommendedEmbeddings plain_config failing_embedder) background
       \<lparr>er_Inputs = [], er_Purpose = [], er_Dimensions = 0, er_Task = [], er_Metadata = Map.empty\<rparr> counted_start = (r, w')"
    by (metis prod.exhaust)
  have base: "counting_embeddings kw_calls failing_embedder" by (auto simp: counting_embeddings_def failing_embedder_def)
  have "rc_Observer plain_config = Some PlainObserver" by (simp add: plain_config_def)
  moreover have "quiet_limiter kw_calls l" if "rc_Limiter plain_config = Some l" for l
    using that free_limiter_quiet by (simp add: plain_config_def)
  ultimately have "kw_calls w' \<le> kw_calls counted_start + MaxAttempts (retry_normalized (retryOrDefault (rc_Retry plain_config)))"
    using recommended_embeddings_reports_attempts [OF outside_calls base _ _ run] by blast
  then show ?thesis
    using run by (simp add: counted_start_def plain_config_def retryOrDefault_def retry_normalized_sel DefaultRetryConfig_def)
qed

text \<open>
  C40: a structurally invalid chat request never leaves the chain. It comes back as a
  \<open>ValidationError\<close>, which is not retryable, with the world untouched: no attempt, no backoff, no
  reservation, no circuit change, no event.
\<close>

theorem invalid_request_goes_nowhere:
  assumes "validateChatRequest req \<noteq> None"
  shows "\<exists>reason. cc_Complete (RecommendedChat cfg base) c req w = ((zero_response, Some (ValidationError reason)), w) \<and>
    \<not> Retryable (Some (ValidationError reason))"
proof -
  obtain e where e: "validateChatRequest req = Some e" using assms by blast
  then obtain reason where "e = ValidationError reason"
    by (auto simp: validateChatRequest_def ValidateMessages_def split: option.splits sum.splits if_splits)
  with e show ?thesis by (simp add: RecommendedChat_order ValidationChat_def)
qed

theorem invalid_request_goes_nowhere_witness:
  "\<exists>reason. cc_Complete (RecommendedChat plain_config failing_chat) background zero_request counted_start =
     ((zero_response, Some (ValidationError reason)), counted_start)"
  using invalid_request_goes_nowhere [of zero_request plain_config failing_chat background counted_start]
  by (auto simp: validateChatRequest_def ValidateMessages_def zero_request_def)

text \<open>
  while the circuit is open the recommended chain fails fast. A valid call returns the
  \<open>CircuitOpenError\<close> at once, after one refused attempt: no reservation is made, the provider is not
  called, nothing is reported, no time passes and the breaker does not change, whatever the retry
  policy, because the error is not retryable.
\<close>

theorem open_circuit_fails_fast:
  assumes "validateChatRequest req = None" and "b_state (cw_breaker w) = stateOpen"
    and "0 < go_sub (OpenTimeout (b_cfg (cw_breaker w))) (time_sub (w_clock w) (b_openedAt (cw_breaker w)))"
  shows "\<exists>remaining. 0 < remaining \<and> cc_Complete (RecommendedChat cfg base) c req w =
    ((zero_response, Some (CircuitOpenError (b_provider (cw_breaker w)) (b_model (cw_breaker w)) remaining)), w)"
proof -
  let ?rem = "go_sub (OpenTimeout (b_cfg (cw_breaker w))) (time_sub (w_clock w) (b_openedAt (cw_breaker w)))"
  let ?err = "CircuitOpenError (b_provider (cw_breaker w)) (b_model (cw_breaker w)) ?rem"
  let ?cfg = "retry_normalized (retryOrDefault (rc_Retry cfg))"
  have "allow (w_clock w) (cw_breaker w) = (Some ?err, cw_breaker w)" using assms(2,3) by (simp add: allow_def)
  then have g: "guarded zero_response call w = ((zero_response, Some ?err), w)" for call
    by (simp add: guarded_def)
  have att: "cc_Complete (attempt_chat cfg base) c1 req w = ((zero_response, Some ?err), w)" for c1
    by (simp add: attempt_chat_def TimeoutChat_def withTimeout_def CircuitChat_def g)
  have "1 \<le> MaxAttempts ?cfg" using retry_normalized_ok by blast
  then have "retry c ?cfg zero_response (\<lambda>c. cc_Complete (attempt_chat cfg base) c req) w = ((zero_response, Some ?err), w)"
    by (simp add: retry_def retry_loop.simps att)
  then show ?thesis using assms(1,3)
    by (auto simp: RecommendedChat_order ValidationChat_def RetryChat_def)
qed

theorem open_circuit_fails_fast_witness:
  "\<exists>remaining. cc_Complete (RecommendedChat plain_config failing_chat) background
       (zero_request\<lparr>cr_Messages := [UserText ''hi'']\<rparr>)
       (counted_start\<lparr>cw_breaker := trip 0 (cw_breaker counted_start)\<rparr>) =
     ((zero_response, Some (CircuitOpenError ''openai'' ''m'' remaining)),
      counted_start\<lparr>cw_breaker := trip 0 (cw_breaker counted_start)\<rparr>)"
proof -
  let ?w = "counted_start\<lparr>cw_breaker := trip 0 (cw_breaker counted_start)\<rparr>"
  let ?req = "zero_request\<lparr>cr_Messages := [UserText ''hi'']\<rparr>"
  have v: "validateChatRequest ?req = None"
    by (simp add: validateChatRequest_def ValidateMessages_def zero_request_def validate_message_def hasNonReasoning_def
        validateParts_def validatePart_def pairing_step_def)
  have st: "b_state (cw_breaker ?w) = stateOpen" by simp
  have "go_sub 30000000000 0 = 30000000000" by (rule trans [OF go_sub_exact]) (simp_all add: in_int64_def MinInt_def MaxInt_def)
  then have "0 < go_sub (OpenTimeout (b_cfg (cw_breaker ?w))) (time_sub (w_clock ?w) (b_openedAt (cw_breaker ?w)))"
    by (simp add: counted_start_def new_breaker_def circuit_normalized_def DefaultCircuitConfig_def time_sub_def MinInt_def MaxInt_def)
  from open_circuit_fails_fast [OF v st this, of plain_config failing_chat background]
  show ?thesis by (auto simp: counted_start_def new_breaker_def)
qed

end
