(* ===== verification/ToolLoop.thy ===== *)
theory ToolLoop
  imports Middleware Transcript
begin

text \<open>
  The synchronous tool loop (\<open>llms/toolloop/types.go\<close>, \<open>run.go\<close>): configuration and its validation, the
  execution of one turn's tool calls, the compaction hook, and \<open>Run\<close>. The client, the executors, the
  compactor and the observation hooks are the application's: functions of the configuration that
  thread the world. One round of the source's \<open>for\<close> is \<open>run_iteration\<close>, which either yields the next
  loop state or an outcome; \<open>run_loop\<close> iterates it and is partial, \<open>None\<close> standing for a run that does
  not end, which \<open>NoIterationLimit\<close> allows. Slice capacities (\<open>preallocIterations\<close>, the headroom) have
  no effect on values and are left out; values are immutable, so the copies of \<open>cloneToolCall\<close> and of
  the compacted transcript are the values themselves.
\<close>

section \<open>Types (types.go)\<close>

record exec_result =
  xr_Content :: string
  xr_IsError :: bool
  xr_Stop :: bool

record 'w tool =
  tl_Execute :: "(ctx \<Rightarrow> tool_call \<Rightarrow> 'w \<Rightarrow> (exec_result \<times> error option) \<times> 'w) option"
  tl_Definition :: tool_definition

record compact_input =
  ci_Err :: "error option"
  ci_Reason :: compact_reason
  ci_LastUsage :: usage
  ci_Messages :: "message list"

text \<open>A nil \<open>Messages\<close> is \<open>None\<close>; a non-nil empty slice is \<open>Some []\<close>.\<close>

record compact_result =
  cres_Usage :: usage
  cres_Messages :: "message list option"

definition no_change :: compact_result where
  "no_change = \<lparr>cres_Usage = zero_usage, cres_Messages = None\<rparr>"

type_synonym 'w compactor = "ctx \<Rightarrow> compact_input \<Rightarrow> 'w \<Rightarrow> (compact_result \<times> error option) \<times> 'w"

record iteration_event =
  ie_Response :: chat_response
  ie_Index :: int
  ie_NumToolCalls :: int

record tool_call_event =
  te_Err :: "error option"
  te_Call :: tool_call
  te_Result :: exec_result
  te_Latency :: int
  te_Iteration :: int

type_synonym outcome_kind = string

definition OutcomeFinalAnswer :: outcome_kind where "OutcomeFinalAnswer = ''final_answer''"
definition OutcomeEmptyResponse :: outcome_kind where "OutcomeEmptyResponse = ''empty_response''"
definition OutcomeTerminalTool :: outcome_kind where "OutcomeTerminalTool = ''terminal_tool''"
definition OutcomeMaxIterations :: outcome_kind where "OutcomeMaxIterations = ''max_iterations''"
definition OutcomeLLMError :: outcome_kind where "OutcomeLLMError = ''llm_error''"
definition OutcomeContextExceeded :: outcome_kind where "OutcomeContextExceeded = ''context_exceeded''"
definition OutcomeCompactionError :: outcome_kind where "OutcomeCompactionError = ''compaction_error''"
definition OutcomeToolError :: outcome_kind where "OutcomeToolError = ''tool_error''"
definition OutcomeCanceled :: outcome_kind where "OutcomeCanceled = ''canceled''"
definition OutcomeDeadline :: outcome_kind where "OutcomeDeadline = ''deadline''"

lemmas outcome_consts =
  OutcomeFinalAnswer_def OutcomeEmptyResponse_def OutcomeTerminalTool_def OutcomeMaxIterations_def
  OutcomeLLMError_def OutcomeContextExceeded_def OutcomeCompactionError_def OutcomeToolError_def
  OutcomeCanceled_def OutcomeDeadline_def

record outcome =
  out_Response :: chat_response
  out_Err :: "error option"
  out_TerminalCall :: "tool_call option"
  out_TotalUsage :: usage
  out_CompactionUsage :: usage
  out_TerminalResult :: "exec_result option"
  out_Kind :: outcome_kind
  out_Messages :: "message list"
  out_Iterations :: int
  out_Compactions :: int

record 'w loop_config =
  lc_Request :: chat_request
  lc_Client :: "'w chat_client option"
  lc_Compact :: "'w compactor option"
  lc_OnIteration :: "(iteration_event \<Rightarrow> 'w \<Rightarrow> 'w) option"
  lc_OnToolCall :: "(tool_call_event \<Rightarrow> 'w \<Rightarrow> 'w) option"
  lc_ToolChoice :: tool_choice
  lc_Tools :: "'w tool list"
  lc_MaxIterations :: int

definition defaultMaxIterations :: int where "defaultMaxIterations = 8"
definition NoIterationLimit :: int where "NoIterationLimit = - 1"

section \<open>Configuration\<close>

definition isZeroToolChoice :: "tool_choice \<Rightarrow> bool" where
  "isZeroToolChoice tc \<longleftrightarrow> tch_Type tc = [] \<and> tch_Name tc = []"

definition isKnownToolChoiceType :: "tool_choice_type \<Rightarrow> bool" where
  "isKnownToolChoiceType t \<longleftrightarrow>
     t = ToolChoiceAuto \<or> t = ToolChoiceNone \<or> t = ToolChoiceRequired \<or> t = ToolChoiceTool"

fun check_tools :: "nat \<Rightarrow> string set \<Rightarrow> 'w tool list \<Rightarrow> config_reason + string set" where
  "check_tools i seen [] = Inr seen"
| "check_tools i seen (t # ts) =
     (let name = td_Name (tl_Definition t) in
      if name = [] then Inl (ToolNameEmpty i)
      else if tl_Execute t = None then Inl (ToolExecuteNil i name)
      else if name \<in> seen then Inl (DuplicateToolName name)
      else check_tools (Suc i) (insert name seen) ts)"

definition effective_choice :: "tool_choice \<Rightarrow> tool_choice \<Rightarrow> tool_choice" where
  "effective_choice cfg_choice req_choice =
     (let effective = (if isZeroToolChoice cfg_choice then req_choice else cfg_choice)
      in if isZeroToolChoice effective then \<lparr>tch_Type = ToolChoiceAuto, tch_Name = []\<rparr> else effective)"

definition check_choice :: "string set \<Rightarrow> bool \<Rightarrow> tool_choice \<Rightarrow> config_reason option" where
  "check_choice seen no_tools effective =
     (if \<not> isKnownToolChoiceType (tch_Type effective) then Some (UnknownToolChoice (tch_Type effective))
      else if RequiresTools effective \<and> no_tools then Some (ChoiceRequiresTools (tch_Type effective))
      else if tch_Type effective = ToolChoiceTool \<and> tch_Name effective \<notin> seen
        then Some (ChoiceNamesUnknownTool (tch_Name effective))
      else None)"

definition validateConfig :: "'w loop_config \<Rightarrow> error + (tool_definition list \<times> tool_choice)" where
  "validateConfig cfg =
     (if lc_Client cfg = None then Inl (ConfigError ClientRequired)
      else if cr_Messages (lc_Request cfg) = [] then Inl (ConfigError NoRequestMessages)
      else if cr_Tools (lc_Request cfg) \<noteq> [] then Inl (ConfigError RequestToolsSet)
      else case check_tools 0 {} (lc_Tools cfg) of
        Inl r \<Rightarrow> Inl (ConfigError r)
      | Inr seen \<Rightarrow>
          if \<not> isZeroToolChoice (cr_ToolChoice (lc_Request cfg)) \<and> \<not> isZeroToolChoice (lc_ToolChoice cfg)
            then Inl (ConfigError BothToolChoices)
          else let effective = effective_choice (lc_ToolChoice cfg) (cr_ToolChoice (lc_Request cfg)) in
            case check_choice seen (lc_Tools cfg = []) effective of
              Some r \<Rightarrow> Inl (ConfigError r)
            | None \<Rightarrow> Inr (map tl_Definition (lc_Tools cfg), effective))"

definition indexTools :: "'w tool list \<Rightarrow> (string \<rightharpoonup> 'w tool)" where
  "indexTools tools = foldl (\<lambda>out t. out(td_Name (tl_Definition t) \<mapsto> t)) Map.empty tools"

section \<open>Stops\<close>

text \<open>The message of a combined error is not modelled beyond its prefix; nothing reads it.\<close>

definition classifyStop :: "ctx \<Rightarrow> error \<Rightarrow> outcome_kind \<Rightarrow> 'a world_scheme \<Rightarrow> outcome_kind \<times> error" where
  "classifyStop c err fallback w =
     (case ctx_Err c w of
        Some ctxErr \<Rightarrow>
          (if errors_Is (Some ctxErr) DeadlineExceeded then OutcomeDeadline else OutcomeCanceled,
           if \<not> errors_Is (Some err) ctxErr then Wrapped ''toolloop'' [ctxErr, err] else err)
      | None \<Rightarrow> if errors_Is (Some err) Canceled then (OutcomeCanceled, err) else (fallback, err))"

definition llmErrorKind :: "error \<Rightarrow> outcome_kind" where
  "llmErrorKind err =
     (case errors_As is_ProviderError (Some err) of
        Some pe \<Rightarrow> if pe_Kind pe = ErrorKindContextLength then OutcomeContextExceeded else OutcomeLLMError
      | None \<Rightarrow> OutcomeLLMError)"

definition isEmptyResponse :: "chat_response \<Rightarrow> bool" where
  "isEmptyResponse resp \<longleftrightarrow> rsp_ToolCalls resp = [] \<and>
     list_all (\<lambda>p. cp_Type p = ContentReasoning \<or> (cp_Type p = ContentText \<and> cp_Text p = []))
       (m_Content (rsp_Message resp))"

section \<open>Usage\<close>

record usage_sum =
  us_total :: usage
  us_contribs :: int

definition zero_sum :: usage_sum where
  "zero_sum = \<lparr>us_total = zero_usage, us_contribs = 0\<rparr>"

definition addUsage :: "usage_sum \<Rightarrow> usage \<Rightarrow> usage_sum" where
  "addUsage s u =
     (let t = us_total s; n = go_add (us_contribs s) 1 in
      \<lparr>us_total =
         \<lparr>u_InputTokens = go_add (u_InputTokens t) (u_InputTokens u),
          u_OutputTokens = go_add (u_OutputTokens t) (u_OutputTokens u),
          u_TotalTokens = go_add (u_TotalTokens t) (u_TotalTokens u),
          u_ReasoningTokens = go_add (u_ReasoningTokens t) (u_ReasoningTokens u),
          u_BillableOutputTokens = go_add (u_BillableOutputTokens t) (u_BillableOutputTokens u),
          u_EmbeddingTokens = go_add (u_EmbeddingTokens t) (u_EmbeddingTokens u),
          u_CacheReadTokens = go_add (u_CacheReadTokens t) (u_CacheReadTokens u),
          u_CacheWriteTokens = go_add (u_CacheWriteTokens t) (u_CacheWriteTokens u),
          u_ProviderRequestID = (if n = 1 then u_ProviderRequestID u else [])\<rparr>,
       us_contribs = n\<rparr>)"

section \<open>Outcomes\<close>

definition stop_outcome :: "outcome_kind \<Rightarrow> chat_response \<Rightarrow> message list \<Rightarrow> usage \<Rightarrow> int \<Rightarrow> error option \<Rightarrow> outcome" where
  "stop_outcome kind resp msgs u n err =
     \<lparr>out_Response = resp, out_Err = err, out_TerminalCall = None, out_TotalUsage = u,
      out_CompactionUsage = zero_usage, out_TerminalResult = None, out_Kind = kind, out_Messages = msgs,
      out_Iterations = n, out_Compactions = 0\<rparr>"

section \<open>Executing a turn's calls\<close>

definition cloneToolCall :: "tool_call \<Rightarrow> tool_call" where
  "cloneToolCall c = \<lparr>tc_ID = tc_ID c, tc_Name = tc_Name c, tc_Parameters = tc_Parameters c,
     tc_ProviderSignature = tc_ProviderSignature c\<rparr>"

definition dispatch :: "ctx \<Rightarrow> tool_call \<Rightarrow> (string \<rightharpoonup> 'w tool) \<Rightarrow> 'w \<Rightarrow> (exec_result \<times> error option) \<times> 'w" where
  "dispatch c call toolByName w =
     (case toolByName (tc_Name call) of
        None \<Rightarrow> ((\<lparr>xr_Content = ''tool '' @ quote (tc_Name call) @ '' is not available'', xr_IsError = True,
                   xr_Stop = False\<rparr>, None), w)
      | Some tool \<Rightarrow> the (tl_Execute tool) c call w)"

definition stop_contract :: "tool_call \<Rightarrow> exec_result \<Rightarrow> error option \<Rightarrow> error option" where
  "stop_contract call result execErr =
     (if execErr = None \<and> xr_Stop result \<and> xr_IsError result
      then Some (Wrapped (''toolloop: tool '' @ quote (tc_Name call) @ '' (call '' @ quote (tc_ID call) @
                          '') returned ToolResult with both Stop and IsError set'') [])
      else execErr)"

text \<open>One call: dispatch, the \<open>OnToolCall\<close> event, and the check of the result's contract.\<close>

definition exec_call :: "ctx \<Rightarrow> 'a world_scheme loop_config \<Rightarrow> int \<Rightarrow> (string \<rightharpoonup> 'a world_scheme tool) \<Rightarrow> tool_call \<Rightarrow>
    'a world_scheme \<Rightarrow> (exec_result \<times> error option) \<times> 'a world_scheme" where
  "exec_call c cfg iterIdx toolByName tc w =
     (let call = cloneToolCall tc in
      case dispatch c call toolByName w of ((result, execErr), w1) \<Rightarrow>
        ((result, stop_contract call result execErr),
         case lc_OnToolCall cfg of
           None \<Rightarrow> w1
         | Some hook \<Rightarrow> hook \<lparr>te_Err = execErr, te_Call = call, te_Result = result,
             te_Latency = time_sub (w_clock w1) (w_clock w), te_Iteration = go_sub iterIdx 1\<rparr> w1))"

datatype turn_result =
    Executed "tool_result list" "(tool_call \<times> exec_result) option"
  | Aborted outcome

definition skipped_result :: "string \<Rightarrow> tool_call \<Rightarrow> tool_result" where
  "skipped_result name skipped =
     \<lparr>tr_ToolCallID = tc_ID skipped, tr_Content = ''not executed: tool loop ended by '' @ quote name, tr_IsError = True\<rparr>"

fun executeCalls :: "ctx \<Rightarrow> 'a world_scheme loop_config \<Rightarrow> chat_response \<Rightarrow> int \<Rightarrow> (string \<rightharpoonup> 'a world_scheme tool) \<Rightarrow>
    message list \<Rightarrow> usage \<Rightarrow> tool_result list \<Rightarrow> tool_call list \<Rightarrow> 'a world_scheme \<Rightarrow> turn_result \<times> 'a world_scheme" where
  "executeCalls c cfg resp iterIdx toolByName transcript u results [] w = (Executed results None, w)"
| "executeCalls c cfg resp iterIdx toolByName transcript u results (tc # rest) w =
     (case exec_call c cfg iterIdx toolByName tc w of
        ((result, Some execErr), w1) \<Rightarrow>
          (case classifyStop c execErr OutcomeToolError w1 of (kind, err) \<Rightarrow>
             (Aborted (stop_outcome kind resp transcript u iterIdx (Some err)), w1))
      | ((result, None), w1) \<Rightarrow>
          let results = results @ [\<lparr>tr_ToolCallID = tc_ID tc, tr_Content = xr_Content result, tr_IsError = xr_IsError result\<rparr>]
          in if xr_Stop result
             then (Executed (results @ map (skipped_result (tc_Name tc)) rest) (Some (cloneToolCall tc, result)), w1)
             else executeCalls c cfg resp iterIdx toolByName transcript u results rest w1)"

section \<open>Compaction and the provider call\<close>

record compaction =
  cn_usage :: usage_sum
  cn_count :: int

text \<open>\<open>compaction.run\<close>: what the checks make of the hook's result.\<close>

definition adopt :: "compact_input \<Rightarrow> compact_result \<times> error option \<Rightarrow> error + message list option" where
  "adopt cin r =
     (case r of
        (res, Some err) \<Rightarrow> Inl (CompactionError (ci_Reason cin) err)
      | (res, None) \<Rightarrow>
          (case cres_Messages res of
             None \<Rightarrow> Inr None
           | Some msgs \<Rightarrow>
               (case ValidateMessages msgs of
                  Some err \<Rightarrow> Inl (CompactionError (ci_Reason cin) err)
                | None \<Rightarrow>
                    if m_Role (last msgs) = RoleAssistant
                    then Inl (CompactionError (ci_Reason cin)
                      (Wrapped ''compacted transcript ends with an assistant message; the next call continues from it'' []))
                    else Inr (Some msgs))))"

definition compaction_run :: "ctx \<Rightarrow> 'w compactor \<Rightarrow> compact_input \<Rightarrow> compaction \<Rightarrow> 'w \<Rightarrow>
    (error + message list option) \<times> compaction \<times> 'w" where
  "compaction_run c fn cin cn w =
     (case fn c cin w of ((res, err), w) \<Rightarrow>
        let cn = (if cres_Usage res \<noteq> zero_usage then cn\<lparr>cn_usage := addUsage (cn_usage cn) (cres_Usage res)\<rparr> else cn) in
        case adopt cin (res, err) of
          Inr (Some msgs) \<Rightarrow> (Inr (Some msgs), cn\<lparr>cn_count := go_add (cn_count cn) 1\<rparr>, w)
        | r \<Rightarrow> (r, cn, w))"

datatype send_result =
    Sent chat_response "message list"
  | SendStopped "message list" outcome_kind error

text \<open>The calls of \<open>send\<close>: one, and after an overflow that a compaction shortened one more.\<close>

function send_calls :: "bool \<Rightarrow> ctx \<Rightarrow> 'a world_scheme compactor option \<Rightarrow> 'a world_scheme chat_client \<Rightarrow> chat_request \<Rightarrow> usage \<Rightarrow>
    compaction \<Rightarrow> 'a world_scheme \<Rightarrow> send_result \<times> compaction \<times> 'a world_scheme" where
  "send_calls retried c fn client req lst cn w =
     (case cc_Complete client c req w of
        ((resp, None), w) \<Rightarrow> (Sent resp (cr_Messages req), cn, w)
      | ((resp, Some callErr), w) \<Rightarrow>
          (case classifyStop c callErr (llmErrorKind callErr) w of (kind, err) \<Rightarrow>
             if kind \<noteq> OutcomeContextExceeded \<or> fn = None \<or> retried
             then (SendStopped (cr_Messages req) kind err, cn, w)
             else case compaction_run c (the fn) \<lparr>ci_Err = Some err, ci_Reason = CompactOverflow, ci_LastUsage = lst,
                                        ci_Messages = cr_Messages req\<rparr> cn w of
               (Inl cerr, cn, w) \<Rightarrow>
                 (case classifyStop c cerr OutcomeCompactionError w of (kind, err) \<Rightarrow>
                    (SendStopped (cr_Messages req) kind err, cn, w))
             | (Inr None, cn, w) \<Rightarrow>
                 (case classifyStop c callErr (llmErrorKind callErr) w of (kind, err) \<Rightarrow>
                    (SendStopped (cr_Messages req) kind err, cn, w))
             | (Inr (Some msgs), cn, w) \<Rightarrow> send_calls True c fn client (req\<lparr>cr_Messages := msgs\<rparr>) lst cn w))"
  by pat_completeness auto
termination
  by (relation "measure (\<lambda>(retried, _). if retried then 0 else 1)") auto

declare send_calls.simps [simp del]

definition send :: "ctx \<Rightarrow> 'a world_scheme compactor option \<Rightarrow> 'a world_scheme chat_client \<Rightarrow> chat_request \<Rightarrow> usage \<Rightarrow>
    compaction \<Rightarrow> 'a world_scheme \<Rightarrow> send_result \<times> compaction \<times> 'a world_scheme" where
  "send c fn client req lst cn w =
     (case fn of
        None \<Rightarrow> send_calls False c fn client req lst cn w
      | Some f \<Rightarrow>
          (case compaction_run c f \<lparr>ci_Err = None, ci_Reason = CompactBeforeTurn, ci_LastUsage = lst,
                                    ci_Messages = cr_Messages req\<rparr> cn w of
             (Inl cerr, cn, w) \<Rightarrow>
               (case classifyStop c cerr OutcomeCompactionError w of (kind, err) \<Rightarrow>
                  (SendStopped (cr_Messages req) kind err, cn, w))
           | (Inr None, cn, w) \<Rightarrow> send_calls False c fn client req lst cn w
           | (Inr (Some msgs), cn, w) \<Rightarrow> send_calls False c fn client (req\<lparr>cr_Messages := msgs\<rparr>) lst cn w))"

section \<open>The loop\<close>

record loop_state =
  ls_transcript :: "message list"
  ls_usage :: usage_sum
  ls_last :: chat_response
  ls_iter :: int
  ls_compaction :: compaction

definition on_iteration :: "'w loop_config \<Rightarrow> chat_response \<Rightarrow> int \<Rightarrow> 'w \<Rightarrow> 'w" where
  "on_iteration cfg resp i w = (case lc_OnIteration cfg of None \<Rightarrow> w
   | Some hook \<Rightarrow> hook \<lparr>ie_Response = resp, ie_Index = i, ie_NumToolCalls = int (length (rsp_ToolCalls resp))\<rparr> w)"

text \<open>Steps 10 to 17: the turn's calls, the tool message, and the terminal and limit stops.\<close>

definition run_turn :: "ctx \<Rightarrow> 'a world_scheme loop_config \<Rightarrow> int \<Rightarrow> loop_state \<Rightarrow> 'a world_scheme \<Rightarrow>
    (loop_state + outcome) \<times> 'a world_scheme" where
  "run_turn c cfg maxIter st w =
     (let resp = ls_last st; iterIdx = go_add (ls_iter st) 1; u = us_total (ls_usage st) in
      case executeCalls c cfg resp iterIdx (indexTools (lc_Tools cfg)) (ls_transcript st) u [] (rsp_ToolCalls resp) w of
        (Aborted out, w) \<Rightarrow> (Inr out, w)
      | (Executed results terminal, w) \<Rightarrow>
          let transcript = ls_transcript st @ [ToolResultMessage results] in
          (case terminal of
             Some (call, result) \<Rightarrow>
               (Inr ((stop_outcome OutcomeTerminalTool resp transcript u iterIdx None)
                  \<lparr>out_TerminalCall := Some call, out_TerminalResult := Some result\<rparr>), w)
           | None \<Rightarrow>
               if maxIter > 0 \<and> iterIdx \<ge> maxIter
               then (Inr (stop_outcome OutcomeMaxIterations resp transcript u iterIdx None), w)
               else (Inl (st\<lparr>ls_transcript := transcript, ls_iter := iterIdx\<rparr>), w)))"

text \<open>Steps 6 to 9: a response.\<close>

definition handle_response :: "ctx \<Rightarrow> 'a world_scheme loop_config \<Rightarrow> int \<Rightarrow> loop_state \<Rightarrow> chat_response \<Rightarrow> 'a world_scheme \<Rightarrow>
    (loop_state + outcome) \<times> 'a world_scheme" where
  "handle_response c cfg maxIter st resp w =
     (let u = addUsage (ls_usage st) (rsp_Usage resp);
          transcript = (if isEmptyResponse resp then ls_transcript st else ls_transcript st @ [rsp_Message resp]);
          w = on_iteration cfg resp (ls_iter st) w in
      if isEmptyResponse resp then (Inr (stop_outcome OutcomeEmptyResponse resp transcript (us_total u) (ls_iter st) None), w)
      else if rsp_ToolCalls resp = [] then (Inr (stop_outcome OutcomeFinalAnswer resp transcript (us_total u) (ls_iter st) None), w)
      else run_turn c cfg maxIter (st\<lparr>ls_transcript := transcript, ls_usage := u, ls_last := resp\<rparr>) w)"

definition close_compaction :: "compaction \<Rightarrow> outcome \<Rightarrow> outcome" where
  "close_compaction cn out = out\<lparr>out_CompactionUsage := us_total (cn_usage cn), out_Compactions := cn_count cn\<rparr>"

text \<open>One round of the loop. The deferred function of \<open>Run\<close> sets the compaction fields of every
  outcome.\<close>

definition run_iteration :: "ctx \<Rightarrow> 'a world_scheme loop_config \<Rightarrow> tool_definition list \<Rightarrow> tool_choice \<Rightarrow> int \<Rightarrow> loop_state \<Rightarrow>
    'a world_scheme \<Rightarrow> (loop_state + outcome) \<times> 'a world_scheme" where
  "run_iteration c cfg tools choice maxIter st w =
     (let req = (lc_Request cfg)\<lparr>cr_Messages := ls_transcript st, cr_Tools := tools, cr_ToolChoice := choice\<rparr> in
      case send c (lc_Compact cfg) (the (lc_Client cfg)) req (rsp_Usage (ls_last st)) (ls_compaction st) w of
        (SendStopped sent kind err, cn, w) \<Rightarrow>
          (Inr (close_compaction cn
             (stop_outcome kind (ls_last st) sent (us_total (ls_usage st)) (ls_iter st) (Some err))), w)
      | (Sent resp sent, cn, w) \<Rightarrow>
          (case handle_response c cfg maxIter (st\<lparr>ls_transcript := sent, ls_compaction := cn\<rparr>) resp w of
             (Inl st, w) \<Rightarrow> (Inl st, w)
           | (Inr out, w) \<Rightarrow> (Inr (close_compaction cn out), w)))"

partial_function (option) run_loop :: "ctx \<Rightarrow> 'a world_scheme loop_config \<Rightarrow> tool_definition list \<Rightarrow> tool_choice \<Rightarrow> int \<Rightarrow>
    loop_state \<Rightarrow> 'a world_scheme \<Rightarrow> (outcome \<times> 'a world_scheme) option" where
  "run_loop c cfg tools choice maxIter st w =
     (case run_iteration c cfg tools choice maxIter st w of
        (Inl st, w) \<Rightarrow> run_loop c cfg tools choice maxIter st w
      | (Inr out, w) \<Rightarrow> Some (out, w))"

definition start_state :: "message list \<Rightarrow> loop_state" where
  "start_state msgs = \<lparr>ls_transcript = msgs, ls_usage = zero_sum, ls_last = zero_response, ls_iter = 0,
     ls_compaction = \<lparr>cn_usage = zero_sum, cn_count = 0\<rparr>\<rparr>"

definition max_iterations :: "'w loop_config \<Rightarrow> int" where
  "max_iterations cfg = (if lc_MaxIterations cfg = 0 then defaultMaxIterations else lc_MaxIterations cfg)"

definition Run :: "ctx \<Rightarrow> 'a world_scheme loop_config \<Rightarrow> 'a world_scheme \<Rightarrow> (outcome \<times> 'a world_scheme) option" where
  "Run c cfg w =
     (case validateConfig cfg of
        Inl err \<Rightarrow> Some (stop_outcome OutcomeToolError zero_response [] zero_usage 0 (Some err), w)
      | Inr (tools, choice) \<Rightarrow>
          run_loop c cfg tools choice (max_iterations cfg) (start_state (cr_Messages (lc_Request cfg))) w)"

end
