(* ===== verification/Compact.thy ===== *)
theory Compact
  imports ToolLoop
begin

text \<open>
  The two compactors of \<open>llms/toolloop/compact\<close>: the cut rule (\<open>split\<close>, \<open>inFlightPrompt\<close>), \<open>KeepLast\<close>, and
  \<open>Summarize\<close> with the text it renders for the summarizer. Indices are naturals, a slice
  \<open>msgs[a:b]\<close> is \<open>slice msgs a b\<close>; \<open>CompactProps\<close> shows the bounds under which the source's slices do
  not panic.
\<close>

section \<open>The cut rule\<close>

definition due :: "compact_input \<Rightarrow> int \<Rightarrow> bool" where
  "due cin atTokens \<longleftrightarrow> ci_Reason cin = CompactOverflow \<or>
     (atTokens > 0 \<and> go_add (u_InputTokens (ci_LastUsage cin)) (u_OutputTokens (ci_LastUsage cin)) \<ge> atTokens)"

record span =
  sp_head :: nat
  sp_pin :: nat
  sp_pinEnd :: nat
  sp_cut :: nat

definition slice :: "'a list \<Rightarrow> nat \<Rightarrow> nat \<Rightarrow> 'a list" where
  "slice xs a b = take (b - a) (drop a xs)"

definition drops :: "span \<Rightarrow> bool" where
  "drops s \<longleftrightarrow> int (sp_cut s) - int (sp_head s) > int (sp_pinEnd s) - int (sp_pin s)"

definition dropped :: "span \<Rightarrow> message list \<Rightarrow> message list" where
  "dropped s msgs = slice msgs (sp_head s) (sp_pin s) @ slice msgs (sp_pinEnd s) (sp_cut s)"

definition kept :: "span \<Rightarrow> message list \<Rightarrow> message list \<Rightarrow> message list" where
  "kept s msgs ins = take (sp_head s) msgs @ ins @ slice msgs (sp_pin s) (sp_pinEnd s) @ drop (sp_cut s) msgs"

definition summaryHeader :: string where
  "summaryHeader = ''Summary of the earlier part of this conversation (older turns were removed to fit the context window):'' @
     [CHR 0x0A, CHR 0x0A]"

definition isSummary :: "message \<Rightarrow> bool" where
  "isSummary m \<longleftrightarrow> m_Role m = RoleUser \<and> length (m_Content m) = 1 \<and>
     cp_Type (m_Content m ! 0) = ContentText \<and> has_prefix (cp_Text (m_Content m ! 0)) summaryHeader"

text \<open>The loops \<open>for i > head && P(msgs[i-1]) { i-- }\<close> of the source, and its scan for the head.\<close>

fun back_while :: "(message \<Rightarrow> bool) \<Rightarrow> message list \<Rightarrow> nat \<Rightarrow> nat \<Rightarrow> nat" where
  "back_while P msgs head 0 = 0"
| "back_while P msgs head (Suc i) = (if Suc i > head \<and> P (msgs ! i) then back_while P msgs head i else Suc i)"

fun find_head :: "nat \<Rightarrow> message list \<Rightarrow> nat" where
  "find_head i [] = i"
| "find_head i (m # ms) = (if m_Role m = RoleUser then Suc i else find_head (Suc i) ms)"

definition is_user :: "message \<Rightarrow> bool" where
  "is_user m \<longleftrightarrow> m_Role m = RoleUser"

definition inFlightPrompt :: "message list \<Rightarrow> nat \<Rightarrow> nat \<times> nat" where
  "inFlightPrompt msgs head =
     (if msgs = [] \<or> m_Role (last msgs) = RoleAssistant then (head, head)
      else let pend = back_while (\<lambda>m. m_Role m \<noteq> RoleUser \<or> isSummary m) msgs head (length msgs);
               pin = back_while (\<lambda>m. m_Role m = RoleUser \<and> \<not> isSummary m) msgs head pend
           in (pin, pend))"

definition turn_starts :: "message list \<Rightarrow> nat \<Rightarrow> nat list" where
  "turn_starts msgs head = map (\<lambda>i. back_while is_user msgs head i)
     (filter (\<lambda>i. m_Role (msgs ! i) = RoleAssistant) [head..<length msgs])"

definition split_cut :: "message list \<Rightarrow> nat \<Rightarrow> int \<Rightarrow> nat" where
  "split_cut msgs head keep =
     (let starts = turn_starts msgs head in
      if keep > 0 \<and> int (length starts) \<le> keep then head
      else if keep > 0 then starts ! (length starts - nat keep)
      else back_while is_user msgs head (length msgs))"

definition split_msgs :: "message list \<Rightarrow> int \<Rightarrow> span" where
  "split_msgs msgs keep =
     (let head = find_head 0 msgs; cut = split_cut msgs head keep; (pin, pend) = inFlightPrompt msgs head in
      if pin < pend \<and> pend \<le> cut then \<lparr>sp_head = head, sp_pin = pin, sp_pinEnd = pend, sp_cut = cut\<rparr>
      else \<lparr>sp_head = head, sp_pin = cut, sp_pinEnd = cut, sp_cut = cut\<rparr>)"

section \<open>KeepLast\<close>

record keep_last_config =
  kl_Turns :: int
  kl_AtTokens :: int

text \<open>The compactor \<open>KeepLast\<close> returns, and its construction.\<close>

definition keep_last_compact :: "keep_last_config \<Rightarrow> 'w compactor" where
  "keep_last_compact cfg c cin w =
     ((if \<not> due cin (kl_AtTokens cfg) then no_change
       else let s = split_msgs (ci_Messages cin) (kl_Turns cfg) in
         if \<not> drops s then no_change
         else \<lparr>cres_Usage = zero_usage, cres_Messages = Some (WithoutReasoning (kept s (ci_Messages cin) []))\<rparr>,
       None), w)"

definition KeepLast :: "keep_last_config \<Rightarrow> error + 'w compactor" where
  "KeepLast cfg =
     (if kl_Turns cfg < 0 \<or> kl_AtTokens cfg < 0
      then Inl (Wrapped ''compact: KeepLastConfig.Turns and AtTokens must not be negative'' [])
      else Inr (keep_last_compact cfg))"

section \<open>Rendering the dropped turns\<close>

definition truncation_mark :: "int \<Rightarrow> string" where
  "truncation_mark n = '' '' @ [CHR 0xE2, CHR 0x80, CHR 0xA6] @ ''[truncated '' @ itoa n @ '' bytes]''"

text \<open>The range loop over the runes of \<open>s\<close>, at byte \<open>i\<close> with \<open>n\<close> runes behind it.\<close>

function truncate_from :: "string \<Rightarrow> int \<Rightarrow> nat \<Rightarrow> int \<Rightarrow> string" where
  "truncate_from s limit i n =
     (if i \<ge> length s then s
      else if n = limit then take i s @ truncation_mark (int (length s) - int i)
      else truncate_from s limit (i + rune_width (drop i s)) (n + 1))"
  by pat_completeness auto
termination
  by (relation "measure (\<lambda>(s, limit, i, n). length s - i)") (auto intro!: diff_less_mono2)

declare truncate_from.simps [simp del]

definition truncate_text :: "string \<Rightarrow> int \<Rightarrow> string" where
  "truncate_text s limit = (if limit < 0 then s else truncate_from s limit 0 0)"

definition existingSummaryLabel :: string where
  "existingSummaryLabel =
     ''Existing summary. Your summary replaces it, so it must keep every fact below:'' @ [CHR 0x0A, CHR 0x0A]"

definition newTurnsLabel :: string where
  "newTurnsLabel = [CHR 0x0A, CHR 0x0A] @ ''New turns to add to the summary:'' @ [CHR 0x0A, CHR 0x0A]"

record render_state =
  rd_prior :: "string list"
  rd_names :: "string \<rightharpoonup> string"
  rd_out :: string

definition entry :: "string \<Rightarrow> string \<Rightarrow> string" where
  "entry label body = label @ [CHR 0x0A] @ body @ [CHR 0x0A, CHR 0x0A]"

definition render_part :: "int \<Rightarrow> message \<Rightarrow> render_state \<Rightarrow> content_part \<Rightarrow> render_state" where
  "render_part limit m st p =
     (if isSummary m then st\<lparr>rd_prior := rd_prior st @ [trim_prefix (cp_Text p) summaryHeader]\<rparr>
      else if cp_Type p = ContentText \<and> cp_Text p \<noteq> [] then
        st\<lparr>rd_out := rd_out st @ entry (''['' @ m_Role m @ '']'') (truncate_text (cp_Text p) limit)\<rparr>
      else if cp_Type p = ContentToolCall \<and> cp_ToolCall p \<noteq> None then
        (let tc = the (cp_ToolCall p) in
         st\<lparr>rd_names := (rd_names st)(tc_ID tc \<mapsto> tc_Name tc),
            rd_out := rd_out st @ entry (''[assistant called tool '' @ tc_Name tc @ '']'') (truncate_text (tc_Parameters tc) limit)\<rparr>)
      else if cp_Type p = ContentToolResult \<and> cp_ToolResult p \<noteq> None then
        (let tr = the (cp_ToolResult p);
             label = (if tr_IsError tr then ''error'' else ''result'');
             name = (case rd_names st (tr_ToolCallID tr) of None \<Rightarrow> [] | Some n \<Rightarrow> n) in
         st\<lparr>rd_out := rd_out st @ entry (''[tool '' @ label @ '' from '' @ name @ '']'') (truncate_text (tr_Content tr) limit)\<rparr>)
      else st)"

fun join_strings :: "string \<Rightarrow> string list \<Rightarrow> string" where
  "join_strings sep [] = []"
| "join_strings sep [x] = x"
| "join_strings sep (x # y # xs) = x @ sep @ join_strings sep (y # xs)"

definition render :: "message list \<Rightarrow> int \<Rightarrow> string" where
  "render msgs limit =
     (let st = foldl (\<lambda>st m. foldl (render_part limit m) st (m_Content m))
                 \<lparr>rd_prior = [], rd_names = Map.empty, rd_out = []\<rparr> msgs;
          turns = TrimSpace (rd_out st) in
      if rd_prior st = [] then turns
      else existingSummaryLabel @ join_strings [CHR 0x0A, CHR 0x0A] (rd_prior st) @ newTurnsLabel @ turns)"

section \<open>Summarize\<close>

definition DefaultSummaryPrompt :: string where
  "DefaultSummaryPrompt =
     ''You compress the history of an agent's tool-using session so it can continue '' @
     ''in a smaller context. Summarize the conversation you are given: keep the facts learned, '' @
     ''decisions made, results of tool calls that later work depends on, identifiers and values '' @
     ''needed to continue, and what remains open. If you are given an existing summary, '' @
     ''write an updated summary: everything in the existing one plus the new turns, since '' @
     ''yours replaces it. Omit pleasantries and anything superseded. '' @
     ''Write plain prose or terse bullet points, without preamble.''"

definition defaultTruncateRunes :: int where "defaultTruncateRunes = 4000"

record 'w summarize_config =
  sm_Client :: "'w chat_client option"
  sm_Prompt :: string
  sm_Purpose :: purpose
  sm_KeepTurns :: int
  sm_AtTokens :: int
  sm_MaxTokens :: int
  sm_TruncateRunes :: int

definition summary_request :: "'w summarize_config \<Rightarrow> string \<Rightarrow> chat_request" where
  "summary_request cfg text =
     zero_request\<lparr>cr_System := [Text (if sm_Prompt cfg = [] then DefaultSummaryPrompt else sm_Prompt cfg)],
       cr_Messages := [UserText text], cr_MaxTokens := sm_MaxTokens cfg, cr_Purpose := sm_Purpose cfg\<rparr>"

definition summarize_turns :: "'w summarize_config \<Rightarrow> 'w chat_client \<Rightarrow> ctx \<Rightarrow> span \<Rightarrow> message list \<Rightarrow> 'w \<Rightarrow>
    (compact_result \<times> error option) \<times> 'w" where
  "summarize_turns cfg client c s msgs w =
     (let limit = (if sm_TruncateRunes cfg = 0 then defaultTruncateRunes else sm_TruncateRunes cfg) in
      case cc_Complete client c (summary_request cfg (render (dropped s msgs) limit)) w of
        ((resp, Some err), w) \<Rightarrow> ((no_change, Some (Wrapped ''compact: summarizer'' [err])), w)
      | ((resp, None), w) \<Rightarrow>
          let summary = TrimSpace (rsp_Text resp) in
          if summary = [] then
            ((\<lparr>cres_Usage = rsp_Usage resp, cres_Messages = None\<rparr>,
              Some (Wrapped (''compact: summarizer returned no text (stop reason '' @ quote (rsp_StopReason resp) @ '')'') [])), w)
          else ((\<lparr>cres_Usage = rsp_Usage resp,
                  cres_Messages = Some (WithoutReasoning (kept s msgs [UserText (summaryHeader @ summary)]))\<rparr>, None), w))"

definition Summarize :: "'w summarize_config \<Rightarrow> error + 'w compactor" where
  "Summarize cfg =
     (case sm_Client cfg of
        None \<Rightarrow> Inl (Wrapped ''compact: SummarizeConfig.Client is required'' [])
      | Some client \<Rightarrow>
          if sm_KeepTurns cfg < 0 \<or> sm_AtTokens cfg < 0 \<or> sm_MaxTokens cfg < 0
          then Inl (Wrapped ''compact: SummarizeConfig.KeepTurns, AtTokens and MaxTokens must not be negative'' [])
          else Inr (\<lambda>c cin w.
            if \<not> due cin (sm_AtTokens cfg) then ((no_change, None), w)
            else let s = split_msgs (ci_Messages cin) (sm_KeepTurns cfg) in
              if \<not> drops s then ((no_change, None), w)
              else summarize_turns cfg client c s (ci_Messages cin) w))"

end
