(* ===== verification/ToolLoopProps.thy ===== *)
theory ToolLoopProps
  imports ToolLoop
begin

text \<open>
  What a run of the tool loop guarantees: it ends within its iteration limit, every transcript it
  returns is well-formed up to the turn an executor aborted, every outcome kind carries the error it
  documents, and the usage it reports is that of the responses it observed. The properties follow
  from one rule, \<open>run_loop_invariant\<close>, and from elimination rules for \<open>send\<close> and \<open>run_iteration\<close>.
\<close>

section \<open>Rules\<close>

lemma sum_option_cases:
  obtains (error) e where "x = Inl e" | (none) "x = Inr None" | (some) y where "x = Inr (Some y)"
proof (cases x)
  case (Inr u)
  with none some show ?thesis by (cases u) auto
qed (rule error)

lemma run_loop_invariant:
  assumes run: "run_loop c cfg tools choice maxIter st w = Some (out, w')" and init: "I st w"
    and step: "\<And>st w st' w'. I st w \<Longrightarrow> run_iteration c cfg tools choice maxIter st w = (Inl st', w') \<Longrightarrow> I st' w'"
    and stop: "\<And>st w out w'. I st w \<Longrightarrow> run_iteration c cfg tools choice maxIter st w = (Inr out, w') \<Longrightarrow> Q out w'"
  shows "Q out w'"
proof -
  let ?here = "\<lambda>c' cfg' tools' choice' maxIter'.
    c' = c \<and> cfg' = cfg \<and> tools' = tools \<and> choice' = choice \<and> maxIter' = maxIter"
  let ?P = "\<lambda>c' cfg' tools' choice' maxIter' st w r. ?here c' cfg' tools' choice' maxIter' \<longrightarrow> I st w \<longrightarrow> Q (fst r) (snd r)"
  have "?P c cfg tools choice maxIter st w (out, w')"
  proof (rule run_loop.raw_induct [where P = ?P, OF _ run], intro impI, elim conjE)
    fix f c' cfg' tools' choice' maxIter' st w r
    assume IH: "\<And>c' cfg' tools' choice' maxIter' st w r. f c' cfg' tools' choice' maxIter' st w = Some r \<Longrightarrow>
        ?P c' cfg' tools' choice' maxIter' st w r"
      and body: "(case run_iteration c' cfg' tools' choice' maxIter' st w of
        (Inl st, w) \<Rightarrow> f c' cfg' tools' choice' maxIter' st w | (Inr out, w) \<Rightarrow> Some (out, w)) = Some r"
      and inv: "I st w" and eqs: "c' = c" "cfg' = cfg" "tools' = tools" "choice' = choice" "maxIter' = maxIter"
    obtain res w2 where it: "run_iteration c cfg tools choice maxIter st w = (res, w2)" by (metis prod.exhaust)
    show "Q (fst r) (snd r)"
    proof (cases res)
      case (Inl st')
      with it body eqs have "f c cfg tools choice maxIter st' w2 = Some r" by simp
      from IH [OF this] step [OF inv it [unfolded Inl]] show ?thesis by simp
    next
      case (Inr out)
      with it body eqs have "r = (out, w2)" by simp
      with stop [OF inv it [unfolded Inr]] show ?thesis by simp
    qed
  qed
  with init show ?thesis by simp
qed

lemma run_loop_step:
  "run_iteration c cfg tools choice maxIter st w = (Inl st', w') \<Longrightarrow>
     run_loop c cfg tools choice maxIter st w = run_loop c cfg tools choice maxIter st' w'"
  by (simp add: run_loop.simps [of c cfg tools choice maxIter st w])

lemma run_loop_stop:
  "run_iteration c cfg tools choice maxIter st w = (Inr out, w') \<Longrightarrow>
     run_loop c cfg tools choice maxIter st w = Some (out, w')"
  by (simp add: run_loop.simps [of c cfg tools choice maxIter st w])

text \<open>How a turn's calls go: every result answers its call, and an abort carries a classified error.\<close>

lemma executeCalls_Executed:
  "executeCalls c cfg resp n byName tr u results calls w = (Executed rs terminal, w') \<Longrightarrow>
     map tr_ToolCallID rs = map tr_ToolCallID results @ map tc_ID calls"
proof (induction calls arbitrary: results w)
  case (Cons tc rest)
  obtain result err w1 where e: "exec_call c cfg n byName tc w = ((result, err), w1)" by (metis prod.exhaust)
  from Cons.prems show ?case
    by (cases err; cases "xr_Stop result")
      (auto simp: e skipped_result_def comp_def dest: Cons.IH split: prod.splits)
qed simp

lemma executeCalls_Aborted:
  "executeCalls c cfg resp n byName tr u results calls w = (Aborted out, w') \<Longrightarrow>
     \<exists>e kind err tc res w1. classifyStop c e OutcomeToolError w' = (kind, err) \<and>
       out = stop_outcome kind resp tr u n (Some err) \<and>
       tc \<in> set calls \<and> exec_call c cfg n byName tc w1 = ((res, Some e), w')"
proof (induction calls arbitrary: results w)
  case (Cons tc rest)
  obtain result err w1 where e: "exec_call c cfg n byName tc w = ((result, err), w1)" by (metis prod.exhaust)
  show ?case
  proof (cases err)
    case None
    with Cons.prems e have "\<not> xr_Stop result" by auto
    with Cons.prems e None have "executeCalls c cfg resp n byName tr u
        (results @ [\<lparr>tr_ToolCallID = tc_ID tc, tr_Content = xr_Content result, tr_IsError = xr_IsError result\<rparr>]) rest w1 = (Aborted out, w')"
      by (simp add: Let_def)
    from Cons.IH [OF this] obtain e1 kind err1 tc1 res w2 where "classifyStop c e1 OutcomeToolError w' = (kind, err1)"
      "out = stop_outcome kind resp tr u n (Some err1)" "tc1 \<in> set rest" "exec_call c cfg n byName tc1 w2 = ((res, Some e1), w')" by blast
    then show ?thesis by (intro exI [of _ e1] exI [of _ kind] exI [of _ err1] exI [of _ tc1] exI [of _ res] exI [of _ w2]) simp
  next
    case (Some x)
    obtain kind err1 where k: "classifyStop c x OutcomeToolError w1 = (kind, err1)" by (metis prod.exhaust)
    with Cons.prems e Some have "out = stop_outcome kind resp tr u n (Some err1)" "w' = w1" by simp_all
    with k e Some show ?thesis by (intro exI [of _ x] exI [of _ kind] exI [of _ err1] exI [of _ tc] exI [of _ result] exI [of _ w]) simp
  qed
qed simp

section \<open>The provider call\<close>

lemma adopt_valid:
  "adopt cin r = Inr (Some msgs) \<Longrightarrow> msgs \<noteq> [] \<and> wf_transcript msgs \<and> m_Role (last msgs) \<noteq> RoleAssistant"
  by (auto simp: adopt_def simp flip: ValidateMessages_None_iff split: prod.splits option.splits if_splits)

lemma adopt_error: "adopt cin r = Inl e \<Longrightarrow> \<exists>x. e = CompactionError (ci_Reason cin) x"
  by (auto simp: adopt_def split: prod.splits option.splits if_splits)

lemma compaction_run_valid:
  "compaction_run c fn cin cn w = (Inr (Some msgs), cn', w') \<Longrightarrow> msgs \<noteq> [] \<and> wf_transcript msgs"
  by (auto simp: compaction_run_def Let_def dest: adopt_valid split: prod.splits sum.splits option.splits)

lemma compaction_run_error:
  "compaction_run c fn cin cn w = (Inl e, cn', w') \<Longrightarrow> \<exists>x. e = CompactionError (ci_Reason cin) x"
  by (auto simp: compaction_run_def Let_def dest: adopt_error split: prod.splits sum.splits option.splits)

text \<open>A stop of \<open>send\<close> is a classified error of the provider on the messages sent last, or the classified error of
  a compaction of them.\<close>

definition send_stop :: "ctx \<Rightarrow> 'a world_scheme compactor option \<Rightarrow> 'a world_scheme chat_client \<Rightarrow> message list \<Rightarrow>
    outcome_kind \<Rightarrow> error \<Rightarrow> 'a world_scheme \<Rightarrow> bool" where
  "send_stop c fn client sent kind err w \<longleftrightarrow>
     (\<exists>e req resp w1 w2. cc_Complete client c req w1 = ((resp, Some e), w2) \<and> cr_Messages req = sent \<and>
        classifyStop c e (llmErrorKind e) w = (kind, err)) \<or>
     (\<exists>e f cin cn w1 cn2. fn = Some f \<and> compaction_run c f cin cn w1 = (Inl e, cn2, w) \<and> ci_Messages cin = sent \<and>
        classifyStop c e OutcomeCompactionError w = (kind, err))"

definition good_messages :: "message list \<Rightarrow> bool" where
  "good_messages ms \<longleftrightarrow> ms \<noteq> [] \<and> wf_transcript ms"

text \<open>\<open>g\<close>: the transcript given to \<open>send\<close> was well-formed; then so is the one it sent last.\<close>

definition send_ok :: "bool \<Rightarrow> ctx \<Rightarrow> 'a world_scheme compactor option \<Rightarrow> 'a world_scheme chat_client \<Rightarrow> send_result \<Rightarrow> 'a world_scheme \<Rightarrow> bool" where
  "send_ok g c fn client r w \<longleftrightarrow> (case r of
     Sent resp sent \<Rightarrow> (g \<longrightarrow> good_messages sent) \<and> (\<exists>c1 req1 w1. cc_Complete client c1 req1 w1 = ((resp, None), w))
   | SendStopped sent kind err \<Rightarrow> (g \<longrightarrow> good_messages sent) \<and> send_stop c fn client sent kind err w)"

lemma send_okI:
  "(g \<Longrightarrow> good_messages sent) \<Longrightarrow> cc_Complete client c1 req1 w1 = ((resp, None), w) \<Longrightarrow> send_ok g c fn client (Sent resp sent) w"
  "(g \<Longrightarrow> good_messages (cr_Messages req)) \<Longrightarrow> cc_Complete client c req w1 = ((resp, Some e), w2) \<Longrightarrow>
     classifyStop c e (llmErrorKind e) w = (kind, err) \<Longrightarrow> send_ok g c fn client (SendStopped (cr_Messages req) kind err) w"
  "(g \<Longrightarrow> good_messages (ci_Messages cin)) \<Longrightarrow> compaction_run c f cin cn w1 = (Inl e, cn2, w) \<Longrightarrow>
     classifyStop c e OutcomeCompactionError w = (kind, err) \<Longrightarrow> send_ok g c (Some f) client (SendStopped (ci_Messages cin) kind err) w"
  unfolding send_ok_def send_stop_def by auto blast+

text \<open>The ways one call of \<open>send_calls\<close> goes.\<close>

lemma send_calls_cases:
  assumes run: "send_calls retried c fn client req lst cn w = (r, cn', w')"
  obtains (sent) resp where "cc_Complete client c req w = ((resp, None), w')" "r = Sent resp (cr_Messages req)"
  | (refused) resp e kind err where "cc_Complete client c req w = ((resp, Some e), w')"
      "classifyStop c e (llmErrorKind e) w' = (kind, err)" "r = SendStopped (cr_Messages req) kind err"
  | (failed) f resp e w1 cin ce kind err where "fn = Some f" "ci_Messages cin = cr_Messages req"
      "cc_Complete client c req w = ((resp, Some e), w1)"
      "compaction_run c f cin cn w1 = (Inl ce, cn', w')" "classifyStop c ce OutcomeCompactionError w' = (kind, err)"
      "r = SendStopped (cr_Messages req) kind err"
  | (declined) f resp e w1 cin kind err where "fn = Some f" "cc_Complete client c req w = ((resp, Some e), w1)"
      "compaction_run c f cin cn w1 = (Inr None, cn', w')" "classifyStop c e (llmErrorKind e) w' = (kind, err)"
      "r = SendStopped (cr_Messages req) kind err"
  | (again) f resp e w1 cin msgs cn2 w2 where "\<not> retried" "fn = Some f" "cc_Complete client c req w = ((resp, Some e), w1)"
      "compaction_run c f cin cn w1 = (Inr (Some msgs), cn2, w2)"
      "send_calls True c fn client (req\<lparr>cr_Messages := msgs\<rparr>) lst cn2 w2 = (r, cn', w')"
      "ci_Messages cin = cr_Messages req"
proof -
  obtain resp ce w1 where call: "cc_Complete client c req w = ((resp, ce), w1)" by (metis prod.exhaust)
  show ?thesis
  proof (cases ce)
    case None
    with run call show ?thesis by (intro sent) (auto simp: send_calls.simps [of retried])
  next
    case (Some e)
    note call = call [unfolded Some]
    obtain kind err where cl: "classifyStop c e (llmErrorKind e) w1 = (kind, err)" by (metis prod.exhaust)
    show ?thesis
    proof (cases "kind \<noteq> OutcomeContextExceeded \<or> fn = None \<or> retried")
      case True
      with run call cl have "r = SendStopped (cr_Messages req) kind err" "w' = w1"
        by (simp_all add: send_calls.simps [of retried])
      with call cl show ?thesis by (intro refused) simp_all
    next
      case False
      then obtain f where f: "fn = Some f" "\<not> retried" "kind = OutcomeContextExceeded" by (cases fn) auto
      let ?cin = "\<lparr>ci_Err = Some err, ci_Reason = CompactOverflow, ci_LastUsage = lst, ci_Messages = cr_Messages req\<rparr>"
      obtain x cn2 w2 where cr: "compaction_run c f ?cin cn w1 = (x, cn2, w2)" by (metis prod.exhaust)
      show ?thesis
      proof (cases x rule: sum_option_cases)
        case (error ce)
        obtain k2 e2 where k2: "classifyStop c ce OutcomeCompactionError w2 = (k2, e2)" by (metis prod.exhaust)
        have "r = SendStopped (cr_Messages req) k2 e2 \<and> cn' = cn2 \<and> w' = w2"
          using run f by (subst (asm) send_calls.simps) (simp add: call cl cr error k2)
        with f call cr error k2 show ?thesis by (intro failed) simp_all
      next
        case none
        obtain k2 e2 where k2: "classifyStop c e (llmErrorKind e) w2 = (k2, e2)" by (metis prod.exhaust)
        have "r = SendStopped (cr_Messages req) k2 e2 \<and> cn' = cn2 \<and> w' = w2"
          using run f by (subst (asm) send_calls.simps) (simp add: call cl cr none k2)
        with f call cr none k2 show ?thesis by (intro declined) simp_all
      next
        case (some msgs)
        have "send_calls True c fn client (req\<lparr>cr_Messages := msgs\<rparr>) lst cn2 w2 = (r, cn', w')"
          using run f by (subst (asm) send_calls.simps) (simp add: call cl cr some)
        with f call cr some show ?thesis by (intro again [where cin = ?cin]) simp_all
      qed
    qed
  qed
qed

lemma send_calls_ok:
  "send_calls retried c fn client req lst cn w = (r, cn', w') \<Longrightarrow> (g \<longrightarrow> good_messages (cr_Messages req)) \<Longrightarrow>
     send_ok g c fn client r w'"
proof (induction "if retried then 0 else Suc 0" arbitrary: retried req cn w rule: less_induct)
  case less
  from less.prems(1) show ?case
  proof (cases rule: send_calls_cases)
    case (failed f resp e w1 cin ce kind err)
    with send_okI(3) [OF _ failed(4,5), of g client] less.prems(2) show ?thesis by simp
  next
    case (again f resp e w1 cin msgs cn2 w2)
    have "good_messages msgs" using compaction_run_valid [OF again(4)] by (simp add: good_messages_def)
    with less.hyps [OF _ again(5)] again(1) show ?thesis by simp
  qed (use less.prems(2) in \<open>auto intro: send_okI\<close>)
qed

lemma send_result:
  assumes "send c fn client req lst cn w = (r, cn', w')" and good: "g \<longrightarrow> good_messages (cr_Messages req)"
  shows "send_ok g c fn client r w'"
proof (cases fn)
  case None
  with assms send_calls_ok show ?thesis by (fastforce simp: send_def)
next
  case (Some f)
  let ?cin = "\<lparr>ci_Err = None, ci_Reason = CompactBeforeTurn, ci_LastUsage = lst, ci_Messages = cr_Messages req\<rparr>"
  obtain x cn2 w2 where cr: "compaction_run c f ?cin cn w = (x, cn2, w2)" by (metis prod.exhaust)
  show ?thesis
  proof (cases x rule: sum_option_cases)
    case (error ce)
    obtain kind err where k: "classifyStop c ce OutcomeCompactionError w2 = (kind, err)" by (metis prod.exhaust)
    with assms send_okI(3) [OF _ cr [unfolded error] k, of g client] show ?thesis by (auto simp: send_def Some cr error)
  next
    case none
    with assms send_calls_ok show ?thesis by (fastforce simp: send_def Some cr)
  next
    case (some msgs)
    have "good_messages msgs" using compaction_run_valid [OF cr [unfolded some]] by (simp add: good_messages_def)
    with assms send_calls_ok [of False c fn client "req\<lparr>cr_Messages := msgs\<rparr>"] show ?thesis
      by (simp add: send_def Some cr some)
  qed
qed

section \<open>One round\<close>

lemma stop_outcome_sel [simp]:
  "out_Response (stop_outcome k resp ms u n e) = resp" "out_Err (stop_outcome k resp ms u n e) = e"
  "out_Kind (stop_outcome k resp ms u n e) = k" "out_Messages (stop_outcome k resp ms u n e) = ms"
  "out_TotalUsage (stop_outcome k resp ms u n e) = u" "out_Iterations (stop_outcome k resp ms u n e) = n"
  by (simp_all add: stop_outcome_def)

lemma close_compaction_sel [simp]:
  "out_Response (close_compaction cn out) = out_Response out" "out_Err (close_compaction cn out) = out_Err out"
  "out_Kind (close_compaction cn out) = out_Kind out" "out_Messages (close_compaction cn out) = out_Messages out"
  "out_TotalUsage (close_compaction cn out) = out_TotalUsage out"
  "out_Iterations (close_compaction cn out) = out_Iterations out"
  by (simp_all add: close_compaction_def)

text \<open>The ways a response is handled. \<open>u\<close> and \<open>n\<close> are the usage and the iteration count after it.\<close>

lemma handle_response_cases:
  assumes run: "handle_response c cfg maxIter st resp w = (res, w')"
  defines "u \<equiv> us_total (addUsage (ls_usage st) (rsp_Usage resp))" and "n \<equiv> go_add (ls_iter st) 1"
  obtains (empty) "isEmptyResponse resp"
      "res = Inr (stop_outcome OutcomeEmptyResponse resp (ls_transcript st) u (ls_iter st) None)"
      "w' = on_iteration cfg resp (ls_iter st) w"
  | (final) "\<not> isEmptyResponse resp" "rsp_ToolCalls resp = []"
      "res = Inr (stop_outcome OutcomeFinalAnswer resp (ls_transcript st @ [rsp_Message resp]) u (ls_iter st) None)"
      "w' = on_iteration cfg resp (ls_iter st) w"
  | (aborted) e kind err where "\<not> isEmptyResponse resp" "rsp_ToolCalls resp \<noteq> []"
      "classifyStop c e OutcomeToolError w' = (kind, err)"
      "res = Inr (stop_outcome kind resp (ls_transcript st @ [rsp_Message resp]) u n (Some err))"
      "\<exists>tc \<in> set (rsp_ToolCalls resp). \<exists>r w1. exec_call c cfg n (indexTools (lc_Tools cfg)) tc w1 = ((r, Some e), w')"
  | (terminal) results call result where "\<not> isEmptyResponse resp" "rsp_ToolCalls resp \<noteq> []"
      "map tr_ToolCallID results = map tc_ID (rsp_ToolCalls resp)"
      "res = Inr ((stop_outcome OutcomeTerminalTool resp (ls_transcript st @ [rsp_Message resp, ToolResultMessage results]) u n None)
         \<lparr>out_TerminalCall := Some call, out_TerminalResult := Some result\<rparr>)"
  | (limit) results where "\<not> isEmptyResponse resp" "rsp_ToolCalls resp \<noteq> []"
      "map tr_ToolCallID results = map tc_ID (rsp_ToolCalls resp)" "maxIter > 0" "maxIter \<le> n"
      "res = Inr (stop_outcome OutcomeMaxIterations resp (ls_transcript st @ [rsp_Message resp, ToolResultMessage results]) u n None)"
  | (continue) results where "\<not> isEmptyResponse resp" "rsp_ToolCalls resp \<noteq> []"
      "map tr_ToolCallID results = map tc_ID (rsp_ToolCalls resp)" "\<not> (maxIter > 0 \<and> maxIter \<le> n)"
      "res = Inl (st\<lparr>ls_transcript := ls_transcript st @ [rsp_Message resp, ToolResultMessage results],
         ls_usage := addUsage (ls_usage st) (rsp_Usage resp), ls_last := resp, ls_iter := n\<rparr>)"
proof -
  let ?w = "on_iteration cfg resp (ls_iter st) w" and ?tr = "ls_transcript st @ [rsp_Message resp]"
  consider "isEmptyResponse resp" | "\<not> isEmptyResponse resp" "rsp_ToolCalls resp = []"
    | "\<not> isEmptyResponse resp" "rsp_ToolCalls resp \<noteq> []" by blast
  then show ?thesis
  proof cases
    case 1
    with run show ?thesis by (intro empty) (auto simp: handle_response_def u_def)
  next
    case 2
    with run show ?thesis by (intro final) (auto simp: handle_response_def u_def)
  next
    case 3
    obtain t w1 where ex: "executeCalls c cfg resp n (indexTools (lc_Tools cfg)) ?tr u [] (rsp_ToolCalls resp) ?w = (t, w1)"
      by (metis prod.exhaust)
    show ?thesis
    proof (cases t)
      case (Aborted out)
      from executeCalls_Aborted [OF ex [unfolded Aborted]] obtain e kind err
        where k: "classifyStop c e OutcomeToolError w1 = (kind, err)" "out = stop_outcome kind resp ?tr u n (Some err)"
          "\<exists>tc \<in> set (rsp_ToolCalls resp). \<exists>r w0. exec_call c cfg n (indexTools (lc_Tools cfg)) tc w0 = ((r, Some e), w1)" by blast
      from run 3 ex Aborted k(2) have "res = Inr (stop_outcome kind resp ?tr u n (Some err))" "w' = w1"
        by (auto simp: handle_response_def run_turn_def u_def n_def)
      with 3 k(1,3) show ?thesis by (intro aborted) auto
    next
      case (Executed results tstop)
      from executeCalls_Executed [OF ex [unfolded Executed]]
      have ids: "map tr_ToolCallID results = map tc_ID (rsp_ToolCalls resp)" by simp
      show ?thesis
      proof (cases tstop)
        case (Some t)
        with run 3 ex Executed ids show ?thesis
          by (intro terminal [where results = results and call = "fst t" and result = "snd t"])
            (auto simp: handle_response_def run_turn_def u_def n_def split: prod.splits)
      next
        case None
        show ?thesis
        proof (cases "maxIter > 0 \<and> maxIter \<le> n")
          case True
          with run 3 ex Executed None ids show ?thesis
            by (intro limit [of results]) (auto simp: handle_response_def run_turn_def u_def n_def)
        next
          case False
          with run 3 ex Executed None ids show ?thesis
            by (intro continue [of results]) (auto simp: handle_response_def run_turn_def u_def n_def)
        qed
      qed
    qed
  qed
qed

lemma run_iteration_cases:
  assumes run: "run_iteration c cfg tools choice maxIter st w = (res, w')"
  obtains (stopped) sent kind err cn where
      "send c (lc_Compact cfg) (the (lc_Client cfg))
         ((lc_Request cfg)\<lparr>cr_Messages := ls_transcript st, cr_Tools := tools, cr_ToolChoice := choice\<rparr>)
         (rsp_Usage (ls_last st)) (ls_compaction st) w = (SendStopped sent kind err, cn, w')"
      "good_messages (ls_transcript st) \<Longrightarrow> good_messages sent" "send_stop c (lc_Compact cfg) (the (lc_Client cfg)) sent kind err w'"
      "res = Inr (close_compaction cn
         (stop_outcome kind (ls_last st) sent (us_total (ls_usage st)) (ls_iter st) (Some err)))"
  | (responded) resp sent cn c1 req1 w1 w2 r where
      "send c (lc_Compact cfg) (the (lc_Client cfg))
         ((lc_Request cfg)\<lparr>cr_Messages := ls_transcript st, cr_Tools := tools, cr_ToolChoice := choice\<rparr>)
         (rsp_Usage (ls_last st)) (ls_compaction st) w = (Sent resp sent, cn, w2)"
      "good_messages (ls_transcript st) \<Longrightarrow> good_messages sent"
      "cc_Complete (the (lc_Client cfg)) c1 req1 w1 = ((resp, None), w2)"
      "handle_response c cfg maxIter (st\<lparr>ls_transcript := sent, ls_compaction := cn\<rparr>) resp w2 = (r, w')"
      "res = map_sum id (close_compaction cn) r"
proof -
  let ?req = "(lc_Request cfg)\<lparr>cr_Messages := ls_transcript st, cr_Tools := tools, cr_ToolChoice := choice\<rparr>"
  obtain s cn w2 where s: "send c (lc_Compact cfg) (the (lc_Client cfg)) ?req (rsp_Usage (ls_last st)) (ls_compaction st) w =
      (s, cn, w2)" by (metis prod.exhaust)
  from send_result [OF s, of "good_messages (ls_transcript st)"] have ok: "send_ok (good_messages (ls_transcript st)) c (lc_Compact cfg) (the (lc_Client cfg)) s w2" by simp
  show ?thesis
  proof (cases s)
    case (SendStopped sent kind err)
    have "res = Inr (close_compaction cn
        (stop_outcome kind (ls_last st) sent (us_total (ls_usage st)) (ls_iter st) (Some err))) \<and> w2 = w'"
      using run by (simp add: run_iteration_def s SendStopped eq_commute)
    moreover have "good_messages (ls_transcript st) \<Longrightarrow> good_messages sent" "send_stop c (lc_Compact cfg) (the (lc_Client cfg)) sent kind err w2" using ok by (simp_all add: SendStopped send_ok_def)
    ultimately show ?thesis using s SendStopped
      by (intro stopped [where sent = sent and kind = kind and err = err and cn = cn]) simp_all
  next
    case (Sent resp sent)
    obtain r w3 where h: "handle_response c cfg maxIter (st\<lparr>ls_transcript := sent, ls_compaction := cn\<rparr>) resp w2 = (r, w3)"
      by (metis prod.exhaust)
    have "res = map_sum id (close_compaction cn) r \<and> w3 = w'"
      using run by (cases r) (simp_all add: run_iteration_def s Sent h eq_commute)
    moreover from ok obtain c1 req1 w1 where "good_messages (ls_transcript st) \<Longrightarrow> good_messages sent" "cc_Complete (the (lc_Client cfg)) c1 req1 w1 = ((resp, None), w2)"
      by (auto simp: Sent send_ok_def)
    ultimately show ?thesis using h s Sent
      by (intro responded [where sent = sent and ?c1.0 = c1 and ?req1.0 = req1 and ?w1.0 = w1 and resp = resp and ?w2.0 = w2
            and cn = cn and r = r]) simp_all
  qed
qed

section \<open>Properties\<close>

lemma cloneToolCall_eq [simp]: "cloneToolCall c = c"
  by (simp add: cloneToolCall_def)

lemma exec_call_contract:
  "exec_call c cfg n byName tc w = ((result, None), w1) \<Longrightarrow> xr_Stop result \<Longrightarrow> \<not> xr_IsError result"
  by (auto simp: exec_call_def stop_contract_def Let_def split: prod.splits if_splits)

definition stopped_at :: "tool_call list \<Rightarrow> tool_result list \<Rightarrow> tool_call \<Rightarrow> exec_result \<Rightarrow> bool" where
  "stopped_at calls rs call result \<longleftrightarrow> xr_Stop result \<and> \<not> xr_IsError result \<and>
     (\<exists>pre post. calls = pre @ call # post \<and>
        drop (length pre) rs = \<lparr>tr_ToolCallID = tc_ID call, tr_Content = xr_Content result, tr_IsError = False\<rparr> #
             map (skipped_result (tc_Name call)) post)"

lemma stopped_at_Cons:
  assumes "stopped_at calls (drop (Suc n) rs) call result"
  shows "stopped_at (tc # calls) (drop n rs) call result"
proof -
  from assms obtain pre post where "calls = pre @ call # post" "xr_Stop result" "\<not> xr_IsError result"
    "drop (length pre) (drop (Suc n) rs) =
       \<lparr>tr_ToolCallID = tc_ID call, tr_Content = xr_Content result, tr_IsError = False\<rparr> # map (skipped_result (tc_Name call)) post"
    by (auto simp: stopped_at_def)
  then show ?thesis unfolding stopped_at_def by (intro conjI exI [of _ "tc # pre"] exI [of _ post]) simp_all
qed

lemma executeCalls_terminal:
  "executeCalls c cfg resp n byName tr u results calls w = (Executed rs (Some (call, result)), w') \<Longrightarrow>
     stopped_at calls (drop (length results) rs) call result"
proof (induction calls arbitrary: results w)
  case (Cons tc rest)
  obtain r err w1 where e: "exec_call c cfg n byName tc w = ((r, err), w1)" by (metis prod.exhaust)
  show ?case
  proof (cases "err = None \<and> \<not> xr_Stop r")
    case True
    let ?res = "\<lparr>tr_ToolCallID = tc_ID tc, tr_Content = xr_Content r, tr_IsError = xr_IsError r\<rparr>"
    from Cons.prems e True
    have "executeCalls c cfg resp n byName tr u (results @ [?res]) rest w1 = (Executed rs (Some (call, result)), w')" by simp
    from Cons.IH [OF this] show ?thesis by (intro stopped_at_Cons) simp
  next
    case False
    with Cons.prems e exec_call_contract [of c cfg n byName tc w r w1]
    have "rs = results @ \<lparr>tr_ToolCallID = tc_ID tc, tr_Content = xr_Content r, tr_IsError = False\<rparr> #
        map (skipped_result (tc_Name tc)) rest \<and> call = tc \<and> result = r \<and> xr_Stop r \<and> \<not> xr_IsError r"
      by (cases err) (auto split: prod.splits)
    then show ?thesis unfolding stopped_at_def by (intro conjI exI [of _ "[]"] exI [of _ rest]) simp_all
  qed
qed simp

text \<open>
  C36: a turn's tool calls are answered one for one and in order. The results carry the IDs of the calls;
  a terminal result was a stop without error, it is the result of its call, and every call after it
  got a synthesised error result instead of being executed.
\<close>

theorem tool_results_answer_calls:
  assumes "executeCalls c cfg resp n byName tr u [] calls w = (Executed rs terminal, w')"
  shows "map tr_ToolCallID rs = map tc_ID calls \<and>
    (\<forall>call result. terminal = Some (call, result) \<longrightarrow> xr_Stop result \<and> \<not> xr_IsError result \<and>
       (\<exists>pre post. calls = pre @ call # post \<and>
          drop (length pre) rs =
            \<lparr>tr_ToolCallID = tc_ID call, tr_Content = xr_Content result, tr_IsError = False\<rparr> #
            map (skipped_result (tc_Name call)) post))"
  using executeCalls_Executed [OF assms] executeCalls_terminal [of c cfg resp n byName tr u "[]" calls w rs] assms
  by (auto simp: stopped_at_def)

end
