(* ===== verification/ToolLoopGuarantees.thy ===== *)
theory ToolLoopGuarantees
  imports ToolLoopProps
begin

text \<open>
  The guarantees of \<open>Run\<close> over the rules of \<open>ToolLoopProps\<close>: configuration checks, termination, the
  well-formedness of every returned transcript, the classification of outcomes, and the account of
  usage, each with a run of a small configuration that shows its hypotheses can hold.
\<close>

section \<open>Configuration\<close>

lemma check_tools_Inr:
  "check_tools i seen ts = Inr s \<longleftrightarrow>
     (let names = map (\<lambda>t. td_Name (tl_Definition t)) ts in
      distinct names \<and> set names \<inter> seen = {} \<and> [] \<notin> set names \<and> (\<forall>t \<in> set ts. tl_Execute t \<noteq> None) \<and>
      s = set names \<union> seen)"
  by (induction ts arbitrary: i seen) (auto simp: Let_def)

lemma indexTools_eq:
  "distinct (map (\<lambda>t. td_Name (tl_Definition t)) ts) \<Longrightarrow> t \<in> set ts \<Longrightarrow>
     indexTools ts (td_Name (tl_Definition t)) = Some t"
  unfolding indexTools_def
proof (induction ts rule: rev_induct)
  case (snoc x xs)
  then show ?case by (cases "t = x") (auto, metis image_eqI)
qed simp

lemma indexTools_SomeD: "indexTools ts k = Some t \<Longrightarrow> t \<in> set ts \<and> td_Name (tl_Definition t) = k"
  unfolding indexTools_def by (induction ts rule: rev_induct) (auto split: if_splits)

definition choice_ok :: "tool_choice \<Rightarrow> string set \<Rightarrow> bool" where
  "choice_ok tc names \<longleftrightarrow> isKnownToolChoiceType (tch_Type tc) \<and> (RequiresTools tc \<longrightarrow> names \<noteq> {}) \<and>
     (tch_Type tc = ToolChoiceTool \<longrightarrow> tch_Name tc \<in> names)"

lemma check_choice_None: "check_choice seen no_tools tc = None \<longleftrightarrow>
    isKnownToolChoiceType (tch_Type tc) \<and> \<not> (RequiresTools tc \<and> no_tools) \<and>
    (tch_Type tc = ToolChoiceTool \<longrightarrow> tch_Name tc \<in> seen)"
  by (simp add: check_choice_def)

abbreviation tool_names :: "'w tool list \<Rightarrow> string list" where
  "tool_names ts \<equiv> map (\<lambda>t. td_Name (tl_Definition t)) ts"

lemma validateConfig_Inr:
  "validateConfig cfg = Inr (tools, choice) \<longleftrightarrow>
     lc_Client cfg \<noteq> None \<and> cr_Messages (lc_Request cfg) \<noteq> [] \<and> cr_Tools (lc_Request cfg) = [] \<and>
     distinct (tool_names (lc_Tools cfg)) \<and> [] \<notin> set (tool_names (lc_Tools cfg)) \<and>
     (\<forall>t \<in> set (lc_Tools cfg). tl_Execute t \<noteq> None) \<and>
     (isZeroToolChoice (cr_ToolChoice (lc_Request cfg)) \<or> isZeroToolChoice (lc_ToolChoice cfg)) \<and>
     choice = effective_choice (lc_ToolChoice cfg) (cr_ToolChoice (lc_Request cfg)) \<and>
     choice_ok choice (set (tool_names (lc_Tools cfg))) \<and> tools = map tl_Definition (lc_Tools cfg)"
proof (cases "check_tools 0 {} (lc_Tools cfg)")
  case (Inl r)
  then have "\<not> (distinct (tool_names (lc_Tools cfg)) \<and> [] \<notin> set (tool_names (lc_Tools cfg)) \<and>
      (\<forall>t \<in> set (lc_Tools cfg). tl_Execute t \<noteq> None))"
    using check_tools_Inr [of 0 "{}" "lc_Tools cfg"] by (auto simp: Let_def)
  with Inl show ?thesis by (auto simp: validateConfig_def)
next
  case (Inr seen)
  then have names: "distinct (tool_names (lc_Tools cfg))" "[] \<notin> set (tool_names (lc_Tools cfg))"
    "\<forall>t \<in> set (lc_Tools cfg). tl_Execute t \<noteq> None" "seen = set (tool_names (lc_Tools cfg))"
    using check_tools_Inr [of 0 "{}" "lc_Tools cfg" seen] by (auto simp: Let_def)
  let ?choice = "effective_choice (lc_ToolChoice cfg) (cr_ToolChoice (lc_Request cfg))"
  have ok: "check_choice seen (lc_Tools cfg = []) ?choice = None \<longleftrightarrow> choice_ok ?choice (set (tool_names (lc_Tools cfg)))"
    using names(4) by (auto simp: check_choice_None choice_ok_def)
  show ?thesis
    by (cases "check_choice seen (lc_Tools cfg = []) ?choice")
      (use names ok in \<open>auto simp: validateConfig_def Inr Let_def\<close>)
qed

text \<open>
  the configuration check fails closed and exactly. It accepts a configuration if and only if there
  is a client and a message, the request carries no tools of its own, the tools have distinct,
  non-empty names and executors, at most one tool choice is set, and the effective choice is known
  and can be met by the tools; it then offers the model exactly the configured tools, and every
  name it offers dispatches to its own executor.
\<close>

theorem config_check_is_exact:
  "(validateConfig cfg = Inr (tools, choice) \<longleftrightarrow>
      lc_Client cfg \<noteq> None \<and> cr_Messages (lc_Request cfg) \<noteq> [] \<and> cr_Tools (lc_Request cfg) = [] \<and>
      distinct (tool_names (lc_Tools cfg)) \<and> [] \<notin> set (tool_names (lc_Tools cfg)) \<and>
      (\<forall>t \<in> set (lc_Tools cfg). tl_Execute t \<noteq> None) \<and>
      (isZeroToolChoice (cr_ToolChoice (lc_Request cfg)) \<or> isZeroToolChoice (lc_ToolChoice cfg)) \<and>
      choice = effective_choice (lc_ToolChoice cfg) (cr_ToolChoice (lc_Request cfg)) \<and>
      choice_ok choice (set (tool_names (lc_Tools cfg))) \<and> tools = map tl_Definition (lc_Tools cfg)) \<and>
   (validateConfig cfg = Inr (tools, choice) \<longrightarrow>
      (\<forall>t \<in> set (lc_Tools cfg). indexTools (lc_Tools cfg) (td_Name (tl_Definition t)) = Some t))"
  using validateConfig_Inr [of cfg tools choice] indexTools_eq [of "lc_Tools cfg"] by blast

section \<open>Termination\<close>

lemma outcome_kind_distinct [simp]:
  "OutcomeMaxIterations \<noteq> OutcomeCanceled" "OutcomeMaxIterations \<noteq> OutcomeDeadline"
  "OutcomeMaxIterations \<noteq> OutcomeToolError" "OutcomeMaxIterations \<noteq> OutcomeLLMError"
  "OutcomeMaxIterations \<noteq> OutcomeContextExceeded" "OutcomeMaxIterations \<noteq> OutcomeCompactionError"
  "OutcomeMaxIterations \<noteq> OutcomeFinalAnswer" "OutcomeMaxIterations \<noteq> OutcomeEmptyResponse"
  "OutcomeMaxIterations \<noteq> OutcomeTerminalTool"
  by (simp_all add: outcome_consts)

lemmas outcome_kind_distinct_sym [simp] = outcome_kind_distinct [symmetric]

lemma classifyStop_kind:
  "classifyStop c e fb w = (kind, err) \<Longrightarrow> kind = OutcomeCanceled \<or> kind = OutcomeDeadline \<or> kind = fb"
  by (auto simp: classifyStop_def split: option.splits if_splits)

lemma llmErrorKind_range: "llmErrorKind e = OutcomeContextExceeded \<or> llmErrorKind e = OutcomeLLMError"
  by (auto simp: llmErrorKind_def split: option.splits)

lemma send_stop_kind:
  "send_stop c fn client sent kind err w \<Longrightarrow> kind = OutcomeCanceled \<or> kind = OutcomeDeadline \<or> kind = OutcomeContextExceeded \<or>
     kind = OutcomeLLMError \<or> kind = OutcomeCompactionError"
  unfolding send_stop_def by (metis classifyStop_kind llmErrorKind_range)

lemma run_iteration_counts:
  assumes "run_iteration c cfg tools choice maxIter st w = (res, w')"
  shows "(\<forall>st'. res = Inl st' \<longrightarrow> ls_iter st' = go_add (ls_iter st) 1 \<and> \<not> (maxIter > 0 \<and> maxIter \<le> ls_iter st')) \<and>
    (\<forall>out. res = Inr out \<longrightarrow> (out_Iterations out = ls_iter st \<or> out_Iterations out = go_add (ls_iter st) 1) \<and>
       (out_Kind out = OutcomeMaxIterations \<longrightarrow> out_Iterations out = go_add (ls_iter st) 1 \<and> maxIter > 0 \<and> maxIter \<le> out_Iterations out))"
  using assms
proof (cases rule: run_iteration_cases)
  case (stopped sent kind err cn)
  from send_stop_kind [OF stopped(3)] stopped(4) show ?thesis by auto
next
  case (responded resp sent cn c1 req1 w1 w2 r)
  from responded(4) show ?thesis
  proof (cases rule: handle_response_cases)
    case (aborted e kind err)
    with classifyStop_kind [OF aborted(3)] responded(5) show ?thesis by auto
  qed (use responded(5) in auto)
qed

lemma bounded_run_ends:
  "0 < maxIter \<Longrightarrow> in_int64 maxIter \<Longrightarrow> 0 \<le> ls_iter st \<Longrightarrow> ls_iter st < maxIter \<Longrightarrow>
     \<exists>out w'. run_loop c cfg tools choice maxIter st w = Some (out, w') \<and> 0 \<le> out_Iterations out \<and>
       out_Iterations out \<le> maxIter \<and> (out_Kind out = OutcomeMaxIterations \<longrightarrow> out_Iterations out = maxIter)"
proof (induction "nat (maxIter - ls_iter st)" arbitrary: st w rule: less_induct)
  case less
  obtain res w2 where it: "run_iteration c cfg tools choice maxIter st w = (res, w2)" by (metis prod.exhaust)
  have "in_int64 (ls_iter st + 1)" using less.prems by (auto simp: go_int_defs)
  then have inc: "go_add (ls_iter st) 1 = ls_iter st + 1" by (rule go_add_exact)
  show ?case
  proof (cases res)
    case (Inl st')
    with run_iteration_counts [OF it] inc less.prems have st': "ls_iter st' = ls_iter st + 1" "ls_iter st' < maxIter" by auto
    have "\<exists>out w'. run_loop c cfg tools choice maxIter st' w2 = Some (out, w') \<and> 0 \<le> out_Iterations out \<and>
       out_Iterations out \<le> maxIter \<and> (out_Kind out = OutcomeMaxIterations \<longrightarrow> out_Iterations out = maxIter)"
      by (rule less.hyps) (use st' less.prems in auto)
    then show ?thesis by (simp add: run_loop_step [OF it [unfolded Inl]])
  next
    case (Inr out)
    with run_iteration_counts [OF it] inc less.prems show ?thesis by (auto simp: run_loop_stop [OF it [unfolded Inr]])
  qed
qed

text \<open>
  C33: a run with a limit ends. Whatever the client, the executors, the compactor and the hooks do (as
  long as each call returns), a configuration whose \<open>MaxIterations\<close> is not negative gives an outcome
  after at most that many tool-calling turns (8 when it is zero), and the limit outcome reports
  exactly the limit.
\<close>

theorem bounded_run_terminates:
  assumes "0 \<le> lc_MaxIterations cfg" and "in_int64 (lc_MaxIterations cfg)"
  shows "\<exists>out w'. Run c cfg w = Some (out, w') \<and> 0 \<le> out_Iterations out \<and> out_Iterations out \<le> max_iterations cfg \<and>
    (out_Kind out = OutcomeMaxIterations \<longrightarrow> out_Iterations out = max_iterations cfg)"
proof (cases "validateConfig cfg")
  case (Inl e)
  with assms show ?thesis by (auto simp: Run_def max_iterations_def defaultMaxIterations_def)
next
  case (Inr v)
  then obtain tools choice where v: "validateConfig cfg = Inr (tools, choice)" by (cases v) simp
  have "0 < max_iterations cfg" "in_int64 (max_iterations cfg)"
    using assms by (auto simp: max_iterations_def defaultMaxIterations_def go_int_defs)
  from bounded_run_ends [OF this, of "start_state (cr_Messages (lc_Request cfg))"] show ?thesis
    using \<open>0 < max_iterations cfg\<close> by (simp add: Run_def v start_state_def)
qed

section \<open>Well-formed transcripts\<close>

text \<open>What the loop relies on in a provider's response: an assistant message of legal parts whose tool
  calls are the response's \<open>ToolCalls\<close>, with distinct, non-empty IDs.\<close>

definition response_wf :: "chat_response \<Rightarrow> bool" where
  "response_wf resp \<longleftrightarrow> m_Role (rsp_Message resp) = RoleAssistant \<and>
     (\<forall>p \<in> set (m_Content (rsp_Message resp)). part_legal RoleAssistant p) \<and>
     distinct (call_ids (rsp_Message resp)) \<and> call_ids (rsp_Message resp) = map tc_ID (rsp_ToolCalls resp)"

definition client_wf :: "'w chat_client \<Rightarrow> bool" where
  "client_wf client \<longleftrightarrow> (\<forall>c req w resp w'. cc_Complete client c req w = ((resp, None), w') \<longrightarrow> response_wf resp)"

lemma client_wfD: "client_wf client \<Longrightarrow> cc_Complete client c req w = ((resp, None), w') \<Longrightarrow> response_wf resp"
  unfolding client_wf_def by blast

lemma response_assistant_ok:
  assumes "response_wf resp" and "\<not> isEmptyResponse resp"
  shows "assistant_ok (rsp_Message resp)"
proof -
  have "hasNonReasoning (rsp_Message resp)"
  proof (cases "rsp_ToolCalls resp = []")
    case True
    with assms(2) show ?thesis by (auto simp: isEmptyResponse_def hasNonReasoning_iff list_all_iff)
  next
    case False
    with assms(1) have "call_ids (rsp_Message resp) \<noteq> []" by (simp add: response_wf_def)
    then obtain p where "p \<in> set (m_Content (rsp_Message resp))" "cp_Type p = ContentToolCall"
      by (auto simp: call_ids_def filter_empty_conv)
    then show ?thesis unfolding hasNonReasoning_iff by (intro bexI [of _ p]) simp_all
  qed
  with assms(1) show ?thesis by (auto simp: response_wf_def assistant_ok_def part_legal_def)
qed

lemma call_ids_nonempty: "assistant_ok m \<Longrightarrow> [] \<notin> set (call_ids m)"
  by (auto simp: assistant_ok_def call_ids_def call_part_ok_def)

lemma result_ids_ToolResultMessage: "result_ids (ToolResultMessage rs) = map tr_ToolCallID rs"
  by (simp add: result_ids_def ToolResultMessage_def comp_def)

lemma tool_ok_ToolResultMessage: "rs \<noteq> [] \<Longrightarrow> [] \<notin> set (map tr_ToolCallID rs) \<Longrightarrow> tool_ok (ToolResultMessage rs)"
  by (auto simp: tool_ok_def ToolResultMessage_def result_part_ok_def image_iff)

text \<open>A turn and its answers extend a well-formed transcript.\<close>

lemma answered_turn_wf:
  assumes "wf_transcript ms" and "response_wf resp" and "\<not> isEmptyResponse resp" and "rsp_ToolCalls resp \<noteq> []"
    and "map tr_ToolCallID rs = map tc_ID (rsp_ToolCalls resp)"
  shows "wf_transcript (ms @ [rsp_Message resp, ToolResultMessage rs])"
proof -
  have ok: "assistant_ok (rsp_Message resp)" by (rule response_assistant_ok [OF assms(2,3)])
  have ids: "map tr_ToolCallID rs = call_ids (rsp_Message resp)" using assms(2,5) by (simp add: response_wf_def)
  from assms(4,5) have "rs \<noteq> []" by auto
  with call_ids_nonempty [OF ok] ids have "tool_ok (ToolResultMessage rs)" by (intro tool_ok_ToolResultMessage) simp_all
  then have "wf_transcript (ms @ rsp_Message resp # [ToolResultMessage rs])"
    using ok assms(1) by (intro wf_turn) (simp_all add: result_ids_ToolResultMessage ids assistant_ok_def)
  then show ?thesis by simp
qed

lemma final_turn_wf:
  assumes "wf_transcript ms" and "response_wf resp" and "\<not> isEmptyResponse resp" and "rsp_ToolCalls resp = []"
  shows "wf_transcript (ms @ [rsp_Message resp])"
proof -
  have "call_ids (rsp_Message resp) = []" using assms(2,4) by (simp add: response_wf_def)
  with response_assistant_ok [OF assms(2,3)] have "wf_transcript (ms @ rsp_Message resp # [])"
    by (intro wf_turn assms(1)) simp_all
  then show ?thesis by simp
qed

definition outcome_messages_ok :: "outcome \<Rightarrow> bool" where
  "outcome_messages_ok out \<longleftrightarrow> ValidateMessages (out_Messages out) = None \<or>
     (out_Kind out \<in> {OutcomeToolError, OutcomeCanceled, OutcomeDeadline} \<and>
      (\<exists>ms. out_Messages out = ms @ [rsp_Message (out_Response out)] \<and> ValidateMessages ms = None \<and>
            rsp_ToolCalls (out_Response out) \<noteq> []))"

lemma run_iteration_messages:
  assumes run: "run_iteration c cfg tools choice maxIter st w = (res, w')" and wf: "client_wf (the (lc_Client cfg))"
    and good: "good_messages (ls_transcript st)"
  shows "(\<forall>st'. res = Inl st' \<longrightarrow> good_messages (ls_transcript st')) \<and> (\<forall>out. res = Inr out \<longrightarrow> outcome_messages_ok out)"
  using run
proof (cases rule: run_iteration_cases)
  case (stopped sent kind err cn)
  with good show ?thesis by (auto simp: outcome_messages_ok_def ValidateMessages_None_iff good_messages_def)
next
  case (responded resp sent cn c1 req1 w1 w2 r)
  from client_wfD [OF wf responded(3)] have resp: "response_wf resp" .
  from responded(2) good have sent: "sent \<noteq> []" "wf_transcript sent" by (auto simp: good_messages_def)
  note ok = outcome_messages_ok_def ValidateMessages_None_iff good_messages_def
  from responded(4) show ?thesis
  proof (cases rule: handle_response_cases)
    case empty
    with sent responded(5) show ?thesis by (auto simp: ok)
  next
    case final
    with sent responded(5) final_turn_wf [OF sent(2) resp] show ?thesis by (auto simp: ok)
  next
    case (aborted e kind err)
    with sent responded(5) classifyStop_kind [OF aborted(3)] show ?thesis by (auto simp: ok)
  next
    case (terminal results call result)
    with responded(5) answered_turn_wf [OF sent(2) resp terminal(1,2,3)] show ?thesis by (auto simp: ok)
  next
    case (limit results)
    with responded(5) answered_turn_wf [OF sent(2) resp limit(1,2,3)] show ?thesis by (auto simp: ok)
  next
    case (continue results)
    with responded(5) answered_turn_wf [OF sent(2) resp continue(1,2,3)] show ?thesis by (auto simp: ok)
  qed
qed

lemma run_messages_ok:
  assumes "validateConfig cfg = Inr v" and "ValidateMessages (cr_Messages (lc_Request cfg)) = None"
    and "client_wf (the (lc_Client cfg))" and "Run c cfg w = Some (out, w')"
  shows "outcome_messages_ok out"
proof -
  obtain tools choice where "v = (tools, choice)" by (cases v)
  with assms(1,4) have "run_loop c cfg tools choice (max_iterations cfg) (start_state (cr_Messages (lc_Request cfg))) w = Some (out, w')"
    by (simp add: Run_def)
  then show ?thesis
  proof (rule run_loop_invariant [where I = "\<lambda>st w. good_messages (ls_transcript st)"])
    show "good_messages (ls_transcript (start_state (cr_Messages (lc_Request cfg))))"
      using assms(2) by (simp add: start_state_def good_messages_def ValidateMessages_None_iff)
  qed (use run_iteration_messages [OF _ assms(3)] in blast)+
qed

text \<open>
  C2: the transcript of an outcome can be sent back. Starting from a valid transcript, with a client
  whose responses are well-formed and any compactor whatsoever, the messages of every outcome pass
  the validator, except when an executor ended the run: then they are a valid transcript followed
  by the assistant turn whose calls were left unanswered.
\<close>

theorem outcome_messages_sendable:
  assumes "validateConfig cfg = Inr v" and "ValidateMessages (cr_Messages (lc_Request cfg)) = None"
    and "client_wf (the (lc_Client cfg))" and "Run c cfg w = Some (out, w')"
  shows "ValidateMessages (out_Messages out) = None \<or>
     (out_Kind out \<in> {OutcomeToolError, OutcomeCanceled, OutcomeDeadline} \<and>
      (\<exists>ms. out_Messages out = ms @ [rsp_Message (out_Response out)] \<and> ValidateMessages ms = None \<and>
            rsp_ToolCalls (out_Response out) \<noteq> []))"
  using run_messages_ok [OF assms] by (simp add: outcome_messages_ok_def)

section \<open>The classification of outcomes\<close>

text \<open>What stopped a run with an error \<open>e\<close>, and the kind it has while the run's context is live: the provider's error on the
  messages of the outcome, a failed compaction of them, or the error of one of the calls of the outcome's response.\<close>

definition stopped_by :: "ctx \<Rightarrow> 'a world_scheme loop_config \<Rightarrow> outcome \<Rightarrow> 'a world_scheme \<Rightarrow> outcome_kind \<Rightarrow> error \<Rightarrow> bool" where
  "stopped_by c cfg out w' fallback e \<longleftrightarrow>
     (\<exists>req resp w1 w2. cc_Complete (the (lc_Client cfg)) c req w1 = ((resp, Some e), w2) \<and> cr_Messages req = out_Messages out \<and>
        fallback = (if \<exists>pe. errors_As is_ProviderError (Some e) = Some pe \<and> pe_Kind pe = ErrorKindContextLength
                    then OutcomeContextExceeded else OutcomeLLMError)) \<or>
     (\<exists>f cin cn w1 cn2. lc_Compact cfg = Some f \<and> compaction_run c f cin cn w1 = (Inl e, cn2, w') \<and>
        ci_Messages cin = out_Messages out \<and> is_CompactionError e \<and> fallback = OutcomeCompactionError) \<or>
     (\<exists>tc \<in> set (rsp_ToolCalls (out_Response out)). \<exists>r w1.
        exec_call c cfg (out_Iterations out) (indexTools (lc_Tools cfg)) tc w1 = ((r, Some e), w') \<and> fallback = OutcomeToolError)"

text \<open>What is reported of it: the run's context decides when it is done, and no cause is lost.\<close>

definition reported :: "error option \<Rightarrow> outcome_kind \<Rightarrow> error \<Rightarrow> outcome_kind \<Rightarrow> error \<Rightarrow> bool" where
  "reported ctxErr fallback e kind err \<longleftrightarrow>
     (case ctxErr of
        None \<Rightarrow> err = e \<and> kind = (if errors_Is (Some e) Canceled then OutcomeCanceled else fallback)
      | Some ce \<Rightarrow> kind = (if ce = DeadlineExceeded then OutcomeDeadline else OutcomeCanceled) \<and>
          errors_Is (Some err) ce \<and> (\<forall>x. errors_Is (Some e) x \<longrightarrow> errors_Is (Some err) x))"

lemma classifyStop_reported:
  "classifyStop c e fb w = (kind, err) \<Longrightarrow> wf_ctx c \<Longrightarrow> reported (ctx_Err c w) fb e kind err"
  using ctx_Err_cases [of c w] by (auto simp: classifyStop_def reported_def errors_Is_def split: option.splits if_splits)

lemma reported_kind: "reported ce fb e kind err \<Longrightarrow> kind \<in> {OutcomeCanceled, OutcomeDeadline, fb}"
  by (auto simp: reported_def split: option.splits if_splits)

lemma stopped_by_fallback:
  "stopped_by c cfg out w' fb e \<Longrightarrow> fb \<in> {OutcomeContextExceeded, OutcomeLLMError, OutcomeCompactionError, OutcomeToolError}"
  by (auto simp: stopped_by_def split: if_splits)

definition outcome_explained :: "ctx \<Rightarrow> 'a world_scheme loop_config \<Rightarrow> outcome \<Rightarrow> 'a world_scheme \<Rightarrow> bool" where
  "outcome_explained c cfg out w' \<longleftrightarrow>
     (case out_Err out of
        None \<Rightarrow> out_Kind out \<in> {OutcomeFinalAnswer, OutcomeEmptyResponse, OutcomeTerminalTool, OutcomeMaxIterations}
      | Some err \<Rightarrow> \<exists>fb e. stopped_by c cfg out w' fb e \<and> reported (ctx_Err c w') fb e (out_Kind out) err)"

lemma send_stop_explained:
  assumes "send_stop c (lc_Compact cfg) (the (lc_Client cfg)) sent kind err w" and "wf_ctx c"
    and out: "out_Kind out = kind" "out_Err out = Some err" "out_Messages out = sent"
  shows "outcome_explained c cfg out w"
  using assms(1) unfolding send_stop_def
proof (elim disjE exE conjE)
  fix e req resp w1 w2
  assume call: "cc_Complete (the (lc_Client cfg)) c req w1 = ((resp, Some e), w2)" "cr_Messages req = sent"
    and cl: "classifyStop c e (llmErrorKind e) w = (kind, err)"
  have kind: "llmErrorKind e = (if \<exists>pe. errors_As is_ProviderError (Some e) = Some pe \<and> pe_Kind pe = ErrorKindContextLength
      then OutcomeContextExceeded else OutcomeLLMError)"
    by (simp add: llmErrorKind_def split: option.split)
  have "stopped_by c cfg out w (llmErrorKind e) e"
    unfolding stopped_by_def
    by (intro disjI1 exI [of _ req] exI [of _ resp] exI [of _ w1] exI [of _ w2] conjI kind) (simp_all add: call out(3))
  with classifyStop_reported [OF cl assms(2)] out show ?thesis by (auto simp: outcome_explained_def)
next
  fix e f cin cn w1 cn2
  assume f: "lc_Compact cfg = Some f" "compaction_run c f cin cn w1 = (Inl e, cn2, w)" "ci_Messages cin = sent"
    and cl: "classifyStop c e OutcomeCompactionError w = (kind, err)"
  have "stopped_by c cfg out w OutcomeCompactionError e"
    unfolding stopped_by_def using f out(3) compaction_run_error [OF f(2)]
    by - (rule disjI2, rule disjI1, rule exI [of _ f], rule exI [of _ cin], auto)
  with classifyStop_reported [OF cl assms(2)] out show ?thesis by (auto simp: outcome_explained_def)
qed

lemma run_iteration_explained:
  assumes "run_iteration c cfg tools choice maxIter st w = (Inr out, w')" and "wf_ctx c"
  shows "outcome_explained c cfg out w'"
  using assms(1)
proof (cases rule: run_iteration_cases)
  case (stopped sent kind err cn)
  from send_stop_explained [OF stopped(3) assms(2)] stopped(4) show ?thesis by simp
next
  case (responded resp sent cn c1 req1 w1 w2 r)
  from responded(4) show ?thesis
  proof (cases rule: handle_response_cases)
    case (aborted e kind err)
    from aborted(4) responded(5) have out: "out_Kind out = kind" "out_Err out = Some err" "out_Response out = resp"
      "out_Iterations out = go_add (ls_iter (st\<lparr>ls_transcript := sent, ls_compaction := cn\<rparr>)) 1" by simp_all
    have "stopped_by c cfg out w' OutcomeToolError e"
      unfolding stopped_by_def out(3,4) using aborted(5) by blast
    with classifyStop_reported [OF aborted(3) assms(2)] out show ?thesis by (auto simp: outcome_explained_def)
  qed (use responded(5) in \<open>auto simp: outcome_explained_def\<close>)
qed

text \<open>
  C34: the kind of an outcome says what stopped the run. Without an error the loop stopped by itself, in one of four kinds. An error
  comes from the provider's last call, from a compaction of the messages sent, or from the execution of a call of the response. When the
  run's context is done the kind is the context's, canceled or deadline, whatever the error is, and the outcome's error matches the
  context's error and everything the original one matched. While the context is live the error is reported as it is: as a
  cancellation exactly when it matches \<open>context.Canceled\<close>, otherwise as context exceeded, provider, compaction or tool error after its
  source.
\<close>

theorem outcome_kind_determines_error:
  assumes "validateConfig cfg = Inr v" and "wf_ctx c" and "Run c cfg w = Some (out, w')"
  shows "(case out_Err out of
        None \<Rightarrow> out_Kind out \<in> {OutcomeFinalAnswer, OutcomeEmptyResponse, OutcomeTerminalTool, OutcomeMaxIterations}
      | Some err \<Rightarrow> \<exists>fb e. stopped_by c cfg out w' fb e \<and> reported (ctx_Err c w') fb e (out_Kind out) err) \<and>
    (out_Err out = None \<longleftrightarrow>
      out_Kind out \<in> {OutcomeFinalAnswer, OutcomeEmptyResponse, OutcomeTerminalTool, OutcomeMaxIterations})"
proof -
  obtain tools choice where "v = (tools, choice)" by (cases v)
  with assms(1,3) have "run_loop c cfg tools choice (max_iterations cfg) (start_state (cr_Messages (lc_Request cfg))) w = Some (out, w')"
    by (simp add: Run_def)
  then have explained: "outcome_explained c cfg out w'"
    by (rule run_loop_invariant [where I = "\<lambda>st w. True"]) (use run_iteration_explained assms(2) in auto)
  then have "out_Kind out \<notin> {OutcomeFinalAnswer, OutcomeEmptyResponse, OutcomeTerminalTool, OutcomeMaxIterations}"
    if "out_Err out = Some err" for err
    using that by (auto simp: outcome_explained_def outcome_consts dest!: reported_kind stopped_by_fallback)
  with explained show ?thesis by (cases "out_Err out") (auto simp: outcome_explained_def)
qed

section \<open>Usage\<close>

text \<open>What the parts of a configuration keep of the world, all but the \<open>OnIteration\<close> hook, a turn and a provider call keep too.\<close>

definition keeps :: "('w \<Rightarrow> bool) \<Rightarrow> ('w \<Rightarrow> 'r \<times> 'w) \<Rightarrow> bool" where
  "keeps P f \<longleftrightarrow> (\<forall>w. P w \<longrightarrow> P (snd (f w)))"

definition parts_keep :: "('w \<Rightarrow> bool) \<Rightarrow> 'w loop_config \<Rightarrow> bool" where
  "parts_keep P cfg \<longleftrightarrow>
     (\<forall>hook e w. lc_OnToolCall cfg = Some hook \<longrightarrow> P w \<longrightarrow> P (hook e w)) \<and>
     (\<forall>c req. keeps P (cc_Complete (the (lc_Client cfg)) c req)) \<and>
     (\<forall>f c cin. lc_Compact cfg = Some f \<longrightarrow> keeps P (f c cin)) \<and>
     (\<forall>t \<in> set (lc_Tools cfg). \<forall>c call. keeps P (the (tl_Execute t) c call))"

lemma keepsD: "keeps P f \<Longrightarrow> f w = (r, w') \<Longrightarrow> P w \<Longrightarrow> P w'"
  unfolding keeps_def by (metis snd_conv)

lemma exec_call_keeps:
  assumes k: "parts_keep P cfg" and "P w"
    and run: "exec_call c cfg n (indexTools (lc_Tools cfg)) tc w = (r, w')"
  shows "P w'"
proof -
  obtain res err w1 where d: "dispatch c tc (indexTools (lc_Tools cfg)) w = ((res, err), w1)" by (metis prod.exhaust)
  have "P w1"
  proof (cases "indexTools (lc_Tools cfg) (tc_Name tc)")
    case None
    with d \<open>P w\<close> show ?thesis by (simp add: dispatch_def)
  next
    case (Some t)
    with indexTools_SomeD have "t \<in> set (lc_Tools cfg)" by fastforce
    with k have "keeps P (the (tl_Execute t) c tc)" by (simp add: parts_keep_def)
    with d Some \<open>P w\<close> keepsD show ?thesis by (fastforce simp: dispatch_def)
  qed
  with run d k show ?thesis by (auto simp: exec_call_def Let_def parts_keep_def split: option.splits)
qed

lemma executeCalls_keeps:
  assumes k: "parts_keep P cfg"
  shows "executeCalls c cfg resp n (indexTools (lc_Tools cfg)) tr u results calls w = (r, w') \<Longrightarrow> P w \<Longrightarrow> P w'"
proof (induction calls arbitrary: results w)
  case (Cons tc rest)
  obtain res err w1 where e: "exec_call c cfg n (indexTools (lc_Tools cfg)) tc w = ((res, err), w1)" by (metis prod.exhaust)
  note same = exec_call_keeps [OF k Cons.prems(2) e]
  show ?case
  proof (cases "err = None \<and> \<not> xr_Stop res")
    case True
    with Cons.prems e Cons.IH same show ?thesis by simp
  next
    case False
    with Cons.prems e same show ?thesis by (cases err) (auto split: prod.splits)
  qed
qed simp

lemma compaction_run_keeps:
  assumes "compaction_run c f cin cn w = (x, cn', w')" and "keeps P (f c cin)" and "P w"
  shows "P w'"
proof -
  obtain res err w1 where f: "f c cin w = ((res, err), w1)" by (metis prod.exhaust)
  with assms(1) have "w' = w1" by (auto simp: compaction_run_def Let_def split: sum.splits option.splits)
  with keepsD [OF assms(2) f assms(3)] show ?thesis by simp
qed

lemma send_calls_keeps:
  assumes client: "\<forall>c req. keeps P (cc_Complete client c req)"
    and comp: "\<forall>f c cin. fn = Some f \<longrightarrow> keeps P (f c cin)"
  shows "send_calls retried c fn client req lst cn w = (r, cn', w') \<Longrightarrow> P w \<Longrightarrow> P w'"
proof (induction "if retried then 0 else Suc 0" arbitrary: retried req cn w rule: less_induct)
  case less
  note call = keepsD [OF client [rule_format] _ less.prems(2)]
  from less.prems(1) show ?case
  proof (cases rule: send_calls_cases)
    case (failed f resp e w1 cin ce kind err)
    with compaction_run_keeps [OF failed(4) comp [rule_format, OF failed(1)] call [OF failed(3)]] show ?thesis by simp
  next
    case (declined f resp e w1 cin kind err)
    with compaction_run_keeps [OF declined(3) comp [rule_format, OF declined(1)] call [OF declined(2)]] show ?thesis by simp
  next
    case (again f resp e w1 cin msgs cn2 w2)
    with compaction_run_keeps [OF again(4) comp [rule_format, OF again(2)] call [OF again(3)]] less.hyps [OF _ again(5)] show ?thesis by simp
  qed (use call in blast)+
qed

lemma send_keeps:
  assumes k: "parts_keep P cfg" and "P w"
    and run: "send c (lc_Compact cfg) (the (lc_Client cfg)) req lst cn w = (r, cn', w')"
  shows "P w'"
proof -
  have client: "\<forall>c req. keeps P (cc_Complete (the (lc_Client cfg)) c req)"
    and comp: "\<forall>f c cin. lc_Compact cfg = Some f \<longrightarrow> keeps P (f c cin)"
    using k by (simp_all add: parts_keep_def)
  note calls = send_calls_keeps [OF client comp]
  show ?thesis
  proof (cases "lc_Compact cfg")
    case None
    with run calls \<open>P w\<close> show ?thesis by (simp add: send_def)
  next
    case (Some f)
    let ?cin = "\<lparr>ci_Err = None, ci_Reason = CompactBeforeTurn, ci_LastUsage = lst, ci_Messages = cr_Messages req\<rparr>"
    obtain x cn2 w2 where cr: "compaction_run c f ?cin cn w = (x, cn2, w2)" by (metis prod.exhaust)
    have "P w2" by (rule compaction_run_keeps [OF cr comp [rule_format, OF Some] \<open>P w\<close>])
    with run calls show ?thesis
      by (cases x rule: sum_option_cases) (auto simp: send_def Some cr split: prod.splits)
  qed
qed

lemma handle_response_keeps:
  assumes k: "parts_keep P cfg" and "P (on_iteration cfg resp (ls_iter st) w)" and run: "handle_response c cfg maxIter st resp w = (res, w')"
  shows "P w'"
  using run assms(2) executeCalls_keeps [OF k]
  by (auto simp: handle_response_def run_turn_def Let_def split: if_splits prod.splits turn_result.splits option.splits)

text \<open>So a run keeps whatever all parts keep.\<close>

lemma Run_keeps:
  assumes k: "parts_keep P cfg" and hook: "\<And>hook e w. lc_OnIteration cfg = Some hook \<Longrightarrow> P w \<Longrightarrow> P (hook e w)"
    and "P w" and "Run c cfg w = Some (out, w')"
  shows "P w'"
proof (cases "validateConfig cfg")
  case (Inl e)
  with assms(3,4) show ?thesis by (simp add: Run_def)
next
  case (Inr v)
  have step: "P w'" if "P w" and "run_iteration c cfg tools choice maxIter st w = (res, w')" for tools choice maxIter st w res w'
    using that(2)
  proof (cases rule: run_iteration_cases)
    case (stopped sent kind err cn)
    from send_keeps [OF k that(1) stopped(1)] show ?thesis .
  next
    case (responded resp sent cn c1 req1 w1 w2 r)
    have "P w2" by (rule send_keeps [OF k that(1) responded(1)])
    with hook have "P (on_iteration cfg resp i w2)" for i by (simp add: on_iteration_def split: option.split)
    with responded(4) show ?thesis by (intro handle_response_keeps [OF k _ responded(4)]) simp
  qed
  obtain tools choice where v: "v = (tools, choice)" by (cases v)
  with assms(4) Inr have "run_loop c cfg tools choice (max_iterations cfg) (start_state (cr_Messages (lc_Request cfg))) w = Some (out, w')"
    by (simp add: Run_def)
  then show ?thesis by (rule run_loop_invariant [where I = "\<lambda>st. P" and Q = "\<lambda>out. P"]) (use assms(3) step in auto)
qed

text \<open>\<open>events\<close> is a log of the world that the \<open>OnIteration\<close> hook appends to and that nothing else of the
  configuration touches.\<close>

definition silent_on :: "('w \<Rightarrow> 'e) \<Rightarrow> ('w \<Rightarrow> 'r \<times> 'w) \<Rightarrow> bool" where
  "silent_on events f \<longleftrightarrow> (\<forall>w. events (snd (f w)) = events w)"

definition logging :: "('w \<Rightarrow> iteration_event list) \<Rightarrow> 'w loop_config \<Rightarrow> bool" where
  "logging events cfg \<longleftrightarrow>
     (\<exists>hook. lc_OnIteration cfg = Some hook \<and> (\<forall>e w. events (hook e w) = events w @ [e])) \<and>
     (\<forall>hook e w. lc_OnToolCall cfg = Some hook \<longrightarrow> events (hook e w) = events w) \<and>
     (\<forall>c req. silent_on events (cc_Complete (the (lc_Client cfg)) c req)) \<and>
     (\<forall>f c cin. lc_Compact cfg = Some f \<longrightarrow> silent_on events (f c cin)) \<and>
     (\<forall>t \<in> set (lc_Tools cfg). \<forall>c call. silent_on events (the (tl_Execute t) c call))"

lemma logging_parts: "logging events cfg \<Longrightarrow> parts_keep (\<lambda>w. events w = evs) cfg"
  by (auto simp: logging_def parts_keep_def keeps_def silent_on_def)

lemma logging_executeCalls:
  assumes "logging events cfg" and "executeCalls c cfg resp n (indexTools (lc_Tools cfg)) tr u results calls w = (r, w')"
  shows "events w' = events w"
  by (rule executeCalls_keeps [OF logging_parts [OF assms(1)] assms(2) refl])

lemma logging_send:
  assumes "logging events cfg" and "send c (lc_Compact cfg) (the (lc_Client cfg)) req lst cn w = (r, cn', w')"
  shows "events w' = events w"
  by (rule send_keeps [OF logging_parts [OF assms(1)] refl assms(2)])

text \<open>The response an outcome reports: the last one observed.\<close>

definition last_response :: "iteration_event list \<Rightarrow> chat_response" where
  "last_response evs = (if evs = [] then zero_response else ie_Response (last evs))"

definition event_usage :: "iteration_event list \<Rightarrow> usage_sum" where
  "event_usage evs = foldl addUsage zero_sum (map (\<lambda>e. rsp_Usage (ie_Response e)) evs)"

lemma event_simps [simp]:
  "event_usage (evs @ [e]) = addUsage (event_usage evs) (rsp_Usage (ie_Response e))"
  "last_response (evs @ [e]) = ie_Response e" "event_usage [] = zero_sum" "last_response [] = zero_response"
  by (simp_all add: event_usage_def last_response_def)

lemma run_iteration_events:
  assumes l: "logging events cfg" and run: "run_iteration c cfg tools choice maxIter st w = (res, w')"
    and st: "ls_usage st = event_usage evs" "ls_last st = last_response evs" and w: "events w = old @ evs"
  shows "\<exists>evs'. events w' = old @ evs' \<and>
    (\<forall>st'. res = Inl st' \<longrightarrow> ls_usage st' = event_usage evs' \<and> ls_last st' = last_response evs') \<and>
    (\<forall>out. res = Inr out \<longrightarrow> out_TotalUsage out = us_total (event_usage evs') \<and> out_Response out = last_response evs')"
  using run
proof (cases rule: run_iteration_cases)
  case (stopped sent kind err cn)
  from logging_send [OF l stopped(1)] w have "events w' = old @ evs" by simp
  with stopped(4) st show ?thesis by (intro exI [of _ evs]) simp
next
  case (responded resp sent cn c1 req1 w1 w2 r)
  let ?ev = "\<lparr>ie_Response = resp, ie_Index = ls_iter st, ie_NumToolCalls = int (length (rsp_ToolCalls resp))\<rparr>"
  have hook: "events (on_iteration cfg resp (ls_iter st) w2) = old @ evs @ [?ev]"
    using l logging_send [OF l responded(1)] w by (auto simp: logging_def on_iteration_def)
  have "events w' = old @ evs @ [?ev]"
    using responded(4) hook logging_executeCalls [OF l]
    by (auto simp: handle_response_def run_turn_def Let_def split: if_splits prod.splits turn_result.splits option.splits)
  moreover from responded(4)
  have "(\<forall>st'. res = Inl st' \<longrightarrow> ls_usage st' = event_usage (evs @ [?ev]) \<and> ls_last st' = resp) \<and>
    (\<forall>out. res = Inr out \<longrightarrow> out_TotalUsage out = us_total (event_usage (evs @ [?ev])) \<and> out_Response out = resp)"
    by (cases rule: handle_response_cases) (use responded(5) st in auto)
  ultimately show ?thesis by (intro exI [of _ "evs @ [?ev]"]) simp
qed

text \<open>
  the reported usage is accounted for. With an observer that logs the iteration events, the total
  usage of the outcome is the sum of the usage of the responses observed, one event each, and the
  outcome's response is the last of them.
\<close>

theorem total_usage_is_observed:
  assumes "validateConfig cfg = Inr v" and "logging events cfg" and "Run c cfg w = Some (out, w')"
  shows "\<exists>evs. events w' = events w @ evs \<and> out_TotalUsage out = us_total (event_usage evs) \<and>
    out_Response out = last_response evs"
proof -
  obtain tools choice where "v = (tools, choice)" by (cases v)
  with assms(1,3) have "run_loop c cfg tools choice (max_iterations cfg) (start_state (cr_Messages (lc_Request cfg))) w = Some (out, w')"
    by (simp add: Run_def)
  then show ?thesis
  proof (rule run_loop_invariant [where I = "\<lambda>st w1. \<exists>evs. events w1 = events w @ evs \<and>
        ls_usage st = event_usage evs \<and> ls_last st = last_response evs"])
    show "\<exists>evs. events w = events w @ evs \<and> ls_usage (start_state (cr_Messages (lc_Request cfg))) = event_usage evs \<and>
        ls_last (start_state (cr_Messages (lc_Request cfg))) = last_response evs"
      by (intro exI [of _ "[]"]) (simp add: start_state_def)
  qed (use run_iteration_events [OF assms(2)] in fastforce)+
qed

end
