(* ===== verification/CompactProps.thy ===== *)
theory CompactProps
  imports Compact ToolLoopGuarantees "HOL-Library.Multiset"
begin

text \<open>
  The compactors keep transcripts valid. A transcript of the grammar can be cut wherever a tool message
  does not follow (\<open>cut_point\<close>), every index the cut rule computes is such a point, and removing
  reasoning keeps the grammar; so what \<open>KeepLast\<close> and \<open>Summarize\<close> return is always adopted by the loop.
\<close>

section \<open>Cutting a transcript\<close>

definition cut_point :: "message list \<Rightarrow> nat \<Rightarrow> bool" where
  "cut_point ms i \<longleftrightarrow> i \<le> length ms \<and> (i < length ms \<longrightarrow> m_Role (ms ! i) \<noteq> RoleTool)"

lemma cut_point_ends [simp]: "cut_point ms (length ms)"
  by (simp add: cut_point_def)

lemma user_role: "user_ok u \<Longrightarrow> m_Role u = RoleUser" and tool_role: "tool_ok t \<Longrightarrow> m_Role t = RoleTool"
  and assistant_role: "assistant_ok a \<Longrightarrow> m_Role a = RoleAssistant"
  by (simp_all add: user_ok_def tool_ok_def assistant_ok_def)

lemma wf_append: "wf_transcript ys \<Longrightarrow> wf_transcript xs \<Longrightarrow> wf_transcript (xs @ ys)"
proof (induction rule: wf_transcript.induct)
  case (wf_user ms u)
  then show ?case using wf_transcript.wf_user [of "xs @ ms" u] by simp
next
  case (wf_turn ms a tools)
  then show ?case using wf_transcript.wf_turn [of "xs @ ms" a tools] by simp
qed simp

lemma wf_cut: "wf_transcript ms \<Longrightarrow> cut_point ms i \<Longrightarrow> wf_transcript (take i ms) \<and> wf_transcript (drop i ms)"
proof (induction rule: wf_transcript.induct)
  case (wf_user ms u)
  show ?case
  proof (cases "i \<le> length ms")
    case True
    with wf_user.prems have "cut_point ms i" by (auto simp: cut_point_def nth_append)
    with wf_user True show ?thesis by (auto intro: wf_transcript.wf_user)
  next
    case False
    with wf_user.prems wf_user have "i = Suc (length ms)" by (auto simp: cut_point_def)
    with wf_user show ?thesis by (auto intro: wf_transcript.wf_user)
  qed
next
  case (wf_turn ms a tools)
  note turn = wf_transcript.wf_turn [OF _ wf_turn(2,3,4,5)]
  show ?case
  proof (cases "i \<le> length ms")
    case True
    with wf_turn.prems have "cut_point ms i" by (auto simp: cut_point_def nth_append)
    with wf_turn.IH True show ?thesis by (auto intro: turn)
  next
    case False
    show ?thesis
    proof (cases "i < length (ms @ a # tools)")
      case True
      with False have "(ms @ a # tools) ! i = tools ! (i - Suc (length ms))" "i - Suc (length ms) < length tools"
        by (auto simp: nth_append)
      then have "m_Role ((ms @ a # tools) ! i) = RoleTool" using wf_turn(3) tool_role by (metis nth_mem)
      with wf_turn.prems True show ?thesis by (simp add: cut_point_def)
    next
      case False
      then show ?thesis using wf_turn(1) by (auto intro: turn)
    qed
  qed
qed simp

lemma wf_slice:
  assumes "wf_transcript ms" and "cut_point ms a" and "cut_point ms b" and "a \<le> b"
  shows "wf_transcript (slice ms a b)"
proof -
  have "wf_transcript (drop a ms)" using wf_cut assms(1,2) by blast
  moreover have "cut_point (drop a ms) (b - a)" using assms(2-4) by (auto simp: cut_point_def)
  ultimately show ?thesis unfolding slice_def using wf_cut by blast
qed

lemma wf_after_user:
  assumes "wf_transcript ms" and "Suc i < length ms" and "m_Role (ms ! i) = RoleUser"
  shows "m_Role (ms ! Suc i) \<noteq> RoleTool"
proof
  assume tool: "m_Role (ms ! Suc i) = RoleTool"
  have "wf_transcript (drop i ms)" using wf_cut [OF assms(1), of i] assms(2,3) by (simp add: cut_point_def)
  moreover have "drop i ms = ms ! i # ms ! Suc i # drop (Suc (Suc i)) ms" using assms(2) by (simp add: Cons_nth_drop_Suc)
  ultimately obtain s where "validate_from init_pairing 0 (ms ! i # ms ! Suc i # drop (Suc (Suc i)) ms) = Inr s"
    using wf_transcript_validates by metis
  then obtain s1 where "validate_message init_pairing 0 (ms ! i) = Inr s1"
    and s2: "\<exists>s2. validate_message s1 1 (ms ! Suc i) = Inr s2" by (auto split: sum.splits)
  with validate_user [OF assms(3)] have "s1 = init_pairing" by blast
  with s2 validate_tool [OF tool] have "tool_ok (ms ! Suc i)" "set (result_ids (ms ! Suc i)) \<subseteq> {}"
    by (metis pairing.select_convs(1))+
  then show False by (simp add: tool_ok_def result_ids_def)
qed

section \<open>Removing reasoning\<close>

lemma wf_WithoutReasoning: "wf_transcript ms \<Longrightarrow> wf_transcript (WithoutReasoning ms)"
  unfolding WithoutReasoning_eq by (rule wf_strip)

section \<open>The loops of the cut rule\<close>

lemma back_while_bounds: "head \<le> i \<Longrightarrow> head \<le> back_while P msgs head i \<and> back_while P msgs head i \<le> i"
  by (induction i) auto

lemma back_while_all: "back_while P msgs head i \<le> j \<Longrightarrow> j < i \<Longrightarrow> P (msgs ! j)"
  by (induction i) (auto split: if_splits simp: less_Suc_eq)

lemma back_while_stop: "back_while P msgs head i = 0 \<or> back_while P msgs head i \<le> head \<or> \<not> P (msgs ! (back_while P msgs head i - 1))"
  by (induction i) auto

lemma find_head_bounds:
  "i \<le> find_head i ms \<and> find_head i ms \<le> i + length ms \<and>
     (find_head i ms = i + length ms \<or> i < find_head i ms \<and> m_Role (ms ! (find_head i ms - 1 - i)) = RoleUser)"
proof (induction ms arbitrary: i)
  case (Cons m ms)
  from Cons.IH [of "Suc i"] show ?case by (auto simp: nth_Cons' Suc_diff_Suc)
qed simp

lemma find_head_cut:
  assumes "wf_transcript ms"
  shows "cut_point ms (find_head 0 ms)"
proof (cases "find_head 0 ms < length ms")
  case True
  with find_head_bounds [of 0 ms] have "m_Role (ms ! (find_head 0 ms - 1)) = RoleUser" "0 < find_head 0 ms" by auto
  with True wf_after_user [OF assms, of "find_head 0 ms - 1"] show ?thesis by (simp add: cut_point_def)
qed (use find_head_bounds [of 0 ms] in \<open>auto simp: cut_point_def\<close>)

lemma back_while_cut:
  assumes "cut_point ms i" and "head \<le> i" and "\<And>m. P m \<Longrightarrow> m_Role m \<noteq> RoleTool"
  shows "cut_point ms (back_while P ms head i)"
proof (cases "back_while P ms head i < i")
  case True
  with back_while_all [of P ms head i "back_while P ms head i"] assms show ?thesis by (auto simp: cut_point_def)
next
  case False
  with back_while_bounds [OF assms(2), of P ms] assms(1) show ?thesis by simp
qed

lemma is_user_not_tool: "is_user m \<Longrightarrow> m_Role m \<noteq> RoleTool"
  by (simp add: is_user_def)

lemma turn_starts_mem:
  assumes "s \<in> set (turn_starts ms head)"
  shows "head \<le> s \<and> s \<le> length ms \<and> cut_point ms s"
proof -
  from assms obtain i where i: "head \<le> i" "i < length ms" "m_Role (ms ! i) = RoleAssistant"
    and s: "s = back_while is_user ms head i" by (auto simp: turn_starts_def)
  then have "cut_point ms i" by (simp add: cut_point_def)
  with back_while_cut [OF this i(1), of is_user] back_while_bounds [OF i(1), of is_user ms] i(2) is_user_not_tool s
  show ?thesis by auto
qed

lemma split_cut_ok:
  assumes "cut_point ms head"
  shows "head \<le> split_cut ms head keep \<and> cut_point ms (split_cut ms head keep)"
proof -
  have le: "head \<le> length ms" using assms by (simp add: cut_point_def)
  consider "keep > 0" "int (length (turn_starts ms head)) \<le> keep"
    | "keep > 0" "int (length (turn_starts ms head)) > keep" | "keep \<le> 0" by linarith
  then show ?thesis
  proof cases
    case 2
    then have "length (turn_starts ms head) - nat keep < length (turn_starts ms head)" by linarith
    from turn_starts_mem [OF nth_mem [OF this]] 2 show ?thesis by (simp add: split_cut_def Let_def)
  next
    case 3
    with back_while_cut [OF cut_point_ends le, of is_user] back_while_bounds [OF le, of is_user ms] is_user_not_tool
    show ?thesis by (auto simp: split_cut_def Let_def)
  qed (use assms in \<open>simp add: split_cut_def Let_def\<close>)
qed

text \<open>The in-flight prompt: a run of user messages that is cut at both ends, and the last of its kind.\<close>

definition prompt_message :: "message \<Rightarrow> bool" where
  "prompt_message m \<longleftrightarrow> m_Role m = RoleUser \<and> \<not> isSummary m"

lemma inFlightPrompt_ok:
  assumes "wf_transcript ms" and "head \<le> length ms" and "inFlightPrompt ms head = (pin, pend)" and "pin < pend"
  shows "head \<le> pin \<and> cut_point ms pin \<and> cut_point ms pend \<and>
    (\<forall>j. pin \<le> j \<and> j < pend \<longrightarrow> prompt_message (ms ! j)) \<and> (\<forall>j. pend \<le> j \<and> j < length ms \<longrightarrow> \<not> prompt_message (ms ! j))"
proof -
  let ?Q = "\<lambda>m. m_Role m \<noteq> RoleUser \<or> isSummary m" and ?P = "\<lambda>m. m_Role m = RoleUser \<and> \<not> isSummary m"
  from assms(3,4) have pe: "pend = back_while ?Q ms head (length ms)" and pb: "pin = back_while ?P ms head pend"
    by (auto simp: inFlightPrompt_def Let_def split: if_splits)
  from back_while_bounds [OF assms(2), of ?Q ms] pe have b: "head \<le> pend" "pend \<le> length ms" by auto
  from back_while_bounds [OF b(1), of ?P ms] pb have "head \<le> pin" by auto
  have prompt: "prompt_message (ms ! j)" if "pin \<le> j" "j < pend" for j
    using back_while_all [of ?P ms head pend j] that pb by (simp add: prompt_message_def)
  have rest: "\<not> prompt_message (ms ! j)" if "pend \<le> j" "j < length ms" for j
    using back_while_all [of ?Q ms head "length ms" j] that pe by (auto simp: prompt_message_def)
  have "cut_point ms pin" using prompt [of pin] assms(4) b(2) by (auto simp: cut_point_def prompt_message_def)
  moreover have "cut_point ms pend"
    using wf_after_user [OF assms(1), of "pend - 1"] prompt [of "pend - 1"] assms(4) b(2)
    by (auto simp: cut_point_def prompt_message_def)
  ultimately show ?thesis using \<open>head \<le> pin\<close> prompt rest by blast
qed

definition span_ok :: "message list \<Rightarrow> span \<Rightarrow> bool" where
  "span_ok ms s \<longleftrightarrow> sp_head s \<le> sp_pin s \<and> sp_pin s \<le> sp_pinEnd s \<and> sp_pinEnd s \<le> sp_cut s \<and> sp_cut s \<le> length ms \<and>
     cut_point ms (sp_head s) \<and> cut_point ms (sp_pin s) \<and> cut_point ms (sp_pinEnd s) \<and> cut_point ms (sp_cut s) \<and>
     (\<forall>j. sp_pin s \<le> j \<and> j < sp_pinEnd s \<longrightarrow> prompt_message (ms ! j))"

lemma split_msgs_sel:
  "sp_head (split_msgs ms keep) = find_head 0 ms" "sp_cut (split_msgs ms keep) = split_cut ms (find_head 0 ms) keep"
  by (simp_all add: split_msgs_def Let_def split: prod.split)

lemma split_msgs_ok:
  assumes wf: "wf_transcript ms"
  shows "span_ok ms (split_msgs ms keep)"
proof -
  let ?h = "find_head 0 ms" and ?c = "split_cut ms (find_head 0 ms) keep"
  have h: "cut_point ms ?h" by (rule find_head_cut [OF wf])
  from split_cut_ok [OF h] have c: "?h \<le> ?c" "cut_point ms ?c" by auto
  obtain pin pend where p: "inFlightPrompt ms ?h = (pin, pend)" by (metis prod.exhaust)
  show ?thesis
  proof (cases "pin < pend \<and> pend \<le> ?c")
    case True
    from h have "?h \<le> length ms" by (simp add: cut_point_def)
    from inFlightPrompt_ok [OF wf this p] True h c show ?thesis
      by (auto simp: split_msgs_def p span_ok_def Let_def cut_point_def)
  next
    case False
    with h c show ?thesis by (auto simp: split_msgs_def p span_ok_def Let_def cut_point_def)
  qed
qed

section \<open>The kept transcript\<close>

lemma find_head_pos: "ms \<noteq> [] \<Longrightarrow> 0 < find_head 0 ms"
  using find_head_bounds [of 0 ms] by auto

lemma slice_last_user:
  assumes "a < b" and "b \<le> length ms" and "\<forall>j. a \<le> j \<and> j < b \<longrightarrow> prompt_message (ms ! j)"
  shows "slice ms a b \<noteq> [] \<and> m_Role (last (slice ms a b)) = RoleUser"
proof -
  have "last (slice ms a b) = ms ! (b - 1)" using assms(1,2) by (simp add: slice_def last_conv_nth)
  with assms show ?thesis by (auto simp: slice_def prompt_message_def)
qed

text \<open>A compacted transcript is one the loop adopts: \<open>ins\<close> is empty or ends with a user message.\<close>

lemma kept_adoptable:
  fixes keep :: int
  assumes wf: "wf_transcript ms" and ne: "ms \<noteq> []" and lst: "m_Role (last ms) \<noteq> RoleAssistant"
    and ins: "wf_transcript ins" "ins \<noteq> [] \<longrightarrow> m_Role (last ins) = RoleUser"
  defines "k \<equiv> kept (split_msgs ms keep) ms ins"
  shows "k \<noteq> [] \<and> wf_transcript k \<and> m_Role (last k) \<noteq> RoleAssistant"
proof -
  let ?s = "split_msgs ms keep"
  have s: "span_ok ms ?s" by (rule split_msgs_ok [OF wf])
  then have "wf_transcript (take (sp_head ?s) ms)" "wf_transcript (slice ms (sp_pin ?s) (sp_pinEnd ?s))"
    "wf_transcript (drop (sp_cut ?s) ms)"
    using wf wf_cut wf_slice by (auto simp: span_ok_def)
  with ins(1) have w: "wf_transcript k" unfolding k_def kept_def by (intro wf_append)
  have head: "take (sp_head ?s) ms \<noteq> []" using find_head_pos [OF ne] ne by (simp add: split_msgs_sel)
  have "m_Role (last (take (sp_head ?s) ms)) \<noteq> RoleAssistant"
  proof (cases "sp_head ?s = length ms")
    case False
    with find_head_bounds [of 0 ms] have "m_Role (ms ! (sp_head ?s - 1)) = RoleUser" "sp_head ?s < length ms" "0 < sp_head ?s"
      by (auto simp: split_msgs_sel)
    then show ?thesis using head by (simp add: last_conv_nth)
  qed (use lst in simp)
  moreover have "m_Role (last (slice ms (sp_pin ?s) (sp_pinEnd ?s))) = RoleUser" if "slice ms (sp_pin ?s) (sp_pinEnd ?s) \<noteq> []"
  proof -
    have "sp_pin ?s < sp_pinEnd ?s" using that by (cases "sp_pin ?s < sp_pinEnd ?s") (simp_all add: slice_def)
    moreover have "sp_pinEnd ?s \<le> length ms" "\<forall>j. sp_pin ?s \<le> j \<and> j < sp_pinEnd ?s \<longrightarrow> prompt_message (ms ! j)"
      using s by (auto simp: span_ok_def)
    ultimately show ?thesis using slice_last_user by blast
  qed
  moreover have "m_Role (last (drop (sp_cut ?s) ms)) \<noteq> RoleAssistant" if "drop (sp_cut ?s) ms \<noteq> []"
    using that lst by (simp add: last_drop)
  ultimately show ?thesis using w head ins(2) unfolding k_def kept_def by (auto simp: last_append)
qed

lemma kept_length: "span_ok ms s \<Longrightarrow> drops s \<Longrightarrow> length (kept s ms []) < length ms"
  by (auto simp: span_ok_def drops_def kept_def slice_def)

lemma last_WithoutReasoning: "ms \<noteq> [] \<Longrightarrow> m_Role (last (WithoutReasoning ms)) = m_Role (last ms)"
  by (simp add: WithoutReasoning_eq last_map)

lemma adopt_ok:
  "msgs \<noteq> [] \<Longrightarrow> wf_transcript msgs \<Longrightarrow> m_Role (last msgs) \<noteq> RoleAssistant \<Longrightarrow> cres_Messages res = Some msgs \<Longrightarrow>
     adopt cin (res, None) = Inr (Some msgs)"
  using ValidateMessages_None_iff [of msgs] by (simp add: adopt_def)

lemma keep_last_compact_cases:
  assumes "keep_last_compact cfg c cin w = ((res, err), w')"
  obtains (no_change) "err = None" "w' = w" "cres_Messages res = None"
  | (compacted) "err = None" "w' = w" "drops (split_msgs (ci_Messages cin) (kl_Turns cfg))"
      "cres_Messages res = Some (WithoutReasoning (kept (split_msgs (ci_Messages cin) (kl_Turns cfg)) (ci_Messages cin) []))"
  using assms by (auto simp: keep_last_compact_def Let_def no_change_def split: if_splits)

lemma keep_last_adopted:
  assumes "good_messages (ci_Messages cin)" and "m_Role (last (ci_Messages cin)) \<noteq> RoleAssistant"
    and "keep_last_compact cfg c cin w = ((res, err), w')" and "cres_Messages res = Some msgs"
  shows "adopt cin (res, err) = Inr (Some msgs) \<and> length msgs < length (ci_Messages cin) \<and>
    (\<forall>m \<in> set msgs. \<forall>p \<in> set (m_Content m). cp_Type p \<noteq> ContentReasoning)"
proof -
  let ?ms = "ci_Messages cin" and ?s = "split_msgs (ci_Messages cin) (kl_Turns cfg)"
  let ?k = "kept ?s ?ms []"
  have ms: "?ms \<noteq> []" "wf_transcript ?ms" using assms(1) by (simp_all add: good_messages_def)
  have k: "?k \<noteq> [] \<and> wf_transcript ?k \<and> m_Role (last ?k) \<noteq> RoleAssistant"
    by (rule kept_adoptable [OF ms(2,1) assms(2)]) simp_all
  from assms(3) show ?thesis
  proof (cases rule: keep_last_compact_cases)
    case compacted
    with assms(4) have m: "msgs = WithoutReasoning ?k" by simp
    have "adopt cin (res, None) = Inr (Some msgs)"
      by (rule adopt_ok) (use k m assms(4) in \<open>simp_all add: wf_WithoutReasoning last_WithoutReasoning\<close>)
    with m kept_length [OF split_msgs_ok [OF ms(2)] compacted(3)] compacted(1) WithoutReasoning_parts show ?thesis by auto
  qed (use assms(4) in simp)
qed

section \<open>What is kept\<close>

text \<open>A turn starts at an assistant message; \<open>turns\<close> counts them.\<close>

definition turns :: "message list \<Rightarrow> nat" where
  "turns ms = length (filter (\<lambda>m. m_Role m = RoleAssistant) ms)"

lemma turns_drop: "turns (drop h ms) = length (filter (\<lambda>i. m_Role (ms ! i) = RoleAssistant) [h..<length ms])"
proof -
  have "drop h ms = map ((!) ms) [h..<length ms]" by (metis drop_map drop_upt map_nth add_0)
  then show ?thesis by (simp add: turns_def filter_map comp_def)
qed

lemma filter_upt_nth:
  assumes "k < length (filter P [h..<n])"
  shows "length (filter P [filter P [h..<n] ! k..<n]) = length (filter P [h..<n]) - k"
proof -
  let ?x = "filter P [h..<n] ! k" and ?A = "filter P [h..<filter P [h..<n] ! k]"
  have x: "h \<le> ?x" "?x < n" "P ?x" using nth_mem [OF assms] by auto
  have "[h..<n] = [h..<?x] @ [?x..<n]" using x upt_add_eq_append [of h ?x "n - ?x"] by simp
  then have split: "filter P [h..<n] = ?A @ filter P [?x..<n]" by (metis filter_append)
  have "filter P [y..<n] = y # filter P [Suc y..<n]" if "y < n" "P y" for y using that by (simp add: upt_conv_Cons)
  from this [OF x(2,3)] have "filter P [?x..<n] = ?x # filter P [Suc ?x..<n]" .
  moreover have pos: "xs ! length as = x \<and> length as < length xs" if "xs = as @ x # bs" for xs as bs and x :: nat
    using that by simp
  ultimately have "filter P [h..<n] ! length ?A = ?x" "length ?A < length (filter P [h..<n])"
    using split pos by metis+
  then have "length ?A = k" using nth_eq_iff_index_eq [of "filter P [h..<n]" "length ?A" k] assms by simp
  then show ?thesis using split by (metis length_append add_diff_cancel_left')
qed

text \<open>The users before a turn are part of it: moving a cut back over them adds no turn.\<close>

lemma turns_back_users:
  assumes "head \<le> i" and "i \<le> length ms"
  shows "turns (drop (back_while is_user ms head i) ms) = turns (drop i ms)"
proof -
  let ?b = "back_while is_user ms head i"
  have b: "?b \<le> i" using back_while_bounds [OF assms(1)] by blast
  have "drop ?b ms = take (i - ?b) (drop ?b ms) @ drop i ms"
    by (metis append_take_drop_id b drop_drop le_add_diff_inverse2)
  moreover have "turns (take (i - ?b) (drop ?b ms)) = 0"
  proof -
    have "m_Role m \<noteq> RoleAssistant" if "m \<in> set (take (i - ?b) (drop ?b ms))" for m
    proof -
      from that obtain j where "j < i - ?b" "m = ms ! (?b + j)" using assms(2) by (auto simp: in_set_conv_nth)
      with back_while_all [of is_user ms head i "?b + j"] show ?thesis by (simp add: is_user_def)
    qed
    then show ?thesis by (simp add: turns_def filter_empty_conv)
  qed
  ultimately show ?thesis by (metis add_0 filter_append length_append turns_def)
qed

lemma split_cut_turns:
  assumes "head \<le> length ms" and "0 \<le> keep"
  shows "turns (drop (split_cut ms head keep) ms) = min (nat keep) (turns (drop head ms))"
proof -
  let ?is = "filter (\<lambda>i. m_Role (ms ! i) = RoleAssistant) [head..<length ms]"
  have n: "length (turn_starts ms head) = turns (drop head ms)" "length ?is = turns (drop head ms)"
    by (simp_all add: turn_starts_def turns_drop)
  consider "keep > 0" "int (length ?is) \<le> keep" | "keep > 0" "int (length ?is) > keep" | "keep = 0"
    using assms(2) by linarith
  then show ?thesis
  proof cases
    case 1
    with n show ?thesis by (simp add: split_cut_def Let_def)
  next
    case 2
    let ?k = "length ?is - nat keep"
    have k: "?k < length ?is" using 2 by linarith
    have "?is ! ?k \<in> set ?is" using k by (rule nth_mem)
    then have i: "head \<le> ?is ! ?k" "?is ! ?k < length ms" by auto
    have "split_cut ms head keep = back_while is_user ms head (?is ! ?k)"
      using 2 k n by (simp add: split_cut_def turn_starts_def Let_def)
    then have "turns (drop (split_cut ms head keep) ms) = turns (drop (?is ! ?k) ms)"
      using turns_back_users i by simp
    also have "\<dots> = length ?is - ?k" unfolding turns_drop by (rule filter_upt_nth [OF k])
    also have "\<dots> = nat keep" using 2 by linarith
    finally show ?thesis using 2 n by simp
  next
    case 3
    then show ?thesis using turns_back_users [OF assms(1) order_refl] by (simp add: split_cut_def Let_def turns_def)
  qed
qed

lemma slice_append:
  assumes "a \<le> b" and "b \<le> d"
  shows "slice ms a b @ slice ms b d = slice ms a d"
proof -
  have "d - a = (b - a) + (d - b)" "drop (b - a) (drop a ms) = drop b ms" using assms by simp_all
  then show ?thesis unfolding slice_def by (metis take_add)
qed

lemma take_slice_drop: "a \<le> b \<Longrightarrow> take a ms @ slice ms a b @ drop b ms = ms"
  using slice_append [of 0 a b ms] by (simp add: slice_def flip: append_assoc)

lemma span_partition:
  assumes "span_ok ms s"
  shows "mset (kept s ms []) + mset (dropped s ms) = mset ms"
proof -
  have "slice ms (sp_head s) (sp_cut s) =
      slice ms (sp_head s) (sp_pin s) @ slice ms (sp_pin s) (sp_pinEnd s) @ slice ms (sp_pinEnd s) (sp_cut s)"
    using assms by (simp add: slice_append span_ok_def)
  moreover have "mset ms = mset (take (sp_head s) ms @ slice ms (sp_head s) (sp_cut s) @ drop (sp_cut s) ms)"
    using assms by (subst take_slice_drop) (auto simp: span_ok_def)
  ultimately show ?thesis by (simp add: kept_def dropped_def)
qed

lemma last_prompt_pinned:
  fixes keep :: int
  assumes wf: "wf_transcript ms" and lst: "ms \<noteq> []" "m_Role (last ms) \<noteq> RoleAssistant"
    and j: "find_head 0 ms \<le> j" "j < length ms" "prompt_message (ms ! j)"
    and no: "\<forall>i. j < i \<and> i < length ms \<longrightarrow> \<not> prompt_message (ms ! i)"
  defines "s \<equiv> split_msgs ms keep"
  shows "ms ! j \<in> set (slice ms (sp_pin s) (sp_pinEnd s)) \<union> set (drop (sp_cut s) ms)"
proof -
  let ?h = "find_head 0 ms" and ?Q = "\<lambda>m. m_Role m \<noteq> RoleUser \<or> isSummary m" and ?P = "\<lambda>m. m_Role m = RoleUser \<and> \<not> isSummary m"
  let ?pe = "back_while ?Q ms ?h (length ms)" and ?pn = "back_while ?P ms ?h (Suc j)"
  have h: "?h \<le> length ms" using find_head_cut [OF wf] by (simp add: cut_point_def)
  have "j < ?pe"
    using back_while_all [of ?Q ms ?h "length ms" j] j by (cases "?pe \<le> j") (auto simp: prompt_message_def)
  moreover have "\<not> j < ?pe - 1"
  proof
    assume a: "j < ?pe - 1"
    with back_while_stop [of ?Q ms ?h "length ms"] j(1) have "prompt_message (ms ! (?pe - 1))" by (auto simp: prompt_message_def)
    moreover have "?pe - 1 < length ms" using back_while_bounds [OF h, of ?Q ms] a by linarith
    ultimately show False using no a by blast
  qed
  ultimately have pe: "?pe = Suc j" by linarith
  have "?pn \<le> j" using j back_while_bounds [OF j(1), of ?P ms] by (auto simp: prompt_message_def)
  moreover have "\<not> (ms = [] \<or> m_Role (last ms) = RoleAssistant)" using lst by simp
  then have "inFlightPrompt ms ?h = (?pn, Suc j)" unfolding inFlightPrompt_def Let_def pe by (simp only: if_False)
  ultimately obtain pn where pn: "pn \<le> j" and p: "inFlightPrompt ms ?h = (pn, Suc j)" by blast
  show ?thesis
  proof (cases "Suc j \<le> sp_cut s")
    case True
    then have "sp_pin s = pn" "sp_pinEnd s = Suc j"
      using pn by (simp_all add: s_def split_msgs_def split_msgs_sel p Let_def split: if_splits)
    moreover have "slice ms pn (Suc j) ! (j - pn) = ms ! j" "j - pn < length (slice ms pn (Suc j))"
      using pn j(2) by (simp_all add: slice_def)
    ultimately show ?thesis by (metis UnI1 nth_mem)
  next
    case False
    then have "drop (sp_cut s) ms ! (j - sp_cut s) = ms ! j" "j - sp_cut s < length (drop (sp_cut s) ms)" using j(2) by simp_all
    then show ?thesis by (metis UnI2 nth_mem)
  qed
qed

lemma dropped_nonempty:
  assumes "span_ok ms s" and "drops s"
  shows "dropped s ms \<noteq> []"
proof -
  have o: "sp_head s \<le> sp_pin s" "sp_pin s \<le> sp_pinEnd s" "sp_pinEnd s \<le> sp_cut s" "sp_cut s \<le> length ms"
    using assms(1) by (simp_all add: span_ok_def)
  then have "length (dropped s ms) = (sp_pin s - sp_head s) + (sp_cut s - sp_pinEnd s)" by (simp add: dropped_def slice_def)
  moreover have "sp_head s < sp_pin s \<or> sp_pinEnd s < sp_cut s" using assms(2) o by (simp add: drops_def) linarith
  ultimately show ?thesis by auto
qed

lemma slice_mem:
  assumes "m \<in> set (slice ms a b)" and "b \<le> length ms"
  shows "\<exists>j. a \<le> j \<and> j < b \<and> m = ms ! j"
proof -
  from assms(1) obtain i where i: "i < length (slice ms a b)" "m = slice ms a b ! i" by (auto simp: in_set_conv_nth)
  with assms(2) have "a + i < b \<and> m = ms ! (a + i)" by (auto simp: slice_def)
  then show ?thesis by (intro exI [of _ "a + i"]) simp
qed

text \<open>
  \<open>KeepLast\<close> keeps what its contract says and drops only the rest. What remains of a valid transcript is
  its head through the first user message, the last prompt still being answered, and a suffix with
  exactly the last \<open>Turns\<close> turns (or all turns there are), in order; every other message is dropped, and
  there is at least one.
\<close>

theorem keep_last_keeps_recent_turns:
  assumes "KeepLast cfg = Inr f" and "ValidateMessages ms = None" and "ms = ci_Messages cin"
    and "f c cin w = ((res, err), w')" and "cres_Messages res = Some msgs"
  shows "\<exists>h prompt k gone. msgs = WithoutReasoning (take h ms @ prompt @ drop k ms) \<and>
    (h = length ms \<or> 0 < h \<and> m_Role (ms ! (h - 1)) = RoleUser) \<and> h \<le> k \<and>
    turns (drop k ms) = min (nat (kl_Turns cfg)) (turns (drop h ms)) \<and>
    (\<forall>m \<in> set prompt. prompt_message m) \<and>
    mset (take h ms @ prompt @ drop k ms) + mset gone = mset ms \<and> gone \<noteq> [] \<and>
    (\<forall>j. m_Role (last ms) \<noteq> RoleAssistant \<and> h \<le> j \<and> j < length ms \<and> prompt_message (ms ! j) \<and>
         (\<forall>i. j < i \<and> i < length ms \<longrightarrow> \<not> prompt_message (ms ! i)) \<longrightarrow> ms ! j \<in> set prompt \<union> set (drop k ms))"
proof -
  let ?s = "split_msgs ms (kl_Turns cfg)"
  let ?prompt = "slice ms (sp_pin ?s) (sp_pinEnd ?s)"
  have ms: "ms \<noteq> []" "wf_transcript ms" using assms(2) by (simp_all add: ValidateMessages_None_iff)
  have run: "drops ?s" "msgs = WithoutReasoning (kept ?s ms [])" and keep: "0 \<le> kl_Turns cfg"
    using assms(1,4,5) unfolding assms(3) by (auto simp: KeepLast_def keep_last_compact_def Let_def no_change_def split: if_splits)
  have s: "span_ok ms ?s" by (rule split_msgs_ok [OF ms(2)])
  have "dropped ?s ms \<noteq> []" by (rule dropped_nonempty [OF s run(1)])
  moreover have "turns (drop (sp_cut ?s) ms) = min (nat (kl_Turns cfg)) (turns (drop (sp_head ?s) ms))"
    using split_cut_turns [OF _ keep, of "find_head 0 ms" ms] find_head_cut [OF ms(2)] by (simp add: split_msgs_sel cut_point_def)
  moreover have "\<forall>m \<in> set ?prompt. prompt_message m"
  proof
    fix m assume m: "m \<in> set ?prompt"
    have "sp_pinEnd ?s \<le> length ms" using s by (simp add: span_ok_def)
    from slice_mem [OF m this] obtain j where "sp_pin ?s \<le> j" "j < sp_pinEnd ?s" "m = ms ! j" by (elim exE conjE)
    with s show "prompt_message m" by (simp add: span_ok_def)
  qed
  moreover have "sp_head ?s = length ms \<or> 0 < sp_head ?s \<and> m_Role (ms ! (sp_head ?s - 1)) = RoleUser"
    using find_head_bounds [of 0 ms] by (auto simp: split_msgs_sel)
  moreover have "sp_head ?s \<le> sp_cut ?s" using s by (auto simp: span_ok_def)
  moreover have "mset (take (sp_head ?s) ms @ ?prompt @ drop (sp_cut ?s) ms) + mset (dropped ?s ms) = mset ms"
    using span_partition [OF s] by (simp add: kept_def)
  moreover have "\<forall>j. m_Role (last ms) \<noteq> RoleAssistant \<and> sp_head ?s \<le> j \<and> j < length ms \<and> prompt_message (ms ! j) \<and>
      (\<forall>i. j < i \<and> i < length ms \<longrightarrow> \<not> prompt_message (ms ! i)) \<longrightarrow> ms ! j \<in> set ?prompt \<union> set (drop (sp_cut ?s) ms)"
    unfolding split_msgs_sel(1) by (intro allI impI, elim conjE, rule last_prompt_pinned [OF ms(2,1)])
  moreover have "msgs = WithoutReasoning (take (sp_head ?s) ms @ ?prompt @ drop (sp_cut ?s) ms)"
    using run(2) by (simp add: kept_def)
  ultimately show ?thesis
    by - (rule exI [of _ "sp_head ?s"], rule exI [of _ ?prompt], rule exI [of _ "sp_cut ?s"], rule exI [of _ "dropped ?s ms"],
        intro conjI; assumption)
qed

section \<open>Summaries\<close>

lemma isSummary_UserText: "isSummary (UserText (summaryHeader @ s))"
  by (simp add: isSummary_def UserText_def)

lemma wf_UserText: "wf_transcript [UserText s]"
  using wf_user [of "[]" "UserText s"] by (simp add: user_ok_def UserText_def)

text \<open>
  the loop adopts whatever \<open>Summarize\<close> returns without an error. The compacted transcript carries the
  summarizer's text in one user message, placed between the head and the rest and recognised as a
  summary by the next compaction; an empty summary or a failing summarizer is an error, never a
  silent loss of turns.
\<close>

theorem summary_is_adopted:
  assumes "Summarize cfg = Inr f" and "ValidateMessages (ci_Messages cin) = None"
    and "m_Role (last (ci_Messages cin)) \<noteq> RoleAssistant" and "f c cin w = ((res, err), w')"
    and "cres_Messages res = Some msgs"
  shows "err = None \<and> adopt cin (res, err) = Inr (Some msgs) \<and>
    (\<exists>before after summary. msgs = WithoutReasoning before @ UserText (summaryHeader @ summary) # WithoutReasoning after \<and>
       summary \<noteq> [] \<and> isSummary (UserText (summaryHeader @ summary)))"
proof -
  let ?ms = "ci_Messages cin" and ?s = "split_msgs (ci_Messages cin) (sm_KeepTurns cfg)"
  have ms: "?ms \<noteq> []" "wf_transcript ?ms" using assms(2) by (simp_all add: ValidateMessages_None_iff)
  obtain summary where sm: "summary \<noteq> []" "err = None"
      "msgs = WithoutReasoning (kept ?s ?ms [UserText (summaryHeader @ summary)])"
    using assms(1,4,5) by (auto simp: Summarize_def summarize_turns_def Let_def no_change_def
        split: option.splits if_splits prod.splits)
  let ?ins = "[UserText (summaryHeader @ summary)]"
  have k: "kept ?s ?ms ?ins \<noteq> [] \<and> wf_transcript (kept ?s ?ms ?ins) \<and> m_Role (last (kept ?s ?ms ?ins)) \<noteq> RoleAssistant"
    by (rule kept_adoptable [OF ms(2,1) assms(3) wf_UserText]) (simp add: UserText_def)
  then have "adopt cin (res, None) = Inr (Some msgs)"
    by (intro adopt_ok) (use sm assms(5) in \<open>simp_all add: wf_WithoutReasoning last_WithoutReasoning\<close>)
  moreover have "msgs = WithoutReasoning (take (sp_head ?s) ?ms) @ UserText (summaryHeader @ summary) #
      WithoutReasoning (slice ?ms (sp_pin ?s) (sp_pinEnd ?s) @ drop (sp_cut ?s) ?ms)"
    by (simp add: sm(3) kept_def WithoutReasoning_eq strip_def UserText_def Text_def)
  ultimately show ?thesis using sm isSummary_UserText by blast
qed

end
