(* ===== verification/CompactLoop.thy ===== *)
theory CompactLoop
  imports CompactProps
begin

text \<open>
  The contract between the loop and a compactor, as a locale: on a valid transcript that does not end
  with an assistant message, the answer is one the loop adopts. The loop keeps its side of the
  contract at both call points, so a run with such a compactor never stops with a compaction error;
  \<open>KeepLast\<close> is such a compactor.
\<close>

definition compactable :: "message list \<Rightarrow> bool" where
  "compactable ms \<longleftrightarrow> good_messages ms \<and> m_Role (last ms) \<noteq> RoleAssistant"

locale sound_compactor =
  fixes f :: "'a world_scheme compactor"
  assumes sound: "compactable (ci_Messages cin) \<Longrightarrow> f c cin w = ((res, err), w') \<Longrightarrow> \<exists>r. adopt cin (res, err) = Inr r"
begin

lemma compaction_succeeds:
  assumes "compactable (ci_Messages cin)" and "compaction_run c f cin cn w = (x, cn', w')"
  shows "\<exists>r. x = Inr r \<and> (\<forall>msgs. r = Some msgs \<longrightarrow> compactable msgs)"
proof -
  obtain res err w1 where f: "f c cin w = ((res, err), w1)" by (metis prod.exhaust)
  from sound [OF assms(1) f] obtain r where r: "adopt cin (res, err) = Inr r" by blast
  with assms(2) f have "x = Inr r" by (cases r) (auto simp: compaction_run_def Let_def)
  moreover have "compactable msgs" if "r = Some msgs" for msgs
    using adopt_valid [of cin "(res, err)" msgs] r that by (simp add: compactable_def good_messages_def)
  ultimately show ?thesis by blast
qed

lemma classified_call:
  "classifyStop c e (llmErrorKind e) w = (kind, err) \<Longrightarrow> kind \<noteq> OutcomeCompactionError"
  using classifyStop_kind [of c e "llmErrorKind e" w kind err] llmErrorKind_range [of e] by (auto simp: outcome_consts)

lemma calls_succeed:
  "send_calls retried c (Some f) client req lst cn w = (SendStopped sent kind err, cn', w') \<Longrightarrow>
     compactable (cr_Messages req) \<Longrightarrow> kind \<noteq> OutcomeCompactionError"
proof (induction "if retried then 0 else Suc 0" arbitrary: retried req cn w rule: less_induct)
  case less
  from less.prems(1) show ?case
  proof (cases rule: send_calls_cases)
    case (failed g resp e w1 cin ce k er)
    with compaction_succeeds [of cin c cn w1 "Inl ce" cn' w'] less.prems(2) show ?thesis by simp
  next
    case (again g resp e w1 cin msgs cn2 w2)
    from adopt_valid have "compactable msgs"
      using again(4) by (auto simp: compaction_run_def Let_def compactable_def good_messages_def
          dest!: adopt_valid split: prod.splits sum.splits option.splits)
    with less.hyps [OF _ again(5)] again(1) show ?thesis by simp
  next
    case (refused resp e k er)
    with classified_call [OF refused(2)] show ?thesis by simp
  next
    case (declined g resp e w1 cin k er)
    with classified_call [OF declined(4)] show ?thesis by simp
  qed simp
qed

lemma send_succeeds:
  assumes "send c (Some f) client req lst cn w = (SendStopped sent kind err, cn', w')" and "compactable (cr_Messages req)"
  shows "kind \<noteq> OutcomeCompactionError"
proof -
  let ?cin = "\<lparr>ci_Err = None, ci_Reason = CompactBeforeTurn, ci_LastUsage = lst, ci_Messages = cr_Messages req\<rparr>"
  obtain x cn2 w2 where cr: "compaction_run c f ?cin cn w = (x, cn2, w2)" by (metis prod.exhaust)
  from compaction_succeeds [OF _ cr] assms(2) obtain r where r: "x = Inr r" "\<forall>msgs. r = Some msgs \<longrightarrow> compactable msgs" by auto
  show ?thesis
  proof (cases r)
    case None
    with assms r cr show ?thesis by (intro calls_succeed [of False c client req lst cn2 w2 sent]) (simp_all add: send_def)
  next
    case (Some msgs)
    with assms r cr show ?thesis
      by (intro calls_succeed [of False c client "req\<lparr>cr_Messages := msgs\<rparr>" lst cn2 w2 sent]) (simp_all add: send_def)
  qed
qed

lemma run_never_fails_compaction:
  assumes "lc_Compact cfg = Some f" and "client_wf (the (lc_Client cfg))" and "compactable ms"
    and "run_loop c cfg tools choice maxIter (start_state ms) w = Some (out, w')"
  shows "out_Kind out \<noteq> OutcomeCompactionError"
  using assms(4)
proof (rule run_loop_invariant [where I = "\<lambda>st w. compactable (ls_transcript st)"])
  show "compactable (ls_transcript (start_state ms))" using assms(3) by (simp add: start_state_def)
next
  fix st w st' w' assume I: "compactable (ls_transcript st)"
    and run: "run_iteration c cfg tools choice maxIter st w = (Inl st', w')"
  from run_iteration_messages [OF run assms(2)] I have "good_messages (ls_transcript st')" by (simp add: compactable_def)
  moreover from run have "m_Role (last (ls_transcript st')) \<noteq> RoleAssistant"
  proof (cases rule: run_iteration_cases)
    case (responded resp sent cn c1 req1 w1 w2 r)
    from responded(4) show ?thesis
      by (cases rule: handle_response_cases) (use responded(5) in \<open>auto simp: ToolResultMessage_def\<close>)
  qed simp
  ultimately show "compactable (ls_transcript st')" by (simp add: compactable_def)
next
  fix st w out w' assume I: "compactable (ls_transcript st)"
    and run: "run_iteration c cfg tools choice maxIter st w = (Inr out, w')"
  from run show "out_Kind out \<noteq> OutcomeCompactionError"
  proof (cases rule: run_iteration_cases)
    case (stopped sent kind err cn)
    with send_succeeds [of c "the (lc_Client cfg)" _ "rsp_Usage (ls_last st)" "ls_compaction st" w sent kind err cn w'] I assms(1)
    show ?thesis by simp
  next
    case (responded resp sent cn c1 req1 w1 w2 r)
    from responded(4) show ?thesis
    proof (cases rule: handle_response_cases)
      case (aborted e kind err)
      with classifyStop_kind [OF aborted(3)] responded(5) show ?thesis by (auto simp: outcome_consts)
    qed (use responded(5) in \<open>auto simp: outcome_consts\<close>)
  qed
qed

end

interpretation keep_last: sound_compactor "keep_last_compact cfg" for cfg
proof
  fix cin c w res err and w' :: "'a world_scheme"
  assume ms: "compactable (ci_Messages cin)" and run: "keep_last_compact cfg c cin w = ((res, err), w')"
  show "\<exists>r. adopt cin (res, err) = Inr r"
  proof (cases "cres_Messages res")
    case None
    from run have "err = None" by (cases rule: keep_last_compact_cases) simp_all
    with None show ?thesis by (simp add: adopt_def)
  next
    case (Some msgs)
    with keep_last_adopted [OF _ _ run Some] ms show ?thesis by (auto simp: compactable_def)
  qed
qed

text \<open>
  C37: the loop and \<open>KeepLast\<close> fit together. A run from a valid transcript that does not end with an
  assistant message, compacted by \<open>KeepLast\<close> whenever it is due, never stops with a compaction error:
  every compacted transcript passes the loop's own checks, turn after turn.
\<close>

theorem keep_last_run_never_fails:
  assumes "KeepLast kl = Inr f" and "lc_Compact cfg = Some f" and "validateConfig cfg = Inr v"
    and "ValidateMessages (cr_Messages (lc_Request cfg)) = None" and "m_Role (last (cr_Messages (lc_Request cfg))) \<noteq> RoleAssistant"
    and "client_wf (the (lc_Client cfg))" and "Run c cfg w = Some (out, w')"
  shows "out_Kind out \<noteq> OutcomeCompactionError"
proof -
  obtain tools choice where v: "v = (tools, choice)" by (cases v)
  have f: "f = keep_last_compact kl" using assms(1) by (simp add: KeepLast_def split: if_splits)
  have "compactable (cr_Messages (lc_Request cfg))"
    using assms(4,5) by (simp add: compactable_def good_messages_def ValidateMessages_None_iff)
  then show ?thesis
    using keep_last.run_never_fails_compaction [of cfg kl] assms(2,3,6,7) by (auto simp: Run_def v f)
qed

end
