(* ===== verification/ToolLoopDemo.thy ===== *)
theory ToolLoopDemo
  imports ToolLoopGuarantees
begin

text \<open>
  A complete run of a small configuration, and the witnesses of the guarantees on it.
\<close>

section \<open>A run\<close>

text \<open>A client that asks for one lookup and answers once it has the result, and an observer that logs.\<close>

record logged_world = world +
  lw_events :: "iteration_event list"

definition lookup_call :: tool_call where
  "lookup_call = \<lparr>tc_ID = ''c1'', tc_Name = ''lookup'', tc_Parameters = ''{}'', tc_ProviderSignature = []\<rparr>"

definition call_response :: chat_response where
  "call_response = zero_response\<lparr>rsp_Message := \<lparr>m_Role = RoleAssistant, m_Content =
      [zero_part\<lparr>cp_Type := ContentToolCall, cp_ToolCall := Some lookup_call\<rparr>]\<rparr>,
    rsp_ToolCalls := [lookup_call], rsp_Usage := zero_usage\<lparr>u_InputTokens := 5\<rparr>\<rparr>"

definition answer_response :: chat_response where
  "answer_response = zero_response\<lparr>rsp_Message := AssistantText ''done'', rsp_Text := ''done'',
    rsp_Usage := zero_usage\<lparr>u_InputTokens := 7\<rparr>\<rparr>"

definition demo_client :: "logged_world chat_client" where
  "demo_client = \<lparr>cc_Model = \<lparr>mr_Provider = ''openai'', mr_Name = ''m''\<rparr>,
     cc_Complete = (\<lambda>c req w.
       ((if m_Role (last (cr_Messages req)) = RoleTool then answer_response else call_response, None), w))\<rparr>"

definition lookup_tool :: "logged_world tool" where
  "lookup_tool = \<lparr>tl_Execute = Some (\<lambda>c call w. ((\<lparr>xr_Content = ''42'', xr_IsError = False, xr_Stop = False\<rparr>, None), w)),
     tl_Definition = \<lparr>td_Name = ''lookup'', td_Description = [], td_InputSchema = ''{}''\<rparr>\<rparr>"

definition demo_config :: "logged_world loop_config" where
  "demo_config = \<lparr>lc_Request = zero_request\<lparr>cr_Messages := [UserText ''hi'']\<rparr>, lc_Client = Some demo_client,
     lc_Compact = None, lc_OnIteration = Some (\<lambda>e w. w\<lparr>lw_events := lw_events w @ [e]\<rparr>), lc_OnToolCall = None,
     lc_ToolChoice = \<lparr>tch_Type = [], tch_Name = []\<rparr>, lc_Tools = [lookup_tool], lc_MaxIterations = 0\<rparr>"

definition demo_world :: logged_world where
  "demo_world = \<lparr>w_clock = 0, w_tie = (\<lambda>_. False), w_rand = (\<lambda>_. 0), w_draws = 0, w_oob = (\<lambda>_. MinInt), lw_events = []\<rparr>"

lemma demo_validate:
  "validateConfig demo_config = Inr ([tl_Definition lookup_tool], \<lparr>tch_Type = ToolChoiceAuto, tch_Name = []\<rparr>)"
  by (simp add: validateConfig_def demo_config_def lookup_tool_def zero_request_def isZeroToolChoice_def
      effective_choice_def check_choice_def isKnownToolChoiceType_def RequiresTools_def tool_choice_consts)

lemma demo_sel [simp]:
  "lc_Compact demo_config = None" "lc_Client demo_config = Some demo_client"
  "lc_Tools demo_config = [lookup_tool]" "lc_OnToolCall demo_config = None" "max_iterations demo_config = 8"
  "cr_Messages (lc_Request demo_config) = [UserText ''hi'']"
  "lc_OnIteration demo_config = Some (\<lambda>e w. w\<lparr>lw_events := lw_events w @ [e]\<rparr>)" "lc_MaxIterations demo_config = 0"
  by (simp_all add: demo_config_def max_iterations_def defaultMaxIterations_def zero_request_def)

lemma demo_lookup [simp]: "indexTools [lookup_tool] = [''lookup'' \<mapsto> lookup_tool]"
  by (simp add: indexTools_def lookup_tool_def)

lemma demo_responses [simp]:
  "rsp_ToolCalls call_response = [lookup_call]" "\<not> isEmptyResponse call_response"
  "rsp_ToolCalls answer_response = []" "\<not> isEmptyResponse answer_response"
  "u_InputTokens (rsp_Usage call_response) = 5" "u_InputTokens (rsp_Usage answer_response) = 7"
  by (simp_all add: call_response_def answer_response_def isEmptyResponse_def AssistantText_def zero_response_def zero_usage_def)

lemma demo_exec [simp]:
  "exec_call c demo_config n [''lookup'' \<mapsto> lookup_tool] lookup_call w =
     ((\<lparr>xr_Content = ''42'', xr_IsError = False, xr_Stop = False\<rparr>, None), w)"
  by (simp add: exec_call_def dispatch_def lookup_call_def lookup_tool_def stop_contract_def)

lemma demo_complete [simp]:
  "cc_Complete demo_client c req w = ((if m_Role (last (cr_Messages req)) = RoleTool then answer_response else call_response, None), w)"
  by (simp add: demo_client_def)

lemma go_add_small [simp]: "go_add 0 1 = 1" "go_add 5 7 = 12" "go_add 0 5 = 5"
  by (simp_all add: go_add_def go_int_defs)

lemma demo_run:
  "\<exists>out w'. Run background demo_config demo_world = Some (out, w') \<and> out_Kind out = OutcomeFinalAnswer \<and>
     out_Iterations out = 1 \<and> out_Err out = None \<and> u_InputTokens (out_TotalUsage out) = 12 \<and> length (lw_events w') = 2"
  by (simp add: Run_def demo_validate run_loop.simps run_iteration_def send_def send_calls.simps
      start_state_def handle_response_def run_turn_def on_iteration_def demo_world_def UserText_def
      addUsage_def zero_sum_def zero_usage_def Let_def)

lemma demo_client_wf: "client_wf demo_client"
  by (simp add: client_wf_def response_wf_def call_response_def answer_response_def AssistantText_def zero_response_def
      call_ids_def part_legal_def call_part_ok_def lookup_call_def)

lemma demo_valid: "ValidateMessages [UserText ''hi''] = None"
  by (simp add: ValidateMessages_def validate_message_def hasNonReasoning_def UserText_def validateParts_def
      validatePart_def pairing_step_def)

lemma demo_logging: "logging lw_events demo_config"
  by (simp add: logging_def silent_on_def lookup_tool_def)

theorem tool_results_answer_calls_witness:
  "\<exists>rs. fst (executeCalls background demo_config call_response 1 [''lookup'' \<mapsto> lookup_tool] [] zero_usage []
       [lookup_call] demo_world) = Executed rs None \<and> map tr_ToolCallID rs = [''c1'']"
proof -
  obtain rs w' where run: "executeCalls background demo_config call_response 1 [''lookup'' \<mapsto> lookup_tool] [] zero_usage []
      [lookup_call] demo_world = (Executed rs None, w')" by simp
  from tool_results_answer_calls [OF run] run show ?thesis by (simp add: lookup_call_def)
qed

theorem config_check_is_exact_witness: "indexTools (lc_Tools demo_config) ''lookup'' = Some lookup_tool"
  using config_check_is_exact [of demo_config "[tl_Definition lookup_tool]" "\<lparr>tch_Type = ToolChoiceAuto, tch_Name = []\<rparr>"]
    demo_validate by (simp add: lookup_tool_def)

theorem bounded_run_terminates_witness: "\<exists>out w'. Run background demo_config demo_world = Some (out, w') \<and> out_Iterations out \<le> 8"
  using bounded_run_terminates [of demo_config background demo_world] by auto

theorem outcome_messages_sendable_witness:
  "\<exists>out w'. Run background demo_config demo_world = Some (out, w') \<and> ValidateMessages (out_Messages out) = None"
proof -
  obtain out w' where run: "Run background demo_config demo_world = Some (out, w')" "out_Kind out = OutcomeFinalAnswer"
    using demo_run by blast
  have "ValidateMessages (out_Messages out) = None"
    using outcome_messages_sendable [OF demo_validate _ _ run(1)] demo_valid demo_client_wf run(2)
    by (auto simp: outcome_consts)
  with run show ?thesis by blast
qed

text \<open>A provider that answers too late: the run's deadline passes during the call, which fails with an error of its own.\<close>

definition late_client :: "logged_world chat_client" where
  "late_client = \<lparr>cc_Model = \<lparr>mr_Provider = ''openai'', mr_Name = ''m''\<rparr>,
     cc_Complete = (\<lambda>c req w. ((zero_response, Some (Wrapped ''connection reset'' [])), w\<lparr>w_clock := w_clock w + 5\<rparr>))\<rparr>"

definition late_config :: "logged_world loop_config" where
  "late_config = demo_config\<lparr>lc_Client := Some late_client\<rparr>"

definition late_error :: error where
  "late_error = Wrapped ''toolloop'' [DeadlineExceeded, Wrapped ''connection reset'' []]"

lemma late_validate:
  "validateConfig late_config = Inr ([tl_Definition lookup_tool], \<lparr>tch_Type = ToolChoiceAuto, tch_Name = []\<rparr>)"
  by (simp add: validateConfig_def late_config_def demo_config_def lookup_tool_def zero_request_def isZeroToolChoice_def
      effective_choice_def check_choice_def isKnownToolChoiceType_def RequiresTools_def tool_choice_consts)

lemma late_sel [simp]:
  "lc_Compact late_config = None" "lc_Client late_config = Some late_client" "max_iterations late_config = 8"
  "cr_Messages (lc_Request late_config) = [UserText ''hi'']"
  by (simp_all add: late_config_def demo_config_def max_iterations_def defaultMaxIterations_def zero_request_def)

lemma late_run:
  "Run (WithTimeout background 3 demo_world) late_config demo_world =
     Some (close_compaction \<lparr>cn_usage = zero_sum, cn_count = 0\<rparr>
       (stop_outcome OutcomeDeadline zero_response [UserText ''hi''] zero_usage 0 (Some late_error)), demo_world\<lparr>w_clock := 5\<rparr>)"
  by (simp add: Run_def late_validate late_client_def late_error_def run_loop.simps run_iteration_def send_def send_calls.simps
      start_state_def demo_world_def zero_sum_def classifyStop_def ctx_Err_def WithTimeout_def background_def
      late_error_def errors_Is_def outcome_consts llmErrorKind_def errors_As_def)

theorem outcome_kind_determines_error_witness:
  "\<exists>out w'. Run (WithTimeout background 3 demo_world) late_config demo_world = Some (out, w') \<and>
     out_Kind out = OutcomeDeadline \<and> errors_Is (out_Err out) DeadlineExceeded"
proof -
  let ?c = "WithTimeout background 3 demo_world"
  obtain out w' where run: "Run ?c late_config demo_world = Some (out, w')" "out_Kind out = OutcomeDeadline"
    "out_Err out = Some late_error" "ctx_Err ?c w' = Some DeadlineExceeded"
    using late_run by (simp add: ctx_Err_def WithTimeout_def background_def demo_world_def)
  from outcome_kind_determines_error [OF late_validate wf_ctx_WithTimeout [OF wf_ctx_background] run(1)] run(3,4)
  have "errors_Is (out_Err out) DeadlineExceeded" by (auto simp: reported_def)
  with run show ?thesis by blast
qed

theorem total_usage_is_observed_witness:
  "\<exists>out w' evs. Run background demo_config demo_world = Some (out, w') \<and> lw_events w' = evs \<and>
     out_TotalUsage out = us_total (event_usage evs)"
proof -
  obtain out w' where run: "Run background demo_config demo_world = Some (out, w')" using demo_run by blast
  from total_usage_is_observed [OF demo_validate demo_logging run] run show ?thesis by (auto simp: demo_world_def)
qed

end
