(* ===== verification/CompactRender.thy ===== *)
theory CompactRender
  imports CompactLoop ToolLoopDemo
begin

text \<open>
  The text sent to the summarizer: truncation cuts at a rune boundary and says what it cut, and an
  earlier summary is passed on whole. At the end, the witnesses of the compaction properties on a
  conversation of two turns.
\<close>

section \<open>Truncation\<close>

text \<open>The runes of a string, each as its bytes.\<close>

function runes :: "string \<Rightarrow> string list" where
  "runes s = (if s = [] then [] else take (rune_width s) s # runes (drop (rune_width s) s))"
  by pat_completeness auto
termination
  by (relation "measure length") (auto dest: rune_width_pos)

declare runes.simps [simp del]

lemma runes_Nil [simp]: "runes [] = []"
  by (simp add: runes.simps)

lemma runes_step: "s \<noteq> [] \<Longrightarrow> runes s = take (rune_width s) s # runes (drop (rune_width s) s)"
  by (simp add: runes.simps [of s])

lemma concat_runes: "concat (runes s) = s"
  by (induction s rule: runes.induct) (metis append_take_drop_id concat.simps runes_Nil runes_step)

lemma length_runes: "length (runes s) = RuneCountInString s"
proof (induction s rule: runes.induct)
  case (1 s)
  then show ?case by (cases "s = []") (simp_all add: runes_step RuneCount_step)
qed

lemma runes_pos: "s \<noteq> [] \<Longrightarrow> 0 < length (runes s)"
  by (simp add: runes_step)

lemma truncate_from_eq:
  "n \<le> limit \<Longrightarrow> truncate_from s limit i n =
     (if int (length (runes (drop i s))) \<le> limit - n then s
      else let k = i + length (concat (take (nat (limit - n)) (runes (drop i s))))
           in take k s @ truncation_mark (int (length s) - int k))"
proof (induction s limit i n rule: truncate_from.induct)
  case (1 s limit i n)
  show ?case
  proof (cases "i \<ge> length s")
    case True
    with 1(2) show ?thesis by (subst truncate_from.simps) simp
  next
    case False
    then have ne: "drop i s \<noteq> []" by simp
    let ?r = "rune_width (drop i s)"
    have len: "i + ?r \<le> length s" using rune_width_le [of "drop i s"] False by simp
    show ?thesis
    proof (cases "n = limit")
      case True
      with False runes_pos [OF ne] show ?thesis by (subst truncate_from.simps) (simp add: Let_def)
    next
      case neq: False
      have "truncate_from s limit i n = truncate_from s limit (i + ?r) (n + 1)"
        using False neq by (subst truncate_from.simps) simp
      also have "\<dots> = (if int (length (runes (drop (i + ?r) s))) \<le> limit - (n + 1) then s
          else let k = i + ?r + length (concat (take (nat (limit - (n + 1))) (runes (drop (i + ?r) s))))
               in take k s @ truncation_mark (int (length s) - int k))"
        using 1(1) [OF False neq] 1(2) neq by simp
      also have "runes (drop i s) = take ?r (drop i s) # runes (drop (i + ?r) s)"
        using runes_step [OF ne] by (simp add: add.commute)
      moreover have "nat (limit - n) = Suc (nat (limit - (n + 1)))" using 1(2) neq by linarith
      moreover have "length (take ?r (drop i s)) = ?r" using len by simp
      ultimately show ?thesis by (simp add: Let_def add.assoc)
    qed
  qed
qed

text \<open>
  \<open>truncate\<close> never splits a rune and never lies. With a limit, a text of at most that many runes is
  unchanged, and a longer one becomes its first \<open>limit\<close> runes followed by a mark with the exact number
  of bytes cut off; a negative limit changes nothing.
\<close>

theorem truncation_is_exact:
  "(limit < 0 \<longrightarrow> truncate_text s limit = s) \<and>
   (0 \<le> limit \<and> int (RuneCountInString s) \<le> limit \<longrightarrow> truncate_text s limit = s) \<and>
   (0 \<le> limit \<and> limit < int (RuneCountInString s) \<longrightarrow>
      (\<exists>cut. s = concat (take (nat limit) (runes s)) @ cut \<and> cut \<noteq> [] \<and>
         truncate_text s limit = concat (take (nat limit) (runes s)) @ truncation_mark (int (length cut))))"
proof -
  have "\<exists>cut. s = concat (take (nat limit) (runes s)) @ cut \<and> cut \<noteq> [] \<and>
      truncate_text s limit = concat (take (nat limit) (runes s)) @ truncation_mark (int (length cut))"
    if l: "0 \<le> limit" "limit < int (RuneCountInString s)"
  proof -
    let ?a = "concat (take (nat limit) (runes s))" and ?c = "concat (drop (nat limit) (runes s))"
    have s: "s = ?a @ ?c" by (metis append_take_drop_id concat_append concat_runes)
    have "truncate_text s limit = take (length ?a) s @ truncation_mark (int (length s) - int (length ?a))"
      using l truncate_from_eq [of 0 limit s 0] by (simp add: truncate_text_def length_runes Let_def)
    moreover have "int (length s) - int (length ?a) = int (length ?c)" using arg_cong [OF s, of length] by simp
    moreover have "take (length ?a) s = ?a" using s by (metis append_eq_conv_conj)
    moreover have "?c \<noteq> []"
    proof
      assume c: "?c = []"
      have "\<forall>r \<in> set (runes s). r \<noteq> []"
      proof (induction s rule: runes.induct)
        case (1 s)
        then show ?case by (cases "s = []") (auto simp: runes_step dest: rune_width_pos)
      qed
      with c have "drop (nat limit) (runes s) = []" by (metis concat_eq_Nil_conv in_set_dropD list.set_intros(1) neq_Nil_conv)
      with l show False by (simp add: length_runes)
    qed
    ultimately show ?thesis using s by (intro exI [of _ ?c]) simp
  qed
  then show ?thesis
    using truncate_from_eq [of 0 limit s 0] by (auto simp: truncate_text_def length_runes)
qed

theorem truncation_is_exact_witness: "truncate_text ''abcd'' 2 = ''ab'' @ truncation_mark 2"
proof -
  have w: "rune_width ''abcd'' = 1" "rune_width ''bcd'' = 1" by (simp_all add: rune_width_ascii)
  then have r: "take 2 (runes ''abcd'') = [''a'', ''b'']" by (simp add: runes_step numeral_2_eq_2)
  have "RuneCountInString ''abcd'' = 4" by (subst RuneCount_ascii) auto
  with truncation_is_exact [of 2 "''abcd''"] r show ?thesis by auto
qed

section \<open>Rolling summaries\<close>

lemma join_strings_contains: "x \<in> set xs \<Longrightarrow> \<exists>pre post. join_strings sep xs = pre @ x @ post"
proof (induction sep xs rule: join_strings.induct)
  case (3 sep y z xs)
  show ?case
  proof (cases "x = y")
    case True
    then show ?thesis by (intro exI [of _ "[]"] exI [of _ "sep @ join_strings sep (z # xs)"]) simp
  next
    case False
    with 3 obtain pre post where "join_strings sep (z # xs) = pre @ x @ post" by auto
    then show ?thesis by (intro exI [of _ "y @ sep @ pre"] exI [of _ post]) simp
  qed
qed (auto intro: exI [of _ "[]"])

lemma render_part_prior: "set (rd_prior st) \<subseteq> set (rd_prior (render_part limit m st p))"
  by (auto simp: render_part_def Let_def)

lemma render_parts_prior: "set (rd_prior st) \<subseteq> set (rd_prior (foldl (render_part limit m) st ps))"
proof (induction ps arbitrary: st)
  case (Cons p ps)
  from render_part_prior [of st limit m p] Cons [of "render_part limit m st p"] show ?case by simp
qed simp

lemma render_messages_prior:
  "set (rd_prior st) \<subseteq> set (rd_prior (foldl (\<lambda>st m. foldl (render_part limit m) st (m_Content m)) st ms))"
proof (induction ms arbitrary: st)
  case (Cons m ms)
  from render_parts_prior [of st limit m "m_Content m"] Cons [of "foldl (render_part limit m) st (m_Content m)"] show ?case by auto
qed simp

lemma summary_in_prior:
  "UserText (summaryHeader @ s) \<in> set ms \<Longrightarrow>
     s \<in> set (rd_prior (foldl (\<lambda>st m. foldl (render_part limit m) st (m_Content m)) st ms))"
proof (induction ms arbitrary: st)
  case (Cons m ms)
  let ?st = "foldl (render_part limit m) st (m_Content m)"
  show ?case
  proof (cases "m = UserText (summaryHeader @ s)")
    case True
    then have "s \<in> set (rd_prior ?st)"
      using isSummary_UserText [of s] by (simp add: UserText_def render_part_def)
    with render_messages_prior [of ?st limit ms] show ?thesis by auto
  next
    case False
    with Cons show ?thesis by simp
  qed
qed simp

text \<open>
  summaries roll without loss. When the turns dropped by a compaction include the message an earlier
  \<open>Summarize\<close> wrote, the text sent to the summarizer contains that summary whole, whatever the
  truncation limit.
\<close>

theorem earlier_summary_is_passed_on:
  assumes "UserText (summaryHeader @ summary) \<in> set (dropped s msgs)"
  shows "\<exists>pre post. render (dropped s msgs) limit = pre @ summary @ post"
proof -
  let ?st = "foldl (\<lambda>st m. foldl (render_part limit m) st (m_Content m))
    \<lparr>rd_prior = [], rd_names = Map.empty, rd_out = []\<rparr> (dropped s msgs)"
  have m: "summary \<in> set (rd_prior ?st)" by (rule summary_in_prior [OF assms])
  from join_strings_contains [OF m, of "[CHR 0x0A, CHR 0x0A]"] obtain pre post
    where j: "join_strings [CHR 0x0A, CHR 0x0A] (rd_prior ?st) = pre @ summary @ post" by blast
  from m have "rd_prior ?st \<noteq> []" by auto
  then have "render (dropped s msgs) limit = existingSummaryLabel @ (pre @ summary @ post) @ newTurnsLabel @ TrimSpace (rd_out ?st)"
    by (simp add: render_def Let_def j)
  then show ?thesis
    by (intro exI [of _ "existingSummaryLabel @ pre"] exI [of _ "post @ newTurnsLabel @ TrimSpace (rd_out ?st)"]) simp
qed

section \<open>A conversation\<close>

definition talk :: "message list" where
  "talk = [UserText ''q'', rsp_Message call_response,
     ToolResultMessage [\<lparr>tr_ToolCallID = ''c1'', tr_Content = ''42'', tr_IsError = False\<rparr>],
     AssistantText ''a'', UserText ''more'']"

definition overflow :: compact_input where
  "overflow = \<lparr>ci_Err = None, ci_Reason = CompactOverflow, ci_LastUsage = zero_usage, ci_Messages = talk\<rparr>"

definition keep_one :: keep_last_config where
  "keep_one = \<lparr>kl_Turns = 1, kl_AtTokens = 0\<rparr>"

lemma talk_roles: "m_Role (UserText s) = RoleUser" "m_Role (rsp_Message call_response) = RoleAssistant"
  "m_Role (ToolResultMessage rs) = RoleTool" "m_Role (AssistantText s) = RoleAssistant"
  by (simp_all add: UserText_def call_response_def ToolResultMessage_def AssistantText_def)

lemma talk_valid: "ValidateMessages talk = None"
  by (simp add: talk_def ValidateMessages_def validate_message_def hasNonReasoning_def validateParts_def validatePart_def
      pairing_step_def pairing_assistant_def pairing_tool_def talk_roles call_response_def UserText_def AssistantText_def
      ToolResultMessage_def lookup_call_def)

lemma short_no_summary: "\<not> isSummary (UserText ''q'')" "\<not> isSummary (UserText ''more'')"
  by (simp_all add: isSummary_def UserText_def has_prefix_def summaryHeader_def)

lemma talk_starts: "find_head 0 talk = 1" "turn_starts talk 1 = [1, 3]"
proof -
  have r: "[1..<length talk] = [1, 2, 3, 4]" by (simp add: talk_def upt_conv_Cons)
  show "find_head 0 talk = 1" by (simp add: talk_def talk_roles)
  have "back_while is_user talk 1 1 = 1" "back_while is_user talk 1 3 = 3"
    by (simp_all add: numeral_3_eq_3 talk_def is_user_def talk_roles)
  then show "turn_starts talk 1 = [1, 3]" unfolding turn_starts_def r
    by (simp add: talk_def talk_roles numeral_2_eq_2 numeral_3_eq_3)
qed

lemma talk_prompt: "inFlightPrompt talk 1 = (4, 5)"
proof -
  let ?Q = "\<lambda>m. m_Role m \<noteq> RoleUser \<or> isSummary m" and ?P = "\<lambda>m. m_Role m = RoleUser \<and> \<not> isSummary m"
  have talk: "length talk = 5" "talk \<noteq> []" "last talk = UserText ''more''" "talk ! 4 = UserText ''more''"
    "talk ! 3 = AssistantText ''a''" by (simp_all add: talk_def)
  have "back_while ?Q talk 1 5 = 5" "back_while ?P talk 1 5 = back_while ?P talk 1 4" "back_while ?P talk 1 4 = 4"
    using back_while.simps(2) [of ?Q talk 1 4] back_while.simps(2) [of ?P talk 1 4] back_while.simps(2) [of ?P talk 1 3]
    by (simp_all add: talk talk_roles short_no_summary)
  then show ?thesis unfolding inFlightPrompt_def Let_def talk(1) by (simp add: talk talk_roles)
qed

lemma talk_split: "split_msgs talk 1 = \<lparr>sp_head = 1, sp_pin = 3, sp_pinEnd = 3, sp_cut = 3\<rparr>"
  by (simp add: split_msgs_def split_cut_def talk_starts [simplified] talk_prompt [simplified] Let_def)

lemma keep_one_runs:
  "\<exists>msgs. keep_last_compact keep_one c overflow w = ((\<lparr>cres_Usage = zero_usage, cres_Messages = Some msgs\<rparr>, None), w)"
  by (simp add: keep_last_compact_def keep_one_def overflow_def due_def drops_def Let_def talk_split)

lemma KeepLast_keep_one: "KeepLast keep_one = Inr (keep_last_compact keep_one)"
  by (simp add: KeepLast_def keep_one_def)

theorem keep_last_keeps_recent_turns_witness:
  "\<exists>msgs h prompt k. fst (keep_last_compact keep_one background overflow demo_world) =
       (\<lparr>cres_Usage = zero_usage, cres_Messages = Some msgs\<rparr>, None) \<and>
     msgs = WithoutReasoning (take h talk @ prompt @ drop k talk) \<and> turns (drop k talk) \<le> 1"
proof -
  obtain msgs where run: "keep_last_compact keep_one background overflow demo_world =
      ((\<lparr>cres_Usage = zero_usage, cres_Messages = Some msgs\<rparr>, None), demo_world)"
    using keep_one_runs [of background demo_world] by blast
  have in_msgs: "talk = ci_Messages overflow" by (simp add: overflow_def)
  obtain h prompt k where "msgs = WithoutReasoning (take h talk @ prompt @ drop k talk)"
      "turns (drop k talk) = min (nat (kl_Turns keep_one)) (turns (drop h talk))"
    using keep_last_keeps_recent_turns [OF KeepLast_keep_one talk_valid in_msgs run, of msgs] by auto
  then have "msgs = WithoutReasoning (take h talk @ prompt @ drop k talk)" "turns (drop k talk) \<le> 1"
    by (simp_all add: keep_one_def)
  with run show ?thesis by auto
qed

definition compacting_config :: "logged_world loop_config" where
  "compacting_config = demo_config\<lparr>lc_Compact := Some (keep_last_compact keep_one)\<rparr>"

lemma validateConfig_Compact: "validateConfig (cfg\<lparr>lc_Compact := f\<rparr>) = validateConfig cfg"
  by (cases cfg) (simp only: validateConfig_def loop_config.simps loop_config.update_convs)

theorem keep_last_run_never_fails_witness:
  "\<exists>out w'. Run background compacting_config demo_world = Some (out, w') \<and> out_Kind out \<noteq> OutcomeCompactionError"
proof -
  have v: "validateConfig compacting_config = Inr ([tl_Definition lookup_tool], \<lparr>tch_Type = ToolChoiceAuto, tch_Name = []\<rparr>)"
    by (simp add: compacting_config_def validateConfig_Compact demo_validate)
  have "Run background compacting_config demo_world = run_loop background compacting_config [tl_Definition lookup_tool]
      \<lparr>tch_Type = ToolChoiceAuto, tch_Name = []\<rparr> 8 (start_state [UserText ''hi'']) demo_world"
    by (simp add: Run_def v) (simp add: compacting_config_def max_iterations_def defaultMaxIterations_def)
  moreover have "in_int64 8" by (simp add: go_int_defs)
  ultimately obtain out w' where run: "Run background compacting_config demo_world = Some (out, w')"
    using bounded_run_ends [of 8 "start_state [UserText ''hi'']" background compacting_config "[tl_Definition lookup_tool]"
        "\<lparr>tch_Type = ToolChoiceAuto, tch_Name = []\<rparr>" demo_world] by (auto simp: start_state_def)
  have "out_Kind out \<noteq> OutcomeCompactionError"
    by (rule keep_last_run_never_fails [OF KeepLast_keep_one _ v _ _ _ run])
      (use demo_valid demo_client_wf in \<open>simp_all add: compacting_config_def talk_roles\<close>)
  with run show ?thesis by blast
qed

definition summarizer :: "logged_world chat_client" where
  "summarizer = \<lparr>cc_Model = \<lparr>mr_Provider = ''openai'', mr_Name = ''m''\<rparr>,
     cc_Complete = (\<lambda>c req w. ((zero_response\<lparr>rsp_Text := ''sum''\<rparr>, None), w))\<rparr>"

definition summarize_one :: "logged_world summarize_config" where
  "summarize_one = \<lparr>sm_Client = Some summarizer, sm_Prompt = [], sm_Purpose = [], sm_KeepTurns = 1, sm_AtTokens = 0,
     sm_MaxTokens = 0, sm_TruncateRunes = 0\<rparr>"

theorem summary_is_adopted_witness:
  "\<exists>f res msgs w'. Summarize summarize_one = Inr f \<and> f background overflow demo_world = ((res, None), w') \<and>
     cres_Messages res = Some msgs \<and> adopt overflow (res, None) = Inr (Some msgs)"
proof -
  let ?res = "\<lparr>cres_Usage = zero_usage, cres_Messages = Some (WithoutReasoning
      (kept \<lparr>sp_head = 1, sp_pin = 3, sp_pinEnd = 3, sp_cut = 3\<rparr> talk [UserText (summaryHeader @ ''sum'')]))\<rparr>"
  obtain f where f: "Summarize summarize_one = Inr f" by (simp add: Summarize_def summarize_one_def)
  then have run: "f background overflow demo_world = ((?res, None), demo_world)"
    by (auto simp: Summarize_def summarize_one_def due_def overflow_def talk_split drops_def summarize_turns_def
        summarizer_def TrimSpace_def is_space_def Let_def zero_response_def)
  have "m_Role (last talk) \<noteq> RoleAssistant" by (simp add: talk_def talk_roles)
  then have "adopt overflow (?res, None) = Inr (cres_Messages ?res)"
    using summary_is_adopted [OF f _ _ run] talk_valid by (simp add: overflow_def)
  with f run show ?thesis by (intro exI [of _ f] exI [of _ ?res]) auto
qed

theorem earlier_summary_is_passed_on_witness:
  "\<exists>pre post. render (dropped \<lparr>sp_head = 0, sp_pin = 1, sp_pinEnd = 1, sp_cut = 1\<rparr>
     [UserText (summaryHeader @ ''sum'')]) 1 = pre @ ''sum'' @ post"
  using earlier_summary_is_passed_on [of "''sum''" "\<lparr>sp_head = 0, sp_pin = 1, sp_pinEnd = 1, sp_cut = 1\<rparr>"
      "[UserText (summaryHeader @ ''sum'')]" 1] by (simp add: dropped_def slice_def)

end
