(* ===== verification/Postgres.thy ===== *)
theory Postgres
  imports BucketMemory
begin

text \<open>
  \<open>bucket/postgres\<close>: the bucket limiter shared through a database. The database is PostgreSQL and not
  under \<open>src/\<close>; its state is the rows of the two tables the migration declares, each SQL statement of the
  source is the row operation it denotes. A connection (\<open>session\<close>) has the committed rows and, while a transaction is open, the
  rows as its statements have left them: a statement works on the latter, or without a transaction on the committed rows at once;
  \<open>Commit\<close> and \<open>Rollback\<close> end it. Transactions of different processes on one bucket do not overlap, since every statement on a bucket
  runs under its row lock. What the database decides is a \<open>tx_env\<close>: whether each statement fails, the
  readings of its clock, the identifier it generates, and whether a commit or a statement without transaction whose answer is an
  error took effect all the same.
  \<open>sqlstate\<close> stands for the driver's SQLSTATE method. Times are in nanoseconds.
\<close>

section \<open>Configuration (postgres.go)\<close>

record pg_config =
  pg_LeaseTTL :: int
  pg_MaxLeaseDuration :: int
  pg_OpTimeout :: int
  pg_MaxWait :: int
  pg_PollInterval :: int
  pg_MaxPollInterval :: int

definition DefaultLeaseTTL :: int where "DefaultLeaseTTL = 30 * 1000000000"
definition DefaultMaxLeaseDuration :: int where "DefaultMaxLeaseDuration = 15 * 60 * 1000000000"
definition DefaultOpTimeout :: int where "DefaultOpTimeout = 5 * 1000000000"
definition DefaultPollInterval :: int where "DefaultPollInterval = 100 * 1000000"
definition DefaultMaxPollInterval :: int where "DefaultMaxPollInterval = 2 * 1000000000"

definition positive_or :: "int \<Rightarrow> int \<Rightarrow> int" where
  "positive_or d x = (if x \<le> 0 then d else x)"

definition withDefaults :: "pg_config \<Rightarrow> pg_config" where
  "withDefaults c =
     (let poll = positive_or DefaultPollInterval (pg_PollInterval c) in
      c\<lparr>pg_LeaseTTL := positive_or DefaultLeaseTTL (pg_LeaseTTL c),
        pg_MaxLeaseDuration := positive_or DefaultMaxLeaseDuration (pg_MaxLeaseDuration c),
        pg_OpTimeout := positive_or DefaultOpTimeout (pg_OpTimeout c),
        pg_PollInterval := poll,
        pg_MaxPollInterval := max (positive_or DefaultMaxPollInterval (pg_MaxPollInterval c)) poll\<rparr>)"

definition pg_validate :: "pg_config \<Rightarrow> error option" where
  "pg_validate c =
     (if pg_MaxLeaseDuration c \<le> pg_LeaseTTL c then Some (Wrapped ''postgres: MaxLeaseDuration must exceed LeaseTTL'' [])
      else if go_div (pg_LeaseTTL c) 3 \<le> 0 then Some (Wrapped ''postgres: LeaseTTL is too short to renew'' [])
      else None)"

text \<open>Whole microseconds, as a duration.\<close>

definition micros :: "int \<Rightarrow> int" where
  "micros d = go_div d 1000"

section \<open>The database\<close>

record bucket_row =
  br_id :: int
  br_name :: string
  br_limits :: limits
  br_balance :: rat
  br_lastRefill :: int

record lease_row =
  lr_id :: string
  lr_bucket :: int
  lr_acquired :: int
  lr_expires :: int

record db =
  db_buckets :: "bucket_row list"
  db_leases :: "lease_row list"
  db_version :: "int option"

record tx_env =
  tx_begin :: "error option"
  tx_lock_timeout :: "error option"
  tx_stmt :: "nat \<Rightarrow> error option"
  tx_commit :: "(error \<times> bool) option"
  tx_lost :: bool
  tx_clock :: "nat \<Rightarrow> int"
  tx_new_lease :: string
  tx_new_bucket :: int

section \<open>Schema errors (schema.go)\<close>

definition SchemaVersion :: int where "SchemaVersion = 1"

definition isSchemaMissing :: "(error \<Rightarrow> string option) \<Rightarrow> error \<Rightarrow> bool" where
  "isSchemaMissing sqlstate err =
     (case find (\<lambda>e. sqlstate e \<noteq> None) (chain err) of
        None \<Rightarrow> False
      | Some e \<Rightarrow> sqlstate e \<in> {Some ''42P01'', Some ''42703'', Some ''3F000''})"

definition schemaErr :: "(error \<Rightarrow> string option) \<Rightarrow> error \<Rightarrow> error" where
  "schemaErr sqlstate err =
     (if isSchemaMissing sqlstate err then SchemaError (Some err) SchemaVersion (- 1) else err)"

definition CheckSchema :: "(error \<Rightarrow> string option) \<Rightarrow> tx_env \<Rightarrow> db \<Rightarrow> error option" where
  "CheckSchema sqlstate env d =
     (case tx_stmt env 0 of
        Some err \<Rightarrow> (if isSchemaMissing sqlstate err then Some (SchemaError (Some err) SchemaVersion 0)
                    else Some (Wrapped ''bucket: checking schema version'' [err]))
      | None \<Rightarrow>
          (case db_version d of
             None \<Rightarrow> Some (SchemaError None SchemaVersion 0)
           | Some v \<Rightarrow> if v < SchemaVersion then Some (SchemaError None SchemaVersion v) else None))"

definition pg_New :: "(error \<Rightarrow> string option) \<Rightarrow> bool \<Rightarrow> pg_config \<Rightarrow> tx_env \<Rightarrow> db \<Rightarrow> error + pg_config" where
  "pg_New sqlstate db_nil cfg env d =
     (if db_nil then Inl (Wrapped ''postgres: nil *sql.DB'' [])
      else let cfg = withDefaults cfg in
        case pg_validate cfg of Some e \<Rightarrow> Inl e
        | None \<Rightarrow> (case CheckSchema sqlstate env d of Some e \<Rightarrow> Inl e | None \<Rightarrow> Inr cfg))"

section \<open>Transactions\<close>

record session =
  ss_rows :: db
  ss_tx :: "db option"

definition tx_rows :: "session \<Rightarrow> db" where
  "tx_rows s = (case ss_tx s of None \<Rightarrow> ss_rows s | Some d \<Rightarrow> d)"

definition tx_write :: "(db \<Rightarrow> db) \<Rightarrow> session \<Rightarrow> session" where
  "tx_write upd s = (case ss_tx s of None \<Rightarrow> s\<lparr>ss_rows := upd (ss_rows s)\<rparr> | Some d \<Rightarrow> s\<lparr>ss_tx := Some (upd d)\<rparr>)"

definition BeginTx :: "tx_env \<Rightarrow> session \<Rightarrow> error option \<times> session" where
  "BeginTx env s = (case tx_begin env of Some e \<Rightarrow> (Some e, s) | None \<Rightarrow> (None, s\<lparr>ss_tx := Some (ss_rows s)\<rparr>))"

definition applied :: "session \<Rightarrow> session" where
  "applied s = s\<lparr>ss_rows := tx_rows s, ss_tx := None\<rparr>"

definition Commit :: "tx_env \<Rightarrow> session \<Rightarrow> error option \<times> session" where
  "Commit env s = (case tx_commit env of
     Some (e, took_effect) \<Rightarrow> (Some e, if took_effect then applied s else s)
   | None \<Rightarrow> (None, applied s))"

text \<open>After the end of the transaction there is nothing to roll back.\<close>

definition Rollback :: "session \<Rightarrow> session" where "Rollback s = s\<lparr>ss_tx := None\<rparr>"

type_synonym 'r body = "session \<Rightarrow> (error + 'r) \<times> session"

text \<open>\<open>inTx\<close> between \<open>BeginTx\<close> and the deferred \<open>Rollback\<close>.\<close>

definition inTx_opened :: "tx_env \<Rightarrow> 'r body \<Rightarrow> 'r body" where
  "inTx_opened env fn s =
     (case tx_lock_timeout env of
        Some e \<Rightarrow> (Inl (Wrapped ''bucket: set lock_timeout'' [e]), s)
      | None \<Rightarrow>
          (case fn s of
             (Inl e, s) \<Rightarrow> (Inl e, s)
           | (Inr r, s) \<Rightarrow>
               (case Commit env s of
                  (Some e, s) \<Rightarrow> (Inl (Wrapped ''bucket: commit'' [e]), s)
                | (None, s) \<Rightarrow> (Inr r, s))))"

definition inTx :: "tx_env \<Rightarrow> 'r body \<Rightarrow> db \<Rightarrow> (error + 'r) \<times> db" where
  "inTx env fn d =
     (case BeginTx env \<lparr>ss_rows = d, ss_tx = None\<rparr> of
        (Some e, s) \<Rightarrow> (Inl (Wrapped ''bucket: begin'' [e]), ss_rows s)
      | (None, s) \<Rightarrow> (case inTx_opened env fn s of (res, s) \<Rightarrow> (res, ss_rows (Rollback s))))"

text \<open>Statement \<open>n\<close> of a transaction: its failure, as the source wraps it, or the rest \<open>k\<close>, which begins with its effect.\<close>

definition stmt :: "tx_env \<Rightarrow> nat \<Rightarrow> (error \<Rightarrow> error) \<Rightarrow> 'r body \<Rightarrow> 'r body" where
  "stmt env n wrap k s = (case tx_stmt env n of Some e \<Rightarrow> (Inl (wrap e), s) | None \<Rightarrow> k s)"

text \<open>A statement without a transaction.\<close>

definition autocommit :: "tx_env \<Rightarrow> (db \<Rightarrow> db) \<Rightarrow> db \<Rightarrow> error option \<times> db" where
  "autocommit env upd d =
     (let s = \<lparr>ss_rows = d, ss_tx = None\<rparr> in
      case tx_stmt env 0 of
        Some e \<Rightarrow> (Some e, ss_rows (if tx_lost env then tx_write upd s else s))
      | None \<Rightarrow> (None, ss_rows (tx_write upd s)))"

definition bucket_err :: "string \<Rightarrow> string \<Rightarrow> error \<Rightarrow> error" where
  "bucket_err key what e = Wrapped (''bucket '' @ quote key @ '': '' @ what) [e]"

text \<open>\<open>SELECT ... FOR UPDATE\<close>, then the clock in a statement of its own; \<open>k\<close> is the rest.\<close>

definition lockRow :: "(error \<Rightarrow> string option) \<Rightarrow> tx_env \<Rightarrow> string \<Rightarrow> (bucket_row \<Rightarrow> bool) \<Rightarrow> (bucket_row \<Rightarrow> int \<Rightarrow> 'r body) \<Rightarrow> 'r body" where
  "lockRow sqlstate env key P k =
     stmt env 0 (\<lambda>e. bucket_err key ''lock'' (schemaErr sqlstate e))
       (\<lambda>s. case find P (db_buckets (tx_rows s)) of
          None \<Rightarrow> (Inl (UnknownKey key), s)
        | Some r \<Rightarrow> stmt env 1 (bucket_err key ''clock'') (k r (tx_clock env 0)) s)"

definition lockBucket :: "(error \<Rightarrow> string option) \<Rightarrow> tx_env \<Rightarrow> string \<Rightarrow> (bucket_row \<Rightarrow> int \<Rightarrow> 'r body) \<Rightarrow> 'r body" where
  "lockBucket sqlstate env key k = lockRow sqlstate env key (\<lambda>r. br_name r = key) k"

definition lockBucketByID :: "(error \<Rightarrow> string option) \<Rightarrow> tx_env \<Rightarrow> string \<Rightarrow> int \<Rightarrow> (bucket_row \<Rightarrow> int \<Rightarrow> 'r body) \<Rightarrow> 'r body" where
  "lockBucketByID sqlstate env key i k = lockRow sqlstate env key (\<lambda>r. br_id r = i) k"

definition set_balance :: "int \<Rightarrow> rat \<Rightarrow> int \<Rightarrow> db \<Rightarrow> db" where
  "set_balance i balance now d =
     d\<lparr>db_buckets := map (\<lambda>r. if br_id r = i then r\<lparr>br_balance := balance, br_lastRefill := now\<rparr> else r) (db_buckets d)\<rparr>"

definition reap :: "int \<Rightarrow> int \<Rightarrow> db \<Rightarrow> db" where
  "reap i now d = d\<lparr>db_leases := filter (\<lambda>x. \<not> (lr_bucket x = i \<and> lr_expires x \<le> now)) (db_leases d)\<rparr>"

definition lease_count :: "int \<Rightarrow> db \<Rightarrow> nat" where
  "lease_count i d = length (filter (\<lambda>x. lr_bucket x = i) (db_leases d))"

section \<open>Acquire\<close>

text \<open>A lease handed out: the row's identity and what its \<open>Adjust\<close> and \<open>Release\<close> remember.\<close>

record pg_lease =
  pl_key :: string
  pl_id :: string
  pl_bucketID :: int
  pl_tokens :: int
  pl_tokenCharged :: bool
  pl_adjusted :: bool
  pl_released :: bool
  pl_releaseErr :: "error option"
  pl_lost :: bool

definition newLease :: "string \<Rightarrow> string \<Rightarrow> int \<Rightarrow> int \<Rightarrow> bool \<Rightarrow> pg_lease" where
  "newLease key i b tokens charged = \<lparr>pl_key = key, pl_id = i, pl_bucketID = b, pl_tokens = tokens,
     pl_tokenCharged = charged, pl_adjusted = False, pl_released = False, pl_releaseErr = None, pl_lost = False\<rparr>"

definition insert_lease :: "pg_config \<Rightarrow> tx_env \<Rightarrow> int \<Rightarrow> db \<Rightarrow> db" where
  "insert_lease cfg env b d = d\<lparr>db_leases := db_leases d @
     [\<lparr>lr_id = tx_new_lease env, lr_bucket = b, lr_acquired = tx_clock env 1,
       lr_expires = tx_clock env 2 + micros (pg_LeaseTTL cfg) * 1000\<rparr>]\<rparr>"

text \<open>The transaction of one attempt under the locked row \<open>r\<close>.\<close>

definition admit :: "(error \<Rightarrow> string option) \<Rightarrow> pg_config \<Rightarrow> tx_env \<Rightarrow> string \<Rightarrow> int \<Rightarrow> bucket_row \<Rightarrow> int \<Rightarrow> pg_lease result body" where
  "admit sqlstate cfg env key tokens r now =
     (let wrap = (\<lambda>what e. bucket_err key what (schemaErr sqlstate e)); reason = Impossible (br_limits r) tokens in
      if reason \<noteq> [] then (\<lambda>s. (Inr \<lparr>r_Lease = None, r_Impossible = reason, r_RetryAfter = 0\<rparr>, s))
      else stmt env 2 (wrap ''reap'') (\<lambda>s. let s = tx_write (reap (br_id r) now) s in
        stmt env 3 (wrap ''count'') (\<lambda>s. let live = int (lease_count (br_id r) (tx_rows s));
            balance = Settle (br_limits r) (br_balance r) (br_lastRefill r) now;
            fits = Fits (br_limits r) balance tokens live;
            balance = (if fits \<and> TokenLimited (br_limits r) then fl (balance - float_of_int tokens) else balance) in
          stmt env 4 (wrap ''refill'') (\<lambda>s. let s = tx_write (set_balance (br_id r) balance now) s in
            if \<not> fits then (Inr \<lparr>r_Lease = None, r_Impossible = [],
                               r_RetryAfter = core_RetryAfter (br_limits r) balance tokens\<rparr>, s)
            else stmt env 5 (wrap ''insert lease'')
              (\<lambda>s. (Inr \<lparr>r_Lease = Some (newLease key (tx_new_lease env) (br_id r) tokens (TokenLimited (br_limits r))),
                     r_Impossible = [], r_RetryAfter = 0\<rparr>, tx_write (insert_lease cfg env (br_id r)) s)) s) s) s))"

definition tryAcquire :: "(error \<Rightarrow> string option) \<Rightarrow> pg_config \<Rightarrow> string \<Rightarrow> int \<Rightarrow> tx_env \<Rightarrow> db \<Rightarrow>
    (error + pg_lease result) \<times> db" where
  "tryAcquire sqlstate cfg key tokens env d =
     inTx env (lockBucket sqlstate env key (admit sqlstate cfg env key tokens)) d"

text \<open>\<open>Acquire\<close>: the attempts run in the wait loop every backend shares. \<open>lock\<close> stands for the time an attempt
  takes to get the row lock and for what other processes commit meanwhile; \<open>envs\<close> is what the database
  decides of each attempt, given the attempt's context.\<close>

definition pg_waiter :: "pg_config \<Rightarrow> waiter" where
  "pg_waiter cfg = \<lparr>wt_MaxWait = pg_MaxWait cfg, wt_Initial = pg_PollInterval cfg, wt_Max = pg_MaxPollInterval cfg\<rparr>"

definition pg_attempt :: "(error \<Rightarrow> string option) \<Rightarrow> pg_config \<Rightarrow> (ctx \<Rightarrow> nat \<Rightarrow> tx_env) \<Rightarrow> string \<Rightarrow> int \<Rightarrow> ctx \<Rightarrow>
    (db, 'a) shared_scheme \<Rightarrow> (error + pg_lease result) \<times> (db, 'a) shared_scheme" where
  "pg_attempt sqlstate cfg envs key tokens c w =
     (let w = lock w; (r, d) = tryAcquire sqlstate cfg key tokens (envs c (sh_locks w)) (sh_obj w)
      in (r, w\<lparr>sh_obj := d\<rparr>))"

definition pg_Acquire :: "nat \<Rightarrow> (error \<Rightarrow> string option) \<Rightarrow> pg_config \<Rightarrow> (ctx \<Rightarrow> nat \<Rightarrow> tx_env) \<Rightarrow> ctx \<Rightarrow> string \<Rightarrow> int \<Rightarrow>
    (db, 'a) shared_scheme \<Rightarrow> ((error + pg_lease) \<times> (db, 'a) shared_scheme) option" where
  "pg_Acquire fuel sqlstate cfg envs c key tokens w =
     Wait fuel c key (pg_waiter cfg) (pg_attempt sqlstate cfg envs key (max tokens 0)) w"

section \<open>Leases (lease.go)\<close>

text \<open>One renewal: the two clock readings are those of the \<open>WHERE\<close> and of the \<open>SET\<close>.\<close>

definition renewed :: "pg_config \<Rightarrow> pg_lease \<Rightarrow> tx_env \<Rightarrow> lease_row \<Rightarrow> bool" where
  "renewed cfg r env x \<longleftrightarrow> lr_id x = pl_id r \<and> lr_expires x > tx_clock env 0"

definition renew_row :: "pg_config \<Rightarrow> pg_lease \<Rightarrow> tx_env \<Rightarrow> lease_row \<Rightarrow> lease_row" where
  "renew_row cfg r env x =
     (if renewed cfg r env x
      then x\<lparr>lr_expires := min (tx_clock env 1 + micros (pg_LeaseTTL cfg) * 1000) (lr_acquired x + micros (pg_MaxLeaseDuration cfg) * 1000)\<rparr>
      else x)"

definition renewOnce :: "pg_config \<Rightarrow> pg_lease \<Rightarrow> tx_env \<Rightarrow> db \<Rightarrow> (error + bool) \<times> db" where
  "renewOnce cfg r env d =
     (case autocommit env (\<lambda>d. d\<lparr>db_leases := map (renew_row cfg r env) (db_leases d)\<rparr>) d of
        (Some e, d') \<Rightarrow> (Inl (bucket_err (pl_key r) ''renew'' e), d')
      | (None, d') \<Rightarrow> (Inr (\<not> list_ex (renewed cfg r env) (db_leases d)), d'))"

text \<open>One wake-up of the renewal goroutine: whether it goes on, and the lease (which it may mark lost).\<close>

datatype renew_wakeup = CtxDone | HardCap | Tick bool "(error + bool)"

definition renew_step :: "renew_wakeup \<Rightarrow> pg_lease \<Rightarrow> bool \<times> pg_lease" where
  "renew_step ev r =
     (case ev of
        CtxDone \<Rightarrow> (False, r)
      | HardCap \<Rightarrow> (False, r\<lparr>pl_lost := True\<rparr>)
      | Tick canceled (Inl e) \<Rightarrow> (\<not> canceled, r)
      | Tick canceled (Inr True) \<Rightarrow> (False, r\<lparr>pl_lost := True\<rparr>)
      | Tick canceled (Inr False) \<Rightarrow> (True, r))"

definition adjust_tx :: "(error \<Rightarrow> string option) \<Rightarrow> pg_lease \<Rightarrow> int \<Rightarrow> tx_env \<Rightarrow> unit body" where
  "adjust_tx sqlstate r actualTokens env =
     lockBucketByID sqlstate env (pl_key r) (pl_bucketID r) (\<lambda>b now s.
       if \<not> TokenLimited (br_limits b) then (Inr (), s)
       else let balance = Settle (br_limits b) (br_balance b) (br_lastRefill b) now;
                balance = Adjusted (br_limits b) balance (pl_tokens r) actualTokens in
         stmt env 2 (\<lambda>e. bucket_err (pl_key r) ''adjust'' (schemaErr sqlstate e))
           (\<lambda>s. (Inr (), tx_write (set_balance (br_id b) balance now) s)) s)"

definition pg_Adjust :: "(error \<Rightarrow> string option) \<Rightarrow> pg_lease \<Rightarrow> int \<Rightarrow> tx_env \<Rightarrow> db \<Rightarrow> error option \<times> pg_lease \<times> db" where
  "pg_Adjust sqlstate r actualTokens env d =
     (if pl_adjusted r then (None, r, d)
      else let r = r\<lparr>pl_adjusted := True\<rparr> in
        if \<not> pl_tokenCharged r then (None, r, d)
        else case inTx env (adjust_tx sqlstate r (max actualTokens 0) env) d of
             (Inl e, d) \<Rightarrow> (Some e, r, d)
           | (Inr _, d) \<Rightarrow> (None, r, d))"

definition pg_Release :: "(error \<Rightarrow> string option) \<Rightarrow> pg_lease \<Rightarrow> tx_env \<Rightarrow> db \<Rightarrow> error option \<times> pg_lease \<times> db" where
  "pg_Release sqlstate r env d =
     (if pl_released r then (pl_releaseErr r, r, d)
      else case autocommit env (\<lambda>d. d\<lparr>db_leases := filter (\<lambda>x. lr_id x \<noteq> pl_id r) (db_leases d)\<rparr>) d of
        (Some e, d') \<Rightarrow> (let err = bucket_err (pl_key r) ''release'' (schemaErr sqlstate e)
                        in (Some err, r\<lparr>pl_released := True, pl_releaseErr := Some err\<rparr>, d'))
      | (None, d') \<Rightarrow>
          let live = (case find (\<lambda>x. lr_id x = pl_id r) (db_leases d) of
                        None \<Rightarrow> False | Some x \<Rightarrow> lr_expires x > tx_clock env 0) in
          if live then (None, r\<lparr>pl_released := True\<rparr>, d')
          else (Some ErrLeaseLost, r\<lparr>pl_released := True, pl_releaseErr := Some ErrLeaseLost, pl_lost := True\<rparr>, d'))"

section \<open>Ensure (ensure.go)\<close>

definition newBalance :: "limits \<Rightarrow> limits \<Rightarrow> rat \<Rightarrow> rat" where
  "newBalance old nxt settled =
     (if \<not> TokenLimited nxt then 0
      else if \<not> TokenLimited old then float_of_int (Capacity nxt)
      else min settled (float_of_int (Capacity nxt)))"

definition stored_limits :: "limits \<Rightarrow> limits" where
  "stored_limits l = l\<lparr>BufferFactor := EffectiveBufferFactor l\<rparr>"

definition add_bucket :: "string \<Rightarrow> limits \<Rightarrow> tx_env \<Rightarrow> db \<Rightarrow> db" where
  "add_bucket name l env d = d\<lparr>db_buckets := db_buckets d @ [\<lparr>br_id = tx_new_bucket env, br_name = name,
     br_limits = stored_limits l, br_balance = float_of_int (Capacity l), br_lastRefill = tx_clock env 3\<rparr>]\<rparr>"

definition set_limits :: "int \<Rightarrow> limits \<Rightarrow> rat \<Rightarrow> int \<Rightarrow> db \<Rightarrow> db" where
  "set_limits i l balance now d = d\<lparr>db_buckets := map (\<lambda>r. if br_id r = i
     then r\<lparr>br_limits := stored_limits l, br_balance := balance, br_lastRefill := now\<rparr> else r) (db_buckets d)\<rparr>"

definition ensure_tx :: "(error \<Rightarrow> string option) \<Rightarrow> string \<Rightarrow> limits \<Rightarrow> bool \<Rightarrow> tx_env \<Rightarrow> unit body" where
  "ensure_tx sqlstate name l overwrite env =
     (let wrap = (\<lambda>e. bucket_err name ''ensure'' (schemaErr sqlstate e)) in
      stmt env 6 wrap (\<lambda>s.
        if find (\<lambda>r. br_name r = name) (db_buckets (tx_rows s)) = None
        then (Inr (), tx_write (add_bucket name l env) s)
        else if \<not> overwrite then (Inr (), s)
        else lockBucket sqlstate env name (\<lambda>old now.
           let balance = newBalance (br_limits old) l
                 (Settle (br_limits old) (br_balance old) (br_lastRefill old) now) in
           stmt env 2 wrap (\<lambda>s. (Inr (), tx_write (set_limits (br_id old) l balance now) s))) s))"

definition Ensure :: "(error \<Rightarrow> string option) \<Rightarrow> string \<Rightarrow> limits \<Rightarrow> bool \<Rightarrow> tx_env \<Rightarrow> db \<Rightarrow> error option \<times> db" where
  "Ensure sqlstate name l overwrite env d =
     (case Validate l of
        Some e \<Rightarrow> (Some (Wrapped (''postgres: Ensure '' @ quote name) [e]), d)
      | None \<Rightarrow>
          if name = [] then (Some (Wrapped ''postgres: Ensure: empty bucket name'' []), d)
          else case inTx env (ensure_tx sqlstate name l overwrite env) d of
              (Inl e, d) \<Rightarrow> (Some e, d)
            | (Inr _, d) \<Rightarrow> (None, d))"

end
