(* ===== verification/PostgresRefines.thy ===== *)
theory PostgresRefines
  imports Postgres
begin

text \<open>
  The two implementations of \<open>bucket.Limiter\<close> against each other: while the database answers and no
  lease is left to expire, a history of operations on a key has the same results, and accounts the
  same balance and the same live leases, whether it runs against the in-memory limiter or against
  PostgreSQL. \<open>sim\<close> is the simulation relation between the rows of the key with the lease objects
  handed out, and the key state and leases of the in-memory limiter.
\<close>

section \<open>Operations of a holder of leases on one key\<close>

datatype bucket_op = Op_Acquire int | Op_Adjust nat int | Op_Renew nat | Op_Release nat

datatype op_result = Granted | Refused string int | Finished "error option" | Failed error

fun pg_exec :: "(error \<Rightarrow> string option) \<Rightarrow> pg_config \<Rightarrow> string \<Rightarrow> bucket_op \<Rightarrow> tx_env \<Rightarrow> db \<Rightarrow> pg_lease list \<Rightarrow>
    op_result \<times> db \<times> pg_lease list" where
  "pg_exec sqlstate cfg key (Op_Acquire tokens) env d rs =
     (case tryAcquire sqlstate cfg key (max tokens 0) env d of
        (Inl e, d) \<Rightarrow> (Failed e, d, rs)
      | (Inr res, d) \<Rightarrow>
          (case r_Lease res of
             None \<Rightarrow> (Refused (r_Impossible res) (r_RetryAfter res), d, rs)
           | Some r \<Rightarrow> (Granted, d, rs @ [r])))"
| "pg_exec sqlstate cfg key (Op_Adjust i actual) env d rs =
     (case pg_Adjust sqlstate (rs ! i) actual env d of (e, r, d) \<Rightarrow> (Finished e, d, rs[i := r]))"
| "pg_exec sqlstate cfg key (Op_Renew i) env d rs =
     (if pl_released (rs ! i) then (Finished None, d, rs)
      else case renewOnce cfg (rs ! i) env d of (res, d) \<Rightarrow>
        (Finished (case res of Inl e \<Rightarrow> Some e | Inr lost \<Rightarrow> if lost then Some ErrLeaseLost else None), d,
         rs[i := snd (renew_step (Tick False res) (rs ! i))]))"
| "pg_exec sqlstate cfg key (Op_Release i) env d rs =
     (case pg_Release sqlstate (rs ! i) env d of (e, r, d) \<Rightarrow> (Finished e, d, rs[i := r]))"

fun mem_exec :: "string \<Rightarrow> bucket_op \<Rightarrow> int \<Rightarrow> limiter \<Rightarrow> op_result \<times> limiter" where
  "mem_exec key (Op_Acquire tokens) now l =
     (case acquireLocked None key (max tokens 0) now l of
        (Inl e, l) \<Rightarrow> (Failed e, l)
      | (Inr res, l) \<Rightarrow>
          (if r_Lease res = None then (Refused (r_Impossible res) (r_RetryAfter res), l) else (Granted, l)))"
| "mem_exec key (Op_Adjust i actual) now l = (Finished None, adjustLocked i actual now l)"
| "mem_exec key (Op_Renew i) now l = (Finished None, l)"
| "mem_exec key (Op_Release i) now l = (Finished None, releaseLocked i l)"

section \<open>The simulation\<close>

definition healthy :: "tx_env \<Rightarrow> bool" where
  "healthy env \<longleftrightarrow> tx_begin env = None \<and> tx_lock_timeout env = None \<and> tx_stmt env = (\<lambda>_. None) \<and> tx_commit env = None"

definition same_account :: "bucket_row \<Rightarrow> keyState \<Rightarrow> bool" where
  "same_account b s \<longleftrightarrow> ks_limits s = br_limits b \<and> ks_balance s = br_balance b \<and>
     (TokenLimited (br_limits b) \<longrightarrow> ks_lastRefill s = br_lastRefill b)"

definition lease_agrees :: "string \<Rightarrow> bucket_row \<Rightarrow> pg_lease \<Rightarrow> lease \<Rightarrow> bool" where
  "lease_agrees key b r h \<longleftrightarrow> ls_key h = key \<and> pl_bucketID r = br_id b \<and> ls_tokens h = pl_tokens r \<and>
     ls_adjusted h = pl_adjusted r \<and> ls_released h = pl_released r \<and> pl_releaseErr r = None \<and>
     pl_tokenCharged r = TokenLimited (br_limits b) \<and> \<not> pl_lost r"

abbreviation is_held :: "pg_lease \<Rightarrow> bool" where
  "is_held r \<equiv> \<not> pl_released r"

definition leases_of :: "int \<Rightarrow> db \<Rightarrow> lease_row list" where
  "leases_of i d = filter (\<lambda>x. lr_bucket x = i) (db_leases d)"

definition sim_at :: "string \<Rightarrow> bucket_row \<Rightarrow> keyState \<Rightarrow> db \<Rightarrow> pg_lease list \<Rightarrow> limiter \<Rightarrow> bool" where
  "sim_at key b s d rs l \<longleftrightarrow>
     find (\<lambda>r. br_name r = key) (db_buckets d) = Some b \<and> find (\<lambda>r. br_id r = br_id b) (db_buckets d) = Some b \<and>
     lm_state l key = Some s \<and> same_account b s \<and> ks_live s = int (length (filter is_held rs)) \<and>
     map lr_id (leases_of (br_id b) d) = map pl_id (filter is_held rs) \<and>
     distinct (map lr_id (db_leases d)) \<and> distinct (map pl_id rs) \<and> list_all2 (lease_agrees key b) rs (lm_leases l)"

definition sim :: "string \<Rightarrow> db \<Rightarrow> pg_lease list \<Rightarrow> limiter \<Rightarrow> bool" where
  "sim key d rs l \<longleftrightarrow> (\<exists>b s. sim_at key b s d rs l)"

text \<open>What an operation may rely on: no failure, a fresh identifier, a handle that was handed out, and
  leases of the key still within their time.\<close>

fun op_handle :: "bucket_op \<Rightarrow> nat option" where
  "op_handle (Op_Acquire _) = None"
| "op_handle (Op_Adjust i _) = Some i"
| "op_handle (Op_Renew i) = Some i"
| "op_handle (Op_Release i) = Some i"

definition timely :: "string \<Rightarrow> bucket_op \<Rightarrow> tx_env \<Rightarrow> db \<Rightarrow> pg_lease list \<Rightarrow> bool" where
  "timely key op env d rs \<longleftrightarrow> healthy env \<and>
     tx_new_lease env \<notin> set (map lr_id (db_leases d)) \<union> set (map pl_id rs) \<and>
     (case op_handle op of None \<Rightarrow> True | Some i \<Rightarrow> i < length rs) \<and>
     (\<forall>x \<in> set (db_leases d). (\<exists>b \<in> set (db_buckets d). br_name b = key \<and> br_id b = lr_bucket x) \<longrightarrow>
        tx_clock env 0 < lr_expires x)"

section \<open>Facts about rows\<close>

lemma find_map_same:
  assumes "\<And>x. P (f x) = P x"
  shows "find P (map f xs) = map_option f (find P xs)"
  by (induction xs) (simp_all add: assms)

lemma find_in_set: "find P xs = Some x \<Longrightarrow> x \<in> set xs \<and> P x"
  by (metis find_Some_iff nth_mem)

lemma filter_all: "(\<And>x. x \<in> set xs \<Longrightarrow> P x) \<Longrightarrow> filter P xs = xs"
  by (simp add: filter_id_conv)

lemma healthy_stmt [simp]: "healthy env \<Longrightarrow> stmt env n wrap k = k"
  by (simp add: healthy_def stmt_def fun_eq_iff)

text \<open>A connection with committed rows \<open>c\<close> whose transaction has come to the rows \<open>d\<close>.\<close>

abbreviation in_tx :: "db \<Rightarrow> db \<Rightarrow> session" where "in_tx c d \<equiv> \<lparr>ss_rows = c, ss_tx = Some d\<rparr>"

lemma in_tx_simps [simp]:
  "tx_rows (in_tx c d) = d" "tx_write f (in_tx c d) = in_tx c (f d)" "ss_rows (Rollback s) = ss_rows s"
  "applied (in_tx c d) = \<lparr>ss_rows = d, ss_tx = None\<rparr>"
  by (simp_all add: tx_rows_def tx_write_def Rollback_def applied_def)

lemma healthy_inTx: "healthy env \<Longrightarrow> fn (in_tx d d) = (Inr r, in_tx d d') \<Longrightarrow> inTx env fn d = (Inr r, d')"
  by (simp add: healthy_def inTx_def BeginTx_def inTx_opened_def Commit_def)

lemma healthy_lockRow: "healthy env \<Longrightarrow> find P (db_buckets d) = Some b \<Longrightarrow>
    lockRow sqlstate env key P k (in_tx c d) = k b (tx_clock env 0) (in_tx c d)"
  by (simp add: lockRow_def)

lemma healthy_autocommit: "healthy env \<Longrightarrow> autocommit env upd d = (None, upd d)"
  by (simp add: healthy_def autocommit_def tx_write_def Let_def)

lemma set_balance_find:
  "find (\<lambda>r. br_name r = key) (db_buckets d) = Some b \<Longrightarrow>
   find (\<lambda>r. br_name r = key) (db_buckets (set_balance (br_id b) v t d)) = Some (b\<lparr>br_balance := v, br_lastRefill := t\<rparr>)"
  "find (\<lambda>r. br_id r = br_id b) (db_buckets d) = Some b \<Longrightarrow>
   find (\<lambda>r. br_id r = br_id b) (db_buckets (set_balance (br_id b) v t d)) = Some (b\<lparr>br_balance := v, br_lastRefill := t\<rparr>)"
  by (simp_all add: set_balance_def find_map_same)

lemma set_balance_leases [simp]: "db_leases (set_balance i v t d) = db_leases d"
  by (simp add: set_balance_def)

lemma leases_of_set_balance [simp]: "leases_of i (set_balance j v t d) = leases_of i d"
  by (simp add: leases_of_def)

lemma reap_timely:
  assumes "sim_at key b s d rs l" and "timely key op env d rs"
  shows "reap (br_id b) (tx_clock env 0) d = d"
proof -
  have "find (\<lambda>r. br_name r = key) (db_buckets d) = Some b" using assms(1) by (simp add: sim_at_def)
  from find_in_set [OF this] have "\<not> (lr_bucket x = br_id b \<and> lr_expires x \<le> tx_clock env 0)" if "x \<in> set (db_leases d)" for x
    using assms(2) that unfolding timely_def by (metis not_less)
  then have "filter (\<lambda>x. \<not> (lr_bucket x = br_id b \<and> lr_expires x \<le> tx_clock env 0)) (db_leases d) = db_leases d"
    by (rule filter_all)
  then show ?thesis by (simp add: reap_def)
qed

lemma same_account_settle:
  "same_account b s \<Longrightarrow> Settle (br_limits b) (br_balance b) (br_lastRefill b) now =
    Settle (ks_limits s) (ks_balance s) (ks_lastRefill s) now"
  by (cases "TokenLimited (br_limits b)") (auto simp: same_account_def)

lemma lease_agrees_row [simp]:
  "lease_agrees key (b\<lparr>br_balance := v, br_lastRefill := t\<rparr>) = lease_agrees key b"
  by (simp add: lease_agrees_def fun_eq_iff)

section \<open>Acquire\<close>

text \<open>What both sides compute, on the key's account alone.\<close>

lemma sim_tryAcquire:
  fixes tokens :: int
  assumes sm: "sim_at key b s d rs l" and tm: "timely key op env d rs"
  defines "now \<equiv> tx_clock env 0"
  defines "bal \<equiv> Settle (br_limits b) (br_balance b) (br_lastRefill b) now"
  defines "ok \<equiv> Fits (br_limits b) bal tokens (ks_live s)"
  defines "bal' \<equiv> (if ok \<and> TokenLimited (br_limits b) then fl (bal - float_of_int tokens) else bal)"
  shows "tryAcquire sqlstate cfg key tokens env d =
    (if Impossible (br_limits b) tokens \<noteq> []
     then (Inr \<lparr>r_Lease = None, r_Impossible = Impossible (br_limits b) tokens, r_RetryAfter = 0\<rparr>, d)
     else if \<not> ok
     then (Inr \<lparr>r_Lease = None, r_Impossible = [], r_RetryAfter = core_RetryAfter (br_limits b) bal' tokens\<rparr>,
           set_balance (br_id b) bal' now d)
     else (Inr \<lparr>r_Lease = Some (newLease key (tx_new_lease env) (br_id b) tokens (TokenLimited (br_limits b))),
             r_Impossible = [], r_RetryAfter = 0\<rparr>,
           insert_lease cfg env (br_id b) (set_balance (br_id b) bal' now d)))"
proof -
  have h: "healthy env" using tm by (simp add: timely_def)
  have f: "find (\<lambda>r. br_name r = key) (db_buckets d) = Some b" using sm by (simp add: sim_at_def)
  have ids: "map lr_id (leases_of (br_id b) d) = map pl_id (filter is_held rs)"
    and "ks_live s = int (length (filter is_held rs))" using sm by (simp_all add: sim_at_def)
  then have live: "int (lease_count (br_id b) d) = ks_live s"
    by (metis length_map lease_count_def leases_of_def)
  note reap = reap_timely [OF sm tm, folded now_def]
  let ?refused = "\<lparr>r_Lease = None, r_Impossible = Impossible (br_limits b) tokens,
      r_RetryAfter = (if Impossible (br_limits b) tokens \<noteq> [] then 0 else core_RetryAfter (br_limits b) bal' tokens)\<rparr>"
    and ?granted = "\<lparr>r_Lease = Some (newLease key (tx_new_lease env) (br_id b) tokens (TokenLimited (br_limits b))),
      r_Impossible = [], r_RetryAfter = 0\<rparr>"
  let ?d = "set_balance (br_id b) bal' now d" and ?possible = "Impossible (br_limits b) tokens = []"
  have "lockBucket sqlstate env key (admit sqlstate cfg env key tokens) (in_tx d d) =
      (Inr (if ?possible \<and> ok then ?granted else ?refused),
       in_tx d (if ?possible then if ok then insert_lease cfg env (br_id b) ?d else ?d else d))"
    unfolding lockBucket_def healthy_lockRow [OF h f]
    by (simp add: admit_def h reap live Let_def now_def [symmetric] bal_def [symmetric] ok_def [symmetric] bal'_def)
  from healthy_inTx [of env "lockBucket sqlstate env key (admit sqlstate cfg env key tokens)", OF h this] show ?thesis
    by (simp add: tryAcquire_def)
qed

lemma mem_acquire_account:
  fixes now tokens :: int
  assumes "lm_state l key = Some s" and "same_account b s"
  defines "bal \<equiv> Settle (br_limits b) (br_balance b) (br_lastRefill b) now"
  defines "ok \<equiv> Fits (br_limits b) bal tokens (ks_live s)"
  defines "bal' \<equiv> (if ok \<and> TokenLimited (br_limits b) then fl (bal - float_of_int tokens) else bal)"
  defines "s' \<equiv> s\<lparr>ks_lastRefill := now, ks_balance := bal'\<rparr>"
  shows "acquireLocked None key tokens now l =
    (if Impossible (br_limits b) tokens \<noteq> []
     then (Inr \<lparr>r_Lease = None, r_Impossible = Impossible (br_limits b) tokens, r_RetryAfter = 0\<rparr>, l)
     else if \<not> ok
     then (Inr \<lparr>r_Lease = None, r_Impossible = [], r_RetryAfter = core_RetryAfter (br_limits b) bal' tokens\<rparr>,
           l\<lparr>lm_state := (lm_state l)(key \<mapsto> s')\<rparr>)
     else (Inr \<lparr>r_Lease = Some (length (lm_leases l)), r_Impossible = [], r_RetryAfter = 0\<rparr>,
           l\<lparr>lm_state := (lm_state l)(key \<mapsto> s'\<lparr>ks_live := ks_live s + 1\<rparr>),
             lm_leases := lm_leases l @ [\<lparr>ls_key = key, ls_tokens = tokens, ls_adjusted = False, ls_released = False\<rparr>]\<rparr>))"
proof -
  have lim: "ks_limits s = br_limits b" using assms(2) by (simp add: same_account_def)
  have st: "settleLocked s now = s\<lparr>ks_lastRefill := now, ks_balance := bal\<rparr>"
    by (cases s) (simp add: settleLocked_def bal_def same_account_settle [OF assms(2)])
  show ?thesis
    by (simp add: acquireLocked_def stateLocked_def assms(1) lim st Let_def ok_def [symmetric] bal'_def s'_def)
qed

text \<open>The relation survives a change of the account, and a new lease.\<close>

lemma sim_account:
  assumes "sim_at key b s d rs l"
  shows "sim key (set_balance (br_id b) v t d) rs (l\<lparr>lm_state := (lm_state l)(key \<mapsto> s\<lparr>ks_lastRefill := t, ks_balance := v\<rparr>)\<rparr>)"
proof -
  have "sim_at key (b\<lparr>br_balance := v, br_lastRefill := t\<rparr>) (s\<lparr>ks_lastRefill := t, ks_balance := v\<rparr>)
      (set_balance (br_id b) v t d) rs (l\<lparr>lm_state := (lm_state l)(key \<mapsto> s\<lparr>ks_lastRefill := t, ks_balance := v\<rparr>)\<rparr>)"
    using assms by (auto simp: sim_at_def set_balance_find same_account_def)
  then show ?thesis unfolding sim_def by blast
qed

lemma insert_lease_proj [simp]:
  "db_buckets (insert_lease cfg env i d) = db_buckets d"
  "map lr_id (db_leases (insert_lease cfg env i d)) = map lr_id (db_leases d) @ [tx_new_lease env]"
  "map lr_id (leases_of i (insert_lease cfg env i d)) = map lr_id (leases_of i d) @ [tx_new_lease env]"
  by (simp_all add: insert_lease_def leases_of_def)

lemma sim_grant:
  assumes sm: "sim_at key b s d rs l"
    and fresh: "tx_new_lease env \<notin> set (map lr_id (db_leases d)) \<union> set (map pl_id rs)"
  shows "sim key (insert_lease cfg env (br_id b) d)
      (rs @ [newLease key (tx_new_lease env) (br_id b) tokens (TokenLimited (br_limits b))])
      (l\<lparr>lm_state := (lm_state l)(key \<mapsto> s\<lparr>ks_live := ks_live s + 1\<rparr>),
         lm_leases := lm_leases l @ [\<lparr>ls_key = key, ls_tokens = tokens, ls_adjusted = False, ls_released = False\<rparr>]\<rparr>)"
proof -
  let ?r = "newLease key (tx_new_lease env) (br_id b) tokens (TokenLimited (br_limits b))"
  let ?h = "\<lparr>ls_key = key, ls_tokens = tokens, ls_adjusted = False, ls_released = False\<rparr>"
  have r: "is_held ?r" "pl_id ?r = tx_new_lease env" "lease_agrees key b ?r ?h"
    by (simp_all add: newLease_def lease_agrees_def)
  have "list_all2 (lease_agrees key b) (rs @ [?r]) (lm_leases l @ [?h])"
    using sm r(3) by (simp add: sim_at_def list_all2_appendI)
  moreover have "same_account b (s\<lparr>ks_live := ks_live s + 1\<rparr>)" using sm by (simp add: sim_at_def same_account_def)
  ultimately have "sim_at key b (s\<lparr>ks_live := ks_live s + 1\<rparr>) (insert_lease cfg env (br_id b) d) (rs @ [?r])
      (l\<lparr>lm_state := (lm_state l)(key \<mapsto> s\<lparr>ks_live := ks_live s + 1\<rparr>), lm_leases := lm_leases l @ [?h]\<rparr>)"
    using sm fresh r(1,2) by (simp add: sim_at_def)
  then show ?thesis unfolding sim_def by blast
qed

lemma exec_acquire:
  assumes sm: "sim key d rs l" and tm: "timely key (Op_Acquire tokens) env d rs"
    and p: "pg_exec sqlstate cfg key (Op_Acquire tokens) env d rs = (res, d', rs')"
    and m: "mem_exec key (Op_Acquire tokens) (tx_clock env 0) l = (res', l')"
  shows "res = res' \<and> sim key d' rs' l'"
proof -
  obtain b s where at: "sim_at key b s d rs l" using sm by (auto simp: sim_def)
  have st: "lm_state l key = Some s" and sa: "same_account b s" using at by (simp_all add: sim_at_def)
  let ?t = "max tokens 0" let ?now = "tx_clock env 0"
  define bal where "bal = Settle (br_limits b) (br_balance b) (br_lastRefill b) ?now"
  define ok where "ok = Fits (br_limits b) bal ?t (ks_live s)"
  define bal' where "bal' = (if ok \<and> TokenLimited (br_limits b) then fl (bal - float_of_int ?t) else bal)"
  note P = sim_tryAcquire [OF at tm, where tokens = ?t and sqlstate = sqlstate and cfg = cfg, folded bal_def, folded ok_def, folded bal'_def]
  note M = mem_acquire_account [OF st sa, where now = ?now and tokens = ?t, folded bal_def, folded ok_def, folded bal'_def]
  note acc = sim_account [OF at, of bal' ?now]
  consider "Impossible (br_limits b) ?t \<noteq> []" | "Impossible (br_limits b) ?t = []" "\<not> ok"
    | "Impossible (br_limits b) ?t = []" ok by blast
  then show ?thesis
  proof cases
    case 1
    then show ?thesis using p m P M sm by auto
  next
    case 2
    then show ?thesis using p m P M acc by auto
  next
    case 3
    let ?b = "b\<lparr>br_balance := bal', br_lastRefill := ?now\<rparr>" and ?s = "s\<lparr>ks_lastRefill := ?now, ks_balance := bal'\<rparr>"
    let ?d = "set_balance (br_id b) bal' ?now d" and ?l = "l\<lparr>lm_state := (lm_state l)(key \<mapsto> ?s)\<rparr>"
    have at': "sim_at key ?b ?s ?d rs ?l"
      using at by (auto simp: sim_at_def set_balance_find same_account_def)
    have "tx_new_lease env \<notin> set (map lr_id (db_leases ?d)) \<union> set (map pl_id rs)" using tm by (simp add: timely_def)
    from sim_grant [OF at' this, of cfg ?t] show ?thesis using p m P M 3 by auto
  qed
qed

section \<open>Adjust\<close>

lemma map_filter_update:
  "i < length xs \<Longrightarrow> f y = f (xs ! i) \<Longrightarrow> P y = P (xs ! i) \<Longrightarrow> map f (filter P (xs[i := y])) = map f (filter P xs)"
  by (induction xs arbitrary: i) (auto simp: nth_Cons split: nat.splits)

lemma map_update_same: "i < length xs \<Longrightarrow> f y = f (xs ! i) \<Longrightarrow> map f (xs[i := y]) = map f xs"
  by (metis map_update list_update_id nth_map length_map)

text \<open>Marking a handle as adjusted on both sides.\<close>

lemma sim_mark_adjusted:
  assumes sm: "sim_at key b s d rs l" and i: "i < length rs"
  shows "sim_at key b s d (rs[i := (rs ! i)\<lparr>pl_adjusted := True\<rparr>])
    (l\<lparr>lm_leases := (lm_leases l)[i := (lm_leases l ! i)\<lparr>ls_adjusted := True\<rparr>]\<rparr>)"
proof -
  let ?r = "(rs ! i)\<lparr>pl_adjusted := True\<rparr>" and ?h = "(lm_leases l ! i)\<lparr>ls_adjusted := True\<rparr>"
  have a: "list_all2 (lease_agrees key b) rs (lm_leases l)" using sm by (simp add: sim_at_def)
  have "lease_agrees key b (rs ! i) (lm_leases l ! i)" by (rule list_all2_nthD [OF a i])
  then have "lease_agrees key b ?r ?h" by (simp add: lease_agrees_def)
  from list_all2_update_cong [OF a this] have "list_all2 (lease_agrees key b) (rs[i := ?r]) ((lm_leases l)[i := ?h])" .
  moreover have ids: "map pl_id (filter is_held (rs[i := ?r])) = map pl_id (filter is_held rs)"
    using i by (intro map_filter_update) simp_all
  moreover have "length (filter is_held (rs[i := ?r])) = length (filter is_held rs)"
    using arg_cong [OF ids, of length] by simp
  ultimately show ?thesis using sm map_update_same [OF i, of pl_id ?r] by (simp add: sim_at_def)
qed

lemma sim_handle:
  assumes "sim_at key b s d rs l" and "i < length rs"
  shows "ls_key (lm_leases l ! i) = key" and "pl_bucketID (rs ! i) = br_id b" and "ls_tokens (lm_leases l ! i) = pl_tokens (rs ! i)"
    and "ls_adjusted (lm_leases l ! i) = pl_adjusted (rs ! i)" and "ls_released (lm_leases l ! i) = pl_released (rs ! i)"
    and "pl_releaseErr (rs ! i) = None" and "pl_tokenCharged (rs ! i) = TokenLimited (br_limits b)" and "\<not> pl_lost (rs ! i)"
    and "lm_state l key = Some s" and "same_account b s" and "ks_limits s = br_limits b"
proof -
  have a: "list_all2 (lease_agrees key b) rs (lm_leases l)" and sa: "same_account b s" and st: "lm_state l key = Some s"
    using assms(1) by (simp_all add: sim_at_def)
  from list_all2_nthD [OF a assms(2)] show "ls_key (lm_leases l ! i) = key" "pl_bucketID (rs ! i) = br_id b"
    "ls_tokens (lm_leases l ! i) = pl_tokens (rs ! i)" "ls_adjusted (lm_leases l ! i) = pl_adjusted (rs ! i)"
    "ls_released (lm_leases l ! i) = pl_released (rs ! i)" "pl_releaseErr (rs ! i) = None"
    "pl_tokenCharged (rs ! i) = TokenLimited (br_limits b)" "\<not> pl_lost (rs ! i)"
    by (simp_all add: lease_agrees_def)
  show "lm_state l key = Some s" "same_account b s" "ks_limits s = br_limits b"
    using st sa by (simp_all add: same_account_def)
qed

lemma exec_adjust:
  assumes sm: "sim key d rs l" and tm: "timely key (Op_Adjust i actual) env d rs"
    and p: "pg_exec sqlstate cfg key (Op_Adjust i actual) env d rs = (res, d', rs')"
    and m: "mem_exec key (Op_Adjust i actual) (tx_clock env 0) l = (res', l')"
  shows "res = res' \<and> sim key d' rs' l'"
proof -
  obtain b s where at: "sim_at key b s d rs l" using sm by (auto simp: sim_def)
  have i: "i < length rs" and h: "healthy env" using tm by (simp_all add: timely_def)
  note hd = sim_handle [OF at i]
  let ?now = "tx_clock env 0" and ?a = "max actual 0" and ?r = "(rs ! i)\<lparr>pl_adjusted := True\<rparr>"
  let ?s = "(settleLocked s ?now)\<lparr>ks_balance := Adjusted (ks_limits s) (ks_balance (settleLocked s ?now)) (pl_tokens (rs ! i)) ?a\<rparr>"
  show ?thesis
  proof (cases "pl_adjusted (rs ! i)")
    case True
    then show ?thesis using p m sm hd(4) by (auto simp: pg_Adjust_def adjustLocked_def Let_def)
  next
    case fresh: False
    have mem: "adjustLocked i actual ?now l = l\<lparr>lm_state := (lm_state l)(key \<mapsto> ?s),
        lm_leases := (lm_leases l)[i := (lm_leases l ! i)\<lparr>ls_adjusted := True\<rparr>]\<rparr>"
      using fresh hd by (simp add: adjustLocked_def Let_def settleLocked_def)
    note at' = sim_mark_adjusted [OF at i]
    show ?thesis
    proof (cases "TokenLimited (br_limits b)")
      case False
      then have "same_account b ?s" and "ks_live ?s = ks_live s"
        using hd(10) by (simp_all add: same_account_def settleLocked_def Adjusted_def)
      then have "sim_at key b ?s d (rs[i := ?r]) (adjustLocked i actual ?now l)"
        using at' by (simp add: sim_at_def mem)
      then show ?thesis using p m fresh False hd(7) by (auto simp: pg_Adjust_def Let_def sim_def)
    next
      case True
      define v where "v = Adjusted (br_limits b) (Settle (br_limits b) (br_balance b) (br_lastRefill b) ?now) (pl_tokens (rs ! i)) ?a"
      have f: "find (\<lambda>x. br_id x = pl_bucketID ?r) (db_buckets d) = Some b" using at hd(2) by (simp add: sim_at_def)
      have pg: "pg_Adjust sqlstate (rs ! i) actual env d = (None, ?r, set_balance (br_id b) v ?now d)"
      proof -
        have "adjust_tx sqlstate ?r ?a env (in_tx d d) = (Inr (), in_tx d (set_balance (br_id b) v ?now d))"
          unfolding adjust_tx_def lockBucketByID_def healthy_lockRow [OF h f] using True by (simp add: h v_def Let_def)
        from healthy_inTx [of env "adjust_tx sqlstate ?r ?a env", OF h this] show ?thesis
          using fresh True hd(7) by (simp add: pg_Adjust_def Let_def)
      qed
      have s: "?s = s\<lparr>ks_lastRefill := ?now, ks_balance := v\<rparr>"
        by (cases s) (use same_account_settle [OF hd(10), of ?now] hd(11) in \<open>simp add: settleLocked_def v_def\<close>)
      have swap: "l\<lparr>lm_leases := hs, lm_state := st\<rparr> = l\<lparr>lm_state := st, lm_leases := hs\<rparr>" for hs st by (cases l) simp
      from sim_account [OF at', of v ?now] show ?thesis using p m pg mem s by (auto simp: swap)
    qed
  qed
qed

section \<open>Renew and Release\<close>

lemma find_distinct: "distinct (map f xs) \<Longrightarrow> x \<in> set xs \<Longrightarrow> find (\<lambda>z. f z = f x) xs = Some x"
proof (induction xs)
  case (Cons y ys)
  then show ?case by (cases "f y = f x") (auto simp: image_iff)
qed simp

text \<open>The row of a held lease.\<close>

lemma sim_row:
  assumes sm: "sim_at key b s d rs l" and i: "i < length rs" and held: "is_held (rs ! i)"
  obtains x where "x \<in> set (db_leases d)" and "lr_id x = pl_id (rs ! i)" and "lr_bucket x = br_id b"
    and "find (\<lambda>x. lr_id x = pl_id (rs ! i)) (db_leases d) = Some x"
proof -
  have eq: "map lr_id (leases_of (br_id b) d) = map pl_id (filter is_held rs)"
    and dist: "distinct (map lr_id (db_leases d))" using sm by (simp_all add: sim_at_def)
  have "pl_id (rs ! i) \<in> set (map pl_id (filter is_held rs))" using i held by simp
  then have "pl_id (rs ! i) \<in> lr_id ` set (leases_of (br_id b) d)" unfolding eq [symmetric] by simp
  then obtain x where x: "x \<in> set (leases_of (br_id b) d)" "pl_id (rs ! i) = lr_id x" by (rule imageE)
  then have mem: "x \<in> set (db_leases d)" "lr_bucket x = br_id b" by (simp_all add: leases_of_def)
  from find_distinct [OF dist mem(1)] have "find (\<lambda>x. lr_id x = pl_id (rs ! i)) (db_leases d) = Some x"
    by (simp only: x(2))
  from that [OF mem(1) x(2) [symmetric] mem(2) this] show ?thesis .
qed

lemma sim_unexpired:
  assumes "sim_at key b s d rs l" and "timely key op env d rs" and "x \<in> set (db_leases d)" and "lr_bucket x = br_id b"
  shows "tx_clock env 0 < lr_expires x"
proof -
  have "find (\<lambda>r. br_name r = key) (db_buckets d) = Some b" using assms(1) by (simp add: sim_at_def)
  from find_in_set [OF this] have "b \<in> set (db_buckets d)" "br_name b = key" by simp_all
  with assms(2-4) show ?thesis unfolding timely_def by metis
qed

lemma exec_renew:
  assumes sm: "sim key d rs l" and tm: "timely key (Op_Renew i) env d rs"
    and p: "pg_exec sqlstate cfg key (Op_Renew i) env d rs = (res, d', rs')"
    and m: "mem_exec key (Op_Renew i) (tx_clock env 0) l = (res', l')"
  shows "res = res' \<and> sim key d' rs' l'"
proof -
  obtain b s where at: "sim_at key b s d rs l" using sm by (auto simp: sim_def)
  have i: "i < length rs" and h: "healthy env" using tm by (simp_all add: timely_def)
  show ?thesis
  proof (cases "pl_released (rs ! i)")
    case True
    then show ?thesis using p m sm by auto
  next
    case False
    obtain x where x: "x \<in> set (db_leases d)" "lr_id x = pl_id (rs ! i)" "lr_bucket x = br_id b"
      by (rule sim_row [OF at i False])
    have hit: "list_ex (renewed cfg (rs ! i) env) (db_leases d)"
      using x sim_unexpired [OF at tm x(1,3)] by (auto simp: list_ex_iff renewed_def)
    let ?f = "renew_row cfg (rs ! i) env"
    have ids: "lr_id \<circ> ?f = lr_id" "(\<lambda>x. lr_bucket (?f x) = k) = (\<lambda>x. lr_bucket x = k)" for k
      by (auto simp: renew_row_def)
    have "renewOnce cfg (rs ! i) env d = (Inr False, d\<lparr>db_leases := map ?f (db_leases d)\<rparr>)"
      using hit by (simp add: renewOnce_def healthy_autocommit [OF h])
    moreover have "sim_at key b s (d\<lparr>db_leases := map ?f (db_leases d)\<rparr>) rs l"
      using at by (simp add: sim_at_def leases_of_def filter_map comp_def ids [unfolded comp_def])
    ultimately show ?thesis using p m False by (auto simp: sim_def renew_step_def)
  qed
qed

lemma filter_update_remove:
  "i < length xs \<Longrightarrow> distinct (map f xs) \<Longrightarrow> \<not> P y \<Longrightarrow>
   filter P (xs[i := y]) = filter (\<lambda>x. f x \<noteq> f (xs ! i)) (filter P xs)"
proof (induction xs arbitrary: i)
  case (Cons x xs)
  show ?case
  proof (cases i)
    case 0
    with Cons.prems have "filter P xs = filter (\<lambda>z. f z \<noteq> f x) (filter P xs)"
      by (intro sym [OF filter_all]) (metis distinct.simps(2) imageI list.set_map list.simps(9) filter_is_subset subsetD)
    with 0 Cons.prems show ?thesis by simp
  next
    case (Suc j)
    with Cons.prems have "f x \<noteq> f (xs ! j)" by auto
    with Suc Cons show ?thesis by simp
  qed
qed simp

lemma length_remove_distinct:
  "distinct (map f xs) \<Longrightarrow> x \<in> set xs \<Longrightarrow> length (filter (\<lambda>z. f z \<noteq> f x) xs) = length xs - 1"
proof (induction xs)
  case (Cons y ys)
  show ?case
  proof (cases "x = y")
    case True
    with Cons.prems have "filter (\<lambda>z. f z \<noteq> f x) ys = ys"
      by (intro filter_all) (metis distinct.simps(2) imageI list.set_map list.simps(9))
    with True show ?thesis by simp
  next
    case False
    with Cons have "x \<in> set ys" and "f y \<noteq> f x" by auto
    with Cons show ?thesis by (cases ys) simp_all
  qed
qed simp

lemma exec_release:
  assumes sm: "sim key d rs l" and tm: "timely key (Op_Release i) env d rs"
    and p: "pg_exec sqlstate cfg key (Op_Release i) env d rs = (res, d', rs')"
    and m: "mem_exec key (Op_Release i) (tx_clock env 0) l = (res', l')"
  shows "res = res' \<and> sim key d' rs' l'"
proof -
  obtain b s where at: "sim_at key b s d rs l" using sm by (auto simp: sim_def)
  have i: "i < length rs" and h: "healthy env" using tm by (simp_all add: timely_def)
  note hd = sim_handle [OF at i]
  show ?thesis
  proof (cases "pl_released (rs ! i)")
    case True
    then show ?thesis using p m sm hd(5,6) by (auto simp: pg_Release_def releaseLocked_def Let_def)
  next
    case False
    let ?id = "pl_id (rs ! i)" and ?r = "(rs ! i)\<lparr>pl_released := True\<rparr>" and ?h = "(lm_leases l ! i)\<lparr>ls_released := True\<rparr>"
    let ?d = "d\<lparr>db_leases := filter (\<lambda>x. lr_id x \<noteq> ?id) (db_leases d)\<rparr>"
    let ?s = "s\<lparr>ks_live := max (ks_live s - 1) 0\<rparr>"
    let ?l = "l\<lparr>lm_state := (lm_state l)(key \<mapsto> ?s), lm_leases := (lm_leases l)[i := ?h]\<rparr>"
    obtain x where x: "x \<in> set (db_leases d)" "lr_bucket x = br_id b" "find (\<lambda>x. lr_id x = ?id) (db_leases d) = Some x"
      by (rule sim_row [OF at i False])
    have pg: "pg_Release sqlstate (rs ! i) env d = (None, ?r, ?d)"
      using h False x(3) sim_unexpired [OF at tm x(1,2)] by (simp add: pg_Release_def healthy_autocommit Let_def)
    have mem: "releaseLocked i l = ?l" using False hd by (simp add: releaseLocked_def Let_def)
    have dist: "distinct (map pl_id rs)" using at by (simp add: sim_at_def)
    have rest: "filter is_held (rs[i := ?r]) = filter (\<lambda>z. pl_id z \<noteq> ?id) (filter is_held rs)"
      by (rule filter_update_remove [OF i dist]) simp
    have "rs ! i \<in> set (filter is_held rs)" using i False by simp
    moreover have "distinct (map pl_id (filter is_held rs))" using dist by (rule distinct_map_filter)
    ultimately have "length (filter is_held (rs[i := ?r])) = length (filter is_held rs) - 1"
      unfolding rest by (intro length_remove_distinct)
    moreover have "0 < length (filter is_held rs)" using \<open>rs ! i \<in> set (filter is_held rs)\<close> by (rule length_pos_if_in_set)
    moreover have "ks_live s = int (length (filter is_held rs))" using at by (simp add: sim_at_def)
    ultimately have live: "max (ks_live s - 1) 0 = int (length (filter is_held (rs[i := ?r])))" by arith
    have "map lr_id (leases_of (br_id b) d) = map pl_id (filter is_held rs)" using at by (simp add: sim_at_def)
    then have "filter (\<lambda>k. k \<noteq> ?id) (map lr_id (leases_of (br_id b) d)) = filter (\<lambda>k. k \<noteq> ?id) (map pl_id (filter is_held rs))"
      by simp
    then have ids: "map lr_id (leases_of (br_id b) ?d) = map pl_id (filter is_held (rs[i := ?r]))"
      unfolding rest by (simp add: leases_of_def filter_map comp_def conj_commute)
    have agr: "list_all2 (lease_agrees key b) rs (lm_leases l)" using at by (simp add: sim_at_def)
    have "lease_agrees key b ?r ?h" using list_all2_nthD [OF agr i] by (simp add: lease_agrees_def)
    from list_all2_update_cong [OF agr this]
    have "sim_at key b ?s ?d (rs[i := ?r]) ?l"
      using at ids live map_update_same [OF i, of pl_id ?r] dist
      by (simp add: sim_at_def same_account_def distinct_map_filter)
    then show ?thesis using p m pg mem by (auto simp: sim_def)
  qed
qed

section \<open>Histories\<close>

lemma exec_sim:
  assumes "sim key d rs l" and "timely key op env d rs"
    and "pg_exec sqlstate cfg key op env d rs = (res, d', rs')" and "mem_exec key op (tx_clock env 0) l = (res', l')"
  shows "res = res' \<and> sim key d' rs' l'"
proof (cases op)
  case Op_Acquire
  from exec_acquire [OF assms [unfolded Op_Acquire]] show ?thesis .
next
  case Op_Adjust
  from exec_adjust [OF assms [unfolded Op_Adjust]] show ?thesis .
next
  case Op_Renew
  from exec_renew [OF assms [unfolded Op_Renew]] show ?thesis .
next
  case Op_Release
  from exec_release [OF assms [unfolded Op_Release]] show ?thesis .
qed

fun pg_history :: "(error \<Rightarrow> string option) \<Rightarrow> pg_config \<Rightarrow> string \<Rightarrow> (bucket_op \<times> tx_env) list \<Rightarrow> db \<Rightarrow> pg_lease list \<Rightarrow>
    op_result list \<times> db \<times> pg_lease list" where
  "pg_history sqlstate cfg key [] d rs = ([], d, rs)"
| "pg_history sqlstate cfg key ((op, env) # hist) d rs =
     (case pg_exec sqlstate cfg key op env d rs of (res, d, rs) \<Rightarrow>
        case pg_history sqlstate cfg key hist d rs of (results, d, rs) \<Rightarrow> (res # results, d, rs))"

fun mem_history :: "string \<Rightarrow> (bucket_op \<times> tx_env) list \<Rightarrow> limiter \<Rightarrow> op_result list \<times> limiter" where
  "mem_history key [] l = ([], l)"
| "mem_history key ((op, env) # hist) l =
     (case mem_exec key op (tx_clock env 0) l of (res, l) \<Rightarrow>
        case mem_history key hist l of (results, l) \<Rightarrow> (res # results, l))"

fun timely_history :: "(error \<Rightarrow> string option) \<Rightarrow> pg_config \<Rightarrow> string \<Rightarrow> (bucket_op \<times> tx_env) list \<Rightarrow> db \<Rightarrow> pg_lease list \<Rightarrow> bool" where
  "timely_history sqlstate cfg key [] d rs = True"
| "timely_history sqlstate cfg key ((op, env) # hist) d rs \<longleftrightarrow> timely key op env d rs \<and>
     (case pg_exec sqlstate cfg key op env d rs of (_, d, rs) \<Rightarrow> timely_history sqlstate cfg key hist d rs)"

text \<open>
  C8: PostgreSQL refines the in-memory limiter. While the database answers and the leases of a key are
  renewed in time, any history of acquires, adjustments, renewals and releases on the key gives the
  same results on both backends (the same grants, refusals, reasons and retry delays), and leaves
  them with the same balance, the same live count and the same leases held.
\<close>

theorem postgres_refines_memory:
  assumes "sim key d rs l" and "timely_history sqlstate cfg key hist d rs"
    and "pg_history sqlstate cfg key hist d rs = (results, d', rs')" and "mem_history key hist l = (results', l')"
  shows "results = results' \<and> sim key d' rs' l'"
  using assms
proof (induction hist arbitrary: d rs l results results')
  case (Cons x hist)
  obtain op env where x: "x = (op, env)" by (cases x)
  obtain res d1 rs1 where p: "pg_exec sqlstate cfg key op env d rs = (res, d1, rs1)" by (metis prod_cases3)
  obtain res1 l1 where m: "mem_exec key op (tx_clock env 0) l = (res1, l1)" by (metis surj_pair)
  obtain rest where rest: "pg_history sqlstate cfg key hist d1 rs1 = (rest, d', rs')" "results = res # rest"
    using Cons.prems(3) by (auto simp: x p split: prod.splits)
  obtain rest' where rest': "mem_history key hist l1 = (rest', l')" "results' = res1 # rest'"
    using Cons.prems(4) by (auto simp: x m split: prod.splits)
  have tm: "timely key op env d rs" "timely_history sqlstate cfg key hist d1 rs1" using Cons.prems(2) by (simp_all add: x p)
  from exec_sim [OF Cons.prems(1) tm(1) p m] Cons.IH [OF _ tm(2) rest(1) rest'(1)] show ?case by (simp add: rest(2) rest'(2))
qed simp

text \<open>A bucket with one slot, in a database and in memory, and a holder that acquires, is refused a
  second lease, and releases.\<close>

definition demo_row :: bucket_row where
  "demo_row = \<lparr>br_id = 1, br_name = ''k'', br_limits = one_slot, br_balance = 0, br_lastRefill = 0\<rparr>"

definition demo_db :: db where
  "demo_db = \<lparr>db_buckets = [demo_row], db_leases = [], db_version = Some 1\<rparr>"

definition demo_limiter :: limiter where
  "demo_limiter = one_slot_limiter\<lparr>lm_state := [''k'' \<mapsto>
     \<lparr>ks_lastRefill = 0, ks_limits = one_slot, ks_balance = 0, ks_live = 0\<rparr>]\<rparr>"

definition demo_env :: "string \<Rightarrow> tx_env" where
  "demo_env i = \<lparr>tx_begin = None, tx_lock_timeout = None, tx_stmt = (\<lambda>_. None), tx_commit = None, tx_lost = False,
     tx_clock = (\<lambda>_. 7), tx_new_lease = i, tx_new_bucket = 2\<rparr>"

definition demo_pg_config :: pg_config where
  "demo_pg_config = \<lparr>pg_LeaseTTL = DefaultLeaseTTL, pg_MaxLeaseDuration = DefaultMaxLeaseDuration,
     pg_OpTimeout = DefaultOpTimeout, pg_MaxWait = 0, pg_PollInterval = DefaultPollInterval,
     pg_MaxPollInterval = DefaultMaxPollInterval\<rparr>"

definition demo_history :: "(bucket_op \<times> tx_env) list" where
  "demo_history = [(Op_Acquire 5, demo_env ''a''), (Op_Acquire 1, demo_env ''b''), (Op_Release 0, demo_env ''c'')]"

lemma demo_sim: "sim ''k'' demo_db [] demo_limiter"
proof -
  have "sim_at ''k'' demo_row \<lparr>ks_lastRefill = 0, ks_limits = one_slot, ks_balance = 0, ks_live = 0\<rparr> demo_db [] demo_limiter"
    by (simp add: sim_at_def demo_db_def demo_row_def demo_limiter_def one_slot_limiter_def same_account_def leases_of_def)
  then show ?thesis unfolding sim_def by blast
qed

lemma demo_healthy [simp]: "healthy (demo_env i)" "tx_clock (demo_env i) n = 7" "tx_new_lease (demo_env i) = i"
  by (simp_all add: healthy_def demo_env_def)

lemma demo_memory:
  "fst (mem_history ''k'' demo_history demo_limiter) = [Granted, Refused [] 0, Finished None]"
  using one_slot_valid
  by (simp add: demo_history_def demo_limiter_def one_slot_limiter_def acquireLocked_def stateLocked_def Let_def
      Impossible_def settleLocked_def core_RetryAfter_def Fits_def, simp add: one_slot_def)

text \<open>The first step of the demo, and what follows it.\<close>

definition demo_lease :: pg_lease where
  "demo_lease = newLease ''k'' ''a'' 1 5 False"

definition demo_held :: db where
  "demo_held = insert_lease demo_pg_config (demo_env ''a'') 1 (set_balance 1 0 7 demo_db)"

lemma demo_try: "tryAcquire sqlstate demo_pg_config ''k'' 5 (demo_env ''a'') demo_db =
    (Inr \<lparr>r_Lease = Some demo_lease, r_Impossible = [], r_RetryAfter = 0\<rparr>, demo_held)"
proof -
  have at: "sim_at ''k'' demo_row \<lparr>ks_lastRefill = 0, ks_limits = one_slot, ks_balance = 0, ks_live = 0\<rparr> demo_db [] demo_limiter"
    by (simp add: sim_at_def demo_db_def demo_row_def demo_limiter_def one_slot_limiter_def same_account_def leases_of_def)
  have tm: "timely ''k'' (Op_Acquire 5) (demo_env ''a'') demo_db []" by (simp add: timely_def demo_db_def)
  show ?thesis
    using sim_tryAcquire [OF at tm, where tokens = 5 and sqlstate = sqlstate and cfg = demo_pg_config] one_slot_valid
    by (simp add: demo_row_def Impossible_def Fits_def demo_held_def demo_lease_def, simp add: one_slot_def)
qed

lemma demo_first: "pg_exec sqlstate demo_pg_config ''k'' (Op_Acquire 5) (demo_env ''a'') demo_db [] = (Granted, demo_held, [demo_lease])"
  by (simp add: demo_try)

lemma demo_rows: "db_leases demo_held = [\<lparr>lr_id = ''a'', lr_bucket = 1, lr_acquired = 7, lr_expires = 30000000007\<rparr>]"
    "db_buckets demo_held = [demo_row\<lparr>br_lastRefill := 7\<rparr>]" "db_buckets demo_db = [demo_row]"
  by (simp_all add: demo_held_def insert_lease_def set_balance_def demo_db_def demo_row_def demo_pg_config_def
      DefaultLeaseTTL_def micros_def go_div_def)

lemma demo_second: "pg_exec sqlstate demo_pg_config ''k'' (Op_Acquire 1) (demo_env ''b'') demo_held [demo_lease] =
    (Refused [] 0, set_balance 1 0 7 demo_held, [demo_lease])"
proof -
  have f: "find (\<lambda>r. br_name r = ''k'') (db_buckets demo_held) = Some (demo_row\<lparr>br_lastRefill := 7\<rparr>)"
    by (simp add: demo_rows, simp add: demo_row_def)
  have r: "reap 1 7 demo_held = demo_held" "int (lease_count 1 demo_held) = 1"
    by (simp_all add: reap_def lease_count_def demo_rows)
  have b: "br_id demo_row = 1" "br_limits demo_row = one_slot" "br_balance demo_row = 0" by (simp_all add: demo_row_def)
  have "tryAcquire sqlstate demo_pg_config ''k'' 1 (demo_env ''b'') demo_held =
      (Inr \<lparr>r_Lease = None, r_Impossible = [], r_RetryAfter = 0\<rparr>, set_balance 1 0 7 demo_held)"
    unfolding tryAcquire_def
    by (rule healthy_inTx [OF demo_healthy(1)], unfold lockBucket_def healthy_lockRow [OF demo_healthy(1) f])
      (use one_slot_valid in \<open>simp add: admit_def r b Let_def Impossible_def Fits_def core_RetryAfter_def, simp add: one_slot_def\<close>)
  then show ?thesis by simp
qed

lemma demo_timely: "timely_history sqlstate demo_pg_config ''k'' demo_history demo_db []"
proof -
  have "timely ''k'' (Op_Acquire 5) (demo_env ''a'') demo_db []" by (simp add: timely_def demo_db_def)
  moreover have "timely ''k'' op (demo_env i) d [demo_lease]"
    if "i \<noteq> ''a''" "op_handle op = None \<or> op_handle op = Some 0" "db_leases d = db_leases demo_held" for op i d
    using that by (auto simp: timely_def demo_rows demo_lease_def newLease_def)
  ultimately show ?thesis unfolding demo_history_def timely_history.simps demo_first demo_second prod.case by simp
qed

theorem postgres_refines_memory_witness:
  "\<exists>d' rs'. pg_history (\<lambda>_. None) demo_pg_config ''k'' demo_history demo_db [] =
     ([Granted, Refused [] 0, Finished None], d', rs')"
proof -
  obtain results d' rs' where p: "pg_history (\<lambda>_. None) demo_pg_config ''k'' demo_history demo_db [] = (results, d', rs')"
    by (metis prod_cases3)
  obtain results' l' where m: "mem_history ''k'' demo_history demo_limiter = (results', l')" by (metis surj_pair)
  from postgres_refines_memory [OF demo_sim demo_timely p m] demo_memory m p show ?thesis by auto
qed

end
