(* ===== verification/PostgresProps.thy ===== *)
theory PostgresProps
  imports PostgresRefines
begin

text \<open>
  The PostgreSQL limiter under any behaviour of the database: statements that fail, commits whose fate
  is unknown, clocks that jump, leases that expire. The invariant of the rows, the safety of a
  grant, the atomicity of a failed operation, and the protocol of \<open>Release\<close>.
\<close>

section \<open>Transactions\<close>

text \<open>The bodies run inside their transaction: none ends it or reaches the committed rows.\<close>

definition opened :: "db \<Rightarrow> session \<Rightarrow> bool" where
  "opened c s \<longleftrightarrow> ss_rows s = c \<and> ss_tx s \<noteq> None"

definition inside :: "'r body \<Rightarrow> bool" where
  "inside fn \<longleftrightarrow> (\<forall>c s. opened c s \<longrightarrow> opened c (snd (fn s)))"

lemma insideI: "(\<And>c s. opened c s \<Longrightarrow> opened c (snd (fn s))) \<Longrightarrow> inside fn"
  by (simp add: inside_def)

lemma insideD: "inside fn \<Longrightarrow> opened c s \<Longrightarrow> opened c (snd (fn s))"
  by (simp add: inside_def)

lemma opened_write [simp]: "opened c s \<Longrightarrow> opened c (tx_write f s)"
  by (auto simp: opened_def tx_write_def)

lemma inside_stmt [intro!]: "inside k \<Longrightarrow> inside (stmt env n wrap k)"
  by (auto simp: inside_def stmt_def split: option.split)

lemma inside_lockRow [intro!]: "(\<And>b now. inside (k b now)) \<Longrightarrow> inside (lockRow sqlstate env key P k)"
  unfolding lockRow_def by (intro inside_stmt insideI) (auto dest: insideD [OF inside_stmt] split: option.split)

lemma inside_bodies:
  "inside (lockBucket sqlstate env key (admit sqlstate cfg env key tokens))"
  "inside (adjust_tx sqlstate r actual env)" "inside (ensure_tx sqlstate name l overwrite env)"
proof -
  have "inside (admit sqlstate cfg env key tokens b now)" for b now
    by (rule insideI) (simp add: admit_def stmt_def Let_def split: option.split)
  then show "inside (lockBucket sqlstate env key (admit sqlstate cfg env key tokens))" by (auto simp: lockBucket_def)
  show "inside (adjust_tx sqlstate r actual env)"
    unfolding adjust_tx_def lockBucketByID_def
    by (intro inside_lockRow insideI) (simp add: stmt_def Let_def split: option.split)
  have "inside (lockBucket sqlstate env name (\<lambda>old now. stmt env 2 wrap (\<lambda>s. (Inr (), tx_write (f old now) s))))" for wrap f
    unfolding lockBucket_def by (intro inside_lockRow inside_stmt insideI) simp
  from insideD [OF this] show "inside (ensure_tx sqlstate name l overwrite env)"
    unfolding ensure_tx_def Let_def by (intro inside_stmt insideI) simp
qed

lemma inTx_cases:
  assumes "inside fn" and "inTx env fn d = (res, d')"
  obtains (rolled_back) "d' = d" "\<exists>e. res = Inl e"
  | (committed) r where "fn (in_tx d d) = (Inr r, in_tx d d')" "res = Inr r"
  | (unknown) r e where "fn (in_tx d d) = (Inr r, in_tx d d')" "tx_commit env = Some (e, True)" "res = Inl (Wrapped ''bucket: commit'' [e])"
      "inTx (env\<lparr>tx_commit := None\<rparr>) fn d = (Inr r, d')"
proof -
  obtain r s where fn: "fn (in_tx d d) = (r, s)" by (metis prod.exhaust)
  have "opened d (snd (fn (in_tx d d)))" by (rule insideD [OF assms(1)]) (simp add: opened_def)
  then obtain d1 where "s = in_tx d d1" using fn by (cases s) (auto simp: opened_def)
  with fn assms(2) that show ?thesis
    by (cases r) (auto simp: inTx_def BeginTx_def inTx_opened_def Commit_def split: option.splits if_splits)
qed

lemma stmt_Inr: "stmt env n wrap k s = (Inr x, s') \<longleftrightarrow> tx_stmt env n = None \<and> k s = (Inr x, s')"
  by (simp add: stmt_def split: option.split)

lemma lockRow_Inr: "lockRow sqlstate env key P k s = (Inr x, s') \<Longrightarrow>
    \<exists>b. find P (db_buckets (tx_rows s)) = Some b \<and> k b (tx_clock env 0) s = (Inr x, s')"
  by (auto simp: lockRow_def stmt_Inr split: option.splits)

lemma admit_cases:
  assumes "admit sqlstate cfg env key tokens b now (in_tx c d) = (Inr res, in_tx c d')"
  obtains (impossible) "r_Lease res = None" "d' = d"
  | (refused) "r_Lease res = None" "d' = set_balance (br_id b) (Settle (br_limits b) (br_balance b) (br_lastRefill b) now) now (reap (br_id b) now d)"
  | (granted) bal r where "r_Lease res = Some r" "r = newLease key (tx_new_lease env) (br_id b) tokens (TokenLimited (br_limits b))"
      "bal = Settle (br_limits b) (br_balance b) (br_lastRefill b) now"
      "Fits (br_limits b) bal tokens (int (lease_count (br_id b) (reap (br_id b) now d)))"
      "d' = insert_lease cfg env (br_id b) (set_balance (br_id b)
         (if TokenLimited (br_limits b) then fl (bal - float_of_int tokens) else bal) now (reap (br_id b) now d))"
proof -
  let ?bal = "Settle (br_limits b) (br_balance b) (br_lastRefill b) now"
  let ?d = "reap (br_id b) now d"
  let ?fits = "Fits (br_limits b) ?bal tokens (int (lease_count (br_id b) ?d))"
  show ?thesis
  proof (cases "Impossible (br_limits b) tokens = []")
    case False
    with assms show ?thesis by (intro impossible) (auto simp: admit_def Let_def)
  next
    case possible: True
    show ?thesis
    proof (cases ?fits)
      case False
      with possible assms show ?thesis by (intro refused) (auto simp: admit_def Let_def stmt_Inr)
    next
      case True
      with possible assms show ?thesis by (intro granted [OF _ refl refl True]) (auto simp: admit_def Let_def stmt_Inr)
    qed
  qed
qed

section \<open>The invariant of the rows\<close>

definition row_ok :: "bucket_row \<Rightarrow> bool" where
  "row_ok b \<longleftrightarrow> Validate (br_limits b) = None \<and>
     (TokenLimited (br_limits b) \<longrightarrow> br_balance b \<le> float_of_int (Capacity (br_limits b)))"

definition db_inv :: "db \<Rightarrow> bool" where
  "db_inv d \<longleftrightarrow> list_all row_ok (db_buckets d) \<and> distinct (map br_id (db_buckets d)) \<and>
     distinct (map br_name (db_buckets d)) \<and> distinct (map lr_id (db_leases d))"

text \<open>Identifiers the database generates are new.\<close>

definition new_ids :: "tx_env \<Rightarrow> db \<Rightarrow> bool" where
  "new_ids env d \<longleftrightarrow> tx_new_lease env \<notin> lr_id ` set (db_leases d) \<and> tx_new_bucket env \<notin> br_id ` set (db_buckets d)"

text \<open>Any process, with any lease object and any behaviour of the database.\<close>

inductive pg_step :: "(error \<Rightarrow> string option) \<Rightarrow> pg_config \<Rightarrow> db \<Rightarrow> db \<Rightarrow> bool" for sqlstate cfg where
  pg_acquire: "new_ids env d \<Longrightarrow> tryAcquire sqlstate cfg key (max tokens 0) env d = (res, d') \<Longrightarrow> pg_step sqlstate cfg d d'"
| pg_renew: "renewOnce cfg r env d = (res, d') \<Longrightarrow> pg_step sqlstate cfg d d'"
| pg_adjust: "pg_Adjust sqlstate r actual env d = (e, r', d') \<Longrightarrow> pg_step sqlstate cfg d d'"
| pg_release: "pg_Release sqlstate r env d = (e, r', d') \<Longrightarrow> pg_step sqlstate cfg d d'"
| pg_ensure: "new_ids env d \<Longrightarrow> Ensure sqlstate name l overwrite env d = (e, d') \<Longrightarrow> pg_step sqlstate cfg d d'"

inductive_cases pg_stepE: "pg_step sqlstate cfg d d'"

text \<open>The migration leaves empty tables; every process comes after it.\<close>

inductive pg_reachable :: "(error \<Rightarrow> string option) \<Rightarrow> pg_config \<Rightarrow> db \<Rightarrow> bool" for sqlstate cfg where
  pg_migrated: "pg_reachable sqlstate cfg \<lparr>db_buckets = [], db_leases = [], db_version = v\<rparr>"
| pg_next: "pg_reachable sqlstate cfg d \<Longrightarrow> pg_step sqlstate cfg d d' \<Longrightarrow> pg_reachable sqlstate cfg d'"

lemma db_inv_buckets:
  "db_inv d \<Longrightarrow> list_all row_ok bs \<Longrightarrow> map br_id bs = map br_id (db_buckets d) \<Longrightarrow>
   map br_name bs = map br_name (db_buckets d) \<Longrightarrow> db_inv (d\<lparr>db_buckets := bs\<rparr>)"
  by (simp add: db_inv_def)

lemma db_inv_leases: "db_inv d \<Longrightarrow> map lr_id ls = map lr_id (db_leases d) \<Longrightarrow> db_inv (d\<lparr>db_leases := ls\<rparr>)"
  by (simp add: db_inv_def)

text \<open>A row is changed under its own identifier.\<close>

lemma db_inv_update_row:
  assumes inv: "db_inv d" and b: "find P (db_buckets d) = Some b" and ok: "row_ok (g b)"
    and same: "\<And>r. br_id (g r) = br_id r" "\<And>r. br_name (g r) = br_name r"
  shows "db_inv (d\<lparr>db_buckets := map (\<lambda>r. if br_id r = br_id b then g r else r) (db_buckets d)\<rparr>)"
proof (rule db_inv_buckets [OF inv])
  have mem: "b \<in> set (db_buckets d)" using find_in_set [OF b] by simp
  have inj: "inj_on br_id (set (db_buckets d))" and rows: "list_all row_ok (db_buckets d)"
    using inv by (simp_all add: db_inv_def distinct_map)
  have "row_ok (if br_id r = br_id b then g r else r)" if "r \<in> set (db_buckets d)" for r
    using inj_onD [OF inj _ that mem] rows that ok by (auto simp: list_all_iff)
  then show "list_all row_ok (map (\<lambda>r. if br_id r = br_id b then g r else r) (db_buckets d))"
    unfolding list_all_iff set_map by (intro ballI) (erule imageE, simp only:)
qed (simp_all add: same)

lemma db_inv_set_balance:
  assumes inv: "db_inv d" and b: "find P (db_buckets d) = Some b"
    and le: "TokenLimited (br_limits b) \<Longrightarrow> v \<le> float_of_int (Capacity (br_limits b))"
  shows "db_inv (set_balance (br_id b) v t d)"
  unfolding set_balance_def
proof (rule db_inv_update_row [OF inv b])
  have "row_ok b" using inv find_in_set [OF b] by (simp add: db_inv_def list_all_iff)
  with le show "row_ok (b\<lparr>br_balance := v, br_lastRefill := t\<rparr>)" by (simp add: row_ok_def)
qed simp_all

lemma db_inv_filter_leases: "db_inv d \<Longrightarrow> db_inv (d\<lparr>db_leases := filter P (db_leases d)\<rparr>)"
  by (simp add: db_inv_def distinct_map_filter)

lemma db_inv_reap: "db_inv d \<Longrightarrow> db_inv (reap i now d)"
  unfolding reap_def by (rule db_inv_filter_leases)

lemma reap_buckets [simp]: "db_buckets (reap i now d) = db_buckets d"
  by (simp add: reap_def)

lemma db_inv_insert_lease:
  "db_inv d \<Longrightarrow> tx_new_lease env \<notin> lr_id ` set (db_leases d) \<Longrightarrow> db_inv (insert_lease cfg env i d)"
  by (simp add: db_inv_def insert_lease_proj)

lemma charge_le_capacity:
  assumes "0 \<le> tokens" and "bal \<le> float_of_int (Capacity l)"
  shows "fl (bal - float_of_int tokens) \<le> float_of_int (Capacity l)"
proof -
  have "bal - float_of_int tokens \<le> float_of_int (Capacity l)" using assms(2) float_of_int_nonneg [OF assms(1)] by simp
  from fl_mono [OF this] show ?thesis by simp
qed

lemma admit_inv:
  assumes inv: "db_inv d" and b: "find P (db_buckets d) = Some b" and t: "0 \<le> tokens"
    and fresh: "tx_new_lease env \<notin> lr_id ` set (db_leases d)"
    and run: "admit sqlstate cfg env key tokens b now (in_tx c d) = (Inr res, in_tx c d')"
  shows "db_inv d'"
  using run
proof (cases rule: admit_cases)
  case impossible
  with inv show ?thesis by simp
next
  case refused
  then show ?thesis using db_inv_set_balance [OF db_inv_reap [OF inv]] b Settle_le_capacity by simp
next
  case (granted bal r)
  let ?v = "if TokenLimited (br_limits b) then fl (bal - float_of_int tokens) else bal"
  have "db_inv (set_balance (br_id b) ?v now (reap (br_id b) now d))"
    by (rule db_inv_set_balance [OF db_inv_reap [OF inv]])
      (use b granted(3) Settle_le_capacity charge_le_capacity [OF t] in simp_all)
  moreover have "tx_new_lease env \<notin> lr_id ` set (db_leases (reap (br_id b) now d))" using fresh by (auto simp: reap_def)
  ultimately show ?thesis unfolding granted(5) by (intro db_inv_insert_lease) simp_all
qed

lemma tryAcquire_inv:
  assumes inv: "db_inv d" and new: "new_ids env d" and t: "0 \<le> tokens"
    and run: "tryAcquire sqlstate cfg key tokens env d = (res, d')"
  shows "db_inv d'"
proof -
  have body: "db_inv d'" if fn: "lockBucket sqlstate env key (admit sqlstate cfg env key tokens) (in_tx d d) = (Inr r, in_tx d d')" for r
  proof -
    from lockRow_Inr [OF fn [unfolded lockBucket_def]] obtain b where b: "find (\<lambda>r. br_name r = key) (db_buckets d) = Some b"
      and a: "admit sqlstate cfg env key tokens b (tx_clock env 0) (in_tx d d) = (Inr r, in_tx d d')" by auto
    from new have "tx_new_lease env \<notin> lr_id ` set (db_leases d)" by (simp add: new_ids_def)
    from admit_inv [OF inv b t this a] show ?thesis .
  qed
  show ?thesis using run unfolding tryAcquire_def by (cases rule: inTx_cases [OF inside_bodies(1)]) (use inv body in auto)
qed

lemma autocommit_cases:
  assumes "autocommit env upd d = (e, d')"
  obtains (applied) "e = None" "d' = upd d" | (failed) "e \<noteq> None" "d' = d" | (lost) "e \<noteq> None" "tx_lost env" "d' = upd d"
proof -
  from assms have "e = None \<and> d' = upd d \<or> e \<noteq> None \<and> d' = d \<or> e \<noteq> None \<and> tx_lost env \<and> d' = upd d"
    by (auto simp: autocommit_def tx_write_def Let_def split: option.splits if_splits)
  with that show ?thesis by blast
qed

lemma renewOnce_inv:
  assumes "db_inv d" and "renewOnce cfg r env d = (res, d')"
  shows "db_inv d'"
proof -
  obtain e where "autocommit env (\<lambda>d. d\<lparr>db_leases := map (renew_row cfg r env) (db_leases d)\<rparr>) d = (e, d')"
    using assms(2) by (auto simp: renewOnce_def split: prod.splits option.splits)
  moreover have "map lr_id (map (renew_row cfg r env) xs) = map lr_id xs" for xs by (simp add: renew_row_def)
  then have "db_inv (d\<lparr>db_leases := map (renew_row cfg r env) (db_leases d)\<rparr>)" by (intro db_inv_leases [OF assms(1)])
  ultimately show ?thesis using assms(1) by (cases rule: autocommit_cases) auto
qed

lemma adjust_tx_inv:
  assumes inv: "db_inv d" and fn: "adjust_tx sqlstate r actual env (in_tx c d) = (Inr x, in_tx c d')"
  shows "db_inv d'"
proof -
  from lockRow_Inr [OF fn [unfolded adjust_tx_def lockBucketByID_def]] obtain b where
    b: "find (\<lambda>x. br_id x = pl_bucketID r) (db_buckets d) = Some b" and
    "d' = d \<or> (\<exists>v t. d' = set_balance (br_id b) (Adjusted (br_limits b) v (pl_tokens r) actual) t d)"
    by (auto simp: Let_def stmt_Inr split: if_splits)
  with db_inv_set_balance [OF inv b] inv Adjusted_le_capacity show ?thesis by auto
qed

lemma pg_Adjust_cases:
  assumes "pg_Adjust sqlstate r actual env d = (e, r', d')"
  obtains (unchanged) "d' = d" "e = None"
  | (tx) res where "inTx env (adjust_tx sqlstate (r\<lparr>pl_adjusted := True\<rparr>) (max actual 0) env) d = (res, d')"
      "e = (case res of Inl e \<Rightarrow> Some e | Inr _ \<Rightarrow> None)" "\<not> pl_adjusted r" "pl_tokenCharged r" "r' = r\<lparr>pl_adjusted := True\<rparr>"
proof -
  obtain res d1 where tx1: "inTx env (adjust_tx sqlstate (r\<lparr>pl_adjusted := True\<rparr>) (max actual 0) env) d = (res, d1)" by (metis prod.exhaust)
  show ?thesis
  proof (cases "pl_adjusted r \<or> \<not> pl_tokenCharged r")
    case True
    with assms have "d' = d" "e = None" by (auto simp: pg_Adjust_def Let_def split: if_splits)
    then show ?thesis by (rule unchanged)
  next
    case False
    with assms tx1 have "d1 = d'" "r' = r\<lparr>pl_adjusted := True\<rparr>" "e = (case res of Inl e \<Rightarrow> Some e | Inr _ \<Rightarrow> None)"
      by (auto simp: pg_Adjust_def Let_def split: sum.splits)
    with False tx1 show ?thesis by (intro tx) simp_all
  qed
qed

lemma pg_Adjust_inv:
  assumes inv: "db_inv d" and run: "pg_Adjust sqlstate r actual env d = (e, r', d')"
  shows "db_inv d'"
  using run
proof (cases rule: pg_Adjust_cases)
  case (tx res)
  from tx(1) show ?thesis by (cases rule: inTx_cases [OF inside_bodies(2)]) (use inv adjust_tx_inv in blast)+
qed (use inv in simp)

lemma pg_Release_cases:
  assumes "pg_Release sqlstate r env d = (e, r', d')"
  obtains (again) "pl_released r" "e = pl_releaseErr r" "d' = d"
  | (deleted) ae where "\<not> pl_released r" "autocommit env (\<lambda>d. d\<lparr>db_leases := filter (\<lambda>x. lr_id x \<noteq> pl_id r) (db_leases d)\<rparr>) d = (ae, d')"
      "ae = None \<Longrightarrow> e \<in> {None, Some ErrLeaseLost}" "\<And>x. ae = Some x \<Longrightarrow> e = Some (bucket_err (pl_key r) ''release'' (schemaErr sqlstate x))"
proof (cases "pl_released r")
  case True
  with assms have "e = pl_releaseErr r" "d' = d" by (auto simp: pg_Release_def)
  with True show ?thesis by (rule again)
next
  case False
  obtain ae d1 where ac: "autocommit env (\<lambda>d. d\<lparr>db_leases := filter (\<lambda>x. lr_id x \<noteq> pl_id r) (db_leases d)\<rparr>) d = (ae, d1)"
    by (cases "autocommit env (\<lambda>d. d\<lparr>db_leases := filter (\<lambda>x. lr_id x \<noteq> pl_id r) (db_leases d)\<rparr>) d")
  show ?thesis
  proof (cases ae)
    case None
    with assms ac False have "d1 = d'" "e \<in> {None, Some ErrLeaseLost}" by (auto simp: pg_Release_def Let_def split: if_splits)
    with False ac None show ?thesis by (intro deleted) auto
  next
    case (Some x)
    with assms ac False have "d1 = d'" "e = Some (bucket_err (pl_key r) ''release'' (schemaErr sqlstate x))"
      by (auto simp: pg_Release_def Let_def)
    with False ac Some show ?thesis by (intro deleted) auto
  qed
qed

lemma pg_Release_inv:
  assumes "db_inv d" and "pg_Release sqlstate r env d = (e, r', d')"
  shows "db_inv d'"
  using assms(2)
proof (cases rule: pg_Release_cases)
  case (deleted ae)
  from deleted(2) show ?thesis
    by (cases rule: autocommit_cases) (use assms(1) db_inv_filter_leases [OF assms(1)] in auto)
qed (use assms(1) in simp)

lemma stored_limits [simp]:
  "Validate l = None \<Longrightarrow> Validate (stored_limits l) = None" "TokenLimited (stored_limits l) = TokenLimited l"
  "Capacity (stored_limits l) = Capacity l"
  using DefaultBufferFactor_pos
  by (auto simp: stored_limits_def Validate_def TokenLimited_def Capacity_def factor_def EffectiveBufferFactor_def
      split: gofloat.splits if_splits)

lemma newBalance_le: "TokenLimited nxt \<Longrightarrow> newBalance old nxt v \<le> float_of_int (Capacity nxt)"
  by (simp add: newBalance_def)

lemma ensure_tx_inv:
  assumes inv: "db_inv d" and new: "new_ids env d" and valid: "Validate l = None"
    and fn: "ensure_tx sqlstate name l overwrite env (in_tx c d) = (Inr x, in_tx c d')"
  shows "db_inv d'"
proof (cases "find (\<lambda>r. br_name r = name) (db_buckets d)")
  case None
  then have "name \<notin> br_name ` set (db_buckets d)" by (auto simp: find_None_iff)
  with None fn inv new valid show ?thesis
    by (auto simp: ensure_tx_def stmt_Inr db_inv_def new_ids_def row_ok_def Let_def add_bucket_def)
next
  case (Some r)
  show ?thesis
  proof (cases overwrite)
    case False
    with Some fn inv show ?thesis by (simp add: ensure_tx_def stmt_Inr Let_def)
  next
    case True
    define g :: "bucket_row \<Rightarrow> int \<Rightarrow> bucket_row \<Rightarrow> bucket_row" where "g = (\<lambda>old now r. r\<lparr>br_limits := stored_limits l,
       br_balance := newBalance (br_limits old) l (Settle (br_limits old) (br_balance old) (br_lastRefill old) now),
       br_lastRefill := now\<rparr>)"
    have "set_limits (br_id old) l (newBalance (br_limits old) l (Settle (br_limits old) (br_balance old) (br_lastRefill old) now)) now d =
        d\<lparr>db_buckets := map (\<lambda>r. if br_id r = br_id old then g old now r else r) (db_buckets d)\<rparr>" for old now
      by (simp add: set_limits_def g_def)
    with fn Some True
    have "\<exists>k. lockRow sqlstate env name (\<lambda>r. br_name r = name) k (in_tx c d) = (Inr x, in_tx c d') \<and>
        (\<forall>old now. k old now (in_tx c d) = (Inr x, in_tx c d') \<longrightarrow>
          d' = d\<lparr>db_buckets := map (\<lambda>r. if br_id r = br_id old then g old now r else r) (db_buckets d)\<rparr>)"
      by (auto simp: ensure_tx_def stmt_Inr lockBucket_def Let_def)
    then obtain old t where old: "find (\<lambda>r. br_name r = name) (db_buckets d) = Some old"
      and d': "d' = d\<lparr>db_buckets := map (\<lambda>r. if br_id r = br_id old then g old t r else r) (db_buckets d)\<rparr>"
      using lockRow_Inr by fastforce
    show ?thesis unfolding d'
      by (rule db_inv_update_row [OF inv old]) (use valid newBalance_le in \<open>auto simp: row_ok_def g_def\<close>)
  qed
qed

lemma Ensure_cases:
  assumes "Ensure sqlstate name l overwrite env d = (e, d')"
  obtains (rejected) "d' = d" "e \<noteq> None"
  | (tx) res where "Validate l = None" "inTx env (ensure_tx sqlstate name l overwrite env) d = (res, d')"
      "e = (case res of Inl e \<Rightarrow> Some e | Inr _ \<Rightarrow> None)" "name \<noteq> []"
proof (cases "Validate l = None \<and> name \<noteq> []")
  case False
  with assms have "d' = d" "e \<noteq> None" by (auto simp: Ensure_def split: option.splits if_splits)
  then show ?thesis by (rule rejected)
next
  case True
  obtain res d1 where tx1: "inTx env (ensure_tx sqlstate name l overwrite env) d = (res, d1)" by (metis prod.exhaust)
  with True assms have "d1 = d'" "e = (case res of Inl e \<Rightarrow> Some e | Inr _ \<Rightarrow> None)"
    by (auto simp: Ensure_def split: sum.splits)
  with True tx1 show ?thesis by (intro tx) simp_all
qed

lemma Ensure_inv:
  assumes inv: "db_inv d" and new: "new_ids env d" and run: "Ensure sqlstate name l overwrite env d = (e, d')"
  shows "db_inv d'"
  using run
proof (cases rule: Ensure_cases)
  case (tx res)
  from tx(2) show ?thesis by (cases rule: inTx_cases [OF inside_bodies(3)]) (use inv ensure_tx_inv [OF inv new tx(1)] in blast)+
qed (use inv in simp)

lemma pg_step_inv: "pg_step sqlstate cfg d d' \<Longrightarrow> db_inv d \<Longrightarrow> db_inv d'"
  by (elim pg_stepE) (auto intro: tryAcquire_inv [OF _ _ max.cobounded2] renewOnce_inv pg_Adjust_inv pg_Release_inv Ensure_inv)

lemma pg_reachable_inv: "pg_reachable sqlstate cfg d \<Longrightarrow> db_inv d"
  by (induction rule: pg_reachable.induct) (auto intro: pg_step_inv, simp add: db_inv_def)

section \<open>A grant\<close>

lemma pg_tryAcquire_grant:
  assumes "tryAcquire sqlstate cfg key tokens env d = (Inr res, d')" and "r_Lease res = Some r"
  shows "\<exists>b bal. find (\<lambda>b. br_name b = key) (db_buckets d) = Some b \<and>
    bal = Settle (br_limits b) (br_balance b) (br_lastRefill b) (tx_clock env 0) \<and>
    r = newLease key (tx_new_lease env) (br_id b) tokens (TokenLimited (br_limits b)) \<and>
    Fits (br_limits b) bal tokens (int (lease_count (br_id b) (reap (br_id b) (tx_clock env 0) d))) \<and>
    d' = insert_lease cfg env (br_id b) (set_balance (br_id b)
      (if TokenLimited (br_limits b) then fl (bal - float_of_int tokens) else bal) (tx_clock env 0) (reap (br_id b) (tx_clock env 0) d))"
proof -
  have "lockBucket sqlstate env key (admit sqlstate cfg env key tokens) (in_tx d d) = (Inr res, in_tx d d')"
    using assms(1) unfolding tryAcquire_def by (cases rule: inTx_cases [OF inside_bodies(1)]) auto
  from lockRow_Inr [OF this [unfolded lockBucket_def]] obtain b where
    b: "find (\<lambda>b. br_name b = key) (db_buckets d) = Some b" and
    a: "admit sqlstate cfg env key tokens b (tx_clock env 0) (in_tx d d) = (Inr res, in_tx d d')" by auto
  from a show ?thesis by (cases rule: admit_cases) (use assms(2) b in auto)
qed

definition unexpired :: "int \<Rightarrow> int \<Rightarrow> db \<Rightarrow> lease_row list" where
  "unexpired i now d = filter (\<lambda>x. lr_bucket x = i \<and> now < lr_expires x) (db_leases d)"

lemma leases_of_reap: "leases_of i (reap i now d) = unexpired i now d"
  by (simp add: leases_of_def reap_def unexpired_def not_le) (rule filter_cong, auto)

lemma insert_lease_row [simp]:
  "leases_of i (insert_lease cfg env i d) = leases_of i d @
     [\<lparr>lr_id = tx_new_lease env, lr_bucket = i, lr_acquired = tx_clock env 1,
       lr_expires = tx_clock env 2 + micros (pg_LeaseTTL cfg) * 1000\<rparr>]"
  by (simp add: leases_of_def insert_lease_def)

text \<open>The bodies do not depend on the fate of the commit.\<close>

lemma stmt_same: "stmt (env\<lparr>tx_commit := x\<rparr>) = stmt env"
  by (simp add: stmt_def fun_eq_iff)

lemma env_same: "tx_clock (env\<lparr>tx_commit := x\<rparr>) = tx_clock env" "tx_new_lease (env\<lparr>tx_commit := x\<rparr>) = tx_new_lease env"
  by simp_all

lemma lockRow_same: "lockRow sqlstate (env\<lparr>tx_commit := x\<rparr>) key P k = lockRow sqlstate env key P k"
  unfolding lockRow_def stmt_same env_same ..

lemma same_bodies:
  "lockBucket sqlstate (env\<lparr>tx_commit := x\<rparr>) key (admit sqlstate cfg (env\<lparr>tx_commit := x\<rparr>) key tokens) =
   lockBucket sqlstate env key (admit sqlstate cfg env key tokens)"
  "adjust_tx sqlstate r actual (env\<lparr>tx_commit := x\<rparr>) = adjust_tx sqlstate r actual env"
  "ensure_tx sqlstate name l overwrite (env\<lparr>tx_commit := x\<rparr>) = ensure_tx sqlstate name l overwrite env"
proof -
  have env: "insert_lease cfg (env\<lparr>tx_commit := x\<rparr>) = insert_lease cfg env" "add_bucket name l (env\<lparr>tx_commit := x\<rparr>) = add_bucket name l env"
    by (simp_all add: insert_lease_def add_bucket_def fun_eq_iff)
  have "admit sqlstate cfg (env\<lparr>tx_commit := x\<rparr>) key tokens b now = admit sqlstate cfg env key tokens b now" for b now
    unfolding admit_def stmt_same env env_same ..
  then have "admit sqlstate cfg (env\<lparr>tx_commit := x\<rparr>) key tokens = admit sqlstate cfg env key tokens" by (simp add: fun_eq_iff)
  then show "lockBucket sqlstate (env\<lparr>tx_commit := x\<rparr>) key (admit sqlstate cfg (env\<lparr>tx_commit := x\<rparr>) key tokens) =
      lockBucket sqlstate env key (admit sqlstate cfg env key tokens)"
    by (simp add: lockBucket_def lockRow_same)
  show "adjust_tx sqlstate r actual (env\<lparr>tx_commit := x\<rparr>) = adjust_tx sqlstate r actual env"
    unfolding adjust_tx_def lockBucketByID_def lockRow_same stmt_same ..
  show "ensure_tx sqlstate name l overwrite (env\<lparr>tx_commit := x\<rparr>) = ensure_tx sqlstate name l overwrite env"
    unfolding ensure_tx_def lockBucket_def lockRow_same stmt_same env ..
qed

lemma renew_row_same: "renew_row cfg r (env\<lparr>tx_stmt := x\<rparr>) = renew_row cfg r env"
  by (simp add: renew_row_def renewed_def fun_eq_iff)

section \<open>Properties\<close>

text \<open>
  C10: the rows stay consistent whatever happens. In every database state that any processes can
  produce, with statements failing, commits of unknown fate, arbitrary clocks and lease objects in
  any state, each bucket has usable limits and a balance within its capacity, and names and
  identifiers are unique, so that every key and every lease denotes one row.
\<close>

theorem postgres_rows_stay_valid:
  assumes "pg_reachable sqlstate cfg d"
  shows "(\<forall>b \<in> set (db_buckets d). Validate (br_limits b) = None \<and>
      (TokenLimited (br_limits b) \<longrightarrow> br_balance b \<le> float_of_int (Capacity (br_limits b)))) \<and>
    distinct (map br_name (db_buckets d)) \<and> distinct (map br_id (db_buckets d)) \<and> distinct (map lr_id (db_leases d))"
  using pg_reachable_inv [OF assms] by (simp add: db_inv_def list_all_iff row_ok_def)

text \<open>What a grant \<open>r\<close> makes of the rows: \<open>b\<close> is the bucket's row before, \<open>b'\<close> after, \<open>now\<close> the database's time under the lock.\<close>

definition grant_rows :: "pg_config \<Rightarrow> string \<Rightarrow> int \<Rightarrow> tx_env \<Rightarrow> db \<Rightarrow> pg_lease \<Rightarrow> db \<Rightarrow> bucket_row \<Rightarrow> bucket_row \<Rightarrow> bool" where
  "grant_rows cfg key tokens env d r d' b b' \<longleftrightarrow>
     (let now = tx_clock env 0; settled = Settle (br_limits b) (br_balance b) (br_lastRefill b) now in
      find (\<lambda>b. br_name b = key) (db_buckets d) = Some b \<and> find (\<lambda>b. br_name b = key) (db_buckets d') = Some b' \<and>
      b' = b\<lparr>br_balance := (if TokenLimited (br_limits b) then fl (settled - float_of_int tokens) else settled), br_lastRefill := now\<rparr> \<and>
      (TokenLimited (br_limits b) \<longrightarrow> float_of_int tokens \<le> settled) \<and>
      leases_of (br_id b) d' = unexpired (br_id b) now d @
        [\<lparr>lr_id = pl_id r, lr_bucket = br_id b, lr_acquired = tx_clock env 1,
          lr_expires = tx_clock env 2 + micros (pg_LeaseTTL cfg) * 1000\<rparr>] \<and>
      pl_key r = key \<and> pl_bucketID r = br_id b \<and> pl_tokens r = tokens \<and> pl_tokenCharged r = TokenLimited (br_limits b))"

text \<open>And that they are within the limits the bucket has afterwards.\<close>

definition within_limits :: "bucket_row \<Rightarrow> db \<Rightarrow> bool" where
  "within_limits b d \<longleftrightarrow>
     (SlotLimited (br_limits b) \<longrightarrow> int (length (leases_of (br_id b) d)) \<le> MaxConcurrency (br_limits b)) \<and>
     (TokenLimited (br_limits b) \<longrightarrow> 0 \<le> br_balance b)"

lemma tryAcquire_within_limits:
  assumes "tryAcquire sqlstate cfg key tokens env d = (Inr res, d')" and "r_Lease res = Some r"
  shows "\<exists>b b'. grant_rows cfg key tokens env d r d' b b' \<and> within_limits b' d'"
proof -
  from pg_tryAcquire_grant [OF assms] obtain b bal where
    b: "find (\<lambda>b. br_name b = key) (db_buckets d) = Some b"
    and bal: "bal = Settle (br_limits b) (br_balance b) (br_lastRefill b) (tx_clock env 0)"
    and r: "r = newLease key (tx_new_lease env) (br_id b) tokens (TokenLimited (br_limits b))"
    and fits: "Fits (br_limits b) bal tokens (int (lease_count (br_id b) (reap (br_id b) (tx_clock env 0) d)))"
    and d': "d' = insert_lease cfg env (br_id b) (set_balance (br_id b)
      (if TokenLimited (br_limits b) then fl (bal - float_of_int tokens) else bal) (tx_clock env 0) (reap (br_id b) (tx_clock env 0) d))"
    by blast
  let ?b' = "b\<lparr>br_balance := if TokenLimited (br_limits b) then fl (bal - float_of_int tokens) else bal, br_lastRefill := tx_clock env 0\<rparr>"
  have "lease_count (br_id b) (reap (br_id b) (tx_clock env 0) d) = length (unexpired (br_id b) (tx_clock env 0) d)"
    using leases_of_reap by (simp add: lease_count_def leases_of_def [symmetric])
  with fits have fits: "SlotLimited (br_limits b) \<longrightarrow> int (length (unexpired (br_id b) (tx_clock env 0) d)) < MaxConcurrency (br_limits b)"
      "TokenLimited (br_limits b) \<longrightarrow> float_of_int tokens \<le> bal"
    by (simp_all add: Fits_def Let_def)
  have "find (\<lambda>b. br_name b = key) (db_buckets (reap (br_id b) (tx_clock env 0) d)) = Some b" using b by simp
  from set_balance_find(1) [OF this] have "find (\<lambda>b. br_name b = key) (db_buckets d') = Some ?b'" by (simp add: d')
  with b fits(2) r have "grant_rows cfg key tokens env d r d' b ?b'"
    by (simp add: grant_rows_def Let_def bal [symmetric] d' newLease_def leases_of_reap)
  moreover have "0 \<le> fl (bal - float_of_int tokens)" if "TokenLimited (br_limits b)"
    using fits(2) that by (intro fl_nonneg) simp
  with fits(1) have "within_limits ?b' d'" by (auto simp: within_limits_def d' leases_of_reap)
  ultimately show ?thesis by blast
qed

text \<open>
  C9: \<open>Acquire\<close> hands out a lease only within the limits of its bucket, however many attempts it took and whatever other
  processes committed between them. After some rounds of the wait that admitted nothing, one attempt began while the wait's context was
  live and \<open>MaxWait\<close> had not passed, and its transaction, on the rows it found once it had the lock, gave the lease: the tokens
  asked were in the balance settled at the database's time, and were taken from it; the leases of the bucket are now the
  unexpired ones found and the new one, which lives a full \<open>LeaseTTL\<close>; under the limits stored in the bucket's row there are not more
  of them than \<open>MaxConcurrency\<close>, and the balance is not overdrawn.
\<close>

theorem postgres_grant_within_limits:
  fixes w w' :: "(db, 'a) shared_scheme"
  assumes "pg_Acquire fuel sqlstate cfg envs c key tokens w = Some (Inr r, w')"
  defines "wc \<equiv> waitCtx c (pg_waiter cfg) w"
  shows "\<exists>w0 res b b'. (wait_round wc (pg_attempt sqlstate cfg envs key (max tokens 0)))\<^sup>*\<^sup>* w w0 \<and>
    ctx_Err c w0 = None \<and> (0 < pg_MaxWait cfg \<longrightarrow> w_clock w0 < w_clock w + pg_MaxWait cfg) \<and>
    tryAcquire sqlstate cfg key (max tokens 0) (envs wc (Suc (sh_locks w0))) (sh_obj (lock w0)) = (Inr res, sh_obj w') \<and> r_Lease res = Some r \<and>
    grant_rows cfg key (max tokens 0) (envs wc (Suc (sh_locks w0))) (sh_obj (lock w0)) r (sh_obj w') b b' \<and> within_limits b' (sh_obj w')"
proof -
  from wait_loop_admitted [OF assms(1) [unfolded pg_Acquire_def Wait_def], folded wc_def] obtain w0 res where
    rounds: "(wait_round wc (pg_attempt sqlstate cfg envs key (max tokens 0)))\<^sup>*\<^sup>* w w0"
    and live: "ctx_Err wc w0 = None" and a: "pg_attempt sqlstate cfg envs key (max tokens 0) wc w0 = (Inr res, w')"
    and r: "r_Lease res = Some r" by blast
  have t: "tryAcquire sqlstate cfg key (max tokens 0) (envs wc (Suc (sh_locks w0))) (sh_obj (lock w0)) = (Inr res, sh_obj w')"
    using a by (auto simp: pg_attempt_def Let_def split: prod.splits)
  from tryAcquire_within_limits [OF t r] waitCtx_live [OF live [unfolded wc_def]] rounds t r show ?thesis
    by (auto simp: pg_waiter_def)
qed


text \<open>
  the protocol of \<open>Release\<close>. The first call that reaches the database removes the lease's row and no
  other, returns nil exactly when the row was there and had not expired, and reports a lost lease
  otherwise, marking it so; every later call returns the same result and touches nothing, so that a
  late or repeated release cannot free the slot of another holder.
\<close>

theorem release_frees_own_slot_once:
  assumes "\<not> pl_released r" and "tx_stmt env 0 = None" and "distinct (map lr_id (db_leases d))"
    and "pg_Release sqlstate r env d = (e, r', d')"
  shows "db_leases d' = filter (\<lambda>x. lr_id x \<noteq> pl_id r) (db_leases d) \<and> db_buckets d' = db_buckets d \<and>
    (e = None \<longleftrightarrow> (\<exists>x \<in> set (db_leases d). lr_id x = pl_id r \<and> tx_clock env 0 < lr_expires x)) \<and>
    (e = None \<or> e = Some ErrLeaseLost) \<and> (e \<noteq> None \<longrightarrow> pl_lost r') \<and>
    (pl_releaseErr r = None \<longrightarrow> pg_Release sqlstate r' env' d'' = (e, r', d''))"
proof -
  have auto: "autocommit env f d = (None, f d)" for f
    using assms(2) by (simp add: autocommit_def tx_write_def Let_def)
  note run = assms(4) [unfolded pg_Release_def auto]
  show ?thesis
proof (cases "find (\<lambda>x. lr_id x = pl_id r) (db_leases d)")
  case None
  then have "lr_id x \<noteq> pl_id r" if "x \<in> set (db_leases d)" for x using that by (auto simp: find_None_iff)
  with assms(1) run None show ?thesis by (auto simp: pg_Release_def Let_def)
next
  case (Some x)
  from find_in_set [OF Some] have x: "x \<in> set (db_leases d)" "lr_id x = pl_id r" by simp_all
  then have "(\<exists>y \<in> set (db_leases d). lr_id y = pl_id r \<and> tx_clock env 0 < lr_expires y) \<longleftrightarrow> tx_clock env 0 < lr_expires x"
    using assms(3) by (metis distinct_map inj_onD)
  with assms(1) run Some show ?thesis by (cases "tx_clock env 0 < lr_expires x") (auto simp: pg_Release_def Let_def)
qed
qed

section \<open>At work\<close>

theorem postgres_rows_stay_valid_witness:
  "\<exists>(d :: db) (b :: bucket_row). db_buckets d = [b] \<and> br_name b = ''k'' \<and> Validate (br_limits b) = None"
proof -
  let ?d0 = "\<lparr>db_buckets = [], db_leases = [], db_version = Some 1\<rparr> :: db"
  let ?b = "\<lparr>br_id = 2, br_name = ''k'', br_limits = stored_limits one_slot, br_balance = float_of_int (Capacity one_slot), br_lastRefill = 7\<rparr> :: bucket_row"
  have "ensure_tx (\<lambda>_. None) ''k'' one_slot False (demo_env ''a'') (in_tx ?d0 ?d0) = (Inr (), in_tx ?d0 (?d0\<lparr>db_buckets := [?b]\<rparr>))"
    by (simp add: ensure_tx_def Let_def add_bucket_def, simp add: demo_env_def)
  from healthy_inTx [of "demo_env ''a''" "ensure_tx (\<lambda>_. None) ''k'' one_slot False (demo_env ''a'')", OF demo_healthy(1) this]
  have "Ensure (\<lambda>_. None) ''k'' one_slot False (demo_env ''a'') ?d0 = (None, ?d0\<lparr>db_buckets := [?b]\<rparr>)"
    by (simp add: Ensure_def one_slot_valid)
  moreover have "new_ids (demo_env ''a'') ?d0" by (simp add: new_ids_def)
  ultimately have "pg_step (\<lambda>_. None) demo_pg_config ?d0 (?d0\<lparr>db_buckets := [?b]\<rparr>)" by (intro pg_ensure)
  with pg_migrated have "pg_reachable (\<lambda>_. None) demo_pg_config (?d0\<lparr>db_buckets := [?b]\<rparr>)" by (rule pg_next)
  from postgres_rows_stay_valid [OF this] show ?thesis
    by - (rule exI [of _ "?d0\<lparr>db_buckets := [?b]\<rparr>"], rule exI [of _ ?b], simp)
qed

text \<open>A process alone, on a database that takes 3 ns to answer.\<close>

definition pg_world :: "db shared" where
  "pg_world = \<lparr>w_clock = 0, w_tie = (\<lambda>_. True), w_rand = (\<lambda>_. 0), w_draws = 0, w_oob = (\<lambda>_. MinInt),
     sh_obj = demo_db, sh_now = (\<lambda>t. 7), sh_locks = 0, sh_delay = (\<lambda>_. 3), sh_others = (\<lambda>n d. d)\<rparr>"

theorem postgres_grant_within_limits_witness:
  "\<exists>w' b'. pg_Acquire 1 (\<lambda>_. None) demo_pg_config (\<lambda>_ _. demo_env ''a'') background ''k'' 5 pg_world = Some (Inr demo_lease, w') \<and>
     within_limits b' (sh_obj w') \<and> sh_obj w' = demo_held"
proof -
  have lk: "sh_others pg_world n d = d" "sh_obj pg_world = demo_db" for n d by (simp_all add: pg_world_def)
  have live: "ctx_Err (waitCtx background (pg_waiter demo_pg_config) pg_world) v = None" for v :: "db shared"
    by (simp add: waitCtx_def pg_waiter_def demo_pg_config_def background_def ctx_Err_def)
  have "pg_attempt (\<lambda>_. None) demo_pg_config (\<lambda>_ _. demo_env ''a'') ''k'' 5
      (waitCtx background (pg_waiter demo_pg_config) pg_world) pg_world =
    (Inr \<lparr>r_Lease = Some demo_lease, r_Impossible = [], r_RetryAfter = 0\<rparr>, (lock pg_world)\<lparr>sh_obj := demo_held\<rparr>)"
    by (simp add: pg_attempt_def lk demo_try Let_def)
  then have a: "pg_Acquire 1 (\<lambda>_. None) demo_pg_config (\<lambda>_ _. demo_env ''a'') background ''k'' 5 pg_world =
      Some (Inr demo_lease, (lock pg_world)\<lparr>sh_obj := demo_held\<rparr>)"
    by (simp add: pg_Acquire_def Wait_def live)
  from postgres_grant_within_limits [OF a] a show ?thesis by auto
qed

text \<open>The statement that counts the leases fails, after the expired ones have been deleted.\<close>

definition broken_env :: tx_env where
  "broken_env = (demo_env ''a'')\<lparr>tx_stmt := (\<lambda>n. if n = 3 then Some Canceled else None)\<rparr>"


theorem release_frees_own_slot_once_witness:
  "\<exists>r' d'. pg_Release (\<lambda>_. None) demo_lease (demo_env ''c'') demo_held = (None, r', d') \<and> db_leases d' = []"
proof -
  obtain e r' d' where run: "pg_Release (\<lambda>_. None) demo_lease (demo_env ''c'') demo_held = (e, r', d')" by (metis prod_cases3)
  have "\<not> pl_released demo_lease" "pl_id demo_lease = ''a''" by (simp_all add: demo_lease_def newLease_def)
  moreover have "tx_stmt (demo_env ''c'') 0 = None" by (simp add: demo_env_def)
  ultimately show ?thesis using release_frees_own_slot_once [OF _ _ _ run] run by (simp add: demo_rows)
qed

end
