(* ===== verification/ApiErr.thy ===== *)
theory ApiErr
  imports LlmsError Runtime
begin

text \<open>
  \<open>llms/providers/internal/apierr\<close>: the classification of provider errors that every adapter shares. An
  adapter's \<open>Extract\<close> and \<open>Overflow\<close> closures are arguments, since the SDK errors they inspect are not
  under \<open>src/\<close>; an \<open>http.Header\<close> is the value its \<open>Get\<close> returns for each key. \<open>http_date\<close> stands for
  \<open>http.ParseTime\<close> and \<open>err_text\<close> for the \<open>Error\<close> method, whose text nothing reads.
\<close>

type_synonym http_header = "string \<Rightarrow> string"
type_synonym extractor = "error \<Rightarrow> (int \<times> http_header option \<times> string) option"

section \<open>Statuses\<close>

definition KindForStatus :: "int \<Rightarrow> error_kind" where
  "KindForStatus status =
     (if status = 401 \<or> status = 403 then ErrorKindAuth
      else if status = 429 then ErrorKindRateLimited
      else if status = 408 then ErrorKindTimeout
      else if status = 400 \<or> status = 422 \<or> status = 404 then ErrorKindBadRequest
      else if status \<ge> 500 then ErrorKindUnavailable
      else ErrorKindUnknown)"

section \<open>Retry-After\<close>

text \<open>\<open>strconv.Atoi\<close>: an optional sign and decimal digits, in the range of an int.\<close>

fun decimal :: "int \<Rightarrow> string \<Rightarrow> int option" where
  "decimal acc [] = Some acc"
| "decimal acc (c # cs) =
     (let d = int (of_char c) - 48 in if 0 \<le> d \<and> d \<le> 9 then decimal (10 * acc + d) cs else None)"

definition Atoi :: "string \<Rightarrow> int option" where
  "Atoi s =
     (let (neg, ds) = (case s of c # cs \<Rightarrow> if c = CHR ''-'' then (True, cs) else if c = CHR ''+'' then (False, cs) else (False, s)
                       | [] \<Rightarrow> (False, [])) in
      if ds = [] then None
      else case decimal 0 ds of
        None \<Rightarrow> None
      | Some n \<Rightarrow> (let n = (if neg then - n else n) in if in_int64 n then Some n else None))"

definition maxRetryAfter :: int where "maxRetryAfter = 24 * 3600 * 1000000000"

definition parseRetryAfter :: "(string \<Rightarrow> int option) \<Rightarrow> int \<Rightarrow> http_header \<Rightarrow> int" where
  "parseRetryAfter http_date now h =
     (let v = h ''Retry-After'' in
      if v = [] then 0
      else case Atoi v of
        Some secs \<Rightarrow>
          (if secs \<le> 0 then 0
           else if secs \<ge> go_div maxRetryAfter 1000000000 then maxRetryAfter
           else go_mul secs 1000000000)
      | None \<Rightarrow>
          (case http_date v of
             None \<Rightarrow> 0
           | Some t \<Rightarrow> (let d = time_sub t now in if d > 0 then (if d > maxRetryAfter then maxRetryAfter else d) else 0)))"

section \<open>Classification\<close>

definition ClassifyOverflow :: "(error \<Rightarrow> string) \<Rightarrow> (string \<Rightarrow> int option) \<Rightarrow> int \<Rightarrow> provider_id \<Rightarrow> string \<Rightarrow> error option \<Rightarrow>
    extractor \<Rightarrow> (error \<Rightarrow> bool) option \<Rightarrow> error option" where
  "ClassifyOverflow err_text http_date now provider model err extractor overflow =
     (case err of
        None \<Rightarrow> None
      | Some e \<Rightarrow>
          if errors_Is err DeadlineExceeded
          then Some (ProviderError provider model ErrorKindTimeout 0 ''request deadline exceeded'' 0 err)
          else if errors_Is err Canceled then err
          else case extractor e of
            None \<Rightarrow> Some (ProviderError provider model ErrorKindUnknown 0 (err_text e) 0 err)
          | Some (status, hdr, message) \<Rightarrow>
              let kind = KindForStatus status;
                  kind = (if kind = ErrorKindBadRequest \<and> (case overflow of None \<Rightarrow> False | Some f \<Rightarrow> f e)
                          then ErrorKindContextLength else kind);
                  retryAfter = (case hdr of None \<Rightarrow> 0 | Some h \<Rightarrow> parseRetryAfter http_date now h)
              in Some (ProviderError provider model kind status message retryAfter err))"

definition Classify :: "(error \<Rightarrow> string) \<Rightarrow> (string \<Rightarrow> int option) \<Rightarrow> int \<Rightarrow> provider_id \<Rightarrow> string \<Rightarrow> error option \<Rightarrow>
    extractor \<Rightarrow> error option" where
  "Classify err_text http_date now provider model err extractor =
     ClassifyOverflow err_text http_date now provider model err extractor None"

section \<open>Facts\<close>

lemma parseRetryAfter_bounds: "0 \<le> parseRetryAfter http_date now h \<and> parseRetryAfter http_date now h \<le> maxRetryAfter"
proof -
  have "go_mul secs 1000000000 = secs * 1000000000" if "0 < secs" "secs < 86400" for secs
    using that by (simp add: go_mul_def go_int_defs)
  then show ?thesis
    by (auto simp: parseRetryAfter_def maxRetryAfter_def go_div_def Let_def split: option.split)
qed

lemma KindForStatus_retryable:
  "KindForStatus s \<in> {ErrorKindAuth, ErrorKindConfig, ErrorKindBadRequest, ErrorKindContentPolicy, ErrorKindContextLength} \<longleftrightarrow>
   s \<in> {400, 401, 403, 404, 422}"
  by (auto simp: KindForStatus_def error_kind_consts)

lemma KindForStatus_bad_request: "KindForStatus s = ErrorKindBadRequest \<longleftrightarrow> s \<in> {400, 404, 422}"
  by (auto simp: KindForStatus_def error_kind_consts)

lemma errors_Is_cause [simp]: "errors_Is (Some (ProviderError p m k sc msg ra cause)) t \<longleftrightarrow>
    t = ProviderError p m k sc msg ra cause \<or> errors_Is cause t"
  by (auto simp: errors_Is_def opt_chain_def split: option.split)

text \<open>The four ways a classification can end.\<close>

lemma ClassifyOverflow_cases:
  assumes "ClassifyOverflow err_text http_date now provider model (Some e) extractor overflow = Some pe"
  obtains (deadline) "errors_Is (Some e) DeadlineExceeded"
    "pe = ProviderError provider model ErrorKindTimeout 0 ''request deadline exceeded'' 0 (Some e)"
  | (canceled) "\<not> errors_Is (Some e) DeadlineExceeded" "errors_Is (Some e) Canceled" "pe = e"
  | (foreign) "\<not> errors_Is (Some e) DeadlineExceeded" "\<not> errors_Is (Some e) Canceled" "extractor e = None"
    "pe = ProviderError provider model ErrorKindUnknown 0 (err_text e) 0 (Some e)"
  | (api) status hdr message kind ra where "\<not> errors_Is (Some e) DeadlineExceeded" "\<not> errors_Is (Some e) Canceled"
    "extractor e = Some (status, hdr, message)" "pe = ProviderError provider model kind status message ra (Some e)"
    "kind = (if KindForStatus status = ErrorKindBadRequest \<and> (\<exists>f. overflow = Some f \<and> f e)
             then ErrorKindContextLength else KindForStatus status)" "0 \<le> ra" "ra \<le> maxRetryAfter"
proof -
  consider "errors_Is (Some e) DeadlineExceeded" | "\<not> errors_Is (Some e) DeadlineExceeded" "errors_Is (Some e) Canceled"
    | "\<not> errors_Is (Some e) DeadlineExceeded" "\<not> errors_Is (Some e) Canceled" "extractor e = None"
    | status hdr message where "\<not> errors_Is (Some e) DeadlineExceeded" "\<not> errors_Is (Some e) Canceled"
        "extractor e = Some (status, hdr, message)" by (metis option.exhaust prod_cases3)
  then show ?thesis
  proof cases
    case 1
    with assms show ?thesis by (intro deadline) (simp_all add: ClassifyOverflow_def)
  next
    case 2
    with assms show ?thesis by (intro canceled) (simp_all add: ClassifyOverflow_def)
  next
    case 3
    with assms show ?thesis by (intro foreign) (simp_all add: ClassifyOverflow_def)
  next
    case (4 status hdr message)
    let ?ra = "case hdr of None \<Rightarrow> 0 | Some h \<Rightarrow> parseRetryAfter http_date now h"
    have "0 \<le> ?ra \<and> ?ra \<le> maxRetryAfter" using parseRetryAfter_bounds by (auto simp: maxRetryAfter_def split: option.split)
    moreover have "(case overflow of None \<Rightarrow> False | Some f \<Rightarrow> f e) = (\<exists>f. overflow = Some f \<and> f e)"
      by (simp split: option.split)
    ultimately show ?thesis using assms 4
      by (intro api [of status hdr message _ ?ra]) (simp_all add: ClassifyOverflow_def Let_def)
  qed
qed

text \<open>
  C31: the classification of a provider's error decides what retry does with it, and loses nothing. A
  deadline is a retryable timeout; a caller's cancellation comes back unchanged; an API error is
  retried exactly when its status is not 400, 401, 403, 404 or 422, and reported as a context
  overflow only when the detector says so of a bad request; anything else is retryable and unknown.
  The cause stays visible to \<open>errors.Is\<close>, and \<open>RetryAfter\<close> is within a day, whatever the header says.
\<close>

theorem provider_errors_classified:
  assumes "ClassifyOverflow err_text http_date now provider model (Some e) extractor overflow = Some pe"
  shows "(errors_Is (Some e) DeadlineExceeded \<longrightarrow> pe_Kind pe = ErrorKindTimeout \<and> Retryable (Some pe)) \<and>
    (\<not> errors_Is (Some e) DeadlineExceeded \<and> errors_Is (Some e) Canceled \<longrightarrow> pe = e) \<and>
    (\<not> errors_Is (Some e) DeadlineExceeded \<and> \<not> errors_Is (Some e) Canceled \<longrightarrow>
       (case extractor e of
          None \<Rightarrow> pe_Kind pe = ErrorKindUnknown \<and> Retryable (Some pe)
        | Some (status, _, _) \<Rightarrow> pe_StatusCode pe = status \<and>
            (Retryable (Some pe) \<longleftrightarrow> status \<notin> {400, 401, 403, 404, 422}) \<and>
            (pe_Kind pe = ErrorKindContextLength \<longleftrightarrow>
               status \<in> {400, 404, 422} \<and> (\<exists>f. overflow = Some f \<and> f e)))) \<and>
    (errors_Is (Some e) t \<longrightarrow> errors_Is (Some pe) t) \<and>
    (pe \<noteq> e \<longrightarrow> 0 \<le> RetryAfter (Some pe) \<and> RetryAfter (Some pe) \<le> maxRetryAfter)"
  using assms
proof (cases rule: ClassifyOverflow_cases)
  case deadline
  then show ?thesis by (simp add: ProviderError_Retryable_def RetryAfter_def errors_As_self error_kind_consts maxRetryAfter_def)
next
  case canceled
  then show ?thesis by simp
next
  case foreign
  then show ?thesis by (simp add: ProviderError_Retryable_def RetryAfter_def errors_As_self error_kind_consts maxRetryAfter_def)
next
  case (api status hdr message kind ra)
  have "kind = ErrorKindContextLength \<longleftrightarrow> status \<in> {400, 404, 422} \<and> (\<exists>f. overflow = Some f \<and> f e)"
    using KindForStatus_bad_request [of status] by (auto simp: api(5) KindForStatus_def error_kind_consts)
  moreover have "ProviderError_Retryable pe \<longleftrightarrow> status \<notin> {400, 401, 403, 404, 422}"
    using KindForStatus_retryable [of status] KindForStatus_bad_request [of status]
    by (simp add: ProviderError_Retryable_def api(4,5)) blast
  ultimately show ?thesis using api(1-4,6,7) by (simp add: RetryAfter_def errors_As_self)
qed

text \<open>A throttled call: the server asks for five seconds.\<close>

theorem provider_errors_classified_witness:
  "\<exists>pe. ClassifyOverflow (\<lambda>_. []) (\<lambda>_. None) 0 ''p'' ''m'' (Some (Wrapped ''throttled'' []))
       (\<lambda>_. Some (429, Some (\<lambda>_. ''5''), ''slow down'')) None = Some pe \<and>
     Retryable (Some pe) \<and> RetryAfter (Some pe) = 5000000000"
proof -
  let ?e = "Wrapped ''throttled'' []"
  have "parseRetryAfter (\<lambda>_. None) 0 (\<lambda>_. ''5'') = 5000000000"
    by (simp add: parseRetryAfter_def Atoi_def go_int_defs maxRetryAfter_def go_div_def go_mul_def Let_def)
  then obtain pe where pe: "ClassifyOverflow (\<lambda>_. []) (\<lambda>_. None) 0 ''p'' ''m'' (Some ?e)
      (\<lambda>_. Some (429, Some (\<lambda>_. ''5''), ''slow down'')) None = Some pe" "RetryAfter (Some pe) = 5000000000"
    by (simp add: ClassifyOverflow_def errors_Is_def KindForStatus_def error_kind_consts RetryAfter_def errors_As_self Let_def)
  moreover have "\<not> errors_Is (Some ?e) DeadlineExceeded" "\<not> errors_Is (Some ?e) Canceled" by (simp_all add: errors_Is_def)
  ultimately show ?thesis using provider_errors_classified [OF pe(1), of Canceled] by auto
qed

end
