(* ===== verification/GoJson.thy ===== *)
theory GoJson
  imports Llms "HOL-Library.List_Lexorder" "HOL-Library.Char_ord"
begin

text \<open>
  The parts of Go's \<open>encoding/json\<close> the adapters use, on byte strings: the encoder with and without HTML
  escaping, the parser with the standard library's string unquoting, \<open>map[string]any\<close> targets, and
  the matching of struct fields. A document is a \<open>json\<close> value whose objects keep their members in
  order; a decoded Go map is an object sorted by key without duplicates, the order in which it
  is encoded. Numbers keep their literal (\<open>json.Number\<close>). The nesting limit of the standard
  library (10,000) is not modelled; the parser's fuel is the length of its input, and every level
  consumes a byte.
\<close>

section \<open>Runes\<close>

definition utf8_encode :: "nat \<Rightarrow> string" where
  "utf8_encode r =
     (if r < 0x80 then [char_of r]
      else if r < 0x800 then [char_of (0xC0 + r div 64), char_of (0x80 + r mod 64)]
      else if r < 0x10000 then [char_of (0xE0 + r div 4096), char_of (0x80 + r div 64 mod 64), char_of (0x80 + r mod 64)]
      else [char_of (0xF0 + r div 262144), char_of (0x80 + r div 4096 mod 64), char_of (0x80 + r div 64 mod 64),
            char_of (0x80 + r mod 64)])"

definition replacement :: string where
  "replacement = [CHR 0xEF, CHR 0xBF, CHR 0xBD]"

text \<open>Every invalid byte replaced, as the decoder and the encoder do.\<close>

function coerce :: "string \<Rightarrow> string" where
  "coerce s =
     (if s = [] then []
      else if rune_width s = 1 \<and> 0x80 \<le> (of_char (hd s) :: nat) then replacement @ coerce (tl s)
      else take (rune_width s) s @ coerce (drop (rune_width s) s))"
  by pat_completeness auto
termination
  by (relation "measure length") (auto dest: rune_width_pos)

declare coerce.simps [simp del]

definition valid_utf8 :: "string \<Rightarrow> bool" where
  "valid_utf8 s \<longleftrightarrow> coerce s = s"

section \<open>Encoding\<close>

definition hex4 :: "nat \<Rightarrow> string" where
  "hex4 n = [hex_digit (n div 4096 mod 16), hex_digit (n div 256 mod 16), hex_digit (n div 16 mod 16), hex_digit (n mod 16)]"

definition backslash :: char where "backslash = char_of (92 :: nat)"
definition dquote :: char where "dquote = char_of (34 :: nat)"

definition escape_u :: "nat \<Rightarrow> string" where
  "escape_u n = backslash # CHR ''u'' # hex4 n"

text \<open>\<open>html\<close> is \<open>SetEscapeHTML\<close>, on by default.\<close>

definition json_safe :: "bool \<Rightarrow> nat \<Rightarrow> bool" where
  "json_safe html n \<longleftrightarrow> 32 \<le> n \<and> n < 128 \<and> n \<noteq> 34 \<and> n \<noteq> 92 \<and> (html \<longrightarrow> n \<noteq> 60 \<and> n \<noteq> 62 \<and> n \<noteq> 38)"

definition escape_ascii :: "nat \<Rightarrow> string" where
  "escape_ascii n =
     (if n = 34 \<or> n = 92 then [backslash, char_of n]
      else if n = 8 then [backslash, CHR ''b''] else if n = 12 then [backslash, CHR ''f'']
      else if n = 10 then [backslash, CHR ''n''] else if n = 13 then [backslash, CHR ''r'']
      else if n = 9 then [backslash, CHR ''t'']
      else escape_u n)"

function encode_chars :: "bool \<Rightarrow> string \<Rightarrow> string" where
  "encode_chars html s =
     (if s = [] then []
      else let n = of_char (hd s) :: nat; w = rune_width s in
        if n < 0x80 then (if json_safe html n then [hd s] else escape_ascii n) @ encode_chars html (tl s)
        else if w = 1 then escape_u 0xFFFD @ encode_chars html (tl s)
        else if take w s = [CHR 0xE2, CHR 0x80, CHR 0xA8] then escape_u 0x2028 @ encode_chars html (drop w s)
        else if take w s = [CHR 0xE2, CHR 0x80, CHR 0xA9] then escape_u 0x2029 @ encode_chars html (drop w s)
        else take w s @ encode_chars html (drop w s))"
  by pat_completeness auto
termination
  by (relation "measure (\<lambda>(h, s). length s)") (auto dest: rune_width_pos)

declare encode_chars.simps [simp del]

definition encode_string :: "bool \<Rightarrow> string \<Rightarrow> string" where
  "encode_string html s = dquote # encode_chars html s @ [dquote]"

fun join_with :: "char \<Rightarrow> string list \<Rightarrow> string" where
  "join_with c [] = []"
| "join_with c [x] = x"
| "join_with c (x # y # xs) = x @ c # join_with c (y # xs)"

fun encode_json :: "bool \<Rightarrow> json \<Rightarrow> string" where
  "encode_json html JNull = ''null''"
| "encode_json html (JBool b) = (if b then ''true'' else ''false'')"
| "encode_json html (JNum n) = n"
| "encode_json html (JStr s) = encode_string html s"
| "encode_json html (JArr js) = CHR ''['' # join_with (CHR '','') (map (encode_json html) js) @ '']''"
| "encode_json html (JObj fs) = CHR ''{'' # join_with (CHR '','')
     (map (\<lambda>(k, v). encode_string html k @ CHR '':'' # encode_json html v) fs) @ ''}''"

section \<open>Parsing\<close>

definition is_ws :: "char \<Rightarrow> bool" where
  "is_ws c \<longleftrightarrow> of_char c \<in> {9, 10, 13, 32 :: nat}"

definition skip_ws :: "string \<Rightarrow> string" where
  "skip_ws s = dropWhile is_ws s"

definition is_digit :: "char \<Rightarrow> bool" where
  "is_digit c \<longleftrightarrow> 48 \<le> (of_char c :: nat) \<and> of_char c \<le> (57 :: nat)"

definition hex_value :: "char \<Rightarrow> nat option" where
  "hex_value c =
     (let n = of_char c in
      if 48 \<le> n \<and> n \<le> 57 then Some (n - 48)
      else if 97 \<le> n \<and> n \<le> 102 then Some (n - 87)
      else if 65 \<le> n \<and> n \<le> 70 then Some (n - 55) else None)"

text \<open>\<open>getu4\<close>: the code unit of a leading \<open>\u\<close> escape.\<close>

definition getu4 :: "string \<Rightarrow> nat option" where
  "getu4 s =
     (case s of
        a # u # p # q # r # t # _ \<Rightarrow>
          (if a = backslash \<and> u = CHR ''u'' then
             (case (hex_value p, hex_value q, hex_value r, hex_value t) of
                (Some w, Some x, Some y, Some z) \<Rightarrow> Some (4096 * w + 256 * x + 16 * y + z)
              | _ \<Rightarrow> None)
           else None)
      | _ \<Rightarrow> None)"

definition is_surrogate :: "nat \<Rightarrow> bool" where
  "is_surrogate r \<longleftrightarrow> 0xD800 \<le> r \<and> r < 0xE000"

definition surrogate_pair :: "nat \<Rightarrow> nat option \<Rightarrow> nat option" where
  "surrogate_pair r1 r2 =
     (case r2 of
        Some r2 \<Rightarrow> if 0xD800 \<le> r1 \<and> r1 < 0xDC00 \<and> 0xDC00 \<le> r2 \<and> r2 < 0xE000
                   then Some ((r1 - 0xD800) * 1024 + (r2 - 0xDC00) + 0x10000) else None
      | None \<Rightarrow> None)"

text \<open>One escape sequence: its bytes and its length.\<close>

definition unescape :: "string \<Rightarrow> (string \<times> nat) option" where
  "unescape s =
     (case s of
        _ # c # _ \<Rightarrow>
          (let n = of_char c :: nat in
           if n = 34 \<or> n = 92 \<or> n = 47 then Some ([c], 2)
           else if c = CHR ''b'' then Some ([char_of (8 :: nat)], 2) else if c = CHR ''f'' then Some ([char_of (12 :: nat)], 2)
           else if c = CHR ''n'' then Some ([char_of (10 :: nat)], 2) else if c = CHR ''r'' then Some ([char_of (13 :: nat)], 2)
           else if c = CHR ''t'' then Some ([char_of (9 :: nat)], 2)
           else if c = CHR ''u'' then
             (case getu4 s of
                None \<Rightarrow> None
              | Some r \<Rightarrow>
                  if is_surrogate r then
                    (case surrogate_pair r (getu4 (drop 6 s)) of
                       Some d \<Rightarrow> Some (utf8_encode d, 12)
                     | None \<Rightarrow> Some (replacement, 6))
                  else Some (utf8_encode r, 6))
           else None)
      | _ \<Rightarrow> None)"

text \<open>The body of a string literal up to its closing quote.\<close>

function scan_string :: "string \<Rightarrow> (string \<times> string) option" where
  "scan_string s =
     (if s = [] then None
      else let n = of_char (hd s) :: nat; w = rune_width s in
        if n = 34 then Some ([], tl s)
        else if n = 92 then
          (case unescape s of
             None \<Rightarrow> None
           | Some (bs, k) \<Rightarrow> map_option (\<lambda>(t, rest). (bs @ t, rest)) (scan_string (drop (max k 1) s)))
        else if n < 32 then None
        else if n < 0x80 then map_option (\<lambda>(t, rest). (hd s # t, rest)) (scan_string (tl s))
        else if w = 1 then map_option (\<lambda>(t, rest). (replacement @ t, rest)) (scan_string (tl s))
        else map_option (\<lambda>(t, rest). (take w s @ t, rest)) (scan_string (drop w s)))"
  by pat_completeness auto
termination
  by (relation "measure length") (auto dest: rune_width_pos)

declare scan_string.simps [simp del]

definition scan_digits :: "string \<Rightarrow> (string \<times> string) option" where
  "scan_digits s = (let ds = takeWhile is_digit s in if ds = [] then None else Some (ds, drop (length ds) s))"

definition scan_frac :: "string \<Rightarrow> (string \<times> string) option" where
  "scan_frac s =
     (case s of
        c # r \<Rightarrow> if c = CHR ''.'' then map_option (\<lambda>(ds, rest). (c # ds, rest)) (scan_digits r) else Some ([], s)
      | [] \<Rightarrow> Some ([], []))"

definition scan_exp :: "string \<Rightarrow> (string \<times> string) option" where
  "scan_exp s =
     (case s of
        c # r \<Rightarrow>
          (if c = CHR ''e'' \<or> c = CHR ''E'' then
             (case r of
                d # r' \<Rightarrow> if d = CHR ''+'' \<or> d = CHR ''-''
                          then map_option (\<lambda>(ds, rest). (c # d # ds, rest)) (scan_digits r')
                          else map_option (\<lambda>(ds, rest). (c # ds, rest)) (scan_digits r)
              | [] \<Rightarrow> None)
           else Some ([], s))
      | [] \<Rightarrow> Some ([], []))"

text \<open>The integer part: a zero stands alone.\<close>

definition scan_int :: "string \<Rightarrow> (string \<times> string) option" where
  "scan_int s =
     (case s of
        c # r \<Rightarrow> if c = CHR ''0'' then Some ([c], r) else scan_digits s
      | [] \<Rightarrow> None)"

definition scan_unsigned :: "string \<Rightarrow> (string \<times> string) option" where
  "scan_unsigned s =
     (case scan_int s of
        None \<Rightarrow> None
      | Some (i, s1) \<Rightarrow>
          (case scan_frac s1 of
             None \<Rightarrow> None
           | Some (f, s2) \<Rightarrow> map_option (\<lambda>(e, rest). (i @ f @ e, rest)) (scan_exp s2)))"

definition scan_number :: "string \<Rightarrow> (string \<times> string) option" where
  "scan_number s =
     (case s of
        c # r \<Rightarrow> if c = CHR ''-'' then map_option (\<lambda>(n, rest). (c # n, rest)) (scan_unsigned r) else scan_unsigned s
      | [] \<Rightarrow> None)"

definition scan_literal :: "string \<Rightarrow> (json \<times> string) option" where
  "scan_literal s =
     (if take 4 s = ''null'' then Some (JNull, drop 4 s)
      else if take 4 s = ''true'' then Some (JBool True, drop 4 s)
      else if take 5 s = ''false'' then Some (JBool False, drop 5 s)
      else map_option (\<lambda>(n, rest). (JNum n, rest)) (scan_number s))"

text \<open>A value after white space; the elements of an array and the members of an object, of which at
  least one is left.\<close>

fun parse_value :: "nat \<Rightarrow> string \<Rightarrow> (json \<times> string) option"
and parse_elems :: "nat \<Rightarrow> string \<Rightarrow> (json list \<times> string) option"
and parse_fields :: "nat \<Rightarrow> string \<Rightarrow> ((string \<times> json) list \<times> string) option" where
  "parse_value 0 s = None"
| "parse_value (Suc f) s =
     (case skip_ws s of
        [] \<Rightarrow> None
      | c # r \<Rightarrow>
          if c = dquote then map_option (\<lambda>(t, rest). (JStr t, rest)) (scan_string r)
          else if c = CHR ''['' then
            (case skip_ws r of
               [] \<Rightarrow> None
             | d # r' \<Rightarrow> if d = CHR '']'' then Some (JArr [], r')
                        else map_option (\<lambda>(js, rest). (JArr js, rest)) (parse_elems f r))
          else if c = CHR ''{'' then
            (case skip_ws r of
               [] \<Rightarrow> None
             | d # r' \<Rightarrow> if d = CHR ''}'' then Some (JObj [], r')
                        else map_option (\<lambda>(fs, rest). (JObj fs, rest)) (parse_fields f r))
          else scan_literal (c # r))"
| "parse_elems 0 s = None"
| "parse_elems (Suc f) s =
     (case parse_value f s of
        None \<Rightarrow> None
      | Some (j, r) \<Rightarrow>
          (case skip_ws r of
             [] \<Rightarrow> None
           | c # r' \<Rightarrow>
               if c = CHR '']'' then Some ([j], r')
               else if c = CHR '','' then map_option (\<lambda>(js, rest). (j # js, rest)) (parse_elems f r')
               else None))"
| "parse_fields 0 s = None"
| "parse_fields (Suc f) s =
     (case skip_ws s of
        [] \<Rightarrow> None
      | q # r \<Rightarrow>
          if q \<noteq> dquote then None
          else case scan_string r of
            None \<Rightarrow> None
          | Some (k, r1) \<Rightarrow>
              (case skip_ws r1 of
                 [] \<Rightarrow> None
               | c # r2 \<Rightarrow>
                   if c \<noteq> CHR '':'' then None
                   else case parse_value f r2 of
                     None \<Rightarrow> None
                   | Some (j, r3) \<Rightarrow>
                       (case skip_ws r3 of
                          [] \<Rightarrow> None
                        | d # r4 \<Rightarrow>
                            if d = CHR ''}'' then Some ([(k, j)], r4)
                            else if d = CHR '','' then map_option (\<lambda>(fs, rest). ((k, j) # fs, rest)) (parse_fields f r4)
                            else None)))"

text \<open>\<open>Decoder.Decode\<close> reads one value and leaves the rest; \<open>Unmarshal\<close> wants the whole input.\<close>

definition decode_first :: "string \<Rightarrow> json option" where
  "decode_first s = map_option fst (parse_value (Suc (length s)) s)"

definition unmarshal :: "string \<Rightarrow> json option" where
  "unmarshal s =
     (case parse_value (Suc (length s)) s of
        None \<Rightarrow> None
      | Some (j, rest) \<Rightarrow> if skip_ws rest = [] then Some j else None)"

section \<open>Go maps\<close>

text \<open>A \<open>map[string]any\<close> as an object sorted by key; a later member replaces an earlier one.\<close>

fun put :: "string \<Rightarrow> json \<Rightarrow> (string \<times> json) list \<Rightarrow> (string \<times> json) list" where
  "put k v [] = [(k, v)]"
| "put k v ((k', v') # m) =
     (if k = k' then (k, v) # m else if k < k' then (k, v) # (k', v') # m else (k', v') # put k v m)"

fun to_any :: "json \<Rightarrow> json" where
  "to_any (JArr js) = JArr (map to_any js)"
| "to_any (JObj fs) = JObj (foldl (\<lambda>m (k, v). put k v m) [] (map (\<lambda>(k, v). (k, to_any v)) fs))"
| "to_any j = j"

text \<open>Decoding into a \<open>map[string]any\<close>: \<open>null\<close> leaves it nil.\<close>

definition to_map :: "json \<Rightarrow> (string \<times> json) list option option" where
  "to_map j =
     (case to_any j of
        JObj m \<Rightarrow> Some (Some m)
      | JNull \<Rightarrow> Some None
      | _ \<Rightarrow> None)"

section \<open>Strings round trip\<close>

lemma utf8_size_cases: "utf8_size b \<in> {1, 2, 3, 4}"
  by (simp add: utf8_size_def)

lemma rune_width_iff:
  assumes "2 \<le> k"
  shows "rune_width s = k \<longleftrightarrow> s \<noteq> [] \<and> utf8_size (byte_at s 0) = k \<and> k \<le> length s \<and>
    utf8_accept (byte_at s 0) (byte_at s 1) \<and> (3 \<le> k \<longrightarrow> utf8_cont (byte_at s 2)) \<and> (4 \<le> k \<longrightarrow> utf8_cont (byte_at s 3))"
proof -
  define n where "n = utf8_size (byte_at s 0)"
  have "n = 1 \<or> n = 2 \<or> n = 3 \<or> n = 4" using utf8_size_cases [of "byte_at s 0"] by (simp add: n_def)
  then show ?thesis
    unfolding rune_width_def n_def [symmetric] Let_def
    by (elim disjE) (use assms in auto)
qed

lemma rune_width_chunk:
  assumes "2 \<le> rune_width s"
  shows "rune_width (take (rune_width s) s @ t) = rune_width s"
proof -
  let ?w = "rune_width s"
  have r: "s \<noteq> [] \<and> utf8_size (byte_at s 0) = ?w \<and> ?w \<le> length s \<and>
    utf8_accept (byte_at s 0) (byte_at s 1) \<and> (3 \<le> ?w \<longrightarrow> utf8_cont (byte_at s 2)) \<and> (4 \<le> ?w \<longrightarrow> utf8_cont (byte_at s 3))"
    using rune_width_iff [OF assms, of s] by simp
  have at: "byte_at (take ?w s @ t) i = byte_at s i" if "i < ?w" for i
    using that r by (simp add: byte_at_def nth_append)
  have 0: "byte_at (take ?w s @ t) 0 = byte_at s 0" and 1: "byte_at (take ?w s @ t) 1 = byte_at s 1"
    using assms by (intro at; simp)+
  have 2: "3 \<le> ?w \<Longrightarrow> byte_at (take ?w s @ t) 2 = byte_at s 2" and 3: "4 \<le> ?w \<Longrightarrow> byte_at (take ?w s @ t) 3 = byte_at s 3"
    by (intro at; simp)+
  show ?thesis unfolding rune_width_iff [OF assms] using r 0 1 2 3 by auto
qed

lemma rune_width_Nil [simp]: "rune_width [] = 0"
  by (simp add: rune_width_def)

lemma hd_wide:
  assumes "2 \<le> rune_width s"
  shows "0x80 \<le> (of_char (hd s) :: nat)"
proof (rule ccontr)
  assume "\<not> 0x80 \<le> (of_char (hd s) :: nat)"
  with assms rune_width_ascii [of "hd s" "tl s"] show False by (cases s) auto
qed

lemma hex_value_digit: "d < 16 \<Longrightarrow> hex_value (hex_digit d) = Some d"
  by (simp add: hex_value_def hex_digit_def Let_def)

lemma hex4_value:
  assumes "n < (65536 :: nat)"
  shows "4096 * (n div 4096 mod 16) + 256 * (n div 256 mod 16) + 16 * (n div 16 mod 16) + n mod 16 = n"
proof -
  define a b c where "a = n div 16" and "b = a div 16" and "c = b div 16"
  have d: "n div 256 = b" "n div 4096 = c" unfolding a_def b_def c_def by (simp_all add: div_mult2_eq [symmetric])
  have "c < 16" unfolding d(2) [symmetric] using assms by (intro less_mult_imp_div_less) simp
  then have "c mod 16 = c" by (rule mod_less)
  moreover have "16 * a + n mod 16 = n" "16 * b + a mod 16 = a" "16 * c + b mod 16 = b"
    by (simp_all add: a_def b_def c_def)
  ultimately show ?thesis unfolding d a_def [symmetric] by linarith
qed

lemma getu4_escape_u:
  assumes "n < 65536"
  shows "getu4 (escape_u n @ t) = Some n"
proof -
  have digits: "hex_value (hex_digit (m mod 16)) = Some (m mod 16)" for m by (rule hex_value_digit) simp
  show ?thesis unfolding getu4_def escape_u_def hex4_def append_Cons append_Nil list.case digits option.case prod.case
    by (simp only: hex4_value [OF assms] simp_thms if_True)
qed

lemma length_escape_u [simp]: "length (escape_u n) = 6"
  by (simp add: escape_u_def hex4_def)

lemma quote_char_codes [simp]: "of_char backslash = (92 :: nat)" "of_char dquote = (34 :: nat)" "hd (escape_u n) = backslash"
  by (simp_all add: backslash_def dquote_def escape_u_def)

lemma unescape_u:
  assumes "n < 65536" and "\<not> is_surrogate n"
  shows "unescape (escape_u n @ t) = Some (utf8_encode n, 6)"
  using getu4_escape_u [OF assms(1), of t] assms(2)
  by (simp add: unescape_def escape_u_def [of n] Let_def)

text \<open>A chunk of the encoding, scanned.\<close>

lemma scan_escape_u:
  assumes "n < 65536" and "\<not> is_surrogate n"
  shows "scan_string (escape_u n @ t) = map_option (\<lambda>(u, rest). (utf8_encode n @ u, rest)) (scan_string t)"
  using unescape_u [OF assms, of t] by (subst scan_string.simps) (simp add: escape_u_def [of n] hex4_def)

lemma scan_safe:
  assumes "32 \<le> (of_char c :: nat)" and "of_char c < (128 :: nat)" and "of_char c \<noteq> (34 :: nat)" and "of_char c \<noteq> (92 :: nat)"
  shows "scan_string (c # t) = map_option (\<lambda>(u, rest). (c # u, rest)) (scan_string t)"
  using assms by (subst scan_string.simps) simp

lemma scan_wide:
  assumes "2 \<le> rune_width s"
  shows "scan_string (take (rune_width s) s @ t) =
    map_option (\<lambda>(u, rest). (take (rune_width s) s @ u, rest)) (scan_string t)"
proof -
  let ?c = "take (rune_width s) s"
  have len: "rune_width s \<le> length s" by (rule rune_width_le)
  have "?c \<noteq> []" and "hd (?c @ t) = hd s" using assms len by (cases s; auto)+
  moreover have "rune_width (?c @ t) = rune_width s" by (rule rune_width_chunk [OF assms])
  ultimately show ?thesis using assms hd_wide [OF assms] len by (subst scan_string.simps) (simp add: Let_def min_absorb2)
qed

lemma scan_two:
  assumes "unescape (backslash # c # t) = Some (b, 2)"
  shows "scan_string (backslash # c # t) = map_option (\<lambda>(u, rest). (b @ u, rest)) (scan_string t)"
  using assms by (subst scan_string.simps) simp

lemma scan_escape_ascii:
  assumes "n < 128"
  shows "scan_string (escape_ascii n @ t) = map_option (\<lambda>(u, rest). (char_of n # u, rest)) (scan_string t)"
proof -
  consider "n \<in> {34, 92}" | "n = 8" | "n = 12" | "n = 10" | "n = 13" | "n = 9" | "n \<notin> {34, 92, 8, 12, 10, 13, 9}" by blast
  then show ?thesis
  proof cases
    case 1
    have "of_char (char_of n :: char) = n" using assms by (simp add: of_char_of)
    with 1 have "unescape (backslash # char_of n # t) = Some ([char_of n], 2)" by (auto simp: unescape_def Let_def)
    from scan_two [OF this] show ?thesis using 1 by (simp add: escape_ascii_def)
  next
    case 7
    then have "escape_ascii n = escape_u n" by (simp add: escape_ascii_def)
    moreover have "utf8_encode n = [char_of n]" using assms by (simp add: utf8_encode_def)
    ultimately show ?thesis using assms scan_escape_u [of n t] by (simp add: is_surrogate_def)
  qed (simp_all add: escape_ascii_def scan_two [where b = "[char_of (8 :: nat)]"] scan_two [where b = "[char_of (12 :: nat)]"]
      scan_two [where b = "[char_of (10 :: nat)]"] scan_two [where b = "[char_of (13 :: nat)]"]
      scan_two [where b = "[char_of (9 :: nat)]"] unescape_def Let_def)
qed

lemma utf8_replacement: "utf8_encode 0xFFFD = replacement" "utf8_encode 0x2028 = [CHR 0xE2, CHR 0x80, CHR 0xA8]"
  "utf8_encode 0x2029 = [CHR 0xE2, CHR 0x80, CHR 0xA9]"
  by (simp_all add: utf8_encode_def replacement_def char_of_def bit_0)

text \<open>What is encoded is read back, with every invalid byte replaced.\<close>

lemma scan_encode_chars: "scan_string (encode_chars html s @ dquote # rest) = Some (coerce s, rest)"
proof (induction html s rule: encode_chars.induct)
  case (1 html s)
  show ?case
  proof (cases "s = []")
    case True
    then show ?thesis by (simp add: encode_chars.simps coerce.simps scan_string.simps [of "dquote # rest"])
  next
    case ne: False
    let ?n = "of_char (hd s) :: nat" and ?w = "rune_width s"
    show ?thesis
    proof (cases "?n < 0x80")
      case ascii: True
      then have w: "?w = 1" using rune_width_ascii [of "hd s" "tl s"] ne by simp
      have co: "coerce s = hd s # coerce (tl s)" using ne ascii w by (subst coerce.simps) (cases s; simp)
      have IH: "scan_string (encode_chars html (tl s) @ dquote # rest) = Some (coerce (tl s), rest)"
        by (rule "1.IH" (1)) (use ne ascii in simp_all)
      show ?thesis
      proof (cases "json_safe html ?n")
        case True
        then show ?thesis using ne ascii IH co
          by (subst encode_chars.simps) (simp add: Let_def scan_safe json_safe_def)
      next
        case False
        then show ?thesis using ne ascii IH co
          by (subst encode_chars.simps) (simp add: Let_def scan_escape_ascii)
      qed
    next
      case wide: False
      have IH1: "scan_string (encode_chars html (tl s) @ dquote # rest) = Some (coerce (tl s), rest)" if "?w = 1"
        by (rule "1.IH" (2)) (use ne wide that in simp_all)
      show ?thesis
      proof (cases "?w = 1")
        case True
        then have "coerce s = replacement @ coerce (tl s)" using ne wide by (subst coerce.simps) simp
        then show ?thesis using ne wide True IH1
          by (subst encode_chars.simps) (simp add: Let_def scan_escape_u is_surrogate_def utf8_replacement)
      next
        case False
        then have w: "2 \<le> ?w" using rune_width_pos [OF ne] by simp
        have co: "coerce s = take ?w s @ coerce (drop ?w s)" using ne False by (subst coerce.simps) simp
        have IH: "scan_string (encode_chars html (drop ?w s) @ dquote # rest) = Some (coerce (drop ?w s), rest)"
          using "1.IH" (3-5) ne wide False by blast
        have esc: "scan_string (escape_u n @ encode_chars html (drop ?w s) @ dquote # rest) = Some (coerce s, rest)"
          if "take ?w s = utf8_encode n" "n < 65536" "\<not> is_surrogate n" for n
          using that scan_escape_u [of n] IH co by simp
        consider "take ?w s = [CHR 0xE2, CHR 0x80, CHR 0xA8]" | "take ?w s = [CHR 0xE2, CHR 0x80, CHR 0xA9]"
          | "take ?w s \<noteq> [CHR 0xE2, CHR 0x80, CHR 0xA8]" "take ?w s \<noteq> [CHR 0xE2, CHR 0x80, CHR 0xA9]" by blast
        then show ?thesis
        proof cases
          case 1
          then have "encode_chars html s = escape_u 0x2028 @ encode_chars html (drop ?w s)"
            using ne wide False by (subst encode_chars.simps) (simp add: Let_def)
          with esc [of "0x2028"] 1 show ?thesis by (simp add: utf8_replacement is_surrogate_def)
        next
          case 2
          then have "encode_chars html s = escape_u 0x2029 @ encode_chars html (drop ?w s)"
            using ne wide False by (subst encode_chars.simps) (simp add: Let_def)
          with esc [of "0x2029"] 2 show ?thesis by (simp add: utf8_replacement is_surrogate_def)
        next
          case 3
          then have "encode_chars html s = take ?w s @ encode_chars html (drop ?w s)"
            using ne wide False by (subst encode_chars.simps) (simp add: Let_def)
          then show ?thesis using scan_wide [OF w] IH co by simp
        qed
      qed
    qed
  qed
qed

lemma scan_encode_string: "encode_string html s @ rest = dquote # encode_chars html s @ dquote # rest"
  by (simp add: encode_string_def)

section \<open>Values round trip\<close>

definition num_end :: "string \<Rightarrow> bool" where
  "num_end rest \<longleftrightarrow> (case rest of [] \<Rightarrow> True | c # _ \<Rightarrow> \<not> is_digit c \<and> c \<noteq> CHR ''.'' \<and> c \<noteq> CHR ''e'' \<and> c \<noteq> CHR ''E'')"

definition valid_number :: "string \<Rightarrow> bool" where
  "valid_number n \<longleftrightarrow> scan_number n = Some (n, [])"

fun valid_json :: "json \<Rightarrow> bool" where
  "valid_json (JNum n) = valid_number n"
| "valid_json (JArr js) = list_all valid_json js"
| "valid_json (JObj fs) = list_all (\<lambda>(k, v). valid_json v) fs"
| "valid_json j = True"

text \<open>A document with its strings made valid UTF-8.\<close>

fun clean :: "json \<Rightarrow> json" where
  "clean (JStr s) = JStr (coerce s)"
| "clean (JArr js) = JArr (map clean js)"
| "clean (JObj fs) = JObj (map (\<lambda>(k, v). (coerce k, clean v)) fs)"
| "clean j = j"

lemma scan_digits_append:
  "scan_digits s = Some (a, b) \<Longrightarrow> (b = [] \<Longrightarrow> num_end rest) \<Longrightarrow> scan_digits (s @ rest) = Some (a, b @ rest)"
proof -
  assume d: "scan_digits s = Some (a, b)" and e: "b = [] \<Longrightarrow> num_end rest"
  then have a: "a = takeWhile is_digit s" "a \<noteq> []" "b = dropWhile is_digit s"
    by (auto simp: scan_digits_def Let_def dropWhile_eq_drop split: if_splits)
  have "takeWhile is_digit (s @ rest) = a"
  proof (cases "b = []")
    case True
    then have "\<forall>x \<in> set s. is_digit x" using a(3) by (simp add: dropWhile_eq_Nil_conv)
    moreover have "takeWhile is_digit rest = []" using e [OF True] by (cases rest) (auto simp: num_end_def)
    ultimately show ?thesis using a(1) by (simp add: takeWhile_append2 takeWhile_eq_all_conv [THEN iffD2])
  next
    case False
    then obtain x where "x \<in> set s" "\<not> is_digit x" using a(3) by (metis dropWhile_eq_Nil_conv)
    then show ?thesis using a(1) by simp
  qed
  moreover have "s = a @ b" using a by simp
  ultimately show "scan_digits (s @ rest) = Some (a, b @ rest)" using a(2) by (simp add: scan_digits_def Let_def)
qed

lemma scan_int_append:
  "scan_int s = Some (a, b) \<Longrightarrow> (b = [] \<Longrightarrow> num_end rest) \<Longrightarrow> scan_int (s @ rest) = Some (a, b @ rest)"
  using scan_digits_append [of s a b rest] by (cases s) (auto simp: scan_int_def split: if_splits)

lemma scan_frac_append:
  "scan_frac s = Some (a, b) \<Longrightarrow> (b = [] \<Longrightarrow> num_end rest) \<Longrightarrow> scan_frac (s @ rest) = Some (a, b @ rest)"
proof (cases s)
  case Nil
  assume "scan_frac s = Some (a, b)" and "b = [] \<Longrightarrow> num_end rest"
  with Nil show ?thesis by (cases rest) (auto simp: scan_frac_def num_end_def)
next
  case (Cons c r)
  assume "scan_frac s = Some (a, b)" and "b = [] \<Longrightarrow> num_end rest"
  with Cons scan_digits_append [of r _ b rest] show ?thesis by (auto simp: scan_frac_def split: if_splits)
qed

lemma scan_exp_append:
  "scan_exp s = Some (a, b) \<Longrightarrow> (b = [] \<Longrightarrow> num_end rest) \<Longrightarrow> scan_exp (s @ rest) = Some (a, b @ rest)"
proof (cases s)
  case Nil
  assume "scan_exp s = Some (a, b)" and "b = [] \<Longrightarrow> num_end rest"
  with Nil show ?thesis by (cases rest) (auto simp: scan_exp_def num_end_def)
next
  case (Cons c r)
  assume e: "scan_exp s = Some (a, b)" and n: "b = [] \<Longrightarrow> num_end rest"
  show ?thesis
  proof (cases "c = CHR ''e'' \<or> c = CHR ''E''")
    case True
    with e Cons obtain d r' where r: "r = d # r'" by (cases r) (auto simp: scan_exp_def)
    show ?thesis using e n Cons True r scan_digits_append [of r' _ b rest] scan_digits_append [of r _ b rest]
      by (auto simp: scan_exp_def split: if_splits)
  qed (use e Cons in \<open>auto simp: scan_exp_def\<close>)
qed

lemma scan_unsigned_append:
  assumes "scan_unsigned s = Some (a, b)" and "b = [] \<Longrightarrow> num_end rest"
  shows "scan_unsigned (s @ rest) = Some (a, b @ rest)"
proof -
  obtain i s1 f s2 e where 1: "scan_int s = Some (i, s1)" and 2: "scan_frac s1 = Some (f, s2)"
    and 3: "scan_exp s2 = Some (e, b)" and a: "a = i @ f @ e"
    using assms(1) by (auto simp: scan_unsigned_def split: option.splits)
  have "s1 = [] \<Longrightarrow> s2 = []" using 2 by (auto simp: scan_frac_def)
  moreover have b: "s2 = [] \<Longrightarrow> b = []" using 3 by (auto simp: scan_exp_def)
  ultimately have "s1 = [] \<Longrightarrow> b = []" by simp
  with b show ?thesis
    using scan_int_append [OF 1, of rest] scan_frac_append [OF 2, of rest] scan_exp_append [OF 3 assms(2)] assms(2)
    by (simp add: scan_unsigned_def a)
qed

lemma scan_number_append:
  assumes "valid_number n" and "num_end rest"
  shows "scan_number (n @ rest) = Some (n, rest)"
  using assms scan_unsigned_append [of n n "[]" rest] scan_unsigned_append [of "tl n" "tl n" "[]" rest]
  by (cases n) (auto simp: valid_number_def scan_number_def split: if_splits)

lemma valid_number_head:
  assumes "valid_number n"
  obtains c t where "n = c # t" "c = CHR ''-'' \<or> is_digit c"
proof -
  have zero: "is_digit (CHR ''0'')" by (simp add: is_digit_def)
  have d: "is_digit c" if "scan_unsigned (c # t) \<noteq> None" for c t
    using that zero by (auto simp: scan_unsigned_def scan_int_def scan_digits_def Let_def split: option.splits if_splits)
  show ?thesis using assms that d by (cases n) (auto simp: valid_number_def scan_number_def split: if_splits)
qed

lemma skip_ws_head [simp]: "\<not> is_ws c \<Longrightarrow> skip_ws (c # t) = c # t"
  by (simp add: skip_ws_def)

lemma not_ws [simp]: "\<not> is_ws dquote" "\<not> is_ws (CHR ''['')" "\<not> is_ws (CHR '']'')" "\<not> is_ws (CHR ''{'')" "\<not> is_ws (CHR ''}'')"
  "\<not> is_ws (CHR '','')" "\<not> is_ws (CHR '':'')" "\<not> is_ws (CHR ''n'')" "\<not> is_ws (CHR ''t'')" "\<not> is_ws (CHR ''f'')"
  by (simp_all add: is_ws_def dquote_def)

lemma num_end_punct [simp]: "num_end []" "num_end (CHR '','' # t)" "num_end (CHR '']'' # t)" "num_end (CHR ''}'' # t)"
  by (simp_all add: num_end_def is_digit_def)

lemma dquote_distinct [simp]: "CHR ''['' \<noteq> dquote" "CHR ''{'' \<noteq> dquote" "CHR ''n'' \<noteq> dquote" "CHR ''t'' \<noteq> dquote" "CHR ''f'' \<noteq> dquote"
  "dquote \<noteq> CHR '']''" "dquote \<noteq> CHR ''}''" "dquote \<noteq> CHR ''-''"
  by (simp_all add: dquote_def char_of_def bit_0)

text \<open>The first character of a value: no white space, and no closing bracket.\<close>

lemma encode_head:
  assumes "valid_json j"
  obtains c t where "encode_json html j = c # t" "\<not> is_ws c" "c \<noteq> CHR '']''"
proof (cases j)
  case (JNum n)
  with assms obtain c t where n: "n = c # t" "c = CHR ''-'' \<or> is_digit c" by (auto elim: valid_number_head)
  then have "\<not> is_ws c" "c \<noteq> CHR '']''" by (auto simp: is_ws_def is_digit_def)
  with n JNum that show ?thesis by simp
next
  case (JBool b)
  with that show ?thesis by (cases b) simp_all
qed (use that in \<open>simp_all add: encode_string_def\<close>)

lemma literal_number:
  assumes "valid_number n" and "num_end rest"
  shows "scan_literal (n @ rest) = Some (JNum n, rest)"
proof -
  obtain c t where n: "n = c # t" and c: "c = CHR ''-'' \<or> is_digit c" by (rule valid_number_head [OF assms(1)])
  then have "c \<noteq> CHR ''n''" "c \<noteq> CHR ''t''" "c \<noteq> CHR ''f''" by (auto simp: is_digit_def)
  with scan_number_append [OF assms] show ?thesis by (simp add: scan_literal_def n)
qed

fun need :: "json \<Rightarrow> nat" and need_list :: "json list \<Rightarrow> nat" and need_fields :: "(string \<times> json) list \<Rightarrow> nat" where
  "need (JArr js) = Suc (need_list js)"
| "need (JObj fs) = Suc (need_fields fs)"
| "need j = 1"
| "need_list [] = 0"
| "need_list (j # js) = Suc (max (need j) (need_list js))"
| "need_fields [] = 0"
| "need_fields (x # fs) = Suc (max (need (snd x)) (need_fields fs))"

lemma parse_elems_encode:
  assumes "js \<noteq> []" and "need_list js \<le> f" and "list_all valid_json js"
    and "\<And>j f rest. j \<in> set js \<Longrightarrow> need j \<le> f \<Longrightarrow> num_end rest \<Longrightarrow>
      parse_value f (encode_json html j @ rest) = Some (clean j, rest)"
  shows "parse_elems f (join_with (CHR '','') (map (encode_json html) js) @ CHR '']'' # rest) = Some (map clean js, rest)"
  using assms
proof (induction js arbitrary: f)
  case (Cons j js)
  then obtain f' where f: "f = Suc f'" "need j \<le> f'" "need_list js \<le> f'" by (cases f) auto
  show ?case
  proof (cases js)
    case Nil
    have "parse_value f' (encode_json html j @ CHR '']'' # rest) = Some (clean j, CHR '']'' # rest)"
      using Cons.prems(4) f(2) by simp
    then show ?thesis by (simp add: f(1) Nil)
  next
    case (Cons k ks)
    let ?tail = "join_with (CHR '','') (map (encode_json html) js) @ CHR '']'' # rest"
    have "parse_value f' (encode_json html j @ CHR '','' # ?tail) = Some (clean j, CHR '','' # ?tail)"
      using Cons.prems(4) f(2) by simp
    moreover have "parse_elems f' ?tail = Some (map clean js, rest)"
      using Cons.IH [of f'] Cons.prems f(3) Cons by simp
    ultimately show ?thesis by (simp add: f(1) Cons)
  qed
qed simp

abbreviation encode_member :: "bool \<Rightarrow> string \<times> json \<Rightarrow> string" where
  "encode_member html \<equiv> \<lambda>(k, v). encode_string html k @ CHR '':'' # encode_json html v"

lemma parse_fields_encode:
  assumes "fs \<noteq> []" and "need_fields fs \<le> f" and "list_all (\<lambda>(k, v). valid_json v) fs"
    and "\<And>k v f rest. (k, v) \<in> set fs \<Longrightarrow> need v \<le> f \<Longrightarrow> num_end rest \<Longrightarrow>
      parse_value f (encode_json html v @ rest) = Some (clean v, rest)"
  shows "parse_fields f (join_with (CHR '','') (map (encode_member html) fs) @ CHR ''}'' # rest) =
    Some (map (\<lambda>(k, v). (coerce k, clean v)) fs, rest)"
  using assms
proof (induction fs arbitrary: f)
  case (Cons x fs)
  obtain k v where x: "x = (k, v)" by (cases x)
  with Cons obtain f' where f: "f = Suc f'" "need v \<le> f'" "need_fields fs \<le> f'" by (cases f) auto
  show ?case
  proof (cases fs)
    case Nil
    have "parse_value f' (encode_json html v @ CHR ''}'' # rest) = Some (clean v, CHR ''}'' # rest)"
      by (rule Cons.prems(4) [of k]) (use f(2) x in simp_all)
    then show ?thesis by (simp add: f(1) Nil x encode_string_def scan_encode_chars)
  next
    case (Cons y ys)
    let ?tail = "join_with (CHR '','') (map (encode_member html) fs) @ CHR ''}'' # rest"
    have "parse_value f' (encode_json html v @ CHR '','' # ?tail) = Some (clean v, CHR '','' # ?tail)"
      by (rule Cons.prems(4) [of k]) (use f(2) x in simp_all)
    moreover have "parse_fields f' ?tail = Some (map (\<lambda>(k, v). (coerce k, clean v)) fs, rest)"
    proof (rule Cons.IH)
      show "parse_value f (encode_json html v @ rest) = Some (clean v, rest)"
        if "(k, v) \<in> set fs" "need v \<le> f" "num_end rest" for k v f rest
        by (rule Cons.prems(4) [of k]) (use that in simp_all)
    qed (use Cons.prems(3) f(3) Cons in simp_all)
    ultimately show ?thesis by (simp add: f(1) Cons x encode_string_def scan_encode_chars)
  qed
qed simp

lemma join_head:
  assumes "xs \<noteq> []" and "hd xs = c # t"
  obtains t' where "join_with d xs @ u = c # t'"
  using assms by (cases xs; cases "tl xs") auto

lemma parse_encode:
  "valid_json j \<Longrightarrow> need j \<le> f \<Longrightarrow> num_end rest \<Longrightarrow> parse_value f (encode_json html j @ rest) = Some (clean j, rest)"
proof (induction j arbitrary: f rest)
  case JNull
  then obtain f' where "f = Suc f'" by (cases f) auto
  then show ?case by (simp add: scan_literal_def)
next
  case (JBool b)
  then obtain f' where "f = Suc f'" by (cases f) auto
  then show ?case by (cases b) (simp_all add: scan_literal_def)
next
  case (JNum n)
  then obtain f' where f: "f = Suc f'" by (cases f) auto
  from JNum have v: "valid_number n" by simp
  then obtain c t where n: "n = c # t" "c = CHR ''-'' \<or> is_digit c" by (rule valid_number_head)
  then have "\<not> is_ws c" "c \<noteq> dquote" "c \<noteq> CHR ''[''" "c \<noteq> CHR ''{''" by (auto simp: is_ws_def is_digit_def)
  with literal_number [OF v JNum(3)] show ?case by (simp add: f n)
next
  case (JStr s)
  then obtain f' where "f = Suc f'" by (cases f) auto
  then show ?case by (simp add: encode_string_def scan_encode_chars)
next
  case (JArr js)
  then obtain f' where f: "f = Suc f'" "need_list js \<le> f'" by (cases f) auto
  show ?case
  proof (cases "js = []")
    case False
    then obtain j js' where js: "js = j # js'" by (cases js) auto
    with JArr(2) have "valid_json j" by simp
    then obtain c t where c: "encode_json html j = c # t" "\<not> is_ws c" "c \<noteq> CHR '']''" by (rule encode_head)
    have "hd (map (encode_json html) js) = c # t" by (simp add: js c(1))
    with False obtain t' where t': "join_with (CHR '','') (map (encode_json html) js) @ CHR '']'' # rest = c # t'"
      by (metis join_head map_is_Nil_conv)
    have "parse_elems f' (join_with (CHR '','') (map (encode_json html) js) @ CHR '']'' # rest) = Some (map clean js, rest)"
      by (rule parse_elems_encode) (use False f(2) JArr in \<open>auto simp: list_all_iff\<close>)
    then show ?thesis by (simp add: f(1) t' c(2,3))
  qed (simp add: f(1))
next
  case (JObj fs)
  then obtain f' where f: "f = Suc f'" "need_fields fs \<le> f'" by (cases f) auto
  show ?case
  proof (cases "fs = []")
    case False
    then obtain k v fs' where fs: "fs = (k, v) # fs'" by (cases fs) auto
    have "hd (map (encode_member html) fs) = dquote # encode_chars html k @ dquote # CHR '':'' # encode_json html v"
      by (simp add: fs encode_string_def)
    with False obtain t' where t': "join_with (CHR '','') (map (encode_member html) fs) @ CHR ''}'' # rest = dquote # t'"
      by (metis join_head map_is_Nil_conv)
    have "parse_fields f' (join_with (CHR '','') (map (encode_member html) fs) @ CHR ''}'' # rest) =
        Some (map (\<lambda>(k, v). (coerce k, clean v)) fs, rest)"
      by (rule parse_fields_encode) (use False f(2) JObj in \<open>auto simp: list_all_iff\<close>)
    then show ?thesis by (simp add: f(1) t')
  qed (simp add: f(1))
qed

lemma length_join: "xs \<noteq> [] \<Longrightarrow> Suc (length (join_with c xs)) = sum_list (map (\<lambda>x. Suc (length x)) xs)"
  by (induction xs rule: join_with.induct) auto

lemma need_list_le:
  "(\<And>j. j \<in> set js \<Longrightarrow> need j \<le> length (g j)) \<Longrightarrow> need_list js \<le> (sum_list (map (\<lambda>j. Suc (length (g j))) js))"
proof (induction js)
  case (Cons j js)
  have "need j \<le> length (g j)" using Cons.prems by simp
  moreover have "need_list js \<le> (sum_list (map (\<lambda>j. Suc (length (g j))) js))" using Cons by simp
  ultimately show ?case by simp
qed simp

lemma need_fields_le:
  "(\<And>x. x \<in> set fs \<Longrightarrow> need (snd x) \<le> length (g x)) \<Longrightarrow> need_fields fs \<le> (sum_list (map (\<lambda>x. Suc (length (g x))) fs))"
proof (induction fs)
  case (Cons x fs)
  have "need (snd x) \<le> length (g x)" using Cons.prems by simp
  moreover have "need_fields fs \<le> (sum_list (map (\<lambda>x. Suc (length (g x))) fs))" using Cons by simp
  ultimately show ?case by simp
qed simp

lemma need_le_length: "valid_json j \<Longrightarrow> need j \<le> length (encode_json html j)"
proof (induction j)
  case (JNum n)
  then show ?case by (cases n) (auto simp: valid_number_def scan_number_def)
next
  case (JArr js)
  then have "need_list js \<le> (sum_list (map (\<lambda>j. Suc (length (encode_json html j))) js))"
    by (intro need_list_le) (auto simp: list_all_iff)
  then show ?case using length_join [of "map (encode_json html) js" "CHR '',''"] by (cases "js = []") (simp_all add: comp_def)
next
  case (JObj fs)
  have "need_fields fs \<le> (sum_list (map (\<lambda>x. Suc (length (encode_member html x))) fs))"
  proof (rule need_fields_le)
    fix x assume x: "x \<in> set fs"
    obtain k v where kv: "x = (k, v)" by (cases x)
    with JObj x have "need v \<le> length (encode_json html v)" by (auto simp: list_all_iff)
    with kv show "need (snd x) \<le> length (encode_member html x)" by simp
  qed
  then show ?case using length_join [of "map (encode_member html) fs" "CHR '',''"] by (cases "fs = []") (simp_all add: comp_def)
qed (simp_all add: encode_string_def)

theorem unmarshal_encode: "valid_json j \<Longrightarrow> unmarshal (encode_json html j) = Some (clean j)"
  using parse_encode [of j "Suc (length (encode_json html j))" "[]" html] need_le_length [of j html]
  by (simp add: unmarshal_def skip_ws_def)

lemma decode_first_encode:
  assumes "valid_json j" and "num_end rest"
  shows "decode_first (encode_json html j @ rest) = Some (clean j)"
  using parse_encode [OF assms(1) _ assms(2), of "Suc (length (encode_json html j @ rest))" html] need_le_length [OF assms(1), of html]
  by (simp add: decode_first_def)

section \<open>Go maps\<close>

definition sorted_keys :: "(string \<times> 'a) list \<Rightarrow> bool" where
  "sorted_keys m \<longleftrightarrow> sorted_wrt (<) (map fst m)"

fun canonical :: "json \<Rightarrow> bool" where
  "canonical (JArr js) = list_all canonical js"
| "canonical (JObj fs) = (sorted_keys fs \<and> list_all (\<lambda>(k, v). canonical v) fs)"
| "canonical j = True"

lemma put_last: "list_all (\<lambda>x. fst x < k) m \<Longrightarrow> put k v m = m @ [(k, v)]"
  by (induction m) (auto simp: order_less_imp_not_less)

lemma foldl_put_sorted: "sorted_keys (m @ fs) \<Longrightarrow> foldl (\<lambda>m (k, v). put k v m) m fs = m @ fs"
proof (induction fs arbitrary: m)
  case (Cons x fs)
  obtain k v where x: "x = (k, v)" by (cases x)
  from Cons.prems have "list_all (\<lambda>y. fst y < k) m" by (auto simp: sorted_keys_def sorted_wrt_append list_all_iff x)
  then have "put k v m = m @ [(k, v)]" by (rule put_last)
  with Cons x show ?case by simp
qed simp

lemma put_sorted:
  assumes "sorted_keys m"
  shows "sorted_keys (put k v m)" and "fst ` set (put k v m) = insert k (fst ` set m)"
proof -
  show keys: "fst ` set (put k v m) = insert k (fst ` set m)" for m
  proof (induction m)
    case (Cons x m)
    obtain k' v' where x: "x = (k', v')" by (cases x)
    show ?case
    proof (cases "k = k' \<or> k < k'")
      case False
      then have "put k v (x # m) = x # put k v m" by (simp add: x)
      with Cons show ?thesis by (simp add: insert_commute)
    qed (auto simp: x)
  qed simp
  show "sorted_keys (put k v m)" using assms
  proof (induction m)
    case (Cons x m)
    obtain k' v' where x: "x = (k', v')" by (cases x)
    have tl: "sorted_keys m" "\<forall>y \<in> fst ` set m. k' < y" using Cons.prems by (auto simp: sorted_keys_def x)
    consider "k = k'" | "k < k'" | "k' < k" "k \<noteq> k'" by fastforce
    then show ?case
    proof cases
      case 3
      have "\<forall>y \<in> fst ` set (put k v m). k' < y" unfolding keys using tl(2) 3(1) by simp
      with Cons.IH [OF tl(1)] 3 show ?thesis by (auto simp: sorted_keys_def x)
    qed (use Cons.prems tl(2) in \<open>auto simp: sorted_keys_def x\<close>)
  qed (simp add: sorted_keys_def)
qed

lemma map_of_put [simp]: "map_of (put k v m) = (map_of m)(k \<mapsto> v)"
  by (induction m) (auto simp: fun_eq_iff)

lemma put_canonical: "list_all (\<lambda>(k, v). canonical v) m \<Longrightarrow> canonical v \<Longrightarrow> list_all (\<lambda>(k, v). canonical v) (put k v m)"
  by (induction m) auto

lemma foldl_put_canonical:
  assumes "sorted_keys m" "list_all (\<lambda>(k, v). canonical v) m" "list_all (\<lambda>(k, v). canonical v) xs"
  shows "canonical (JObj (foldl (\<lambda>m (k, v). put k v m) m xs))"
  using assms
proof (induction xs arbitrary: m)
  case (Cons x xs)
  obtain k v where x: "x = (k, v)" by (cases x)
  with Cons.prems have "list_all (\<lambda>(k, v). canonical v) (put k v m)" by (intro put_canonical) simp_all
  from Cons.IH [OF put_sorted(1) [OF Cons.prems(1)] this] Cons.prems(3) show ?case by (simp add: x)
qed simp

lemma to_any_canonical [simp]: "canonical (to_any j)"
proof (induction j)
  case (JObj fs)
  have "list_all (\<lambda>(k, v). canonical v) (map (\<lambda>(k, v). (k, to_any v)) fs)" using JObj by (auto simp: list_all_iff)
  from foldl_put_canonical [OF _ _ this, of "[]"] show ?case by (simp add: sorted_keys_def)
qed (simp_all add: list_all_iff)

lemma to_any_id: "canonical j \<Longrightarrow> to_any j = j"
proof (induction j)
  case (JArr js)
  have "map to_any js = js" by (rule map_idI, rule JArr.IH) (use JArr.prems in \<open>simp_all add: list_all_iff\<close>)
  then show ?case by simp
next
  case (JObj fs)
  have "(\<lambda>(k, v). (k, to_any v)) x = x" if x: "x \<in> set fs" for x
  proof -
    obtain k v where kv: "x = (k, v)" by (cases x)
    have "to_any v = v" by (rule JObj.IH [OF x]) (use x kv JObj.prems in \<open>auto simp: list_all_iff\<close>)
    then show ?thesis by (simp add: kv)
  qed
  then have "map (\<lambda>(k, v). (k, to_any v)) fs = fs" by (rule map_idI)
  then show ?case using JObj.prems foldl_put_sorted [of "[]" fs] by simp
qed simp_all

end
