(* ===== verification/ExtraParams.thy ===== *)
theory ExtraParams
  imports GoJson LlmsError
begin

text \<open>
  \<open>llms/providers/internal/extraparams\<close>: the deep merge of \<open>ChatRequest.ProviderParams\<close> into a wire request.
  A \<open>map[string]any\<close> is an object sorted by key; \<open>Merge\<close> returns the map the source updates in place.
  The order in which Go ranges over a map is arbitrary: \<open>map_of_Merge\<close> describes the result by keys
  alone. The HTTP middleware around \<open>MergeJSON\<close> is not modelled.
\<close>

section \<open>Merging\<close>

function Merge :: "(string \<times> json) list \<Rightarrow> (string \<times> json) list \<Rightarrow> (string \<times> json) list" where
  "Merge dst [] = dst"
| "Merge dst ((k, v) # src) =
     Merge (put k (case v of
                     JObj sv \<Rightarrow> (case map_of dst k of Some (JObj dv) \<Rightarrow> JObj (Merge dv sv) | _ \<Rightarrow> v)
                   | _ \<Rightarrow> v) dst) src"
  by pat_completeness auto
termination
  by (relation "measure (\<lambda>(dst, src). size_list (size_prod (\<lambda>_. 0) size) src)") auto

definition merge_value :: "json option \<Rightarrow> json \<Rightarrow> json" where
  "merge_value d v = (case v of JObj sv \<Rightarrow> (case d of Some (JObj dv) \<Rightarrow> JObj (Merge dv sv) | _ \<Rightarrow> v) | _ \<Rightarrow> v)"

fun Overrides :: "(string \<times> json) list \<Rightarrow> string list \<Rightarrow> bool" where
  "Overrides m [] = False"
| "Overrides m (k # path) =
     (case map_of m k of
        None \<Rightarrow> False
      | Some v \<Rightarrow> path = [] \<or> (case v of JObj sub \<Rightarrow> Overrides sub path | _ \<Rightarrow> True))"

definition For :: "chat_request \<Rightarrow> provider_id \<Rightarrow> error + (string \<times> json) list option" where
  "For req p =
     (case cr_ProviderParams req p of
        None \<Rightarrow> Inr None
      | Some src \<Rightarrow>
          if src = [] then Inr None
          else if \<not> valid_json (JObj src)
            then Inl (Wrapped (''ProviderParams['' @ quote p @ ''] does not marshal to JSON'') [Wrapped ''json'' []])
          else (case decode_first (encode_json True (JObj src)) of
            Some j \<Rightarrow> (case to_map j of Some (Some m) \<Rightarrow> Inr (Some m)
                       | _ \<Rightarrow> Inl (Wrapped (''ProviderParams['' @ quote p @ '']'') [Wrapped ''decoding JSON'' []]))
          | None \<Rightarrow> Inl (Wrapped (''ProviderParams['' @ quote p @ '']'') [Wrapped ''decoding JSON'' []])))"

definition MergeJSON :: "string \<Rightarrow> (string \<times> json) list \<Rightarrow> error + string" where
  "MergeJSON body src =
     (case (case decode_first body of None \<Rightarrow> None | Some j \<Rightarrow> to_map j) of
        None \<Rightarrow> Inl (Wrapped ''request body is not a JSON object'' [Wrapped ''decoding JSON'' []])
      | Some dst \<Rightarrow> Inr (encode_json False (JObj (Merge (case dst of None \<Rightarrow> [] | Some m \<Rightarrow> m) src))))"

section \<open>Facts\<close>

lemma Merge_Cons: "Merge dst ((k, v) # src) = Merge (put k (merge_value (map_of dst k) v) dst) src"
  by (simp add: merge_value_def)

declare Merge.simps(2) [simp del]
lemmas Merge_simps [simp] = Merge_Cons

lemma merge_value_simps [simp]:
  "merge_value d JNull = JNull" "merge_value d (JBool b) = JBool b" "merge_value d (JNum n) = JNum n"
  "merge_value d (JStr t) = JStr t" "merge_value d (JArr js) = JArr js"
  "merge_value (Some (JObj dv)) (JObj sv) = JObj (Merge dv sv)" "merge_value None (JObj sv) = JObj sv"
  by (simp_all add: merge_value_def)

lemma merge_value_replaces: "(\<And>m. d \<noteq> JObj m) \<Longrightarrow> merge_value (Some d) v = v"
  by (cases v; cases d) (auto simp: merge_value_def)

text \<open>The merge by keys: independent of the order of the source.\<close>

lemma map_of_Merge:
  assumes "distinct (map fst src)"
  shows "map_of (Merge dst src) k =
    (case map_of src k of None \<Rightarrow> map_of dst k | Some v \<Rightarrow> Some (merge_value (map_of dst k) v))"
  using assms
proof (induction src arbitrary: dst)
  case (Cons x src)
  obtain k' v where x: "x = (k', v)" by (cases x)
  with Cons.prems have "map_of src k' = None" by (auto simp: map_of_eq_None_iff)
  then show ?case using Cons by (auto simp: x split: option.split)
qed simp

lemma Merge_sorted: "sorted_keys dst \<Longrightarrow> sorted_keys (Merge dst src)"
proof (induction src arbitrary: dst)
  case (Cons x src)
  then show ?case by (cases x) (simp add: put_sorted)
qed simp

lemma sorted_keys_distinct: "sorted_keys m \<Longrightarrow> distinct (map fst m)"
  unfolding sorted_keys_def by (induction m) auto

text \<open>A property of documents that is one of the members of an object is kept.\<close>

lemma Merge_keeps:
  assumes Q: "\<And>m. Q (JObj m) \<longleftrightarrow> B m \<and> list_all (\<lambda>(k, v). A k \<and> Q v) m"
    and B: "\<And>k v m. B m \<Longrightarrow> B (put k v m)" "\<And>x m. B (x # m) \<Longrightarrow> B m"
  shows "Q (JObj dst) \<Longrightarrow> Q (JObj src) \<Longrightarrow> Q (JObj (Merge dst src))"
proof (induction dst src rule: Merge.induct)
  case (2 dst k v src)
  have put: "list_all (\<lambda>(k, v). A k \<and> Q v) (put k v m)" if "list_all (\<lambda>(k, v). A k \<and> Q v) m" "A k" "Q v" for k v m
    using that by (induction m) auto
  have kv: "A k" "Q v" and src: "Q (JObj src)" and dst: "B dst" "list_all (\<lambda>(k, v). A k \<and> Q v) dst"
    using "2.prems" Q [of "(k, v) # src"] Q [of dst] Q [of src] B(2) by auto
  have "Q (merge_value (map_of dst k) v)"
  proof (cases "\<exists>sv dv. v = JObj sv \<and> map_of dst k = Some (JObj dv)")
    case True
    then obtain sv dv where sv: "v = JObj sv" and dv: "map_of dst k = Some (JObj dv)" by blast
    then have "Q (JObj dv)" using dst(2) by (auto simp: list_all_iff dest: map_of_SomeD)
    from "2.IH" (1) [OF sv dv refl this] kv(2) sv dv show ?thesis by simp
  next
    case False
    then have "merge_value (map_of dst k) v = v"
      by (cases "map_of dst k"; cases v) (auto intro: merge_value_replaces)
    with kv show ?thesis by simp
  qed
  then have "Q (JObj (put k (merge_value (map_of dst k) v) dst))" using Q B(1) [OF dst(1)] put [OF dst(2) kv(1)] by blast
  from "2.IH" (2) [folded merge_value_def, OF this src] show ?case by simp
qed simp

fun utf8_json :: "json \<Rightarrow> bool" where
  "utf8_json (JStr s) = valid_utf8 s"
| "utf8_json (JArr js) = list_all utf8_json js"
| "utf8_json (JObj fs) = list_all (\<lambda>(k, v). valid_utf8 k \<and> utf8_json v) fs"
| "utf8_json j = True"

lemma clean_utf8: "utf8_json j \<Longrightarrow> clean j = j"
proof (induction j)
  case (JArr js)
  have "map clean js = js" by (rule map_idI, rule JArr.IH) (use JArr.prems in \<open>simp_all add: list_all_iff\<close>)
  then show ?case by simp
next
  case (JObj fs)
  have "(\<lambda>(k, v). (coerce k, clean v)) x = x" if x: "x \<in> set fs" for x
  proof -
    obtain k v where kv: "x = (k, v)" by (cases x)
    have "clean v = v" by (rule JObj.IH [OF x]) (use x kv JObj.prems in \<open>auto simp: list_all_iff\<close>)
    moreover have "valid_utf8 k" using x kv JObj.prems by (auto simp: list_all_iff)
    ultimately show ?thesis by (simp add: kv valid_utf8_def)
  qed
  then have "map (\<lambda>(k, v). (coerce k, clean v)) fs = fs" by (rule map_idI)
  then show ?case by simp
qed (simp_all add: valid_utf8_def)

text \<open>A Go map that marshals to JSON, with its text in UTF-8.\<close>

definition json_map :: "(string \<times> json) list \<Rightarrow> bool" where
  "json_map m \<longleftrightarrow> canonical (JObj m) \<and> valid_json (JObj m) \<and> utf8_json (JObj m)"

lemma json_map_Merge: "json_map dst \<Longrightarrow> json_map src \<Longrightarrow> json_map (Merge dst src)"
  unfolding json_map_def
proof (intro conjI; elim conjE)
  show "canonical (JObj dst) \<Longrightarrow> canonical (JObj src) \<Longrightarrow> canonical (JObj (Merge dst src))"
    by (rule Merge_keeps [where Q = canonical and B = sorted_keys and A = "\<lambda>_. True"])
      (simp_all add: put_sorted, simp add: sorted_keys_def)
  show "valid_json (JObj dst) \<Longrightarrow> valid_json (JObj src) \<Longrightarrow> valid_json (JObj (Merge dst src))"
    by (rule Merge_keeps [where Q = valid_json and B = "\<lambda>_. True" and A = "\<lambda>_. True"]) simp_all
  show "utf8_json (JObj dst) \<Longrightarrow> utf8_json (JObj src) \<Longrightarrow> utf8_json (JObj (Merge dst src))"
    by (rule Merge_keeps [where Q = utf8_json and B = "\<lambda>_. True" and A = valid_utf8]) simp_all
qed

lemma decode_json_map:
  assumes "json_map m"
  shows "decode_first (encode_json html (JObj m)) = Some (JObj m)" "to_map (JObj m) = Some (Some m)"
proof -
  have "clean (JObj m) = JObj m" using assms unfolding json_map_def by (blast intro: clean_utf8)
  then show "decode_first (encode_json html (JObj m)) = Some (JObj m)"
    using decode_first_encode [of "JObj m" "[]" html] assms by (simp only: json_map_def append_Nil2 num_end_punct)
  have "to_any (JObj m) = JObj m" using assms unfolding json_map_def by (blast intro: to_any_id)
  then show "to_map (JObj m) = Some (Some m)" by (simp only: to_map_def json.case)
qed

section \<open>Properties\<close>

fun lookup :: "json \<Rightarrow> string list \<Rightarrow> json option" where
  "lookup j [] = Some j"
| "lookup (JObj m) (k # path) = (case map_of m k of None \<Rightarrow> None | Some v \<Rightarrow> lookup v path)"
| "lookup _ (k # path) = None"

lemma lookup_leaf: "(\<And>m. j \<noteq> JObj m) \<Longrightarrow> path \<noteq> [] \<Longrightarrow> lookup j path = None"
  by (cases j; cases path) auto

lemma not_overridden_unset: "\<not> Overrides m path \<Longrightarrow> path \<noteq> [] \<Longrightarrow> lookup (JObj m) path = None"
proof (induction m path rule: Overrides.induct)
  case (2 m k path)
  show ?case
  proof (cases "map_of m k")
    case (Some v)
    with "2.prems" obtain sub where v: "v = JObj sub" "path \<noteq> []" "\<not> Overrides sub path"
      by (cases v) (auto split: if_splits)
    from "2.IH" [OF Some v(1) v(3,2)] show ?thesis by (simp add: Some v)
  qed simp
qed simp

lemma canonical_member: "canonical (JObj m) \<Longrightarrow> map_of m k = Some v \<Longrightarrow> canonical v"
  by (drule map_of_SomeD) (fastforce simp: list_all_iff)

lemma not_overridden:
  assumes "canonical (JObj src)" and "\<not> Overrides src path" and "path \<noteq> []"
  shows "lookup (JObj (Merge dst src)) path = lookup (JObj dst) path"
  using assms
proof (induction src path arbitrary: dst rule: Overrides.induct)
  case (2 src k path)
  have d: "distinct (map fst src)" using "2.prems"(1) by (simp add: sorted_keys_distinct)
  show ?case
  proof (cases "map_of src k")
    case None
    then show ?thesis by (simp add: map_of_Merge [OF d])
  next
    case (Some v)
    with "2.prems"(2) obtain sub where v: "v = JObj sub" "path \<noteq> []" "\<not> Overrides sub path"
      by (cases v) (auto split: if_splits)
    have sub: "canonical (JObj sub)" using canonical_member [OF "2.prems"(1) Some] v(1) by simp
    have unset: "lookup (JObj sub) path = None" by (rule not_overridden_unset [OF v(3,2)])
    show ?thesis
    proof (cases "map_of dst k")
      case None
      with unset show ?thesis by (simp add: map_of_Merge [OF d] Some v)
    next
      case dk: (Some w)
      show ?thesis
      proof (cases "\<exists>dv. w = JObj dv")
        case True
        then obtain dv where w: "w = JObj dv" by blast
        have "lookup (JObj (Merge dv sub)) path = lookup (JObj dv) path"
          by (rule "2.IH" [OF Some v(1) sub v(3,2)])
        then show ?thesis by (simp add: map_of_Merge [OF d] Some v dk w)
      next
        case False
        then have "lookup w path = None" "merge_value (Some w) v = v"
          using lookup_leaf [of w path] v(2) merge_value_replaces by auto
        with unset show ?thesis by (simp add: map_of_Merge [OF d] Some dk) (simp add: v)
      qed
    qed
  qed
qed simp

lemma overridden:
  assumes "canonical (JObj src)" and "Overrides src path"
  shows "case lookup (JObj src) path of
      None \<Rightarrow> lookup (JObj (Merge dst src)) path = None
    | Some v \<Rightarrow> lookup (JObj (Merge dst src)) path = Some (merge_value (lookup (JObj dst) path) v)"
  using assms
proof (induction src path arbitrary: dst rule: Overrides.induct)
  case (2 src k path)
  have d: "distinct (map fst src)" using "2.prems"(1) by (simp add: sorted_keys_distinct)
  from "2.prems"(2) obtain v where v: "map_of src k = Some v" by (auto split: option.splits)
  show ?case
  proof (cases "path = []")
    case True
    then show ?thesis by (simp add: map_of_Merge [OF d] v split: option.split)
  next
    case path: False
    show ?thesis
    proof (cases "\<exists>sub. v = JObj sub")
      case False
      then have "lookup v path = None" "merge_value w v = v" for w using lookup_leaf [of v path] path by (cases v; auto)+
      then show ?thesis by (simp add: map_of_Merge [OF d] v)
    next
      case True
      then obtain sub where sub: "v = JObj sub" by blast
      have can: "canonical (JObj sub)" using canonical_member [OF "2.prems"(1) v] sub by simp
      have o: "Overrides sub path" using "2.prems"(2) path by (simp add: v sub)
      note IH = "2.IH" [OF v sub can o]
      show ?thesis
      proof (cases "\<exists>dv. map_of dst k = Some (JObj dv)")
        case True
        then obtain dv where "map_of dst k = Some (JObj dv)" by blast
        with IH [of dv] show ?thesis by (cases "lookup (JObj sub) path") (simp_all add: map_of_Merge [OF d] v sub)
      next
        case False
        then have "merge_value (map_of dst k) v = v" "(case map_of dst k of None \<Rightarrow> None | Some w \<Rightarrow> lookup w path) = None"
          using merge_value_replaces lookup_leaf [OF _ path] by (cases "map_of dst k"; auto simp: sub)+
        then show ?thesis
          by (cases "lookup (JObj sub) path") (simp_all add: map_of_Merge [OF d] v sub merge_value_def [of None] split: json.split)
      qed
    qed
  qed
qed simp

text \<open>
  \<open>Overrides\<close> says exactly what a merge changes. At a path that the parameters do not override, the
  merged body holds what the mapped body held; at one they do override, it holds their value (merged
  with what was there when both are objects), or nothing when they replaced an ancestor by something
  that is not an object. So what an adapter reports as applied is what was sent.
\<close>

theorem overrides_is_exact:
  assumes "canonical (JObj params)" and "path \<noteq> []"
  shows "(\<not> Overrides params path \<longrightarrow> lookup (JObj (Merge body params)) path = lookup (JObj body) path) \<and>
    (Overrides params path \<longrightarrow>
       lookup (JObj (Merge body params)) path =
         (case lookup (JObj params) path of None \<Rightarrow> None | Some v \<Rightarrow> Some (merge_value (lookup (JObj body) path) v)))"
  using not_overridden [OF assms(1) _ assms(2), of body] overridden [OF assms(1), of path body]
  by (auto split: option.splits)

definition demo_params :: "(string \<times> json) list" where
  "demo_params = [(''thinking'', JObj [(''type'', JStr ''disabled'')]), (''top_k'', JNum ''5'')]"

definition demo_body :: "(string \<times> json) list" where
  "demo_body = [(''model'', JStr ''m''), (''thinking'', JObj [(''budget'', JNum ''10''), (''type'', JStr ''enabled'')])]"

lemma demo_canonical: "canonical (JObj demo_params)" "canonical (JObj demo_body)"
  by (simp_all add: demo_params_def demo_body_def sorted_keys_def less_list_code less_char_def)

theorem overrides_is_exact_witness:
  "lookup (JObj (Merge demo_body demo_params)) [''thinking'', ''type''] = Some (JStr ''disabled'') \<and>
   lookup (JObj (Merge demo_body demo_params)) [''thinking'', ''budget''] = Some (JNum ''10'')"
proof -
  have "Overrides demo_params [''thinking'', ''type'']" "\<not> Overrides demo_params [''thinking'', ''budget'']"
    by (simp_all add: demo_params_def)
  with overrides_is_exact [OF demo_canonical(1), of "[''thinking'', ''type'']" demo_body]
    overrides_is_exact [OF demo_canonical(1), of "[''thinking'', ''budget'']" demo_body]
  show ?thesis by (simp add: demo_params_def demo_body_def)
qed

text \<open>
  C30: provider parameters arrive. Parameters that marshal to JSON come out of their normalising round
  trip unchanged, and merging them into an encoded request gives a body that decodes to the merged
  object, whatever HTML escaping the SDK used: no member, number literal or text is altered on the way.
\<close>

theorem provider_params_round_trip:
  assumes "json_map params" and "json_map body" and "params \<noteq> []" and "cr_ProviderParams req p = Some params"
  shows "For req p = Inr (Some params) \<and>
    (\<exists>out. MergeJSON (encode_json html (JObj body)) params = Inr out \<and> unmarshal out = Some (JObj (Merge body params)))"
proof
  show "For req p = Inr (Some params)"
    unfolding For_def assms(4) option.case decode_json_map [OF assms(1)] using assms(1,3) by (simp add: json_map_def)
  have m: "json_map (Merge body params)" by (rule json_map_Merge [OF assms(2,1)])
  have "clean (JObj (Merge body params)) = JObj (Merge body params)"
    using m unfolding json_map_def by (blast intro: clean_utf8)
  then have "unmarshal (encode_json False (JObj (Merge body params))) = Some (JObj (Merge body params))"
    using unmarshal_encode [of "JObj (Merge body params)" False] m unfolding json_map_def by simp
  then show "\<exists>out. MergeJSON (encode_json html (JObj body)) params = Inr out \<and> unmarshal out = Some (JObj (Merge body params))"
    by (simp only: MergeJSON_def decode_json_map [OF assms(2)] option.case) blast
qed

lemma ascii_valid: "list_all (\<lambda>c. of_char c < (128 :: nat)) s \<Longrightarrow> valid_utf8 s"
proof (induction s)
  case (Cons c s)
  then have "coerce (c # s) = c # coerce s" by (subst coerce.simps) (simp add: rune_width_ascii)
  with Cons show ?case by (simp add: valid_utf8_def)
qed (simp add: valid_utf8_def coerce.simps)

lemma demo_json_map: "json_map demo_params" "json_map demo_body"
proof -
  have n: "valid_number ''5''" "valid_number ''10''"
    by (simp_all add: valid_number_def scan_number_def scan_unsigned_def scan_int_def scan_digits_def scan_frac_def scan_exp_def
        is_digit_def Let_def)
  show "json_map demo_params" "json_map demo_body"
    unfolding json_map_def using demo_canonical n
    by (simp_all add: demo_params_def demo_body_def ascii_valid)
qed

theorem provider_params_round_trip_witness:
  "\<exists>out. MergeJSON (encode_json True (JObj demo_body)) demo_params = Inr out \<and>
     unmarshal out = Some (JObj [(''model'', JStr ''m''),
       (''thinking'', JObj [(''budget'', JNum ''10''), (''type'', JStr ''disabled'')]), (''top_k'', JNum ''5'')])"
proof -
  have ne: "demo_params \<noteq> []" by (simp add: demo_params_def)
  have m: "Merge demo_body demo_params = [(''model'', JStr ''m''),
       (''thinking'', JObj [(''budget'', JNum ''10''), (''type'', JStr ''disabled'')]), (''top_k'', JNum ''5'')]"
    by (simp add: demo_body_def demo_params_def less_list_code less_char_def)
  from provider_params_round_trip [OF demo_json_map ne, of "zero_request\<lparr>cr_ProviderParams := [''p'' \<mapsto> demo_params]\<rparr>" "''p''" True]
  show ?thesis by (simp add: m)
qed

end
