(* ===== verification/Adapter.thy ===== *)
theory Adapter
  imports ExtraParams ApiErr Middleware Transcript
begin

text \<open>
  What the provider adapters under \<open>llms/providers\<close> share: the text of the errors they build, the
  builder loop that joins text parts, the decoding of JSON objects into Go structs, and the
  skeleton of \<open>Complete\<close>, stated as the locale \<open>chat_adapter\<close> that each adapter interprets. The vendors'
  SDKs are not under \<open>src/\<close>: a client's SDK call is a field of its record, the request
  and response types of an SDK are datatypes with the fields the source sets or reads.
\<close>

section \<open>Errors\<close>

text \<open>The text of an error made by \<open>errors.New\<close> or by \<open>fmt.Errorf\<close> with a trailing \<open>: %w\<close>; nothing reads the
  text of the other errors.\<close>

fun error_text :: "error \<Rightarrow> string" where
  "error_text (Wrapped msg es) = msg @ concat (map (\<lambda>e. '': '' @ error_text e) es)"
| "error_text _ = []"

definition json_error :: error where
  "json_error = Wrapped ''decoding JSON'' []"

section \<open>Text\<close>

definition blank_line :: string where "blank_line = [CHR 0x0A, CHR 0x0A]"

text \<open>One step of the builder loops: a separator unless the builder is empty.\<close>

definition write_text :: "string \<Rightarrow> string \<Rightarrow> string" where
  "write_text b t = (if b \<noteq> [] then b @ blank_line @ t else b @ t)"

fun system_text_from :: "(string \<Rightarrow> error) \<Rightarrow> string \<Rightarrow> content_part list \<Rightarrow> error + string" where
  "system_text_from bad b [] = Inr b"
| "system_text_from bad b (p # ps) =
     (if cp_Type p \<noteq> ContentText then Inl (bad ''system parts must be text-only'')
      else system_text_from bad (write_text b (cp_Text p)) ps)"

section \<open>Struct targets of \<open>json.Unmarshal\<close>\<close>

text \<open>A key matches a field's name case-insensitively; two letters outside ASCII fold to \<open>s\<close> and \<open>k\<close>.\<close>

definition lower :: "char \<Rightarrow> char" where
  "lower c = (let n = of_char c :: nat in if 65 \<le> n \<and> n \<le> 90 then char_of (n + 32) else c)"

fun fold_name :: "string \<Rightarrow> string" where
  "fold_name (a # b # c # s) =
     (if a = CHR 0xC5 \<and> b = CHR 0xBF then CHR ''s'' # fold_name (c # s)
      else if a = CHR 0xE2 \<and> b = CHR 0x84 \<and> c = CHR 0xAA then CHR ''k'' # fold_name s
      else lower a # fold_name (b # c # s))"
| "fold_name [a, b] = (if a = CHR 0xC5 \<and> b = CHR 0xBF then [CHR ''s''] else [lower a, lower b])"
| "fold_name [a] = [lower a]"
| "fold_name [] = []"

text \<open>\<open>set\<close> assigns one member and is \<open>None\<close> when its value has the wrong type; \<open>null\<close> assigns nothing.\<close>

definition decode_struct :: "(string \<Rightarrow> json \<Rightarrow> 'a \<Rightarrow> 'a option) \<Rightarrow> 'a \<Rightarrow> json \<Rightarrow> 'a option" where
  "decode_struct set_field x j =
     (case j of
        JNull \<Rightarrow> Some x
      | JObj fs \<Rightarrow> foldl (\<lambda>acc (k, v). case acc of None \<Rightarrow> None | Some y \<Rightarrow> set_field (fold_name k) v y) (Some x) fs
      | _ \<Rightarrow> None)"

definition decode_string :: "json \<Rightarrow> string \<Rightarrow> string option" where
  "decode_string v old = (case v of JStr s \<Rightarrow> Some s | JNull \<Rightarrow> Some old | _ \<Rightarrow> None)"

text \<open>A member with \<open>omitempty\<close>.\<close>

definition omitempty :: "string \<Rightarrow> string \<Rightarrow> (string \<times> json) list" where
  "omitempty k s = (if s = [] then [] else [(k, JStr s)])"

end
