(* ===== verification/ChatAdapter.thy ===== *)
theory ChatAdapter
  imports Adapter
begin

text \<open>
  The skeleton every chat adapter's \<open>Complete\<close> follows, as an interface: the caller's \<open>ProviderParams\<close> are
  checked, the request is converted, the SDK is called with the parameters and the extra members, and
  its error is classified or its response converted. What follows for each adapter is proved once. A
  conversion that panics has the value \<open>None\<close>, and so has the call.
\<close>

text \<open>An error the adapters make themselves.\<close>

definition own_error :: "provider_id \<Rightarrow> error_kind \<Rightarrow> error \<Rightarrow> bool" where
  "own_error provider kind e \<longleftrightarrow> (\<exists>model msg. e = ProviderError provider model kind 0 msg 0 None)"

lemma own_error_bad: "own_error provider ErrorKindBadRequest e \<Longrightarrow> \<not> Retryable (Some e) \<and> pe_Kind e = ErrorKindBadRequest"
  by (auto simp: own_error_def ProviderError_Retryable_def error_kind_consts)

lemma own_errorI [simp]: "own_error provider kind (ProviderError provider model kind 0 msg 0 None)"
  by (simp add: own_error_def)

lemma system_text_error: "system_text_from bad b ps = Inl e \<Longrightarrow> \<exists>msg. e = bad msg"
  by (induction ps arbitrary: b) (auto split: if_splits)

lemma map_filter_append [simp]: "List.map_filter f (xs @ ys) = List.map_filter f xs @ List.map_filter f ys"
  by (simp add: List.map_filter_def)

abbreviation tool_calls :: "content_part list \<Rightarrow> tool_call list" where
  "tool_calls \<equiv> List.map_filter (\<lambda>p. if cp_Type p = ContentToolCall then cp_ToolCall p else None)"

text \<open>A response whose calls mirror its message.\<close>

definition mirrors :: "chat_response \<Rightarrow> bool" where
  "mirrors resp \<longleftrightarrow> m_Role (rsp_Message resp) = RoleAssistant \<and>
     rsp_ToolCalls resp = tool_calls (m_Content (rsp_Message resp))"

locale chat_adapter =
  fixes provider :: provider_id
    and bad :: "string \<Rightarrow> error"
    and to_params :: "chat_request \<Rightarrow> (error + 'p) option"
    and call :: "ctx \<Rightarrow> 'p \<Rightarrow> (string \<times> json) list option \<Rightarrow> 'w \<Rightarrow> (error + 'r) \<times> 'w"
    and classify :: "error \<Rightarrow> error option"
    and respond :: "chat_request \<Rightarrow> (string \<times> json) list option \<Rightarrow> 'r \<Rightarrow> chat_response"
    and complete :: "ctx \<Rightarrow> chat_request \<Rightarrow> 'w \<Rightarrow> ((chat_response \<times> error option) \<times> 'w) option"
  assumes complete_eq: "complete c req w =
      (case For req provider of
         Inl err \<Rightarrow> Some ((zero_response, Some (bad (error_text err))), w)
       | Inr extra \<Rightarrow>
           (case to_params req of
              None \<Rightarrow> None
            | Some (Inl err) \<Rightarrow> Some ((zero_response, Some err), w)
            | Some (Inr p) \<Rightarrow>
                (case call c p extra w of
                   (Inl err, w') \<Rightarrow> Some ((zero_response, classify err), w')
                 | (Inr r, w') \<Rightarrow> Some ((respond req extra r, None), w'))))"
    and bad_own: "own_error provider ErrorKindBadRequest (bad msg)"
    and convert_error: "to_params req = Some (Inl err) \<Longrightarrow> own_error provider ErrorKindBadRequest err"
    and classify_keeps: "\<exists>e'. classify e = Some e' \<and> (errors_Is (Some e) t \<longrightarrow> errors_Is (Some e') t)"
    and respond_mirrors: "mirrors (respond req extra r)"
begin

text \<open>How a call can end.\<close>

lemma complete_cases:
  assumes "complete c req w = Some ((resp, err), w')"
  obtains (rejected) e where "err = Some e" "own_error provider ErrorKindBadRequest e" "resp = zero_response" "w' = w"
      "(\<exists>x. For req provider = Inl x) \<or> to_params req = Some (Inl e)"
  | (failed) p extra e e' where "For req provider = Inr extra" "to_params req = Some (Inr p)" "call c p extra w = (Inl e, w')"
      "err = Some e'" "classify e = Some e'" "resp = zero_response"
  | (answered) p extra r where "For req provider = Inr extra" "to_params req = Some (Inr p)" "call c p extra w = (Inr r, w')"
      "err = None" "resp = respond req extra r"
proof (cases "For req provider")
  case (Inl x)
  with assms rejected [of "bad (error_text x)"] show ?thesis by (simp add: complete_eq bad_own)
next
  case extra: (Inr extra)
  show ?thesis
  proof (cases "to_params req")
    case None
    with assms extra show ?thesis by (simp add: complete_eq)
  next
    case params: (Some conv)
    show ?thesis
    proof (cases conv)
      case (Inl e)
      with assms extra params rejected [of e] show ?thesis by (simp add: complete_eq convert_error)
    next
      case p: (Inr p)
      with params have to: "to_params req = Some (Inr p)" by simp
      obtain res w1 where call: "call c p extra w = (res, w1)" by (cases "call c p extra w")
      show ?thesis
      proof (cases res)
        case (Inl e)
        from classify_keeps [of e] obtain e' where "classify e = Some e'" by blast
        moreover from this assms extra to call Inl have "err = Some e'" "resp = zero_response" "w1 = w'"
          by (simp_all add: complete_eq)
        ultimately show ?thesis using failed [OF extra to] call Inl by simp
      next
        case (Inr r)
        with assms extra to call answered show ?thesis by (simp add: complete_eq)
      qed
    qed
  qed
qed

text \<open>A request that does not convert is the caller's fault, and no call is made for it.\<close>

lemma unconvertible_not_sent:
  assumes "to_params req = Some (Inl e)"
  shows "\<exists>e'. complete c req w = Some ((zero_response, Some e'), w) \<and> pe_Kind e' = ErrorKindBadRequest \<and> \<not> Retryable (Some e')"
proof -
  from assms obtain resp err w' where out: "complete c req w = Some ((resp, err), w')"
    by (cases "For req provider") (auto simp: complete_eq)
  then show ?thesis
  proof (cases rule: complete_cases)
    case (rejected e')
    with out own_error_bad [OF rejected(2)] show ?thesis by auto
  qed (use assms in auto)
qed

text \<open>A response without an error mirrors its calls; an error comes with no response.\<close>

lemma answered_mirrors: "complete c req w = Some ((resp, None), w') \<Longrightarrow> mirrors resp"
  by (erule complete_cases) (simp_all add: respond_mirrors)

lemma error_no_response: "complete c req w = Some ((resp, Some e), w') \<Longrightarrow> resp = zero_response"
  by (erule complete_cases) simp_all

lemma cause_kept:
  assumes "For req provider = Inr extra" and "to_params req = Some (Inr p)" and "call c p extra w = (Inl e, w')"
  shows "\<exists>e'. complete c req w = Some ((zero_response, Some e'), w') \<and> (errors_Is (Some e) t \<longrightarrow> errors_Is (Some e') t)"
  using classify_keeps [of e t] assms by (auto simp: complete_eq)

end

text \<open>Every classification keeps the cause.\<close>

lemma ClassifyOverflow_keeps:
  "\<exists>e'. ClassifyOverflow err_text http_date now provider model (Some e) extractor overflow = Some e' \<and>
     (errors_Is (Some e) t \<longrightarrow> errors_Is (Some e') t)"
proof -
  obtain e' where e': "ClassifyOverflow err_text http_date now provider model (Some e) extractor overflow = Some e'"
    by (cases "extractor e"; atomize_elim) (simp_all add: ClassifyOverflow_def Let_def split: prod.split)
  then have "errors_Is (Some e) t \<longrightarrow> errors_Is (Some e') t" by (cases rule: ClassifyOverflow_cases) auto
  with e' show ?thesis by blast
qed

end
