(* ===== verification/Anthropic.thy ===== *)
theory Anthropic
  imports Adapter Reasoning
begin

text \<open>
  The Anthropic adapter (\<open>llms/providers/anthropic\<close>: \<open>convert.go\<close>, \<open>anthropic.go\<close>, \<open>errors.go\<close>): an app-neutral request to
  the parameters of the Messages API, a message of the API back to a \<open>ChatResponse\<close>, and \<open>Complete\<close>
  around the SDK's call. The request and response types hold the fields the source sets or reads.
\<close>

section \<open>The SDK's types\<close>

datatype anthropic_block_param =
    TextBlockParam (tb_Text: string) (tb_CacheControl: bool)
  | ToolUseBlockParam (tu_ID: string) (tu_Input: string) (tu_Name: string)
  | ToolResultBlockParam (trb_ToolUseID: string) (trb_Content: string) (trb_IsError: bool)
  | ThinkingBlockParam (th_Signature: string) (th_Thinking: string)
  | RedactedThinkingBlockParam (rt_Data: string)

record anthropic_message_param =
  amp_Role :: string
  amp_Content :: "anthropic_block_param list"

record tool_input_schema =
  tis_Properties :: "json option"
  tis_Required :: "string list"
  tis_ExtraFields :: "(string \<times> json) list"

record anthropic_tool_param =
  atp_Name :: string
  atp_Description :: "string option"
  atp_InputSchema :: tool_input_schema

datatype anthropic_tool_choice = ChoiceAuto | ChoiceNone | ChoiceAny | ChoiceTool string

datatype thinking_config = ThinkingEnabled int | ThinkingDisabled

record message_new_params =
  mnp_Model :: string
  mnp_Messages :: "anthropic_message_param list"
  mnp_MaxTokens :: int
  mnp_System :: "anthropic_block_param list"
  mnp_Temperature :: "rat option"
  mnp_Thinking :: "thinking_config option"
  mnp_Effort :: string
  mnp_Tools :: "anthropic_tool_param list"
  mnp_ToolChoice :: "anthropic_tool_choice option"

text \<open>A content block of a response; a block of any other type is \<open>OtherBlock\<close>.\<close>

datatype anthropic_block =
    TextBlock string
  | ThinkingBlock (tk_Thinking: string) (tk_Signature: string)
  | RedactedThinkingBlock string
  | ToolUseBlock (tub_ID: string) (tub_Name: string) (tub_Input: string)
  | OtherBlock string

text \<open>\<open>aus_ThinkingTokens\<close> is \<open>None\<close> when the response has no such detail.\<close>

record anthropic_usage =
  aus_InputTokens :: int
  aus_OutputTokens :: int
  aus_CacheReadInputTokens :: int
  aus_CacheCreationInputTokens :: int
  aus_ThinkingTokens :: "int option"

record anthropic_message =
  am_ID :: string
  am_Content :: "anthropic_block list"
  am_StopReason :: string
  am_Usage :: anthropic_usage

section \<open>Request parts\<close>

definition anthropic_badRequest :: "string \<Rightarrow> string \<Rightarrow> error" where
  "anthropic_badRequest model msg = ProviderError ProviderAnthropic model ErrorKindBadRequest 0 msg 0 None"

definition anthropic_systemText :: "string \<Rightarrow> chat_request \<Rightarrow> error + string" where
  "anthropic_systemText model req = system_text_from (anthropic_badRequest model) [] (cr_System req)"

definition anthropicMaxCacheBreakpoints :: int where "anthropicMaxCacheBreakpoints = 4"

definition defaultMaxTokens :: int where "defaultMaxTokens = 4096"

record cacheBudget =
  cb_skip :: int
  cb_seen :: int

definition honor :: "cacheBudget \<Rightarrow> bool \<times> cacheBudget" where
  "honor b = (cb_seen b \<ge> cb_skip b, b\<lparr>cb_seen := cb_seen b + 1\<rparr>)"

definition systemHasBreakpoint :: "content_part list \<Rightarrow> bool" where
  "systemHasBreakpoint parts = list_ex cp_CacheBreakpoint parts"

definition countContentBreakpoints :: "message list \<Rightarrow> int" where
  "countContentBreakpoints msgs =
     foldl (\<lambda>n m. foldl (\<lambda>n p. if cp_Type p = ContentText \<and> cp_CacheBreakpoint p then n + 1 else n) n (m_Content m)) 0 msgs"

section \<open>Thinking blocks\<close>

definition blockThinking :: string where "blockThinking = ''thinking''"
definition blockRedactedThinking :: string where "blockRedactedThinking = ''redacted_thinking''"

record thinkingWire =
  tw_Type :: string
  tw_Thinking :: string
  tw_Signature :: string
  tw_Data :: string

definition zero_thinkingWire :: thinkingWire where
  "zero_thinkingWire = \<lparr>tw_Type = [], tw_Thinking = [], tw_Signature = [], tw_Data = []\<rparr>"

definition thinking_json :: "thinkingWire \<Rightarrow> json" where
  "thinking_json w = JObj ((''type'', JStr (tw_Type w)) # omitempty ''thinking'' (tw_Thinking w) @
     omitempty ''signature'' (tw_Signature w) @ omitempty ''data'' (tw_Data w))"

definition set_thinking :: "string \<Rightarrow> json \<Rightarrow> thinkingWire \<Rightarrow> thinkingWire option" where
  "set_thinking k v w =
     (if k = ''type'' then map_option (\<lambda>s. w\<lparr>tw_Type := s\<rparr>) (decode_string v (tw_Type w))
      else if k = ''thinking'' then map_option (\<lambda>s. w\<lparr>tw_Thinking := s\<rparr>) (decode_string v (tw_Thinking w))
      else if k = ''signature'' then map_option (\<lambda>s. w\<lparr>tw_Signature := s\<rparr>) (decode_string v (tw_Signature w))
      else if k = ''data'' then map_option (\<lambda>s. w\<lparr>tw_Data := s\<rparr>) (decode_string v (tw_Data w))
      else Some w)"

definition unmarshal_thinking :: "string \<Rightarrow> thinkingWire option" where
  "unmarshal_thinking data =
     (case unmarshal data of None \<Rightarrow> None | Some j \<Rightarrow> decode_struct set_thinking zero_thinkingWire j)"

definition reasoningPart :: "anthropic_block \<Rightarrow> content_part option" where
  "reasoningPart block =
     (let part = (\<lambda>w text. Some (zero_part\<lparr>cp_Type := ContentReasoning, cp_Reasoning := Some \<lparr>rs_Provider = ProviderAnthropic,
          rs_Text = text, rs_ProviderData = encode_json True (thinking_json w)\<rparr>\<rparr>)) in
      case block of
        ThinkingBlock t sig \<Rightarrow> part \<lparr>tw_Type = blockThinking, tw_Thinking = t, tw_Signature = sig, tw_Data = []\<rparr> t
      | RedactedThinkingBlock d \<Rightarrow> part \<lparr>tw_Type = blockRedactedThinking, tw_Thinking = [], tw_Signature = [], tw_Data = d\<rparr> []
      | _ \<Rightarrow> None)"

definition thinkingBlockParam :: "reasoning option \<Rightarrow> error + anthropic_block_param" where
  "thinkingBlockParam r =
     (case r of
        None \<Rightarrow> Inl (Wrapped ''reasoning content part with nil Reasoning'' [])
      | Some r \<Rightarrow>
          (case unmarshal_thinking (rs_ProviderData r) of
             None \<Rightarrow> Inl (Wrapped ''reasoning content part: malformed ProviderData'' [json_error])
           | Some w \<Rightarrow>
               if tw_Type w = blockThinking then
                 (if tw_Signature w = [] then Inl (Wrapped ''reasoning content part: thinking block without signature'' [])
                  else Inr (ThinkingBlockParam (tw_Signature w) (tw_Thinking w)))
               else if tw_Type w = blockRedactedThinking then
                 (if tw_Data w = [] then Inl (Wrapped ''reasoning content part: redacted_thinking block without data'' [])
                  else Inr (RedactedThinkingBlockParam (tw_Data w)))
               else Inl (Wrapped (''reasoning content part: unknown block type '' @ quote (tw_Type w)) [])))"

section \<open>Messages\<close>

text \<open>The body of the loop over parts: the tool results and the other blocks so far, and the budget.\<close>

type_synonym parts_state = "(anthropic_block_param list \<times> anthropic_block_param list) \<times> cacheBudget"

definition part_step :: "string \<Rightarrow> content_part \<Rightarrow> parts_state \<Rightarrow> error + parts_state" where
  "part_step model p st =
     (let ((toolResults, others), cb) = st; bad = (\<lambda>msg. Inl (anthropic_badRequest model msg)) in
      if cp_Type p = ContentText then
        (if cp_Text p = [] then bad ''empty text content part''
         else
           let (keep, cb) = (if cp_CacheBreakpoint p then honor cb else (False, cb)) in
           Inr ((toolResults, others @ [TextBlockParam (cp_Text p) keep]), cb))
      else if cp_Type p = ContentToolCall then
        (case cp_ToolCall p of
           None \<Rightarrow> bad ''tool_call content part with nil ToolCall''
         | Some tc \<Rightarrow> Inr ((toolResults, others @ [ToolUseBlockParam (tc_ID tc) (tc_Parameters tc) (tc_Name tc)]), cb))
      else if cp_Type p = ContentToolResult then
        (case cp_ToolResult p of
           None \<Rightarrow> bad ''tool_result content part with nil ToolResult''
         | Some tr \<Rightarrow>
             Inr ((toolResults @ [ToolResultBlockParam (tr_ToolCallID tr) (tr_Content tr) (tr_IsError tr)], others), cb))
      else if cp_Type p = ContentReasoning then
        (case thinkingBlockParam (cp_Reasoning p) of
           Inl err \<Rightarrow> bad (error_text err)
         | Inr b \<Rightarrow> Inr ((toolResults, others @ [b]), cb))
      else bad (''unknown content part type: '' @ cp_Type p))"

fun parts_loop :: "string \<Rightarrow> content_part list \<Rightarrow> parts_state \<Rightarrow> error + parts_state" where
  "parts_loop model [] st = Inr st"
| "parts_loop model (p # ps) st =
     (case part_step model p st of Inl err \<Rightarrow> Inl err | Inr st \<Rightarrow> parts_loop model ps st)"

definition blocksForParts :: "string \<Rightarrow> content_part list \<Rightarrow> cacheBudget \<Rightarrow> error + parts_state" where
  "blocksForParts model parts cb = parts_loop model parts (([], []), cb)"

definition hasReply :: "content_part list \<Rightarrow> bool" where
  "hasReply parts = list_ex (\<lambda>p. cp_Type p = ContentText \<or> cp_Type p = ContentToolCall) parts"

text \<open>The messages so far, the pending user blocks and the budget.\<close>

type_synonym messages_state = "(anthropic_message_param list \<times> anthropic_block_param list) \<times> cacheBudget"

definition flush :: "anthropic_message_param list \<times> anthropic_block_param list \<Rightarrow>
    anthropic_message_param list \<times> anthropic_block_param list" where
  "flush st =
     (let (out, userBuf) = st in
      if userBuf \<noteq> [] then (out @ [\<lparr>amp_Role = ''user'', amp_Content = userBuf\<rparr>], []) else (out, userBuf))"

definition message_step :: "string \<Rightarrow> message \<Rightarrow> messages_state \<Rightarrow> error + messages_state" where
  "message_step model m st =
     (let ((out, userBuf), cb) = st in
      case blocksForParts model (m_Content m) cb of
        Inl err \<Rightarrow> Inl err
      | Inr ((tr, other), cb) \<Rightarrow>
          if m_Role m = RoleAssistant then
            (let (out, userBuf) = flush (out, userBuf) in
             if \<not> hasReply (m_Content m) then Inl (anthropic_badRequest model ''assistant message has no content'')
             else Inr ((out @ [\<lparr>amp_Role = ''assistant'', amp_Content = other\<rparr>], userBuf), cb))
          else if m_Role m = RoleUser \<or> m_Role m = RoleTool then Inr ((out, userBuf @ tr @ other), cb)
          else Inl (anthropic_badRequest model (''unknown message role: '' @ m_Role m)))"

fun messages_loop :: "string \<Rightarrow> message list \<Rightarrow> messages_state \<Rightarrow> error + messages_state" where
  "messages_loop model [] st = Inr st"
| "messages_loop model (m # ms) st =
     (case message_step model m st of Inl err \<Rightarrow> Inl err | Inr st \<Rightarrow> messages_loop model ms st)"

definition anthropic_buildMessages :: "string \<Rightarrow> chat_request \<Rightarrow> cacheBudget \<Rightarrow>
    error + anthropic_message_param list \<times> cacheBudget" where
  "anthropic_buildMessages model req cb =
     (case messages_loop model (ReasoningFrom ProviderAnthropic (cr_Messages req)) (([], []), cb) of
        Inl err \<Rightarrow> Inl err
      | Inr (st, cb) \<Rightarrow>
          (case fst (flush st) of
             [] \<Rightarrow> Inl (anthropic_badRequest model ''request has no messages'')
           | m # ms \<Rightarrow>
               if amp_Role m \<noteq> ''user'' then Inl (anthropic_badRequest model ''conversation must start with a user message'')
               else Inr (m # ms, cb)))"

section \<open>Tools\<close>

definition zero_schema :: tool_input_schema where
  "zero_schema = \<lparr>tis_Properties = None, tis_Required = [], tis_ExtraFields = []\<rparr>"

text \<open>A nil \<open>Properties\<close> is an unset one. The numbers of a schema keep their literals; the source decodes them to
  float64.\<close>

definition parseToolSchema :: "string \<Rightarrow> string \<Rightarrow> string \<Rightarrow> error + tool_input_schema" where
  "parseToolSchema model name rawSchema =
     (if rawSchema = [] then Inr zero_schema
      else case (case unmarshal rawSchema of None \<Rightarrow> None | Some j \<Rightarrow> to_map j) of
        None \<Rightarrow> Inl (anthropic_badRequest model (''tool '' @ name @ '': invalid input schema JSON: '' @ error_text json_error))
      | Some raw \<Rightarrow>
          (let raw = (case raw of None \<Rightarrow> [] | Some m \<Rightarrow> m) in
           if \<not> (case map_of raw ''type'' of None \<Rightarrow> True | Some tv \<Rightarrow> tv = JStr ''object'')
           then Inl (anthropic_badRequest model (''tool '' @ name @ '': input schema type must be \"object\"''))
           else Inr \<lparr>tis_Properties = (case map_of raw ''properties'' of Some JNull \<Rightarrow> None | props \<Rightarrow> props),
             tis_Required = (case map_of raw ''required'' of
                Some (JArr reqd) \<Rightarrow> List.map_filter (\<lambda>r. case r of JStr s \<Rightarrow> Some s | _ \<Rightarrow> None) reqd
              | _ \<Rightarrow> []),
             tis_ExtraFields = filter (\<lambda>(k, v). k \<noteq> ''properties'' \<and> k \<noteq> ''required'' \<and> k \<noteq> ''type'') raw\<rparr>))"

fun anthropic_tools :: "string \<Rightarrow> tool_definition list \<Rightarrow> error + anthropic_tool_param list" where
  "anthropic_tools model [] = Inr []"
| "anthropic_tools model (t # ts) =
     (case parseToolSchema model (td_Name t) (td_InputSchema t) of
        Inl err \<Rightarrow> Inl err
      | Inr schema \<Rightarrow>
          (case anthropic_tools model ts of
             Inl err \<Rightarrow> Inl err
           | Inr tools \<Rightarrow>
               Inr (\<lparr>atp_Name = td_Name t, atp_Description = (if td_Description t \<noteq> [] then Some (td_Description t) else None),
                     atp_InputSchema = schema\<rparr> # tools)))"

definition anthropic_buildTools :: "string \<Rightarrow> chat_request \<Rightarrow> error + anthropic_tool_param list" where
  "anthropic_buildTools model req = (if cr_Tools req = [] then Inr [] else anthropic_tools model (cr_Tools req))"

definition anthropic_toolChoice :: "string \<Rightarrow> chat_request \<Rightarrow> error + anthropic_tool_choice option" where
  "anthropic_toolChoice model req =
     (let tc = cr_ToolChoice req in
      if cr_Tools req = [] then
        (if RequiresTools tc
         then Inl (anthropic_badRequest model (''tool choice '' @ tch_Type tc @ '' requires at least one tool''))
         else Inr None)
      else if tch_Type tc = ToolChoiceAuto then Inr (Some ChoiceAuto)
      else if tch_Type tc = ToolChoiceNone then Inr (Some ChoiceNone)
      else if tch_Type tc = ToolChoiceRequired then Inr (Some ChoiceAny)
      else if tch_Type tc = ToolChoiceTool then
        (if tch_Name tc = [] then Inl (anthropic_badRequest model ''tool choice type \"tool\" requires a tool name'')
         else Inr (Some (ChoiceTool (tch_Name tc))))
      else Inr None)"

section \<open>Reasoning\<close>

record reasoningWire =
  rw_applied :: "reasoning_config option"
  rw_thinking :: "thinking_config option"
  rw_effort :: string

definition zero_reasoning_config :: reasoning_config where
  "zero_reasoning_config = \<lparr>rc_Effort = [], rc_BudgetTokens = 0\<rparr>"

definition anthropic_mapReasoning :: "reasoning_config option \<Rightarrow> reasoningWire" where
  "anthropic_mapReasoning r =
     (let w = \<lparr>rw_applied = None, rw_thinking = None, rw_effort = []\<rparr> in
      case r of
        None \<Rightarrow> w
      | Some r \<Rightarrow>
          (let applied = zero_reasoning_config;
               (w, applied) =
                 (if rc_BudgetTokens r > 0
                  then (w\<lparr>rw_thinking := Some (ThinkingEnabled (rc_BudgetTokens r))\<rparr>,
                        applied\<lparr>rc_BudgetTokens := rc_BudgetTokens r\<rparr>)
                  else (w, applied));
               (w, applied) =
                 (if rc_Effort r \<in> {ReasoningEffortLow, ReasoningEffortMedium, ReasoningEffortHigh,
                       ReasoningEffortXHigh, ReasoningEffortMax}
                  then (w\<lparr>rw_effort := rc_Effort r\<rparr>, applied\<lparr>rc_Effort := rc_Effort r\<rparr>)
                  else if rc_Effort r = ReasoningEffortNone \<and> rc_BudgetTokens r \<le> 0
                  then (w\<lparr>rw_thinking := Some ThinkingDisabled\<rparr>, applied\<lparr>rc_Effort := rc_Effort r\<rparr>)
                  else (w, applied))
           in if applied \<noteq> zero_reasoning_config then w\<lparr>rw_applied := Some applied\<rparr> else w))"

definition withoutOverridden :: "reasoning_config option \<Rightarrow> (string \<times> json) list option \<Rightarrow> reasoning_config option" where
  "withoutOverridden applied extra =
     (case (applied, extra) of
        (Some out, Some extra) \<Rightarrow>
          (let thinking = Overrides extra [''thinking'', ''type''] \<or> Overrides extra [''thinking'', ''budget_tokens''];
               out = (if rc_BudgetTokens out > 0 \<and> thinking then out\<lparr>rc_BudgetTokens := 0\<rparr> else out);
               out = (if rc_Effort out = ReasoningEffortNone \<and> Overrides extra [''thinking'', ''type'']
                      then out\<lparr>rc_Effort := []\<rparr>
                      else if rc_Effort out \<noteq> [] \<and> rc_Effort out \<noteq> ReasoningEffortNone \<and>
                        Overrides extra [''output_config'', ''effort''] then out\<lparr>rc_Effort := []\<rparr>
                      else out)
           in if out = zero_reasoning_config then None else Some out)
      | _ \<Rightarrow> applied)"

section \<open>Parameters\<close>

definition anthropic_toParams :: "string \<Rightarrow> chat_request \<Rightarrow> error + message_new_params" where
  "anthropic_toParams model req =
     (case anthropic_systemText model req of
        Inl err \<Rightarrow> Inl err
      | Inr sys \<Rightarrow>
          (let sysBP = systemHasBreakpoint (cr_System req);
               budget = (if sysBP then anthropicMaxCacheBreakpoints - 1 else anthropicMaxCacheBreakpoints);
               skip = countContentBreakpoints (cr_Messages req) - budget;
               skip = (if skip < 0 then 0 else skip) in
           case anthropic_buildMessages model req \<lparr>cb_skip = skip, cb_seen = 0\<rparr> of
             Inl err \<Rightarrow> Inl err
           | Inr (msgs, _) \<Rightarrow>
               (case anthropic_buildTools model req of
                  Inl err \<Rightarrow> Inl err
                | Inr tools \<Rightarrow>
                    (case anthropic_toolChoice model req of
                       Inl err \<Rightarrow> Inl err
                     | Inr choice \<Rightarrow>
                         (let rw = anthropic_mapReasoning (cr_Reasoning req) in
                          Inr \<lparr>mnp_Model = model, mnp_Messages = msgs,
                               mnp_MaxTokens = (if cr_MaxTokens req \<le> 0 then defaultMaxTokens else cr_MaxTokens req),
                               mnp_System = (if sys \<noteq> [] then [TextBlockParam sys sysBP] else []),
                               mnp_Temperature = cr_Temperature req,
                               mnp_Thinking = rw_thinking rw, mnp_Effort = rw_effort rw,
                               mnp_Tools = tools, mnp_ToolChoice = choice\<rparr>)))))"

section \<open>Responses\<close>

definition anthropic_buildUsage :: "anthropic_message \<Rightarrow> usage" where
  "anthropic_buildUsage msg =
     (let u = am_Usage msg;
          wireOut = aus_OutputTokens u;
          (visible, reasoning) =
            (case aus_ThinkingTokens u of
               None \<Rightarrow> (wireOut, 0)
             | Some t \<Rightarrow> (let reasoning = min (max t 0) wireOut in (go_sub wireOut reasoning, reasoning)));
          rd = max (aus_CacheReadInputTokens u) 0;
          wr = max (aus_CacheCreationInputTokens u) 0;
          input = go_add (go_add (max (aus_InputTokens u) 0) rd) wr
      in zero_usage\<lparr>u_InputTokens := input, u_OutputTokens := visible, u_TotalTokens := go_add input wireOut,
           u_ReasoningTokens := reasoning, u_BillableOutputTokens := wireOut, u_CacheReadTokens := rd,
           u_CacheWriteTokens := wr, u_ProviderRequestID := am_ID msg\<rparr>)"

text \<open>The parts, the text and the tool calls so far.\<close>

definition response_step :: "(content_part list \<times> string \<times> tool_call list) \<Rightarrow> anthropic_block \<Rightarrow>
    content_part list \<times> string \<times> tool_call list" where
  "response_step st block =
     (let (parts, text, toolCalls) = st in
      case block of
        TextBlock t \<Rightarrow> (parts @ [zero_part\<lparr>cp_Type := ContentText, cp_Text := t\<rparr>], text @ t, toolCalls)
      | ThinkingBlock _ _ \<Rightarrow> (case reasoningPart block of Some p \<Rightarrow> (parts @ [p], text, toolCalls) | None \<Rightarrow> st)
      | RedactedThinkingBlock _ \<Rightarrow> (case reasoningPart block of Some p \<Rightarrow> (parts @ [p], text, toolCalls) | None \<Rightarrow> st)
      | ToolUseBlock i n inp \<Rightarrow>
          (let tc = \<lparr>tc_ID = i, tc_Name = n, tc_Parameters = inp, tc_ProviderSignature = []\<rparr> in
           (parts @ [zero_part\<lparr>cp_Type := ContentToolCall, cp_ToolCall := Some tc\<rparr>], text, toolCalls @ [tc]))
      | OtherBlock _ \<Rightarrow> st)"

definition anthropic_toResponse :: "(anthropic_message \<Rightarrow> json) \<Rightarrow> anthropic_message \<Rightarrow> chat_response" where
  "anthropic_toResponse raw msg =
     (let (parts, text, toolCalls) = foldl response_step ([], [], []) (am_Content msg) in
      \<lparr>rsp_Message = \<lparr>m_Role = RoleAssistant, m_Content = parts\<rparr>, rsp_Text = text, rsp_ToolCalls = toolCalls,
       rsp_StopReason = am_StopReason msg, rsp_Usage = anthropic_buildUsage msg, rsp_AppliedReasoning = None,
       rsp_Raw = Some (raw msg)\<rparr>)"

end
