(* ===== verification/AnthropicProps.thy ===== *)
theory AnthropicProps
  imports Anthropic
begin

text \<open>
  What the Anthropic conversion guarantees: the shape of the messages it sends, the bound on cache markers,
  the conversion of every validated transcript with each tool call answered in the next message,
  and the round trip of an assistant turn.
\<close>

section \<open>Loops\<close>

lemma part_step_text:
  "cp_Type p = ContentText \<Longrightarrow> part_step model p ((tr, ot), cb) =
     (if cp_Text p = [] then Inl (anthropic_badRequest model ''empty text content part'')
      else if cp_CacheBreakpoint p
        then Inr ((tr, ot @ [TextBlockParam (cp_Text p) (cb_seen cb \<ge> cb_skip cb)]), cb\<lparr>cb_seen := cb_seen cb + 1\<rparr>)
      else Inr ((tr, ot @ [TextBlockParam (cp_Text p) False]), cb))"
  unfolding part_step_def honor_def Let_def prod.case by simp

lemma part_step_call:
  "cp_Type p = ContentToolCall \<Longrightarrow> part_step model p ((tr, ot), cb) =
     (case cp_ToolCall p of
        None \<Rightarrow> Inl (anthropic_badRequest model ''tool_call content part with nil ToolCall'')
      | Some tc \<Rightarrow> Inr ((tr, ot @ [ToolUseBlockParam (tc_ID tc) (tc_Parameters tc) (tc_Name tc)]), cb))"
  unfolding part_step_def Let_def prod.case by simp

lemma part_step_result:
  "cp_Type p = ContentToolResult \<Longrightarrow> part_step model p ((tr, ot), cb) =
     (case cp_ToolResult p of
        None \<Rightarrow> Inl (anthropic_badRequest model ''tool_result content part with nil ToolResult'')
      | Some r \<Rightarrow> Inr ((tr @ [ToolResultBlockParam (tr_ToolCallID r) (tr_Content r) (tr_IsError r)], ot), cb))"
  unfolding part_step_def Let_def prod.case by simp

lemma part_step_reasoning:
  "cp_Type p = ContentReasoning \<Longrightarrow> part_step model p ((tr, ot), cb) =
     (case thinkingBlockParam (cp_Reasoning p) of
        Inl err \<Rightarrow> Inl (anthropic_badRequest model (error_text err))
      | Inr b \<Rightarrow> Inr ((tr, ot @ [b]), cb))"
  unfolding part_step_def Let_def prod.case by simp

lemma part_step_other:
  "cp_Type p \<notin> {ContentText, ContentToolCall, ContentToolResult, ContentReasoning} \<Longrightarrow>
     part_step model p st = Inl (anthropic_badRequest model (''unknown content part type: '' @ cp_Type p))"
  unfolding part_step_def Let_def by (cases st) auto

text \<open>How one part extends the state.\<close>

lemma part_step_cases:
  assumes "part_step model p ((tr, ot), cb) = Inr st"
  obtains (marked) "cp_Type p = ContentText" "cp_Text p \<noteq> []" "cp_CacheBreakpoint p"
      "st = ((tr, ot @ [TextBlockParam (cp_Text p) (cb_seen cb \<ge> cb_skip cb)]), cb\<lparr>cb_seen := cb_seen cb + 1\<rparr>)"
  | (plain) "cp_Type p = ContentText" "cp_Text p \<noteq> []" "\<not> cp_CacheBreakpoint p"
      "st = ((tr, ot @ [TextBlockParam (cp_Text p) False]), cb)"
  | (call) tc where "cp_Type p = ContentToolCall" "cp_ToolCall p = Some tc"
      "st = ((tr, ot @ [ToolUseBlockParam (tc_ID tc) (tc_Parameters tc) (tc_Name tc)]), cb)"
  | (result) r where "cp_Type p = ContentToolResult" "cp_ToolResult p = Some r"
      "st = ((tr @ [ToolResultBlockParam (tr_ToolCallID r) (tr_Content r) (tr_IsError r)], ot), cb)"
  | (reasoning) b where "cp_Type p = ContentReasoning" "thinkingBlockParam (cp_Reasoning p) = Inr b"
      "st = ((tr, ot @ [b]), cb)"
proof -
  consider "cp_Type p = ContentText" | "cp_Type p = ContentToolCall" | "cp_Type p = ContentToolResult"
    | "cp_Type p = ContentReasoning"
    | "cp_Type p \<notin> {ContentText, ContentToolCall, ContentToolResult, ContentReasoning}" by auto
  then show ?thesis
  proof cases
    case 1
    with assms marked plain show ?thesis by (auto simp: part_step_text split: if_splits)
  next
    case 2
    with assms call show ?thesis by (simp add: part_step_call split: option.splits)
  next
    case 3
    with assms result show ?thesis by (simp add: part_step_result split: option.splits)
  next
    case 4
    with assms reasoning show ?thesis by (simp add: part_step_reasoning split: sum.splits)
  next
    case 5
    with assms show ?thesis by (simp add: part_step_other)
  qed
qed

lemma parts_loop_append:
  "parts_loop model (ps @ qs) st = (case parts_loop model ps st of Inl e \<Rightarrow> Inl e | Inr st \<Rightarrow> parts_loop model qs st)"
  by (induction ps arbitrary: st) (auto split: sum.split)

lemma messages_loop_append:
  "messages_loop model (ms @ ns) st =
     (case messages_loop model ms st of Inl e \<Rightarrow> Inl e | Inr st \<Rightarrow> messages_loop model ns st)"
  by (induction ms arbitrary: st) (auto split: sum.split)

lemma Inr_case: "(case x of Inl e \<Rightarrow> Inl e | Inr y \<Rightarrow> f y) = Inr z \<longleftrightarrow> (\<exists>y. x = Inr y \<and> f y = Inr z)"
  by (cases x) auto

section \<open>Cache markers\<close>

definition marks :: "anthropic_block_param list \<Rightarrow> int" where
  "marks bs = int (length (filter (\<lambda>b. case b of TextBlockParam _ c \<Rightarrow> c | _ \<Rightarrow> False) bs))"

lemma marks_simps [simp]: "marks [] = 0" "marks (xs @ ys) = marks xs + marks ys"
  "marks (TextBlockParam t keep # bs) = (if keep then 1 else 0) + marks bs" "marks (ToolUseBlockParam i n p # bs) = marks bs"
  "marks (ToolResultBlockParam i c e # bs) = marks bs" "0 \<le> marks bs"
  by (simp_all add: marks_def)

definition breakpoint :: "content_part \<Rightarrow> bool" where
  "breakpoint p \<longleftrightarrow> cp_Type p = ContentText \<and> cp_CacheBreakpoint p"

definition breakpoints :: "content_part list \<Rightarrow> int" where
  "breakpoints ps = int (length (filter breakpoint ps))"

lemma breakpoints_simps [simp]: "breakpoints [] = 0"
  "breakpoints (p # ps) = (if breakpoint p then 1 else 0) + breakpoints ps" "breakpoints (ps @ qs) = breakpoints ps + breakpoints qs"
  "0 \<le> breakpoints ps"
  by (simp_all add: breakpoints_def)

lemma thinking_marks: "thinkingBlockParam r = Inr b \<Longrightarrow> marks [b] = 0"
  by (auto simp: thinkingBlockParam_def marks_def split: option.splits if_splits)

text \<open>Of the breakpoints seen so far, those past the first \<open>skip\<close> are markers.\<close>

definition budget_ok :: "int \<Rightarrow> cacheBudget \<Rightarrow> bool" where
  "budget_ok n cb \<longleftrightarrow> n = max 0 (cb_seen cb - cb_skip cb)"

lemma part_step_budget:
  assumes "part_step model p ((tr, ot), cb) = Inr ((tr', ot'), cb')" and "budget_ok (k + marks (tr @ ot)) cb"
    and "0 \<le> cb_skip cb"
  shows "budget_ok (k + marks (tr' @ ot')) cb' \<and> cb_skip cb' = cb_skip cb \<and>
    cb_seen cb' = cb_seen cb + (if breakpoint p then 1 else 0)"
  using assms(1)
  by (cases rule: part_step_cases) (use assms(2,3) in \<open>auto simp: budget_ok_def breakpoint_def thinking_marks\<close>)

lemma parts_loop_budget:
  assumes "parts_loop model ps ((tr, ot), cb) = Inr ((tr', ot'), cb')" and "budget_ok (k + marks (tr @ ot)) cb"
    and "0 \<le> cb_skip cb"
  shows "budget_ok (k + marks (tr' @ ot')) cb' \<and> cb_skip cb' = cb_skip cb \<and> cb_seen cb' = cb_seen cb + breakpoints ps"
  using assms
proof (induction ps arbitrary: tr ot cb)
  case (Cons p ps)
  then obtain tr1 ot1 cb1 where step: "part_step model p ((tr, ot), cb) = Inr ((tr1, ot1), cb1)"
    and rest: "parts_loop model ps ((tr1, ot1), cb1) = Inr ((tr', ot'), cb')"
    by (cases "part_step model p ((tr, ot), cb)") auto
  have "budget_ok (k + marks (tr1 @ ot1)) cb1 \<and> cb_skip cb1 = cb_skip cb \<and>
    cb_seen cb1 = cb_seen cb + (if breakpoint p then 1 else 0)"
    by (rule part_step_budget [OF step Cons.prems(2,3)])
  with Cons.IH [OF rest] Cons.prems(3) show ?case by simp
qed simp

section \<open>The shape of the conversation\<close>

lemma flush_simps [simp]:
  "flush (out, []) = (out, [])"
  "bs \<noteq> [] \<Longrightarrow> flush (out, bs) = (out @ [\<lparr>amp_Role = ''user'', amp_Content = bs\<rparr>], [])"
  by (simp_all add: flush_def)

lemma message_step_cases:
  assumes "message_step model m ((out, ub), cb) = Inr st"
  obtains (assistant) tr ot cb' where "m_Role m = RoleAssistant" "blocksForParts model (m_Content m) cb = Inr ((tr, ot), cb')"
      "hasReply (m_Content m)"
      "st = ((fst (flush (out, ub)) @ [\<lparr>amp_Role = ''assistant'', amp_Content = ot\<rparr>], []), cb')"
  | (user) tr ot cb' where "m_Role m \<in> {RoleUser, RoleTool}" "blocksForParts model (m_Content m) cb = Inr ((tr, ot), cb')"
      "st = ((out, ub @ tr @ ot), cb')"
proof -
  obtain tr ot cb' where blocks: "blocksForParts model (m_Content m) cb = Inr ((tr, ot), cb')"
    using assms by (cases "blocksForParts model (m_Content m) cb") (auto simp: message_step_def)
  consider "m_Role m = RoleAssistant" | "m_Role m \<in> {RoleUser, RoleTool}" | "m_Role m \<notin> {RoleAssistant, RoleUser, RoleTool}"
    by auto
  then show ?thesis
  proof cases
    case 1
    with assms blocks assistant show ?thesis by (cases "ub = []") (simp_all add: message_step_def split: if_splits)
  next
    case 2
    with assms blocks user show ?thesis by (auto simp: message_step_def)
  next
    case 3
    with assms blocks show ?thesis by (simp add: message_step_def)
  qed
qed

lemma parts_loop_others:
  "parts_loop model ps ((tr, ot), cb) = Inr ((tr', ot'), cb') \<Longrightarrow> ot \<noteq> [] \<or> hasReply ps \<Longrightarrow> ot' \<noteq> []"
proof (induction ps arbitrary: tr ot cb)
  case (Cons p ps)
  then obtain tr1 ot1 cb1 where step: "part_step model p ((tr, ot), cb) = Inr ((tr1, ot1), cb1)"
    and rest: "parts_loop model ps ((tr1, ot1), cb1) = Inr ((tr', ot'), cb')"
    by (cases "part_step model p ((tr, ot), cb)") auto
  from step have "ot1 \<noteq> [] \<or> hasReply ps"
    by (cases rule: part_step_cases) (use Cons.prems(2) in \<open>auto simp: hasReply_def\<close>)
  with Cons.IH [OF rest] show ?case .
qed (simp add: hasReply_def)

text \<open>Tool results are kept apart from the other blocks.\<close>

fun is_result :: "anthropic_block_param \<Rightarrow> bool" where
  "is_result (ToolResultBlockParam _ _ _) = True"
| "is_result _ = False"

lemma thinking_not_result: "thinkingBlockParam r = Inr b \<Longrightarrow> \<not> is_result b"
  by (auto simp: thinkingBlockParam_def split: option.splits if_splits)

lemma parts_loop_apart:
  "parts_loop model ps ((tr, ot), cb) = Inr ((tr', ot'), cb') \<Longrightarrow> list_all is_result tr \<Longrightarrow>
     list_all (\<lambda>b. \<not> is_result b) ot \<Longrightarrow> list_all is_result tr' \<and> list_all (\<lambda>b. \<not> is_result b) ot'"
proof (induction ps arbitrary: tr ot cb)
  case (Cons p ps)
  then obtain tr1 ot1 cb1 where step: "part_step model p ((tr, ot), cb) = Inr ((tr1, ot1), cb1)"
    and rest: "parts_loop model ps ((tr1, ot1), cb1) = Inr ((tr', ot'), cb')"
    by (cases "part_step model p ((tr, ot), cb)") auto
  from step have "list_all is_result tr1 \<and> list_all (\<lambda>b. \<not> is_result b) ot1"
    by (cases rule: part_step_cases) (use Cons.prems(2,3) in \<open>auto dest: thinking_not_result\<close>)
  with Cons.IH [OF rest] show ?case by simp
qed simp

lemma blocks_apart:
  "blocksForParts model ps cb = Inr ((tr, ot), cb') \<Longrightarrow> list_all is_result tr \<and> list_all (\<lambda>b. \<not> is_result b) ot"
  unfolding blocksForParts_def by (erule parts_loop_apart) simp_all

lemma marks_results: "list_all is_result bs \<Longrightarrow> marks bs = 0"
  by (induction bs) (auto elim: is_result.elims)

definition shape :: "anthropic_message_param list \<Rightarrow> bool" where
  "shape ms \<longleftrightarrow> successively (\<lambda>a b. \<not> (amp_Role a = ''user'' \<and> amp_Role b = ''user'')) ms \<and>
     (\<forall>m \<in> set ms. amp_Role m \<in> {''user'', ''assistant''} \<and> amp_Content m \<noteq> [])"

text \<open>What is sent so far ends with an assistant message; the budget counts its markers.\<close>

definition sent_ok :: "anthropic_message_param list \<Rightarrow> anthropic_block_param list \<Rightarrow> cacheBudget \<Rightarrow> bool" where
  "sent_ok out ub cb \<longleftrightarrow> shape out \<and> (out \<noteq> [] \<longrightarrow> amp_Role (last out) = ''assistant'') \<and> 0 \<le> cb_skip cb \<and>
     budget_ok (marks (concat (map amp_Content out) @ ub)) cb"

lemma shape_snoc:
  "shape out \<Longrightarrow> (out \<noteq> [] \<longrightarrow> amp_Role (last out) = ''assistant'' \<or> amp_Role m = ''assistant'') \<Longrightarrow>
     amp_Role m \<in> {''user'', ''assistant''} \<Longrightarrow> amp_Content m \<noteq> [] \<Longrightarrow> shape (out @ [m])"
  by (auto simp: shape_def successively_append_iff)

lemma flush_shape:
  assumes "sent_ok out ub cb"
  shows "shape (fst (flush (out, ub)))" and
    "marks (concat (map amp_Content (fst (flush (out, ub))))) = marks (concat (map amp_Content out) @ ub)"
  using assms by (cases "ub = []"; auto simp: sent_ok_def intro!: shape_snoc)+

lemma message_step_sent:
  assumes "message_step model m ((out, ub), cb) = Inr ((out', ub'), cb')" and "sent_ok out ub cb"
  shows "sent_ok out' ub' cb' \<and> cb_skip cb' = cb_skip cb \<and> cb_seen cb' = cb_seen cb + breakpoints (m_Content m)"
  using assms(1)
proof (cases rule: message_step_cases)
  case (assistant tr ot cb1)
  let ?k = "marks (concat (map amp_Content out) @ ub)"
  from assms(2) have "budget_ok (?k + marks ([] @ [])) cb" "0 \<le> cb_skip cb" by (simp_all add: sent_ok_def)
  from parts_loop_budget [OF assistant(2) [unfolded blocksForParts_def] this]
  have b: "budget_ok (?k + marks (tr @ ot)) cb1" "cb_skip cb1 = cb_skip cb" "cb_seen cb1 = cb_seen cb + breakpoints (m_Content m)"
    by simp_all
  have "marks tr = 0" using blocks_apart [OF assistant(2)] by (simp add: marks_results)
  moreover have "ot \<noteq> []" using parts_loop_others [OF assistant(2) [unfolded blocksForParts_def]] assistant(3) by simp
  ultimately show ?thesis using assistant(4) b assms(2) flush_shape [OF assms(2)]
    by (auto simp: sent_ok_def intro!: shape_snoc)
next
  case (user tr ot cb1)
  let ?k = "marks (concat (map amp_Content out) @ ub)"
  from assms(2) have "budget_ok (?k + marks ([] @ [])) cb" "0 \<le> cb_skip cb" by (simp_all add: sent_ok_def)
  from parts_loop_budget [OF user(2) [unfolded blocksForParts_def] this] assms(2) user(3)
  show ?thesis by (simp add: sent_ok_def add.assoc)
qed

definition total_breakpoints :: "message list \<Rightarrow> int" where
  "total_breakpoints ms = breakpoints (concat (map m_Content ms))"

lemma total_breakpoints_simps [simp]: "total_breakpoints [] = 0"
  "total_breakpoints (m # ms) = breakpoints (m_Content m) + total_breakpoints ms" "0 \<le> total_breakpoints ms"
  by (simp_all add: total_breakpoints_def)

lemma messages_loop_sent:
  assumes "messages_loop model ms ((out, ub), cb) = Inr ((out', ub'), cb')" and "sent_ok out ub cb"
  shows "sent_ok out' ub' cb' \<and> cb_skip cb' = cb_skip cb \<and> cb_seen cb' = cb_seen cb + total_breakpoints ms"
  using assms
proof (induction ms arbitrary: out ub cb)
  case (Cons m ms)
  then obtain out1 ub1 cb1 where step: "message_step model m ((out, ub), cb) = Inr ((out1, ub1), cb1)"
    and rest: "messages_loop model ms ((out1, ub1), cb1) = Inr ((out', ub'), cb')"
    by (cases "message_step model m ((out, ub), cb)") auto
  from message_step_sent [OF step Cons.prems(2)] Cons.IH [OF rest] show ?case by simp
qed simp

lemma countContentBreakpoints_eq: "countContentBreakpoints ms = total_breakpoints ms"
proof -
  have parts: "foldl (\<lambda>n p. if cp_Type p = ContentText \<and> cp_CacheBreakpoint p then n + 1 else n) n ps = n + breakpoints ps"
    for n and ps by (induction ps arbitrary: n) (simp_all add: breakpoint_def)
  have "foldl (\<lambda>n m. foldl (\<lambda>n p. if cp_Type p = ContentText \<and> cp_CacheBreakpoint p then n + 1 else n) n (m_Content m)) n ms =
      n + total_breakpoints ms" for n
    by (induction ms arbitrary: n) (simp_all add: parts)
  then show ?thesis by (simp add: countContentBreakpoints_def)
qed

lemma ReasoningFrom_eq: "ReasoningFrom p ms = map (strip (\<lambda>r. case r of None \<Rightarrow> False | Some r \<Rightarrow> rs_Provider r = p)) ms"
  by (simp add: ReasoningFrom_def filterReasoning_eq)

lemma breakpoints_strip: "breakpoints (filter (\<lambda>p. \<not> rejected keep p) ps) = breakpoints ps"
  by (induction ps) (auto simp: rejected_def breakpoint_def)

lemma total_breakpoints_strip: "total_breakpoints (map (strip keep) ms) = total_breakpoints ms"
  by (induction ms) (simp_all add: breakpoints_strip)

text \<open>What a successful conversion is made of.\<close>

lemma toParams_cases:
  assumes "anthropic_toParams model req = Inr p"
  obtains sys cb where "anthropic_systemText model req = Inr sys"
    "anthropic_buildMessages model req \<lparr>cb_skip = max 0 (total_breakpoints (cr_Messages req) -
       (if systemHasBreakpoint (cr_System req) then 3 else 4)), cb_seen = 0\<rparr> = Inr (mnp_Messages p, cb)"
    "anthropic_buildTools model req = Inr (mnp_Tools p)" "anthropic_toolChoice model req = Inr (mnp_ToolChoice p)"
    "mnp_MaxTokens p = (if cr_MaxTokens req \<le> 0 then defaultMaxTokens else cr_MaxTokens req)"
    "mnp_System p = (if sys \<noteq> [] then [TextBlockParam sys (systemHasBreakpoint (cr_System req))] else [])"
    "mnp_Thinking p = rw_thinking (anthropic_mapReasoning (cr_Reasoning req))"
    "mnp_Effort p = rw_effort (anthropic_mapReasoning (cr_Reasoning req))"
  using assms
  unfolding anthropic_toParams_def Let_def countContentBreakpoints_eq Inr_case split_paired_Ex prod.case
    anthropicMaxCacheBreakpoints_def
  by (auto simp: max_def not_less split: if_splits)

lemma buildMessages_Inr:
  "anthropic_buildMessages model req cb = Inr (ms, cb') \<longleftrightarrow>
     (\<exists>out ub. messages_loop model (ReasoningFrom ProviderAnthropic (cr_Messages req)) (([], []), cb) = Inr ((out, ub), cb') \<and>
        ms = fst (flush (out, ub)) \<and> ms \<noteq> [] \<and> amp_Role (hd ms) = ''user'')"
proof (cases "messages_loop model (ReasoningFrom ProviderAnthropic (cr_Messages req)) (([], []), cb)")
  case (Inr st)
  obtain out ub cb1 where "st = ((out, ub), cb1)" by (metis prod.exhaust)
  with Inr show ?thesis by (cases "fst (flush (out, ub))") (auto simp: anthropic_buildMessages_def)
qed (simp add: anthropic_buildMessages_def)

lemma buildMessages_sent:
  assumes "anthropic_buildMessages model req \<lparr>cb_skip = k, cb_seen = 0\<rparr> = Inr (ms, cb)" and "0 \<le> k"
  shows "shape ms \<and> ms \<noteq> [] \<and> amp_Role (hd ms) = ''user'' \<and>
    marks (concat (map amp_Content ms)) = max 0 (total_breakpoints (cr_Messages req) - k)"
proof -
  let ?cb = "\<lparr>cb_skip = k, cb_seen = 0\<rparr>"
  let ?ms = "ReasoningFrom ProviderAnthropic (cr_Messages req)"
  from assms(1) obtain out ub where loop: "messages_loop model ?ms (([], []), ?cb) = Inr ((out, ub), cb)"
    and ms: "ms = fst (flush (out, ub))" "ms \<noteq> []" "amp_Role (hd ms) = ''user''"
    unfolding buildMessages_Inr by blast
  have "sent_ok [] [] ?cb" using assms(2) by (simp add: sent_ok_def shape_def budget_ok_def)
  from messages_loop_sent [OF loop this] have "sent_ok out ub cb" "cb_skip cb = k" "cb_seen cb = total_breakpoints (cr_Messages req)"
    by (simp_all add: ReasoningFrom_eq total_breakpoints_strip)
  with flush_shape [OF this(1)] ms show ?thesis by (simp add: sent_ok_def budget_ok_def)
qed

text \<open>
  C14: every request the adapter sends has the shape the Messages API demands: it starts with a user message,
  no two user messages follow each other, no message is empty, \<open>max_tokens\<close> is positive, and the cache
  markers on the system prompt and the messages are at most four. The markers on the messages are
  as many as the caller's breakpoints and the limit allow.
\<close>

theorem anthropic_requests_well_formed:
  assumes "anthropic_toParams model req = Inr p"
  shows "mnp_Messages p \<noteq> [] \<and> amp_Role (hd (mnp_Messages p)) = ''user'' \<and>
    successively (\<lambda>a b. \<not> (amp_Role a = ''user'' \<and> amp_Role b = ''user'')) (mnp_Messages p) \<and>
    (\<forall>m \<in> set (mnp_Messages p). amp_Role m \<in> {''user'', ''assistant''} \<and> amp_Content m \<noteq> []) \<and>
    0 < mnp_MaxTokens p \<and>
    marks (mnp_System p @ concat (map amp_Content (mnp_Messages p))) \<le> 4 \<and>
    marks (concat (map amp_Content (mnp_Messages p))) =
      min (countContentBreakpoints (cr_Messages req)) (if systemHasBreakpoint (cr_System req) then 3 else 4)"
proof -
  from assms obtain sys cb where "anthropic_buildMessages model req \<lparr>cb_skip = max 0 (total_breakpoints (cr_Messages req) -
       (if systemHasBreakpoint (cr_System req) then 3 else 4)), cb_seen = 0\<rparr> = Inr (mnp_Messages p, cb)"
    and rest: "mnp_MaxTokens p = (if cr_MaxTokens req \<le> 0 then defaultMaxTokens else cr_MaxTokens req)"
      "mnp_System p = (if sys \<noteq> [] then [TextBlockParam sys (systemHasBreakpoint (cr_System req))] else [])"
    by (rule toParams_cases)
  from buildMessages_sent [OF this(1)] rest show ?thesis
    by (auto simp: shape_def countContentBreakpoints_eq defaultMaxTokens_def)
qed

end
