(* ===== verification/AnthropicTurns.thy ===== *)
theory AnthropicTurns
  imports AnthropicProps
begin

text \<open>
  Which validated requests convert, with each assistant turn answered by the message after it, and
  an assistant turn of a response sent back as it came.
\<close>

section \<open>Validated transcripts convert\<close>

text \<open>What the conversion asks of a part beyond the validator: text is not empty and Anthropic's own
  reasoning is readable.\<close>

definition replayable :: "content_part \<Rightarrow> bool" where
  "replayable p \<longleftrightarrow> (cp_Type p = ContentText \<longrightarrow> cp_Text p \<noteq> []) \<and>
     (cp_Type p = ContentReasoning \<longrightarrow> (\<exists>b. thinkingBlockParam (cp_Reasoning p) = Inr b))"

definition uses :: "anthropic_block_param list \<Rightarrow> string list" where
  "uses bs = concat (map (\<lambda>b. case b of ToolUseBlockParam i _ _ \<Rightarrow> [i] | _ \<Rightarrow> []) bs)"

definition answers :: "anthropic_block_param list \<Rightarrow> string list" where
  "answers bs = concat (map (\<lambda>b. case b of ToolResultBlockParam i _ _ \<Rightarrow> [i] | _ \<Rightarrow> []) bs)"

lemma uses_simps [simp]: "uses [] = []" "uses (xs @ ys) = uses xs @ uses ys" "uses (TextBlockParam t c # bs) = uses bs"
  "uses (ToolUseBlockParam i n p # bs) = i # uses bs"
  by (simp_all add: uses_def)

lemma answers_simps [simp]: "answers [] = []" "answers (xs @ ys) = answers xs @ answers ys"
  "answers (ToolResultBlockParam i c e # bs) = i # answers bs"
  by (simp_all add: answers_def)

lemma answers_others: "list_all (\<lambda>b. \<not> is_result b) bs \<Longrightarrow> answers bs = []"
  by (induction bs) (auto simp: answers_def split: anthropic_block_param.splits)

lemma thinking_uses: "thinkingBlockParam r = Inr b \<Longrightarrow> uses (b # bs) = uses bs"
  by (auto simp: thinkingBlockParam_def uses_def split: option.splits if_splits)

lemma part_step_ok:
  assumes "part_legal r p" and "replayable p"
  shows "\<exists>st. part_step model p ((tr, ot), cb) = Inr st"
proof -
  have "cp_Type p = ContentText \<or> (cp_Type p = ContentToolCall \<and> cp_ToolCall p \<noteq> None) \<or>
      (cp_Type p = ContentToolResult \<and> cp_ToolResult p \<noteq> None) \<or> cp_Type p = ContentReasoning"
    using assms(1) by (auto simp: part_legal_def call_part_ok_def result_part_ok_def)
  then show ?thesis using assms(2)
    by (auto simp: part_step_text part_step_call part_step_result part_step_reasoning replayable_def)
qed

definition part_calls :: "content_part list \<Rightarrow> string list" where
  "part_calls ps = map (\<lambda>p. tc_ID (the (cp_ToolCall p))) (filter (\<lambda>p. cp_Type p = ContentToolCall) ps)"

definition part_results :: "content_part list \<Rightarrow> string list" where
  "part_results ps = map (\<lambda>p. tr_ToolCallID (the (cp_ToolResult p))) (filter (\<lambda>p. cp_Type p = ContentToolResult) ps)"

lemma parts_loop_ok:
  assumes "\<forall>p \<in> set ps. part_legal r p \<and> replayable p"
  shows "\<exists>tr' ot' cb'. parts_loop model ps ((tr, ot), cb) = Inr ((tr', ot'), cb') \<and>
    uses ot' = uses ot @ part_calls ps \<and> answers tr' = answers tr @ part_results ps \<and>
    length (tr' @ ot') = length (tr @ ot) + length ps \<and> length tr' = length tr + length (part_results ps)"
  using assms
proof (induction ps arbitrary: tr ot cb)
  case (Cons p ps)
  from Cons.prems obtain tr1 ot1 cb1 where step: "part_step model p ((tr, ot), cb) = Inr ((tr1, ot1), cb1)"
    using part_step_ok [of r p] by (metis list.set_intros(1) prod.exhaust)
  from step have "uses ot1 = uses ot @ part_calls [p]" "answers tr1 = answers tr @ part_results [p]"
    "length (tr1 @ ot1) = length (tr @ ot) + 1" "length tr1 = length tr + length (part_results [p])"
    by (cases rule: part_step_cases; auto simp: part_calls_def part_results_def thinking_uses)+
  with Cons.IH [of tr1 ot1 cb1] Cons.prems step show ?case by (auto simp: part_calls_def part_results_def)
qed (simp add: part_calls_def part_results_def)

lemma blocksForParts_ok:
  assumes "\<forall>p \<in> set ps. part_legal r p \<and> replayable p"
  obtains tr ot cb' where "blocksForParts model ps cb = Inr ((tr, ot), cb')" "uses ot = part_calls ps"
    "answers tr = part_results ps" "list_all is_result tr" "list_all (\<lambda>b. \<not> is_result b) ot"
    "length tr = length (part_results ps)" "length tr + length ot = length ps"
proof -
  from parts_loop_ok [OF assms, of model "[]" "[]" cb] obtain tr ot cb' where
    b: "parts_loop model ps (([], []), cb) = Inr ((tr, ot), cb')" "uses ot = part_calls ps" "answers tr = part_results ps"
      "length tr = length (part_results ps)" "length tr + length ot = length ps" by auto
  then have "blocksForParts model ps cb = Inr ((tr, ot), cb')" by (simp add: blocksForParts_def)
  from blocks_apart [OF this] b this that show ?thesis by blast
qed

text \<open>A request's tool calls are answered in the next message, before anything else in it.\<close>

definition answers_turn :: "string list \<Rightarrow> anthropic_message_param \<Rightarrow> bool" where
  "answers_turn calls u \<longleftrightarrow> amp_Role u = ''user'' \<and> (\<exists>results others. amp_Content u = results @ others \<and>
     list_all is_result results \<and> list_all (\<lambda>b. \<not> is_result b) others \<and> distinct (answers results) \<and>
     set (answers results) = set calls)"

fun answered :: "anthropic_message_param list \<Rightarrow> bool" where
  "answered [] = True"
| "answered [m] = (amp_Role m = ''assistant'' \<longrightarrow> uses (amp_Content m) = [])"
| "answered (m # u # ms) =
     ((amp_Role m = ''assistant'' \<and> uses (amp_Content m) \<noteq> [] \<longrightarrow> answers_turn (uses (amp_Content m)) u) \<and> answered (u # ms))"

lemma answered_append: "answered ms \<Longrightarrow> answered ns \<Longrightarrow> answered (ms @ ns)"
proof (induction ms rule: answered.induct)
  case (2 m)
  then show ?case by (cases ns) auto
qed auto

lemma answered_replace:
  assumes "\<And>calls. answers_turn calls u \<Longrightarrow> answers_turn calls u'" and "amp_Role u' = ''user''"
  shows "answered (ms @ [u]) \<Longrightarrow> answered (ms @ [u'])"
  by (induction ms rule: answered.induct) (auto intro: assms(1) simp: assms(2))

lemma answers_turn_more:
  "answers_turn calls \<lparr>amp_Role = ''user'', amp_Content = bs\<rparr> \<Longrightarrow> list_all (\<lambda>b. \<not> is_result b) extra \<Longrightarrow>
     answers_turn calls \<lparr>amp_Role = ''user'', amp_Content = bs @ extra\<rparr>"
  unfolding answers_turn_def
  by (elim conjE exE, rule conjI, simp, rule_tac x = results in exI, rule_tac x = "others @ extra" in exI) simp

lemma answers_turn_results:
  "list_all is_result rs \<Longrightarrow> distinct (answers rs) \<Longrightarrow> set (answers rs) = set calls \<Longrightarrow>
     answers_turn calls \<lparr>amp_Role = ''user'', amp_Content = rs\<rparr>"
  unfolding answers_turn_def by (intro conjI exI [of _ rs] exI [of _ "[]"]) simp_all

lemma answered_more:
  assumes "answered (fst (flush (out, ub)))" and "list_all (\<lambda>b. \<not> is_result b) extra"
  shows "answered (fst (flush (out, ub @ extra)))"
proof (cases "ub = []")
  case True
  with assms(1) show ?thesis by (cases "extra = []") (simp_all add: answered_append)
next
  case False
  with assms show ?thesis
    by (auto intro: answered_replace [where u = "\<lparr>amp_Role = ''user'', amp_Content = ub\<rparr>"] answers_turn_more)
qed

section \<open>Messages of a validated transcript\<close>

definition replayable_message :: "message \<Rightarrow> bool" where
  "replayable_message m \<longleftrightarrow> (\<forall>p \<in> set (m_Content m). replayable p)"

lemma part_calls_message: "call_ids m = part_calls (m_Content m)"
  by (simp add: call_ids_def part_calls_def)

lemma user_step:
  assumes "user_ok u" and "replayable_message u"
  obtains ot cb' where "message_step model u ((out, ub), cb) = Inr ((out, ub @ ot), cb')"
    "list_all (\<lambda>b. \<not> is_result b) ot" "ot \<noteq> []"
proof -
  have parts: "\<forall>p \<in> set (m_Content u). part_legal RoleUser p \<and> replayable p"
    using assms by (auto simp: user_ok_def replayable_message_def part_legal_def)
  have "part_results (m_Content u) = []" using assms(1) by (auto simp: user_ok_def part_results_def filter_empty_conv)
  with parts obtain ot cb' where "blocksForParts model (m_Content u) cb = Inr (([], ot), cb')"
    "list_all (\<lambda>b. \<not> is_result b) ot" "length ot = length (m_Content u)"
    by (rule_tac blocksForParts_ok [OF parts, of model cb]) auto
  with assms(1) that show ?thesis by (force simp: message_step_def user_ok_def)
qed

lemma tools_loop:
  assumes "\<forall>t \<in> set tools. tool_ok t"
  shows "\<exists>rs cb'. messages_loop model tools ((out, ub), cb) = Inr ((out, ub @ rs), cb') \<and> list_all is_result rs \<and>
    answers rs = concat (map result_ids tools)"
  using assms
proof (induction tools arbitrary: ub cb)
  case (Cons t tools)
  have t: "tool_ok t" using Cons.prems by simp
  then have parts: "\<forall>p \<in> set (m_Content t). part_legal RoleTool p \<and> replayable p"
    by (auto simp: tool_ok_def part_legal_def result_part_ok_def replayable_def)
  have ids: "part_results (m_Content t) = result_ids t"
    using t by (auto simp: tool_ok_def part_results_def result_ids_def result_part_ok_def filter_noop)
  then have "length (part_results (m_Content t)) = length (m_Content t)" by (simp add: result_ids_def)
  with parts ids obtain tr cb1 where "blocksForParts model (m_Content t) cb = Inr ((tr, []), cb1)"
    and tr: "answers tr = result_ids t" "list_all is_result tr"
    by (rule_tac blocksForParts_ok [OF parts, of model cb]) auto
  then have "message_step model t ((out, ub), cb) = Inr ((out, ub @ tr), cb1)"
    using t by (simp add: message_step_def tool_ok_def)
  moreover from Cons.IH [of "ub @ tr" cb1] Cons.prems obtain rs cb' where
    "messages_loop model tools ((out, ub @ tr), cb1) = Inr ((out, (ub @ tr) @ rs), cb')" "list_all is_result rs"
    "answers rs = concat (map result_ids tools)" by auto
  ultimately show ?case using tr by (intro exI [of _ "tr @ rs"]) auto
qed simp

lemma hasReply_assistant: "assistant_ok a \<Longrightarrow> hasReply (m_Content a)"
  by (auto simp: assistant_ok_def hasReply_def hasNonReasoning_iff list_ex_iff)

lemma assistant_step:
  assumes "assistant_ok a" and "replayable_message a"
  obtains ot cb' where "message_step model a ((out, ub), cb) =
      Inr ((fst (flush (out, ub)) @ [\<lparr>amp_Role = ''assistant'', amp_Content = ot\<rparr>], []), cb')" "uses ot = call_ids a"
proof -
  have parts: "\<forall>p \<in> set (m_Content a). part_legal RoleAssistant p \<and> replayable p"
    using assms by (auto simp: assistant_ok_def replayable_message_def part_legal_def)
  obtain tr ot cb' where "blocksForParts model (m_Content a) cb = Inr ((tr, ot), cb')" "uses ot = part_calls (m_Content a)"
    by (rule blocksForParts_ok [OF parts])
  with assms(1) hasReply_assistant [OF assms(1)] that show ?thesis
    by (cases "ub = []") (auto simp: message_step_def assistant_ok_def part_calls_message)
qed

definition starts_ok :: "message list \<Rightarrow> anthropic_message_param list \<Rightarrow> bool" where
  "starts_ok ms full \<longleftrightarrow> (ms \<noteq> [] \<longrightarrow> full \<noteq> [] \<and> (m_Role (hd ms) = RoleUser \<longleftrightarrow> amp_Role (hd full) = ''user''))"

lemma messages_loop_wf:
  assumes "wf_transcript ms" and "\<forall>m \<in> set ms. replayable_message m"
  shows "\<exists>out ub cb'. messages_loop model ms (([], []), cb) = Inr ((out, ub), cb') \<and>
    answered (fst (flush (out, ub))) \<and> starts_ok ms (fst (flush (out, ub)))"
  using assms
proof (induction rule: wf_transcript.induct)
  case wf_Nil
  then show ?case by (simp add: starts_ok_def)
next
  case (wf_user ms u)
  then obtain out ub cb1 where loop: "messages_loop model ms (([], []), cb) = Inr ((out, ub), cb1)"
    and inv: "answered (fst (flush (out, ub)))" "starts_ok ms (fst (flush (out, ub)))" by auto
  obtain ot cb' where step: "message_step model u ((out, ub), cb1) = Inr ((out, ub @ ot), cb')"
    and ot: "list_all (\<lambda>b. \<not> is_result b) ot" "ot \<noteq> []"
    by (rule user_step [of u model out ub cb1]) (use wf_user in auto)
  from inv(2) ot(2) have "starts_ok (ms @ [u]) (fst (flush (out, ub @ ot)))"
    using loop wf_user(2) by (cases "ms = []"; cases "ub = []") (auto simp: starts_ok_def hd_append user_ok_def)
  with loop step answered_more [OF inv(1) ot(1)] show ?case by (auto simp: messages_loop_append)
next
  case (wf_turn ms a tools)
  then obtain out ub cb1 where loop: "messages_loop model ms (([], []), cb) = Inr ((out, ub), cb1)"
    and inv: "answered (fst (flush (out, ub)))" "starts_ok ms (fst (flush (out, ub)))" by auto
  obtain ot cb2 where step: "message_step model a ((out, ub), cb1) =
      Inr ((fst (flush (out, ub)) @ [\<lparr>amp_Role = ''assistant'', amp_Content = ot\<rparr>], []), cb2)" and ot: "uses ot = call_ids a"
    by (rule assistant_step [of a model out ub cb1]) (use wf_turn in auto)
  let ?out = "fst (flush (out, ub)) @ [\<lparr>amp_Role = ''assistant'', amp_Content = ot\<rparr>]"
  obtain rs cb' where tools: "messages_loop model tools ((?out, []), cb2) = Inr ((?out, rs), cb')" "list_all is_result rs"
    and rs: "answers rs = concat (map result_ids tools)" using tools_loop [OF wf_turn(3), of model ?out "[]" cb2] by auto
  have "answered (\<lparr>amp_Role = ''assistant'', amp_Content = ot\<rparr> #
      (if rs = [] then [] else [\<lparr>amp_Role = ''user'', amp_Content = rs\<rparr>]))"
    using answers_turn_results [OF tools(2), of "call_ids a"] wf_turn(4,5) ot rs by (cases "rs = []") auto
  from answered_append [OF inv(1) this] have "answered (fst (flush (?out, rs)))" by (cases "rs = []") auto
  moreover have "starts_ok (ms @ a # tools) (fst (flush (?out, rs)))"
    using inv(2) loop wf_turn(2) by (cases "ms = []"; cases "rs = []") (auto simp: starts_ok_def assistant_ok_def hd_append)
  ultimately show ?case using loop step tools(1) by (auto simp: messages_loop_append)
qed

lemma buildMessages_wf:
  assumes "ValidateMessages (cr_Messages req) = None"
    and "\<forall>m \<in> set (ReasoningFrom ProviderAnthropic (cr_Messages req)). replayable_message m"
  shows "if m_Role (hd (cr_Messages req)) = RoleUser
    then \<exists>ms cb'. anthropic_buildMessages model req cb = Inr (ms, cb') \<and> answered ms
    else \<forall>r. anthropic_buildMessages model req cb \<noteq> Inr r"
proof -
  let ?ms = "ReasoningFrom ProviderAnthropic (cr_Messages req)"
  have ms: "cr_Messages req \<noteq> []" "wf_transcript ?ms"
    using assms(1) by (simp_all add: ValidateMessages_None_iff ReasoningFrom_eq wf_strip)
  then have hd: "?ms \<noteq> []" "m_Role (hd ?ms) = m_Role (hd (cr_Messages req))" by (simp_all add: ReasoningFrom_eq hd_map)
  obtain out ub cb' where loop: "messages_loop model ?ms (([], []), cb) = Inr ((out, ub), cb')"
    "answered (fst (flush (out, ub)))" "starts_ok ?ms (fst (flush (out, ub)))"
    using messages_loop_wf [OF ms(2) assms(2)] by blast
  show ?thesis
  proof (cases "m_Role (hd (cr_Messages req)) = RoleUser")
    case True
    with loop hd show ?thesis by (auto simp: buildMessages_Inr starts_ok_def)
  next
    case False
    with loop hd have "amp_Role (hd (fst (flush (out, ub)))) \<noteq> ''user''" by (simp add: starts_ok_def)
    with loop(1) False show ?thesis by (simp only: split_paired_All buildMessages_Inr) (simp del: flush_simps)
  qed
qed

text \<open>Conversely, what was converted was replayable.\<close>

lemma part_step_replayable: "part_step model p st = Inr st' \<Longrightarrow> replayable p"
  by (cases st) (auto elim!: part_step_cases simp: replayable_def)

lemma parts_loop_replayable: "parts_loop model ps st = Inr st' \<Longrightarrow> \<forall>p \<in> set ps. replayable p"
  by (induction ps arbitrary: st) (auto split: sum.splits dest: part_step_replayable)

lemma message_step_replayable: "message_step model m st = Inr st' \<Longrightarrow> replayable_message m"
  unfolding message_step_def blocksForParts_def replayable_message_def
  by (auto split: sum.splits prod.splits dest: parts_loop_replayable)

lemma messages_loop_replayable: "messages_loop model ms st = Inr st' \<Longrightarrow> \<forall>m \<in> set ms. replayable_message m"
  by (induction ms arbitrary: st) (auto split: sum.splits dest: message_step_replayable)

lemma system_text_ok: "system_check i ps = None \<Longrightarrow> \<exists>t. system_text_from bad b ps = Inr t"
  by (induction ps arbitrary: i b) (auto split: if_splits)

text \<open>What the adapter asks of a request beyond the validator: it starts with the user; its texts are not empty and
  Anthropic's own reasoning is readable; every tool schema is absent, null or an object of type \<open>object\<close>; and
  the tool choice fits the tools.\<close>

definition readable_thinking :: "string \<Rightarrow> bool" where
  "readable_thinking data \<longleftrightarrow> (\<exists>t. unmarshal_thinking data = Some t \<and>
     (tw_Type t = blockThinking \<and> tw_Signature t \<noteq> [] \<or> tw_Type t = blockRedactedThinking \<and> tw_Data t \<noteq> []))"

definition sendable_part :: "content_part \<Rightarrow> bool" where
  "sendable_part p \<longleftrightarrow> (cp_Type p = ContentText \<longrightarrow> cp_Text p \<noteq> []) \<and>
     (\<forall>r. cp_Type p = ContentReasoning \<and> cp_Reasoning p = Some r \<and> rs_Provider r = ProviderAnthropic \<longrightarrow>
        readable_thinking (rs_ProviderData r))"

definition sendable_schema :: "string \<Rightarrow> bool" where
  "sendable_schema s \<longleftrightarrow> s = [] \<or> (\<exists>j. unmarshal s = Some j \<and> (to_map j = Some None \<or>
     (\<exists>m. to_map j = Some (Some m) \<and> map_of m ''type'' \<in> {None, Some (JStr ''object'')})))"

definition sendable_choice :: "chat_request \<Rightarrow> bool" where
  "sendable_choice req \<longleftrightarrow>
     (if cr_Tools req = [] then tch_Type (cr_ToolChoice req) \<notin> {ToolChoiceRequired, ToolChoiceTool}
      else tch_Type (cr_ToolChoice req) = ToolChoiceTool \<longrightarrow> tch_Name (cr_ToolChoice req) \<noteq> [])"

lemma block_names_distinct [simp]: "blockRedactedThinking \<noteq> blockThinking"
  by (simp add: blockThinking_def blockRedactedThinking_def)

lemma replayable_own:
  "\<not> rejected (\<lambda>r. case r of None \<Rightarrow> False | Some r \<Rightarrow> rs_Provider r = ProviderAnthropic) p \<Longrightarrow> replayable p = sendable_part p"
  by (auto simp: rejected_def replayable_def sendable_part_def thinkingBlockParam_def readable_thinking_def split: option.splits if_splits)

lemma sendable_foreign:
  "rejected (\<lambda>r. case r of None \<Rightarrow> False | Some r \<Rightarrow> rs_Provider r = ProviderAnthropic) p \<Longrightarrow> sendable_part p"
  by (auto simp: rejected_def sendable_part_def split: option.splits)

lemma replayable_messages_iff:
  "(\<forall>m \<in> set (ReasoningFrom ProviderAnthropic ms). replayable_message m) \<longleftrightarrow> (\<forall>m \<in> set ms. \<forall>p \<in> set (m_Content m). sendable_part p)"
  using replayable_own sendable_foreign by (fastforce simp: ReasoningFrom_eq replayable_message_def)

lemma parseToolSchema_iff: "(\<exists>schema. parseToolSchema model name s = Inr schema) \<longleftrightarrow> sendable_schema s"
  by (auto simp: parseToolSchema_def sendable_schema_def Let_def split: option.splits if_splits)

lemma anthropic_tools_iff: "(\<exists>tools. anthropic_tools model ts = Inr tools) \<longleftrightarrow> (\<forall>t \<in> set ts. sendable_schema (td_InputSchema t))"
proof (induction ts)
  case (Cons t ts)
  have "(\<exists>tools. anthropic_tools model (t # ts) = Inr tools) \<longleftrightarrow>
      (\<exists>schema. parseToolSchema model (td_Name t) (td_InputSchema t) = Inr schema) \<and> (\<exists>tools. anthropic_tools model ts = Inr tools)"
    by (auto split: sum.splits)
  with Cons.IH parseToolSchema_iff show ?case by simp
qed simp

lemma buildTools_iff: "(\<exists>tools. anthropic_buildTools model req = Inr tools) \<longleftrightarrow> (\<forall>t \<in> set (cr_Tools req). sendable_schema (td_InputSchema t))"
  by (simp add: anthropic_buildTools_def anthropic_tools_iff)

lemma toolChoice_iff: "(\<exists>choice. anthropic_toolChoice model req = Inr choice) \<longleftrightarrow> sendable_choice req"
  by (auto simp: anthropic_toolChoice_def sendable_choice_def RequiresTools_def tool_choice_consts Let_def)

lemma cache_skip: "(if countContentBreakpoints ms - (if b then 4 - 1 else 4) < 0 then 0 else countContentBreakpoints ms - (if b then 4 - 1 else 4)) =
    max 0 (total_breakpoints ms - (if b then 3 else 4))"
  by (simp add: countContentBreakpoints_eq max_def)

lemma toParams_iff:
  "(\<exists>p. anthropic_toParams model req = Inr p) \<longleftrightarrow> (\<exists>sys. anthropic_systemText model req = Inr sys) \<and>
     (\<exists>r. anthropic_buildMessages model req \<lparr>cb_skip = max 0 (total_breakpoints (cr_Messages req) -
       (if systemHasBreakpoint (cr_System req) then 3 else 4)), cb_seen = 0\<rparr> = Inr r) \<and>
     (\<exists>tools. anthropic_buildTools model req = Inr tools) \<and> (\<exists>choice. anthropic_toolChoice model req = Inr choice)"
  unfolding anthropic_toParams_def Let_def anthropicMaxCacheBreakpoints_def cache_skip
  by (auto split: sum.splits prod.splits)

text \<open>
  C12: which validated requests the Anthropic conversion accepts. A request the chain's validator accepts converts exactly when
  it starts with a user message, has no empty text part, its reasoning parts of Anthropic's own are readable thinking blocks, every
  tool schema is one the API takes and the tool choice fits the tools; any other is refused. In what is sent each assistant
  message with tool calls is followed by a user message that begins with exactly the results of those calls, each once.
\<close>

theorem anthropic_valid_requests_convert:
  assumes "validateChatRequest req = None"
  shows "((\<exists>p. anthropic_toParams model req = Inr p) \<longleftrightarrow>
      m_Role (hd (cr_Messages req)) = RoleUser \<and>
      (\<forall>m \<in> set (cr_Messages req). \<forall>p \<in> set (m_Content m). sendable_part p) \<and>
      (\<forall>t \<in> set (cr_Tools req). sendable_schema (td_InputSchema t)) \<and> sendable_choice req) \<and>
    (\<forall>p. anthropic_toParams model req = Inr p \<longrightarrow> answered (mnp_Messages p))"
proof -
  let ?cb = "\<lparr>cb_skip = max 0 (total_breakpoints (cr_Messages req) - (if systemHasBreakpoint (cr_System req) then 3 else 4)), cb_seen = 0\<rparr>"
  from assms have valid: "ValidateMessages (cr_Messages req) = None" and "system_check 0 (cr_System req) = None"
    by (simp_all add: validateChatRequest_def split: option.splits)
  then have sys: "\<exists>sys. anthropic_systemText model req = Inr sys"
    using system_text_ok unfolding anthropic_systemText_def by blast
  let ?own = "\<forall>m \<in> set (ReasoningFrom ProviderAnthropic (cr_Messages req)). replayable_message m"
  have own: ?own if "anthropic_buildMessages model req ?cb = Inr r" for r
    using that messages_loop_replayable by (cases r) (auto simp: buildMessages_Inr)
  have built: "(\<exists>r. anthropic_buildMessages model req ?cb = Inr r) \<longleftrightarrow> m_Role (hd (cr_Messages req)) = RoleUser \<and> ?own"
    using own buildMessages_wf [OF valid, of model ?cb] by (auto split: if_splits)
  have "answered ms" if "anthropic_buildMessages model req ?cb = Inr (ms, cb')" for ms cb'
    using that built buildMessages_wf [OF valid, of model ?cb] by (auto split: if_splits)
  then have "\<forall>p. anthropic_toParams model req = Inr p \<longrightarrow> answered (mnp_Messages p)"
    by (auto elim: toParams_cases)
  with sys built show ?thesis
    by (simp add: toParams_iff buildTools_iff toolChoice_iff replayable_messages_iff conj_ac)
qed

section \<open>Turns come back as they were sent\<close>

definition sent_back :: "anthropic_block \<Rightarrow> anthropic_block_param option" where
  "sent_back b =
     (case b of
        TextBlock t \<Rightarrow> Some (TextBlockParam t False)
      | ThinkingBlock t sig \<Rightarrow> Some (ThinkingBlockParam sig t)
      | RedactedThinkingBlock d \<Rightarrow> Some (RedactedThinkingBlockParam d)
      | ToolUseBlock i n inp \<Rightarrow> Some (ToolUseBlockParam i inp n)
      | OtherBlock _ \<Rightarrow> None)"

text \<open>A block as the API sends it: text is not empty, thinking is signed, strings are valid UTF-8.\<close>

fun block_ok :: "anthropic_block \<Rightarrow> bool" where
  "block_ok (TextBlock t) = (t \<noteq> [])"
| "block_ok (ThinkingBlock t sig) = (sig \<noteq> [] \<and> valid_utf8 t \<and> valid_utf8 sig)"
| "block_ok (RedactedThinkingBlock d) = (d \<noteq> [] \<and> valid_utf8 d)"
| "block_ok _ = True"

lemma ascii_names [simp]: "valid_utf8 ''type''" "valid_utf8 ''thinking''" "valid_utf8 ''redacted_thinking''"
  "valid_utf8 ''signature''" "valid_utf8 ''data''" "valid_utf8 []" "valid_utf8 blockThinking" "valid_utf8 blockRedactedThinking"
  by (simp_all add: ascii_valid blockThinking_def blockRedactedThinking_def)

lemma fold_names: "fold_name ''type'' = ''type''" "fold_name ''thinking'' = ''thinking''"
  "fold_name ''signature'' = ''signature''" "fold_name ''data'' = ''data''"
  by (simp_all add: lower_def)

lemma thinking_round_trip:
  assumes "valid_utf8 (tw_Type w)" "valid_utf8 (tw_Thinking w)" "valid_utf8 (tw_Signature w)" "valid_utf8 (tw_Data w)"
  shows "unmarshal_thinking (encode_json True (thinking_json w)) = Some w"
proof -
  have "valid_json (thinking_json w)" "utf8_json (thinking_json w)"
    using assms by (simp_all add: thinking_json_def omitempty_def)
  then have "unmarshal (encode_json True (thinking_json w)) = Some (thinking_json w)"
    by (simp add: unmarshal_encode clean_utf8)
  moreover have "decode_struct set_thinking zero_thinkingWire (thinking_json w) = Some w"
    by (cases w) (simp add: decode_struct_def thinking_json_def omitempty_def fold_names set_thinking_def
      decode_string_def zero_thinkingWire_def del: fold_name.simps)
  ultimately show ?thesis by (simp add: unmarshal_thinking_def)
qed

lemma block_replays:
  assumes "block_ok b"
  shows "case sent_back b of
      None \<Rightarrow> response_step (parts, tx, calls) b = (parts, tx, calls)
    | Some q \<Rightarrow> \<exists>p tx' calls'. response_step (parts, tx, calls) b = (parts @ [p], tx', calls') \<and>
        part_step model p ((tr, ot), cb) = Inr ((tr, ot @ [q]), cb) \<and> \<not> rejected (\<lambda>r. case r of None \<Rightarrow> False | Some r \<Rightarrow> rs_Provider r = ProviderAnthropic) p"
proof (cases b)
  case (TextBlock t)
  with assms show ?thesis by (simp add: sent_back_def response_step_def part_step_text zero_part_def rejected_def)
next
  case (ThinkingBlock t sig)
  with assms show ?thesis
    by (simp add: sent_back_def response_step_def reasoningPart_def part_step_reasoning zero_part_def rejected_def
      thinkingBlockParam_def thinking_round_trip)
next
  case (RedactedThinkingBlock d)
  with assms show ?thesis
    by (simp add: sent_back_def response_step_def reasoningPart_def part_step_reasoning zero_part_def rejected_def
      thinkingBlockParam_def thinking_round_trip)
next
  case (ToolUseBlock i n inp)
  then show ?thesis by (simp add: sent_back_def response_step_def part_step_call zero_part_def rejected_def Let_def)
next
  case (OtherBlock t)
  then show ?thesis by (simp add: sent_back_def response_step_def)
qed

lemma turn_replays:
  assumes "list_all block_ok bs"
  shows "\<exists>ps tx' calls'. foldl response_step (parts, tx, calls) bs = (parts @ ps, tx', calls') \<and>
    (\<forall>model tr ot cb. parts_loop model ps ((tr, ot), cb) = Inr ((tr, ot @ List.map_filter sent_back bs), cb)) \<and>
    (\<forall>p \<in> set ps. \<not> rejected (\<lambda>r. case r of None \<Rightarrow> False | Some r \<Rightarrow> rs_Provider r = ProviderAnthropic) p)"
  using assms
proof (induction bs arbitrary: parts tx calls)
  case Nil
  then show ?case by (simp add: List.map_filter_def)
next
  case (Cons b bs)
  show ?case
  proof (cases "sent_back b")
    case None
    with block_replays [of b parts tx calls] Cons show ?thesis by (simp add: List.map_filter_def)
  next
    case (Some q)
    have rep: "block_ok b" using Cons.prems by simp
    obtain p tx1 calls1 where step: "response_step (parts, tx, calls) b = (parts @ [p], tx1, calls1)"
      and p: "\<not> rejected (\<lambda>r. case r of None \<Rightarrow> False | Some r \<Rightarrow> rs_Provider r = ProviderAnthropic) p"
      using block_replays [OF rep, of parts tx calls] unfolding Some option.case by blast
    have part: "part_step model p ((tr, ot), cb) = Inr ((tr, ot @ [q]), cb)" for model tr ot cb
      using block_replays [OF rep, of parts tx calls model tr ot cb] unfolding Some option.case step by auto
    have "list_all block_ok bs" using Cons.prems by simp
    from Cons.IH [OF this, of "parts @ [p]" tx1 calls1] obtain ps tx' calls' where
      fold: "foldl response_step (parts @ [p], tx1, calls1) bs = ((parts @ [p]) @ ps, tx', calls')"
      and ps: "\<forall>model tr ot cb. parts_loop model ps ((tr, ot), cb) = Inr ((tr, ot @ List.map_filter sent_back bs), cb)"
        "\<forall>p \<in> set ps. \<not> rejected (\<lambda>r. case r of None \<Rightarrow> False | Some r \<Rightarrow> rs_Provider r = ProviderAnthropic) p"
      by blast
    show ?thesis
    proof (intro exI conjI)
      show "foldl response_step (parts, tx, calls) (b # bs) = (parts @ (p # ps), tx', calls')" by (simp add: step fold)
      show "\<forall>model tr ot cb. parts_loop model (p # ps) ((tr, ot), cb) =
          Inr ((tr, ot @ List.map_filter sent_back (b # bs)), cb)" by (simp add: part ps(1) Some)
    qed (use p ps(2) in simp)
  qed
qed

text \<open>
  C13: an assistant turn goes back to the API exactly as it came. When the loop appends a response to the
  transcript, the next request is the earlier one with one more assistant message, and that message has the
  response's text, tool use and (redacted) thinking blocks, in their order and with their
  signatures, although in between they are app-neutral parts and JSON; no cache budget is used up.
\<close>

theorem anthropic_turn_round_trip:
  assumes "anthropic_buildMessages model (req\<lparr>cr_Messages := ms\<rparr>) cb = Inr (sent, cb')"
    and "list_all block_ok (am_Content msg)" and "hasReply (m_Content (rsp_Message (anthropic_toResponse raw msg)))"
  shows "anthropic_buildMessages model (req\<lparr>cr_Messages := ms @ [rsp_Message (anthropic_toResponse raw msg)]\<rparr>) cb =
    Inr (sent @ [\<lparr>amp_Role = ''assistant'', amp_Content = List.map_filter sent_back (am_Content msg)\<rparr>], cb')"
proof -
  let ?keep = "\<lambda>r. case r of None \<Rightarrow> False | Some r \<Rightarrow> rs_Provider r = ProviderAnthropic"
  from turn_replays [OF assms(2), of "[]" "[]" "[]"] obtain ps tx calls where
    resp: "foldl response_step ([], [], []) (am_Content msg) = (ps, tx, calls)"
    and loop: "\<And>cb. parts_loop model ps (([], []), cb) = Inr (([], List.map_filter sent_back (am_Content msg)), cb)"
    and kept: "\<forall>p \<in> set ps. \<not> rejected ?keep p" by auto
  have m: "rsp_Message (anthropic_toResponse raw msg) = \<lparr>m_Role = RoleAssistant, m_Content = ps\<rparr>"
    by (simp add: anthropic_toResponse_def resp)
  have strip: "strip ?keep \<lparr>m_Role = RoleAssistant, m_Content = ps\<rparr> = \<lparr>m_Role = RoleAssistant, m_Content = ps\<rparr>"
    using kept by (simp add: strip_def filter_noop)
  from assms(1) obtain out ub where st: "messages_loop model (ReasoningFrom ProviderAnthropic ms) (([], []), cb) = Inr ((out, ub), cb')"
    "sent = fst (flush (out, ub))" "sent \<noteq> []" "amp_Role (hd sent) = ''user''" by (auto simp: buildMessages_Inr)
  have "message_step model \<lparr>m_Role = RoleAssistant, m_Content = ps\<rparr> ((out, ub), cb') =
      Inr ((sent @ [\<lparr>amp_Role = ''assistant'', amp_Content = List.map_filter sent_back (am_Content msg)\<rparr>], []), cb')"
    using assms(3) loop st(2) by (cases "ub = []") (simp_all add: message_step_def blocksForParts_def m)
  with st show ?thesis by (simp add: buildMessages_Inr ReasoningFrom_eq strip messages_loop_append m)
qed

section \<open>A conversation\<close>

definition demo_question :: chat_request where
  "demo_question = zero_request\<lparr>cr_System := [(Text ''Be brief.'')\<lparr>cp_CacheBreakpoint := True\<rparr>],
     cr_Messages := [\<lparr>m_Role = RoleUser, m_Content = [(Text ''Which model?'')\<lparr>cp_CacheBreakpoint := True\<rparr>]\<rparr>]\<rparr>"

definition demo_answer :: anthropic_message where
  "demo_answer = \<lparr>am_ID = ''msg_1'', am_Content = [ThinkingBlock ''Look it up.'' ''c2ln'', TextBlock ''One moment.'',
     ToolUseBlock ''toolu_1'' ''models'' ''{}''], am_StopReason = ''tool_use'',
     am_Usage = \<lparr>aus_InputTokens = 12, aus_OutputTokens = 30, aus_CacheReadInputTokens = 0, aus_CacheCreationInputTokens = 0,
       aus_ThinkingTokens = Some 10\<rparr>\<rparr>"

definition demo_sent :: "anthropic_message_param list" where
  "demo_sent = [\<lparr>amp_Role = ''user'', amp_Content = [TextBlockParam ''Which model?'' True]\<rparr>]"

lemma demo_question_strip:
  "ReasoningFrom p (cr_Messages demo_question) = cr_Messages demo_question"
  by (simp add: ReasoningFrom_eq demo_question_def zero_request_def strip_def rejected_def Text_def zero_part_def)

lemma demo_build: "anthropic_buildMessages model demo_question \<lparr>cb_skip = 0, cb_seen = 0\<rparr> =
    Inr (demo_sent, \<lparr>cb_skip = 0, cb_seen = 1\<rparr>)"
  unfolding buildMessages_Inr demo_question_strip
  by (intro exI [of _ "[]"] exI [of _ "[TextBlockParam ''Which model?'' True]"])
    (simp add: demo_question_def zero_request_def message_step_def blocksForParts_def part_step_text Text_def zero_part_def
      demo_sent_def)

theorem anthropic_requests_well_formed_witness:
  "\<exists>p. anthropic_toParams ''claude'' demo_question = Inr p \<and> 0 < mnp_MaxTokens p \<and>
     marks (mnp_System p @ concat (map amp_Content (mnp_Messages p))) \<le> 4"
proof -
  have "countContentBreakpoints (cr_Messages demo_question) = 1" "systemHasBreakpoint (cr_System demo_question)"
    "anthropic_systemText ''claude'' demo_question = Inr ''Be brief.''" "cr_Tools demo_question = []"
    "\<not> RequiresTools (cr_ToolChoice demo_question)"
    by (simp_all add: countContentBreakpoints_def systemHasBreakpoint_def demo_question_def zero_request_def Text_def zero_part_def
      anthropic_systemText_def write_text_def RequiresTools_def tool_choice_consts)
  then obtain p where "anthropic_toParams ''claude'' demo_question = Inr p"
    by (simp add: anthropic_toParams_def anthropicMaxCacheBreakpoints_def demo_build anthropic_buildTools_def
      anthropic_toolChoice_def Let_def)
  with anthropic_requests_well_formed [OF this] show ?thesis by blast
qed

theorem anthropic_valid_requests_convert_witness:
  "(\<exists>p. anthropic_toParams ''claude'' demo_question = Inr p \<and> answered (mnp_Messages p)) \<and>
   (\<forall>p. anthropic_toParams ''claude'' (demo_question\<lparr>cr_ToolChoice := \<lparr>tch_Type = ToolChoiceRequired, tch_Name = []\<rparr>\<rparr>) \<noteq> Inr p)"
proof -
  have "validateChatRequest demo_question = None"
    by (simp add: validateChatRequest_def demo_question_def zero_request_def ValidateMessages_None_iff Text_def zero_part_def
      wf_user [OF wf_Nil, simplified] user_ok_def)
  moreover from this have "validateChatRequest (demo_question\<lparr>cr_ToolChoice := tc\<rparr>) = None" for tc
    by (simp add: validateChatRequest_def demo_question_def zero_request_def)
  moreover have "m_Role (hd (cr_Messages demo_question)) = RoleUser" "cr_Tools demo_question = []"
    "sendable_choice demo_question" "\<forall>m \<in> set (cr_Messages demo_question). \<forall>p \<in> set (m_Content m). sendable_part p"
    by (simp_all add: demo_question_def zero_request_def sendable_choice_def tool_choice_consts sendable_part_def Text_def zero_part_def)
  moreover from this have "\<not> sendable_choice (demo_question\<lparr>cr_ToolChoice := \<lparr>tch_Type = ToolChoiceRequired, tch_Name = []\<rparr>\<rparr>)"
    by (simp add: sendable_choice_def)
  ultimately show ?thesis
    using anthropic_valid_requests_convert [of demo_question "''claude''"]
      anthropic_valid_requests_convert [of "demo_question\<lparr>cr_ToolChoice := \<lparr>tch_Type = ToolChoiceRequired, tch_Name = []\<rparr>\<rparr>" "''claude''"]
    by auto
qed

theorem anthropic_turn_round_trip_witness:
  "anthropic_buildMessages ''claude'' (demo_question\<lparr>cr_Messages := cr_Messages demo_question @
       [rsp_Message (anthropic_toResponse (\<lambda>_. JNull) demo_answer)]\<rparr>) \<lparr>cb_skip = 0, cb_seen = 0\<rparr> =
     Inr (demo_sent @ [\<lparr>amp_Role = ''assistant'', amp_Content = [ThinkingBlockParam ''c2ln'' ''Look it up.'',
       TextBlockParam ''One moment.'' False, ToolUseBlockParam ''toolu_1'' ''{}'' ''models'']\<rparr>], \<lparr>cb_skip = 0, cb_seen = 1\<rparr>)"
proof -
  have "list_all block_ok (am_Content demo_answer)" by (simp add: demo_answer_def ascii_valid)
  moreover have "hasReply (m_Content (rsp_Message (anthropic_toResponse (\<lambda>_. JNull) demo_answer)))"
    by (simp add: demo_answer_def anthropic_toResponse_def response_step_def reasoningPart_def hasReply_def zero_part_def Let_def)
  moreover have "demo_question\<lparr>cr_Messages := cr_Messages demo_question\<rparr> = demo_question" by simp
  ultimately show ?thesis
    using anthropic_turn_round_trip [of "''claude''" "cr_Messages demo_question" demo_question "\<lparr>cb_skip = 0, cb_seen = 0\<rparr>"
        demo_sent "\<lparr>cb_skip = 0, cb_seen = 1\<rparr>" demo_answer "\<lambda>_. JNull"] demo_build [of "''claude''"]
    by (simp add: demo_answer_def sent_back_def List.map_filter_def)
qed

end
