(* ===== verification/AnthropicClient.thy ===== *)
theory AnthropicClient
  imports ChatAdapter AnthropicTurns
begin

text \<open>
  The Anthropic client (\<open>anthropic.go\<close>, \<open>errors.go\<close>): \<open>Complete\<close> and the classification of the SDK's errors. The
  client's record holds the SDK's call with the parameters and, when the caller has provider parameters,
  the members the middleware merges into the body. \<open>sdk_error\<close> is \<open>errors.As\<close> for the SDK's error type with
  what the source reads of it.
\<close>

record api_error =
  ae_StatusCode :: int
  ae_Header :: "http_header option"
  ae_Error :: string
  ae_Type :: string
  ae_Code :: string
  ae_Message :: string
  ae_RawJSON :: string

record error_env =
  ee_sdk_error :: "error \<Rightarrow> api_error option"
  ee_err_text :: "error \<Rightarrow> string"
  ee_http_date :: "string \<Rightarrow> int option"
  ee_now :: int

text \<open>The extractor the SDK-based adapters pass to the classifier.\<close>

definition sdk_extract :: "error_env \<Rightarrow> extractor" where
  "sdk_extract env e =
     (case ee_sdk_error env e of
        None \<Rightarrow> None
      | Some ae \<Rightarrow> Some (ae_StatusCode ae, ae_Header ae, ae_Error ae))"

definition promptTooLong :: string where "promptTooLong = ''prompt is too long''"

definition set_message :: "string \<Rightarrow> json \<Rightarrow> string \<Rightarrow> string option" where
  "set_message k v msg = (if k = ''message'' then decode_string v msg else Some msg)"

definition set_error_body :: "string \<Rightarrow> json \<Rightarrow> string \<Rightarrow> string option" where
  "set_error_body k v msg = (if k = ''error'' then decode_struct set_message msg v else Some msg)"

definition anthropic_isContextOverflow :: "error_env \<Rightarrow> error \<Rightarrow> bool" where
  "anthropic_isContextOverflow env e =
     (case ee_sdk_error env e of
        None \<Rightarrow> False
      | Some ae \<Rightarrow>
          if ae_Type ae \<noteq> ''invalid_request_error'' then False
          else case (case unmarshal (ae_RawJSON ae) of None \<Rightarrow> None | Some j \<Rightarrow> decode_struct set_error_body [] j) of
            None \<Rightarrow> False
          | Some msg \<Rightarrow> take (length promptTooLong) msg = promptTooLong)"

definition anthropic_classifyError :: "error_env \<Rightarrow> string \<Rightarrow> error \<Rightarrow> error option" where
  "anthropic_classifyError env model e =
     ClassifyOverflow (ee_err_text env) (ee_http_date env) (ee_now env) ProviderAnthropic model (Some e)
       (sdk_extract env) (Some (anthropic_isContextOverflow env))"

record 'w anthropic_client =
  an_Messages_New :: "ctx \<Rightarrow> message_new_params \<Rightarrow> (string \<times> json) list option \<Rightarrow> 'w \<Rightarrow> (error + anthropic_message) \<times> 'w"
  an_model :: string
  an_noListing :: string
  an_errors :: error_env
  an_raw :: "anthropic_message \<Rightarrow> json"

definition anthropic_Model :: "'w anthropic_client \<Rightarrow> model_ref" where
  "anthropic_Model c = \<lparr>mr_Provider = ProviderAnthropic, mr_Name = an_model c\<rparr>"

definition anthropic_respond :: "'w anthropic_client \<Rightarrow> chat_request \<Rightarrow> (string \<times> json) list option \<Rightarrow> anthropic_message \<Rightarrow> chat_response" where
  "anthropic_respond c req extra msg =
     (anthropic_toResponse (an_raw c) msg)
       \<lparr>rsp_AppliedReasoning := withoutOverridden (rw_applied (anthropic_mapReasoning (cr_Reasoning req))) extra\<rparr>"

definition anthropic_Complete :: "'w anthropic_client \<Rightarrow> ctx \<Rightarrow> chat_request \<Rightarrow> 'w \<Rightarrow> (chat_response \<times> error option) \<times> 'w" where
  "anthropic_Complete c ctx req w =
     (case For req ProviderAnthropic of
        Inl err \<Rightarrow> ((zero_response, Some (anthropic_badRequest (an_model c) (error_text err))), w)
      | Inr extra \<Rightarrow>
          (case anthropic_toParams (an_model c) req of
             Inl err \<Rightarrow> ((zero_response, Some err), w)
           | Inr params \<Rightarrow>
               (case an_Messages_New c ctx params extra w of
                  (Inl apiErr, w') \<Rightarrow> ((zero_response, anthropic_classifyError (an_errors c) (an_model c) apiErr), w')
                | (Inr msg, w') \<Rightarrow> ((anthropic_respond c req extra msg, None), w'))))"

section \<open>The adapter's interface\<close>

lemma anthropic_bad_own: "own_error ProviderAnthropic ErrorKindBadRequest (anthropic_badRequest model msg)"
  by (simp add: anthropic_badRequest_def)

lemma anthropic_loop_errors:
  "part_step model p pst = Inl e \<Longrightarrow> own_error ProviderAnthropic ErrorKindBadRequest e"
  "parts_loop model ps pst = Inl e \<Longrightarrow> own_error ProviderAnthropic ErrorKindBadRequest e"
proof -
  show step: "part_step model p pst = Inl e \<Longrightarrow> own_error ProviderAnthropic ErrorKindBadRequest e" for p pst
  proof -
    assume e: "part_step model p pst = Inl e"
    obtain tr ot cb where st: "pst = ((tr, ot), cb)" by (metis prod.exhaust)
    consider "cp_Type p = ContentText" | "cp_Type p = ContentToolCall" | "cp_Type p = ContentToolResult"
      | "cp_Type p = ContentReasoning"
      | "cp_Type p \<notin> {ContentText, ContentToolCall, ContentToolResult, ContentReasoning}" by auto
    then show "own_error ProviderAnthropic ErrorKindBadRequest e"
      by cases (use e in \<open>auto simp: st part_step_text part_step_call part_step_result part_step_reasoning part_step_other
        anthropic_bad_own split: if_splits option.splits sum.splits\<close>)
  qed
  show "parts_loop model ps pst = Inl e \<Longrightarrow> own_error ProviderAnthropic ErrorKindBadRequest e"
    by (induction ps arbitrary: pst) (auto split: sum.splits dest: step)
qed

lemma anthropic_messages_error: "messages_loop model ms st = Inl e \<Longrightarrow> own_error ProviderAnthropic ErrorKindBadRequest e"
proof (induction ms arbitrary: st)
  case (Cons m ms)
  show ?case
  proof (cases "message_step model m st")
    case (Inl e')
    with Cons.prems show ?thesis
      by (auto simp: message_step_def blocksForParts_def anthropic_bad_own Let_def split: prod.splits sum.splits if_splits
        dest: anthropic_loop_errors(2))
  qed (use Cons in simp)
qed simp

lemma anthropic_tools_error: "anthropic_tools model ts = Inl e \<Longrightarrow> own_error ProviderAnthropic ErrorKindBadRequest e"
  by (induction ts) (auto simp: parseToolSchema_def Let_def anthropic_bad_own split: sum.splits if_splits option.splits)

lemma anthropic_toParams_error:
  assumes "anthropic_toParams model req = Inl e"
  shows "own_error ProviderAnthropic ErrorKindBadRequest e"
proof -
  have sys: "anthropic_systemText model req = Inl e \<Longrightarrow> own_error ProviderAnthropic ErrorKindBadRequest e" for e
    using system_text_error by (fastforce simp: anthropic_systemText_def anthropic_bad_own)
  have msgs: "anthropic_buildMessages model req cb = Inl e \<Longrightarrow> own_error ProviderAnthropic ErrorKindBadRequest e" for cb e
    by (auto simp: anthropic_buildMessages_def anthropic_bad_own split: sum.splits prod.splits list.splits if_splits
      dest: anthropic_messages_error)
  have tools: "anthropic_buildTools model req = Inl e \<Longrightarrow> own_error ProviderAnthropic ErrorKindBadRequest e" for e
    by (auto simp: anthropic_buildTools_def split: if_splits dest: anthropic_tools_error)
  have choice: "anthropic_toolChoice model req = Inl e \<Longrightarrow> own_error ProviderAnthropic ErrorKindBadRequest e" for e
    by (auto simp: anthropic_toolChoice_def Let_def anthropic_bad_own split: if_splits)
  from assms show ?thesis unfolding anthropic_toParams_def Let_def
    by (auto split: sum.splits prod.splits dest: sys msgs tools choice)
qed

lemma anthropic_fold_mirrors:
  "foldl response_step (parts, tx, calls) bs = (parts', tx', calls') \<Longrightarrow>
     calls = tool_calls parts \<Longrightarrow>
     calls' = tool_calls parts'"
proof (induction bs arbitrary: parts tx calls)
  case (Cons b bs)
  obtain parts1 tx1 calls1 where st: "response_step (parts, tx, calls) b = (parts1, tx1, calls1)" by (metis prod.exhaust)
  from st Cons.prems(2) have "calls1 = tool_calls parts1"
    by (cases b) (auto simp: response_step_def reasoningPart_def zero_part_def Let_def List.map_filter_def)
  with Cons.IH [of parts1 tx1 calls1] Cons.prems(1) st show ?case by simp
qed simp

lemma anthropic_respond_mirrors: "mirrors (anthropic_respond c req extra msg)"
  using anthropic_fold_mirrors [of "[]" "[]" "[]" "am_Content msg"]
  by (auto simp: mirrors_def anthropic_respond_def anthropic_toResponse_def List.map_filter_def split: prod.split)

interpretation anthropic: chat_adapter ProviderAnthropic "anthropic_badRequest (an_model c)"
    "\<lambda>req. Some (anthropic_toParams (an_model c) req)" "an_Messages_New c"
    "anthropic_classifyError (an_errors c) (an_model c)" "anthropic_respond c" "\<lambda>ctx req w. Some (anthropic_Complete c ctx req w)"
  for c :: "'w anthropic_client"
  by unfold_locales (auto simp: anthropic_Complete_def anthropic_bad_own anthropic_toParams_error anthropic_respond_mirrors
    anthropic_classifyError_def ClassifyOverflow_keeps split: sum.split prod.split)

lemmas anthropic_complete_cases = anthropic.complete_cases [unfolded option.inject, consumes 1, case_names rejected failed answered]

section \<open>Properties\<close>

lemmas effort_consts = ReasoningEffortNone_def ReasoningEffortMinimal_def ReasoningEffortLow_def ReasoningEffortMedium_def
  ReasoningEffortHigh_def ReasoningEffortXHigh_def ReasoningEffortMax_def

lemma mapReasoning_applied:
  assumes "rw_applied (anthropic_mapReasoning r) = Some a"
  shows "0 \<le> rc_BudgetTokens a \<and>
    (rc_BudgetTokens a \<noteq> 0 \<longrightarrow> rw_thinking (anthropic_mapReasoning r) = Some (ThinkingEnabled (rc_BudgetTokens a))) \<and>
    (rc_Effort a = ReasoningEffortNone \<longrightarrow> rw_thinking (anthropic_mapReasoning r) = Some ThinkingDisabled) \<and>
    (rc_Effort a \<notin> {[], ReasoningEffortNone} \<longrightarrow> rw_effort (anthropic_mapReasoning r) = rc_Effort a)"
proof -
  from assms obtain r' where r: "r = Some r'" by (cases r) (simp_all add: anthropic_mapReasoning_def)
  show ?thesis
    using assms unfolding r anthropic_mapReasoning_def Let_def option.case
    by (cases "rc_BudgetTokens r' > 0"; cases "rc_Effort r' = ReasoningEffortNone")
      (auto simp: zero_reasoning_config_def effort_consts split: if_splits)
qed

lemma withoutOverridden_sound:
  assumes "withoutOverridden ap extra = Some a"
  obtains b where "ap = Some b"
    "0 < rc_BudgetTokens a \<Longrightarrow> rc_BudgetTokens b = rc_BudgetTokens a \<and>
       (\<forall>m. extra = Some m \<longrightarrow> \<not> Overrides m [''thinking'', ''type''] \<and> \<not> Overrides m [''thinking'', ''budget_tokens''])"
    "rc_BudgetTokens a = 0 \<or> rc_BudgetTokens a = rc_BudgetTokens b"
    "rc_Effort a \<noteq> [] \<Longrightarrow> rc_Effort b = rc_Effort a"
    "rc_Effort a = ReasoningEffortNone \<Longrightarrow> (\<forall>m. extra = Some m \<longrightarrow> \<not> Overrides m [''thinking'', ''type''])"
    "rc_Effort a \<notin> {[], ReasoningEffortNone} \<Longrightarrow> (\<forall>m. extra = Some m \<longrightarrow> \<not> Overrides m [''output_config'', ''effort''])"
proof (cases ap)
  case None
  with assms show ?thesis by (simp add: withoutOverridden_def)
next
  case b: (Some b)
  have "ReasoningEffortNone \<noteq> []" by (simp add: effort_consts)
  show ?thesis
  proof (cases extra)
    case None
    with assms b show ?thesis by (intro that [of b]) (simp_all add: withoutOverridden_def)
  next
    case (Some m)
    with assms b \<open>ReasoningEffortNone \<noteq> []\<close> show ?thesis
      by (intro that [of b]) (auto simp: withoutOverridden_def Let_def split: if_splits)
  qed
qed

text \<open>
  C11: the reasoning an answer reports as applied is what was sent: a setting appears in \<open>AppliedReasoning\<close> only if
  the request's parameters carry it on the wire and the caller's provider parameters do not replace it there.
\<close>

theorem anthropic_applied_is_sent:
  assumes "anthropic_Complete c ctx req w = ((resp, None), w')" and "rsp_AppliedReasoning resp = Some a"
  shows "\<exists>p extra msg. an_Messages_New c ctx p extra w = (Inr msg, w') \<and> For req ProviderAnthropic = Inr extra \<and>
    (rc_BudgetTokens a \<noteq> 0 \<longrightarrow> mnp_Thinking p = Some (ThinkingEnabled (rc_BudgetTokens a)) \<and>
       (\<forall>m. extra = Some m \<longrightarrow> \<not> Overrides m [''thinking'', ''type''] \<and> \<not> Overrides m [''thinking'', ''budget_tokens''])) \<and>
    (rc_Effort a = ReasoningEffortNone \<longrightarrow> mnp_Thinking p = Some ThinkingDisabled \<and>
       (\<forall>m. extra = Some m \<longrightarrow> \<not> Overrides m [''thinking'', ''type''])) \<and>
    (rc_Effort a \<notin> {[], ReasoningEffortNone} \<longrightarrow> mnp_Effort p = rc_Effort a \<and>
       (\<forall>m. extra = Some m \<longrightarrow> \<not> Overrides m [''output_config'', ''effort'']))"
  using assms(1)
proof (cases rule: anthropic_complete_cases)
  case (answered p extra msg)
  let ?rw = "anthropic_mapReasoning (cr_Reasoning req)"
  have wire: "mnp_Thinking p = rw_thinking ?rw" "mnp_Effort p = rw_effort ?rw"
    by (rule toParams_cases [OF answered(2)], simp)+
  from answered(5) assms(2) have "withoutOverridden (rw_applied ?rw) extra = Some a" by (simp add: anthropic_respond_def)
  then show ?thesis
  proof (rule withoutOverridden_sound)
    fix b
    assume b: "rw_applied ?rw = Some b"
      and sound: "0 < rc_BudgetTokens a \<Longrightarrow> rc_BudgetTokens b = rc_BudgetTokens a \<and>
         (\<forall>m. extra = Some m \<longrightarrow> \<not> Overrides m [''thinking'', ''type''] \<and> \<not> Overrides m [''thinking'', ''budget_tokens''])"
        "rc_BudgetTokens a = 0 \<or> rc_BudgetTokens a = rc_BudgetTokens b"
        "rc_Effort a \<noteq> [] \<Longrightarrow> rc_Effort b = rc_Effort a"
        "rc_Effort a = ReasoningEffortNone \<Longrightarrow> (\<forall>m. extra = Some m \<longrightarrow> \<not> Overrides m [''thinking'', ''type''])"
        "rc_Effort a \<notin> {[], ReasoningEffortNone} \<Longrightarrow> (\<forall>m. extra = Some m \<longrightarrow> \<not> Overrides m [''output_config'', ''effort''])"
    have "ReasoningEffortNone \<noteq> []" by (simp add: effort_consts)
    with mapReasoning_applied [OF b] sound answered(1,3) wire show ?thesis
      by (intro exI [of _ p] exI [of _ extra] exI [of _ msg]) auto
  qed
qed simp_all

text \<open>A server that always gives the demo answer, asked with a thinking budget and an effort.\<close>

definition demo_client :: "unit anthropic_client" where
  "demo_client = \<lparr>an_Messages_New = (\<lambda>_ _ _ w. (Inr demo_answer, w)), an_model = ''claude'', an_noListing = [],
     an_errors = \<lparr>ee_sdk_error = (\<lambda>_. None), ee_err_text = (\<lambda>_. []), ee_http_date = (\<lambda>_. None), ee_now = 0\<rparr>,
     an_raw = (\<lambda>_. JNull)\<rparr>"

definition demo_thinking :: chat_request where
  "demo_thinking = demo_question\<lparr>cr_Reasoning := Some \<lparr>rc_Effort = ReasoningEffortHigh, rc_BudgetTokens = 2048\<rparr>\<rparr>"

lemma demo_thinking_params: "\<exists>p. anthropic_toParams model demo_thinking = Inr p"
proof -
  have "countContentBreakpoints (cr_Messages demo_thinking) = 1" "systemHasBreakpoint (cr_System demo_thinking)"
    "anthropic_systemText model demo_thinking = Inr ''Be brief.''" "cr_Tools demo_thinking = []"
    "\<not> RequiresTools (cr_ToolChoice demo_thinking)"
    by (simp_all add: countContentBreakpoints_def systemHasBreakpoint_def demo_thinking_def demo_question_def zero_request_def
      Text_def zero_part_def anthropic_systemText_def write_text_def RequiresTools_def tool_choice_consts)
  moreover have "anthropic_buildMessages model demo_thinking cb = anthropic_buildMessages model demo_question cb" for cb
    by (simp add: anthropic_buildMessages_def demo_thinking_def)
  ultimately show ?thesis
    by (simp add: anthropic_toParams_def anthropicMaxCacheBreakpoints_def demo_build anthropic_buildTools_def
      anthropic_toolChoice_def Let_def)
qed

theorem anthropic_applied_is_sent_witness:
  "\<exists>resp (p :: message_new_params). anthropic_Complete demo_client background demo_thinking () = ((resp, None), ()) \<and>
     rsp_AppliedReasoning resp = Some \<lparr>rc_Effort = ReasoningEffortHigh, rc_BudgetTokens = 2048\<rparr> \<and>
     mnp_Thinking p = Some (ThinkingEnabled 2048) \<and> mnp_Effort p = ReasoningEffortHigh"
proof -
  let ?a = "\<lparr>rc_Effort = ReasoningEffortHigh, rc_BudgetTokens = 2048\<rparr>"
  have "For demo_thinking ProviderAnthropic = Inr None" by (simp add: For_def demo_thinking_def demo_question_def zero_request_def)
  moreover obtain p where "anthropic_toParams ''claude'' demo_thinking = Inr p" using demo_thinking_params by blast
  moreover have "rw_applied (anthropic_mapReasoning (cr_Reasoning demo_thinking)) = Some ?a"
    by (simp add: demo_thinking_def anthropic_mapReasoning_def zero_reasoning_config_def Let_def)
  ultimately obtain resp where resp: "anthropic_Complete demo_client background demo_thinking () = ((resp, None), ())"
      "rsp_AppliedReasoning resp = Some ?a"
    by (simp add: anthropic_Complete_def demo_client_def anthropic_respond_def withoutOverridden_def)
  have "ReasoningEffortHigh \<notin> {[], ReasoningEffortNone}" by (simp add: effort_consts)
  with anthropic_applied_is_sent [OF resp] obtain q :: message_new_params where
    "mnp_Thinking q = Some (ThinkingEnabled 2048)" "mnp_Effort q = ReasoningEffortHigh"
    by (simp del: Overrides.simps) blast
  with resp show ?thesis by blast
qed

end
