(* ===== verification/OpenAI.thy ===== *)
theory OpenAI
  imports AnthropicClient
begin

text \<open>
  The OpenAI chat adapter (\<open>llms/providers/openai\<close>: \<open>chatconvert.go\<close>, \<open>chat.go\<close>, \<open>errors.go\<close>) over the Responses API. The
  input is a list of items in conversation order. \<open>buildTools\<close> writes into the decoded schema map; the
  write panics when that map is nil, which is the value \<open>None\<close> here and in what calls it.
\<close>

section \<open>The SDK's types\<close>

datatype input_item =
    MessageItem (mi_Text: string) (mi_Role: string)
  | FunctionCallItem (fci_Arguments: string) (fci_CallID: string) (fci_Name: string)
  | FunctionCallOutputItem (fco_CallID: string) (fco_Output: string)

record function_tool_param =
  ftp_Name :: string
  ftp_Description :: "string option"
  ftp_Parameters :: "(string \<times> json) list"
  ftp_Strict :: bool

datatype openai_tool_choice = ModeChoice string | FunctionChoice string

record response_new_params =
  rnp_Model :: string
  rnp_Input :: "input_item list"
  rnp_Instructions :: "string option"
  rnp_MaxOutputTokens :: "int option"
  rnp_Temperature :: "rat option"
  rnp_Tools :: "function_tool_param list"
  rnp_ToolChoice :: "openai_tool_choice option"
  rnp_ReasoningEffort :: string

datatype output_content = OutputText string | OtherContent string

datatype output_item =
    OutputFunctionCall (ofc_CallID: string) (ofc_Name: string) (ofc_Arguments: string)
  | OutputMessage "output_content list"
  | OtherItem string

record openai_usage =
  ous_InputTokens :: int
  ous_OutputTokens :: int
  ous_TotalTokens :: int
  ous_CachedTokens :: int
  ous_CacheWriteTokens :: int
  ous_ReasoningTokens :: int

record openai_response =
  or_ID :: string
  or_Status :: string
  or_IncompleteReason :: string
  or_Output :: "output_item list"
  or_Usage :: openai_usage

section \<open>Requests\<close>

definition chatBadRequest :: "string \<Rightarrow> string \<Rightarrow> error" where
  "chatBadRequest model msg = ProviderError ProviderOpenAI model ErrorKindBadRequest 0 msg 0 None"

definition openai_systemText :: "string \<Rightarrow> chat_request \<Rightarrow> error + string" where
  "openai_systemText model req = system_text_from (chatBadRequest model) [] (cr_System req)"

definition openai_roleFor :: "role \<Rightarrow> string option" where
  "openai_roleFor r = (if r = RoleUser then Some ''user'' else if r = RoleAssistant then Some ''assistant'' else None)"

text \<open>The item of one part.\<close>

definition input_part :: "string \<Rightarrow> role \<Rightarrow> content_part \<Rightarrow> error + input_item" where
  "input_part model r p =
     (if cp_Type p = ContentText then
        (if cp_Text p = [] then Inl (chatBadRequest model ''empty text content part'')
         else case openai_roleFor r of
           None \<Rightarrow> Inl (chatBadRequest model (''text content not valid for role '' @ r))
         | Some role \<Rightarrow> Inr (MessageItem (cp_Text p) role))
      else if cp_Type p = ContentToolCall then
        (case cp_ToolCall p of
           None \<Rightarrow> Inl (chatBadRequest model ''tool_call content part with nil ToolCall'')
         | Some tc \<Rightarrow> Inr (FunctionCallItem (tc_Parameters tc) (tc_ID tc) (tc_Name tc)))
      else if cp_Type p = ContentToolResult then
        (case cp_ToolResult p of
           None \<Rightarrow> Inl (chatBadRequest model ''tool_result content part with nil ToolResult'')
         | Some tr \<Rightarrow> Inr (FunctionCallOutputItem (tr_ToolCallID tr) (tr_Content tr)))
      else Inl (chatBadRequest model (''unknown content part type: '' @ cp_Type p)))"

fun input_parts :: "string \<Rightarrow> role \<Rightarrow> content_part list \<Rightarrow> input_item list \<Rightarrow> error + input_item list" where
  "input_parts model r [] items = Inr items"
| "input_parts model r (p # ps) items =
     (case input_part model r p of Inl err \<Rightarrow> Inl err | Inr item \<Rightarrow> input_parts model r ps (items @ [item]))"

fun input_messages :: "string \<Rightarrow> message list \<Rightarrow> input_item list \<Rightarrow> error + input_item list" where
  "input_messages model [] items = Inr items"
| "input_messages model (m # ms) items =
     (case input_parts model (m_Role m) (m_Content m) items of
        Inl err \<Rightarrow> Inl err
      | Inr items \<Rightarrow> input_messages model ms items)"

definition buildInput :: "string \<Rightarrow> chat_request \<Rightarrow> error + input_item list" where
  "buildInput model req =
     (case input_messages model (ReasoningFrom ProviderOpenAI (cr_Messages req)) [] of
        Inl err \<Rightarrow> Inl err
      | Inr items \<Rightarrow>
          (if items = [] then Inl (chatBadRequest model ''request has no messages'') else Inr items))"

text \<open>The parameters of one tool: \<open>None\<close> when the schema decodes to a nil map, into which the source writes. The
  numbers of a schema keep their literals; the source decodes them to float64.\<close>

definition openai_tool_params :: "string \<Rightarrow> tool_definition \<Rightarrow> (error + (string \<times> json) list) option" where
  "openai_tool_params model t =
     (if td_InputSchema t = [] then Some (Inr [(''type'', JStr ''object'')])
      else case (case unmarshal (td_InputSchema t) of None \<Rightarrow> None | Some j \<Rightarrow> to_map j) of
        None \<Rightarrow> Some (Inl (chatBadRequest model (''tool '' @ td_Name t @ '': invalid input schema JSON: '' @ error_text json_error)))
      | Some raw \<Rightarrow>
          (if (case raw of None \<Rightarrow> False | Some m \<Rightarrow> \<not> (case map_of m ''type'' of None \<Rightarrow> True | Some tv \<Rightarrow> tv = JStr ''object''))
           then Some (Inl (chatBadRequest model (''tool '' @ td_Name t @ '': input schema type must be \"object\"'')))
           else case raw of
             None \<Rightarrow> None
           | Some params \<Rightarrow>
               (let params = put ''type'' (JStr ''object'') params in
                Some (Inr (if map_of params ''required'' \<in> {None, Some JNull}
                           then put ''required'' (JArr []) params else params)))))"

fun openai_tools :: "string \<Rightarrow> tool_definition list \<Rightarrow> (error + function_tool_param list) option" where
  "openai_tools model [] = Some (Inr [])"
| "openai_tools model (t # ts) =
     (case openai_tool_params model t of
        None \<Rightarrow> None
      | Some (Inl err) \<Rightarrow> Some (Inl err)
      | Some (Inr params) \<Rightarrow>
          (case openai_tools model ts of
             None \<Rightarrow> None
           | Some (Inl err) \<Rightarrow> Some (Inl err)
           | Some (Inr tools) \<Rightarrow>
               Some (Inr (\<lparr>ftp_Name = td_Name t,
                 ftp_Description = (if td_Description t \<noteq> [] then Some (td_Description t) else None),
                 ftp_Parameters = params, ftp_Strict = False\<rparr> # tools))))"

definition openai_buildTools :: "string \<Rightarrow> chat_request \<Rightarrow> (error + function_tool_param list) option" where
  "openai_buildTools model req = (if cr_Tools req = [] then Some (Inr []) else openai_tools model (cr_Tools req))"

definition openai_toolChoice :: "string \<Rightarrow> chat_request \<Rightarrow> error + openai_tool_choice option" where
  "openai_toolChoice model req =
     (let tc = cr_ToolChoice req in
      if cr_Tools req = [] then
        (if RequiresTools tc
         then Inl (chatBadRequest model (''tool choice '' @ tch_Type tc @ '' requires at least one tool''))
         else Inr None)
      else if tch_Type tc = ToolChoiceAuto then Inr (Some (ModeChoice ''auto''))
      else if tch_Type tc = ToolChoiceNone then Inr (Some (ModeChoice ''none''))
      else if tch_Type tc = ToolChoiceRequired then Inr (Some (ModeChoice ''required''))
      else if tch_Type tc = ToolChoiceTool then
        (if tch_Name tc = [] then Inl (chatBadRequest model ''tool choice type \"tool\" requires a tool name'')
         else Inr (Some (FunctionChoice (tch_Name tc))))
      else Inr None)"

definition known_efforts :: "string set" where
  "known_efforts = {ReasoningEffortNone, ReasoningEffortMinimal, ReasoningEffortLow, ReasoningEffortMedium,
     ReasoningEffortHigh, ReasoningEffortXHigh, ReasoningEffortMax}"

text \<open>The wire value and what was applied.\<close>

definition openai_mapEffort :: "reasoning_config option \<Rightarrow> string \<times> reasoning_config option" where
  "openai_mapEffort r =
     (case r of
        None \<Rightarrow> ([], None)
      | Some r \<Rightarrow>
          (if rc_Effort r \<in> known_efforts then (rc_Effort r, Some (zero_reasoning_config\<lparr>rc_Effort := rc_Effort r\<rparr>))
           else ([], None)))"

definition openai_toParams :: "string \<Rightarrow> chat_request \<Rightarrow> (error + response_new_params) option" where
  "openai_toParams model req =
     (case openai_systemText model req of
        Inl err \<Rightarrow> Some (Inl err)
      | Inr sys \<Rightarrow>
          (case buildInput model req of
             Inl err \<Rightarrow> Some (Inl err)
           | Inr items \<Rightarrow>
               (case openai_buildTools model req of
                  None \<Rightarrow> None
                | Some (Inl err) \<Rightarrow> Some (Inl err)
                | Some (Inr tools) \<Rightarrow>
                    (case openai_toolChoice model req of
                       Inl err \<Rightarrow> Some (Inl err)
                     | Inr choice \<Rightarrow>
                         Some (Inr \<lparr>rnp_Model = model, rnp_Input = items,
                           rnp_Instructions = (if sys \<noteq> [] then Some sys else None),
                           rnp_MaxOutputTokens = (if cr_MaxTokens req > 0 then Some (cr_MaxTokens req) else None),
                           rnp_Temperature = cr_Temperature req, rnp_Tools = tools, rnp_ToolChoice = choice,
                           rnp_ReasoningEffort = fst (openai_mapEffort (cr_Reasoning req))\<rparr>)))))"

section \<open>Responses\<close>

definition openaiStopReason :: "openai_response \<Rightarrow> string" where
  "openaiStopReason resp =
     (if or_Status resp = ''incomplete'' \<and> or_IncompleteReason resp \<noteq> [] then or_IncompleteReason resp else or_Status resp)"

text \<open>The parts, the tool calls and the text so far.\<close>

type_synonym chat_response_state = "content_part list \<times> tool_call list \<times> string"

fun content_step :: "chat_response_state \<Rightarrow> output_content \<Rightarrow> chat_response_state" where
  "content_step (parts, toolCalls, textMirror) (OutputText t) =
     (if t \<noteq> [] then (parts @ [zero_part\<lparr>cp_Type := ContentText, cp_Text := t\<rparr>], toolCalls, textMirror @ t)
      else (parts, toolCalls, textMirror))"
| "content_step st (OtherContent _) = st"

fun item_step :: "chat_response_state \<Rightarrow> output_item \<Rightarrow> chat_response_state" where
  "item_step (parts, toolCalls, textMirror) (OutputFunctionCall i n args) =
     (let tc = \<lparr>tc_ID = i, tc_Name = n, tc_Parameters = args, tc_ProviderSignature = []\<rparr> in
      (parts @ [zero_part\<lparr>cp_Type := ContentToolCall, cp_ToolCall := Some tc\<rparr>], toolCalls @ [tc], textMirror))"
| "item_step st (OutputMessage cs) = foldl content_step st cs"
| "item_step st (OtherItem _) = st"

definition toChatUsage :: "openai_response \<Rightarrow> usage" where
  "toChatUsage resp =
     (let u = or_Usage resp;
          billable = ous_OutputTokens u;
          reasoning = ous_ReasoningTokens u;
          visible = go_sub billable reasoning;
          visible = (if visible < 0 then 0 else visible);
          input = ous_InputTokens u;
          (cacheRead, cacheWrite) = CacheSplit input (ous_CachedTokens u) (ous_CacheWriteTokens u)
      in zero_usage\<lparr>u_InputTokens := input, u_OutputTokens := visible, u_TotalTokens := ous_TotalTokens u,
           u_ReasoningTokens := reasoning, u_BillableOutputTokens := billable, u_CacheReadTokens := cacheRead,
           u_CacheWriteTokens := cacheWrite, u_ProviderRequestID := or_ID resp\<rparr>)"

definition toChatResponse :: "(openai_response \<Rightarrow> json) \<Rightarrow> openai_response \<Rightarrow> chat_response" where
  "toChatResponse raw resp =
     (let (parts, toolCalls, textMirror) = foldl item_step ([], [], []) (or_Output resp) in
      \<lparr>rsp_Message = \<lparr>m_Role = RoleAssistant, m_Content = parts\<rparr>, rsp_Text = textMirror, rsp_ToolCalls = toolCalls,
       rsp_StopReason = openaiStopReason resp, rsp_Usage = toChatUsage resp, rsp_AppliedReasoning = None,
       rsp_Raw = Some (raw resp)\<rparr>)"

section \<open>The client\<close>

definition contains :: "string \<Rightarrow> string \<Rightarrow> bool" where
  "contains s t \<longleftrightarrow> (\<exists>i \<in> {0..length s}. take (length t) (drop i s) = t)"

definition contextLengthCode :: string where "contextLengthCode = ''context_length_exceeded''"
definition maxContextLengthText :: string where "maxContextLengthText = ''maximum context length is''"

definition openai_isContextOverflow :: "error_env \<Rightarrow> error \<Rightarrow> bool" where
  "openai_isContextOverflow env e =
     (case ee_sdk_error env e of
        None \<Rightarrow> False
      | Some ae \<Rightarrow> ae_Code ae = contextLengthCode \<or> contains (ae_Message ae) maxContextLengthText)"

definition openai_classifyError :: "error_env \<Rightarrow> string \<Rightarrow> error \<Rightarrow> error option" where
  "openai_classifyError env model e =
     ClassifyOverflow (ee_err_text env) (ee_http_date env) (ee_now env) ProviderOpenAI model (Some e)
       (sdk_extract env) (Some (openai_isContextOverflow env))"

record 'w openai_client =
  oa_Responses_New :: "ctx \<Rightarrow> response_new_params \<Rightarrow> (string \<times> json) list option \<Rightarrow> 'w \<Rightarrow> (error + openai_response) \<times> 'w"
  oa_model :: string
  oa_errors :: error_env
  oa_raw :: "openai_response \<Rightarrow> json"

definition openai_Model :: "'w openai_client \<Rightarrow> model_ref" where
  "openai_Model c = \<lparr>mr_Provider = ProviderOpenAI, mr_Name = oa_model c\<rparr>"

text \<open>\<open>Overrides\<close> of a nil map is false.\<close>

definition openai_respond :: "'w openai_client \<Rightarrow> chat_request \<Rightarrow> (string \<times> json) list option \<Rightarrow> openai_response \<Rightarrow> chat_response" where
  "openai_respond c req extra resp =
     (let applied = snd (openai_mapEffort (cr_Reasoning req));
          applied = (if (case extra of None \<Rightarrow> False | Some m \<Rightarrow> Overrides m [''reasoning'', ''effort'']) then None else applied)
      in (toChatResponse (oa_raw c) resp)\<lparr>rsp_AppliedReasoning := applied\<rparr>)"

definition openai_Complete :: "'w openai_client \<Rightarrow> ctx \<Rightarrow> chat_request \<Rightarrow> 'w \<Rightarrow> ((chat_response \<times> error option) \<times> 'w) option" where
  "openai_Complete c ctx req w =
     (case For req ProviderOpenAI of
        Inl err \<Rightarrow> Some ((zero_response, Some (chatBadRequest (oa_model c) (error_text err))), w)
      | Inr extra \<Rightarrow>
          (case openai_toParams (oa_model c) req of
             None \<Rightarrow> None
           | Some (Inl err) \<Rightarrow> Some ((zero_response, Some err), w)
           | Some (Inr params) \<Rightarrow>
               (case oa_Responses_New c ctx params extra w of
                  (Inl apiErr, w') \<Rightarrow> Some ((zero_response, openai_classifyError (oa_errors c) (oa_model c) apiErr), w')
                | (Inr resp, w') \<Rightarrow> Some ((openai_respond c req extra resp, None), w'))))"

end
