(* ===== verification/OpenAIProps.thy ===== *)
theory OpenAIProps
  imports OpenAI
begin

text \<open>
  What the OpenAI conversion guarantees: the items in conversation order, the round trip of an assistant turn, the
  adapter interface, and the one input on which the conversion panics.
\<close>

section \<open>Items\<close>

lemma input_parts_Inr:
  "input_parts model r ps items = Inr items' \<longleftrightarrow>
     (\<exists>new. items' = items @ new \<and> list_all2 (\<lambda>p i. input_part model r p = Inr i) ps new)"
proof (induction ps arbitrary: items)
  case (Cons p ps)
  show ?case
  proof (cases "input_part model r p")
    case (Inr i)
    with Cons [of "items @ [i]"] show ?thesis by (auto simp: list_all2_Cons1)
  qed (auto simp: list_all2_Cons1)
qed auto

definition part_items :: "string \<Rightarrow> message \<Rightarrow> input_item list \<Rightarrow> bool" where
  "part_items model m new \<longleftrightarrow> list_all2 (\<lambda>p i. input_part model (m_Role m) p = Inr i) (m_Content m) new"

lemma part_items_eq: "part_items model m new \<longleftrightarrow> input_parts model (m_Role m) (m_Content m) [] = Inr new"
  by (simp add: part_items_def input_parts_Inr)

lemma part_items_unique: "part_items model m new \<Longrightarrow> part_items model m new' \<Longrightarrow> new' = new"
  by (simp add: part_items_eq)

lemma input_messages_Inr:
  "input_messages model ms items = Inr items' \<longleftrightarrow>
     (\<exists>new. items' = items @ concat new \<and> list_all2 (part_items model) ms new)"
proof (induction ms arbitrary: items)
  case (Cons m ms)
  show ?case
  proof (cases "input_parts model (m_Role m) (m_Content m) items")
    case (Inl e)
    then have "\<not> part_items model m new" for new
      unfolding part_items_def by (metis Inl_Inr_False input_parts_Inr)
    with Inl show ?thesis by (simp add: list_all2_Cons1)
  next
    case (Inr items1)
    then obtain new where new: "items1 = items @ new" "part_items model m new"
      by (auto simp: input_parts_Inr part_items_def)
    have "(\<exists>news. items' = items @ concat news \<and> list_all2 (part_items model) (m # ms) news) \<longleftrightarrow>
        (\<exists>rest. items' = items @ new @ concat rest \<and> list_all2 (part_items model) ms rest)"
      using new(2) part_items_unique [OF new(2)] unfolding list_all2_Cons1 by (metis concat.simps(2))
    with new Inr Cons [of "items @ new"] show ?thesis by simp
  qed
qed auto

lemma buildInput_Inr:
  "buildInput model req = Inr items \<longleftrightarrow>
     items \<noteq> [] \<and> (\<exists>new. items = concat new \<and> list_all2 (part_items model) (ReasoningFrom ProviderOpenAI (cr_Messages req)) new)"
proof -
  have "buildInput model req = Inr items \<longleftrightarrow>
      items \<noteq> [] \<and> input_messages model (ReasoningFrom ProviderOpenAI (cr_Messages req)) [] = Inr items"
    by (cases "input_messages model (ReasoningFrom ProviderOpenAI (cr_Messages req)) []") (auto simp: buildInput_def)
  then show ?thesis by (simp add: input_messages_Inr)
qed

section \<open>Turns come back as they were sent\<close>

definition items_back :: "output_item \<Rightarrow> input_item list" where
  "items_back item =
     (case item of
        OutputFunctionCall i n args \<Rightarrow> [FunctionCallItem args i n]
      | OutputMessage cs \<Rightarrow> List.map_filter (\<lambda>c. case c of OutputText t \<Rightarrow> if t = [] then None else Some (MessageItem t ''assistant'')
                                                   | OtherContent _ \<Rightarrow> None) cs
      | OtherItem _ \<Rightarrow> [])"

definition assistant_items :: "string \<Rightarrow> content_part list \<Rightarrow> input_item list \<Rightarrow> bool" where
  "assistant_items model ps new \<longleftrightarrow> list_all2 (\<lambda>p i. input_part model RoleAssistant p = Inr i) ps new \<and>
     (\<forall>p \<in> set ps. cp_Type p \<noteq> ContentReasoning)"

lemma assistant_items_simps [simp]: "assistant_items model [] []"
  "assistant_items model ps new \<Longrightarrow> assistant_items model qs new' \<Longrightarrow> assistant_items model (ps @ qs) (new @ new')"
  by (auto simp: assistant_items_def intro: list_all2_appendI)

lemma content_fold:
  "\<exists>ps tx'. foldl content_step (parts, calls, tx) cs = (parts @ ps, calls, tx') \<and>
     assistant_items model ps (items_back (OutputMessage cs))"
proof (induction cs arbitrary: parts tx)
  case Nil
  then show ?case by (simp add: items_back_def)
next
  case (Cons c cs)
  show ?case
  proof (cases "\<exists>t. c = OutputText t \<and> t \<noteq> []")
    case True
    then obtain t where t: "c = OutputText t" "t \<noteq> []" by blast
    let ?p = "zero_part\<lparr>cp_Type := ContentText, cp_Text := t\<rparr>"
    from Cons [of "parts @ [?p]" "tx @ t"] obtain ps tx' where
      "foldl content_step (parts @ [?p], calls, tx @ t) cs = ((parts @ [?p]) @ ps, calls, tx')"
      "assistant_items model ps (items_back (OutputMessage cs))" by blast
    moreover from t have "assistant_items model [?p] [MessageItem t ''assistant'']"
      by (simp add: assistant_items_def input_part_def openai_roleFor_def zero_part_def)
    ultimately show ?thesis using t assistant_items_simps(2) [of model "[?p]" "[MessageItem t ''assistant'']"]
      by (intro exI [of _ "?p # ps"] exI [of _ tx']) (simp add: items_back_def)
  next
    case False
    then have "content_step (parts, calls, tx) c = (parts, calls, tx)" "items_back (OutputMessage (c # cs)) = items_back (OutputMessage cs)"
      by (cases c; simp add: items_back_def)+
    with Cons [of parts tx] show ?thesis by simp
  qed
qed

lemma item_fold:
  "\<exists>ps calls' tx'. foldl item_step (parts, calls, tx) os = (parts @ ps, calls', tx') \<and>
     assistant_items model ps (concat (map items_back os))"
proof (induction os arbitrary: parts calls tx)
  case (Cons item os)
  have "\<exists>ps1 calls1 tx1. item_step (parts, calls, tx) item = (parts @ ps1, calls1, tx1) \<and> assistant_items model ps1 (items_back item)"
  proof (cases item)
    case (OutputFunctionCall i n args)
    then show ?thesis
      by (auto simp: Let_def items_back_def assistant_items_def input_part_def zero_part_def)
  next
    case (OutputMessage cs)
    with content_fold [of parts calls tx cs model] show ?thesis by auto
  next
    case (OtherItem t)
    then show ?thesis by (simp add: items_back_def)
  qed
  then obtain ps1 calls1 tx1 where one: "item_step (parts, calls, tx) item = (parts @ ps1, calls1, tx1)" "assistant_items model ps1 (items_back item)"
    by blast
  from Cons [of "parts @ ps1" calls1 tx1] obtain ps calls' tx' where
    "foldl item_step (parts @ ps1, calls1, tx1) os = ((parts @ ps1) @ ps, calls', tx')"
    "assistant_items model ps (concat (map items_back os))" by blast
  with one show ?case by (intro exI [of _ "ps1 @ ps"] exI [of _ calls'] exI [of _ tx']) simp
qed simp

text \<open>
  an assistant turn goes back to the Responses API as it came: after a response is appended to the
  transcript, the input is the earlier one followed by the response's messages and function calls, in order
  and with their call ids; only empty texts and items of other types are left out.
\<close>

theorem openai_turn_round_trip:
  assumes "buildInput model (req\<lparr>cr_Messages := ms\<rparr>) = Inr items"
  shows "buildInput model (req\<lparr>cr_Messages := ms @ [rsp_Message (toChatResponse raw resp)]\<rparr>) =
    Inr (items @ concat (map items_back (or_Output resp)))"
proof -
  from item_fold [of "[]" "[]" "[]" "or_Output resp" model] obtain ps calls tx where
    resp: "foldl item_step ([], [], []) (or_Output resp) = (ps, calls, tx)"
    and ps: "assistant_items model ps (concat (map items_back (or_Output resp)))" by auto
  have m: "rsp_Message (toChatResponse raw resp) = \<lparr>m_Role = RoleAssistant, m_Content = ps\<rparr>"
    by (simp add: toChatResponse_def resp)
  have strip: "strip keep \<lparr>m_Role = RoleAssistant, m_Content = ps\<rparr> = \<lparr>m_Role = RoleAssistant, m_Content = ps\<rparr>" for keep
    using ps by (simp add: strip_def filter_noop rejected_def assistant_items_def)
  have "part_items model \<lparr>m_Role = RoleAssistant, m_Content = ps\<rparr> (concat (map items_back (or_Output resp)))"
    using ps by (simp add: part_items_def assistant_items_def)
  moreover from assms obtain new where "items = concat new" "items \<noteq> []"
    "list_all2 (part_items model) (ReasoningFrom ProviderOpenAI ms) new" by (auto simp: buildInput_Inr)
  ultimately show ?thesis
    by (auto simp: buildInput_Inr ReasoningFrom_eq strip m
      intro!: exI [of _ "new @ [concat (map items_back (or_Output resp))]"] list_all2_appendI)
qed

section \<open>Validated requests convert, unless a schema is null\<close>

text \<open>The item a part becomes.\<close>

definition item_of :: "message \<Rightarrow> content_part \<Rightarrow> input_item" where
  "item_of m p =
     (if cp_Type p = ContentText then MessageItem (cp_Text p) (if m_Role m = RoleUser then ''user'' else ''assistant'')
      else if cp_Type p = ContentToolCall
        then (let tc = the (cp_ToolCall p) in FunctionCallItem (tc_Parameters tc) (tc_ID tc) (tc_Name tc))
      else (let tr = the (cp_ToolResult p) in FunctionCallOutputItem (tr_ToolCallID tr) (tr_Content tr)))"

text \<open>Reasoning parts of another provider are dropped; this adapter makes none of its own.\<close>

definition sendable :: "message list \<Rightarrow> bool" where
  "sendable ms \<longleftrightarrow> (\<forall>m \<in> set ms. \<forall>p \<in> set (m_Content m). (cp_Type p = ContentText \<longrightarrow> cp_Text p \<noteq> []) \<and>
     (cp_Type p = ContentReasoning \<longrightarrow> (\<forall>r. cp_Reasoning p = Some r \<longrightarrow> rs_Provider r \<noteq> ProviderOpenAI)))"

definition plain_parts :: "message \<Rightarrow> content_part list" where
  "plain_parts m = filter (\<lambda>p. cp_Type p \<noteq> ContentReasoning) (m_Content m)"

lemma wf_roles: "wf_transcript ms \<Longrightarrow> m \<in> set ms \<Longrightarrow> user_ok m \<or> assistant_ok m \<or> tool_ok m"
  by (induction rule: wf_transcript.induct) auto

lemma item_of_part:
  assumes "user_ok m \<or> assistant_ok m \<or> tool_ok m" and "p \<in> set (m_Content m)" and "cp_Type p = ContentText \<longrightarrow> cp_Text p \<noteq> []"
    and "cp_Type p \<noteq> ContentReasoning"
  shows "input_part model (m_Role m) p = Inr (item_of m p)"
  using assms
  by (auto simp: user_ok_def assistant_ok_def tool_ok_def call_part_ok_def result_part_ok_def input_part_def item_of_def
    openai_roleFor_def)

lemma buildInput_wf:
  assumes "ValidateMessages (cr_Messages req) = None" and "sendable (cr_Messages req)"
  shows "buildInput model req = Inr (concat (map (\<lambda>m. map (item_of m) (plain_parts m)) (cr_Messages req)))"
proof -
  let ?keep = "\<lambda>r. case r of None \<Rightarrow> False | Some r \<Rightarrow> rs_Provider r = ProviderOpenAI"
  have wf: "cr_Messages req \<noteq> []" "wf_transcript (cr_Messages req)" using assms(1) by (simp_all add: ValidateMessages_None_iff)
  have strip: "m_Content (strip ?keep m) = plain_parts m" if "m \<in> set (cr_Messages req)" for m
    using that assms(2) unfolding strip_sel plain_parts_def sendable_def
    by (intro filter_cong) (auto simp: rejected_def split: option.splits)
  have part: "part_items model (strip ?keep m) (map (item_of m) (plain_parts m))" if m: "m \<in> set (cr_Messages req)" for m
  proof -
    have "input_part model (m_Role m) p = Inr (item_of m p)" if "p \<in> set (plain_parts m)" for p
      using that assms(2) m by (intro item_of_part [OF wf_roles [OF wf(2) m]]) (auto simp: plain_parts_def sendable_def)
    then show ?thesis unfolding part_items_def strip [OF m] strip_sel(1) by (simp add: list_all2_conv_all_nth)
  qed
  have "list_all2 (part_items model) (ReasoningFrom ProviderOpenAI (cr_Messages req))
      (map (\<lambda>m. map (item_of m) (plain_parts m)) (cr_Messages req))"
    using part by (simp add: ReasoningFrom_eq list_all2_conv_all_nth)
  moreover have "concat (map (\<lambda>m. map (item_of m) (plain_parts m)) (cr_Messages req)) \<noteq> []"
  proof -
    obtain m where m: "m \<in> set (cr_Messages req)" using wf(1) by (cases "cr_Messages req") auto
    from wf_roles [OF wf(2) m] have "\<exists>p \<in> set (m_Content m). cp_Type p \<noteq> ContentReasoning"
      by (cases "m_Content m") (auto simp: user_ok_def assistant_ok_def tool_ok_def hasNonReasoning_iff result_part_ok_def)
    then have "plain_parts m \<noteq> []" by (auto simp: plain_parts_def filter_empty_conv)
    with m show ?thesis by (auto simp: concat_eq_Nil_conv)
  qed
  ultimately show ?thesis by (auto simp: buildInput_Inr)
qed

text \<open>The schemas on which the conversion panics: those that decode to a nil map.\<close>

definition nil_schema :: "tool_definition \<Rightarrow> bool" where
  "nil_schema t \<longleftrightarrow> td_InputSchema t \<noteq> [] \<and> unmarshal (td_InputSchema t) = Some JNull"

lemma to_map_nil: "to_map j = Some None \<longleftrightarrow> j = JNull" "to_map JNull = Some None"
  by (cases j; simp add: to_map_def)+

lemma tool_params_None: "openai_tool_params model t = None \<longleftrightarrow> nil_schema t"
  by (auto simp: openai_tool_params_def nil_schema_def to_map_nil Let_def split: option.splits)

text \<open>The first tool whose schema cannot be used has a null one.\<close>

definition null_schema_first :: "string \<Rightarrow> tool_definition list \<Rightarrow> bool" where
  "null_schema_first model ts \<longleftrightarrow>
     (case dropWhile (\<lambda>t. \<exists>params. openai_tool_params model t = Some (Inr params)) ts of
        [] \<Rightarrow> False
      | t # _ \<Rightarrow> nil_schema t)"

lemma openai_tools_None: "openai_tools model ts = None \<longleftrightarrow> null_schema_first model ts"
proof (induction ts)
  case (Cons t ts)
  consider "openai_tool_params model t = None" | e where "openai_tool_params model t = Some (Inl e)"
    | params where "openai_tool_params model t = Some (Inr params)"
    by (cases "openai_tool_params model t") (auto, metis sum.exhaust)
  then show ?case
  proof cases
    case 1
    with tool_params_None [of model t] show ?thesis by (simp add: null_schema_first_def)
  next
    case 2
    with tool_params_None [of model t] show ?thesis by (simp add: null_schema_first_def)
  next
    case 3
    with Cons show ?thesis by (auto simp: null_schema_first_def split: option.split sum.split)
  qed
qed (simp add: null_schema_first_def)

text \<open>
  C19: a validated request with non-empty texts converts part by part: the input has one item per text, call
  and result, in conversation order, so every call comes before its result; the conversion returns an error
  only for the caller's tools or tool choice, and it panics exactly when the first tool whose schema cannot be used
  has the schema \<open>null\<close>.
\<close>

theorem openai_valid_requests_convert:
  assumes "validateChatRequest req = None" and "sendable (cr_Messages req)"
  shows "(\<forall>p. openai_toParams model req = Some (Inr p) \<longrightarrow>
      rnp_Input p = concat (map (\<lambda>m. map (item_of m) (plain_parts m)) (cr_Messages req))) \<and>
    (openai_toParams model req = None \<longleftrightarrow> null_schema_first model (cr_Tools req)) \<and>
    (\<forall>e. openai_toParams model req = Some (Inl e) \<longrightarrow>
      openai_buildTools model req = Some (Inl e) \<or> openai_toolChoice model req = Inl e)"
proof -
  from assms(1) have "ValidateMessages (cr_Messages req) = None" and "system_check 0 (cr_System req) = None"
    by (simp_all add: validateChatRequest_def split: option.splits)
  then obtain sys where "openai_systemText model req = Inr sys"
    using system_text_ok unfolding openai_systemText_def by blast
  moreover have "buildInput model req = Inr (concat (map (\<lambda>m. map (item_of m) (plain_parts m)) (cr_Messages req)))"
    by (rule buildInput_wf) fact+
  moreover have "openai_buildTools model req = None \<longleftrightarrow> null_schema_first model (cr_Tools req)"
    by (simp add: openai_buildTools_def openai_tools_None null_schema_first_def)
  ultimately show ?thesis
    by (auto simp: openai_toParams_def split: option.splits sum.splits)
qed

section \<open>The adapter's interface\<close>

lemma chatBadRequest_own: "own_error ProviderOpenAI ErrorKindBadRequest (chatBadRequest model msg)"
  by (simp add: chatBadRequest_def)

lemma input_parts_error: "input_parts model r ps items = Inl e \<Longrightarrow> own_error ProviderOpenAI ErrorKindBadRequest e"
  by (induction ps arbitrary: items)
    (auto simp: input_part_def chatBadRequest_own split: sum.splits option.splits if_splits)

lemma input_messages_error: "input_messages model ms items = Inl e \<Longrightarrow> own_error ProviderOpenAI ErrorKindBadRequest e"
  by (induction ms arbitrary: items) (auto split: sum.splits dest: input_parts_error)

lemma openai_tools_error: "openai_tools model ts = Some (Inl e) \<Longrightarrow> own_error ProviderOpenAI ErrorKindBadRequest e"
  by (induction ts) (auto simp: openai_tool_params_def Let_def chatBadRequest_own split: sum.splits option.splits if_splits)

lemma openai_toParams_error:
  assumes "openai_toParams model req = Some (Inl e)"
  shows "own_error ProviderOpenAI ErrorKindBadRequest e"
proof -
  have sys: "openai_systemText model req = Inl e \<Longrightarrow> own_error ProviderOpenAI ErrorKindBadRequest e" for e
    using system_text_error by (fastforce simp: openai_systemText_def chatBadRequest_own)
  have msgs: "buildInput model req = Inl e \<Longrightarrow> own_error ProviderOpenAI ErrorKindBadRequest e" for e
    by (auto simp: buildInput_def chatBadRequest_own split: sum.splits if_splits dest: input_messages_error)
  have tools: "openai_buildTools model req = Some (Inl e) \<Longrightarrow> own_error ProviderOpenAI ErrorKindBadRequest e" for e
    by (auto simp: openai_buildTools_def split: if_splits dest: openai_tools_error)
  have choice: "openai_toolChoice model req = Inl e \<Longrightarrow> own_error ProviderOpenAI ErrorKindBadRequest e" for e
    by (auto simp: openai_toolChoice_def Let_def chatBadRequest_own split: if_splits)
  from assms show ?thesis unfolding openai_toParams_def
    by (auto split: sum.splits option.splits dest: sys msgs tools choice)
qed

lemma content_fold_calls:
  "foldl content_step (parts, calls, tx) cs = (parts', calls', tx') \<Longrightarrow> calls' = calls \<and> tool_calls parts' = tool_calls parts"
proof (induction cs arbitrary: parts tx)
  case (Cons c cs)
  then show ?case by (cases c) (fastforce simp: zero_part_def split: if_splits)+
qed simp

lemma item_fold_calls:
  "foldl item_step (parts, calls, tx) os = (parts', calls', tx') \<Longrightarrow> calls = tool_calls parts \<Longrightarrow> calls' = tool_calls parts'"
proof (induction os arbitrary: parts calls tx)
  case (Cons item os)
  obtain parts1 calls1 tx1 where st: "item_step (parts, calls, tx) item = (parts1, calls1, tx1)" by (metis prod.exhaust)
  have "calls1 = tool_calls parts1"
    using st Cons.prems(2) by (cases item) (auto simp: Let_def zero_part_def dest: content_fold_calls)
  with Cons.IH [of parts1 calls1 tx1] Cons.prems(1) st show ?case by simp
qed simp

lemma openai_respond_mirrors: "mirrors (openai_respond c req extra resp)"
  using item_fold_calls [of "[]" "[]" "[]" "or_Output resp"]
  by (auto simp: mirrors_def openai_respond_def toChatResponse_def Let_def split: prod.split)

interpretation openai: chat_adapter ProviderOpenAI "chatBadRequest (oa_model c)" "openai_toParams (oa_model c)" "oa_Responses_New c"
    "openai_classifyError (oa_errors c) (oa_model c)" "openai_respond c" "openai_Complete c"
  for c :: "'w openai_client"
  by unfold_locales (auto simp: openai_Complete_def chatBadRequest_own openai_toParams_error openai_respond_mirrors
    openai_classifyError_def ClassifyOverflow_keeps split: sum.split option.split prod.split)

section \<open>Witnesses\<close>

definition demo_schema_request :: chat_request where
  "demo_schema_request = zero_request\<lparr>cr_Messages := [UserText ''Hello''],
     cr_Tools := [\<lparr>td_Name = ''clock'', td_Description = [], td_InputSchema = ''null''\<rparr>]\<rparr>"

lemma demo_schema_valid: "validateChatRequest demo_schema_request = None" "sendable (cr_Messages demo_schema_request)"
  by (simp_all add: validateChatRequest_def demo_schema_request_def zero_request_def ValidateMessages_None_iff
    wf_user [OF wf_Nil, simplified] user_ok_def sendable_def)

lemma unmarshal_null: "unmarshal ''null'' = Some JNull"
  by (simp add: unmarshal_def skip_ws_def is_ws_def scan_literal_def)

theorem openai_valid_requests_convert_witness:
  "validateChatRequest demo_schema_request = None \<and> (\<forall>c ctx (w :: nat). openai_Complete c ctx demo_schema_request w = None)"
proof (intro conjI allI)
  fix c :: "nat openai_client" and ctx and w :: nat
  have "null_schema_first model (cr_Tools demo_schema_request)" for model
  proof -
    have "nil_schema (hd (cr_Tools demo_schema_request))" by (simp add: demo_schema_request_def nil_schema_def unmarshal_null)
    with tool_params_None [of model "hd (cr_Tools demo_schema_request)"] show ?thesis by (simp add: null_schema_first_def demo_schema_request_def)
  qed
  then have "openai_toParams (oa_model c) demo_schema_request = None"
    using openai_valid_requests_convert [OF demo_schema_valid] by blast
  moreover have "For demo_schema_request ProviderOpenAI = Inr None"
    by (simp add: For_def demo_schema_request_def zero_request_def)
  ultimately show "openai_Complete c ctx demo_schema_request w = None" by (simp add: openai_Complete_def demo_schema_valid)
qed (simp add: demo_schema_valid)

definition demo_response :: openai_response where
  "demo_response = \<lparr>or_ID = ''resp_1'', or_Status = ''completed'', or_IncompleteReason = [],
     or_Output = [OtherItem ''reasoning'', OutputMessage [OutputText ''One moment.''], OutputFunctionCall ''call_1'' ''clock'' ''{}''],
     or_Usage = \<lparr>ous_InputTokens = 10, ous_OutputTokens = 80, ous_TotalTokens = 90, ous_CachedTokens = 0, ous_CacheWriteTokens = 0,
       ous_ReasoningTokens = 82\<rparr>\<rparr>"

theorem openai_turn_round_trip_witness:
  "buildInput ''gpt'' (zero_request\<lparr>cr_Messages := [UserText ''Hello'', rsp_Message (toChatResponse (\<lambda>_. JNull) demo_response)]\<rparr>) =
     Inr [MessageItem ''Hello'' ''user'', MessageItem ''One moment.'' ''assistant'', FunctionCallItem ''{}'' ''call_1'' ''clock'']"
proof -
  have "buildInput ''gpt'' (zero_request\<lparr>cr_Messages := [UserText ''Hello'']\<rparr>) = Inr [MessageItem ''Hello'' ''user'']"
    by (simp add: buildInput_def ReasoningFrom_eq strip_def rejected_def input_part_def openai_roleFor_def UserText_def)
  from openai_turn_round_trip [OF this, of "\<lambda>_. JNull" demo_response]
  show ?thesis by (simp add: demo_response_def items_back_def)
qed

end
