(* ===== verification/TurnOrder.thy ===== *)
theory TurnOrder
  imports ChatAdapter
begin

text \<open>
  The order the chat completion servers demand of a conversation, on an abstract view of its messages: after a
  message with tool calls come the results of those calls, each once, before anything else. A
  validated transcript has that order; an adapter that sends role-based messages only has to show that it
  keeps the view.
\<close>

datatype turn_event = Calls "string list" | Result string

fun in_turn :: "string set \<Rightarrow> turn_event list \<Rightarrow> bool" where
  "in_turn pnd [] = (pnd = {})"
| "in_turn pnd (Result i # es) = (i \<in> pnd \<and> in_turn (pnd - {i}) es)"
| "in_turn pnd (Calls is # es) = (pnd = {} \<and> distinct is \<and> in_turn (set is) es)"

text \<open>A message of the app as events.\<close>

definition message_events :: "message \<Rightarrow> turn_event list" where
  "message_events m = (if m_Role m = RoleTool then map Result (result_ids m) else [Calls (call_ids m)])"

lemma in_turn_append: "in_turn pnd es \<Longrightarrow> in_turn {} es' \<Longrightarrow> in_turn pnd (es @ es')"
  by (induction pnd es rule: in_turn.induct) auto

lemma in_turn_results: "distinct is \<Longrightarrow> set is = pnd \<Longrightarrow> in_turn pnd (map Result is)"
proof (induction "is" arbitrary: pnd)
  case (Cons i "is")
  then show ?case by (cases "pnd = insert i (set is)") auto
qed simp

lemma tools_events: "\<forall>t \<in> set tools. tool_ok t \<Longrightarrow> concat (map message_events tools) = map Result (concat (map result_ids tools))"
  by (induction tools) (auto simp: message_events_def tool_ok_def)

lemma user_calls: "user_ok u \<Longrightarrow> call_ids u = []"
  by (auto simp: user_ok_def call_ids_def filter_empty_conv)

theorem wf_in_turn: "wf_transcript ms \<Longrightarrow> in_turn {} (concat (map message_events ms))"
proof (induction rule: wf_transcript.induct)
  case (wf_user ms u)
  moreover have "in_turn {} (message_events u)" using wf_user(2) by (simp add: message_events_def user_calls) (simp add: user_ok_def)
  ultimately show ?case by (simp add: in_turn_append)
next
  case (wf_turn ms a tools)
  have "in_turn (set (call_ids a)) (map Result (concat (map result_ids tools)))"
    using wf_turn(4,5) by (intro in_turn_results) simp_all
  then have "in_turn {} (message_events a @ concat (map message_events tools))"
    using wf_turn(2,3) by (simp add: tools_events) (simp add: message_events_def assistant_ok_def)
  from in_turn_append [OF wf_turn(6) this] show ?case by simp
qed simp

lemma message_events_strip [simp]: "message_events (strip keep m) = message_events m" if "tool_ok m \<or> m_Role m \<noteq> RoleTool"
  using that by (auto simp: message_events_def strip_keeps_ids tool_ok_strip)

end
