(* ===== verification/OpenAICompat.thy ===== *)
theory OpenAICompat
  imports OpenAIProps TurnOrder
begin

text \<open>
  The OpenAI-compatible adapter (\<open>llms/providers/openaicompat\<close>: \<open>convert.go\<close>, \<open>openaicompat.go\<close>, \<open>errors.go\<close>) over Chat Completions,
  which \<open>llms/providers/vllm\<close> forwards to. Messages are role-based: the texts of a message are joined, an assistant
  message carries its calls, and every tool result is a message of its own.
\<close>

section \<open>The SDK's types\<close>

datatype completion_message =
    SystemMessage string
  | UserMessage string
  | AssistantMessage (cam_Content: "string option") (cam_ToolCalls: "tool_call list")
  | ToolMessage (ctm_Content: string) (ctm_ToolCallID: string)

record completion_tool =
  ct_Name :: string
  ct_Description :: "string option"
  ct_Parameters :: "(string \<times> json) list"

record completion_params =
  cnp_Model :: string
  cnp_Messages :: "completion_message list"
  cnp_MaxTokens :: "int option"
  cnp_Temperature :: "rat option"
  cnp_Tools :: "completion_tool list"
  cnp_ToolChoice :: "openai_tool_choice option"
  cnp_ReasoningEffort :: string

text \<open>\<open>None\<close> is a field the server did not send; \<open>cus_CreatedCacheTokens\<close> is the raw JSON of the extension field.\<close>

record completion_usage =
  cus_PromptTokens :: int
  cus_CompletionTokens :: int
  cus_TotalTokens :: int
  cus_ReasoningTokens :: int
  cus_CachedTokens :: int
  cus_CacheWriteTokens :: "int option"
  cus_CreatedCacheTokens :: "string option"

record completion_choice =
  cch_Content :: string
  cch_ToolCalls :: "(string \<times> string \<times> string) list"
  cch_FinishReason :: string

record completion =
  cc_ID :: string
  cc_Choices :: "completion_choice list"
  cc_Usage :: completion_usage

section \<open>Requests\<close>

definition compat_badRequest :: "string \<Rightarrow> string \<Rightarrow> error" where
  "compat_badRequest model msg = ProviderError ProviderOpenAICompat model ErrorKindBadRequest 0 msg 0 None"

definition compat_systemText :: "string \<Rightarrow> chat_request \<Rightarrow> error + string" where
  "compat_systemText model req = system_text_from (compat_badRequest model) [] (cr_System req)"

fun join_parts :: "string \<Rightarrow> string \<Rightarrow> string \<Rightarrow> content_part list \<Rightarrow> error + string" where
  "join_parts model role b [] = Inr b"
| "join_parts model role b (p # ps) =
     (if cp_Type p \<noteq> ContentText then Inl (compat_badRequest model (role @ '' message content must be text-only''))
      else if cp_Text p = [] then Inl (compat_badRequest model (role @ '' message has an empty text part''))
      else join_parts model role (write_text b (cp_Text p)) ps)"

definition joinTextParts :: "string \<Rightarrow> content_part list \<Rightarrow> string \<Rightarrow> error + string" where
  "joinTextParts model parts role =
     (if parts = [] then Inl (compat_badRequest model (role @ '' message has empty content''))
      else join_parts model role [] parts)"

text \<open>The text and the calls so far. A call is sent with its id, name and arguments.\<close>

definition wire_call :: "tool_call \<Rightarrow> tool_call" where
  "wire_call tc = \<lparr>tc_ID = tc_ID tc, tc_Name = tc_Name tc, tc_Parameters = tc_Parameters tc, tc_ProviderSignature = []\<rparr>"

fun assistant_parts :: "string \<Rightarrow> string \<times> tool_call list \<Rightarrow> content_part list \<Rightarrow> error + (string \<times> tool_call list)" where
  "assistant_parts model st [] = Inr st"
| "assistant_parts model (tx, calls) (p # ps) =
     (if cp_Type p = ContentText then
        (if cp_Text p = [] then Inl (compat_badRequest model ''assistant message has an empty text part'')
         else assistant_parts model (write_text tx (cp_Text p), calls) ps)
      else if cp_Type p = ContentToolCall then
        (case cp_ToolCall p of
           None \<Rightarrow> Inl (compat_badRequest model ''tool_call content part with nil ToolCall'')
         | Some tc \<Rightarrow> assistant_parts model (tx, calls @ [wire_call tc]) ps)
      else Inl (compat_badRequest model (''assistant content part type not supported: '' @ cp_Type p)))"

definition assistantMessage :: "string \<Rightarrow> content_part list \<Rightarrow> error + completion_message" where
  "assistantMessage model parts =
     (if parts = [] then Inl (compat_badRequest model ''assistant message has empty content'')
      else case assistant_parts model ([], []) parts of
        Inl err \<Rightarrow> Inl err
      | Inr (tx, calls) \<Rightarrow>
          (if tx = [] \<and> calls = []
           then Inl (compat_badRequest model ''assistant message has neither text content nor tool calls'')
           else Inr (AssistantMessage (if tx \<noteq> [] then Some tx else None) calls)))"

fun tool_messages :: "string \<Rightarrow> content_part list \<Rightarrow> error + completion_message list" where
  "tool_messages model [] = Inr []"
| "tool_messages model (p # ps) =
     (case (if cp_Type p = ContentToolResult then cp_ToolResult p else None) of
        None \<Rightarrow> Inl (compat_badRequest model ''tool messages must contain only tool_result parts'')
      | Some tr \<Rightarrow>
          (case tool_messages model ps of
             Inl err \<Rightarrow> Inl err
           | Inr ms \<Rightarrow> Inr (ToolMessage (tr_Content tr) (tr_ToolCallID tr) # ms)))"

text \<open>The messages one app message becomes.\<close>

definition compat_message :: "string \<Rightarrow> message \<Rightarrow> error + completion_message list" where
  "compat_message model m =
     (if m_Role m = RoleUser then
        (case joinTextParts model (m_Content m) ''user'' of Inl err \<Rightarrow> Inl err | Inr t \<Rightarrow> Inr [UserMessage t])
      else if m_Role m = RoleAssistant then
        (case assistantMessage model (m_Content m) of Inl err \<Rightarrow> Inl err | Inr msg \<Rightarrow> Inr [msg])
      else if m_Role m = RoleTool then tool_messages model (m_Content m)
      else Inl (compat_badRequest model (''unknown message role: '' @ m_Role m)))"

fun compat_messages :: "string \<Rightarrow> message list \<Rightarrow> completion_message list \<Rightarrow> error + completion_message list" where
  "compat_messages model [] out = Inr out"
| "compat_messages model (m # ms) out =
     (case compat_message model m of Inl err \<Rightarrow> Inl err | Inr new \<Rightarrow> compat_messages model ms (out @ new))"

definition compat_buildMessages :: "string \<Rightarrow> chat_request \<Rightarrow> string \<Rightarrow> error + completion_message list" where
  "compat_buildMessages model req system =
     (case compat_messages model (ReasoningFrom ProviderOpenAICompat (cr_Messages req))
         (if system \<noteq> [] then [SystemMessage system] else []) of
        Inl err \<Rightarrow> Inl err
      | Inr out \<Rightarrow>
          (if out = [] \<or> (system \<noteq> [] \<and> length out = 1)
           then Inl (compat_badRequest model ''request has no messages'') else Inr out))"

text \<open>The numbers of a schema keep their literals; the source decodes them to float64.\<close>

definition compat_tool_params :: "string \<Rightarrow> tool_definition \<Rightarrow> error + (string \<times> json) list" where
  "compat_tool_params model t =
     (if td_InputSchema t = [] then Inr [(''type'', JStr ''object'')]
      else case (case unmarshal (td_InputSchema t) of None \<Rightarrow> None | Some j \<Rightarrow> to_map j) of
        None \<Rightarrow> Inl (compat_badRequest model (''tool '' @ td_Name t @ '': invalid input schema JSON: '' @ error_text json_error))
      | Some None \<Rightarrow>
          Inl (compat_badRequest model (''tool '' @ td_Name t @ '': input schema must be a JSON object, got non-object value''))
      | Some (Some raw) \<Rightarrow>
          (if \<not> (case map_of raw ''type'' of None \<Rightarrow> True | Some tv \<Rightarrow> tv = JStr ''object'')
           then Inl (compat_badRequest model (''tool '' @ td_Name t @ '': input schema type must be \"object\"''))
           else (let params = put ''type'' (JStr ''object'') raw in
             Inr (if map_of params ''required'' \<in> {None, Some JNull} then put ''required'' (JArr []) params else params))))"

fun compat_tools :: "string \<Rightarrow> tool_definition list \<Rightarrow> error + completion_tool list" where
  "compat_tools model [] = Inr []"
| "compat_tools model (t # ts) =
     (case compat_tool_params model t of
        Inl err \<Rightarrow> Inl err
      | Inr params \<Rightarrow>
          (case compat_tools model ts of
             Inl err \<Rightarrow> Inl err
           | Inr tools \<Rightarrow>
               Inr (\<lparr>ct_Name = td_Name t, ct_Description = (if td_Description t \<noteq> [] then Some (td_Description t) else None),
                     ct_Parameters = params\<rparr> # tools)))"

definition compat_buildTools :: "string \<Rightarrow> chat_request \<Rightarrow> error + completion_tool list" where
  "compat_buildTools model req = (if cr_Tools req = [] then Inr [] else compat_tools model (cr_Tools req))"

definition compat_toolChoice :: "string \<Rightarrow> chat_request \<Rightarrow> error + openai_tool_choice option" where
  "compat_toolChoice model req =
     (let tc = cr_ToolChoice req in
      if cr_Tools req = [] then
        (if RequiresTools tc
         then Inl (compat_badRequest model (''tool choice '' @ tch_Type tc @ '' requires at least one tool''))
         else Inr None)
      else if tch_Type tc = ToolChoiceAuto then Inr (Some (ModeChoice ''auto''))
      else if tch_Type tc = ToolChoiceNone then Inr (Some (ModeChoice ''none''))
      else if tch_Type tc = ToolChoiceRequired then Inr (Some (ModeChoice ''required''))
      else if tch_Type tc = ToolChoiceTool then
        (if tch_Name tc = [] then Inl (compat_badRequest model ''tool choice type \"tool\" requires a tool name'')
         else Inr (Some (FunctionChoice (tch_Name tc))))
      else Inr None)"

definition compat_mapEffort :: "reasoning_config option \<Rightarrow> string \<times> reasoning_config option" where
  "compat_mapEffort r =
     (case r of
        None \<Rightarrow> ([], None)
      | Some r \<Rightarrow>
          (if rc_Effort r \<in> known_efforts then (rc_Effort r, Some (zero_reasoning_config\<lparr>rc_Effort := rc_Effort r\<rparr>))
           else ([], None)))"

definition compat_toParams :: "string \<Rightarrow> chat_request \<Rightarrow> error + completion_params" where
  "compat_toParams model req =
     (case compat_systemText model req of
        Inl err \<Rightarrow> Inl err
      | Inr sys \<Rightarrow>
          (case compat_buildMessages model req sys of
             Inl err \<Rightarrow> Inl err
           | Inr msgs \<Rightarrow>
               (case compat_buildTools model req of
                  Inl err \<Rightarrow> Inl err
                | Inr tools \<Rightarrow>
                    (case compat_toolChoice model req of
                       Inl err \<Rightarrow> Inl err
                     | Inr choice \<Rightarrow>
                         Inr \<lparr>cnp_Model = model, cnp_Messages = msgs,
                           cnp_MaxTokens = (if cr_MaxTokens req > 0 then Some (cr_MaxTokens req) else None),
                           cnp_Temperature = cr_Temperature req, cnp_Tools = tools, cnp_ToolChoice = choice,
                           cnp_ReasoningEffort = fst (compat_mapEffort (cr_Reasoning req))\<rparr>))))"

section \<open>Responses\<close>

definition cacheWriteTokens :: "completion_usage \<Rightarrow> int" where
  "cacheWriteTokens u =
     (case cus_CacheWriteTokens u of
        Some n \<Rightarrow> n
      | None \<Rightarrow>
          (case cus_CreatedCacheTokens u of
             None \<Rightarrow> 0
           | Some f \<Rightarrow> (case Atoi (TrimSpace f) of None \<Rightarrow> 0 | Some n \<Rightarrow> n)))"

definition compat_buildUsage :: "completion \<Rightarrow> usage" where
  "compat_buildUsage resp =
     (let u = cc_Usage resp;
          billable = cus_CompletionTokens u;
          reasoning = min (max (cus_ReasoningTokens u) 0) billable;
          visible = go_sub billable reasoning;
          input = cus_PromptTokens u;
          (cacheRead, cacheWrite) = CacheSplit input (cus_CachedTokens u) (cacheWriteTokens u)
      in zero_usage\<lparr>u_InputTokens := input, u_OutputTokens := visible, u_TotalTokens := cus_TotalTokens u,
           u_ReasoningTokens := reasoning, u_BillableOutputTokens := billable, u_CacheReadTokens := cacheRead,
           u_CacheWriteTokens := cacheWrite, u_ProviderRequestID := cc_ID resp\<rparr>)"

definition text_parts :: "string \<Rightarrow> content_part list" where
  "text_parts t = (if t \<noteq> [] then [zero_part\<lparr>cp_Type := ContentText, cp_Text := t\<rparr>] else [])"

definition call_part :: "tool_call \<Rightarrow> content_part" where
  "call_part tc = zero_part\<lparr>cp_Type := ContentToolCall, cp_ToolCall := Some tc\<rparr>"

definition compat_toResponse :: "(completion \<Rightarrow> json) \<Rightarrow> completion \<Rightarrow> chat_response" where
  "compat_toResponse raw resp =
     (case cc_Choices resp of
        [] \<Rightarrow> zero_response\<lparr>rsp_Message := \<lparr>m_Role = RoleAssistant, m_Content = []\<rparr>,
               rsp_Usage := compat_buildUsage resp, rsp_Raw := Some (raw resp)\<rparr>
      | choice # _ \<Rightarrow>
          (let calls = map (\<lambda>(i, n, args). \<lparr>tc_ID = i, tc_Name = n, tc_Parameters = args, tc_ProviderSignature = []\<rparr>)
                 (cch_ToolCalls choice) in
           \<lparr>rsp_Message = \<lparr>m_Role = RoleAssistant, m_Content = text_parts (cch_Content choice) @ map call_part calls\<rparr>,
            rsp_Text = cch_Content choice, rsp_ToolCalls = calls, rsp_StopReason = cch_FinishReason choice,
            rsp_Usage = compat_buildUsage resp, rsp_AppliedReasoning = None, rsp_Raw = Some (raw resp)\<rparr>))"

section \<open>The client\<close>

definition longerThanContextText :: string where
  "longerThanContextText = ''longer than the model'' @ [CHR 0x27] @ ''s context length''"

definition compat_isContextOverflow :: "error_env \<Rightarrow> error \<Rightarrow> bool" where
  "compat_isContextOverflow env e =
     (case ee_sdk_error env e of
        None \<Rightarrow> False
      | Some ae \<Rightarrow> ae_Code ae = contextLengthCode \<or> contains (ae_Message ae) maxContextLengthText \<or>
          contains (ae_Message ae) longerThanContextText)"

definition compat_classifyError :: "error_env \<Rightarrow> string \<Rightarrow> error \<Rightarrow> error option" where
  "compat_classifyError env model e =
     ClassifyOverflow (ee_err_text env) (ee_http_date env) (ee_now env) ProviderOpenAICompat model (Some e)
       (sdk_extract env) (Some (compat_isContextOverflow env))"

record 'w compat_client =
  oc_Completions_New :: "ctx \<Rightarrow> completion_params \<Rightarrow> (string \<times> json) list option \<Rightarrow> 'w \<Rightarrow> (error + completion) \<times> 'w"
  oc_model :: string
  oc_errors :: error_env
  oc_raw :: "completion \<Rightarrow> json"

definition compat_Model :: "'w compat_client \<Rightarrow> model_ref" where
  "compat_Model c = \<lparr>mr_Provider = ProviderOpenAICompat, mr_Name = oc_model c\<rparr>"

definition compat_respond :: "'w compat_client \<Rightarrow> chat_request \<Rightarrow> (string \<times> json) list option \<Rightarrow> completion \<Rightarrow> chat_response" where
  "compat_respond c req extra resp =
     (let applied = snd (compat_mapEffort (cr_Reasoning req));
          applied = (if (case extra of None \<Rightarrow> False | Some m \<Rightarrow> Overrides m [''reasoning_effort'']) then None else applied)
      in (compat_toResponse (oc_raw c) resp)\<lparr>rsp_AppliedReasoning := applied\<rparr>)"

definition compat_Complete :: "'w compat_client \<Rightarrow> ctx \<Rightarrow> chat_request \<Rightarrow> 'w \<Rightarrow> (chat_response \<times> error option) \<times> 'w" where
  "compat_Complete c ctx req w =
     (case For req ProviderOpenAICompat of
        Inl err \<Rightarrow> ((zero_response, Some (compat_badRequest (oc_model c) (error_text err))), w)
      | Inr extra \<Rightarrow>
          (case compat_toParams (oc_model c) req of
             Inl err \<Rightarrow> ((zero_response, Some err), w)
           | Inr params \<Rightarrow>
               (case oc_Completions_New c ctx params extra w of
                  (Inl apiErr, w') \<Rightarrow> ((zero_response, compat_classifyError (oc_errors c) (oc_model c) apiErr), w')
                | (Inr resp, w') \<Rightarrow> ((compat_respond c req extra resp, None), w'))))"

end
