(* ===== verification/CompatProps.thy ===== *)
theory CompatProps
  imports OpenAICompat
begin

text \<open>
  What the OpenAI-compatible conversion guarantees: validated requests convert, in the turn order the servers
  demand; a turn comes back as it was sent; and the adapter interface.
\<close>

section \<open>Validated requests convert in turn order\<close>

fun completion_events :: "completion_message \<Rightarrow> turn_event list" where
  "completion_events (AssistantMessage _ calls) = [Calls (map tc_ID calls)]"
| "completion_events (ToolMessage _ i) = [Result i]"
| "completion_events _ = [Calls []]"

definition texts_ok :: "message \<Rightarrow> bool" where
  "texts_ok m \<longleftrightarrow> (\<forall>p \<in> set (m_Content m). cp_Type p = ContentText \<longrightarrow> cp_Text p \<noteq> [])"

lemma texts_ok_strip: "texts_ok m \<Longrightarrow> texts_ok (strip keep m)"
  by (auto simp: texts_ok_def)

lemma write_text_not_empty [simp]: "t \<noteq> [] \<Longrightarrow> write_text b t \<noteq> []"
  by (simp add: write_text_def)

lemma join_parts_ok: "\<forall>p \<in> set ps. cp_Type p = ContentText \<and> cp_Text p \<noteq> [] \<Longrightarrow> \<exists>t. join_parts model role b ps = Inr t"
  by (induction ps arbitrary: b) auto

lemma assistant_parts_ok:
  assumes "\<forall>p \<in> set ps. cp_Type p = ContentText \<and> cp_Text p \<noteq> [] \<or> cp_Type p = ContentToolCall \<and> cp_ToolCall p \<noteq> None"
  shows "\<exists>tx' calls'. assistant_parts model (tx, calls) ps = Inr (tx', calls') \<and> map tc_ID calls' = map tc_ID calls @ part_calls ps \<and>
    (tx \<noteq> [] \<or> calls \<noteq> [] \<or> ps \<noteq> [] \<longrightarrow> tx' \<noteq> [] \<or> calls' \<noteq> [])"
  using assms
proof (induction ps arbitrary: tx calls)
  case (Cons p ps)
  consider "cp_Type p = ContentText" "cp_Text p \<noteq> []" | tc where "cp_Type p = ContentToolCall" "cp_ToolCall p = Some tc"
    using Cons.prems by auto
  then show ?case
  proof cases
    case 1
    with Cons.IH [of "write_text tx (cp_Text p)" calls] Cons.prems show ?thesis by (auto simp: part_calls_def)
  next
    case (2 tc)
    with Cons.IH [of tx "calls @ [wire_call tc]"] Cons.prems show ?thesis by (auto simp: part_calls_def wire_call_def)
  qed
qed (simp add: part_calls_def)

lemma tool_messages_ok:
  "\<forall>p \<in> set ps. result_part_ok p \<Longrightarrow> \<exists>new. tool_messages model ps = Inr new \<and>
     concat (map completion_events new) = map Result (map (\<lambda>p. tr_ToolCallID (the (cp_ToolResult p))) ps) \<and> length new = length ps"
  by (induction ps) (auto simp: result_part_ok_def)

text \<open>A message without reasoning.\<close>

definition no_reasoning :: "message \<Rightarrow> bool" where
  "no_reasoning m \<longleftrightarrow> (\<forall>p \<in> set (m_Content m). cp_Type p \<noteq> ContentReasoning)"

lemma compat_message_ok:
  assumes "user_ok m \<or> assistant_ok m \<or> tool_ok m" and "texts_ok m" and "no_reasoning m"
  shows "\<exists>new. compat_message model m = Inr new \<and> concat (map completion_events new) = message_events m \<and> new \<noteq> []"
  using assms(1)
proof (elim disjE)
  assume u: "user_ok m"
  have "\<exists>t. join_parts model ''user'' [] (m_Content m) = Inr t"
    by (rule join_parts_ok) (use u assms(2) in \<open>auto simp: user_ok_def texts_ok_def\<close>)
  then obtain t where "join_parts model ''user'' [] (m_Content m) = Inr t" by blast
  with u user_calls [OF u] show ?thesis
    by (simp add: compat_message_def joinTextParts_def message_events_def user_ok_def)
next
  assume a: "assistant_ok m"
  have "\<forall>p \<in> set (m_Content m). cp_Type p = ContentText \<and> cp_Text p \<noteq> [] \<or> cp_Type p = ContentToolCall \<and> cp_ToolCall p \<noteq> None"
    using a assms(2,3) by (fastforce simp: assistant_ok_def texts_ok_def no_reasoning_def call_part_ok_def)
  from assistant_parts_ok [OF this, of model "[]" "[]"] obtain tx calls where
    "assistant_parts model ([], []) (m_Content m) = Inr (tx, calls)" "map tc_ID calls = part_calls (m_Content m)"
    "m_Content m \<noteq> [] \<longrightarrow> tx \<noteq> [] \<or> calls \<noteq> []" by auto
  moreover have "m_Content m \<noteq> []" using a by (auto simp: assistant_ok_def hasNonReasoning_iff)
  ultimately show ?thesis using a
    by (auto simp: compat_message_def assistantMessage_def message_events_def assistant_ok_def part_calls_message)
next
  assume t: "tool_ok m"
  then have "\<forall>p \<in> set (m_Content m). result_part_ok p" "m_Content m \<noteq> []" by (simp_all add: tool_ok_def)
  with tool_messages_ok [of "m_Content m" model] obtain new where "tool_messages model (m_Content m) = Inr new" "new \<noteq> []"
    "concat (map completion_events new) = map Result (map (\<lambda>p. tr_ToolCallID (the (cp_ToolResult p))) (m_Content m))" by fastforce
  with t show ?thesis by (simp add: compat_message_def message_events_def tool_ok_def result_ids_def)
qed

lemma compat_messages_ok:
  assumes "\<forall>m \<in> set ms. (user_ok m \<or> assistant_ok m \<or> tool_ok m) \<and> texts_ok m \<and> no_reasoning m"
  shows "\<exists>new. compat_messages model ms out = Inr (out @ new) \<and>
    concat (map completion_events new) = concat (map message_events ms) \<and> (ms \<noteq> [] \<longrightarrow> new \<noteq> [])"
  using assms
proof (induction ms arbitrary: out)
  case (Cons m ms)
  from compat_message_ok [of m model] Cons.prems obtain new where new: "compat_message model m = Inr new"
    "concat (map completion_events new) = message_events m" "new \<noteq> []" by auto
  from Cons.IH [of "out @ new"] Cons.prems obtain rest where "compat_messages model ms (out @ new) = Inr ((out @ new) @ rest)"
    "concat (map completion_events rest) = concat (map message_events ms)" by auto
  with new show ?case by (intro exI [of _ "new @ rest"]) simp
qed simp

text \<open>No part claims this adapter's own reasoning, which it never makes.\<close>

definition foreign_reasoning :: "provider_id \<Rightarrow> message \<Rightarrow> bool" where
  "foreign_reasoning provider m \<longleftrightarrow> (\<forall>p \<in> set (m_Content m). cp_Type p = ContentReasoning \<longrightarrow>
     (\<forall>r. cp_Reasoning p = Some r \<longrightarrow> rs_Provider r \<noteq> provider))"

lemma strip_no_reasoning:
  "foreign_reasoning provider m \<Longrightarrow> no_reasoning (strip (\<lambda>r. case r of None \<Rightarrow> False | Some r \<Rightarrow> rs_Provider r = provider) m)"
  by (auto simp: foreign_reasoning_def no_reasoning_def rejected_def split: option.splits)

lemma strip_sendable:
  assumes "wf_transcript ms" and "\<forall>m \<in> set ms. texts_ok m \<and> foreign_reasoning provider m"
  shows "\<forall>m \<in> set (ReasoningFrom provider ms). (user_ok m \<or> assistant_ok m \<or> tool_ok m) \<and> texts_ok m \<and> no_reasoning m"
    and "in_turn {} (concat (map message_events (ReasoningFrom provider ms)))"
proof -
  have wf: "wf_transcript (ReasoningFrom provider ms)" unfolding ReasoningFrom_eq by (rule wf_strip) fact
  then show "in_turn {} (concat (map message_events (ReasoningFrom provider ms)))" by (rule wf_in_turn)
  show "\<forall>m \<in> set (ReasoningFrom provider ms). (user_ok m \<or> assistant_ok m \<or> tool_ok m) \<and> texts_ok m \<and> no_reasoning m"
    using wf_roles [OF wf] assms(2) by (auto simp: ReasoningFrom_eq texts_ok_strip strip_no_reasoning)
qed

text \<open>
  a validated request with non-empty texts converts unless its tools or tool choice are at fault, whatever
  other providers' reasoning it carries, and never panics; in the messages sent, each assistant
  message with calls is followed by one tool message per call, before any other message.
\<close>

theorem compat_valid_requests_convert:
  assumes "validateChatRequest req = None" and "\<forall>m \<in> set (cr_Messages req). texts_ok m \<and> foreign_reasoning ProviderOpenAICompat m"
    and "compat_buildTools model req = Inr tools" and "compat_toolChoice model req = Inr choice"
  shows "\<exists>p. compat_toParams model req = Inr p \<and> in_turn {} (concat (map completion_events (cnp_Messages p))) \<and>
    cnp_Tools p = tools \<and> cnp_ToolChoice p = choice"
proof -
  from assms(1) have v: "ValidateMessages (cr_Messages req) = None" and "system_check 0 (cr_System req) = None"
    by (simp_all add: validateChatRequest_def split: option.splits)
  then obtain sys where sys: "compat_systemText model req = Inr sys"
    using system_text_ok unfolding compat_systemText_def by blast
  have wf: "wf_transcript (cr_Messages req)" "cr_Messages req \<noteq> []" using v by (simp_all add: ValidateMessages_None_iff)
  note send = strip_sendable [OF wf(1) assms(2)]
  let ?sys = "if sys \<noteq> [] then [SystemMessage sys] else []"
  obtain new where new: "compat_messages model (ReasoningFrom ProviderOpenAICompat (cr_Messages req)) ?sys = Inr (?sys @ new)"
    "concat (map completion_events new) = concat (map message_events (ReasoningFrom ProviderOpenAICompat (cr_Messages req)))"
    "new \<noteq> []" using compat_messages_ok [OF send(1), of model ?sys] wf(2) by (auto simp: ReasoningFrom_eq)
  then have "compat_buildMessages model req sys = Inr (?sys @ new)" by (simp add: compat_buildMessages_def)
  moreover have "in_turn {} (concat (map completion_events (?sys @ new)))"
    using send(2) new(2) by simp
  ultimately show ?thesis using sys assms(3,4) by (simp add: compat_toParams_def)
qed

section \<open>The adapter's interface\<close>

lemma compat_bad_own: "own_error ProviderOpenAICompat ErrorKindBadRequest (compat_badRequest model msg)"
  by (simp add: compat_badRequest_def)

lemma join_parts_error: "join_parts model role b ps = Inl e \<Longrightarrow> own_error ProviderOpenAICompat ErrorKindBadRequest e"
  by (induction ps arbitrary: b) (auto simp: compat_bad_own split: if_splits)

lemma assistant_parts_error: "assistant_parts model st ps = Inl e \<Longrightarrow> own_error ProviderOpenAICompat ErrorKindBadRequest e"
  by (induction ps arbitrary: st; case_tac st) (auto simp: compat_bad_own split: if_splits option.splits)

lemma tool_messages_error: "tool_messages model ps = Inl e \<Longrightarrow> own_error ProviderOpenAICompat ErrorKindBadRequest e"
  by (induction ps) (auto simp: compat_bad_own split: if_splits option.splits sum.splits)

lemma compat_message_error: "compat_message model m = Inl e \<Longrightarrow> own_error ProviderOpenAICompat ErrorKindBadRequest e"
  by (auto simp: compat_message_def joinTextParts_def assistantMessage_def compat_bad_own split: if_splits sum.splits prod.splits
    dest: join_parts_error assistant_parts_error tool_messages_error)

lemma compat_messages_error: "compat_messages model ms out = Inl e \<Longrightarrow> own_error ProviderOpenAICompat ErrorKindBadRequest e"
  by (induction ms arbitrary: out) (auto split: sum.splits dest: compat_message_error)

lemma compat_tools_error: "compat_tools model ts = Inl e \<Longrightarrow> own_error ProviderOpenAICompat ErrorKindBadRequest e"
  by (induction ts) (auto simp: compat_tool_params_def Let_def compat_bad_own split: sum.splits option.splits if_splits)

lemma compat_toParams_error:
  assumes "compat_toParams model req = Inl e"
  shows "own_error ProviderOpenAICompat ErrorKindBadRequest e"
proof -
  have sys: "compat_systemText model req = Inl e \<Longrightarrow> own_error ProviderOpenAICompat ErrorKindBadRequest e" for e
    using system_text_error by (fastforce simp: compat_systemText_def compat_bad_own)
  have msgs: "compat_buildMessages model req sys = Inl e \<Longrightarrow> own_error ProviderOpenAICompat ErrorKindBadRequest e" for e sys
    unfolding compat_buildMessages_def
    by (rule sum.exhaust [of "compat_messages model (ReasoningFrom ProviderOpenAICompat (cr_Messages req))
        (if sys \<noteq> [] then [SystemMessage sys] else [])"]) (auto simp: compat_bad_own split: if_splits dest: compat_messages_error)
  have tools: "compat_buildTools model req = Inl e \<Longrightarrow> own_error ProviderOpenAICompat ErrorKindBadRequest e" for e
    by (auto simp: compat_buildTools_def split: if_splits dest: compat_tools_error)
  have choice: "compat_toolChoice model req = Inl e \<Longrightarrow> own_error ProviderOpenAICompat ErrorKindBadRequest e" for e
    by (auto simp: compat_toolChoice_def Let_def compat_bad_own split: if_splits)
  from assms show ?thesis unfolding compat_toParams_def
    by (auto split: sum.splits dest: sys msgs tools choice)
qed

lemma tool_calls_parts [simp]: "tool_calls (text_parts t) = []" "tool_calls (map (call_part \<circ> f) xs) = map f xs"
  by (simp add: text_parts_def zero_part_def, induction xs) (simp_all add: call_part_def zero_part_def)

lemma compat_respond_mirrors: "mirrors (compat_respond c req extra resp)"
  by (cases "cc_Choices resp")
    (simp_all add: mirrors_def compat_respond_def compat_toResponse_def Let_def zero_response_def)

interpretation compat: chat_adapter ProviderOpenAICompat "compat_badRequest (oc_model c)"
    "\<lambda>req. Some (compat_toParams (oc_model c) req)" "oc_Completions_New c" "compat_classifyError (oc_errors c) (oc_model c)"
    "compat_respond c" "\<lambda>ctx req w. Some (compat_Complete c ctx req w)"
  for c :: "'w compat_client"
  by unfold_locales (auto simp: compat_Complete_def compat_bad_own compat_toParams_error compat_respond_mirrors
    compat_classifyError_def ClassifyOverflow_keeps split: sum.split prod.split)

section \<open>Turns come back as they were sent\<close>

lemma compat_messages_append:
  "compat_messages model (ms @ ns) out = (case compat_messages model ms out of Inl e \<Rightarrow> Inl e | Inr out' \<Rightarrow> compat_messages model ns out')"
  by (induction ms arbitrary: out) (auto split: sum.split)

lemma compat_messages_keep: "compat_messages model ms out = Inr out' \<Longrightarrow> length out \<le> length out'"
  by (induction ms arbitrary: out) (auto split: sum.splits, fastforce)

lemma assistant_parts_calls:
  "assistant_parts model (tx, calls) (map (call_part \<circ> f) xs) = Inr (tx, calls @ map (wire_call \<circ> f) xs)"
  by (induction xs arbitrary: calls) (simp_all add: call_part_def zero_part_def)

text \<open>The assistant message a choice stands for.\<close>

definition choice_back :: "completion_choice \<Rightarrow> completion_message" where
  "choice_back choice = AssistantMessage (if cch_Content choice \<noteq> [] then Some (cch_Content choice) else None)
     (map (\<lambda>(i, n, args). \<lparr>tc_ID = i, tc_Name = n, tc_Parameters = args, tc_ProviderSignature = []\<rparr>) (cch_ToolCalls choice))"

text \<open>
  an assistant turn goes back to the server as it came: after a response is appended to the transcript, the
  messages sent are the earlier ones and one assistant message with the first choice's content and calls.
\<close>

theorem compat_turn_round_trip:
  assumes "compat_buildMessages model (req\<lparr>cr_Messages := ms\<rparr>) sys = Inr sent"
    and "cc_Choices resp = choice # rest" and "cch_Content choice \<noteq> [] \<or> cch_ToolCalls choice \<noteq> []"
  shows "compat_buildMessages model (req\<lparr>cr_Messages := ms @ [rsp_Message (compat_toResponse raw resp)]\<rparr>) sys =
    Inr (sent @ [choice_back choice])"
proof -
  let ?call = "\<lambda>(i, n, args). \<lparr>tc_ID = i, tc_Name = n, tc_Parameters = args, tc_ProviderSignature = []\<rparr>"
  let ?ps = "text_parts (cch_Content choice) @ map (call_part \<circ> ?call) (cch_ToolCalls choice)"
  let ?m = "\<lparr>m_Role = RoleAssistant, m_Content = ?ps\<rparr>"
  have m: "rsp_Message (compat_toResponse raw resp) = ?m"
    by (simp add: compat_toResponse_def assms(2) Let_def)
  have strip: "strip keep ?m = ?m" for keep
    by (auto simp: strip_def filter_noop rejected_def text_parts_def call_part_def zero_part_def intro!: filter_noop)
  have wire: "wire_call \<circ> ?call = ?call" by (auto simp: wire_call_def)
  have "assistant_parts model ([], []) ?ps = Inr (cch_Content choice, map ?call (cch_ToolCalls choice))"
    using assistant_parts_calls [of model "cch_Content choice" "[]" ?call "cch_ToolCalls choice"] wire
    by (cases "cch_Content choice = []") (simp_all add: text_parts_def zero_part_def write_text_def)
  moreover have "?ps \<noteq> []" using assms(3) by (auto simp: text_parts_def)
  ultimately have "compat_message model ?m = Inr [choice_back choice]" using assms(3)
    by (simp add: compat_message_def assistantMessage_def choice_back_def)
  moreover from assms(1) have "compat_messages model (ReasoningFrom ProviderOpenAICompat ms)
      (if sys \<noteq> [] then [SystemMessage sys] else []) = Inr sent" "sent \<noteq> []"
    unfolding compat_buildMessages_def by (auto split: sum.splits if_splits)
  ultimately show ?thesis
    by (simp add: compat_buildMessages_def ReasoningFrom_eq compat_messages_append m strip)
qed

section \<open>Witnesses\<close>

theorem compat_valid_requests_convert_witness:
  "\<exists>p. compat_toParams ''glm'' (zero_request\<lparr>cr_Messages := [UserText ''Hello'']\<rparr>) = Inr p \<and>
     in_turn {} (concat (map completion_events (cnp_Messages p)))"
proof -
  let ?req = "zero_request\<lparr>cr_Messages := [UserText ''Hello'']\<rparr>"
  have "validateChatRequest ?req = None"
    by (simp add: validateChatRequest_def zero_request_def ValidateMessages_None_iff wf_user [OF wf_Nil, simplified] user_ok_def)
  moreover have "\<forall>m \<in> set (cr_Messages ?req). texts_ok m \<and> foreign_reasoning ProviderOpenAICompat m"
    by (simp add: texts_ok_def foreign_reasoning_def)
  moreover have "compat_buildTools ''glm'' ?req = Inr []" "compat_toolChoice ''glm'' ?req = Inr None"
    by (simp_all add: compat_buildTools_def compat_toolChoice_def zero_request_def RequiresTools_def tool_choice_consts)
  ultimately show ?thesis using compat_valid_requests_convert [of ?req "''glm''" "[]" None] by blast
qed

theorem compat_turn_round_trip_witness:
  "compat_buildMessages ''glm'' (zero_request\<lparr>cr_Messages := [UserText ''Hello'',
       rsp_Message (compat_toResponse (\<lambda>_. JNull) \<lparr>cc_ID = [], cc_Choices = [\<lparr>cch_Content = ''One moment.'',
         cch_ToolCalls = [(''call_1'', ''clock'', ''{}'')], cch_FinishReason = ''tool_calls''\<rparr>], cc_Usage = u\<rparr>)]\<rparr>) [] =
     Inr [UserMessage ''Hello'', AssistantMessage (Some ''One moment.'')
       [\<lparr>tc_ID = ''call_1'', tc_Name = ''clock'', tc_Parameters = ''{}'', tc_ProviderSignature = []\<rparr>]]"
proof -
  let ?choice = "\<lparr>cch_Content = ''One moment.'', cch_ToolCalls = [(''call_1'', ''clock'', ''{}'')], cch_FinishReason = ''tool_calls''\<rparr>"
  have "compat_buildMessages ''glm'' (zero_request\<lparr>cr_Messages := [UserText ''Hello'']\<rparr>) [] = Inr [UserMessage ''Hello'']"
    by (simp add: compat_buildMessages_def ReasoningFrom_eq strip_def rejected_def compat_message_def joinTextParts_def
      UserText_def write_text_def)
  from compat_turn_round_trip [OF this, of "\<lparr>cc_ID = [], cc_Choices = [?choice], cc_Usage = u\<rparr>" ?choice "[]" "\<lambda>_. JNull"]
  show ?thesis by (simp add: choice_back_def)
qed

end
