(* ===== verification/Ollama.thy ===== *)
theory Ollama
  imports CompatProps
begin

text \<open>
  The Ollama adapter (\<open>llms/providers/ollama\<close>: \<open>wire.go\<close>, \<open>ollama.go\<close>). There is no SDK: the wire types are the repository's,
  and the model goes down to the JSON bodies. A \<open>json.RawMessage\<close> is the text of a document; it is embedded
  and captured as the document it denotes, re-encoded, where the source copies its text (white space and
  the spelling of strings aside, the same document). The HTTP client is an argument: it takes the URL
  and the body and returns an error (of the request, the transport or reading the body) or a response.
\<close>

section \<open>Wire types\<close>

record wireToolFunc =
  wf_Name :: string
  wf_Arguments :: string

record wireToolCall =
  wtc_ID :: string
  wtc_Function :: wireToolFunc

record wireMessage =
  wm_Role :: string
  wm_Content :: string
  wm_ToolCalls :: "wireToolCall list"
  wm_ToolCallID :: string

record wireToolDef =
  wtd_Name :: string
  wtd_Description :: string
  wtd_Parameters :: string

record wireTool =
  wt_Type :: string
  wt_Function :: wireToolDef

record wireRequest =
  wreq_Think :: "json option"
  wreq_Model :: string
  wreq_Messages :: "wireMessage list"
  wreq_Tools :: "wireTool list"
  wreq_Options :: "(string \<times> json) list"
  wreq_Stream :: bool

record wireResponse =
  wr_Model :: string
  wr_Message :: wireMessage
  wr_DoneReason :: string
  wr_Error :: string
  wr_PromptEvalCount :: int
  wr_EvalCount :: int
  wr_Done :: bool

definition zero_wireMessage :: wireMessage where
  "zero_wireMessage = \<lparr>wm_Role = [], wm_Content = [], wm_ToolCalls = [], wm_ToolCallID = []\<rparr>"

definition zero_wireToolCall :: wireToolCall where
  "zero_wireToolCall = \<lparr>wtc_ID = [], wtc_Function = \<lparr>wf_Name = [], wf_Arguments = []\<rparr>\<rparr>"

definition zero_wireResponse :: wireResponse where
  "zero_wireResponse = \<lparr>wr_Model = [], wr_Message = zero_wireMessage, wr_DoneReason = [], wr_Error = [],
     wr_PromptEvalCount = 0, wr_EvalCount = 0, wr_Done = False\<rparr>"

section \<open>Requests\<close>

definition ollama_badRequest :: "string \<Rightarrow> string \<Rightarrow> error" where
  "ollama_badRequest model msg = ProviderError ProviderOllama model ErrorKindBadRequest 0 msg 0 None"

definition ollama_systemText :: "string \<Rightarrow> chat_request \<Rightarrow> error + string" where
  "ollama_systemText model req = system_text_from (ollama_badRequest model) [] (cr_System req)"

definition ollama_roleFor :: "role \<Rightarrow> string option" where
  "ollama_roleFor r =
     (if r = RoleUser then Some ''user'' else if r = RoleAssistant then Some ''assistant''
      else if r = RoleTool then Some ''tool'' else None)"

definition partAllowed :: "role \<Rightarrow> content_part_type \<Rightarrow> bool" where
  "partAllowed r t =
     (if t = ContentText then r = RoleUser \<or> r = RoleAssistant
      else if t = ContentToolCall then r = RoleAssistant
      else if t = ContentToolResult then r = RoleTool
      else False)"

text \<open>The messages, the text and the calls so far.\<close>

type_synonym wire_state = "wireMessage list \<times> string \<times> wireToolCall list"

definition wire_part :: "string \<Rightarrow> role \<Rightarrow> content_part \<Rightarrow> wire_state \<Rightarrow> error + wire_state" where
  "wire_part model r p st =
     (let (out, tx, calls) = st; bad = (\<lambda>msg. Inl (ollama_badRequest model msg)) in
      if \<not> partAllowed r (cp_Type p) then bad (quote (cp_Type p) @ '' content part is not valid in a '' @ quote r @ '' message'')
      else if cp_Type p = ContentText then
        (if cp_Text p = [] then bad ''empty text content part'' else Inr (out, tx @ cp_Text p, calls))
      else if cp_Type p = ContentToolCall then
        (case cp_ToolCall p of
           None \<Rightarrow> bad ''tool_call content part with nil ToolCall''
         | Some tc \<Rightarrow> Inr (out, tx, calls @ [\<lparr>wtc_ID = tc_ID tc,
             wtc_Function = \<lparr>wf_Name = tc_Name tc, wf_Arguments = tc_Parameters tc\<rparr>\<rparr>]))
      else
        (case cp_ToolResult p of
           None \<Rightarrow> bad ''tool_result content part with nil ToolResult''
         | Some tr \<Rightarrow> Inr (out @ [\<lparr>wm_Role = ''tool'', wm_Content = tr_Content tr, wm_ToolCalls = [],
             wm_ToolCallID = tr_ToolCallID tr\<rparr>], tx, calls)))"

fun wire_parts :: "string \<Rightarrow> role \<Rightarrow> content_part list \<Rightarrow> wire_state \<Rightarrow> error + wire_state" where
  "wire_parts model r [] st = Inr st"
| "wire_parts model r (p # ps) st =
     (case wire_part model r p st of Inl err \<Rightarrow> Inl err | Inr st \<Rightarrow> wire_parts model r ps st)"

definition messageParts :: "string \<Rightarrow> message \<Rightarrow> error + wireMessage list" where
  "messageParts model m =
     (case ollama_roleFor (m_Role m) of
        None \<Rightarrow> Inl (ollama_badRequest model (''unknown message role: '' @ m_Role m))
      | Some role \<Rightarrow>
          (case wire_parts model (m_Role m) (m_Content m) ([], [], []) of
             Inl err \<Rightarrow> Inl err
           | Inr (out, tx, calls) \<Rightarrow>
               Inr (if tx \<noteq> [] \<or> calls \<noteq> []
                    then out @ [\<lparr>wm_Role = role, wm_Content = tx, wm_ToolCalls = calls, wm_ToolCallID = []\<rparr>] else out)))"

definition object_schema :: string where
  "object_schema = encode_json False (JObj [(''type'', JStr ''object'')])"

definition ollama_tool :: "string \<Rightarrow> tool_definition \<Rightarrow> error + wireTool" where
  "ollama_tool model t =
     (let tool = (\<lambda>params. Inr \<lparr>wt_Type = ''function'', wt_Function = \<lparr>wtd_Name = td_Name t,
            wtd_Description = td_Description t, wtd_Parameters = params\<rparr>\<rparr>) in
      if td_InputSchema t = [] then tool object_schema
      else case (case unmarshal (td_InputSchema t) of None \<Rightarrow> None | Some j \<Rightarrow> to_map j) of
        Some (Some obj) \<Rightarrow>
          (if (case map_of obj ''type'' of Some (JStr tv) \<Rightarrow> tv \<noteq> ''object'' | _ \<Rightarrow> False)
           then Inl (ollama_badRequest model (''tool '' @ td_Name t @ '': input schema type must be \"object\"''))
           else tool (td_InputSchema t))
      | _ \<Rightarrow> Inl (ollama_badRequest model (''tool '' @ td_Name t @ '': input schema must be a JSON object'')))"

fun ollama_tools :: "string \<Rightarrow> tool_definition list \<Rightarrow> error + wireTool list" where
  "ollama_tools model [] = Inr []"
| "ollama_tools model (t # ts) =
     (case ollama_tool model t of
        Inl err \<Rightarrow> Inl err
      | Inr tool \<Rightarrow> (case ollama_tools model ts of Inl err \<Rightarrow> Inl err | Inr tools \<Rightarrow> Inr (tool # tools)))"

definition ollama_buildTools :: "string \<Rightarrow> chat_request \<Rightarrow> error + wireTool list" where
  "ollama_buildTools model req = (if cr_Tools req = [] then Inr [] else ollama_tools model (cr_Tools req))"

definition validateToolChoice :: "string \<Rightarrow> chat_request \<Rightarrow> error option" where
  "validateToolChoice model req =
     (let tc = cr_ToolChoice req in
      if RequiresTools tc \<and> cr_Tools req = []
      then Some (ollama_badRequest model (''tool choice '' @ tch_Type tc @ '' requires at least one tool''))
      else if tch_Type tc \<noteq> ToolChoiceTool then None
      else if tch_Name tc = [] then Some (ollama_badRequest model ''tool choice type \"tool\" requires a tool name'')
      else if list_ex (\<lambda>t. td_Name t = tch_Name tc) (cr_Tools req) then None
      else Some (ollama_badRequest model (''tool choice references tool not in Tools: '' @ tch_Name tc)))"

text \<open>The think value and what was applied.\<close>

definition ollama_mapReasoning :: "reasoning_config option \<Rightarrow> json option \<times> reasoning_config option" where
  "ollama_mapReasoning r =
     (case r of
        None \<Rightarrow> (None, None)
      | Some r \<Rightarrow>
          (if rc_Effort r = ReasoningEffortNone then (Some (JBool False), Some (zero_reasoning_config\<lparr>rc_Effort := rc_Effort r\<rparr>))
           else if rc_Effort r \<in> {ReasoningEffortLow, ReasoningEffortMedium, ReasoningEffortHigh}
             then (Some (JStr (rc_Effort r)), Some (zero_reasoning_config\<lparr>rc_Effort := rc_Effort r\<rparr>))
           else (None, None)))"

fun wire_messages :: "string \<Rightarrow> message list \<Rightarrow> wireMessage list \<Rightarrow> error + wireMessage list" where
  "wire_messages model [] msgs = Inr msgs"
| "wire_messages model (m # ms) msgs =
     (case messageParts model m of Inl err \<Rightarrow> Inl err | Inr mp \<Rightarrow> wire_messages model ms (msgs @ mp))"

text \<open>\<open>float_text\<close> is the JSON encoding of a float32.\<close>

definition toWire :: "(rat \<Rightarrow> string) \<Rightarrow> string \<Rightarrow> chat_request \<Rightarrow> error + wireRequest" where
  "toWire float_text model req =
     (case ollama_systemText model req of
        Inl err \<Rightarrow> Inl err
      | Inr sys \<Rightarrow>
          (case wire_messages model (ReasoningFrom ProviderOllama (cr_Messages req))
              (if sys \<noteq> [] then [zero_wireMessage\<lparr>wm_Role := ''system'', wm_Content := sys\<rparr>] else []) of
             Inl err \<Rightarrow> Inl err
           | Inr msgs \<Rightarrow>
               if msgs = [] \<or> (length msgs = 1 \<and> wm_Role (hd msgs) = ''system'')
               then Inl (ollama_badRequest model ''request has no messages'')
               else case ollama_buildTools model req of
                 Inl err \<Rightarrow> Inl err
               | Inr tools \<Rightarrow>
                   (case validateToolChoice model req of
                      Some err \<Rightarrow> Inl err
                    | None \<Rightarrow>
                        Inr \<lparr>wreq_Think = fst (ollama_mapReasoning (cr_Reasoning req)), wreq_Model = model, wreq_Messages = msgs,
                          wreq_Tools = (if tch_Type (cr_ToolChoice req) \<noteq> ToolChoiceNone then tools else []),
                          wreq_Options =
                            (let opts = (case cr_Temperature req of None \<Rightarrow> [] | Some t \<Rightarrow> put ''temperature'' (JNum (float_text t)) [])
                             in if cr_MaxTokens req > 0 then put ''num_predict'' (JNum (itoa (cr_MaxTokens req))) opts else opts),
                          wreq_Stream = False\<rparr>)))"

section \<open>Bodies\<close>

text \<open>\<open>json.Marshal\<close> of a raw message: \<open>None\<close> when its text is not JSON.\<close>

definition omit_raw :: "string \<Rightarrow> string \<Rightarrow> (string \<times> json) list option" where
  "omit_raw k raw = (if raw = [] then Some [] else map_option (\<lambda>j. [(k, j)]) (unmarshal raw))"

definition wireToolCall_json :: "wireToolCall \<Rightarrow> json option" where
  "wireToolCall_json tc =
     map_option (\<lambda>args. JObj (omitempty ''id'' (wtc_ID tc) @
        [(''function'', JObj ((''name'', JStr (wf_Name (wtc_Function tc))) # args))]))
       (omit_raw ''arguments'' (wf_Arguments (wtc_Function tc)))"

fun map_json :: "('a \<Rightarrow> json option) \<Rightarrow> 'a list \<Rightarrow> json list option" where
  "map_json f [] = Some []"
| "map_json f (x # xs) = (case f x of None \<Rightarrow> None | Some j \<Rightarrow> map_option ((#) j) (map_json f xs))"

definition wireMessage_json :: "wireMessage \<Rightarrow> json option" where
  "wireMessage_json m =
     map_option (\<lambda>calls. JObj ((''role'', JStr (wm_Role m)) # omitempty ''content'' (wm_Content m) @
        (if calls = [] then [] else [(''tool_calls'', JArr calls)]) @ omitempty ''tool_call_id'' (wm_ToolCallID m)))
       (map_json wireToolCall_json (wm_ToolCalls m))"

definition wireTool_json :: "wireTool \<Rightarrow> json option" where
  "wireTool_json t =
     map_option (\<lambda>params. JObj [(''type'', JStr (wt_Type t)), (''function'', JObj ((''name'', JStr (wtd_Name (wt_Function t))) #
        omitempty ''description'' (wtd_Description (wt_Function t)) @ params))])
       (omit_raw ''parameters'' (wtd_Parameters (wt_Function t)))"

definition wireRequest_json :: "wireRequest \<Rightarrow> json option" where
  "wireRequest_json r =
     (case (map_json wireMessage_json (wreq_Messages r), map_json wireTool_json (wreq_Tools r)) of
        (Some msgs, Some tools) \<Rightarrow>
          Some (JObj ((case wreq_Think r of None \<Rightarrow> [] | Some t \<Rightarrow> [(''think'', t)]) @
            (''model'', JStr (wreq_Model r)) # (''messages'', JArr msgs) #
            (if tools = [] then [] else [(''tools'', JArr tools)]) @
            (if wreq_Options r = [] then [] else [(''options'', JObj (wreq_Options r))]) @
            [(''stream'', JBool (wreq_Stream r))]))
      | _ \<Rightarrow> None)"

text \<open>Decoding: an integer is a literal \<open>ParseInt\<close> accepts; a raw message takes any value; the elements of an
  array are decoded from zero values.\<close>

definition decode_int :: "json \<Rightarrow> int \<Rightarrow> int option" where
  "decode_int v old = (case v of JNum lit \<Rightarrow> Atoi lit | JNull \<Rightarrow> Some old | _ \<Rightarrow> None)"

definition decode_bool :: "json \<Rightarrow> bool \<Rightarrow> bool option" where
  "decode_bool v old = (case v of JBool b \<Rightarrow> Some b | JNull \<Rightarrow> Some old | _ \<Rightarrow> None)"

fun decode_list :: "(json \<Rightarrow> 'a option) \<Rightarrow> json list \<Rightarrow> 'a list option" where
  "decode_list f [] = Some []"
| "decode_list f (j # js) = (case f j of None \<Rightarrow> None | Some x \<Rightarrow> map_option ((#) x) (decode_list f js))"

definition set_toolFunc :: "string \<Rightarrow> json \<Rightarrow> wireToolFunc \<Rightarrow> wireToolFunc option" where
  "set_toolFunc k v f =
     (if k = ''name'' then map_option (\<lambda>s. f\<lparr>wf_Name := s\<rparr>) (decode_string v (wf_Name f))
      else if k = ''arguments'' then Some (f\<lparr>wf_Arguments := encode_json False v\<rparr>)
      else Some f)"

definition set_toolCall :: "string \<Rightarrow> json \<Rightarrow> wireToolCall \<Rightarrow> wireToolCall option" where
  "set_toolCall k v c =
     (if k = ''id'' then map_option (\<lambda>s. c\<lparr>wtc_ID := s\<rparr>) (decode_string v (wtc_ID c))
      else if k = ''function'' then map_option (\<lambda>f. c\<lparr>wtc_Function := f\<rparr>) (decode_struct set_toolFunc (wtc_Function c) v)
      else Some c)"

definition set_wireMessage :: "string \<Rightarrow> json \<Rightarrow> wireMessage \<Rightarrow> wireMessage option" where
  "set_wireMessage k v m =
     (if k = ''role'' then map_option (\<lambda>s. m\<lparr>wm_Role := s\<rparr>) (decode_string v (wm_Role m))
      else if k = ''content'' then map_option (\<lambda>s. m\<lparr>wm_Content := s\<rparr>) (decode_string v (wm_Content m))
      else if k = ''tool_calls'' then
        (case v of
           JArr js \<Rightarrow> map_option (\<lambda>cs. m\<lparr>wm_ToolCalls := cs\<rparr>) (decode_list (decode_struct set_toolCall zero_wireToolCall) js)
         | JNull \<Rightarrow> Some (m\<lparr>wm_ToolCalls := []\<rparr>)
         | _ \<Rightarrow> None)
      else if k = ''tool_call_id'' then map_option (\<lambda>s. m\<lparr>wm_ToolCallID := s\<rparr>) (decode_string v (wm_ToolCallID m))
      else Some m)"

definition set_wireResponse :: "string \<Rightarrow> json \<Rightarrow> wireResponse \<Rightarrow> wireResponse option" where
  "set_wireResponse k v r =
     (if k = ''model'' then map_option (\<lambda>s. r\<lparr>wr_Model := s\<rparr>) (decode_string v (wr_Model r))
      else if k = ''message'' then map_option (\<lambda>m. r\<lparr>wr_Message := m\<rparr>) (decode_struct set_wireMessage (wr_Message r) v)
      else if k = ''done_reason'' then map_option (\<lambda>s. r\<lparr>wr_DoneReason := s\<rparr>) (decode_string v (wr_DoneReason r))
      else if k = ''error'' then map_option (\<lambda>s. r\<lparr>wr_Error := s\<rparr>) (decode_string v (wr_Error r))
      else if k = ''prompt_eval_count'' then map_option (\<lambda>n. r\<lparr>wr_PromptEvalCount := n\<rparr>) (decode_int v (wr_PromptEvalCount r))
      else if k = ''eval_count'' then map_option (\<lambda>n. r\<lparr>wr_EvalCount := n\<rparr>) (decode_int v (wr_EvalCount r))
      else if k = ''done'' then map_option (\<lambda>b. r\<lparr>wr_Done := b\<rparr>) (decode_bool v (wr_Done r))
      else Some r)"

definition unmarshal_response :: "string \<Rightarrow> wireResponse option" where
  "unmarshal_response body =
     (case unmarshal body of None \<Rightarrow> None | Some j \<Rightarrow> decode_struct set_wireResponse zero_wireResponse j)"

definition set_error_text :: "string \<Rightarrow> json \<Rightarrow> string \<Rightarrow> string option" where
  "set_error_text k v msg = (if k = ''error'' then decode_string v msg else Some msg)"

section \<open>The exchange\<close>

record http_response =
  hr_StatusCode :: int
  hr_Header :: http_header
  hr_Body :: string

record 'w ollama_client =
  ol_http :: "ctx \<Rightarrow> string \<Rightarrow> string \<Rightarrow> 'w \<Rightarrow> (error + http_response) \<times> 'w"
  ol_baseURL :: string
  ol_model :: string
  ol_err_text :: "error \<Rightarrow> string"
  ol_http_date :: "string \<Rightarrow> int option"
  ol_now :: int
  ol_float_text :: "rat \<Rightarrow> string"
  ol_raw :: "wireResponse \<Rightarrow> json"

text \<open>\<open>classify\<close>, for an error of the transport and for an \<open>httpStatusErr\<close> of the source.\<close>

definition ollama_classify :: "'w ollama_client \<Rightarrow> extractor \<Rightarrow> error \<Rightarrow> error" where
  "ollama_classify c extractor e =
     (case Classify (ol_err_text c) (ol_http_date c) (ol_now c) ProviderOllama (ol_model c) (Some e) extractor of
        None \<Rightarrow> e
      | Some e' \<Rightarrow> e')"

definition httpStatusErr :: "'w ollama_client \<Rightarrow> http_response \<Rightarrow> string \<Rightarrow> error" where
  "httpStatusErr c resp msg =
     ollama_classify c (\<lambda>_. Some (hr_StatusCode resp, Some (hr_Header resp), msg))
       (Wrapped (''ollama: status '' @ itoa (hr_StatusCode resp) @ '': '' @ msg) [])"

definition ollama_status_message :: "string \<Rightarrow> string" where
  "ollama_status_message body =
     (case (case unmarshal body of None \<Rightarrow> None | Some j \<Rightarrow> decode_struct set_error_text [] j) of
        None \<Rightarrow> TrimSpace body
      | Some e \<Rightarrow> (if e \<noteq> [] then e else TrimSpace body))"

definition ollama_do :: "'w ollama_client \<Rightarrow> ctx \<Rightarrow> wireRequest \<Rightarrow> (string \<times> json) list option \<Rightarrow> 'w \<Rightarrow> (error + wireResponse) \<times> 'w" where
  "ollama_do c ctx wr extra w =
     (case wireRequest_json wr of
        None \<Rightarrow> (Inl (ollama_badRequest (ol_model c) (''marshal request: '' @ error_text json_error)), w)
      | Some doc \<Rightarrow>
          (case (case extra of None \<Rightarrow> Inr (encode_json True doc) | Some m \<Rightarrow> MergeJSON (encode_json True doc) m) of
             Inl err \<Rightarrow> (Inl (ollama_badRequest (ol_model c) (error_text err)), w)
           | Inr body \<Rightarrow>
               (case ol_http c ctx (ol_baseURL c @ ''/api/chat'') body w of
                  (Inl err, w') \<Rightarrow> (Inl (ollama_classify c (\<lambda>_. None) err), w')
                | (Inr resp, w') \<Rightarrow>
                    (if hr_StatusCode resp < 200 \<or> hr_StatusCode resp \<ge> 300
                     then (Inl (httpStatusErr c resp (ollama_status_message (hr_Body resp))), w')
                     else case unmarshal_response (hr_Body resp) of
                       None \<Rightarrow> (Inl (httpStatusErr c resp (''invalid response JSON: '' @ error_text json_error)), w')
                     | Some wresp \<Rightarrow>
                         (if wr_Error wresp \<noteq> [] then (Inl (httpStatusErr c resp (wr_Error wresp)), w')
                          else (Inr wresp, w'))))))"

section \<open>Responses\<close>

text \<open>The call at an index: a missing id is made up from the index.\<close>

definition ollama_call :: "nat \<Rightarrow> wireToolCall \<Rightarrow> tool_call" where
  "ollama_call i tc =
     \<lparr>tc_ID = (if wtc_ID tc = [] then ''call_'' @ itoa (int i) else wtc_ID tc), tc_Name = wf_Name (wtc_Function tc),
      tc_Parameters = wf_Arguments (wtc_Function tc), tc_ProviderSignature = []\<rparr>"

fun ollama_calls :: "nat \<Rightarrow> wireToolCall list \<Rightarrow> tool_call list" where
  "ollama_calls i [] = []"
| "ollama_calls i (tc # tcs) = ollama_call i tc # ollama_calls (Suc i) tcs"

definition ollama_toChatResponse :: "(wireResponse \<Rightarrow> json) \<Rightarrow> wireResponse \<Rightarrow> chat_response" where
  "ollama_toChatResponse raw resp =
     (let calls = ollama_calls 0 (wm_ToolCalls (wr_Message resp));
          stop = (if wr_DoneReason resp = [] \<and> wr_Done resp then ''stop'' else wr_DoneReason resp)
      in \<lparr>rsp_Message = \<lparr>m_Role = RoleAssistant, m_Content = text_parts (wm_Content (wr_Message resp)) @ map call_part calls\<rparr>,
          rsp_Text = wm_Content (wr_Message resp), rsp_ToolCalls = calls, rsp_StopReason = stop,
          rsp_Usage = zero_usage\<lparr>u_InputTokens := wr_PromptEvalCount resp, u_OutputTokens := wr_EvalCount resp,
            u_TotalTokens := go_add (wr_PromptEvalCount resp) (wr_EvalCount resp),
            u_BillableOutputTokens := wr_EvalCount resp\<rparr>,
          rsp_AppliedReasoning = None, rsp_Raw = Some (raw resp)\<rparr>)"

definition ollama_Model :: "'w ollama_client \<Rightarrow> model_ref" where
  "ollama_Model c = \<lparr>mr_Provider = ProviderOllama, mr_Name = ol_model c\<rparr>"

definition ollama_respond :: "'w ollama_client \<Rightarrow> chat_request \<Rightarrow> (string \<times> json) list option \<Rightarrow> wireResponse \<Rightarrow> chat_response" where
  "ollama_respond c req extra resp =
     (let applied = snd (ollama_mapReasoning (cr_Reasoning req));
          applied = (if (case extra of None \<Rightarrow> False | Some m \<Rightarrow> Overrides m [''think'']) then None else applied)
      in (ollama_toChatResponse (ol_raw c) resp)\<lparr>rsp_AppliedReasoning := applied\<rparr>)"

definition ollama_Complete :: "'w ollama_client \<Rightarrow> ctx \<Rightarrow> chat_request \<Rightarrow> 'w \<Rightarrow> (chat_response \<times> error option) \<times> 'w" where
  "ollama_Complete c ctx req w =
     (case For req ProviderOllama of
        Inl err \<Rightarrow> ((zero_response, Some (ollama_badRequest (ol_model c) (error_text err))), w)
      | Inr extra \<Rightarrow>
          (case toWire (ol_float_text c) (ol_model c) req of
             Inl err \<Rightarrow> ((zero_response, Some err), w)
           | Inr wireReq \<Rightarrow>
               (case ollama_do c ctx wireReq extra w of
                  (Inl err, w') \<Rightarrow> ((zero_response, Some err), w')
                | (Inr resp, w') \<Rightarrow> ((ollama_respond c req extra resp, None), w'))))"

end
