(* ===== verification/OllamaProps.thy ===== *)
theory OllamaProps
  imports Ollama
begin

text \<open>
  What the Ollama adapter guarantees: validated requests convert in turn order, the outcome of the HTTP exchange
  decides the answer, a turn comes back as it was sent, and the adapter interface.
\<close>

section \<open>Validated requests convert in turn order\<close>

definition wire_events :: "wireMessage \<Rightarrow> turn_event list" where
  "wire_events m = (if wm_Role m = ''tool'' then [Result (wm_ToolCallID m)] else [Calls (map wtc_ID (wm_ToolCalls m))])"

lemma wire_parts_text:
  "\<forall>p \<in> set ps. cp_Type p = ContentText \<and> cp_Text p \<noteq> [] \<Longrightarrow> r = RoleUser \<or> r = RoleAssistant \<Longrightarrow>
     \<exists>tx'. wire_parts model r ps (out, tx, calls) = Inr (out, tx', calls) \<and> (tx \<noteq> [] \<or> ps \<noteq> [] \<longrightarrow> tx' \<noteq> [])"
proof (induction ps arbitrary: tx)
  case (Cons p ps)
  then have "wire_part model r p (out, tx, calls) = Inr (out, tx @ cp_Text p, calls)"
    unfolding wire_part_def Let_def prod.case by (simp add: partAllowed_def)
  with Cons.IH [of "tx @ cp_Text p"] Cons.prems show ?case by auto
qed simp

lemma wire_parts_assistant:
  assumes "\<forall>p \<in> set ps. cp_Type p = ContentText \<and> cp_Text p \<noteq> [] \<or> cp_Type p = ContentToolCall \<and> cp_ToolCall p \<noteq> None"
  shows "\<exists>tx' calls'. wire_parts model RoleAssistant ps (out, tx, calls) = Inr (out, tx', calls') \<and>
    map wtc_ID calls' = map wtc_ID calls @ part_calls ps \<and> (tx \<noteq> [] \<or> calls \<noteq> [] \<or> ps \<noteq> [] \<longrightarrow> tx' \<noteq> [] \<or> calls' \<noteq> [])"
  using assms
proof (induction ps arbitrary: tx calls)
  case (Cons p ps)
  consider "cp_Type p = ContentText" "cp_Text p \<noteq> []" | tc where "cp_Type p = ContentToolCall" "cp_ToolCall p = Some tc"
    using Cons.prems by auto
  then show ?case
  proof cases
    case 1
    then have "wire_part model RoleAssistant p (out, tx, calls) = Inr (out, tx @ cp_Text p, calls)"
      unfolding wire_part_def Let_def prod.case by (simp add: partAllowed_def)
    with 1 Cons.IH [of "tx @ cp_Text p" calls] Cons.prems show ?thesis by (auto simp: part_calls_def)
  next
    case (2 tc)
    let ?call = "\<lparr>wtc_ID = tc_ID tc, wtc_Function = \<lparr>wf_Name = tc_Name tc, wf_Arguments = tc_Parameters tc\<rparr>\<rparr>"
    from 2 have "wire_part model RoleAssistant p (out, tx, calls) = Inr (out, tx, calls @ [?call])"
      unfolding wire_part_def Let_def prod.case by (simp add: partAllowed_def)
    with 2 Cons.IH [of tx "calls @ [?call]"] Cons.prems show ?thesis by (auto simp: part_calls_def)
  qed
qed (simp add: part_calls_def)

lemma wire_parts_tool:
  "\<forall>p \<in> set ps. result_part_ok p \<Longrightarrow> \<exists>new. wire_parts model RoleTool ps (out, [], []) = Inr (out @ new, [], []) \<and>
     concat (map wire_events new) = map Result (map (\<lambda>p. tr_ToolCallID (the (cp_ToolResult p))) ps) \<and> length new = length ps"
proof (induction ps arbitrary: out)
  case (Cons p ps)
  then obtain tr where tr: "cp_Type p = ContentToolResult" "cp_ToolResult p = Some tr" by (auto simp: result_part_ok_def)
  let ?m = "\<lparr>wm_Role = ''tool'', wm_Content = tr_Content tr, wm_ToolCalls = [], wm_ToolCallID = tr_ToolCallID tr\<rparr>"
  from tr have "wire_part model RoleTool p (out, [], []) = Inr (out @ [?m], [], [])"
    unfolding wire_part_def Let_def prod.case by (simp add: partAllowed_def)
  moreover from Cons obtain new where "wire_parts model RoleTool ps (out @ [?m], [], []) = Inr ((out @ [?m]) @ new, [], [])"
    "concat (map wire_events new) = map Result (map (\<lambda>p. tr_ToolCallID (the (cp_ToolResult p))) ps)" "length new = length ps"
    by fastforce
  moreover have "wire_events ?m = [Result (tr_ToolCallID tr)]" by (simp add: wire_events_def)
  ultimately show ?case using tr by (intro exI [of _ "?m # new"]) simp
qed simp

lemma messageParts_ok:
  assumes "user_ok m \<or> assistant_ok m \<or> tool_ok m" and "texts_ok m" and "no_reasoning m"
  shows "\<exists>new. messageParts model m = Inr new \<and> concat (map wire_events new) = message_events m \<and> new \<noteq> [] \<and>
    (\<forall>w \<in> set new. wm_Role w \<noteq> ''system'')"
  using assms(1)
proof (elim disjE)
  assume u: "user_ok m"
  have "\<exists>tx'. wire_parts model RoleUser (m_Content m) ([], [], []) = Inr ([], tx', []) \<and> (([] :: string) \<noteq> [] \<or> m_Content m \<noteq> [] \<longrightarrow> tx' \<noteq> [])"
    by (rule wire_parts_text) (use u assms(2) in \<open>auto simp: user_ok_def texts_ok_def\<close>)
  with u user_calls [OF u] show ?thesis
    by (auto simp: messageParts_def ollama_roleFor_def message_events_def user_ok_def wire_events_def)
next
  assume a: "assistant_ok m"
  have "\<forall>p \<in> set (m_Content m). cp_Type p = ContentText \<and> cp_Text p \<noteq> [] \<or> cp_Type p = ContentToolCall \<and> cp_ToolCall p \<noteq> None"
    using a assms(2,3) by (fastforce simp: assistant_ok_def texts_ok_def no_reasoning_def call_part_ok_def)
  from wire_parts_assistant [OF this, of model "[]" "[]" "[]"] obtain tx calls where
    "wire_parts model RoleAssistant (m_Content m) ([], [], []) = Inr ([], tx, calls)" "map wtc_ID calls = part_calls (m_Content m)"
    "m_Content m \<noteq> [] \<longrightarrow> tx \<noteq> [] \<or> calls \<noteq> []" by auto
  moreover have "m_Content m \<noteq> []" using a by (auto simp: assistant_ok_def hasNonReasoning_iff)
  ultimately show ?thesis using a
    by (auto simp: messageParts_def ollama_roleFor_def message_events_def assistant_ok_def part_calls_message wire_events_def)
next
  assume t: "tool_ok m"
  then have parts: "\<forall>p \<in> set (m_Content m). result_part_ok p" "m_Content m \<noteq> []" by (simp_all add: tool_ok_def)
  from wire_parts_tool [OF parts(1), of model "[]"] obtain new where
    new: "wire_parts model RoleTool (m_Content m) ([], [], []) = Inr (new, [], [])" "length new = length (m_Content m)"
      "concat (map wire_events new) = map Result (map (\<lambda>p. tr_ToolCallID (the (cp_ToolResult p))) (m_Content m))" by auto
  have "\<forall>w \<in> set new. wm_Role w \<noteq> ''system''"
  proof
    fix w assume "w \<in> set new"
    then have "set (wire_events w) \<subseteq> range Result" using arg_cong [OF new(3), of set] by auto
    then show "wm_Role w \<noteq> ''system''" by (auto simp: wire_events_def split: if_splits)
  qed
  with t new parts(2) show ?thesis
    by (auto simp: messageParts_def ollama_roleFor_def message_events_def tool_ok_def result_ids_def)
qed

lemma wire_messages_ok:
  assumes "\<forall>m \<in> set ms. (user_ok m \<or> assistant_ok m \<or> tool_ok m) \<and> texts_ok m \<and> no_reasoning m"
  shows "\<exists>new. wire_messages model ms out = Inr (out @ new) \<and> concat (map wire_events new) = concat (map message_events ms) \<and>
    (ms \<noteq> [] \<longrightarrow> new \<noteq> []) \<and> (\<forall>w \<in> set new. wm_Role w \<noteq> ''system'')"
  using assms
proof (induction ms arbitrary: out)
  case (Cons m ms)
  from messageParts_ok [of m model] Cons.prems obtain new where new: "messageParts model m = Inr new"
    "concat (map wire_events new) = message_events m" "new \<noteq> []" "\<forall>w \<in> set new. wm_Role w \<noteq> ''system''" by auto
  from Cons.IH [of "out @ new"] Cons.prems obtain rest where "wire_messages model ms (out @ new) = Inr ((out @ new) @ rest)"
    "concat (map wire_events rest) = concat (map message_events ms)" "\<forall>w \<in> set rest. wm_Role w \<noteq> ''system''" by auto
  with new show ?case by (intro exI [of _ "new @ rest"]) auto
qed simp

text \<open>
  a validated request with non-empty texts converts unless its tools or tool choice are at fault, and in
  the messages sent each assistant message with calls is followed by one tool message per call,
  before any other message; \<open>ToolChoiceNone\<close> leaves the tools out.
\<close>

theorem ollama_valid_requests_convert:
  assumes "validateChatRequest req = None" and "\<forall>m \<in> set (cr_Messages req). texts_ok m \<and> foreign_reasoning ProviderOllama m"
    and "ollama_buildTools model req = Inr tools" and "validateToolChoice model req = None"
  shows "\<exists>r. toWire float_text model req = Inr r \<and> in_turn {} (concat (map wire_events (wreq_Messages r))) \<and>
    wreq_Tools r = (if tch_Type (cr_ToolChoice req) = ToolChoiceNone then [] else tools)"
proof -
  from assms(1) have v: "ValidateMessages (cr_Messages req) = None" and "system_check 0 (cr_System req) = None"
    by (simp_all add: validateChatRequest_def split: option.splits)
  then obtain sys where sys: "ollama_systemText model req = Inr sys"
    using system_text_ok unfolding ollama_systemText_def by blast
  have wf: "wf_transcript (cr_Messages req)" "cr_Messages req \<noteq> []" using v by (simp_all add: ValidateMessages_None_iff)
  note send = strip_sendable [OF wf(1) assms(2)]
  let ?sys = "if sys \<noteq> [] then [zero_wireMessage\<lparr>wm_Role := ''system'', wm_Content := sys\<rparr>] else []"
  obtain new where new: "wire_messages model (ReasoningFrom ProviderOllama (cr_Messages req)) ?sys = Inr (?sys @ new)"
    "concat (map wire_events new) = concat (map message_events (ReasoningFrom ProviderOllama (cr_Messages req)))"
    "new \<noteq> []" "\<forall>w \<in> set new. wm_Role w \<noteq> ''system''"
    using wire_messages_ok [OF send(1), of model ?sys] wf(2) by (auto simp: ReasoningFrom_eq)
  have "\<not> (?sys @ new = [] \<or> (length (?sys @ new) = 1 \<and> wm_Role (hd (?sys @ new)) = ''system''))"
    using new(3,4) by (cases new) auto
  moreover have "in_turn {} (concat (map wire_events (?sys @ new)))"
    using send(2) new(2) by (simp add: wire_events_def zero_wireMessage_def)
  ultimately show ?thesis using sys assms(3,4) new(1) by (simp add: toWire_def)
qed

section \<open>The adapter's interface\<close>

lemma ollama_bad_own: "own_error ProviderOllama ErrorKindBadRequest (ollama_badRequest model msg)"
  by (simp add: ollama_badRequest_def)

lemma wire_part_error: "wire_part model r p st = Inl e \<Longrightarrow> own_error ProviderOllama ErrorKindBadRequest e"
  by (auto simp: wire_part_def Let_def ollama_bad_own split: prod.splits if_splits option.splits)

lemma wire_parts_error: "wire_parts model r ps st = Inl e \<Longrightarrow> own_error ProviderOllama ErrorKindBadRequest e"
  by (induction ps arbitrary: st) (auto split: sum.splits dest: wire_part_error)

lemma messageParts_error: "messageParts model m = Inl e \<Longrightarrow> own_error ProviderOllama ErrorKindBadRequest e"
  by (auto simp: messageParts_def ollama_bad_own split: option.splits sum.splits prod.splits dest: wire_parts_error)

lemma wire_messages_error: "wire_messages model ms out = Inl e \<Longrightarrow> own_error ProviderOllama ErrorKindBadRequest e"
  by (induction ms arbitrary: out) (auto split: sum.splits dest: messageParts_error)

lemma ollama_tool_error: "ollama_tool model t = Inl e \<Longrightarrow> own_error ProviderOllama ErrorKindBadRequest e"
  unfolding ollama_tool_def Let_def by (auto simp: ollama_bad_own split: option.splits if_splits json.splits)

lemma ollama_tools_error: "ollama_tools model ts = Inl e \<Longrightarrow> own_error ProviderOllama ErrorKindBadRequest e"
  by (induction ts) (auto split: sum.splits dest: ollama_tool_error)

lemma toWire_error:
  assumes "toWire float_text model req = Inl e"
  shows "own_error ProviderOllama ErrorKindBadRequest e"
proof -
  have sys: "ollama_systemText model req = Inl e \<Longrightarrow> own_error ProviderOllama ErrorKindBadRequest e" for e
    using system_text_error by (fastforce simp: ollama_systemText_def ollama_bad_own)
  have tools: "ollama_buildTools model req = Inl e \<Longrightarrow> own_error ProviderOllama ErrorKindBadRequest e" for e
    by (auto simp: ollama_buildTools_def split: if_splits dest: ollama_tools_error)
  have choice: "validateToolChoice model req = Some e \<Longrightarrow> own_error ProviderOllama ErrorKindBadRequest e" for e
    by (auto simp: validateToolChoice_def Let_def ollama_bad_own split: if_splits)
  from assms show ?thesis unfolding toWire_def
    by (auto simp: ollama_bad_own split: sum.splits if_splits option.splits dest: sys wire_messages_error tools choice)
qed

lemma tool_calls_call_parts [simp]: "tool_calls (map call_part calls) = calls"
  using tool_calls_parts(2) [of id calls] by simp

lemma ollama_respond_mirrors: "mirrors (ollama_respond c req extra resp)"
  by (simp add: mirrors_def ollama_respond_def ollama_toChatResponse_def Let_def)

interpretation ollama: chat_adapter ProviderOllama "ollama_badRequest (ol_model c)"
    "\<lambda>req. Some (toWire (ol_float_text c) (ol_model c) req)" "ollama_do c" Some
    "ollama_respond c" "\<lambda>ctx req w. Some (ollama_Complete c ctx req w)"
  for c :: "'w ollama_client"
  by unfold_locales (auto simp: ollama_Complete_def ollama_bad_own toWire_error ollama_respond_mirrors split: sum.split prod.split)

end
