(* ===== verification/Google.thy ===== *)
theory Google
  imports OllamaProps
begin

text \<open>
  The Google chat adapter (\<open>llms/providers/google\<close>: \<open>convert.go\<close>, \<open>google.go\<close>, \<open>errors.go\<close>) over the genai SDK, for the Gemini
  API and for Vertex AI. The records hold the SDK's fields the source sets or reads; a nil map is \<open>None\<close>.
  As in the OpenAI adapter, \<open>buildTools\<close> writes into the decoded schema and panics when that map is nil,
  which is the value \<open>None\<close>. A Go map is ranged over in key order where the source's order is
  unspecified; only the choice among several errors depends on it.
\<close>

section \<open>The SDK's types\<close>

record genai_function_call =
  fc_ID :: string
  fc_Name :: string
  fc_Args :: "(string \<times> json) list option"

record genai_function_response =
  fr_Name :: string
  fr_Response :: "(string \<times> json) list"

record genai_part =
  gp_Text :: string
  gp_Thought :: bool
  gp_FunctionCall :: "genai_function_call option"
  gp_FunctionResponse :: "genai_function_response option"
  gp_ThoughtSignature :: string

definition zero_genai_part :: genai_part where
  "zero_genai_part = \<lparr>gp_Text = [], gp_Thought = False, gp_FunctionCall = None, gp_FunctionResponse = None, gp_ThoughtSignature = []\<rparr>"

record genai_content =
  gc_Role :: string
  gc_Parts :: "genai_part list"

datatype genai_schema =
  GenaiSchema (gs_Description: string) (gs_Type: string) (gs_Properties: "(string \<times> genai_schema) list option")
    (gs_Items: "genai_schema option") (gs_Required: "string list") (gs_Enum: "string list")

record genai_declaration =
  gd_Name :: string
  gd_Description :: string
  gd_Parameters :: genai_schema

record genai_tool_config =
  gtc_Mode :: string
  gtc_AllowedFunctionNames :: "string list"

record genai_thinking_config =
  gth_ThinkingLevel :: string
  gth_ThinkingBudget :: "int option"

record genai_config =
  gcfg_SystemInstruction :: "string option"
  gcfg_Temperature :: "rat option"
  gcfg_MaxOutputTokens :: int
  gcfg_Tools :: "genai_declaration list"
  gcfg_ToolConfig :: "genai_tool_config option"
  gcfg_ThinkingConfig :: "genai_thinking_config option"

record genai_usage =
  gu_PromptTokenCount :: int
  gu_CandidatesTokenCount :: int
  gu_ThoughtsTokenCount :: int
  gu_CachedContentTokenCount :: int
  gu_TotalTokenCount :: int

record genai_candidate =
  gcd_FinishReason :: string
  gcd_Content :: "genai_part option list option"

record genai_response =
  gr_ResponseID :: string
  gr_Candidates :: "genai_candidate option list"
  gr_UsageMetadata :: "genai_usage option"

definition MaxInt32 :: int where "MaxInt32 = 2147483647"

section \<open>Contents\<close>

definition google_badRequest :: "string \<Rightarrow> string \<Rightarrow> error" where
  "google_badRequest model msg = ProviderError ProviderGoogle model ErrorKindBadRequest 0 msg 0 None"

definition google_systemText :: "string \<Rightarrow> chat_request \<Rightarrow> error + string" where
  "google_systemText model req = system_text_from (google_badRequest model) [] (cr_System req)"

definition google_roleFor :: "role \<Rightarrow> string option" where
  "google_roleFor r =
     (if r = RoleUser \<or> r = RoleTool then Some ''user'' else if r = RoleAssistant then Some ''model'' else None)"

text \<open>A later call with the same id replaces the name of an earlier one.\<close>

definition note_call :: "(string \<rightharpoonup> string) \<Rightarrow> content_part \<Rightarrow> (string \<rightharpoonup> string)" where
  "note_call names p =
     (if cp_Type p = ContentToolCall then
        (case cp_ToolCall p of
           None \<Rightarrow> names
         | Some tc \<Rightarrow> (if tc_ID tc \<noteq> [] then names(tc_ID tc \<mapsto> tc_Name tc) else names))
      else names)"

definition toolCallNames :: "message list \<Rightarrow> (string \<rightharpoonup> string)" where
  "toolCallNames ms = foldl (\<lambda>names m. foldl note_call names (m_Content m)) Map.empty ms"

definition rawToMap :: "string \<Rightarrow> (error + (string \<times> json) list option)" where
  "rawToMap raw =
     (if raw = [] then Inr (Some [])
      else case (case unmarshal raw of None \<Rightarrow> None | Some j \<Rightarrow> to_map j) of
        None \<Rightarrow> Inl (Wrapped ''unmarshal'' [json_error])
      | Some m \<Rightarrow> Inr m)"

definition google_part :: "string \<Rightarrow> (string \<rightharpoonup> string) \<Rightarrow> content_part \<Rightarrow> error + genai_part" where
  "google_part model names p =
     (if cp_Type p = ContentText then
        (if cp_Text p = [] then Inl (google_badRequest model ''empty text content part'')
         else Inr (zero_genai_part\<lparr>gp_Text := cp_Text p\<rparr>))
      else if cp_Type p = ContentToolCall then
        (case cp_ToolCall p of
           None \<Rightarrow> Inl (google_badRequest model ''tool_call content part with nil ToolCall'')
         | Some tc \<Rightarrow>
             (case rawToMap (tc_Parameters tc) of
                Inl err \<Rightarrow> Inl (google_badRequest model
                  (''tool_call '' @ tc_Name tc @ '': invalid parameters JSON: '' @ error_text err))
              | Inr args \<Rightarrow>
                  Inr (zero_genai_part\<lparr>gp_FunctionCall := Some \<lparr>fc_ID = tc_ID tc, fc_Name = tc_Name tc, fc_Args = args\<rparr>,
                    gp_ThoughtSignature := tc_ProviderSignature tc\<rparr>)))
      else if cp_Type p = ContentToolResult then
        (case cp_ToolResult p of
           None \<Rightarrow> Inl (google_badRequest model ''tool_result content part with nil ToolResult'')
         | Some tr \<Rightarrow>
             (let name = (case names (tr_ToolCallID tr) of None \<Rightarrow> tr_ToolCallID tr | Some n \<Rightarrow> n) in
              Inr (zero_genai_part\<lparr>gp_FunctionResponse := Some \<lparr>fr_Name = name,
                fr_Response = [(''content'', JStr (tr_Content tr)), (''is_error'', JBool (tr_IsError tr))]\<rparr>\<rparr>)))
      else Inl (google_badRequest model (''unknown content part type: '' @ cp_Type p)))"

fun google_parts :: "string \<Rightarrow> (string \<rightharpoonup> string) \<Rightarrow> content_part list \<Rightarrow> genai_part list \<Rightarrow> error + genai_part list" where
  "google_parts model names [] parts = Inr parts"
| "google_parts model names (p # ps) parts =
     (case google_part model names p of Inl err \<Rightarrow> Inl err | Inr gp \<Rightarrow> google_parts model names ps (parts @ [gp]))"

fun google_messages :: "string \<Rightarrow> (string \<rightharpoonup> string) \<Rightarrow> message list \<Rightarrow> genai_content list \<Rightarrow> error + genai_content list" where
  "google_messages model names [] contents = Inr contents"
| "google_messages model names (m # ms) contents =
     (case google_roleFor (m_Role m) of
        None \<Rightarrow> Inl (google_badRequest model (''unknown message role: '' @ m_Role m))
      | Some role \<Rightarrow>
          (case google_parts model names (m_Content m) [] of
             Inl err \<Rightarrow> Inl err
           | Inr parts \<Rightarrow> google_messages model names ms
               (if parts \<noteq> [] then contents @ [\<lparr>gc_Role = role, gc_Parts = parts\<rparr>] else contents)))"

definition buildContents :: "string \<Rightarrow> chat_request \<Rightarrow> error + genai_content list" where
  "buildContents model req =
     (let ms = ReasoningFrom ProviderGoogle (cr_Messages req) in
      case google_messages model (toolCallNames ms) ms [] of
        Inl err \<Rightarrow> Inl err
      | Inr contents \<Rightarrow>
          (if contents = [] then Inl (google_badRequest model ''request has no messages'') else Inr contents))"

section \<open>Tools\<close>

definition genaiType :: "string \<Rightarrow> string option" where
  "genaiType t =
     (if t = ''string'' then Some ''STRING'' else if t = ''number'' then Some ''NUMBER''
      else if t = ''integer'' then Some ''INTEGER'' else if t = ''boolean'' then Some ''BOOLEAN''
      else if t = ''array'' then Some ''ARRAY'' else if t = ''object'' then Some ''OBJECT'' else None)"

text \<open>\<open>%T\<close> and \<open>%v\<close> of a decoded value; \<open>num\<close> prints the float64 a literal decodes to.\<close>

fun type_text :: "json \<Rightarrow> string" where
  "type_text JNull = ''<nil>''"
| "type_text (JBool b) = ''bool''"
| "type_text (JNum n) = ''float64''"
| "type_text (JStr s) = ''string''"
| "type_text (JArr js) = ''[]interface {}''"
| "type_text (JObj fs) = ''map[string]interface {}''"

fun value_text :: "(string \<Rightarrow> string) \<Rightarrow> json \<Rightarrow> string" where
  "value_text num JNull = ''<nil>''"
| "value_text num (JBool b) = (if b then ''true'' else ''false'')"
| "value_text num (JNum n) = num n"
| "value_text num (JStr s) = s"
| "value_text num (JArr js) = ''['' @ join_with (CHR '' '') (map (value_text num) js) @ '']''"
| "value_text num (JObj fs) = ''map['' @ join_with (CHR '' '') (map (\<lambda>(k, v). k @ '':'' @ value_text num v) fs) @ '']''"

definition schemaType :: "string \<Rightarrow> (string \<times> json) list \<Rightarrow> error + string" where
  "schemaType model raw =
     (case map_of raw ''type'' of
        None \<Rightarrow> Inr ''TYPE_UNSPECIFIED''
      | Some (JStr ts) \<Rightarrow>
          (case genaiType ts of
             None \<Rightarrow> Inl (google_badRequest model (''unsupported JSON schema type: '' @ ts))
           | Some gt \<Rightarrow> Inr gt)
      | Some tv \<Rightarrow> Inl (google_badRequest model
          (''unsupported JSON schema '' @ [CHR 0x27] @ ''type'' @ [CHR 0x27] @ '' form '' @ type_text tv @ '' (expected a string)'')))"

definition string_elements :: "json list \<Rightarrow> string list" where
  "string_elements js = List.map_filter (\<lambda>j. case j of JStr s \<Rightarrow> Some s | _ \<Rightarrow> None) js"

abbreviation fields_size :: "(string \<times> json) list \<Rightarrow> nat" where
  "fields_size \<equiv> size_list (size_prod (\<lambda>_. 0) size)"

definition member_size :: "json option \<Rightarrow> nat" where
  "member_size v = (case v of Some (JObj m) \<Rightarrow> Suc (fields_size m) | _ \<Rightarrow> 0)"

lemma member_size_less: "2 * member_size (map_of raw k) < Suc (2 * fields_size raw)"
  by (induction raw) (auto simp: member_size_def split: option.splits json.splits)

lemma member_size_object: "member_size (Some (JObj m)) = Suc (fields_size m)"
  by (simp add: member_size_def)

function (sequential) jsonSchemaToGenai :: "(string \<Rightarrow> string) \<Rightarrow> string \<Rightarrow> (string \<times> json) list \<Rightarrow> error + genai_schema"
  and properties_member :: "(string \<Rightarrow> string) \<Rightarrow> string \<Rightarrow> json option \<Rightarrow> error + (string \<times> genai_schema) list option"
  and schema_properties :: "(string \<Rightarrow> string) \<Rightarrow> string \<Rightarrow> (string \<times> json) list \<Rightarrow> error + (string \<times> genai_schema) list"
  and items_member :: "(string \<Rightarrow> string) \<Rightarrow> string \<Rightarrow> json option \<Rightarrow> error + genai_schema option" where
  "jsonSchemaToGenai num model raw =
     (case schemaType model raw of
        Inl err \<Rightarrow> Inl err
      | Inr gt \<Rightarrow>
          (case properties_member num model (map_of raw ''properties'') of
             Inl err \<Rightarrow> Inl err
           | Inr props \<Rightarrow>
               (case items_member num model (map_of raw ''items'') of
                  Inl err \<Rightarrow> Inl err
                | Inr items \<Rightarrow>
                    Inr (GenaiSchema (case map_of raw ''description'' of Some (JStr d) \<Rightarrow> d | _ \<Rightarrow> []) gt props items
                      (case map_of raw ''required'' of Some (JArr req) \<Rightarrow> string_elements req | _ \<Rightarrow> [])
                      (case map_of raw ''enum'' of Some (JArr en) \<Rightarrow> map (value_text num) en | _ \<Rightarrow> [])))))"
| "properties_member num model (Some (JObj props)) =
     (case schema_properties num model props of Inl err \<Rightarrow> Inl err | Inr ps \<Rightarrow> Inr (Some ps))"
| "properties_member num model _ = Inr None"
| "schema_properties num model [] = Inr []"
| "schema_properties num model ((name, JObj pm) # props) =
     (case jsonSchemaToGenai num model pm of
        Inl err \<Rightarrow> Inl err
      | Inr s \<Rightarrow> (case schema_properties num model props of Inl err \<Rightarrow> Inl err | Inr ps \<Rightarrow> Inr ((name, s) # ps)))"
| "schema_properties num model (_ # props) = schema_properties num model props"
| "items_member num model (Some (JObj items)) =
     (case jsonSchemaToGenai num model items of Inl err \<Rightarrow> Inl err | Inr s \<Rightarrow> Inr (Some s))"
| "items_member num model _ = Inr None"
  by pat_completeness auto

termination
  by (relation "measure (\<lambda>x. case x of
        Inl (Inl (num, model, raw)) \<Rightarrow> 2 * fields_size raw + 1
      | Inl (Inr (num, model, v)) \<Rightarrow> 2 * member_size v
      | Inr (Inl (num, model, props)) \<Rightarrow> 2 * fields_size props
      | Inr (Inr (num, model, v)) \<Rightarrow> 2 * member_size v)")
    (simp_all add: member_size_less member_size_object)

definition object_parameters :: genai_schema where
  "object_parameters = GenaiSchema [] ''OBJECT'' None None [] []"

definition google_tool_params :: "(string \<Rightarrow> string) \<Rightarrow> string \<Rightarrow> tool_definition \<Rightarrow> (error + genai_schema) option" where
  "google_tool_params num model t =
     (if td_InputSchema t = [] then Some (Inr object_parameters)
      else case (case unmarshal (td_InputSchema t) of None \<Rightarrow> None | Some j \<Rightarrow> to_map j) of
        None \<Rightarrow> Some (Inl (google_badRequest model (''tool '' @ td_Name t @ '': invalid input schema JSON: '' @ error_text json_error)))
      | Some None \<Rightarrow> None
      | Some (Some raw) \<Rightarrow>
          (if (case map_of raw ''type'' of Some (JStr tv) \<Rightarrow> tv \<noteq> ''object'' | _ \<Rightarrow> False)
           then Some (Inl (google_badRequest model (''tool '' @ td_Name t @ '': input schema type must be \"object\"'')))
           else Some (jsonSchemaToGenai num model (put ''type'' (JStr ''object'') raw))))"

fun google_tools :: "(string \<Rightarrow> string) \<Rightarrow> string \<Rightarrow> tool_definition list \<Rightarrow> (error + genai_declaration list) option" where
  "google_tools num model [] = Some (Inr [])"
| "google_tools num model (t # ts) =
     (case google_tool_params num model t of
        None \<Rightarrow> None
      | Some (Inl err) \<Rightarrow> Some (Inl err)
      | Some (Inr schema) \<Rightarrow>
          (case google_tools num model ts of
             None \<Rightarrow> None
           | Some (Inl err) \<Rightarrow> Some (Inl err)
           | Some (Inr decls) \<Rightarrow>
               Some (Inr (\<lparr>gd_Name = td_Name t, gd_Description = td_Description t, gd_Parameters = schema\<rparr> # decls))))"

definition google_buildTools :: "(string \<Rightarrow> string) \<Rightarrow> string \<Rightarrow> chat_request \<Rightarrow> (error + genai_declaration list) option" where
  "google_buildTools num model req = (if cr_Tools req = [] then Some (Inr []) else google_tools num model (cr_Tools req))"

definition toolConfig :: "string \<Rightarrow> chat_request \<Rightarrow> error + genai_tool_config option" where
  "toolConfig model req =
     (let tc = cr_ToolChoice req; mk = (\<lambda>mode names. Inr (Some \<lparr>gtc_Mode = mode, gtc_AllowedFunctionNames = names\<rparr>)) in
      if cr_Tools req = [] then
        (if RequiresTools tc
         then Inl (google_badRequest model (''tool choice '' @ tch_Type tc @ '' requires at least one tool''))
         else Inr None)
      else if tch_Type tc = ToolChoiceAuto then mk ''AUTO'' []
      else if tch_Type tc = ToolChoiceNone then mk ''NONE'' []
      else if tch_Type tc = ToolChoiceRequired then mk ''ANY'' []
      else if tch_Type tc = ToolChoiceTool then
        (if tch_Name tc = [] then Inl (google_badRequest model ''tool choice type \"tool\" requires a tool name'')
         else mk ''ANY'' [tch_Name tc])
      else Inr None)"

section \<open>Reasoning\<close>

definition thinking_level :: "string \<Rightarrow> string" where
  "thinking_level effort =
     (if effort = ReasoningEffortMinimal then ''MINIMAL'' else if effort = ReasoningEffortLow then ''LOW''
      else if effort = ReasoningEffortMedium then ''MEDIUM'' else if effort = ReasoningEffortHigh then ''HIGH'' else [])"

definition google_mapReasoning :: "reasoning_config option \<Rightarrow> genai_thinking_config option \<times> reasoning_config option" where
  "google_mapReasoning r =
     (case r of
        None \<Rightarrow> (None, None)
      | Some r \<Rightarrow>
          (let tc = \<lparr>gth_ThinkingLevel = thinking_level (rc_Effort r), gth_ThinkingBudget = None\<rparr>;
               applied = (if gth_ThinkingLevel tc \<noteq> [] then zero_reasoning_config\<lparr>rc_Effort := rc_Effort r\<rparr> else zero_reasoning_config);
               (tc, applied) =
                 (if rc_BudgetTokens r > 0
                  then (let b = min (rc_BudgetTokens r) MaxInt32 in
                        (tc\<lparr>gth_ThinkingBudget := Some b\<rparr>, applied\<lparr>rc_BudgetTokens := b\<rparr>))
                  else (tc, applied))
           in if applied = zero_reasoning_config then (None, None) else (Some tc, Some applied)))"

definition google_withoutOverridden :: "reasoning_config option \<Rightarrow> (string \<times> json) list option \<Rightarrow> reasoning_config option" where
  "google_withoutOverridden applied extra =
     (case (applied, extra) of
        (Some out, Some extra) \<Rightarrow>
          (let out = (if Overrides extra [''generationConfig'', ''thinkingConfig'', ''thinkingLevel''] then out\<lparr>rc_Effort := []\<rparr> else out);
               out = (if Overrides extra [''generationConfig'', ''thinkingConfig'', ''thinkingBudget''] then out\<lparr>rc_BudgetTokens := 0\<rparr> else out)
           in if out = zero_reasoning_config then None else Some out)
      | _ \<Rightarrow> applied)"

section \<open>Parameters and responses\<close>

definition google_toParams :: "(string \<Rightarrow> string) \<Rightarrow> string \<Rightarrow> chat_request \<Rightarrow> (error + genai_content list \<times> genai_config) option" where
  "google_toParams num model req =
     (case google_systemText model req of
        Inl err \<Rightarrow> Some (Inl err)
      | Inr sys \<Rightarrow>
          (case buildContents model req of
             Inl err \<Rightarrow> Some (Inl err)
           | Inr contents \<Rightarrow>
               (case google_buildTools num model req of
                  None \<Rightarrow> None
                | Some (Inl err) \<Rightarrow> Some (Inl err)
                | Some (Inr tools) \<Rightarrow>
                    (case toolConfig model req of
                       Inl err \<Rightarrow> Some (Inl err)
                     | Inr tcfg \<Rightarrow>
                         Some (Inr (contents, \<lparr>gcfg_SystemInstruction = (if sys \<noteq> [] then Some sys else None),
                           gcfg_Temperature = cr_Temperature req,
                           gcfg_MaxOutputTokens = (if cr_MaxTokens req > 0 then min (cr_MaxTokens req) MaxInt32 else 0),
                           gcfg_Tools = tools, gcfg_ToolConfig = tcfg,
                           gcfg_ThinkingConfig = fst (google_mapReasoning (cr_Reasoning req))\<rparr>))))))"

text \<open>The call of a part: without an id its name stands in.\<close>

definition google_call :: "genai_part \<Rightarrow> genai_function_call \<Rightarrow> tool_call" where
  "google_call p fc =
     \<lparr>tc_ID = (if fc_ID fc = [] then fc_Name fc else fc_ID fc), tc_Name = fc_Name fc,
      tc_Parameters = (case fc_Args fc of None \<Rightarrow> ''null'' | Some m \<Rightarrow> encode_json True (JObj m)),
      tc_ProviderSignature = gp_ThoughtSignature p\<rparr>"

fun genai_part_step :: "chat_response_state \<Rightarrow> genai_part option \<Rightarrow> chat_response_state" where
  "genai_part_step st None = st"
| "genai_part_step (parts, toolCalls, textMirror) (Some p) =
     (if gp_Thought p then (parts, toolCalls, textMirror)
      else case gp_FunctionCall p of
        Some fc \<Rightarrow>
          (let tc = google_call p fc in
           (parts @ [zero_part\<lparr>cp_Type := ContentToolCall, cp_ToolCall := Some tc\<rparr>], toolCalls @ [tc], textMirror))
      | None \<Rightarrow>
          (if gp_Text p \<noteq> []
           then (parts @ [zero_part\<lparr>cp_Type := ContentText, cp_Text := gp_Text p\<rparr>], toolCalls, textMirror @ gp_Text p)
           else (parts, toolCalls, textMirror)))"

definition google_usage :: "genai_response \<Rightarrow> usage" where
  "google_usage result =
     (case gr_UsageMetadata result of
        None \<Rightarrow> zero_usage
      | Some u \<Rightarrow>
          (let visible = gu_CandidatesTokenCount u; reasoning = gu_ThoughtsTokenCount u;
               input = gu_PromptTokenCount u;
               (cacheRead, _) = CacheSplit input (gu_CachedContentTokenCount u) 0
           in zero_usage\<lparr>u_InputTokens := input, u_OutputTokens := visible, u_ReasoningTokens := reasoning,
                u_BillableOutputTokens := go_add visible reasoning, u_TotalTokens := gu_TotalTokenCount u,
                u_CacheReadTokens := cacheRead\<rparr>))
     \<lparr>u_ProviderRequestID := gr_ResponseID result\<rparr>"

definition first_candidate :: "genai_response \<Rightarrow> genai_candidate option" where
  "first_candidate result = (case gr_Candidates result of [] \<Rightarrow> None | cand # _ \<Rightarrow> cand)"

definition google_toChatResponse :: "(genai_response \<Rightarrow> json) \<Rightarrow> genai_response \<Rightarrow> chat_response" where
  "google_toChatResponse raw result =
     (let stop = (case first_candidate result of None \<Rightarrow> [] | Some cand \<Rightarrow> gcd_FinishReason cand);
          (parts, toolCalls, textMirror) =
            (case first_candidate result of
               None \<Rightarrow> ([], [], [])
             | Some cand \<Rightarrow>
                 (case gcd_Content cand of None \<Rightarrow> ([], [], []) | Some ps \<Rightarrow> foldl genai_part_step ([], [], []) ps))
      in \<lparr>rsp_Message = \<lparr>m_Role = RoleAssistant, m_Content = parts\<rparr>, rsp_Text = textMirror, rsp_ToolCalls = toolCalls,
          rsp_StopReason = stop, rsp_Usage = google_usage result, rsp_AppliedReasoning = None, rsp_Raw = Some (raw result)\<rparr>)"

section \<open>The client\<close>

text \<open>The SDK's error type; it carries no headers.\<close>

record genai_error =
  ge_Code :: int
  ge_Status :: string
  ge_Message :: string
  ge_Error :: string

record genai_env =
  gv_sdk_error :: "error \<Rightarrow> genai_error option"
  gv_err_text :: "error \<Rightarrow> string"
  gv_http_date :: "string \<Rightarrow> int option"
  gv_now :: int

definition inputTokenCountText :: string where "inputTokenCountText = ''input token count''"
definition exceedsMaximumText :: string where "exceedsMaximumText = ''exceeds the maximum number of tokens allowed''"

definition google_isContextOverflow :: "genai_env \<Rightarrow> error \<Rightarrow> bool" where
  "google_isContextOverflow env e =
     (case gv_sdk_error env e of
        None \<Rightarrow> False
      | Some ae \<Rightarrow> ge_Status ae = ''INVALID_ARGUMENT'' \<and> contains (ge_Message ae) inputTokenCountText \<and>
          contains (ge_Message ae) exceedsMaximumText)"

definition google_classifyError :: "genai_env \<Rightarrow> string \<Rightarrow> error \<Rightarrow> error option" where
  "google_classifyError env model e =
     ClassifyOverflow (gv_err_text env) (gv_http_date env) (gv_now env) ProviderGoogle model (Some e)
       (\<lambda>e. case gv_sdk_error env e of None \<Rightarrow> None | Some ae \<Rightarrow> Some (ge_Code ae, None, ge_Error ae))
       (Some (google_isContextOverflow env))"

text \<open>\<open>gg_Generate\<close> is the SDK's call with the contents, the configuration and the members merged into the body.\<close>

record 'w google_client =
  gg_Generate :: "ctx \<Rightarrow> genai_content list \<times> genai_config \<Rightarrow> (string \<times> json) list option \<Rightarrow> 'w \<Rightarrow> (error + genai_response) \<times> 'w"
  gg_model :: string
  gg_errors :: genai_env
  gg_number_text :: "string \<Rightarrow> string"
  gg_raw :: "genai_response \<Rightarrow> json"

definition google_Model :: "'w google_client \<Rightarrow> model_ref" where
  "google_Model c = \<lparr>mr_Provider = ProviderGoogle, mr_Name = gg_model c\<rparr>"

definition google_respond :: "'w google_client \<Rightarrow> chat_request \<Rightarrow> (string \<times> json) list option \<Rightarrow> genai_response \<Rightarrow> chat_response" where
  "google_respond c req extra result =
     (google_toChatResponse (gg_raw c) result)
       \<lparr>rsp_AppliedReasoning := google_withoutOverridden (snd (google_mapReasoning (cr_Reasoning req))) extra\<rparr>"

definition google_Complete :: "'w google_client \<Rightarrow> ctx \<Rightarrow> chat_request \<Rightarrow> 'w \<Rightarrow> ((chat_response \<times> error option) \<times> 'w) option" where
  "google_Complete c ctx req w =
     (case For req ProviderGoogle of
        Inl err \<Rightarrow> Some ((zero_response, Some (google_badRequest (gg_model c) (error_text err))), w)
      | Inr extra \<Rightarrow>
          (case google_toParams (gg_number_text c) (gg_model c) req of
             None \<Rightarrow> None
           | Some (Inl err) \<Rightarrow> Some ((zero_response, Some err), w)
           | Some (Inr params) \<Rightarrow>
               (case gg_Generate c ctx params extra w of
                  (Inl err, w') \<Rightarrow> Some ((zero_response, google_classifyError (gg_errors c) (gg_model c) err), w')
                | (Inr result, w') \<Rightarrow> Some ((google_respond c req extra result, None), w'))))"

end
