(* ===== verification/GoogleProps.thy ===== *)
theory GoogleProps
  imports Google
begin

text \<open>
  What the Google conversion guarantees: one content per message, every function response under the name of the
  last call with its id, the round trip of an assistant turn with the thought signatures of its calls, and the adapter interface. Three inputs the code does not handle are
  theorems of their own: a \<open>null\<close> schema, a reused id, and parallel calls of one function without ids.
\<close>

declare jsonSchemaToGenai.simps [simp del]

section \<open>Contents\<close>

lemma google_parts_Inr:
  "google_parts model names ps parts = Inr parts' \<longleftrightarrow>
     (\<exists>new. parts' = parts @ new \<and> list_all2 (\<lambda>p g. google_part model names p = Inr g) ps new)"
proof (induction ps arbitrary: parts)
  case (Cons p ps)
  show ?case
  proof (cases "google_part model names p")
    case (Inr g)
    with Cons [of "parts @ [g]"] show ?thesis by (auto simp: list_all2_Cons1)
  qed (auto simp: list_all2_Cons1)
qed auto

text \<open>The content of a message with at least one part.\<close>

definition google_content :: "string \<Rightarrow> (string \<rightharpoonup> string) \<Rightarrow> message \<Rightarrow> genai_content \<Rightarrow> bool" where
  "google_content model names m c \<longleftrightarrow> google_roleFor (m_Role m) = Some (gc_Role c) \<and>
     list_all2 (\<lambda>p g. google_part model names p = Inr g) (m_Content m) (gc_Parts c)"

lemma google_content_parts:
  "google_content model names m c \<longleftrightarrow>
     google_roleFor (m_Role m) = Some (gc_Role c) \<and> google_parts model names (m_Content m) [] = Inr (gc_Parts c)"
  by (simp add: google_content_def google_parts_Inr)

lemma google_messages_full:
  assumes "list_all2 (google_content model names) ms new" and "\<forall>m \<in> set ms. m_Content m \<noteq> []"
  shows "google_messages model names ms contents = Inr (contents @ new)"
  using assms
proof (induction ms new arbitrary: contents rule: list_all2_induct)
  case (Cons m ms c new)
  from Cons.hyps(1) Cons.prems have "gc_Parts c \<noteq> []" by (auto simp: google_content_def)
  with Cons show ?case by (simp add: google_content_parts)
qed simp

lemma google_messages_append:
  "google_messages model names (ms @ ms') contents =
     (case google_messages model names ms contents of Inl err \<Rightarrow> Inl err | Inr contents \<Rightarrow> google_messages model names ms' contents)"
  by (induction ms arbitrary: contents) (auto split: option.split sum.split)

section \<open>Names\<close>

abbreviation named_calls :: "content_part list \<Rightarrow> (string \<times> string) list" where
  "named_calls ps \<equiv> map (\<lambda>tc. (tc_ID tc, tc_Name tc)) (filter (\<lambda>tc. tc_ID tc \<noteq> []) (tool_calls ps))"

lemma add_rev: "names ++ map_of (rev (xs @ ys)) = (names ++ map_of (rev xs)) ++ map_of (rev ys)"
  by (simp add: fun_eq_iff map_add_def split: option.split)

lemma note_calls: "foldl note_call names ps = names ++ map_of (rev (named_calls ps))"
proof (induction ps arbitrary: names)
  case (Cons p ps)
  have "note_call names p = names ++ map_of (rev (named_calls [p]))"
    by (simp add: note_call_def List.map_filter_simps split: option.split)
  moreover have "named_calls (p # ps) = named_calls [p] @ named_calls ps" by (simp add: List.map_filter_simps split: option.split)
  ultimately show ?case using Cons [of "note_call names p"] by (simp only: foldl_Cons add_rev)
qed (simp add: List.map_filter_simps)

lemma toolCallNames_eq: "toolCallNames ms = map_of (rev (concat (map (\<lambda>m. named_calls (m_Content m)) ms)))"
proof -
  have "foldl (\<lambda>names m. foldl note_call names (m_Content m)) names ms =
      names ++ map_of (rev (concat (map (\<lambda>m. named_calls (m_Content m)) ms)))" for names
  proof (induction ms arbitrary: names)
    case (Cons m ms)
    then show ?case by (simp only: foldl_Cons list.map concat.simps add_rev note_calls)
  qed simp
  then show ?thesis by (simp add: toolCallNames_def)
qed

lemma tool_calls_ids:
  assumes "user_ok m \<or> assistant_ok m \<or> tool_ok m"
  shows "map tc_ID (tool_calls (m_Content m)) = call_ids m" and "\<forall>tc \<in> set (tool_calls (m_Content m)). tc_ID tc \<noteq> []"
proof -
  have "\<forall>p \<in> set (m_Content m). cp_Type p = ContentToolCall \<longrightarrow> call_part_ok p"
    using assms by (auto simp: user_ok_def assistant_ok_def tool_ok_def result_part_ok_def)
  then have "map tc_ID (tool_calls ps) = map (\<lambda>p. tc_ID (the (cp_ToolCall p))) (filter (\<lambda>p. cp_Type p = ContentToolCall) ps) \<and>
      (\<forall>tc \<in> set (tool_calls ps). tc_ID tc \<noteq> [])" if "set ps \<subseteq> set (m_Content m)" for ps
    using that by (induction ps) (auto simp: List.map_filter_simps call_part_ok_def split: option.splits)
  from this [of "m_Content m"]
  show "map tc_ID (tool_calls (m_Content m)) = call_ids m" "\<forall>tc \<in> set (tool_calls (m_Content m)). tc_ID tc \<noteq> []"
    by (simp_all add: call_ids_def)
qed

lemma result_answers:
  "wf_transcript ms \<Longrightarrow> m \<in> set ms \<Longrightarrow> tool_ok m \<Longrightarrow> i \<in> set (result_ids m) \<Longrightarrow> \<exists>a \<in> set ms. i \<in> set (call_ids a)"
proof (induction rule: wf_transcript.induct)
  case (wf_user ms u)
  then show ?case by (auto simp: user_ok_def tool_ok_def)
next
  case (wf_turn ms a tools)
  have "m \<noteq> a" using wf_turn.hyps(2) wf_turn.prems(2) by (auto simp: assistant_ok_def tool_ok_def)
  then consider "m \<in> set ms" | "m \<in> set tools" using wf_turn.prems(1) by auto
  then show ?case
  proof cases
    case 2
    with wf_turn.prems(3) have "i \<in> set (call_ids a)" unfolding wf_turn.hyps(5) [symmetric] by auto
    then show ?thesis by auto
  qed (use wf_turn in auto)
qed simp

text \<open>The last call of a conversation with an id.\<close>

definition conversation_calls :: "message list \<Rightarrow> tool_call list" where
  "conversation_calls ms = concat (map (\<lambda>m. tool_calls (m_Content m)) ms)"

definition last_call :: "string \<Rightarrow> tool_call list \<Rightarrow> tool_call \<Rightarrow> bool" where
  "last_call i calls tc \<longleftrightarrow> tc_ID tc = i \<and> (\<exists>earlier later. calls = earlier @ tc # later \<and> (\<forall>t \<in> set later. tc_ID t \<noteq> i))"

lemma last_call_exists:
  assumes "i \<in> tc_ID ` set calls" and "i \<noteq> []"
  shows "\<exists>tc. last_call i calls tc \<and> map_of (rev (map (\<lambda>tc. (tc_ID tc, tc_Name tc)) (filter (\<lambda>tc. tc_ID tc \<noteq> []) calls))) i = Some (tc_Name tc)"
  using assms(1)
proof (induction calls rule: rev_induct)
  case (snoc t calls)
  show ?case
  proof (cases "tc_ID t = i")
    case True
    then have "last_call i (calls @ [t]) t" unfolding last_call_def by (intro conjI exI [of _ calls] exI [of _ "[]"]) simp_all
    with True assms(2) show ?thesis by (intro exI [of _ t]) simp
  next
    case False
    with snoc obtain tc where tc: "last_call i calls tc"
      "map_of (rev (map (\<lambda>tc. (tc_ID tc, tc_Name tc)) (filter (\<lambda>tc. tc_ID tc \<noteq> []) calls))) i = Some (tc_Name tc)" by auto
    from tc(1) obtain earlier later where "tc_ID tc = i" "calls = earlier @ tc # later" "\<forall>t \<in> set later. tc_ID t \<noteq> i"
      by (auto simp: last_call_def)
    with False have "last_call i (calls @ [t]) tc"
      unfolding last_call_def by (intro conjI exI [of _ earlier] exI [of _ "later @ [t]"]) auto
    with tc(2) False show ?thesis by (intro exI [of _ tc]) auto
  qed
qed simp

lemma toolCallNames_calls: "toolCallNames ms =
    map_of (rev (map (\<lambda>tc. (tc_ID tc, tc_Name tc)) (filter (\<lambda>tc. tc_ID tc \<noteq> []) (conversation_calls ms))))"
  unfolding toolCallNames_eq conversation_calls_def filter_concat map_concat map_map by (simp add: comp_def)

lemma named_call:
  assumes "\<forall>m \<in> set ms. user_ok m \<or> assistant_ok m \<or> tool_ok m" and "m \<in> set ms" and "i \<in> set (call_ids m)"
  shows "\<exists>tc. last_call i (conversation_calls ms) tc \<and> toolCallNames ms i = Some (tc_Name tc)"
proof -
  have "i \<in> tc_ID ` set (tool_calls (m_Content m))" "i \<noteq> []"
  proof -
    have ids: "set (map tc_ID (tool_calls (m_Content m))) = set (call_ids m)" "\<forall>tc \<in> set (tool_calls (m_Content m)). tc_ID tc \<noteq> []"
      using tool_calls_ids [of m] assms(1,2) by simp_all
    from ids(1) assms(3) show "i \<in> tc_ID ` set (tool_calls (m_Content m))" by simp
    then show "i \<noteq> []" using ids(2) by auto
  qed
  then show ?thesis
    using last_call_exists [of i "conversation_calls ms"] assms(2) by (auto simp: toolCallNames_calls conversation_calls_def)
qed

section \<open>Validated requests\<close>

text \<open>The parameters of every call are a JSON object or \<open>null\<close>.\<close>

definition params_ok :: "message \<Rightarrow> bool" where
  "params_ok m \<longleftrightarrow> (\<forall>tc \<in> set (tool_calls (m_Content m)). \<exists>args. rawToMap (tc_Parameters tc) = Inr args)"

text \<open>What is sent for a part: a result goes out under the name of the last call of the conversation with its id.\<close>

definition part_sent :: "message list \<Rightarrow> content_part \<Rightarrow> genai_part \<Rightarrow> bool" where
  "part_sent ms p g \<longleftrightarrow>
     (cp_Type p = ContentText \<longrightarrow> g = zero_genai_part\<lparr>gp_Text := cp_Text p\<rparr>) \<and>
     (cp_Type p = ContentToolCall \<longrightarrow> (\<exists>tc args. cp_ToolCall p = Some tc \<and> rawToMap (tc_Parameters tc) = Inr args \<and>
        g = zero_genai_part\<lparr>gp_FunctionCall := Some \<lparr>fc_ID = tc_ID tc, fc_Name = tc_Name tc, fc_Args = args\<rparr>,
              gp_ThoughtSignature := tc_ProviderSignature tc\<rparr>)) \<and>
     (cp_Type p = ContentToolResult \<longrightarrow> (\<exists>tr tc. cp_ToolResult p = Some tr \<and>
        last_call (tr_ToolCallID tr) (conversation_calls ms) tc \<and>
        g = zero_genai_part\<lparr>gp_FunctionResponse := Some \<lparr>fr_Name = tc_Name tc,
              fr_Response = [(''content'', JStr (tr_Content tr)), (''is_error'', JBool (tr_IsError tr))]\<rparr>\<rparr>))"

lemma google_part_sent:
  assumes roles: "\<forall>m \<in> set ms. user_ok m \<or> assistant_ok m \<or> tool_ok m" and wf: "wf_transcript ms"
    and m: "m \<in> set ms" and p: "p \<in> set (m_Content m)"
    and ok: "texts_ok m" "params_ok m" "no_reasoning m"
  shows "\<exists>g. google_part model (toolCallNames ms) p = Inr g \<and> part_sent ms p g"
proof -
  have kind: "cp_Type p = ContentText \<and> cp_Text p \<noteq> [] \<or> cp_Type p = ContentToolCall \<and> call_part_ok p \<or>
      cp_Type p = ContentToolResult \<and> result_part_ok p \<and> tool_ok m"
    using bspec [OF roles m] p ok by (auto simp: user_ok_def assistant_ok_def tool_ok_def texts_ok_def no_reasoning_def result_part_ok_def)
  then consider (t) "cp_Type p = ContentText" "cp_Text p \<noteq> []"
    | (c) tc where "cp_Type p = ContentToolCall" "cp_ToolCall p = Some tc"
    | (r) tr where "cp_Type p = ContentToolResult" "cp_ToolResult p = Some tr" "tool_ok m"
    by (auto simp: call_part_ok_def result_part_ok_def)
  then show ?thesis
  proof cases
    case t
    then show ?thesis by (simp add: google_part_def part_sent_def)
  next
    case c
    then have "tc \<in> set (tool_calls (m_Content m))" using p by (auto simp: List.map_filter_def image_iff intro!: bexI [of _ p])
    with ok(2) obtain args where "rawToMap (tc_Parameters tc) = Inr args" by (auto simp: params_ok_def)
    with c show ?thesis by (simp add: google_part_def part_sent_def)
  next
    case r
    then have "tr_ToolCallID tr \<in> set (result_ids m)" using p by (auto simp: result_ids_def image_iff intro!: bexI [of _ p])
    with result_answers [OF wf m r(3)] obtain a where a: "a \<in> set ms" "tr_ToolCallID tr \<in> set (call_ids a)" by blast
    from named_call [OF roles a] obtain tc where
      "last_call (tr_ToolCallID tr) (conversation_calls ms) tc" "toolCallNames ms (tr_ToolCallID tr) = Some (tc_Name tc)" by blast
    with r show ?thesis by (auto simp: google_part_def part_sent_def)
  qed
qed

lemma list_all2_choice: "\<forall>x \<in> set xs. \<exists>y. P x y \<Longrightarrow> \<exists>ys. list_all2 P xs ys"
  by (induction xs) (auto simp: list_all2_Cons1)

lemma tool_calls_strip [simp]: "tool_calls (filter (\<lambda>p. \<not> rejected keep p) ps) = tool_calls ps"
  by (induction ps) (auto simp: List.map_filter_simps rejected_def split: option.split)

lemma strip_plain:
  assumes "foreign_reasoning provider m"
  shows "m_Content (strip (\<lambda>r. case r of None \<Rightarrow> False | Some r \<Rightarrow> rs_Provider r = provider) m) = plain_parts m"
  unfolding strip_sel plain_parts_def using assms
  by (intro filter_cong) (auto simp: foreign_reasoning_def rejected_def split: option.splits)

lemma google_messages_named:
  assumes wf: "wf_transcript ms"
    and send: "\<forall>m \<in> set ms. (user_ok m \<or> assistant_ok m \<or> tool_ok m) \<and> texts_ok m \<and> no_reasoning m \<and> params_ok m"
  shows "\<exists>contents. google_messages model (toolCallNames ms) ms [] = Inr contents \<and>
    list_all2 (\<lambda>m c. google_roleFor (m_Role m) = Some (gc_Role c) \<and> list_all2 (part_sent ms) (m_Content m) (gc_Parts c)) ms contents"
proof -
  define sent where "sent = (\<lambda>m c. google_content model (toolCallNames ms) m c \<and>
    google_roleFor (m_Role m) = Some (gc_Role c) \<and> list_all2 (part_sent ms) (m_Content m) (gc_Parts c))"
  have "\<exists>c. sent m c" if m: "m \<in> set ms" for m
  proof -
    have "\<forall>p \<in> set (m_Content m). \<exists>g. google_part model (toolCallNames ms) p = Inr g \<and> part_sent ms p g"
      using google_part_sent [OF _ wf m] send m by auto
    from list_all2_choice [OF this] obtain gs where
      gs: "list_all2 (\<lambda>p g. google_part model (toolCallNames ms) p = Inr g \<and> part_sent ms p g) (m_Content m) gs" ..
    obtain role where "google_roleFor (m_Role m) = Some role"
      using send m by (auto simp: google_roleFor_def user_ok_def assistant_ok_def tool_ok_def)
    with gs have "sent m \<lparr>gc_Role = role, gc_Parts = gs\<rparr>"
      by (auto simp: sent_def google_content_def elim!: list_all2_mono)
    then show ?thesis by blast
  qed
  then obtain contents where contents: "list_all2 sent ms contents" using list_all2_choice [of ms sent] by blast
  then have "list_all2 (google_content model (toolCallNames ms)) ms contents" by (rule list_all2_mono) (simp add: sent_def)
  moreover have "\<forall>m \<in> set ms. m_Content m \<noteq> []"
    using send by (auto simp: user_ok_def assistant_ok_def tool_ok_def hasNonReasoning_iff)
  ultimately have "google_messages model (toolCallNames ms) ms [] = Inr contents" using google_messages_full by fastforce
  moreover have "list_all2 (\<lambda>m c. google_roleFor (m_Role m) = Some (gc_Role c) \<and> list_all2 (part_sent ms) (m_Content m) (gc_Parts c)) ms contents"
    using contents by (rule list_all2_mono) (simp add: sent_def)
  ultimately show ?thesis by blast
qed

text \<open>The call a result of a turn answers is the last one with its id, unless a later turn uses the id again.\<close>

lemma last_call_unique:
  "last_call i calls tc \<Longrightarrow> distinct (map tc_ID calls) \<Longrightarrow> t \<in> set calls \<Longrightarrow> tc_ID t = i \<Longrightarrow> t = tc"
  unfolding distinct_map last_call_def by (auto dest: inj_onD)

text \<open>
  C17: a validated request whose texts are not empty, whose call parameters are JSON objects and which has no reasoning of
  Google's own converts to one content per message, in order, with one part per text, call and result; calls
  keep their thought signature, and each result goes out under the name of the last call of the request with its id. So when no
  two calls of the request share an id, that is the name of the call it answers; otherwise the name can be a later call's.
\<close>

theorem google_results_named:
  assumes "validateChatRequest req = None"
    and "\<forall>m \<in> set (cr_Messages req). texts_ok m \<and> params_ok m \<and> foreign_reasoning ProviderGoogle m"
  shows "\<exists>contents. buildContents model req = Inr contents \<and>
    list_all2 (\<lambda>m c. google_roleFor (m_Role m) = Some (gc_Role c) \<and> list_all2 (part_sent (cr_Messages req)) (plain_parts m) (gc_Parts c))
      (cr_Messages req) contents \<and>
    (distinct (map tc_ID (conversation_calls (cr_Messages req))) \<longrightarrow>
      (\<forall>i tc t. last_call i (conversation_calls (cr_Messages req)) tc \<and> t \<in> set (conversation_calls (cr_Messages req)) \<and> tc_ID t = i \<longrightarrow> t = tc))"
proof -
  let ?ms = "cr_Messages req"
  define rs where "rs = ReasoningFrom ProviderGoogle ?ms"
  have "ValidateMessages ?ms = None" using assms(1) by (simp add: validateChatRequest_def split: option.splits)
  then have wf: "wf_transcript ?ms" "?ms \<noteq> []" by (simp_all add: ValidateMessages_None_iff)
  have wfr: "wf_transcript rs" unfolding rs_def ReasoningFrom_eq by (rule wf_strip) fact
  have "\<forall>m \<in> set rs. (user_ok m \<or> assistant_ok m \<or> tool_ok m) \<and> texts_ok m \<and> no_reasoning m"
    unfolding rs_def by (rule strip_sendable [OF wf(1)]) (use assms(2) in blast)
  moreover have "\<forall>m \<in> set rs. params_ok m" using assms(2) by (auto simp: rs_def ReasoningFrom_eq params_ok_def)
  moreover have same: "part_sent rs = part_sent ?ms"
    by (simp add: fun_eq_iff part_sent_def conversation_calls_def rs_def ReasoningFrom_eq comp_def)
  ultimately obtain contents where conv: "google_messages model (toolCallNames rs) rs [] = Inr contents"
    and parts: "list_all2 (\<lambda>m c. google_roleFor (m_Role m) = Some (gc_Role c) \<and> list_all2 (part_sent ?ms) (m_Content m) (gc_Parts c)) rs contents"
    using google_messages_named [OF wfr, of model] by auto
  have "contents \<noteq> []" using parts wf(2) by (auto simp: rs_def ReasoningFrom_eq)
  with conv have "buildContents model req = Inr contents" by (simp add: buildContents_def rs_def)
  moreover have "list_all2 (\<lambda>m c. google_roleFor (m_Role m) = Some (gc_Role c) \<and> list_all2 (part_sent ?ms) (plain_parts m) (gc_Parts c))
      ?ms contents"
    using parts assms(2) strip_plain by (auto simp: rs_def ReasoningFrom_eq list_all2_map1 list_all2_conv_all_nth simp del: strip_sel(2))
  ultimately show ?thesis using last_call_unique by blast
qed

section \<open>Turns come back as they were sent\<close>

text \<open>What a response's part becomes when its turn is sent back: a call without an id gets its name as id.\<close>

definition part_back :: "genai_part option \<Rightarrow> genai_part option" where
  "part_back p =
     (case p of
        None \<Rightarrow> None
      | Some p \<Rightarrow>
          (if gp_Thought p then None
           else case gp_FunctionCall p of
             Some fc \<Rightarrow> Some (zero_genai_part\<lparr>gp_FunctionCall := Some (fc\<lparr>fc_ID := if fc_ID fc = [] then fc_Name fc else fc_ID fc\<rparr>),
               gp_ThoughtSignature := gp_ThoughtSignature p\<rparr>)
           | None \<Rightarrow> (if gp_Text p = [] then None else Some (zero_genai_part\<lparr>gp_Text := gp_Text p\<rparr>))))"

definition args_ok :: "genai_part option \<Rightarrow> bool" where
  "args_ok p \<longleftrightarrow> (\<forall>g fc m. p = Some g \<longrightarrow> gp_FunctionCall g = Some fc \<longrightarrow> fc_Args fc = Some m \<longrightarrow> json_map m)"

lemma rawToMap_args:
  assumes "json_map m"
  shows "rawToMap (encode_json True (JObj m)) = Inr (Some m)"
proof -
  from assms have "unmarshal (encode_json True (JObj m)) = Some (clean (JObj m))" by (intro unmarshal_encode) (simp add: json_map_def)
  moreover from assms have "clean (JObj m) = JObj m" by (intro clean_utf8) (simp add: json_map_def)
  moreover have "encode_json True (JObj m) \<noteq> []" by simp
  ultimately show ?thesis using decode_json_map(2) [OF assms] by (simp add: rawToMap_def)
qed

lemma rawToMap_null: "rawToMap ''null'' = Inr None"
  by (simp add: rawToMap_def unmarshal_null to_map_nil)

lemma genai_step:
  assumes "args_ok p" and "genai_part_step (parts, calls, tx) p = st"
  shows "\<exists>ps calls' tx'. st = (parts @ ps, calls', tx') \<and>
    (\<forall>q \<in> set ps. cp_Type q \<noteq> ContentReasoning) \<and> calls' = calls @ tool_calls ps \<and>
    list_all2 (\<lambda>q g. google_part model names q = Inr g) ps (case part_back p of None \<Rightarrow> [] | Some g \<Rightarrow> [g])"
proof (cases p)
  case (Some g)
  show ?thesis
  proof (cases "gp_Thought g")
    case False
    show ?thesis
    proof (cases "gp_FunctionCall g")
      case None
      then show ?thesis using assms Some False
        by (auto simp: part_back_def google_part_def zero_part_def List.map_filter_simps)
    next
      case fc: (Some fc)
      then have "rawToMap (tc_Parameters (google_call g fc)) = Inr (fc_Args fc)"
        using assms(1) Some
        by (cases "fc_Args fc") (simp_all add: google_call_def args_ok_def rawToMap_args rawToMap_null del: encode_json.simps)
      then show ?thesis using assms Some False fc
        by (auto simp: part_back_def google_part_def zero_part_def List.map_filter_simps Let_def google_call_def)
    qed
  qed (use assms Some in \<open>auto simp: part_back_def List.map_filter_simps\<close>)
qed (use assms in \<open>auto simp: part_back_def List.map_filter_simps\<close>)

lemma genai_fold:
  assumes "\<forall>p \<in> set ps. args_ok p"
  shows "\<exists>qs tx'. foldl genai_part_step (parts, calls, tx) ps = (parts @ qs, calls @ tool_calls qs, tx') \<and>
    (\<forall>q \<in> set qs. cp_Type q \<noteq> ContentReasoning) \<and>
    list_all2 (\<lambda>q g. google_part model names q = Inr g) qs (List.map_filter part_back ps)"
  using assms
proof (induction ps arbitrary: parts calls tx)
  case (Cons p ps)
  from genai_step [of p parts calls tx, OF _ refl, of model names] Cons.prems obtain qs1 tx1 where
    one: "genai_part_step (parts, calls, tx) p = (parts @ qs1, calls @ tool_calls qs1, tx1)" "\<forall>q \<in> set qs1. cp_Type q \<noteq> ContentReasoning"
      "list_all2 (\<lambda>q g. google_part model names q = Inr g) qs1 (case part_back p of None \<Rightarrow> [] | Some g \<Rightarrow> [g])" by auto
  from Cons.IH [of "parts @ qs1" "calls @ tool_calls qs1" tx1] Cons.prems obtain qs tx' where
    "foldl genai_part_step (parts @ qs1, calls @ tool_calls qs1, tx1) ps =
      ((parts @ qs1) @ qs, (calls @ tool_calls qs1) @ tool_calls qs, tx')"
    "\<forall>q \<in> set qs. cp_Type q \<noteq> ContentReasoning"
    "list_all2 (\<lambda>q g. google_part model names q = Inr g) qs (List.map_filter part_back ps)" by auto
  with one list_all2_appendI [OF one(3) this(3)] show ?case
    by (intro exI [of _ "qs1 @ qs"] exI [of _ tx']) (auto simp: List.map_filter_simps split: option.splits)
qed (simp add: List.map_filter_simps)

text \<open>The parts of the answer.\<close>

definition answer_parts :: "genai_response \<Rightarrow> genai_part option list" where
  "answer_parts result =
     (case first_candidate result of None \<Rightarrow> [] | Some cand \<Rightarrow> (case gcd_Content cand of None \<Rightarrow> [] | Some ps \<Rightarrow> ps))"

lemma google_response_parts:
  "google_toChatResponse raw result =
     (let (parts, toolCalls, textMirror) = foldl genai_part_step ([], [], []) (answer_parts result) in
      \<lparr>rsp_Message = \<lparr>m_Role = RoleAssistant, m_Content = parts\<rparr>, rsp_Text = textMirror, rsp_ToolCalls = toolCalls,
       rsp_StopReason = (case first_candidate result of None \<Rightarrow> [] | Some cand \<Rightarrow> gcd_FinishReason cand),
       rsp_Usage = google_usage result, rsp_AppliedReasoning = None, rsp_Raw = Some (raw result)\<rparr>)"
  by (auto simp: google_toChatResponse_def answer_parts_def Let_def split: option.split)

text \<open>No earlier result has the id of a call of the answer, unless under the called function's name.\<close>

definition ids_settled :: "message list \<Rightarrow> tool_call list \<Rightarrow> bool" where
  "ids_settled ms calls \<longleftrightarrow> (\<forall>m \<in> set ms. \<forall>p \<in> set (m_Content m). \<forall>tr. cp_ToolResult p = Some tr \<longrightarrow>
     (\<forall>tc \<in> set calls. tc_ID tc = tr_ToolCallID tr \<longrightarrow>
        (case toolCallNames ms (tc_ID tc) of None \<Rightarrow> tc_ID tc = tc_Name tc | Some n \<Rightarrow> n = tc_Name tc)))"

lemma google_part_names:
  assumes "\<And>tr. cp_ToolResult p = Some tr \<Longrightarrow> (case names (tr_ToolCallID tr) of None \<Rightarrow> tr_ToolCallID tr | Some n \<Rightarrow> n) =
      (case names' (tr_ToolCallID tr) of None \<Rightarrow> tr_ToolCallID tr | Some n \<Rightarrow> n)"
  shows "google_part model names p = google_part model names' p"
  using assms by (auto simp: google_part_def Let_def split: option.splits)

lemma google_parts_names:
  "(\<And>p. p \<in> set ps \<Longrightarrow> google_part model names p = google_part model names' p) \<Longrightarrow>
     google_parts model names ps parts = google_parts model names' ps parts"
  by (induction ps arbitrary: parts) (auto split: sum.split)

lemma google_messages_names:
  "(\<And>m p. m \<in> set ms \<Longrightarrow> p \<in> set (m_Content m) \<Longrightarrow> google_part model names p = google_part model names' p) \<Longrightarrow>
     google_messages model names ms contents = google_messages model names' ms contents"
proof (induction ms arbitrary: contents)
  case (Cons m ms)
  have "google_parts model names (m_Content m) [] = google_parts model names' (m_Content m) []"
    by (rule google_parts_names) (use Cons.prems [of m] in simp)
  with Cons show ?case by (auto split: option.split sum.split)
qed simp

lemma settled_names:
  assumes "ids_settled ms calls" and "m \<in> set ms" and "p \<in> set (m_Content m)" and "tool_calls qs = calls"
  shows "google_part model (toolCallNames (ms @ [\<lparr>m_Role = RoleAssistant, m_Content = qs\<rparr>])) p = google_part model (toolCallNames ms) p"
proof (rule google_part_names)
  fix tr assume tr: "cp_ToolResult p = Some tr"
  let ?id = "tr_ToolCallID tr" and ?new = "map_of (rev (named_calls qs))"
  have names: "toolCallNames (ms @ [\<lparr>m_Role = RoleAssistant, m_Content = qs\<rparr>]) = toolCallNames ms ++ ?new"
    by (simp add: toolCallNames_eq)
  show "(case toolCallNames (ms @ [\<lparr>m_Role = RoleAssistant, m_Content = qs\<rparr>]) ?id of None \<Rightarrow> ?id | Some n \<Rightarrow> n) =
      (case toolCallNames ms ?id of None \<Rightarrow> ?id | Some n \<Rightarrow> n)"
  proof (cases "?new ?id")
    case None
    then show ?thesis by (simp add: names map_add_def)
  next
    case (Some n)
    then have "(?id, n) \<in> set (named_calls qs)" by (auto dest: map_of_SomeD)
    then obtain tc where "tc \<in> set calls" "tc_ID tc = ?id" "tc_Name tc = n" using assms(4) by auto
    moreover from this assms(1-3) tr have
      "case toolCallNames ms (tc_ID tc) of None \<Rightarrow> tc_ID tc = tc_Name tc | Some n \<Rightarrow> n = tc_Name tc"
      unfolding ids_settled_def by blast
    ultimately show ?thesis using Some by (auto simp: names map_add_def split: option.splits)
  qed
qed

text \<open>The parts that come back unchanged: a call with an id (or without any name either), and a text without a signature.\<close>

definition kept_part :: "genai_part \<Rightarrow> bool" where
  "kept_part g \<longleftrightarrow>
     (\<exists>fc. g = zero_genai_part\<lparr>gp_FunctionCall := Some fc, gp_ThoughtSignature := gp_ThoughtSignature g\<rparr> \<and> (fc_ID fc = [] \<longrightarrow> fc_Name fc = [])) \<or>
     (g = zero_genai_part\<lparr>gp_Text := gp_Text g\<rparr> \<and> gp_Text g \<noteq> [])"

lemma part_back_same: "part_back (Some g) = Some g \<longleftrightarrow> kept_part g"
proof (cases "gp_FunctionCall g")
  case None
  then show ?thesis by (cases g) (auto simp: part_back_def kept_part_def zero_genai_part_def)
next
  case (Some fc)
  then show ?thesis by (cases g; cases fc) (auto simp: part_back_def kept_part_def zero_genai_part_def)
qed

text \<open>
  C18: how an assistant turn goes back to Gemini. When no earlier result has the id of one of its calls under another name, and
  the arguments are JSON, then after a response is appended to the transcript the contents are the earlier ones followed by the response's
  function calls and texts in order. A call comes back with its name, arguments and thought signature, and with its name as id when it has
  no id. A text comes back as the text alone: a thought signature on a text part is lost. Thoughts, empty texts and other parts are left out.
  So the parts that come back unchanged are exactly the calls with an id and the texts without a signature.
\<close>

theorem google_turn_round_trip:
  assumes "buildContents model (req\<lparr>cr_Messages := ms\<rparr>) = Inr contents" and "\<forall>p \<in> set (answer_parts result). args_ok p"
    and "ids_settled (ReasoningFrom ProviderGoogle ms) (rsp_ToolCalls (google_toChatResponse raw result))"
  shows "buildContents model (req\<lparr>cr_Messages := ms @ [rsp_Message (google_toChatResponse raw result)]\<rparr>) =
    Inr (contents @ (let parts = List.map_filter part_back (answer_parts result) in
                     if parts = [] then [] else [\<lparr>gc_Role = ''model'', gc_Parts = parts\<rparr>])) \<and>
    (\<forall>g. part_back (Some g) = Some g \<longleftrightarrow> kept_part g)"
proof -
  let ?rs = "ReasoningFrom ProviderGoogle ms"
  from genai_fold [OF assms(2), of "[]" "[]" "[]"] obtain qs tx where
    resp: "foldl genai_part_step ([], [], []) (answer_parts result) = (qs, tool_calls qs, tx)" and
    plain: "\<forall>q \<in> set qs. cp_Type q \<noteq> ContentReasoning" by fastforce
  let ?m = "\<lparr>m_Role = RoleAssistant, m_Content = qs\<rparr>"
  let ?names = "toolCallNames (?rs @ [?m])"
  have parts: "list_all2 (\<lambda>q g. google_part model ?names q = Inr g) qs (List.map_filter part_back (answer_parts result))"
    using genai_fold [OF assms(2), of "[]" "[]" "[]" model ?names] resp by auto
  have m: "rsp_Message (google_toChatResponse raw result) = ?m" "rsp_ToolCalls (google_toChatResponse raw result) = tool_calls qs"
    by (simp_all add: google_response_parts resp)
  have "strip keep ?m = ?m" for keep using plain by (simp add: strip_def filter_noop rejected_def)
  then have rs: "ReasoningFrom ProviderGoogle (ms @ [?m]) = ?rs @ [?m]" by (simp add: ReasoningFrom_eq)
  have same: "google_messages model ?names ?rs [] = google_messages model (toolCallNames ?rs) ?rs []"
    using assms(3) m(2) by (intro google_messages_names settled_names) auto
  have "google_messages model (toolCallNames ?rs) ?rs [] = Inr contents" "contents \<noteq> []"
    using assms(1) by (auto simp: buildContents_def Let_def split: sum.splits if_splits)
  moreover have "google_parts model ?names qs [] = Inr (List.map_filter part_back (answer_parts result))"
    using parts by (simp add: google_parts_Inr)
  ultimately show ?thesis
    unfolding buildContents_def using same
    by (simp add: m(1) rs google_messages_append google_roleFor_def Let_def part_back_same)
qed

section \<open>The adapter's interface\<close>

lemma google_bad_own: "own_error ProviderGoogle ErrorKindBadRequest (google_badRequest model msg)"
  by (simp add: google_badRequest_def)

lemma google_parts_error: "google_parts model names ps parts = Inl e \<Longrightarrow> own_error ProviderGoogle ErrorKindBadRequest e"
  by (induction ps arbitrary: parts)
    (auto simp: google_part_def Let_def google_bad_own split: sum.splits option.splits if_splits)

lemma google_messages_error: "google_messages model names ms contents = Inl e \<Longrightarrow> own_error ProviderGoogle ErrorKindBadRequest e"
  by (induction ms arbitrary: contents) (auto simp: google_bad_own split: sum.splits option.splits dest: google_parts_error)

lemma schemaType_error: "schemaType model raw = Inl e \<Longrightarrow> own_error ProviderGoogle ErrorKindBadRequest e"
  by (auto simp: schemaType_def google_bad_own split: option.splits json.splits)

lemma schema_error:
  "jsonSchemaToGenai num model raw = Inl e \<Longrightarrow> own_error ProviderGoogle ErrorKindBadRequest e"
  "properties_member num model v = Inl e \<Longrightarrow> own_error ProviderGoogle ErrorKindBadRequest e"
  "schema_properties num model props = Inl e \<Longrightarrow> own_error ProviderGoogle ErrorKindBadRequest e"
  "items_member num model v = Inl e \<Longrightarrow> own_error ProviderGoogle ErrorKindBadRequest e"
proof (induction num model raw and num model v and num model props and num model v
    rule: jsonSchemaToGenai_properties_member_schema_properties_items_member.induct)
  case (1 num model raw)
  then show ?case by (auto simp: jsonSchemaToGenai.simps [of num model raw] split: sum.splits dest: schemaType_error)
qed (auto split: sum.splits)

lemma google_tools_error: "google_tools num model ts = Some (Inl e) \<Longrightarrow> own_error ProviderGoogle ErrorKindBadRequest e"
proof (induction ts)
  case (Cons t ts)
  have "google_tool_params num model t = Some (Inl e) \<Longrightarrow> own_error ProviderGoogle ErrorKindBadRequest e"
    by (auto simp: google_tool_params_def google_bad_own split: option.splits if_splits dest: schema_error(1))
  with Cons show ?case by (auto split: option.splits sum.splits)
qed simp

lemma google_toParams_error:
  assumes "google_toParams num model req = Some (Inl e)"
  shows "own_error ProviderGoogle ErrorKindBadRequest e"
proof -
  have sys: "google_systemText model req = Inl e \<Longrightarrow> own_error ProviderGoogle ErrorKindBadRequest e" for e
    using system_text_error by (fastforce simp: google_systemText_def google_bad_own)
  have msgs: "buildContents model req = Inl e \<Longrightarrow> own_error ProviderGoogle ErrorKindBadRequest e" for e
    by (auto simp: buildContents_def Let_def google_bad_own split: sum.splits if_splits dest: google_messages_error)
  have tools: "google_buildTools num model req = Some (Inl e) \<Longrightarrow> own_error ProviderGoogle ErrorKindBadRequest e" for e
    by (auto simp: google_buildTools_def split: if_splits dest: google_tools_error)
  have choice: "toolConfig model req = Inl e \<Longrightarrow> own_error ProviderGoogle ErrorKindBadRequest e" for e
    by (auto simp: toolConfig_def Let_def google_bad_own split: if_splits)
  from assms show ?thesis unfolding google_toParams_def
    by (auto split: sum.splits option.splits dest: sys msgs tools choice)
qed

lemma genai_fold_calls:
  "foldl genai_part_step (parts, calls, tx) ps = (parts', calls', tx') \<Longrightarrow> calls = tool_calls parts \<Longrightarrow> calls' = tool_calls parts'"
proof (induction ps arbitrary: parts calls tx)
  case (Cons p ps)
  obtain parts1 calls1 tx1 where st: "genai_part_step (parts, calls, tx) p = (parts1, calls1, tx1)" by (metis prod.exhaust)
  have "calls1 = tool_calls parts1"
    using st Cons.prems(2) by (cases p) (auto simp: Let_def zero_part_def List.map_filter_simps split: if_splits option.splits)
  with Cons.IH [of parts1 calls1 tx1] Cons.prems(1) st show ?case by simp
qed simp

lemma google_respond_mirrors: "mirrors (google_respond c req extra result)"
  using genai_fold_calls [of "[]" "[]" "[]" "answer_parts result"]
  by (auto simp: mirrors_def google_respond_def google_response_parts Let_def List.map_filter_simps split: prod.split)

interpretation google: chat_adapter ProviderGoogle "google_badRequest (gg_model c)" "google_toParams (gg_number_text c) (gg_model c)"
    "gg_Generate c" "google_classifyError (gg_errors c) (gg_model c)" "google_respond c" "google_Complete c"
  for c :: "'w google_client"
  by unfold_locales (auto simp: google_Complete_def google_bad_own google_toParams_error google_respond_mirrors
    google_classifyError_def ClassifyOverflow_keeps split: sum.split option.split prod.split)

section \<open>Inputs the code does not handle\<close>

text \<open>As in the OpenAI adapter, a \<open>null\<close> schema panics.\<close>

theorem google_null_schema_panics:
  "validateChatRequest demo_schema_request = None \<and> google_Complete c ctx demo_schema_request w = None"
proof -
  have "google_tool_params num model (hd (cr_Tools demo_schema_request)) = None" for num model
    by (simp add: google_tool_params_def demo_schema_request_def unmarshal_null to_map_nil)
  then have "google_buildTools num model demo_schema_request = None" for num model
    by (simp add: google_buildTools_def demo_schema_request_def)
  moreover have "google_systemText model demo_schema_request = Inr []" for model
    by (simp add: google_systemText_def demo_schema_request_def zero_request_def)
  moreover have "buildContents model demo_schema_request = Inr [\<lparr>gc_Role = ''user'', gc_Parts = [zero_genai_part\<lparr>gp_Text := ''Hello''\<rparr>]\<rparr>]" for model
    by (simp add: buildContents_def demo_schema_request_def zero_request_def ReasoningFrom_eq strip_def rejected_def
      UserText_def google_roleFor_def google_part_def)
  moreover have "For demo_schema_request ProviderGoogle = Inr None"
    by (simp add: For_def demo_schema_request_def zero_request_def)
  ultimately show ?thesis by (simp add: google_Complete_def google_toParams_def demo_schema_valid)
qed

text \<open>Two calls of one function without ids in a response: the turn does not validate any more, whatever follows.\<close>

theorem google_parallel_calls_rejected:
  assumes "answer_parts result = [Some g1, Some g2]" and "gp_FunctionCall g1 = Some fc1" and "gp_FunctionCall g2 = Some fc2"
    and "\<not> gp_Thought g1" and "\<not> gp_Thought g2" and "fc_ID fc1 = []" and "fc_ID fc2 = []" and "fc_Name fc1 = fc_Name fc2"
  shows "ValidateMessages (ms @ rsp_Message (google_toChatResponse raw result) # rest) \<noteq> None"
proof
  let ?m = "rsp_Message (google_toChatResponse raw result)"
  assume "ValidateMessages (ms @ ?m # rest) = None"
  then have "user_ok ?m \<or> assistant_ok ?m \<or> tool_ok ?m"
    by (intro wf_roles [of "ms @ ?m # rest"]) (simp_all add: ValidateMessages_None_iff)
  moreover have "m_Role ?m = RoleAssistant" "call_ids ?m = [fc_Name fc1, fc_Name fc1]"
    using assms by (simp_all add: google_response_parts Let_def call_ids_def google_call_def zero_part_def)
  ultimately show False by (auto simp: user_ok_def assistant_ok_def tool_ok_def)
qed

text \<open>A call id used again by a later turn: the earlier result goes out under the later call's name.\<close>

definition demo_call :: "string \<Rightarrow> string \<Rightarrow> message" where
  "demo_call i name = \<lparr>m_Role = RoleAssistant, m_Content = [zero_part\<lparr>cp_Type := ContentToolCall,
     cp_ToolCall := Some \<lparr>tc_ID = i, tc_Name = name, tc_Parameters = [], tc_ProviderSignature = []\<rparr>\<rparr>]\<rparr>"

definition demo_result :: "string \<Rightarrow> string \<Rightarrow> message" where
  "demo_result i s = ToolResultMessage [\<lparr>tr_ToolCallID = i, tr_Content = s, tr_IsError = False\<rparr>]"

definition demo_turns :: "string \<Rightarrow> chat_request" where
  "demo_turns i = zero_request\<lparr>cr_Messages :=
     [UserText ''Hello'', demo_call ''call_0'' ''clock'', demo_result ''call_0'' ''noon'', demo_call i ''search'', demo_result i ''found'']\<rparr>"

lemma wf_turn1:
  assumes "wf_transcript ms" and "assistant_ok a" and "tool_ok t" and "distinct (result_ids t)" and "set (result_ids t) = set (call_ids a)"
  shows "wf_transcript (ms @ [a, t])"
  using wf_turn [of ms a "[t]"] assms by simp

lemma demo_turns_valid: "i \<noteq> [] \<Longrightarrow> validateChatRequest (demo_turns i) = None"
proof -
  assume "i \<noteq> []"
  have turn: "assistant_ok (demo_call i n)" "tool_ok (demo_result i s)" "distinct (result_ids (demo_result i s))"
    "set (result_ids (demo_result i s)) = set (call_ids (demo_call i n))" if "i \<noteq> []" for i n s
    using that by (simp_all add: demo_call_def demo_result_def assistant_ok_def tool_ok_def hasNonReasoning_iff call_ids_def
      result_ids_def ToolResultMessage_def call_part_ok_def result_part_ok_def zero_part_def)
  have "wf_transcript [UserText ''Hello'']" using wf_user [OF wf_Nil, of "UserText ''Hello''"] by (simp add: user_ok_def)
  from wf_turn1 [OF this turn, of "''call_0''"] have "wf_transcript [UserText ''Hello'', demo_call ''call_0'' ''clock'', demo_result ''call_0'' ''noon'']"
    by simp
  from wf_turn1 [OF this turn, of i] \<open>i \<noteq> []\<close> show ?thesis
    by (simp add: validateChatRequest_def demo_turns_def zero_request_def ValidateMessages_None_iff)
qed

definition demo_contents :: "string \<Rightarrow> genai_content list" where
  "demo_contents name =
     (let call = (\<lambda>i n. \<lparr>gc_Role = ''model'', gc_Parts = [zero_genai_part\<lparr>gp_FunctionCall := Some \<lparr>fc_ID = i, fc_Name = n, fc_Args = Some []\<rparr>\<rparr>]\<rparr>);
          res = (\<lambda>n s. \<lparr>gc_Role = ''user'', gc_Parts = [zero_genai_part\<lparr>gp_FunctionResponse := Some \<lparr>fr_Name = n,
            fr_Response = [(''content'', JStr s), (''is_error'', JBool False)]\<rparr>\<rparr>]\<rparr>)
      in [\<lparr>gc_Role = ''user'', gc_Parts = [zero_genai_part\<lparr>gp_Text := ''Hello''\<rparr>]\<rparr>,
          call ''call_0'' ''clock'', res name ''noon'', call ''call_0'' ''search'', res ''search'' ''found''])"

theorem google_reused_id_misnames:
  "validateChatRequest (demo_turns ''call_0'') = None \<and> buildContents model (demo_turns ''call_0'') = Inr (demo_contents ''search'')"
  using demo_turns_valid [of "''call_0''"]
  by (simp add: buildContents_def demo_turns_def demo_contents_def demo_call_def demo_result_def ReasoningFrom_eq strip_def rejected_def
    UserText_def ToolResultMessage_def google_roleFor_def google_part_def toolCallNames_def note_call_def rawToMap_def zero_part_def
    Let_def zero_genai_part_def)

section \<open>Witnesses\<close>

text \<open>The naming holds of the conversation that reuses an id, too.\<close>

theorem google_results_named_witness:
  "validateChatRequest (demo_turns ''call_0'') = None \<and> (\<exists>contents. buildContents ''gemini'' (demo_turns ''call_0'') = Inr contents \<and>
     list_all2 (\<lambda>m c. google_roleFor (m_Role m) = Some (gc_Role c) \<and>
       list_all2 (part_sent (cr_Messages (demo_turns ''call_0''))) (plain_parts m) (gc_Parts c)) (cr_Messages (demo_turns ''call_0'')) contents)"
proof -
  have "\<forall>m \<in> set (cr_Messages (demo_turns ''call_0'')). texts_ok m \<and> params_ok m \<and> foreign_reasoning ProviderGoogle m"
    by (simp add: demo_turns_def demo_call_def demo_result_def texts_ok_def params_ok_def foreign_reasoning_def UserText_def
      ToolResultMessage_def zero_part_def List.map_filter_simps rawToMap_def)
  then show ?thesis
    using google_results_named [OF demo_turns_valid, of "''call_0''" "''gemini''"] demo_turns_valid [of "''call_0''"] by auto
qed

definition demo_gemini :: genai_response where
  "demo_gemini = \<lparr>gr_ResponseID = ''r1'', gr_Candidates = [Some \<lparr>gcd_FinishReason = ''STOP'', gcd_Content = Some
     [Some (zero_genai_part\<lparr>gp_Text := ''Thinking'', gp_Thought := True\<rparr>),
      Some (zero_genai_part\<lparr>gp_FunctionCall := Some \<lparr>fc_ID = [], fc_Name = ''clock'', fc_Args = None\<rparr>, gp_ThoughtSignature := ''sig''\<rparr>)]\<rparr>],
     gr_UsageMetadata = None\<rparr>"

theorem google_turn_round_trip_witness:
  "buildContents ''gemini'' (zero_request\<lparr>cr_Messages := [UserText ''Hello'', rsp_Message (google_toChatResponse (\<lambda>_. JNull) demo_gemini)]\<rparr>) =
     Inr [\<lparr>gc_Role = ''user'', gc_Parts = [zero_genai_part\<lparr>gp_Text := ''Hello''\<rparr>]\<rparr>,
          \<lparr>gc_Role = ''model'', gc_Parts = [zero_genai_part\<lparr>gp_FunctionCall := Some \<lparr>fc_ID = ''clock'', fc_Name = ''clock'', fc_Args = None\<rparr>,
             gp_ThoughtSignature := ''sig''\<rparr>]\<rparr>]"
proof -
  have "buildContents ''gemini'' (zero_request\<lparr>cr_Messages := [UserText ''Hello'']\<rparr>) =
      Inr [\<lparr>gc_Role = ''user'', gc_Parts = [zero_genai_part\<lparr>gp_Text := ''Hello''\<rparr>]\<rparr>]"
    by (simp add: buildContents_def ReasoningFrom_eq strip_def rejected_def UserText_def google_roleFor_def google_part_def)
  from google_turn_round_trip [OF this, of demo_gemini "\<lambda>_. JNull"]
  show ?thesis
    by (simp add: answer_parts_def first_candidate_def demo_gemini_def args_ok_def ids_settled_def ReasoningFrom_eq strip_def rejected_def
      UserText_def part_back_def List.map_filter_simps zero_genai_part_def)
qed

end
