(* ===== verification/Embeddings.thy ===== *)
theory Embeddings
  imports GoogleProps
begin

text \<open>
  The embedding clients: OpenAI (\<open>llms/providers/openai\<close>: \<open>embeddings.go\<close>, \<open>convert.go\<close>) and Google
  (\<open>llms/providers/google/embeddings.go\<close>). The SDK call is a field of the client; the vectors are placed by the index
  the provider reports (OpenAI) or by position (Google).
\<close>

section \<open>OpenAI\<close>

definition maxBatchInputs :: int where "maxBatchInputs = 2048"

record embedding_params =
  ep_Model :: string
  ep_Input :: "string list"
  ep_Dimensions :: "int option"

record openai_embedding =
  oe_Index :: int
  oe_Embedding :: "rat list"

record openai_embeddings =
  oes_Data :: "openai_embedding list"
  oes_PromptTokens :: int
  oes_TotalTokens :: int

text \<open>\<open>oem_float32\<close> rounds a float64 to a float32.\<close>

record 'w openai_embedding_client =
  oem_Embeddings_New :: "ctx \<Rightarrow> embedding_params \<Rightarrow> 'w \<Rightarrow> (error + openai_embeddings) \<times> 'w"
  oem_model :: string
  oem_dimensions :: int
  oem_errors :: error_env
  oem_float32 :: "rat \<Rightarrow> rat"
  oem_raw :: "openai_embeddings \<Rightarrow> json"

definition openai_embedding_Model :: "'w openai_embedding_client \<Rightarrow> model_ref" where
  "openai_embedding_Model c = \<lparr>mr_Provider = ProviderOpenAI, mr_Name = oem_model c\<rparr>"

definition openai_DefaultDimensions :: "'w openai_embedding_client \<Rightarrow> int" where
  "openai_DefaultDimensions c = oem_dimensions c"

definition embedding_error :: "'w openai_embedding_client \<Rightarrow> error_kind \<Rightarrow> string \<Rightarrow> error" where
  "embedding_error c kind msg = ProviderError ProviderOpenAI (oem_model c) kind 0 msg 0 None"

definition zero_vector :: embedding_vector where "zero_vector = \<lparr>ev_ID = [], ev_Values = []\<rparr>"

text \<open>The vectors and which are filled.\<close>

type_synonym place_state = "embedding_vector list \<times> bool list"

definition place :: "'w openai_embedding_client \<Rightarrow> embedding_request \<Rightarrow> place_state \<Rightarrow> openai_embedding \<Rightarrow> error + place_state" where
  "place c req st e =
     (let (vectors, filled) = st; idx = oe_Index e in
      if idx < 0 \<or> idx \<ge> int (length (er_Inputs req))
      then Inl (embedding_error c ErrorKindUnknown ''provider returned an out-of-range embedding index'')
      else if filled ! nat idx
      then Inl (embedding_error c ErrorKindUnknown ''provider returned a duplicate embedding index'')
      else Inr (vectors[nat idx := \<lparr>ev_ID = ei_ID (er_Inputs req ! nat idx), ev_Values = map (oem_float32 c) (oe_Embedding e)\<rparr>],
                filled[nat idx := True]))"

fun place_all :: "'w openai_embedding_client \<Rightarrow> embedding_request \<Rightarrow> place_state \<Rightarrow> openai_embedding list \<Rightarrow> error + place_state" where
  "place_all c req st [] = Inr st"
| "place_all c req st (e # es) =
     (case place c req st e of Inl err \<Rightarrow> Inl err | Inr st \<Rightarrow> place_all c req st es)"

definition embedding_toResponse :: "'w openai_embedding_client \<Rightarrow> embedding_request \<Rightarrow> openai_embeddings \<Rightarrow> error + embedding_response" where
  "embedding_toResponse c req resp =
     (let n = length (er_Inputs req) in
      if length (oes_Data resp) \<noteq> n
      then Inl (embedding_error c ErrorKindUnknown ''provider returned a different number of vectors than inputs'')
      else case place_all c req (replicate n zero_vector, replicate n False) (oes_Data resp) of
        Inl err \<Rightarrow> Inl err
      | Inr (vectors, filled) \<Rightarrow>
          (if False \<in> set filled
           then Inl (embedding_error c ErrorKindUnknown ''provider did not return a vector for every input'')
           else Inr \<lparr>ersp_Vectors = vectors,
                  ersp_Usage = zero_usage\<lparr>u_EmbeddingTokens := oes_PromptTokens resp, u_TotalTokens := oes_TotalTokens resp\<rparr>,
                  ersp_Raw = Some (oem_raw c resp)\<rparr>))"

definition openai_Embed :: "'w openai_embedding_client \<Rightarrow> ctx \<Rightarrow> embedding_request \<Rightarrow> 'w \<Rightarrow> (embedding_response \<times> error option) \<times> 'w" where
  "openai_Embed c ctx req w =
     (if er_Inputs req = []
      then ((zero_embedding_response, Some (embedding_error c ErrorKindBadRequest ''no embedding inputs'')), w)
      else if int (length (er_Inputs req)) > maxBatchInputs
      then ((zero_embedding_response, Some (embedding_error c ErrorKindBadRequest
              ''too many inputs for one request; the application must chunk'')), w)
      else
        let params = \<lparr>ep_Model = oem_model c, ep_Input = map ei_Text (er_Inputs req),
              ep_Dimensions = (if er_Dimensions req > 0 then Some (er_Dimensions req)
                               else if oem_dimensions c > 0 then Some (oem_dimensions c) else None)\<rparr>
        in case oem_Embeddings_New c ctx params w of
             (Inl err, w') \<Rightarrow> ((zero_embedding_response, openai_classifyError (oem_errors c) (oem_model c) err), w')
           | (Inr resp, w') \<Rightarrow>
               (case embedding_toResponse c req resp of
                  Inl err \<Rightarrow> ((zero_embedding_response, Some err), w')
                | Inr out \<Rightarrow> ((out, None), w')))"

section \<open>Google\<close>

record genai_embed_config =
  ge_TaskType :: string
  ge_AutoTruncate :: bool
  ge_OutputDimensionality :: "int option"
  ge_Title :: string

record 'w google_embedding_client =
  gec_EmbedContent :: "ctx \<Rightarrow> string \<Rightarrow> genai_content list \<Rightarrow> genai_embed_config \<Rightarrow> 'w \<Rightarrow> (error + (rat list) list) \<times> 'w"
  gec_model :: string
  gec_dims :: int
  gec_autoTruncate :: bool
  gec_maxInputBytes :: int
  gec_errors :: genai_env
  gec_raw :: "(rat list) list \<Rightarrow> json"

definition defaultBatchLimit :: int where "defaultBatchLimit = 250"

definition baseModel :: "string \<Rightarrow> string" where
  "baseModel model = rev (takeWhile (\<lambda>ch. ch \<noteq> CHR ''/'') (rev model))"

definition batchLimit :: "string \<Rightarrow> int" where
  "batchLimit model = (if baseModel model = ''gemini-embedding-001'' then 1 else defaultBatchLimit)"

definition google_embedding_Model :: "'w google_embedding_client \<Rightarrow> model_ref" where
  "google_embedding_Model c = \<lparr>mr_Provider = ProviderGoogle, mr_Name = gec_model c\<rparr>"

definition google_DefaultDimensions :: "'w google_embedding_client \<Rightarrow> int" where
  "google_DefaultDimensions c = gec_dims c"

definition taskType :: "string \<Rightarrow> string" where
  "taskType t =
     (if t = ''retrieval_document'' then ''RETRIEVAL_DOCUMENT'' else if t = ''retrieval_query'' then ''RETRIEVAL_QUERY''
      else if t = ''semantic_similarity'' then ''SEMANTIC_SIMILARITY'' else if t = ''classification'' then ''CLASSIFICATION''
      else if t = ''clustering'' then ''CLUSTERING'' else if t = ''question_answering'' then ''QUESTION_ANSWERING''
      else if t = ''fact_verification'' then ''FACT_VERIFICATION''
      else if t = ''code_retrieval_query'' then ''CODE_RETRIEVAL_QUERY'' else [])"

definition outputDims :: "int \<Rightarrow> int \<Rightarrow> int option" where
  "outputDims def_dims override =
     (let d = (if override > 0 then override else def_dims) in if d \<le> 0 then None else Some d)"

text \<open>The first input that is too long.\<close>

fun oversized :: "int \<Rightarrow> nat \<Rightarrow> embedding_input list \<Rightarrow> (nat \<times> int) option" where
  "oversized limit i [] = None"
| "oversized limit i (inp # inps) =
     (let n = int (length (ei_Text inp)) in if n > limit then Some (i, n) else oversized limit (Suc i) inps)"

definition google_Embed :: "'w google_embedding_client \<Rightarrow> ctx \<Rightarrow> embedding_request \<Rightarrow> 'w \<Rightarrow> (embedding_response \<times> error option) \<times> 'w" where
  "google_Embed c ctx req w =
     (let bad = (\<lambda>msg. ((zero_embedding_response, Some (google_badRequest (gec_model c) msg)), w)); inputs = er_Inputs req in
      if inputs = [] then bad ''no inputs''
      else if er_Dimensions req < 0 \<or> er_Dimensions req > MaxInt32 then bad ''Dimensions must be >= 0 and fit int32''
      else if int (length inputs) > batchLimit (gec_model c)
        then bad ''too many inputs for this model: the application owns chunking/batching''
      else case (if gec_autoTruncate c then None else oversized (gec_maxInputBytes c) 0 inputs) of
        Some (i, n) \<Rightarrow> bad (''input '' @ itoa (int i) @ '' is '' @ itoa n @ '' bytes, exceeds MaxInputBytes '' @
          itoa (gec_maxInputBytes c) @ '' (set AutoTruncate or chunk smaller)'')
      | None \<Rightarrow>
          (case gec_EmbedContent c ctx (gec_model c)
              (map (\<lambda>inp. \<lparr>gc_Role = ''user'', gc_Parts = [zero_genai_part\<lparr>gp_Text := ei_Text inp\<rparr>]\<rparr>) inputs)
              \<lparr>ge_TaskType = taskType (er_Task req), ge_AutoTruncate = gec_autoTruncate c,
               ge_OutputDimensionality = outputDims (gec_dims c) (er_Dimensions req),
               ge_Title = (if er_Task req = ''retrieval_document'' \<and> length inputs = 1 then ei_Title (hd inputs) else [])\<rparr> w of
             (Inl err, w') \<Rightarrow> ((zero_embedding_response, google_classifyError (gec_errors c) (gec_model c) err), w')
           | (Inr embs, w') \<Rightarrow>
               (if length embs \<noteq> length inputs
                then ((zero_embedding_response, Some (google_badRequest (gec_model c)
                        ''provider returned a different number of vectors than inputs'')), w')
                else ((\<lparr>ersp_Vectors = map2 (\<lambda>inp vals. \<lparr>ev_ID = ei_ID inp, ev_Values = vals\<rparr>) inputs embs,
                        ersp_Usage = zero_usage, ersp_Raw = Some (gec_raw c embs)\<rparr>, None), w'))))"

section \<open>Vectors in input order\<close>

abbreviation vector_of :: "'w openai_embedding_client \<Rightarrow> embedding_request \<Rightarrow> openai_embedding \<Rightarrow> embedding_vector" where
  "vector_of c req e \<equiv> \<lparr>ev_ID = ei_ID (er_Inputs req ! nat (oe_Index e)), ev_Values = map (oem_float32 c) (oe_Embedding e)\<rparr>"

abbreviation in_range :: "embedding_request \<Rightarrow> openai_embedding \<Rightarrow> bool" where
  "in_range req e \<equiv> 0 \<le> oe_Index e \<and> oe_Index e < int (length (er_Inputs req))"

lemma place_Inr:
  "place c req (vectors, filled) e = Inr st \<longleftrightarrow> in_range req e \<and> \<not> filled ! nat (oe_Index e) \<and>
     st = (vectors[nat (oe_Index e) := vector_of c req e], filled[nat (oe_Index e) := True])"
  by (auto simp: place_def Let_def)

lemma place_Inl: "place c req st e = Inl err \<Longrightarrow> \<exists>msg. err = embedding_error c ErrorKindUnknown msg"
  by (auto simp: place_def Let_def split: prod.splits if_splits)

lemma place_all_Inl: "place_all c req st es = Inl err \<Longrightarrow> \<exists>msg. err = embedding_error c ErrorKindUnknown msg"
  by (induction es arbitrary: st) (auto split: sum.splits dest: place_Inl)

text \<open>What the loop has done after some elements.\<close>

definition placed :: "'w openai_embedding_client \<Rightarrow> embedding_request \<Rightarrow> openai_embedding list \<Rightarrow> place_state \<Rightarrow> bool" where
  "placed c req es st \<longleftrightarrow>
     length (fst st) = length (er_Inputs req) \<and> length (snd st) = length (er_Inputs req) \<and>
     (\<forall>i < length (er_Inputs req). snd st ! i \<longleftrightarrow> int i \<in> oe_Index ` set es) \<and>
     (\<forall>e \<in> set es. in_range req e \<and> fst st ! nat (oe_Index e) = vector_of c req e)"

lemma placed_step:
  assumes "placed c req es st" and "place c req st e = Inr st'"
  shows "placed c req (es @ [e]) st' \<and> in_range req e \<and> oe_Index e \<notin> oe_Index ` set es"
proof -
  obtain vectors filled where st: "st = (vectors, filled)" by (cases st)
  have p: "in_range req e" "\<not> filled ! nat (oe_Index e)"
    "st' = (vectors[nat (oe_Index e) := vector_of c req e], filled[nat (oe_Index e) := True])"
    using assms(2) by (simp_all add: st place_Inr)
  then have "nat (oe_Index e) < length (er_Inputs req)" by auto
  with assms(1) p(1,2) have new: "oe_Index e \<notin> oe_Index ` set es" by (auto simp: placed_def st)
  then have other: "nat (oe_Index e') \<noteq> nat (oe_Index e)" if "e' \<in> set es" for e'
    using that assms(1) p(1) by (metis (no_types, lifting) image_eqI nat_0_le placed_def)
  have "filled[nat (oe_Index e) := True] ! i \<longleftrightarrow> int i \<in> oe_Index ` set (es @ [e])" if "i < length (er_Inputs req)" for i
    using that assms(1) p(1) by (cases "i = nat (oe_Index e)") (auto simp: placed_def st)
  moreover have "vectors[nat (oe_Index e) := vector_of c req e] ! nat (oe_Index e') = vector_of c req e'" if "e' \<in> set (es @ [e])" for e'
    using that assms(1) p(1) other [of e'] by (cases "e' = e") (auto simp: placed_def st)
  ultimately show ?thesis using assms(1) p new by (auto simp: placed_def st)
qed

lemma place_all_Inr:
  assumes "placed c req es0 st"
  shows "(\<exists>st'. place_all c req st es = Inr st') \<longleftrightarrow>
      (\<forall>e \<in> set es. in_range req e) \<and> distinct (map oe_Index es) \<and> oe_Index ` set es0 \<inter> oe_Index ` set es = {}"
    and "place_all c req st es = Inr st' \<Longrightarrow> placed c req (es0 @ es) st'"
proof -
  have "((\<exists>st'. place_all c req st es = Inr st') \<longleftrightarrow>
      (\<forall>e \<in> set es. in_range req e) \<and> distinct (map oe_Index es) \<and> oe_Index ` set es0 \<inter> oe_Index ` set es = {}) \<and>
      (\<forall>st'. place_all c req st es = Inr st' \<longrightarrow> placed c req (es0 @ es) st')"
    using assms
  proof (induction es arbitrary: es0 st)
    case (Cons e es)
    obtain vectors filled where st: "st = (vectors, filled)" by (cases st)
    show ?case
    proof (cases "place c req st e")
      case (Inl err)
      then have "\<not> (in_range req e \<and> \<not> filled ! nat (oe_Index e))" by (auto simp: st place_def Let_def split: if_splits)
      moreover have "filled ! nat (oe_Index e) \<longleftrightarrow> oe_Index e \<in> oe_Index ` set es0" if "in_range req e"
        using Cons.prems that by (auto simp: placed_def st)
      ultimately show ?thesis using Inl by auto
    next
      case (Inr st1)
      from placed_step [OF Cons.prems Inr] Cons.IH [of "es0 @ [e]" st1] Inr show ?thesis by auto
    qed
  qed simp
  then show "(\<exists>st'. place_all c req st es = Inr st') \<longleftrightarrow>
      (\<forall>e \<in> set es. in_range req e) \<and> distinct (map oe_Index es) \<and> oe_Index ` set es0 \<inter> oe_Index ` set es = {}"
    "place_all c req st es = Inr st' \<Longrightarrow> placed c req (es0 @ es) st'" by blast+
qed

text \<open>The reference: one embedding per input, each put where its index says.\<close>

definition one_each :: "embedding_request \<Rightarrow> openai_embeddings \<Rightarrow> bool" where
  "one_each req resp \<longleftrightarrow> length (oes_Data resp) = length (er_Inputs req) \<and>
     (\<forall>e \<in> set (oes_Data resp). in_range req e) \<and> distinct (map oe_Index (oes_Data resp))"

definition in_input_order :: "'w openai_embedding_client \<Rightarrow> embedding_request \<Rightarrow> openai_embeddings \<Rightarrow> embedding_vector list" where
  "in_input_order c req resp =
     map (\<lambda>i. vector_of c req (the (find (\<lambda>e. oe_Index e = int i) (oes_Data resp)))) [0..<length (er_Inputs req)]"

lemma one_each_index:
  assumes "one_each req resp"
  shows "oe_Index ` set (oes_Data resp) = {0..<int (length (er_Inputs req))}"
proof -
  have "card (oe_Index ` set (oes_Data resp)) = length (er_Inputs req)"
    using assms distinct_card [of "map oe_Index (oes_Data resp)"] by (simp add: one_each_def)
  moreover have "oe_Index ` set (oes_Data resp) \<subseteq> {0..<int (length (er_Inputs req))}" using assms by (auto simp: one_each_def)
  ultimately show ?thesis by (intro card_subset_eq) simp_all
qed

lemma placed_in_order:
  assumes "one_each req resp" and "placed c req (oes_Data resp) (vectors, filled)"
  shows "vectors = in_input_order c req resp" and "False \<notin> set filled"
proof -
  let ?n = "length (er_Inputs req)" and ?data = "oes_Data resp"
  have len: "length vectors = ?n" "length filled = ?n" using assms(2) by (simp_all add: placed_def)
  have "vectors ! i = in_input_order c req resp ! i \<and> filled ! i" if i: "i < ?n" for i
  proof -
    from i one_each_index [OF assms(1)] have mem: "int i \<in> oe_Index ` set ?data" by auto
    then obtain e where e: "find (\<lambda>e. oe_Index e = int i) ?data = Some e"
      by (cases "find (\<lambda>e. oe_Index e = int i) ?data") (auto simp: find_None_iff)
    then have "e \<in> set ?data" "oe_Index e = int i" by (auto simp: find_Some_iff)
    with assms(2) have "vectors ! i = vector_of c req e" by (auto simp: placed_def)
    moreover have "filled ! i" using assms(2) mem i by (simp add: placed_def)
    ultimately show ?thesis using e i by (simp add: in_input_order_def)
  qed
  then show "vectors = in_input_order c req resp" "False \<notin> set filled"
    using len by (auto intro!: nth_equalityI simp: in_input_order_def in_set_conv_nth)
qed

text \<open>
  C20: the embeddings come back in input order whatever order the provider sends them in: a response is accepted
  exactly when it has one embedding per input, each index once, and then the vector at each position has
  that input's id and the values reported for its index; anything else is a typed error of the provider.
\<close>

theorem openai_embeddings_in_order:
  "if one_each req resp
   then embedding_toResponse c req resp =
      Inr \<lparr>ersp_Vectors = in_input_order c req resp,
           ersp_Usage = zero_usage\<lparr>u_EmbeddingTokens := oes_PromptTokens resp, u_TotalTokens := oes_TotalTokens resp\<rparr>,
           ersp_Raw = Some (oem_raw c resp)\<rparr>
   else \<exists>msg. embedding_toResponse c req resp = Inl (embedding_error c ErrorKindUnknown msg)"
proof -
  let ?n = "length (er_Inputs req)" and ?data = "oes_Data resp"
  let ?st = "(replicate ?n zero_vector, replicate ?n False)"
  have start: "placed c req [] ?st" by (simp add: placed_def)
  show ?thesis
  proof (cases "one_each req resp")
    case True
    with place_all_Inr(1) [OF start, of ?data] obtain vectors filled where all: "place_all c req ?st ?data = Inr (vectors, filled)"
      by (auto simp: one_each_def)
    from place_all_Inr(2) [OF start all] have "placed c req ?data (vectors, filled)" by simp
    from placed_in_order [OF True this] all True show ?thesis by (simp add: embedding_toResponse_def one_each_def)
  next
    case False
    show ?thesis
    proof (cases "place_all c req ?st ?data")
      case (Inl err)
      with place_all_Inl [OF Inl] False show ?thesis by (auto simp: embedding_toResponse_def Let_def)
    next
      case (Inr st')
      with place_all_Inr(1) [OF start, of ?data] False have "length ?data \<noteq> ?n" by (auto simp: one_each_def)
      with False show ?thesis by (auto simp: embedding_toResponse_def Let_def)
    qed
  qed
qed

theorem openai_embeddings_in_order_witness:
  "\<exists>out. embedding_toResponse \<lparr>oem_Embeddings_New = (\<lambda>_ _ w. (Inl json_error, (w :: nat))), oem_model = ''m'', oem_dimensions = 0,
       oem_errors = \<lparr>ee_sdk_error = (\<lambda>_. None), ee_err_text = (\<lambda>_. []), ee_http_date = (\<lambda>_. None), ee_now = 0\<rparr>,
       oem_float32 = id, oem_raw = \<lambda>_. JNull\<rparr>
     \<lparr>er_Inputs = [\<lparr>ei_ID = ''a'', ei_Text = ''x'', ei_Title = []\<rparr>, \<lparr>ei_ID = ''b'', ei_Text = ''y'', ei_Title = []\<rparr>],
      er_Purpose = [], er_Dimensions = 0, er_Task = [], er_Metadata = Map.empty\<rparr>
     \<lparr>oes_Data = [\<lparr>oe_Index = 1, oe_Embedding = [2]\<rparr>, \<lparr>oe_Index = 0, oe_Embedding = [1]\<rparr>], oes_PromptTokens = 2, oes_TotalTokens = 2\<rparr> =
     Inr out \<and> ersp_Vectors out = [\<lparr>ev_ID = ''a'', ev_Values = [1]\<rparr>, \<lparr>ev_ID = ''b'', ev_Values = [2]\<rparr>]"
  (is "\<exists>out. embedding_toResponse ?c ?req ?resp = Inr out \<and> _")
proof -
  have "one_each ?req ?resp" by (simp add: one_each_def)
  with openai_embeddings_in_order [of ?req ?resp ?c] show ?thesis
    by (simp add: in_input_order_def upt_rec)
qed

end
