(* ===== verification/ModelCatalog.thy ===== *)
theory ModelCatalog
  imports GoogleProps
begin

text \<open>
  The model catalogues: \<open>llms/model_list.go\<close> and the \<open>models.go\<close> of every provider. \<open>ListModels\<close> converts the provider's
  entries; \<open>LatestInFamily\<close> finds an upgrade for a model id in a list. A time is a number of nanoseconds since the
  zero time of Go; the provider's iterator is a field of the client that returns the entries before the first
  error. The regular expressions are matched by hand on bytes; \<open>(?i)\<close> also folds the long s and the Kelvin sign.
\<close>

section \<open>Entries\<close>

type_synonym go_time = int

record model_info =
  mdi_ID :: string
  mdi_Family :: string
  mdi_Created :: go_time
  mdi_Raw :: json

text \<open>The seconds of the epoch since the zero time; \<open>time.Unix\<close> adds in 64 bits.\<close>

definition unixToInternal :: int where "unixToInternal = 62135596800"

definition time_Unix :: "int \<Rightarrow> go_time" where
  "time_Unix secs = 1000000000 * go_add secs unixToInternal"

section \<open>Matching\<close>

definition word_char :: "char \<Rightarrow> bool" where
  "word_char ch \<longleftrightarrow> is_digit ch \<or> (let n = of_char (lower ch) :: nat in 97 \<le> n \<and> n \<le> 122) \<or> ch = CHR ''_''"

text \<open>A boundary between the previous byte and the rest.\<close>

definition word_boundary :: "char option \<Rightarrow> string \<Rightarrow> bool" where
  "word_boundary prev s \<longleftrightarrow>
     (case prev of None \<Rightarrow> False | Some p \<Rightarrow> word_char p) \<noteq> (case s of [] \<Rightarrow> False | x # _ \<Rightarrow> word_char x)"

text \<open>The text that matches a lower-case word whatever its case.\<close>

fun match_ci :: "string \<Rightarrow> string \<Rightarrow> string option" where
  "match_ci [] s = Some []"
| "match_ci (k # ks) s =
     (case s of
        [] \<Rightarrow> None
      | x # s' \<Rightarrow>
          (if lower x = k then map_option ((#) x) (match_ci ks s')
           else if k = CHR ''s'' \<and> take 2 s = [CHR 0xC5, CHR 0xBF] then map_option ((@) (take 2 s)) (match_ci ks (drop 2 s))
           else if k = CHR ''k'' \<and> take 3 s = [CHR 0xE2, CHR 0x84, CHR 0xAA] then map_option ((@) (take 3 s)) (match_ci ks (drop 3 s))
           else None))"

definition last_opt :: "char option \<Rightarrow> string \<Rightarrow> char option" where
  "last_opt prev s = (if s = [] then prev else Some (last s))"

text \<open>One of the words, ending at a boundary.\<close>

fun match_words :: "string list \<Rightarrow> string \<Rightarrow> string option" where
  "match_words [] s = None"
| "match_words (wd # wds) s =
     (case match_ci wd s of
        Some m \<Rightarrow> (if word_boundary (last_opt None m) (drop (length m) s) then Some m else match_words wds s)
      | None \<Rightarrow> match_words wds s)"

section \<open>Anthropic\<close>

definition anthropic_words :: "string list" where "anthropic_words = [''opus'', ''sonnet'', ''haiku'']"

fun anthropic_find :: "char option \<Rightarrow> string \<Rightarrow> string option" where
  "anthropic_find prev [] = None"
| "anthropic_find prev (x # s) =
     (case (if word_boundary prev (x # s) then match_words anthropic_words (x # s) else None) of
        Some m \<Rightarrow> Some m
      | None \<Rightarrow> anthropic_find (Some x) s)"

definition anthropic_familyOf :: "string \<Rightarrow> string" where
  "anthropic_familyOf i = (case anthropic_find None i of None \<Rightarrow> [] | Some m \<Rightarrow> ''claude-'' @ map lower m)"

section \<open>OpenAI\<close>

definition date_suffix :: "string \<Rightarrow> bool" where
  "date_suffix s \<longleftrightarrow> length s = 11 \<and> list_all2 (\<lambda>k x. if k = CHR ''d'' then is_digit x else x = k) ''-dddd-dd-dd'' s"

definition openai_familyOf :: "string \<Rightarrow> string" where
  "openai_familyOf i = (if date_suffix (drop (length i - 11) i) then take (length i - 11) i else i)"

section \<open>Google\<close>

definition resourcePrefix :: string where "resourcePrefix = ''models/''"
definition vertexResourcePrefix :: string where "vertexResourcePrefix = ''publishers/google/models/''"

definition TrimPrefix :: "string \<Rightarrow> string \<Rightarrow> string" where
  "TrimPrefix pre s = (if take (length pre) s = pre then drop (length pre) s else s)"

definition stripPrefix :: "string \<Rightarrow> string" where
  "stripPrefix name =
     (if take (length vertexResourcePrefix) name = vertexResourcePrefix then drop (length vertexResourcePrefix) name
      else TrimPrefix resourcePrefix name)"

definition gemini_roles :: "string list" where "gemini_roles = [''pro'', ''flash'', ''nano'', ''ultra'']"

text \<open>The role after \<open>gemini-\<close>, with the optional version first tried.\<close>

definition match_gemini :: "string \<Rightarrow> string option" where
  "match_gemini s =
     (case match_ci ''gemini-'' s of
        None \<Rightarrow> None
      | Some m \<Rightarrow>
          (let s = drop (length m) s;
               ver = takeWhile (\<lambda>x. is_digit x \<or> x = CHR ''.'') s;
               rest = drop (length ver) s
           in case (if ver \<noteq> [] \<and> take 1 rest = ''-'' then match_words gemini_roles (drop 1 rest) else None) of
                Some role \<Rightarrow> Some role
              | None \<Rightarrow> match_words gemini_roles s))"

fun gemini_find :: "char option \<Rightarrow> string \<Rightarrow> string option" where
  "gemini_find prev [] = None"
| "gemini_find prev (x # s) =
     (case (if word_boundary prev (x # s) then match_gemini (x # s) else None) of
        Some role \<Rightarrow> Some role
      | None \<Rightarrow> gemini_find (Some x) s)"

definition google_familyOf :: "string \<Rightarrow> string" where
  "google_familyOf i = (case gemini_find None (stripPrefix i) of None \<Rightarrow> [] | Some role \<Rightarrow> ''gemini-'' @ map lower role)"

text \<open>The digits of the version: before and after the point.\<close>

definition match_version :: "string \<Rightarrow> (string \<times> string) option" where
  "match_version s =
     (case match_ci ''gemini-'' s of
        None \<Rightarrow> None
      | Some m \<Rightarrow>
          (let s = drop (length m) s; major = takeWhile is_digit s; rest = drop (length major) s;
               minor = takeWhile is_digit (drop 1 rest)
           in if major = [] then None
              else if take 1 rest = ''-'' then Some (major, [])
              else if take 1 rest = ''.'' \<and> minor \<noteq> [] \<and> take 1 (drop (Suc (length minor)) rest) = ''-'' then Some (major, minor)
              else None))"

fun version_find :: "string \<Rightarrow> (string \<times> string) option" where
  "version_find [] = None"
| "version_find (x # s) = (case match_version (x # s) of Some v \<Rightarrow> Some v | None \<Rightarrow> version_find s)"

definition digits_value :: "string \<Rightarrow> int" where
  "digits_value s = foldl (\<lambda>acc x. 10 * acc + (int (of_char x) - 48)) 0 s"

text \<open>\<open>strconv.ParseFloat\<close> of the version: the nearest float64, an error when it is too large.\<close>

definition versionOf :: "string \<Rightarrow> rat" where
  "versionOf i =
     (case version_find (stripPrefix i) of
        None \<Rightarrow> 0
      | Some (major, minor) \<Rightarrow>
          (let v = fl (of_int (digits_value (major @ minor)) / 10 ^ length minor) in if v \<ge> 2 ^ 1024 then 0 else v))"

section \<open>The latest of a family\<close>

text \<open>\<open>sort.SliceStable\<close>: the stable ordering by \<open>lt\<close>.\<close>

fun insert_stable :: "('a \<Rightarrow> 'a \<Rightarrow> bool) \<Rightarrow> 'a \<Rightarrow> 'a list \<Rightarrow> 'a list" where
  "insert_stable lt x [] = [x]"
| "insert_stable lt x (y # ys) = (if lt y x then y # insert_stable lt x ys else x # y # ys)"

definition SliceStable :: "('a \<Rightarrow> 'a \<Rightarrow> bool) \<Rightarrow> 'a list \<Rightarrow> 'a list" where
  "SliceStable lt xs = foldr (insert_stable lt) xs []"

definition zeroIfAbsent :: "string \<Rightarrow> model_info list \<Rightarrow> go_time" where
  "zeroIfAbsent i models = (case find (\<lambda>m. mdi_ID m = i) models of None \<Rightarrow> 0 | Some m \<Rightarrow> mdi_Created m)"

definition newer_created :: "model_info \<Rightarrow> model_info \<Rightarrow> bool" where
  "newer_created a b = (if mdi_Created a \<noteq> mdi_Created b then mdi_Created a > mdi_Created b else mdi_ID a > mdi_ID b)"

definition latest_by_created :: "(string \<Rightarrow> string) \<Rightarrow> string \<Rightarrow> model_info list \<Rightarrow> model_info option" where
  "latest_by_created familyOf currentID models =
     (let fam = familyOf currentID in
      if fam = [] then None
      else
        let currentT = zeroIfAbsent currentID models;
            fam2 = filter (\<lambda>m. mdi_Family m = fam) models
        in case SliceStable newer_created fam2 of
             [] \<Rightarrow> None
           | newest # _ \<Rightarrow>
               (if mdi_ID newest = currentID then None
                else if currentT \<noteq> 0 \<and> \<not> mdi_Created newest > currentT then None
                else Some newest))"

definition anthropic_LatestInFamily :: "string \<Rightarrow> model_info list \<Rightarrow> model_info option" where
  "anthropic_LatestInFamily = latest_by_created anthropic_familyOf"

definition openai_LatestInFamily :: "string \<Rightarrow> model_info list \<Rightarrow> model_info option" where
  "openai_LatestInFamily = latest_by_created openai_familyOf"

definition newer_version :: "model_info \<Rightarrow> model_info \<Rightarrow> bool" where
  "newer_version a b =
     (let va = versionOf (mdi_ID a); vb = versionOf (mdi_ID b) in if va \<noteq> vb then va > vb else mdi_ID a > mdi_ID b)"

definition google_LatestInFamily :: "string \<Rightarrow> model_info list \<Rightarrow> model_info option" where
  "google_LatestInFamily currentID models =
     (let fam = google_familyOf currentID in
      if fam = [] then None
      else case SliceStable newer_version (filter (\<lambda>m. mdi_Family m = fam) models) of
        [] \<Rightarrow> None
      | newest # _ \<Rightarrow>
          (if mdi_ID newest = currentID then None
           else
             let currentV = versionOf currentID; newestV = versionOf (mdi_ID newest) in
             if newestV < currentV then None
             else if newestV = currentV \<and> mdi_ID newest \<le> currentID then None
             else Some newest))"

section \<open>Listing\<close>

record anthropic_model =
  anm_ID :: string
  anm_CreatedAt :: go_time
  anm_Raw :: json

record 'w anthropic_catalog = "'w anthropic_client" +
  an_Models_All :: "ctx \<Rightarrow> 'w \<Rightarrow> (anthropic_model list \<times> error option) \<times> 'w"

type_synonym listing = "model_info list \<times> error option"

definition anthropic_ListModels :: "'w anthropic_catalog \<Rightarrow> ctx \<Rightarrow> 'w \<Rightarrow> listing \<times> 'w" where
  "anthropic_ListModels c ctx w =
     (if an_noListing c \<noteq> []
      then (([], Some (ProviderError ProviderAnthropic (an_model c) ErrorKindConfig 0
              (''model listing is not supported on '' @ an_noListing c) 0 None)), w)
      else case an_Models_All c ctx w of
        ((ms, Some err), w') \<Rightarrow> (([], anthropic_classifyError (an_errors c) (an_model c) err), w')
      | ((ms, None), w') \<Rightarrow>
          ((map (\<lambda>m. \<lparr>mdi_ID = anm_ID m, mdi_Family = anthropic_familyOf (anm_ID m), mdi_Created = anm_CreatedAt m, mdi_Raw = anm_Raw m\<rparr>) ms,
            None), w'))"

record openai_model =
  om_ID :: string
  om_Created :: int
  om_Raw :: json

record 'w openai_catalog = "'w openai_client" +
  oa_Models_List :: "ctx \<Rightarrow> 'w \<Rightarrow> (error + openai_model list) \<times> 'w"

definition openai_info :: "(string \<Rightarrow> string) \<Rightarrow> openai_model \<Rightarrow> model_info" where
  "openai_info familyOf m =
     \<lparr>mdi_ID = om_ID m, mdi_Family = familyOf (om_ID m),
      mdi_Created = (if om_Created m > 0 then time_Unix (om_Created m) else 0), mdi_Raw = om_Raw m\<rparr>"

definition openai_ListModels :: "'w openai_catalog \<Rightarrow> ctx \<Rightarrow> 'w \<Rightarrow> listing \<times> 'w" where
  "openai_ListModels c ctx w =
     (case oa_Models_List c ctx w of
        (Inl err, w') \<Rightarrow> (([], openai_classifyError (oa_errors c) (oa_model c) err), w')
      | (Inr ms, w') \<Rightarrow> ((map (openai_info openai_familyOf) ms, None), w'))"

record 'w compat_catalog = "'w compat_client" +
  oc_Models_List :: "ctx \<Rightarrow> 'w \<Rightarrow> (error + openai_model list) \<times> 'w"

definition compat_ListModels :: "'w compat_catalog \<Rightarrow> ctx \<Rightarrow> 'w \<Rightarrow> listing \<times> 'w" where
  "compat_ListModels c ctx w =
     (case oc_Models_List c ctx w of
        (Inl err, w') \<Rightarrow> (([], compat_classifyError (oc_errors c) (oc_model c) err), w')
      | (Inr ms, w') \<Rightarrow> ((map (openai_info (\<lambda>_. [])) ms, None), w'))"

datatype genai_backend = BackendGeminiAPI | BackendVertexAI

record genai_model =
  gm_Name :: string
  gm_Raw :: json

record 'w google_catalog = "'w google_client" +
  gg_Backend :: genai_backend
  gg_Models_All :: "ctx \<Rightarrow> 'w \<Rightarrow> (genai_model list \<times> error option) \<times> 'w"

definition google_ListModels :: "'w google_catalog \<Rightarrow> ctx \<Rightarrow> 'w \<Rightarrow> listing \<times> 'w" where
  "google_ListModels c ctx w =
     (if gg_Backend c = BackendVertexAI
      then (([], Some (ProviderError ProviderGoogle (gg_model c) ErrorKindConfig 0 ''model listing is not supported on Vertex AI'' 0 None)), w)
      else case gg_Models_All c ctx w of
        ((ms, Some err), w') \<Rightarrow> (([], google_classifyError (gg_errors c) (gg_model c) err), w')
      | ((ms, None), w') \<Rightarrow>
          ((map (\<lambda>m. let i = stripPrefix (gm_Name m) in
             \<lparr>mdi_ID = i, mdi_Family = google_familyOf i, mdi_Created = 0, mdi_Raw = gm_Raw m\<rparr>) ms, None), w'))"

text \<open>The clients' one-shot form.\<close>

definition latest_of_listing :: "(string \<Rightarrow> model_info list \<Rightarrow> model_info option) \<Rightarrow> string \<Rightarrow> listing \<times> 'w \<Rightarrow> (model_info option \<times> error option) \<times> 'w" where
  "latest_of_listing latest currentID res =
     (case res of
        ((models, Some err), w') \<Rightarrow> ((None, Some err), w')
      | ((models, None), w') \<Rightarrow> ((latest currentID models, None), w'))"

definition anthropic_Client_LatestInFamily :: "'w anthropic_catalog \<Rightarrow> ctx \<Rightarrow> string \<Rightarrow> 'w \<Rightarrow> (model_info option \<times> error option) \<times> 'w" where
  "anthropic_Client_LatestInFamily c ctx currentID w = latest_of_listing anthropic_LatestInFamily currentID (anthropic_ListModels c ctx w)"

definition openai_Client_LatestInFamily :: "'w openai_catalog \<Rightarrow> ctx \<Rightarrow> string \<Rightarrow> 'w \<Rightarrow> (model_info option \<times> error option) \<times> 'w" where
  "openai_Client_LatestInFamily c ctx currentID w = latest_of_listing openai_LatestInFamily currentID (openai_ListModels c ctx w)"

definition google_Client_LatestInFamily :: "'w google_catalog \<Rightarrow> ctx \<Rightarrow> string \<Rightarrow> 'w \<Rightarrow> (model_info option \<times> error option) \<times> 'w" where
  "google_Client_LatestInFamily c ctx currentID w = latest_of_listing google_LatestInFamily currentID (google_ListModels c ctx w)"

section \<open>Ollama\<close>

record tagsModel =
  tg_Name :: string
  tg_ModifiedAt :: string
  tg_Digest :: string
  tg_Family :: string
  tg_ParameterSize :: string
  tg_QuantizationLevel :: string
  tg_Size :: int

definition zero_tagsModel :: tagsModel where
  "zero_tagsModel = \<lparr>tg_Name = [], tg_ModifiedAt = [], tg_Digest = [], tg_Family = [], tg_ParameterSize = [], tg_QuantizationLevel = [], tg_Size = 0\<rparr>"

definition set_details :: "string \<Rightarrow> json \<Rightarrow> tagsModel \<Rightarrow> tagsModel option" where
  "set_details k v m =
     (if k = ''family'' then map_option (\<lambda>s. m\<lparr>tg_Family := s\<rparr>) (decode_string v (tg_Family m))
      else if k = ''parameter_size'' then map_option (\<lambda>s. m\<lparr>tg_ParameterSize := s\<rparr>) (decode_string v (tg_ParameterSize m))
      else if k = ''quantization_level'' then map_option (\<lambda>s. m\<lparr>tg_QuantizationLevel := s\<rparr>) (decode_string v (tg_QuantizationLevel m))
      else Some m)"

definition set_tagsModel :: "string \<Rightarrow> json \<Rightarrow> tagsModel \<Rightarrow> tagsModel option" where
  "set_tagsModel k v m =
     (if k = ''name'' then map_option (\<lambda>s. m\<lparr>tg_Name := s\<rparr>) (decode_string v (tg_Name m))
      else if k = ''modified_at'' then map_option (\<lambda>s. m\<lparr>tg_ModifiedAt := s\<rparr>) (decode_string v (tg_ModifiedAt m))
      else if k = ''digest'' then map_option (\<lambda>s. m\<lparr>tg_Digest := s\<rparr>) (decode_string v (tg_Digest m))
      else if k = ''details'' then decode_struct set_details m v
      else if k = ''size'' then map_option (\<lambda>n. m\<lparr>tg_Size := n\<rparr>) (decode_int v (tg_Size m))
      else Some m)"

definition set_tagsResponse :: "string \<Rightarrow> json \<Rightarrow> tagsModel list \<Rightarrow> tagsModel list option" where
  "set_tagsResponse k v ms =
     (if k = ''models'' then
        (case v of
           JArr js \<Rightarrow> decode_list (decode_struct set_tagsModel zero_tagsModel) js
         | JNull \<Rightarrow> Some []
         | _ \<Rightarrow> None)
      else Some ms)"

record 'w ollama_catalog = "'w ollama_client" +
  ol_http_get :: "ctx \<Rightarrow> string \<Rightarrow> 'w \<Rightarrow> (error + http_response) \<times> 'w"
  ol_rfc3339 :: "string \<Rightarrow> go_time option"
  ol_tag_raw :: "tagsModel \<Rightarrow> json"

definition ollama_info :: "(string \<Rightarrow> go_time option) \<Rightarrow> (tagsModel \<Rightarrow> json) \<Rightarrow> tagsModel \<Rightarrow> model_info" where
  "ollama_info rfc3339 raw m =
     \<lparr>mdi_ID = tg_Name m, mdi_Family = [],
      mdi_Created = (if tg_ModifiedAt m = [] then 0 else case rfc3339 (tg_ModifiedAt m) of None \<Rightarrow> 0 | Some t \<Rightarrow> t),
      mdi_Raw = raw m\<rparr>"

definition ollama_ListModels :: "'w ollama_catalog \<Rightarrow> ctx \<Rightarrow> 'w \<Rightarrow> listing \<times> 'w" where
  "ollama_ListModels c ctx w =
     (let cl = ollama_client.truncate c in
      case ol_http_get c ctx (ol_baseURL c @ ''/api/tags'') w of
        (Inl err, w') \<Rightarrow> (([], Some (ollama_classify cl (\<lambda>_. None) err)), w')
      | (Inr resp, w') \<Rightarrow>
          (if hr_StatusCode resp < 200 \<or> hr_StatusCode resp \<ge> 300
           then (([], Some (httpStatusErr cl resp (ollama_status_message (hr_Body resp)))), w')
           else case (case unmarshal (hr_Body resp) of None \<Rightarrow> None | Some j \<Rightarrow> decode_struct set_tagsResponse [] j) of
             None \<Rightarrow> (([], Some (httpStatusErr cl resp (''invalid /api/tags JSON: '' @ error_text json_error))), w')
           | Some ms \<Rightarrow> ((map (ollama_info (ol_rfc3339 c) (ol_tag_raw c)) ms, None), w')))"

section \<open>The order\<close>

text \<open>A strict order up to ties, as \<open>sort.SliceStable\<close> demands it; the result then starts with an element that
  nothing precedes.\<close>

locale strict_order =
  fixes lt :: "'a \<Rightarrow> 'a \<Rightarrow> bool"
  assumes asym: "lt x y \<Longrightarrow> \<not> lt y x"
    and tied: "lt x z \<Longrightarrow> lt x y \<or> lt y z"
begin

lemma set_insert_stable: "set (insert_stable lt x ys) = insert x (set ys)"
  by (induction ys) auto

lemma set_SliceStable: "set (SliceStable lt xs) = set xs"
  by (induction xs) (simp_all add: SliceStable_def set_insert_stable)

definition ordered :: "'a list \<Rightarrow> bool" where
  "ordered xs \<longleftrightarrow> sorted_wrt (\<lambda>x y. \<not> lt y x) xs"

lemma ordered_insert: "ordered ys \<Longrightarrow> ordered (insert_stable lt x ys)"
proof (induction ys)
  case (Cons y ys)
  show ?case
  proof (cases "lt y x")
    case True
    then have "\<not> lt x y" by (rule asym)
    with Cons True show ?thesis by (auto simp: ordered_def set_insert_stable)
  next
    case False
    then have "\<not> lt z x" if "z \<in> set ys" for z
      using Cons.prems that tied [of z x y] by (auto simp: ordered_def)
    with Cons False show ?thesis by (auto simp: ordered_def)
  qed
qed (simp add: ordered_def)

lemma ordered_SliceStable: "ordered (SliceStable lt xs)"
  unfolding SliceStable_def by (induction xs) (simp_all add: ordered_insert, simp add: ordered_def)

lemma SliceStable_first:
  assumes "SliceStable lt xs = x # rest"
  shows "x \<in> set xs" and "\<forall>y \<in> set xs. \<not> lt y x"
proof -
  have "set xs = insert x (set rest)" using set_SliceStable [of xs] assms by simp
  moreover have "\<forall>y \<in> set rest. \<not> lt y x" using ordered_SliceStable [of xs] assms by (simp add: ordered_def)
  ultimately show "x \<in> set xs" "\<forall>y \<in> set xs. \<not> lt y x" using asym by auto
qed

lemma SliceStable_Nil: "SliceStable lt xs = [] \<longleftrightarrow> xs = []"
  using set_SliceStable [of xs] by (cases "SliceStable lt xs") auto

end

lemma lex_tied:
  fixes u v w :: "'v :: linorder" and i j k :: "'i :: linorder"
  shows "(if u \<noteq> w then u > w else i > k) \<Longrightarrow> (if u \<noteq> v then u > v else i > j) \<or> (if v \<noteq> w then v > w else j > k)"
  by (auto split: if_splits)

lemma lex_asym:
  fixes u w :: "'v :: linorder" and i k :: "'i :: linorder"
  shows "(if u \<noteq> w then u > w else i > k) \<Longrightarrow> \<not> (if w \<noteq> u then w > u else k > i)"
  by (auto split: if_splits)

interpretation created: strict_order newer_created
  by unfold_locales (unfold newer_created_def, rule lex_asym, assumption, rule lex_tied)

interpretation version: strict_order newer_version
  by unfold_locales (unfold newer_version_def Let_def, rule lex_asym, assumption, rule lex_tied)

text \<open>A list whose families are the ones \<open>ListModels\<close> fills in.\<close>

definition classified :: "(string \<Rightarrow> string) \<Rightarrow> model_info list \<Rightarrow> bool" where
  "classified familyOf models \<longleftrightarrow> (\<forall>m \<in> set models. mdi_Family m = familyOf (mdi_ID m))"

text \<open>
  C23: the upgrade suggested for a model is a listed model of its family that none of the family is newer than,
  strictly newer than the model's own entry if it is listed with a date, and final: asked again for the
  suggestion, the same list suggests nothing.
\<close>

theorem latest_in_family_is_newest:
  assumes "classified familyOf models" and "latest_by_created familyOf currentID models = Some m"
  shows "m \<in> set models \<and> mdi_Family m = familyOf currentID \<and> familyOf currentID \<noteq> [] \<and> mdi_ID m \<noteq> currentID \<and>
    (\<forall>x \<in> set models. mdi_Family x = familyOf currentID \<longrightarrow> mdi_Created x \<le> mdi_Created m) \<and>
    (zeroIfAbsent currentID models \<noteq> 0 \<longrightarrow> mdi_Created m > zeroIfAbsent currentID models) \<and>
    latest_by_created familyOf (mdi_ID m) models = None"
proof -
  let ?fam = "familyOf currentID"
  obtain rest where first: "SliceStable newer_created (filter (\<lambda>m. mdi_Family m = ?fam) models) = m # rest"
    and m: "?fam \<noteq> []" "mdi_ID m \<noteq> currentID" "zeroIfAbsent currentID models \<noteq> 0 \<longrightarrow> mdi_Created m > zeroIfAbsent currentID models"
    using assms(2) by (auto simp: latest_by_created_def Let_def split: list.splits if_splits)
  from created.SliceStable_first [OF first] have mem: "m \<in> set models" "mdi_Family m = ?fam"
    and newest: "\<And>x. x \<in> set models \<Longrightarrow> mdi_Family x = ?fam \<Longrightarrow> \<not> newer_created x m" by auto
  have "mdi_Created x \<le> mdi_Created m" if "x \<in> set models" "mdi_Family x = ?fam" for x
    using newest [OF that] by (auto simp: newer_created_def split: if_splits)
  moreover have "familyOf (mdi_ID m) = ?fam" using assms(1) mem by (auto simp: classified_def)
  then have "latest_by_created familyOf (mdi_ID m) models = None" using first m(1) by (simp add: latest_by_created_def)
  ultimately show ?thesis using mem m by blast
qed

text \<open>Google's order is by version, then by id; here the suggestion is newer in that order.\<close>

theorem google_latest_is_newest:
  assumes "classified google_familyOf models" and "google_LatestInFamily currentID models = Some m"
  shows "m \<in> set models \<and> mdi_Family m = google_familyOf currentID \<and>
    (\<forall>x \<in> set models. mdi_Family x = google_familyOf currentID \<longrightarrow> versionOf (mdi_ID x) \<le> versionOf (mdi_ID m)) \<and>
    (versionOf (mdi_ID m) > versionOf currentID \<or> versionOf (mdi_ID m) = versionOf currentID \<and> mdi_ID m > currentID) \<and>
    google_LatestInFamily (mdi_ID m) models = None"
proof -
  let ?fam = "google_familyOf currentID"
  obtain rest where first: "SliceStable newer_version (filter (\<lambda>m. mdi_Family m = ?fam) models) = m # rest"
    and m: "?fam \<noteq> []" "versionOf (mdi_ID m) > versionOf currentID \<or> versionOf (mdi_ID m) = versionOf currentID \<and> mdi_ID m > currentID"
    using assms(2) by (force simp: google_LatestInFamily_def Let_def not_le not_less le_less split: list.splits if_splits)
  from version.SliceStable_first [OF first] have mem: "m \<in> set models" "mdi_Family m = ?fam"
    and newest: "\<And>x. x \<in> set models \<Longrightarrow> mdi_Family x = ?fam \<Longrightarrow> \<not> newer_version x m" by auto
  have "versionOf (mdi_ID x) \<le> versionOf (mdi_ID m)" if "x \<in> set models" "mdi_Family x = ?fam" for x
    using newest [OF that] by (auto simp: newer_version_def Let_def split: if_splits)
  moreover have "google_familyOf (mdi_ID m) = ?fam" using assms(1) mem by (auto simp: classified_def)
  then have "google_LatestInFamily (mdi_ID m) models = None" using first m(1) by (simp add: google_LatestInFamily_def)
  ultimately show ?thesis using mem m by blast
qed

text \<open>An entry of the same version counts as an upgrade when its id is greater.\<close>

lemma demo_gemini_family: "google_familyOf ''gemini-2-pro'' = ''gemini-pro''" "google_familyOf ''gemini-2-pro-001'' = ''gemini-pro''"
  by (code_simp, code_simp)

lemma demo_gemini_version: "version_find (stripPrefix ''gemini-2-pro'') = Some (''2'', [])"
    "version_find (stripPrefix ''gemini-2-pro-001'') = Some (''2'', [])"
  by (code_simp, code_simp)

definition demo_info :: "string \<Rightarrow> string \<Rightarrow> go_time \<Rightarrow> model_info" where
  "demo_info i fam t = \<lparr>mdi_ID = i, mdi_Family = fam, mdi_Created = t, mdi_Raw = JNull\<rparr>"

theorem google_latest_same_version:
  "google_LatestInFamily ''gemini-2-pro'' [demo_info ''gemini-2-pro-001'' ''gemini-pro'' 0] = Some (demo_info ''gemini-2-pro-001'' ''gemini-pro'' 0) \<and>
   versionOf ''gemini-2-pro-001'' = versionOf ''gemini-2-pro''"
proof -
  have "versionOf ''gemini-2-pro-001'' = versionOf ''gemini-2-pro''" by (simp add: versionOf_def demo_gemini_version)
  moreover have "\<not> ''gemini-2-pro-001'' \<le> ''gemini-2-pro''" by code_simp
  ultimately show ?thesis
    by (simp add: google_LatestInFamily_def demo_gemini_family SliceStable_def demo_info_def)
qed

section \<open>Witnesses\<close>

definition demo_catalog :: "model_info list" where
  "demo_catalog = [demo_info ''gpt-5'' ''gpt-5'' 1, demo_info ''gpt-5-2026-03-15'' ''gpt-5'' 2, demo_info ''o3'' ''o3'' 3]"

lemma demo_catalog_classified: "classified openai_familyOf demo_catalog"
proof -
  have "openai_familyOf ''gpt-5'' = ''gpt-5''" "openai_familyOf ''gpt-5-2026-03-15'' = ''gpt-5''" "openai_familyOf ''o3'' = ''o3''"
    by (code_simp, code_simp, code_simp)
  then show ?thesis by (simp add: classified_def demo_catalog_def demo_info_def)
qed

theorem latest_in_family_is_newest_witness:
  "openai_LatestInFamily ''gpt-5'' demo_catalog = Some (demo_info ''gpt-5-2026-03-15'' ''gpt-5'' 2) \<and>
   openai_LatestInFamily ''gpt-5-2026-03-15'' demo_catalog = None"
proof -
  have fam: "openai_familyOf ''gpt-5'' = ''gpt-5''" by code_simp
  have latest: "latest_by_created openai_familyOf ''gpt-5'' demo_catalog = Some (demo_info ''gpt-5-2026-03-15'' ''gpt-5'' 2)"
    by (simp add: latest_by_created_def demo_catalog_def demo_info_def SliceStable_def newer_created_def zeroIfAbsent_def fam)
  from latest_in_family_is_newest [OF demo_catalog_classified latest] latest show ?thesis
    by (simp add: openai_LatestInFamily_def demo_info_def)
qed

end
