(* ===== verification/Construct.thy ===== *)
theory Construct
  imports Embeddings ModelCatalog
begin

text \<open>
  How the clients are built: \<open>New\<close>, \<open>NewEmbeddings\<close> and the options of every provider package, with
  \<open>anthropicvertex\<close> and its marker (\<open>internal/backend\<close>). An option is a function on the package's
  settings, as in the source. What an SDK makes of its options is an argument (\<open>api\<close>); the options reach it as
  a list, in the order the source passes them. A client of \<open>net/http\<close> is its transport and the rest of its
  fields; a shallow copy is the same value.
\<close>

section \<open>Common types\<close>

record 'tr http_client =
  hc_Transport :: "'tr option"
  hc_Rest :: nat

text \<open>Google credentials: the token provider, if any, and what asking for the quota project returns.\<close>

record credentials =
  cred_TokenProvider :: "nat option"
  cred_Quota :: "error + string"

datatype 'tr sdk_option =
    WithoutEnvironmentDefaults
  | WithEnvironmentProduction
  | ApiKeyOption string
  | BaseURLOption string
  | HTTPClientOption "'tr http_client"
  | MaxRetriesOption int
  | VertexCredentials string string credentials
  | NoModelListing string
  | CallerOption nat

definition configErr :: "string \<Rightarrow> provider_id \<Rightarrow> error" where
  "configErr msg provider = ProviderError provider [] ErrorKindConfig 0 msg 0 None"

text \<open>\<open>strings.Join\<close> with a comma, and \<open>strings.TrimRight\<close> of slashes.\<close>

fun join_comma :: "string list \<Rightarrow> string" where
  "join_comma [] = []"
| "join_comma [x] = x"
| "join_comma (x # y # xs) = x @ '', '' @ join_comma (y # xs)"

definition TrimRight_slash :: "string \<Rightarrow> string" where
  "TrimRight_slash s = rev (dropWhile (\<lambda>x. x = CHR ''/'') (rev s))"

text \<open>\<open>apply_options\<close> runs the options from left to right.\<close>

definition apply_options :: "('s \<Rightarrow> 's) list \<Rightarrow> 's \<Rightarrow> 's" where
  "apply_options opts s = foldl (\<lambda>s opt. opt s) s opts"

definition retries_of :: "bool \<Rightarrow> int \<Rightarrow> int" where
  "retries_of has n = (if has then n else 0)"

section \<open>Anthropic (anthropic.go)\<close>

record 'tr anthropic_settings =
  as_apiKey :: string
  as_model :: string
  as_baseURL :: string
  as_httpClient :: "'tr http_client option"
  as_maxRetries :: int
  as_hasRetries :: bool
  as_extraReqOpts :: "'tr sdk_option list"

definition zero_anthropic_settings :: "'tr anthropic_settings" where
  "zero_anthropic_settings = \<lparr>as_apiKey = [], as_model = [], as_baseURL = [], as_httpClient = None, as_maxRetries = 0,
     as_hasRetries = False, as_extraReqOpts = []\<rparr>"

type_synonym 'tr anthropic_option = "'tr anthropic_settings \<Rightarrow> 'tr anthropic_settings"

definition anthropic_WithAPIKey :: "string \<Rightarrow> 'tr anthropic_option" where
  "anthropic_WithAPIKey key s = s\<lparr>as_apiKey := key\<rparr>"

definition anthropic_WithModel :: "string \<Rightarrow> 'tr anthropic_option" where
  "anthropic_WithModel model s = s\<lparr>as_model := model\<rparr>"

definition anthropic_WithBaseURL :: "string \<Rightarrow> 'tr anthropic_option" where
  "anthropic_WithBaseURL u s = s\<lparr>as_baseURL := u\<rparr>"

definition anthropic_WithHTTPClient :: "'tr http_client option \<Rightarrow> 'tr anthropic_option" where
  "anthropic_WithHTTPClient c s = s\<lparr>as_httpClient := c\<rparr>"

definition anthropic_WithMaxRetries :: "int \<Rightarrow> 'tr anthropic_option" where
  "anthropic_WithMaxRetries n s = s\<lparr>as_maxRetries := n, as_hasRetries := True\<rparr>"

definition anthropic_WithRequestOptions :: "'tr sdk_option list \<Rightarrow> 'tr anthropic_option" where
  "anthropic_WithRequestOptions opts s = s\<lparr>as_extraReqOpts := as_extraReqOpts s @ opts\<rparr>"

definition NoModelListingBackend :: "'tr sdk_option \<Rightarrow> string option" where
  "NoModelListingBackend o' = (case o' of NoModelListing name \<Rightarrow> Some name | _ \<Rightarrow> None)"

text \<open>The markers are taken out; the last one counts.\<close>

fun take_markers :: "string \<Rightarrow> 'tr sdk_option list \<Rightarrow> 'tr sdk_option list \<Rightarrow> string \<times> 'tr sdk_option list" where
  "take_markers noListing reqExtra [] = (noListing, reqExtra)"
| "take_markers noListing reqExtra (o' # os) =
     (case NoModelListingBackend o' of
        Some name \<Rightarrow> take_markers name reqExtra os
      | None \<Rightarrow> take_markers noListing (reqExtra @ [o']) os)"

definition anthropic_request_options :: "'tr anthropic_settings \<Rightarrow> 'tr sdk_option list" where
  "anthropic_request_options s =
     [WithoutEnvironmentDefaults] @
     (if as_apiKey s \<noteq> [] then [ApiKeyOption (as_apiKey s)] else []) @
     (if as_baseURL s \<noteq> [] then [BaseURLOption (as_baseURL s)] else []) @
     (case as_httpClient s of None \<Rightarrow> [] | Some c \<Rightarrow> [HTTPClientOption c]) @
     [MaxRetriesOption (retries_of (as_hasRetries s) (as_maxRetries s))] @ as_extraReqOpts s"

definition anthropic_New :: "('tr sdk_option list \<Rightarrow> 'w anthropic_catalog) \<Rightarrow> 'tr anthropic_option list \<Rightarrow> error + 'w anthropic_catalog" where
  "anthropic_New api opts =
     (let s = apply_options opts zero_anthropic_settings;
          (noListing, reqExtra) = take_markers [] [] (as_extraReqOpts s);
          s = s\<lparr>as_extraReqOpts := reqExtra\<rparr> in
      if as_apiKey s = [] \<and> as_extraReqOpts s = [] then Inl (configErr ''missing API key'' ProviderAnthropic)
      else if as_model s = [] then Inl (configErr ''missing model'' ProviderAnthropic)
      else if as_hasRetries s \<and> as_maxRetries s < 0 then Inl (configErr ''max retries must be >= 0'' ProviderAnthropic)
      else Inr ((api (anthropic_request_options s))\<lparr>an_model := as_model s, an_noListing := noListing\<rparr>))"

section \<open>Anthropic on Vertex AI (anthropicvertex)\<close>

record 'tr vertex_settings =
  vs_project :: string
  vs_location :: string
  vs_model :: string
  vs_creds :: "credentials option"
  vs_baseURL :: string
  vs_httpClient :: "'tr http_client option"

definition zero_vertex_settings :: "'tr vertex_settings" where
  "zero_vertex_settings = \<lparr>vs_project = [], vs_location = [], vs_model = [], vs_creds = None, vs_baseURL = [], vs_httpClient = None\<rparr>"

type_synonym 'tr vertex_option = "'tr vertex_settings \<Rightarrow> 'tr vertex_settings"

definition vertex_WithVertex :: "string \<Rightarrow> string \<Rightarrow> 'tr vertex_option" where
  "vertex_WithVertex project location s = s\<lparr>vs_project := project, vs_location := location\<rparr>"

definition vertex_WithModel :: "string \<Rightarrow> 'tr vertex_option" where
  "vertex_WithModel m s = s\<lparr>vs_model := m\<rparr>"

definition vertex_WithCredentials :: "credentials option \<Rightarrow> 'tr vertex_option" where
  "vertex_WithCredentials c s = s\<lparr>vs_creds := c\<rparr>"

definition vertex_WithBaseURL :: "string \<Rightarrow> 'tr vertex_option" where
  "vertex_WithBaseURL u s = s\<lparr>vs_baseURL := u\<rparr>"

definition vertex_WithHTTPClient :: "'tr http_client option \<Rightarrow> 'tr vertex_option" where
  "vertex_WithHTTPClient c s = s\<lparr>vs_httpClient := c\<rparr>"

definition vertex_request_options :: "'tr vertex_settings \<Rightarrow> credentials \<Rightarrow> 'tr sdk_option list" where
  "vertex_request_options s creds =
     (case vs_httpClient s of None \<Rightarrow> [] | Some c \<Rightarrow> [HTTPClientOption c]) @
     [VertexCredentials (vs_location s) (vs_project s) creds] @
     (if vs_baseURL s \<noteq> [] then [BaseURLOption (vs_baseURL s)] else []) @
     [NoModelListing ''Vertex AI'']"

definition vertex_New :: "('tr sdk_option list \<Rightarrow> 'w anthropic_catalog) \<Rightarrow> 'tr vertex_option list \<Rightarrow> error + 'w anthropic_catalog" where
  "vertex_New api opts =
     (let s = apply_options opts zero_vertex_settings in
      if vs_project s = [] \<or> vs_location s = []
      then Inl (configErr ''WithVertex requires a non-empty project and location'' ProviderAnthropic)
      else if vs_model s = [] then Inl (configErr ''missing model'' ProviderAnthropic)
      else case vs_creds s of
        None \<Rightarrow> Inl (configErr ''missing Google credentials (this package does no ADC discovery)'' ProviderAnthropic)
      | Some creds \<Rightarrow>
          (if cred_TokenProvider creds = None
           then Inl (configErr ''Google credentials have no TokenProvider (refusing to fall back to ADC)'' ProviderAnthropic)
           else anthropic_New api [anthropic_WithModel (vs_model s), anthropic_WithRequestOptions (vertex_request_options s creds)]))"

section \<open>OpenAI (openai.go, chat.go, embeddings.go)\<close>

record 'tr openai_settings =
  os_apiKey :: string
  os_model :: string
  os_baseURL :: string
  os_httpClient :: "'tr http_client option"
  os_dimensions :: int
  os_maxRetries :: int
  os_hasRetries :: bool
  os_embedOnly :: "string list"

definition zero_openai_settings :: "'tr openai_settings" where
  "zero_openai_settings = \<lparr>os_apiKey = [], os_model = [], os_baseURL = [], os_httpClient = None, os_dimensions = 0,
     os_maxRetries = 0, os_hasRetries = False, os_embedOnly = []\<rparr>"

type_synonym 'tr openai_option = "'tr openai_settings \<Rightarrow> 'tr openai_settings"

definition openai_WithAPIKey :: "string \<Rightarrow> 'tr openai_option" where
  "openai_WithAPIKey key s = s\<lparr>os_apiKey := key\<rparr>"

definition openai_WithModel :: "string \<Rightarrow> 'tr openai_option" where
  "openai_WithModel model s = s\<lparr>os_model := model\<rparr>"

definition openai_WithBaseURL :: "string \<Rightarrow> 'tr openai_option" where
  "openai_WithBaseURL u s = s\<lparr>os_baseURL := u\<rparr>"

definition openai_WithHTTPClient :: "'tr http_client option \<Rightarrow> 'tr openai_option" where
  "openai_WithHTTPClient c s = s\<lparr>os_httpClient := c\<rparr>"

definition openai_WithMaxRetries :: "int \<Rightarrow> 'tr openai_option" where
  "openai_WithMaxRetries n s = s\<lparr>os_maxRetries := n, os_hasRetries := True\<rparr>"

definition openai_WithDimensions :: "int \<Rightarrow> 'tr openai_option" where
  "openai_WithDimensions d s = s\<lparr>os_dimensions := d, os_embedOnly := os_embedOnly s @ [''WithDimensions'']\<rparr>"

definition openai_validate :: "bool \<Rightarrow> 'tr openai_settings \<Rightarrow> error option" where
  "openai_validate checkDimensions s =
     (if os_apiKey s = [] then Some (configErr ''missing API key'' ProviderOpenAI)
      else if os_model s = [] then Some (configErr ''missing model'' ProviderOpenAI)
      else if os_hasRetries s \<and> os_maxRetries s < 0 then Some (configErr ''max retries must be >= 0'' ProviderOpenAI)
      else if checkDimensions \<and> os_dimensions s < 0 then Some (configErr ''dimensions must be >= 0'' ProviderOpenAI)
      else None)"

definition openai_requestOptions :: "'tr openai_settings \<Rightarrow> 'tr sdk_option list" where
  "openai_requestOptions s =
     [WithEnvironmentProduction, ApiKeyOption (os_apiKey s)] @
     (if os_baseURL s \<noteq> [] then [BaseURLOption (os_baseURL s)] else []) @
     (case os_httpClient s of None \<Rightarrow> [] | Some c \<Rightarrow> [HTTPClientOption c]) @
     [MaxRetriesOption (retries_of (os_hasRetries s) (os_maxRetries s))]"

definition openai_New :: "('tr sdk_option list \<Rightarrow> 'w openai_catalog) \<Rightarrow> 'tr openai_option list \<Rightarrow> error + 'w openai_catalog" where
  "openai_New api opts =
     (let s = apply_options opts zero_openai_settings in
      if os_embedOnly s \<noteq> [] then Inl (configErr (join_comma (os_embedOnly s) @ '' applies only to NewEmbeddings'') ProviderOpenAI)
      else case openai_validate False s of
        Some err \<Rightarrow> Inl err
      | None \<Rightarrow> Inr ((api (openai_requestOptions s))\<lparr>oa_model := os_model s\<rparr>))"

definition openai_NewEmbeddings ::
  "('tr sdk_option list \<Rightarrow> 'w openai_embedding_client) \<Rightarrow> 'tr openai_option list \<Rightarrow> error + 'w openai_embedding_client" where
  "openai_NewEmbeddings api opts =
     (let s = apply_options opts zero_openai_settings in
      case openai_validate True s of
        Some err \<Rightarrow> Inl err
      | None \<Rightarrow> Inr ((api (openai_requestOptions s))\<lparr>oem_model := os_model s, oem_dimensions := os_dimensions s\<rparr>))"

section \<open>OpenAI-compatible servers (openaicompat.go, vllm.go)\<close>

record 'tr compat_settings =
  cs_apiKey :: string
  cs_model :: string
  cs_baseURL :: string
  cs_httpClient :: "'tr http_client option"
  cs_maxRetries :: int
  cs_hasRetries :: bool

definition zero_compat_settings :: "'tr compat_settings" where
  "zero_compat_settings = \<lparr>cs_apiKey = [], cs_model = [], cs_baseURL = [], cs_httpClient = None, cs_maxRetries = 0, cs_hasRetries = False\<rparr>"

type_synonym 'tr compat_option = "'tr compat_settings \<Rightarrow> 'tr compat_settings"

definition compat_WithBaseURL :: "string \<Rightarrow> 'tr compat_option" where
  "compat_WithBaseURL u s = s\<lparr>cs_baseURL := u\<rparr>"

definition compat_WithModel :: "string \<Rightarrow> 'tr compat_option" where
  "compat_WithModel model s = s\<lparr>cs_model := model\<rparr>"

definition compat_WithAPIKey :: "string \<Rightarrow> 'tr compat_option" where
  "compat_WithAPIKey key s = s\<lparr>cs_apiKey := key\<rparr>"

definition compat_WithHTTPClient :: "'tr http_client option \<Rightarrow> 'tr compat_option" where
  "compat_WithHTTPClient c s = s\<lparr>cs_httpClient := c\<rparr>"

definition compat_WithMaxRetries :: "int \<Rightarrow> 'tr compat_option" where
  "compat_WithMaxRetries n s = s\<lparr>cs_maxRetries := n, cs_hasRetries := True\<rparr>"

definition compat_request_options :: "'tr compat_settings \<Rightarrow> 'tr sdk_option list" where
  "compat_request_options s =
     [BaseURLOption (cs_baseURL s)] @
     (if cs_apiKey s \<noteq> [] then [ApiKeyOption (cs_apiKey s)] else []) @
     (case cs_httpClient s of None \<Rightarrow> [] | Some c \<Rightarrow> [HTTPClientOption c]) @
     [MaxRetriesOption (retries_of (cs_hasRetries s) (cs_maxRetries s))]"

definition compat_New :: "('tr sdk_option list \<Rightarrow> 'w compat_catalog) \<Rightarrow> 'tr compat_option list \<Rightarrow> error + 'w compat_catalog" where
  "compat_New api opts =
     (let s = apply_options opts zero_compat_settings in
      if cs_baseURL s = [] then Inl (configErr ''missing base URL'' ProviderOpenAICompat)
      else if cs_model s = [] then Inl (configErr ''missing model'' ProviderOpenAICompat)
      else if cs_hasRetries s \<and> cs_maxRetries s < 0 then Inl (configErr ''max retries must be >= 0'' ProviderOpenAICompat)
      else Inr ((api (compat_request_options s))\<lparr>oc_model := cs_model s\<rparr>))"

text \<open>The former package name forwards to the same functions.\<close>

definition vllm_New :: "('tr sdk_option list \<Rightarrow> 'w compat_catalog) \<Rightarrow> 'tr compat_option list \<Rightarrow> error + 'w compat_catalog" where
  "vllm_New api opts = compat_New api opts"

section \<open>Ollama (ollama.go)\<close>

text \<open>The client is a \<open>catalog\<close> with its transport; \<open>url\<close> is \<open>url.Parse\<close> with the scheme and host it finds.\<close>

record 'hc ollama_settings =
  ols_model :: string
  ols_baseURL :: string
  ols_httpClient :: "'hc option"
  ols_maxRetries :: int
  ols_hasRetries :: bool

definition zero_ollama_settings :: "'hc ollama_settings" where
  "zero_ollama_settings = \<lparr>ols_model = [], ols_baseURL = [], ols_httpClient = None, ols_maxRetries = 0, ols_hasRetries = False\<rparr>"

type_synonym 'hc ollama_option = "'hc ollama_settings \<Rightarrow> 'hc ollama_settings"

definition ollama_WithModel :: "string \<Rightarrow> 'hc ollama_option" where
  "ollama_WithModel model s = s\<lparr>ols_model := model\<rparr>"

definition ollama_WithBaseURL :: "string \<Rightarrow> 'hc ollama_option" where
  "ollama_WithBaseURL u s = s\<lparr>ols_baseURL := u\<rparr>"

definition ollama_WithHTTPClient :: "'hc option \<Rightarrow> 'hc ollama_option" where
  "ollama_WithHTTPClient c s = s\<lparr>ols_httpClient := c\<rparr>"

definition ollama_WithMaxRetries :: "int \<Rightarrow> 'hc ollama_option" where
  "ollama_WithMaxRetries n s = s\<lparr>ols_maxRetries := n, ols_hasRetries := True\<rparr>"

definition ollama_defaultBaseURL :: string where "ollama_defaultBaseURL = ''http://localhost:11434''"

definition ollama_New ::
  "('hc \<Rightarrow> 'w ollama_catalog) \<Rightarrow> 'hc \<Rightarrow> (string \<Rightarrow> error + (string \<times> string)) \<Rightarrow> 'hc ollama_option list \<Rightarrow> error + 'w ollama_catalog" where
  "ollama_New api default_client url opts =
     (let s = apply_options opts zero_ollama_settings in
      if ols_model s = [] then Inl (configErr ''missing model'' ProviderOllama)
      else if ols_hasRetries s \<and> ols_maxRetries s < 0 then Inl (configErr ''max retries must be >= 0'' ProviderOllama)
      else
        let base = TrimRight_slash (if ols_baseURL s = [] then ollama_defaultBaseURL else ols_baseURL s);
            bad = (\<lambda>cause. Inl (ProviderError ProviderOllama [] ErrorKindConfig 0 (''base URL must be a valid http(s) URL: '' @ base) 0 cause))
        in case url base of
             Inl err \<Rightarrow> bad (Some err)
           | Inr (scheme, host) \<Rightarrow>
               (if host = [] \<or> (scheme \<noteq> ''http'' \<and> scheme \<noteq> ''https'') then bad None
                else Inr ((api (case ols_httpClient s of None \<Rightarrow> default_client | Some hc \<Rightarrow> hc))
                       \<lparr>ol_baseURL := base, ol_model := ols_model s\<rparr>)))"

section \<open>Google (google.go, embeddings.go)\<close>

record 'tr google_settings =
  gs_apiKey :: string
  gs_model :: string
  gs_baseURL :: string
  gs_httpClient :: "'tr http_client option"
  gs_maxRetries :: int
  gs_hasRetries :: bool
  gs_project :: string
  gs_location :: string
  gs_creds :: "credentials option"
  gs_dims :: int
  gs_maxInputBytes :: int
  gs_autoTruncate :: bool
  gs_embedOnly :: "string list"
  gs_vertex :: bool

definition zero_google_settings :: "'tr google_settings" where
  "zero_google_settings = \<lparr>gs_apiKey = [], gs_model = [], gs_baseURL = [], gs_httpClient = None, gs_maxRetries = 0,
     gs_hasRetries = False, gs_project = [], gs_location = [], gs_creds = None, gs_dims = 0, gs_maxInputBytes = 0,
     gs_autoTruncate = False, gs_embedOnly = [], gs_vertex = False\<rparr>"

type_synonym 'tr google_option = "'tr google_settings \<Rightarrow> 'tr google_settings"

definition google_WithAPIKey :: "string \<Rightarrow> 'tr google_option" where
  "google_WithAPIKey key s = s\<lparr>gs_apiKey := key\<rparr>"

definition google_WithModel :: "string \<Rightarrow> 'tr google_option" where
  "google_WithModel model s = s\<lparr>gs_model := model\<rparr>"

definition google_WithBaseURL :: "string \<Rightarrow> 'tr google_option" where
  "google_WithBaseURL u s = s\<lparr>gs_baseURL := u\<rparr>"

definition google_WithHTTPClient :: "'tr http_client option \<Rightarrow> 'tr google_option" where
  "google_WithHTTPClient c s = s\<lparr>gs_httpClient := c\<rparr>"

definition google_WithMaxRetries :: "int \<Rightarrow> 'tr google_option" where
  "google_WithMaxRetries n s = s\<lparr>gs_maxRetries := n, gs_hasRetries := True\<rparr>"

definition google_WithVertex :: "string \<Rightarrow> string \<Rightarrow> 'tr google_option" where
  "google_WithVertex project location s = s\<lparr>gs_project := project, gs_location := location, gs_vertex := True\<rparr>"

definition google_WithCredentials :: "credentials option \<Rightarrow> 'tr google_option" where
  "google_WithCredentials c s = s\<lparr>gs_creds := c, gs_vertex := True\<rparr>"

definition google_WithDimensions :: "int \<Rightarrow> 'tr google_option" where
  "google_WithDimensions n s = s\<lparr>gs_dims := n, gs_embedOnly := gs_embedOnly s @ [''WithDimensions'']\<rparr>"

definition google_WithMaxInputBytes :: "int \<Rightarrow> 'tr google_option" where
  "google_WithMaxInputBytes n s = s\<lparr>gs_maxInputBytes := n, gs_embedOnly := gs_embedOnly s @ [''WithMaxInputBytes'']\<rparr>"

definition google_WithAutoTruncate :: "bool \<Rightarrow> 'tr google_option" where
  "google_WithAutoTruncate on s = s\<lparr>gs_autoTruncate := on, gs_embedOnly := gs_embedOnly s @ [''WithAutoTruncate'']\<rparr>"

text \<open>What the source sets of the SDK's configuration.\<close>

record 'tr genai_client_config =
  gcc_Backend :: genai_backend
  gcc_APIKey :: string
  gcc_Project :: string
  gcc_Location :: string
  gcc_Credentials :: "credentials option"
  gcc_BaseURL :: string
  gcc_HTTPClient :: "'tr http_client option"

text \<open>\<open>httptransport.NewClient\<close>: the transport it puts over a base transport, with credentials and the headers; and
  the default transport.\<close>

record 'tr transport_env =
  te_NewClient :: "credentials \<Rightarrow> 'tr \<Rightarrow> (string \<times> string) list \<Rightarrow> error + 'tr"
  te_Default :: 'tr

definition google_defaultBaseURL :: "genai_backend \<Rightarrow> string \<Rightarrow> string" where
  "google_defaultBaseURL backend location =
     (if backend \<noteq> BackendVertexAI then ''https://generativelanguage.googleapis.com/''
      else if location = ''global'' then ''https://aiplatform.googleapis.com/''
      else if location = ''us'' \<or> location = ''eu'' then ''https://aiplatform.'' @ location @ ''.rep.googleapis.com/''
      else ''https://'' @ location @ ''-aiplatform.googleapis.com/'')"

definition authorizeClient :: "'tr transport_env \<Rightarrow> 'tr http_client \<Rightarrow> credentials \<Rightarrow> error + 'tr http_client" where
  "authorizeClient env c creds =
     (let base = (case hc_Transport c of None \<Rightarrow> te_Default env | Some t \<Rightarrow> t);
          fail = (\<lambda>msg err. Inl (ProviderError ProviderGoogle [] ErrorKindConfig 0 msg 0 (Some err))) in
      case cred_Quota creds of
        Inl err \<Rightarrow> fail (''reading the credentials'' @ [CHR 0x27] @ '' quota project failed'') err
      | Inr quota \<Rightarrow>
          (case te_NewClient env creds base (if quota \<noteq> [] then [(''X-Goog-User-Project'', quota)] else []) of
             Inl err \<Rightarrow> fail ''authorizing the injected HTTP client failed'' err
           | Inr authed \<Rightarrow> Inr (c\<lparr>hc_Transport := Some authed\<rparr>)))"

definition applyTransport :: "'tr transport_env \<Rightarrow> 'tr google_settings \<Rightarrow> 'tr genai_client_config \<Rightarrow> error + 'tr genai_client_config" where
  "applyTransport env s cc =
     (let cc = cc\<lparr>gcc_BaseURL := gs_baseURL s\<rparr>;
          cc = (if gcc_BaseURL cc = [] then cc\<lparr>gcc_BaseURL := google_defaultBaseURL (gcc_Backend cc) (gcc_Location cc)\<rparr> else cc) in
      case gs_httpClient s of
        None \<Rightarrow> Inr cc
      | Some c \<Rightarrow>
          (let cc = cc\<lparr>gcc_HTTPClient := Some c\<rparr> in
           if gcc_Backend cc = BackendVertexAI
           then case authorizeClient env c (the (gcc_Credentials cc)) of
             Inl err \<Rightarrow> Inl err
           | Inr hc \<Rightarrow> Inr (cc\<lparr>gcc_HTTPClient := Some hc\<rparr>)
           else Inr cc))"

definition google_configErr :: "string \<Rightarrow> error" where
  "google_configErr msg = configErr msg ProviderGoogle"

definition clientConfig :: "'tr transport_env \<Rightarrow> 'tr google_settings \<Rightarrow> error + 'tr genai_client_config" where
  "clientConfig env s =
     (let cc = \<lparr>gcc_Backend = BackendGeminiAPI, gcc_APIKey = [], gcc_Project = [], gcc_Location = [], gcc_Credentials = None,
            gcc_BaseURL = [], gcc_HTTPClient = None\<rparr> in
      if gs_model s = [] then Inl (google_configErr ''missing model'')
      else if gs_hasRetries s \<and> gs_maxRetries s < 0 then Inl (google_configErr ''max retries must be >= 0'')
      else if gs_apiKey s \<noteq> [] \<and> gs_vertex s then Inl (google_configErr
        ''ambiguous backend: set WithAPIKey (Gemini API) OR WithVertex+WithCredentials (Vertex), not both'')
      else if gs_apiKey s \<noteq> [] then applyTransport env s (cc\<lparr>gcc_APIKey := gs_apiKey s\<rparr>)
      else if gs_vertex s then
        (if gs_project s = [] \<or> gs_location s = []
         then Inl (google_configErr ''Vertex backend requires WithVertex with a non-empty project and location'')
         else case gs_creds s of
           None \<Rightarrow> Inl (google_configErr ''Vertex backend requires WithCredentials (this package does no ADC discovery)'')
         | Some creds \<Rightarrow>
             (if cred_TokenProvider creds = None
              then Inl (google_configErr ''Google credentials have no TokenProvider (refusing to fall back to ADC)'')
              else applyTransport env s (cc\<lparr>gcc_Backend := BackendVertexAI, gcc_Project := gs_project s,
                gcc_Location := gs_location s, gcc_Credentials := Some creds\<rparr>)))
      else Inl (google_configErr ''missing credentials: set WithAPIKey (Gemini API) or WithVertex+WithCredentials (Vertex)''))"

text \<open>\<open>api\<close> is \<open>genai.NewClient\<close> with the calls of the client it returns.\<close>

definition google_New ::
  "('tr genai_client_config \<Rightarrow> error + 'w google_catalog) \<Rightarrow> 'tr transport_env \<Rightarrow> 'tr google_option list \<Rightarrow> error + 'w google_catalog" where
  "google_New api env opts =
     (let s = apply_options opts zero_google_settings in
      if gs_embedOnly s \<noteq> [] then Inl (google_configErr (join_comma (gs_embedOnly s) @ '' applies only to NewEmbeddings''))
      else case clientConfig env s of
        Inl err \<Rightarrow> Inl err
      | Inr cfg \<Rightarrow>
          (case api cfg of
             Inl err \<Rightarrow> Inl (ProviderError ProviderGoogle [] ErrorKindConfig 0 ''genai client init failed'' 0 (Some err))
           | Inr c \<Rightarrow> Inr (c\<lparr>gg_model := gs_model s, gg_Backend := gcc_Backend cfg\<rparr>)))"

definition embedConfig :: "'tr transport_env \<Rightarrow> 'tr google_settings \<Rightarrow> error + 'tr genai_client_config" where
  "embedConfig env s =
     (if gs_dims s < 0 \<or> gs_dims s > MaxInt32
      then Inl (google_configErr ''WithDimensions must be >= 0 and fit int32 (0 = model default)'')
      else case clientConfig env s of
        Inl err \<Rightarrow> Inl err
      | Inr cc \<Rightarrow>
          (if gs_autoTruncate s then
             (if gcc_Backend cc = BackendGeminiAPI
              then Inl (google_configErr ''WithAutoTruncate is Vertex-only; the Gemini API backend does not support it'')
              else Inr cc)
           else if gs_maxInputBytes s \<le> 0
             then Inl (google_configErr (''set WithMaxInputBytes (no-silent-truncation guard) or WithAutoTruncate(true): '' @
               ''genai cannot send autoTruncate:false, so without a client-side guard Vertex would silently truncate''))
           else Inr cc))"

definition google_NewEmbeddings ::
  "('tr genai_client_config \<Rightarrow> error + 'w google_embedding_client) \<Rightarrow> 'tr transport_env \<Rightarrow> 'tr google_option list \<Rightarrow>
     error + 'w google_embedding_client" where
  "google_NewEmbeddings api env opts =
     (let s = apply_options opts zero_google_settings in
      case embedConfig env s of
        Inl err \<Rightarrow> Inl err
      | Inr cc \<Rightarrow>
          (case api cc of
             Inl err \<Rightarrow> Inl (ProviderError ProviderGoogle [] ErrorKindConfig 0 ''genai client init failed'' 0 (Some err))
           | Inr c \<Rightarrow> Inr (c\<lparr>gec_model := gs_model s, gec_dims := gs_dims s, gec_autoTruncate := gs_autoTruncate s,
               gec_maxInputBytes := gs_maxInputBytes s\<rparr>)))"

end
