(* ===== verification/ConstructProps.thy ===== *)
theory ConstructProps
  imports Construct
begin

text \<open>
  What a built client is known to satisfy: a Google client has exactly one backend and an explicit endpoint, a Vertex
  client always has the caller's credentials, an Anthropic client on Vertex applies its options in
  the order that keeps them and lists no models, and a Google embedding client never lets an input be cut unasked.
\<close>

section \<open>Google\<close>

lemma defaultBaseURL_set [simp]: "google_defaultBaseURL backend location \<noteq> []"
  by (simp add: google_defaultBaseURL_def)

text \<open>The client the SDK is given for an injected one: authenticated on Vertex, as it is otherwise.\<close>

definition injected :: "'tr transport_env \<Rightarrow> 'tr genai_client_config \<Rightarrow> 'tr http_client \<Rightarrow> 'tr http_client \<Rightarrow> bool" where
  "injected env cc c hc \<longleftrightarrow>
     (if gcc_Backend cc = BackendVertexAI
      then \<exists>creds hdr t. gcc_Credentials cc = Some creds \<and>
        te_NewClient env creds (case hc_Transport c of None \<Rightarrow> te_Default env | Some t \<Rightarrow> t) hdr = Inr t \<and> hc = c\<lparr>hc_Transport := Some t\<rparr>
      else hc = c)"

lemma authorizeClient_Inr:
  assumes "authorizeClient env c creds = Inr hc"
  shows "\<exists>hdr t. te_NewClient env creds (case hc_Transport c of None \<Rightarrow> te_Default env | Some t \<Rightarrow> t) hdr = Inr t \<and> hc = c\<lparr>hc_Transport := Some t\<rparr>"
  using assms by (auto simp: authorizeClient_def Let_def split: sum.splits)

lemma applyTransport_Inr:
  assumes "applyTransport env s cc = Inr cc'" and "gcc_Backend cc = BackendVertexAI \<Longrightarrow> gcc_Credentials cc = Some creds" and "gcc_HTTPClient cc = None"
  shows "\<exists>hc. cc' = cc\<lparr>gcc_BaseURL := (if gs_baseURL s = [] then google_defaultBaseURL (gcc_Backend cc) (gcc_Location cc) else gs_baseURL s),
      gcc_HTTPClient := hc\<rparr> \<and>
    (case gs_httpClient s of None \<Rightarrow> hc = None | Some c \<Rightarrow> \<exists>hc'. hc = Some hc' \<and> injected env cc' c hc')"
proof (cases "gs_httpClient s")
  case None
  with assms show ?thesis by (auto simp: applyTransport_def Let_def)
next
  case (Some c)
  show ?thesis
  proof (cases "gcc_Backend cc = BackendVertexAI")
    case True
    with assms Some obtain hc where hc: "authorizeClient env c creds = Inr hc" "cc' = cc\<lparr>gcc_BaseURL := (if gs_baseURL s = [] then google_defaultBaseURL (gcc_Backend cc) (gcc_Location cc) else gs_baseURL s), gcc_HTTPClient := Some hc\<rparr>"
      by (auto simp: applyTransport_def Let_def split: sum.splits if_splits)
    with authorizeClient_Inr [OF hc(1)] assms(2) True Some show ?thesis by (auto simp: injected_def)
  next
    case False
    with assms Some show ?thesis by (auto simp: applyTransport_def Let_def injected_def split: if_splits)
  qed
qed

text \<open>
  C21: a Google client has exactly one backend: the Gemini API with its key and no credentials, or Vertex AI with a project,
  a location and credentials that can mint tokens and no key. Its endpoint is always explicit, the caller's if set,
  so no environment variable redirects traffic, and an injected HTTP client on Vertex is sent with the credentials.
\<close>

theorem google_backend_is_one:
  assumes "clientConfig env s = Inr cc"
  shows "(case gcc_Backend cc of
      BackendGeminiAPI \<Rightarrow> gcc_APIKey cc = gs_apiKey s \<and> gs_apiKey s \<noteq> [] \<and> \<not> gs_vertex s \<and> gcc_Credentials cc = None
    | BackendVertexAI \<Rightarrow> gcc_APIKey cc = [] \<and> gs_apiKey s = [] \<and> gcc_Project cc \<noteq> [] \<and> gcc_Location cc \<noteq> [] \<and>
        gcc_Credentials cc = gs_creds s \<and> (\<exists>creds. gs_creds s = Some creds \<and> cred_TokenProvider creds \<noteq> None)) \<and>
    gcc_BaseURL cc \<noteq> [] \<and> (gs_baseURL s \<noteq> [] \<longrightarrow> gcc_BaseURL cc = gs_baseURL s) \<and>
    (\<forall>c. gs_httpClient s = Some c \<longrightarrow> (\<exists>hc. gcc_HTTPClient cc = Some hc \<and> injected env cc c hc))"
proof -
  let ?cc = "\<lparr>gcc_Backend = BackendGeminiAPI, gcc_APIKey = [], gcc_Project = [], gcc_Location = [], gcc_Credentials = None,
    gcc_BaseURL = [], gcc_HTTPClient = None\<rparr>"
  from assms consider
      (gemini) "gs_apiKey s \<noteq> []" "\<not> gs_vertex s" "applyTransport env s (?cc\<lparr>gcc_APIKey := gs_apiKey s\<rparr>) = Inr cc"
    | (vertex) creds where "gs_apiKey s = []" "gs_project s \<noteq> []" "gs_location s \<noteq> []" "gs_creds s = Some creds" "cred_TokenProvider creds \<noteq> None"
        "applyTransport env s (?cc\<lparr>gcc_Backend := BackendVertexAI, gcc_Project := gs_project s, gcc_Location := gs_location s,
           gcc_Credentials := Some creds\<rparr>) = Inr cc"
    by (auto simp: clientConfig_def Let_def split: if_splits option.splits)
  then show ?thesis
  proof cases
    case gemini
    from applyTransport_Inr [OF gemini(3)] gemini(1,2) show ?thesis by (auto split: option.splits)
  next
    case vertex
    from applyTransport_Inr [OF vertex(6), of creds] vertex(1-5) show ?thesis by (auto split: option.splits)
  qed
qed

lemma oversized_Some: "(\<exists>inp \<in> set inps. int (length (ei_Text inp)) > limit) \<longleftrightarrow> oversized limit i inps \<noteq> None"
  by (induction inps arbitrary: i) (auto simp: Let_def)

text \<open>
  no embedding input is cut silently: a client that \<open>NewEmbeddings\<close> builds either asks for truncation on Vertex,
  where its options say so, or it has a positive byte limit and rejects every request with a longer input
  as the caller's error, without a call, whatever the server would do.
\<close>

theorem google_embeddings_never_cut:
  assumes "google_NewEmbeddings api env opts = Inr c"
  shows "gec_autoTruncate c = gs_autoTruncate (apply_options opts zero_google_settings) \<and>
    (gec_autoTruncate c \<longrightarrow> (\<exists>cc. clientConfig env (apply_options opts zero_google_settings) = Inr cc \<and> gcc_Backend cc = BackendVertexAI)) \<and>
    (\<not> gec_autoTruncate c \<longrightarrow> gec_maxInputBytes c > 0 \<and>
      (\<forall>ctx req w. (\<exists>inp \<in> set (er_Inputs req). int (length (ei_Text inp)) > gec_maxInputBytes c) \<longrightarrow>
        (\<exists>msg. google_Embed c ctx req w = ((zero_embedding_response, Some (google_badRequest (gec_model c) msg)), w))))"
proof -
  let ?s = "apply_options opts zero_google_settings"
  obtain cc c0 where cc: "embedConfig env ?s = Inr cc" and c: "c = c0\<lparr>gec_model := gs_model ?s, gec_dims := gs_dims ?s,
      gec_autoTruncate := gs_autoTruncate ?s, gec_maxInputBytes := gs_maxInputBytes ?s\<rparr>"
    using assms by (auto simp: google_NewEmbeddings_def Let_def split: sum.splits)
  from cc have cfg: "clientConfig env ?s = Inr cc" "if gs_autoTruncate ?s then gcc_Backend cc = BackendVertexAI else gs_maxInputBytes ?s > 0"
    by (auto simp: embedConfig_def split: if_splits sum.splits intro: genai_backend.exhaust [of "gcc_Backend cc"])
  have reject: "\<exists>msg. google_Embed c ctx req w = ((zero_embedding_response, Some (google_badRequest (gec_model c) msg)), w)"
    if long: "\<exists>inp \<in> set (er_Inputs req). int (length (ei_Text inp)) > gec_maxInputBytes c" and cut: "\<not> gec_autoTruncate c" for ctx req w
  proof -
    from long obtain i n where "oversized (gec_maxInputBytes c) 0 (er_Inputs req) = Some (i, n)" by (auto simp: oversized_Some [of _ _ 0])
    with cut show ?thesis by (auto simp: google_Embed_def Let_def)
  qed
  show ?thesis using cfg c reject by auto
qed

section \<open>Anthropic on Vertex AI\<close>

lemma take_markers_eq:
  "take_markers noListing reqExtra os =
     ((case rev (List.map_filter NoModelListingBackend os) of [] \<Rightarrow> noListing | name # _ \<Rightarrow> name),
      reqExtra @ filter (\<lambda>o'. NoModelListingBackend o' = None) os)"
  by (induction os arbitrary: noListing reqExtra)
    (auto simp: List.map_filter_simps split: option.split list.split)

text \<open>
  C22: an Anthropic client on Vertex hands the SDK its options in the order the Vertex option needs: no environment defaults,
  no API key, a caller's HTTP client before the credentials that wrap it and a caller's base URL after them; the marker
  never reaches the SDK, and listing models fails without a request.
\<close>

theorem vertex_options_in_order:
  assumes "vertex_New api opts = Inr c"
  shows "\<exists>s creds pre post. s = apply_options opts zero_vertex_settings \<and> vs_creds s = Some creds \<and> cred_TokenProvider creds \<noteq> None \<and>
    c = (api ([WithoutEnvironmentDefaults, MaxRetriesOption 0] @ pre @ VertexCredentials (vs_location s) (vs_project s) creds # post))
      \<lparr>an_model := vs_model s, an_noListing := ''Vertex AI''\<rparr> \<and>
    pre = (case vs_httpClient s of None \<Rightarrow> [] | Some hc \<Rightarrow> [HTTPClientOption hc]) \<and>
    post = (if vs_baseURL s \<noteq> [] then [BaseURLOption (vs_baseURL s)] else []) \<and>
    (\<exists>e. anthropic_ListModels c ctx w = (([], Some e), w) \<and> pe_Kind e = ErrorKindConfig)"
proof -
  let ?s = "apply_options opts zero_vertex_settings"
  obtain creds where creds: "vs_creds ?s = Some creds" "cred_TokenProvider creds \<noteq> None" "vs_model ?s \<noteq> []"
    and new: "anthropic_New api [anthropic_WithModel (vs_model ?s), anthropic_WithRequestOptions (vertex_request_options ?s creds)] = Inr c"
    using assms by (auto simp: vertex_New_def Let_def split: if_splits option.splits)
  have "take_markers [] [] (vertex_request_options ?s creds) =
      (''Vertex AI'', (case vs_httpClient ?s of None \<Rightarrow> [] | Some hc \<Rightarrow> [HTTPClientOption hc]) @
        VertexCredentials (vs_location ?s) (vs_project ?s) creds # (if vs_baseURL ?s \<noteq> [] then [BaseURLOption (vs_baseURL ?s)] else []))"
    by (simp add: take_markers_eq vertex_request_options_def NoModelListingBackend_def List.map_filter_simps split: option.split)
  with new creds have "c = (api ([WithoutEnvironmentDefaults, MaxRetriesOption 0] @
      (case vs_httpClient ?s of None \<Rightarrow> [] | Some hc \<Rightarrow> [HTTPClientOption hc]) @
        VertexCredentials (vs_location ?s) (vs_project ?s) creds # (if vs_baseURL ?s \<noteq> [] then [BaseURLOption (vs_baseURL ?s)] else [])))
      \<lparr>an_model := vs_model ?s, an_noListing := ''Vertex AI''\<rparr>"
    by (simp add: anthropic_New_def apply_options_def anthropic_WithModel_def anthropic_WithRequestOptions_def zero_anthropic_settings_def
      anthropic_request_options_def retries_of_def)
  with creds show ?thesis by (auto simp: anthropic_ListModels_def)
qed

section \<open>Witnesses\<close>

definition demo_creds :: credentials where
  "demo_creds = \<lparr>cred_TokenProvider = Some 1, cred_Quota = Inr ''billing''\<rparr>"

definition demo_transport :: "nat transport_env" where
  "demo_transport = \<lparr>te_NewClient = (\<lambda>creds t hdr. Inr (Suc t)), te_Default = 0\<rparr>"

definition demo_settings :: "nat google_settings" where
  "demo_settings = zero_google_settings\<lparr>gs_model := ''gemini'', gs_vertex := True, gs_project := ''p'', gs_location := ''eu'',
     gs_creds := Some demo_creds, gs_httpClient := Some \<lparr>hc_Transport = None, hc_Rest = 7\<rparr>\<rparr>"

theorem google_backend_is_one_witness:
  "\<exists>cc. clientConfig demo_transport demo_settings = Inr cc \<and> gcc_Backend cc = BackendVertexAI \<and>
     gcc_BaseURL cc = ''https://aiplatform.eu.rep.googleapis.com/'' \<and> gcc_Credentials cc = Some demo_creds \<and>
     (\<exists>hc. gcc_HTTPClient cc = Some hc \<and> injected demo_transport cc \<lparr>hc_Transport = None, hc_Rest = 7\<rparr> hc)"
proof -
  have cc: "clientConfig demo_transport demo_settings = Inr \<lparr>gcc_Backend = BackendVertexAI, gcc_APIKey = [], gcc_Project = ''p'', gcc_Location = ''eu'',
      gcc_Credentials = Some demo_creds, gcc_BaseURL = ''https://aiplatform.eu.rep.googleapis.com/'',
      gcc_HTTPClient = Some \<lparr>hc_Transport = Some 1, hc_Rest = 7\<rparr>\<rparr>"
    by (simp add: clientConfig_def demo_settings_def zero_google_settings_def demo_creds_def applyTransport_def google_defaultBaseURL_def
      authorizeClient_def demo_transport_def)
  from google_backend_is_one [OF cc] cc show ?thesis by (simp add: demo_settings_def zero_google_settings_def)
qed

definition demo_embedder :: "nat google_embedding_client" where
  "demo_embedder = \<lparr>gec_EmbedContent = (\<lambda>ctx model contents cfg w. (Inr [], Suc w)), gec_model = [], gec_dims = 0, gec_autoTruncate = False,
     gec_maxInputBytes = 0, gec_errors = \<lparr>gv_sdk_error = (\<lambda>e. None), gv_err_text = (\<lambda>e. []), gv_http_date = (\<lambda>s. None), gv_now = 0\<rparr>,
     gec_raw = (\<lambda>embs. JNull)\<rparr>"

definition demo_embedding_options :: "nat google_option list" where
  "demo_embedding_options = [google_WithAPIKey ''k'', google_WithModel ''m'', google_WithMaxInputBytes 3]"

definition demo_embedding_request :: embedding_request where
  "demo_embedding_request = \<lparr>er_Inputs = [\<lparr>ei_ID = ''a'', ei_Text = ''long'', ei_Title = []\<rparr>], er_Purpose = [], er_Dimensions = 0,
     er_Task = [], er_Metadata = Map.empty\<rparr>"

theorem google_embeddings_never_cut_witness:
  "\<exists>c. google_NewEmbeddings (\<lambda>cc. Inr demo_embedder) demo_transport demo_embedding_options = Inr c \<and>
     (\<exists>msg. google_Embed c background demo_embedding_request 5 = ((zero_embedding_response, Some (google_badRequest ''m'' msg)), 5))"
proof -
  have new: "google_NewEmbeddings (\<lambda>cc. Inr demo_embedder) demo_transport demo_embedding_options = Inr (demo_embedder\<lparr>gec_model := ''m'', gec_maxInputBytes := 3\<rparr>)"
    by (simp add: google_NewEmbeddings_def demo_embedding_options_def apply_options_def zero_google_settings_def google_WithAPIKey_def
      google_WithModel_def google_WithMaxInputBytes_def embedConfig_def clientConfig_def applyTransport_def MaxInt32_def demo_embedder_def)
  have "\<exists>inp \<in> set (er_Inputs demo_embedding_request). int (length (ei_Text inp)) > 3" by (simp add: demo_embedding_request_def)
  with google_embeddings_never_cut [OF new] new show ?thesis by (simp add: demo_embedder_def)
qed

definition demo_vertex_options :: "nat vertex_option list" where
  "demo_vertex_options = [vertex_WithVertex ''p'' ''global'', vertex_WithModel ''claude'', vertex_WithCredentials (Some demo_creds)]"

definition demo_catalog_client :: "nat anthropic_catalog" where
  "demo_catalog_client = \<lparr>an_Messages_New = (\<lambda>ctx p extra w. (Inl json_error, w)), an_model = [], an_noListing = [],
     an_errors = \<lparr>ee_sdk_error = (\<lambda>e. None), ee_err_text = (\<lambda>e. []), ee_http_date = (\<lambda>s. None), ee_now = 0\<rparr>, an_raw = (\<lambda>m. JNull),
     an_Models_All = (\<lambda>ctx w. (([], None), Suc w))\<rparr>"

theorem vertex_options_in_order_witness:
  "\<exists>c. vertex_New (\<lambda>os. demo_catalog_client) demo_vertex_options = Inr c \<and>
     (\<exists>e. anthropic_ListModels c background 5 = (([], Some e), 5) \<and> pe_Kind e = ErrorKindConfig)"
proof -
  have new: "vertex_New (\<lambda>os. demo_catalog_client) demo_vertex_options = Inr (demo_catalog_client\<lparr>an_model := ''claude'', an_noListing := ''Vertex AI''\<rparr>)"
    by (simp add: vertex_New_def demo_vertex_options_def apply_options_def zero_vertex_settings_def vertex_WithVertex_def vertex_WithModel_def
      vertex_WithCredentials_def demo_creds_def anthropic_New_def anthropic_WithModel_def anthropic_WithRequestOptions_def
      zero_anthropic_settings_def vertex_request_options_def NoModelListingBackend_def)
  from vertex_options_in_order [OF new] new show ?thesis by blast
qed

end
