(* ===== verification/AdapterLaws.thy ===== *)
theory AdapterLaws
  imports ConstructProps
begin

text \<open>
  What holds for the five chat adapters alike: a request that does not convert is refused as the caller's fault without
  a call, an answer mirrors its tool calls, and the counts of an answer's usage fit together.
\<close>

section \<open>Requests and answers\<close>

text \<open>A refusal: no response, an error that is not retried, and nothing sent.\<close>

definition refused :: "((chat_response \<times> error option) \<times> 'w) option \<Rightarrow> 'w \<Rightarrow> bool" where
  "refused out w \<longleftrightarrow> (\<exists>e. out = Some ((zero_response, Some e), w) \<and> pe_Kind e = ErrorKindBadRequest \<and> \<not> Retryable (Some e))"

lemma refusedI: "\<exists>e. out = Some ((zero_response, Some e), w) \<and> pe_Kind e = ErrorKindBadRequest \<and> \<not> Retryable (Some e) \<Longrightarrow> refused out w"
  by (simp add: refused_def)

text \<open>
  C15: no adapter sends a request it cannot convert: whatever the transport would do, such a call returns no response and an
  error of kind bad_request, which the retry middleware does not repeat, and no state outside changes.
\<close>

theorem unconvertible_never_sent:
  "(anthropic_toParams (an_model a) req = Inl e1 \<longrightarrow> refused (Some (anthropic_Complete a ctx req w)) w) \<and>
   (openai_toParams (oa_model b) req = Some (Inl e2) \<longrightarrow> refused (openai_Complete b ctx req w) w) \<and>
   (compat_toParams (oc_model c) req = Inl e3 \<longrightarrow> refused (Some (compat_Complete c ctx req w)) w) \<and>
   (toWire (ol_float_text d) (ol_model d) req = Inl e4 \<longrightarrow> refused (Some (ollama_Complete d ctx req w)) w) \<and>
   (google_toParams (gg_number_text g) (gg_model g) req = Some (Inl e5) \<longrightarrow> refused (google_Complete g ctx req w) w)"
  using anthropic.unconvertible_not_sent [of a req e1 ctx w] openai.unconvertible_not_sent [of b req e2 ctx w]
    compat.unconvertible_not_sent [of c req e3 ctx w] ollama.unconvertible_not_sent [of d req e4 ctx w]
    google.unconvertible_not_sent [of g req e5 ctx w]
  by (intro conjI impI refusedI) simp_all

definition well_answered :: "chat_response \<Rightarrow> error option \<Rightarrow> bool" where
  "well_answered r x \<longleftrightarrow> (case x of None \<Rightarrow> mirrors r | Some _ \<Rightarrow> r = zero_response)"

context chat_adapter
begin

lemma complete_well_answered: "complete c req w = Some ((r, x), w') \<Longrightarrow> well_answered r x"
  by (cases x) (auto simp: well_answered_def dest: answered_mirrors error_no_response)

end

text \<open>
  an answer without an error has the role of the assistant and lists in \<open>ToolCalls\<close> exactly the tool calls of its message,
  in order, whichever adapter made it; with an error there is no response.
\<close>

theorem answers_mirror_their_calls:
  "case_prod well_answered (fst (anthropic_Complete a ctx req w)) \<and>
   (case openai_Complete b ctx req w of None \<Rightarrow> True | Some (out, _) \<Rightarrow> case_prod well_answered out) \<and>
   case_prod well_answered (fst (compat_Complete c ctx req w)) \<and>
   case_prod well_answered (fst (ollama_Complete d ctx req w)) \<and>
   (case google_Complete g ctx req w of None \<Rightarrow> True | Some (out, _) \<Rightarrow> case_prod well_answered out)"
  using anthropic.complete_well_answered [of a ctx req w] openai.complete_well_answered [of b ctx req w]
    compat.complete_well_answered [of c ctx req w] ollama.complete_well_answered [of d ctx req w]
    google.complete_well_answered [of g ctx req w]
  by (cases "anthropic_Complete a ctx req w", cases "compat_Complete c ctx req w", cases "ollama_Complete d ctx req w")
    (auto split: option.split)

section \<open>Usage\<close>

text \<open>The output splits into visible and reasoning tokens, the cached tokens are part of the input.\<close>

definition cache_fits :: "usage \<Rightarrow> bool" where
  "cache_fits u \<longleftrightarrow>
     0 \<le> u_CacheReadTokens u \<and> 0 \<le> u_CacheWriteTokens u \<and> u_CacheReadTokens u + u_CacheWriteTokens u \<le> max (u_InputTokens u) 0"

definition usage_fits :: "usage \<Rightarrow> bool" where
  "usage_fits u \<longleftrightarrow> u_OutputTokens u + u_ReasoningTokens u = u_BillableOutputTokens u \<and> cache_fits u"

lemma clamp_exact: "in_int64 b \<Longrightarrow> go_sub b (min (max r 0) b) + min (max r 0) b = b"
  by (subst go_sub_exact) (auto simp: in_int64_def MinInt_def MaxInt_def min_def max_def)

lemma anthropic_usage_fits:
  assumes "in_int64 (aus_OutputTokens (am_Usage msg))"
    and "in_int64 (max (aus_InputTokens (am_Usage msg)) 0 + max (aus_CacheReadInputTokens (am_Usage msg)) 0 +
        max (aus_CacheCreationInputTokens (am_Usage msg)) 0)"
  shows "usage_fits (anthropic_buildUsage msg)"
proof -
  let ?u = "am_Usage msg"
  have half: "in_int64 (max (aus_InputTokens ?u) 0 + max (aus_CacheReadInputTokens ?u) 0)"
    using assms(2) by (auto simp: in_int64_def MinInt_def)
  have "go_add (go_add (max (aus_InputTokens ?u) 0) (max (aus_CacheReadInputTokens ?u) 0)) (max (aus_CacheCreationInputTokens ?u) 0) =
      max (aus_InputTokens ?u) 0 + max (aus_CacheReadInputTokens ?u) 0 + max (aus_CacheCreationInputTokens ?u) 0"
    using half assms(2) by (simp add: go_add_exact)
  with clamp_exact [OF assms(1)] show ?thesis
    by (auto simp: usage_fits_def cache_fits_def anthropic_buildUsage_def Let_def zero_usage_def split: option.split)
qed

lemma compat_usage_fits:
  assumes "in_int64 (cus_CompletionTokens (cc_Usage resp))" and "in_int64 (cus_PromptTokens (cc_Usage resp))"
  shows "usage_fits (compat_buildUsage resp)"
proof -
  obtain r w where "CacheSplit (cus_PromptTokens (cc_Usage resp)) (cus_CachedTokens (cc_Usage resp)) (cacheWriteTokens (cc_Usage resp)) = (r, w)"
    by fastforce
  with CacheSplit_bounds [OF assms(2) this] clamp_exact [OF assms(1)] show ?thesis
    by (simp add: usage_fits_def cache_fits_def compat_buildUsage_def Let_def)
qed

lemma google_usage_fits:
  assumes "\<And>u. gr_UsageMetadata result = Some u \<Longrightarrow> in_int64 (gu_PromptTokenCount u) \<and> in_int64 (gu_CandidatesTokenCount u + gu_ThoughtsTokenCount u)"
  shows "usage_fits (google_usage result)"
proof (cases "gr_UsageMetadata result")
  case (Some u)
  obtain r w where "CacheSplit (gu_PromptTokenCount u) (gu_CachedContentTokenCount u) 0 = (r, w)" by fastforce
  with CacheSplit_bounds [OF _ this] assms [OF Some] Some show ?thesis
    by (simp add: usage_fits_def cache_fits_def google_usage_def Let_def go_add_exact zero_usage_def)
qed (simp add: usage_fits_def cache_fits_def google_usage_def zero_usage_def)

lemma ollama_usage_fits: "usage_fits (rsp_Usage (ollama_toChatResponse raw resp))"
  by (simp add: usage_fits_def cache_fits_def ollama_toChatResponse_def Let_def zero_usage_def)

text \<open>The OpenAI adapter clamps the visible count only.\<close>

lemma openai_usage:
  assumes "in_int64 (ous_InputTokens (or_Usage resp))" and "in_int64 (ous_OutputTokens (or_Usage resp) - ous_ReasoningTokens (or_Usage resp))"
  shows "cache_fits (toChatUsage resp) \<and>
    u_OutputTokens (toChatUsage resp) + u_ReasoningTokens (toChatUsage resp) =
      max (u_BillableOutputTokens (toChatUsage resp)) (ous_ReasoningTokens (or_Usage resp))"
proof -
  obtain r w where "CacheSplit (ous_InputTokens (or_Usage resp)) (ous_CachedTokens (or_Usage resp)) (ous_CacheWriteTokens (or_Usage resp)) = (r, w)"
    by fastforce
  with CacheSplit_bounds [OF assms(1) this] go_sub_exact [OF assms(2)] show ?thesis
    by (auto simp: cache_fits_def toChatUsage_def Let_def)
qed

text \<open>
  C16: what the usage of an answer adds up to, whatever the server reports, as long as the sums the adapters form stay in the
  range of Go's \<open>int\<close>. For the Anthropic, OpenAI-compatible, Google and Ollama adapters visible and reasoning output make the
  billable output, and the cached tokens are a part of the input. For the OpenAI adapter the cached tokens are a part of the input
  too, but the two outputs add up to the larger of the billable output and the reported reasoning: they make the billable output
  exactly when the server reports no more reasoning than output tokens.
\<close>

theorem usage_adds_up:
  assumes "in_int64 (aus_OutputTokens (am_Usage msg))"
    and "in_int64 (max (aus_InputTokens (am_Usage msg)) 0 + max (aus_CacheReadInputTokens (am_Usage msg)) 0 +
        max (aus_CacheCreationInputTokens (am_Usage msg)) 0)"
    and "in_int64 (cus_CompletionTokens (cc_Usage cmpl))" and "in_int64 (cus_PromptTokens (cc_Usage cmpl))"
    and "\<forall>u. gr_UsageMetadata result = Some u \<longrightarrow>
        in_int64 (gu_PromptTokenCount u) \<and> in_int64 (gu_CandidatesTokenCount u + gu_ThoughtsTokenCount u)"
    and "in_int64 (ous_InputTokens (or_Usage resp))" and "in_int64 (ous_OutputTokens (or_Usage resp) - ous_ReasoningTokens (or_Usage resp))"
  shows "usage_fits (anthropic_buildUsage msg) \<and> usage_fits (compat_buildUsage cmpl) \<and> usage_fits (google_usage result) \<and>
    usage_fits (rsp_Usage (ollama_toChatResponse raw wire)) \<and> cache_fits (toChatUsage resp) \<and>
    (usage_fits (toChatUsage resp) \<longleftrightarrow> ous_ReasoningTokens (or_Usage resp) \<le> ous_OutputTokens (or_Usage resp))"
proof -
  have "u_BillableOutputTokens (toChatUsage resp) = ous_OutputTokens (or_Usage resp)"
    by (simp add: toChatUsage_def Let_def split: prod.split)
  then have "cache_fits (toChatUsage resp) \<and>
      (usage_fits (toChatUsage resp) \<longleftrightarrow> ous_ReasoningTokens (or_Usage resp) \<le> ous_OutputTokens (or_Usage resp))"
    using openai_usage [OF assms(6,7)] by (auto simp: usage_fits_def)
  with assms(1-5) anthropic_usage_fits [of msg] compat_usage_fits [of cmpl] google_usage_fits [of result]
    ollama_usage_fits [of raw wire] show ?thesis by blast
qed

text \<open>A response that reports more reasoning than output tokens has a split larger than what is billed.\<close>

theorem openai_usage_exceeds_billable:
  "u_OutputTokens (toChatUsage demo_response) + u_ReasoningTokens (toChatUsage demo_response) > u_BillableOutputTokens (toChatUsage demo_response)"
proof -
  have "CacheSplit 10 0 0 = (0, 0)" by (simp add: CacheSplit_def Let_def go_sub_exact in_int64_def MinInt_def MaxInt_def)
  moreover have "go_sub 80 82 = - 2" by (simp add: go_sub_exact in_int64_def MinInt_def MaxInt_def)
  ultimately show ?thesis by (simp add: toChatUsage_def demo_response_def zero_usage_def Let_def)
qed

section \<open>Witnesses\<close>

lemma empty_request_unconvertible:
  "anthropic_toParams model zero_request = Inl (anthropic_badRequest model ''request has no messages'')"
  "openai_toParams model zero_request = Some (Inl (chatBadRequest model ''request has no messages''))"
  "compat_toParams model zero_request = Inl (compat_badRequest model ''request has no messages'')"
  "toWire float_text model zero_request = Inl (ollama_badRequest model ''request has no messages'')"
  "google_toParams num model zero_request = Some (Inl (google_badRequest model ''request has no messages''))"
  by (simp_all add: zero_request_def ReasoningFrom_eq
    anthropic_toParams_def anthropic_systemText_def anthropic_buildMessages_def Let_def
    openai_toParams_def openai_systemText_def buildInput_def compat_toParams_def compat_systemText_def compat_buildMessages_def
    toWire_def ollama_systemText_def google_toParams_def google_systemText_def buildContents_def)

theorem unconvertible_never_sent_witness:
  "\<forall>a b c d g ctx (w :: nat).
     refused (Some (anthropic_Complete a ctx zero_request w)) w \<and> refused (openai_Complete b ctx zero_request w) w \<and>
     refused (Some (compat_Complete c ctx zero_request w)) w \<and> refused (Some (ollama_Complete d ctx zero_request w)) w \<and>
     refused (google_Complete g ctx zero_request w) w"
proof (intro allI)
  fix a b c d g ctx and w :: nat
  show "refused (Some (anthropic_Complete a ctx zero_request w)) w \<and> refused (openai_Complete b ctx zero_request w) w \<and>
     refused (Some (compat_Complete c ctx zero_request w)) w \<and> refused (Some (ollama_Complete d ctx zero_request w)) w \<and>
     refused (google_Complete g ctx zero_request w) w"
    using unconvertible_never_sent [of a zero_request _ ctx w b _ c _ d _ g] empty_request_unconvertible by auto
qed

text \<open>More reasoning and more cached tokens than the totals they are part of.\<close>

definition demo_usage_message :: anthropic_message where
  "demo_usage_message = demo_answer\<lparr>am_Usage := \<lparr>aus_InputTokens = 12, aus_OutputTokens = 30, aus_CacheReadInputTokens = 5,
     aus_CacheCreationInputTokens = -1, aus_ThinkingTokens = Some 40\<rparr>\<rparr>"

definition demo_usage_completion :: completion where
  "demo_usage_completion = \<lparr>cc_ID = ''c1'', cc_Choices = [], cc_Usage = \<lparr>cus_PromptTokens = 10, cus_CompletionTokens = 3, cus_TotalTokens = 13,
     cus_ReasoningTokens = 9, cus_CachedTokens = 20, cus_CacheWriteTokens = Some 7, cus_CreatedCacheTokens = None\<rparr>\<rparr>"

definition demo_usage_gemini :: genai_usage where
  "demo_usage_gemini = \<lparr>gu_PromptTokenCount = 10, gu_CandidatesTokenCount = 3, gu_ThoughtsTokenCount = 9, gu_CachedContentTokenCount = 20, gu_TotalTokenCount = 22\<rparr>"

theorem usage_adds_up_witness:
  "u_OutputTokens (anthropic_buildUsage demo_usage_message) + u_ReasoningTokens (anthropic_buildUsage demo_usage_message) = 30 \<and>
   usage_fits (compat_buildUsage demo_usage_completion) \<and> usage_fits (google_usage (demo_gemini\<lparr>gr_UsageMetadata := Some demo_usage_gemini\<rparr>)) \<and>
   \<not> usage_fits (toChatUsage demo_response)"
proof -
  have "u_BillableOutputTokens (anthropic_buildUsage demo_usage_message) = 30"
    by (simp add: anthropic_buildUsage_def demo_usage_message_def Let_def)
  moreover have "usage_fits (anthropic_buildUsage demo_usage_message) \<and> usage_fits (compat_buildUsage demo_usage_completion) \<and>
      usage_fits (google_usage (demo_gemini\<lparr>gr_UsageMetadata := Some demo_usage_gemini\<rparr>)) \<and>
      usage_fits (rsp_Usage (ollama_toChatResponse (\<lambda>_. JNull) zero_wireResponse)) \<and> cache_fits (toChatUsage demo_response) \<and>
      (usage_fits (toChatUsage demo_response) \<longleftrightarrow> ous_ReasoningTokens (or_Usage demo_response) \<le> ous_OutputTokens (or_Usage demo_response))"
    by (rule usage_adds_up)
      (simp_all add: demo_usage_message_def demo_usage_completion_def demo_usage_gemini_def demo_response_def
        in_int64_def MinInt_def MaxInt_def)
  moreover have "\<not> ous_ReasoningTokens (or_Usage demo_response) \<le> ous_OutputTokens (or_Usage demo_response)"
    by (simp add: demo_response_def)
  ultimately show ?thesis using usage_fits_def by metis
qed

end
