(* ===== verification/HttpMerge.thy ===== *)
theory HttpMerge
  imports ExtraParams
begin

text \<open>
  The HTTP middleware of \<open>llms/providers/internal/extraparams\<close>, through which the SDK adapters merge \<open>ProviderParams\<close> into
  the request they send. A body is a reader: its bytes and how reading it ends; a nil body and \<open>http.NoBody\<close> are \<open>None\<close>.
  \<open>next\<close> is the rest of the SDK's chain, acting on a world.
\<close>

record http_message =
  hm_Body :: "(string \<times> error option) option"
  hm_ContentLength :: int
  hm_GetBody :: "string option"

definition extraparams_Middleware :: "(string \<times> json) list \<Rightarrow> http_message \<Rightarrow> (http_message \<Rightarrow> 'w \<Rightarrow> ('r option \<times> error option) \<times> 'w) \<Rightarrow>
    'w \<Rightarrow> ('r option \<times> error option) \<times> 'w" where
  "extraparams_Middleware src r nxt w =
     (case hm_Body r of
        None \<Rightarrow> nxt r w
      | Some (body, err) \<Rightarrow>
          (case err of
             Some err \<Rightarrow> ((None, Some (Wrapped ''reading request body'' [err])), w)
           | None \<Rightarrow>
               (case MergeJSON body src of
                  Inl err \<Rightarrow> ((None, Some err), w)
                | Inr merged \<Rightarrow>
                    nxt (r\<lparr>hm_Body := Some (merged, None), hm_ContentLength := int (length merged),
                           hm_GetBody := Some merged\<rparr>) w)))"

section \<open>Merging twice\<close>

lemma map_of_sorted_unique:
  fixes a b :: "(string \<times> json) list"
  assumes "sorted_keys a" "sorted_keys b" "map_of a = map_of b"
  shows "a = b"
proof -
  have d: "distinct (map fst a)" "distinct (map fst b)" using assms by (simp_all add: sorted_keys_distinct)
  then have s: "set a = set b" using assms(3) by (simp add: map_of_inject_set)
  moreover have "sorted (map fst a)" "sorted (map fst b)" using assms(1,2) by (auto simp: sorted_keys_def strict_sorted_iff)
  ultimately show ?thesis using d by (intro map_sorted_distinct_set_unique [of fst]) (auto simp: distinct_map)
qed

lemma Merge_self: "canonical v \<Longrightarrow> merge_value (Some v) v = v"
proof (induction v)
  case (JObj m)
  have s: "sorted_keys m" using JObj.prems by simp
  have "map_of (Merge m m) k = map_of m k" for k
  proof (cases "map_of m k")
    case (Some v)
    with JObj.IH [of "(k, v)" v] canonical_member [OF JObj.prems] have "merge_value (Some v) v = v"
      by (auto dest: map_of_SomeD)
    with Some show ?thesis by (simp add: map_of_Merge [OF sorted_keys_distinct [OF s]])
  qed (simp add: map_of_Merge [OF sorted_keys_distinct [OF s]])
  then have "map_of (Merge m m) = map_of m" by blast
  with s have "Merge m m = m" by (intro map_of_sorted_unique Merge_sorted)
  then show ?case by simp
qed simp_all

lemma merge_value_twice:
  "canonical v \<Longrightarrow> (\<And>j. d = Some j \<Longrightarrow> canonical j) \<Longrightarrow> merge_value (Some (merge_value d v)) v = merge_value d v"
proof (induction v arbitrary: d)
  case (JObj m)
  show ?case
  proof (cases "\<exists>dv. d = Some (JObj dv)")
    case True
    then obtain dv where d: "d = Some (JObj dv)" by blast
    have dv: "canonical (JObj dv)" using JObj.prems(2) [OF d] .
    have m: "distinct (map fst m)" using JObj.prems(1) by (simp add: sorted_keys_distinct)
    have "map_of (Merge (Merge dv m) m) k = map_of (Merge dv m) k" for k
    proof (cases "map_of m k")
      case (Some v)
      have "merge_value (Some (merge_value (map_of dv k) v)) v = merge_value (map_of dv k) v"
      proof (rule JObj.IH)
        show "(k, v) \<in> set m" using Some by (rule map_of_SomeD)
        show "canonical v" using JObj.prems(1) Some by (rule canonical_member)
        show "canonical j" if "map_of dv k = Some j" for j using dv that by (rule canonical_member)
      qed simp
      with Some show ?thesis by (simp add: map_of_Merge [OF m])
    qed (simp add: map_of_Merge [OF m])
    then have "map_of (Merge (Merge dv m) m) = map_of (Merge dv m)" by blast
    with dv have "Merge (Merge dv m) m = Merge dv m" by (intro map_of_sorted_unique Merge_sorted) simp_all
    then show ?thesis by (simp add: d)
  next
    case False
    then have "merge_value d (JObj m) = JObj m" by (simp add: merge_value_def split: option.split json.split)
    with Merge_self [OF JObj.prems(1)] show ?thesis by simp
  qed
qed simp_all

lemma Merge_twice: "json_map dst \<Longrightarrow> json_map src \<Longrightarrow> Merge (Merge dst src) src = Merge dst src"
  using merge_value_twice [of "JObj src" "Some (JObj dst)"] by (simp add: json_map_def)

lemma MergeJSON_encoded: "json_map body \<Longrightarrow> MergeJSON (encode_json html (JObj body)) src = Inr (encode_json False (JObj (Merge body src)))"
  by (simp only: MergeJSON_def decode_json_map option.case)

text \<open>
  A request body that an SDK has encoded is merged, with its length and the copy for a resend kept in step; a middleware that
  meets its own output again, as on a retry of the merged request, sends the very same bytes.
\<close>

theorem merged_request_is_stable:
  assumes "json_map body" and "json_map params" and "hm_Body r = Some (encode_json html (JObj body), None)"
  shows "\<exists>r'. extraparams_Middleware params r nxt w = nxt r' w \<and>
    hm_Body r' = Some (encode_json False (JObj (Merge body params)), None) \<and>
    hm_GetBody r' = map_option fst (hm_Body r') \<and> hm_ContentLength r' = int (length (the (hm_GetBody r'))) \<and>
    extraparams_Middleware params r' nxt w = nxt r' w"
proof -
  note once = MergeJSON_encoded [OF assms(1)] and twice = MergeJSON_encoded [OF json_map_Merge [OF assms(1,2)]]
  let ?out = "encode_json False (JObj (Merge body params))"
  let ?r = "r\<lparr>hm_Body := Some (?out, None), hm_ContentLength := int (length ?out), hm_GetBody := Some ?out\<rparr>"
  show ?thesis
  proof (intro exI [of _ ?r] conjI)
    show "extraparams_Middleware params r nxt w = nxt ?r w"
      by (simp add: extraparams_Middleware_def assms(3) once del: encode_json.simps)
    show "extraparams_Middleware params ?r nxt w = nxt ?r w"
      by (simp add: extraparams_Middleware_def twice Merge_twice [OF assms(1,2)] del: encode_json.simps)
  qed (simp_all del: encode_json.simps)
qed

text \<open>Nothing is sent when the body cannot be read or is no JSON object.\<close>

theorem unmergeable_request_never_sent:
  assumes "hm_Body r = Some (body, err)" and "err \<noteq> None \<or> decode_first body = None"
  shows "\<exists>x. extraparams_Middleware params r nxt w = ((None, Some x), w)"
  using assms by (auto simp: extraparams_Middleware_def MergeJSON_def split: option.split)

end
