(* ===== verification/Portable.thy ===== *)
theory Portable
  imports CompactRender ToolLoopDemo AdapterLaws "HOL-Library.Sublist"
begin

text \<open>
  The parts of the module together: a conversation that a tool loop has had with one provider can be continued with
  another. The first part shows that a run keeps what holds of every single message, the second
  that the conversions of all five providers accept what such a run leaves behind.
\<close>

section \<open>What holds of every message of a run\<close>

definition keeps_each :: "(message \<Rightarrow> bool) \<Rightarrow> 'w compactor \<Rightarrow> bool" where
  "keeps_each P f \<longleftrightarrow> (\<forall>c cin w res w' msgs. f c cin w = ((res, None), w') \<longrightarrow> cres_Messages res = Some msgs \<longrightarrow>
     (\<forall>m \<in> set (ci_Messages cin). P m) \<longrightarrow> (\<forall>m \<in> set msgs. P m))"

definition answers_each :: "(message \<Rightarrow> bool) \<Rightarrow> 'w chat_client \<Rightarrow> bool" where
  "answers_each P client \<longleftrightarrow> (\<forall>c req w resp w'. cc_Complete client c req w = ((resp, None), w') \<longrightarrow> P (rsp_Message resp))"

definition sent_each :: "(message \<Rightarrow> bool) \<Rightarrow> send_result \<Rightarrow> bool" where
  "sent_each P r \<longleftrightarrow> (case r of Sent resp sent \<Rightarrow> \<forall>m \<in> set sent. P m | SendStopped sent kind err \<Rightarrow> \<forall>m \<in> set sent. P m)"

lemma compaction_run_each:
  assumes "keeps_each P f" and "compaction_run c f cin cn w = (Inr (Some msgs), cn', w')" and "\<forall>m \<in> set (ci_Messages cin). P m"
  shows "\<forall>m \<in> set msgs. P m"
proof -
  obtain res err w1 where f: "f c cin w = ((res, err), w1)" by (metis prod.exhaust)
  with assms(2) have "err = None \<and> cres_Messages res = Some msgs"
    by (auto simp: compaction_run_def adopt_def Let_def split: option.splits sum.splits if_splits)
  with assms(1,3) f show ?thesis unfolding keeps_each_def by blast
qed

lemma send_calls_each:
  assumes "\<And>f. fn = Some f \<Longrightarrow> keeps_each P f"
  shows "send_calls retried c fn client req lst cn w = (r, cn', w') \<Longrightarrow> \<forall>m \<in> set (cr_Messages req). P m \<Longrightarrow> sent_each P r"
proof (induction "if retried then 0 else Suc 0" arbitrary: retried req cn w rule: less_induct)
  case less
  from less.prems(1) show ?case
  proof (cases rule: send_calls_cases)
    case (again f resp e w1 cin msgs cn2 w2)
    have "\<forall>m \<in> set msgs. P m"
      by (rule compaction_run_each [OF assms [OF again(2)] again(4)]) (use less.prems(2) again(6) in simp)
    with less.hyps [OF _ again(5)] again(1) show ?thesis by simp
  qed (use less.prems(2) in \<open>simp_all add: sent_each_def\<close>)
qed

lemma send_each:
  assumes keeps: "\<And>f. fn = Some f \<Longrightarrow> keeps_each P f"
    and run: "send c fn client req lst cn w = (r, cn', w')" and ms: "\<forall>m \<in> set (cr_Messages req). P m"
  shows "sent_each P r"
proof (cases fn)
  case None
  with run have "send_calls False c fn client req lst cn w = (r, cn', w')" by (simp add: send_def)
  from send_calls_each [OF keeps this ms] show ?thesis .
next
  case (Some f)
  let ?cin = "\<lparr>ci_Err = None, ci_Reason = CompactBeforeTurn, ci_LastUsage = lst, ci_Messages = cr_Messages req\<rparr>"
  obtain x cn2 w2 where cr: "compaction_run c f ?cin cn w = (x, cn2, w2)" by (metis prod.exhaust)
  show ?thesis
  proof (cases x rule: sum_option_cases)
    case (error ce)
    with run ms show ?thesis by (auto simp: send_def Some cr sent_each_def split: prod.splits)
  next
    case none
    with run have "send_calls False c fn client req lst cn2 w2 = (r, cn', w')" by (simp add: send_def Some cr)
    from send_calls_each [OF keeps this ms] show ?thesis .
  next
    case (some msgs)
    with run have "send_calls False c fn client (req\<lparr>cr_Messages := msgs\<rparr>) lst cn2 w2 = (r, cn', w')"
      by (simp add: send_def Some cr)
    from send_calls_each [OF keeps this] compaction_run_each [OF keeps [OF Some] cr [unfolded some]] ms show ?thesis by simp
  qed
qed

lemma run_iteration_each:
  assumes run: "run_iteration c cfg tools choice maxIter st w = (res, w')"
    and keeps: "\<And>f. lc_Compact cfg = Some f \<Longrightarrow> keeps_each P f" and client: "answers_each P (the (lc_Client cfg))"
    and results: "\<And>rs. P (ToolResultMessage rs)" and ms: "\<forall>m \<in> set (ls_transcript st). P m"
  shows "(\<forall>st'. res = Inl st' \<longrightarrow> (\<forall>m \<in> set (ls_transcript st'). P m)) \<and> (\<forall>out. res = Inr out \<longrightarrow> (\<forall>m \<in> set (out_Messages out). P m))"
  using run
proof (cases rule: run_iteration_cases)
  case (stopped sent kind err cn)
  from send_each [OF keeps stopped(1)] ms have "\<forall>m \<in> set sent. P m" by (simp add: sent_each_def)
  with stopped(4) show ?thesis by simp
next
  case (responded resp sent cn c1 req1 w1 w2 r)
  from send_each [OF keeps responded(1)] ms have sent: "\<forall>m \<in> set sent. P m" by (simp add: sent_each_def)
  from client responded(3) have resp: "P (rsp_Message resp)" unfolding answers_each_def by blast
  from responded(4) show ?thesis
    by (cases rule: handle_response_cases) (use responded(5) sent resp results in auto)
qed

text \<open>A predicate that holds of the messages given, of every answer and of every message of results, and that the compactor
  keeps, holds of every message of the outcome.\<close>

lemma run_each_message:
  assumes "validateConfig cfg = Inr v" and "Run c cfg w = Some (out, w')" and "\<forall>m \<in> set (cr_Messages (lc_Request cfg)). P m"
    and keeps: "\<And>f. lc_Compact cfg = Some f \<Longrightarrow> keeps_each P f" and client: "answers_each P (the (lc_Client cfg))"
    and results: "\<And>rs. P (ToolResultMessage rs)"
  shows "\<forall>m \<in> set (out_Messages out). P m"
proof -
  obtain tools choice where "v = (tools, choice)" by (cases v)
  with assms(1,2) have "run_loop c cfg tools choice (max_iterations cfg) (start_state (cr_Messages (lc_Request cfg))) w = Some (out, w')"
    by (simp add: Run_def)
  then show ?thesis
  proof (rule run_loop_invariant [where I = "\<lambda>st w. \<forall>m \<in> set (ls_transcript st). P m"])
    show "\<forall>m \<in> set (ls_transcript (start_state (cr_Messages (lc_Request cfg)))). P m" using assms(3) by (simp add: start_state_def)
  qed (use run_iteration_each [OF _ keeps client results] in blast)+
qed

text \<open>Without a compactor a run only appends.\<close>

lemma send_unchanged:
  assumes "send c None client req lst cn w = (r, cn', w')"
  shows "case r of Sent resp sent \<Rightarrow> sent = cr_Messages req | SendStopped sent kind err \<Rightarrow> sent = cr_Messages req"
proof -
  have "send_calls False c None client req lst cn w = (r, cn', w')" using assms by (simp add: send_def)
  then show ?thesis by (cases rule: send_calls_cases) auto
qed

lemma run_iteration_appends:
  assumes plain: "lc_Compact cfg = None" and run: "run_iteration c cfg tools choice maxIter st w = (res, w')"
  shows "(\<forall>st'. res = Inl st' \<longrightarrow> prefix (ls_transcript st) (ls_transcript st')) \<and> (\<forall>out. res = Inr out \<longrightarrow> prefix (ls_transcript st) (out_Messages out))"
  using run
proof (cases rule: run_iteration_cases)
  case (stopped sent kind err cn)
  with send_unchanged [OF stopped(1) [unfolded plain]] show ?thesis by simp
next
  case (responded resp sent cn c1 req1 w1 w2 r)
  from send_unchanged [OF responded(1) [unfolded plain]] have "sent = ls_transcript st" by simp
  with responded(4) show ?thesis by (cases rule: handle_response_cases) (use responded(5) in auto)
qed

lemma run_appends:
  assumes "validateConfig cfg = Inr v" and "Run c cfg w = Some (out, w')" and plain: "lc_Compact cfg = None"
  shows "prefix (cr_Messages (lc_Request cfg)) (out_Messages out)"
proof -
  obtain tools choice where "v = (tools, choice)" by (cases v)
  with assms(1,2) have "run_loop c cfg tools choice (max_iterations cfg) (start_state (cr_Messages (lc_Request cfg))) w = Some (out, w')"
    by (simp add: Run_def)
  then show ?thesis
  proof (rule run_loop_invariant [where I = "\<lambda>st w. prefix (cr_Messages (lc_Request cfg)) (ls_transcript st)"])
    show "prefix (cr_Messages (lc_Request cfg)) (ls_transcript (start_state (cr_Messages (lc_Request cfg))))" by (simp add: start_state_def)
  qed (use run_iteration_appends [OF plain] prefix_order.trans in blast)+
qed

lemmas provider_consts = ProviderAnthropic_def ProviderOpenAI_def ProviderGoogle_def ProviderOllama_def ProviderOpenAICompat_def

section \<open>Messages that every provider can take\<close>

text \<open>Reasoning of one provider only, text that is not empty, and calls whose parameters are JSON objects.\<close>

definition portable :: "provider_id \<Rightarrow> message \<Rightarrow> bool" where
  "portable source m \<longleftrightarrow> texts_ok m \<and> params_ok m \<and>
     (\<forall>p \<in> set (m_Content m). cp_Type p = ContentReasoning \<longrightarrow> (\<forall>r. cp_Reasoning p = Some r \<longrightarrow> rs_Provider r = source))"

lemma portable_foreign: "portable source m \<Longrightarrow> source \<noteq> target \<Longrightarrow> foreign_reasoning target m"
  by (auto simp: portable_def foreign_reasoning_def)

lemma portable_results: "portable source (ToolResultMessage rs)"
  by (auto simp: portable_def texts_ok_def params_ok_def ToolResultMessage_def List.map_filter_def)

lemma portable_UserText: "t \<noteq> [] \<Longrightarrow> portable source (UserText t)"
  by (simp add: portable_def texts_ok_def params_ok_def UserText_def List.map_filter_simps)

lemma portable_strip: "portable source m \<Longrightarrow> portable source (strip keep m)"
  by (auto simp: portable_def texts_ok_def params_ok_def)

text \<open>\<open>KeepLast\<close> keeps messages or drops them, with their reasoning removed.\<close>

lemma kept_subset: "set (kept s ms []) \<subseteq> set ms"
  by (auto simp: kept_def slice_def dest: in_set_takeD in_set_dropD)

lemma keep_last_portable: "keeps_each (portable source) (keep_last_compact cfg)"
  unfolding keeps_each_def
proof (intro allI impI)
  fix c cin w res w' msgs
  assume run: "keep_last_compact cfg c cin w = ((res, None), w')" and msgs: "cres_Messages res = Some msgs"
    and all: "\<forall>m \<in> set (ci_Messages cin). portable source m"
  from run show "\<forall>m \<in> set msgs. portable source m"
  proof (cases rule: keep_last_compact_cases)
    case compacted
    with msgs have "msgs = WithoutReasoning (kept (split_msgs (ci_Messages cin) (kl_Turns cfg)) (ci_Messages cin) [])" by simp
    with all kept_subset show ?thesis by (auto simp: WithoutReasoning_eq intro!: portable_strip)
  qed (use msgs in simp)
qed

section \<open>The next question\<close>

definition next_request :: "message list \<Rightarrow> string \<Rightarrow> chat_request" where
  "next_request ms question = zero_request\<lparr>cr_Messages := ms @ [UserText question]\<rparr>"

lemma next_request_sel:
  "cr_Messages (next_request ms question) = ms @ [UserText question]" "cr_Tools (next_request ms question) = []"
  "cr_System (next_request ms question) = []" "RequiresTools (cr_ToolChoice (next_request ms question)) = False"
  by (simp_all add: next_request_def zero_request_def RequiresTools_def tool_choice_consts)

lemma next_request_valid: "ValidateMessages ms = None \<Longrightarrow> validateChatRequest (next_request ms question) = None"
  by (auto simp: validateChatRequest_def next_request_sel ValidateMessages_None_iff user_ok_def UserText_def Text_def zero_part_def intro!: wf_user)

text \<open>What a run leaves to continue from: its transcript, without the last answer when an executor stopped the run before its
  calls had results.\<close>

definition carried :: "outcome \<Rightarrow> message list" where
  "carried out = (if ValidateMessages (out_Messages out) = None then out_Messages out else butlast (out_Messages out))"

lemma carried_valid:
  assumes "outcome_messages_ok out"
  shows "ValidateMessages (carried out) = None" and "carried out = out_Messages out \<or>
     (out_Messages out = carried out @ [rsp_Message (out_Response out)] \<and> rsp_ToolCalls (out_Response out) \<noteq> [] \<and>
      out_Kind out \<in> {OutcomeToolError, OutcomeCanceled, OutcomeDeadline})"
  using assms by (auto simp: carried_def outcome_messages_ok_def)

text \<open>The conversions, one provider after the other. Google looks for the name of every result's call, and falls back to its id.\<close>

lemma google_converts_valid:
  assumes v: "validateChatRequest req = None" and ms: "\<forall>m \<in> set (cr_Messages req). texts_ok m \<and> params_ok m \<and> foreign_reasoning ProviderGoogle m"
  shows "\<exists>contents. buildContents model req = Inr contents"
proof -
  define rs where "rs = ReasoningFrom ProviderGoogle (cr_Messages req)"
  have "ValidateMessages (cr_Messages req) = None" using v by (simp add: validateChatRequest_def split: option.splits)
  then have wf: "wf_transcript (cr_Messages req)" "cr_Messages req \<noteq> []" by (simp_all add: ValidateMessages_None_iff)
  have send: "\<forall>m \<in> set rs. (user_ok m \<or> assistant_ok m \<or> tool_ok m) \<and> texts_ok m \<and> no_reasoning m"
    unfolding rs_def by (rule strip_sendable [OF wf(1)]) (use ms in blast)
  have params: "\<forall>m \<in> set rs. params_ok m" using ms by (auto simp: rs_def ReasoningFrom_eq params_ok_def)
  have part: "\<exists>g. google_part model names p = Inr g" if m: "m \<in> set rs" and p: "p \<in> set (m_Content m)" for m p names
  proof -
    have "cp_Type p = ContentText \<and> cp_Text p \<noteq> [] \<or> cp_Type p = ContentToolCall \<and> call_part_ok p \<or>
        cp_Type p = ContentToolResult \<and> result_part_ok p"
      using bspec [OF send m] p by (auto simp: user_ok_def assistant_ok_def tool_ok_def texts_ok_def no_reasoning_def result_part_ok_def)
    then consider (t) "cp_Type p = ContentText" "cp_Text p \<noteq> []"
      | (c) tc where "cp_Type p = ContentToolCall" "cp_ToolCall p = Some tc"
      | (r) tr where "cp_Type p = ContentToolResult" "cp_ToolResult p = Some tr"
      by (auto simp: call_part_ok_def result_part_ok_def)
    then show ?thesis
    proof cases
      case c
      then have "tc \<in> set (tool_calls (m_Content m))" using p by (auto simp: List.map_filter_def image_iff intro!: bexI [of _ p])
      with params m obtain args where "rawToMap (tc_Parameters tc) = Inr args" unfolding params_ok_def by blast
      with c show ?thesis by (simp add: google_part_def)
    qed (simp_all add: google_part_def Let_def)
  qed
  have "\<forall>m \<in> set rs. \<exists>c. google_content model (toolCallNames rs) m c"
  proof
    fix m assume m: "m \<in> set rs"
    with part have "\<forall>p \<in> set (m_Content m). \<exists>g. google_part model (toolCallNames rs) p = Inr g" by blast
    from list_all2_choice [OF this] obtain gs where
      gs: "list_all2 (\<lambda>p g. google_part model (toolCallNames rs) p = Inr g) (m_Content m) gs" ..
    obtain role where "google_roleFor (m_Role m) = Some role"
      using bspec [OF send m] by (auto simp: google_roleFor_def user_ok_def assistant_ok_def tool_ok_def)
    with gs have "google_content model (toolCallNames rs) m \<lparr>gc_Role = role, gc_Parts = gs\<rparr>" by (simp add: google_content_def)
    then show "\<exists>c. google_content model (toolCallNames rs) m c" ..
  qed
  from list_all2_choice [OF this] obtain contents where contents: "list_all2 (google_content model (toolCallNames rs)) rs contents" ..
  moreover have "\<forall>m \<in> set rs. m_Content m \<noteq> []"
    using send by (auto simp: user_ok_def assistant_ok_def tool_ok_def hasNonReasoning_iff)
  ultimately have "google_messages model (toolCallNames rs) rs [] = Inr contents" using google_messages_full by fastforce
  moreover have "contents \<noteq> []" using contents wf(2) by (auto simp: rs_def ReasoningFrom_eq)
  ultimately have "buildContents model req = Inr contents" by (simp add: buildContents_def rs_def)
  then show ?thesis ..
qed

text \<open>The next request of a finished conversation converts, for a provider.\<close>

definition continues_on :: "provider_id \<Rightarrow> string \<Rightarrow> chat_request \<Rightarrow> bool" where
  "continues_on target model req \<longleftrightarrow>
     (if target = ProviderAnthropic then \<exists>p. anthropic_toParams model req = Inr p \<and> answered (mnp_Messages p)
      else if target = ProviderOpenAI then \<exists>p. openai_toParams model req = Some (Inr p)
      else if target = ProviderOpenAICompat then \<exists>p. compat_toParams model req = Inr p
      else if target = ProviderOllama then \<forall>float_text. \<exists>r. toWire float_text model req = Inr r
      else if target = ProviderGoogle then \<forall>num. \<exists>p. google_toParams num model req = Some (Inr p)
      else False)"

lemma anthropic_continues:
  assumes v: "validateChatRequest req = None" and plain: "cr_Tools req = []" "\<not> RequiresTools (cr_ToolChoice req)"
    and ms: "\<forall>m \<in> set (cr_Messages req). texts_ok m \<and> foreign_reasoning ProviderAnthropic m"
  shows "(\<exists>p. anthropic_toParams model req = Inr p \<and> answered (mnp_Messages p)) \<longleftrightarrow> m_Role (hd (cr_Messages req)) = RoleUser"
proof -
  have m: "ValidateMessages (cr_Messages req) = None" "system_check 0 (cr_System req) = None"
    using v by (simp_all add: validateChatRequest_def split: option.splits)
  obtain sys where sys: "anthropic_systemText model req = Inr sys"
    using system_text_ok [OF m(2)] unfolding anthropic_systemText_def by blast
  have wf: "wf_transcript (cr_Messages req)" using m(1) by (simp add: ValidateMessages_None_iff)
  have "\<forall>m \<in> set (ReasoningFrom ProviderAnthropic (cr_Messages req)). (user_ok m \<or> assistant_ok m \<or> tool_ok m) \<and> texts_ok m \<and> no_reasoning m"
    by (rule strip_sendable [OF wf]) (use ms in blast)
  then have "\<forall>m \<in> set (ReasoningFrom ProviderAnthropic (cr_Messages req)). replayable_message m"
    by (auto simp: replayable_message_def replayable_def texts_ok_def no_reasoning_def)
  note built = buildMessages_wf [OF m(1) this, of model]
  show ?thesis
  proof (cases "m_Role (hd (cr_Messages req)) = RoleUser")
    case True
    with built have "\<exists>ms' cb'. anthropic_buildMessages model req cb = Inr (ms', cb') \<and> answered ms'" for cb by simp
    then obtain ms' cb' where "\<And>cb. anthropic_buildMessages model req cb = Inr (ms' cb, cb' cb) \<and> answered (ms' cb)" by metis
    with sys plain True show ?thesis by (simp add: anthropic_toParams_def anthropic_buildTools_def anthropic_toolChoice_def Let_def)
  next
    case False
    with built have "anthropic_buildMessages model req cb \<noteq> Inr r" for cb r by (cases r) simp
    with False show ?thesis by (auto elim: toParams_cases)
  qed
qed

lemma openai_continues:
  assumes v: "validateChatRequest req = None" and plain: "cr_Tools req = []" "\<not> RequiresTools (cr_ToolChoice req)"
    and ms: "\<forall>m \<in> set (cr_Messages req). texts_ok m \<and> foreign_reasoning ProviderOpenAI m"
  shows "\<exists>p. openai_toParams model req = Some (Inr p)"
proof -
  have m: "ValidateMessages (cr_Messages req) = None" "system_check 0 (cr_System req) = None"
    using v by (simp_all add: validateChatRequest_def split: option.splits)
  obtain sys where "openai_systemText model req = Inr sys"
    using system_text_ok [OF m(2)] unfolding openai_systemText_def by blast
  moreover have "sendable (cr_Messages req)" using ms by (auto simp: sendable_def texts_ok_def foreign_reasoning_def)
  ultimately show ?thesis using plain buildInput_wf [OF m(1), of model]
    by (simp add: openai_toParams_def openai_buildTools_def openai_toolChoice_def)
qed

lemma google_continues:
  assumes v: "validateChatRequest req = None" and plain: "cr_Tools req = []" "\<not> RequiresTools (cr_ToolChoice req)"
    and ms: "\<forall>m \<in> set (cr_Messages req). texts_ok m \<and> params_ok m \<and> foreign_reasoning ProviderGoogle m"
  shows "\<exists>p. google_toParams num model req = Some (Inr p)"
proof -
  have "system_check 0 (cr_System req) = None" using v by (simp add: validateChatRequest_def split: option.splits)
  then obtain sys where "google_systemText model req = Inr sys"
    using system_text_ok unfolding google_systemText_def by blast
  with google_converts_valid [OF v ms, of model] plain show ?thesis
    by (auto simp: google_toParams_def google_buildTools_def toolConfig_def Let_def)
qed

definition providers :: "provider_id set" where
  "providers = {ProviderAnthropic, ProviderOpenAI, ProviderOpenAICompat, ProviderOllama, ProviderGoogle}"

lemma plain_request_continues:
  assumes v: "validateChatRequest req = None" and plain: "cr_Tools req = []" "\<not> RequiresTools (cr_ToolChoice req)"
    and ms: "\<forall>m \<in> set (cr_Messages req). portable source m" and target: "target \<in> providers" "source \<noteq> target"
  shows "continues_on target model req \<longleftrightarrow> (target = ProviderAnthropic \<longrightarrow> m_Role (hd (cr_Messages req)) = RoleUser)"
proof -
  have f: "\<forall>m \<in> set (cr_Messages req). texts_ok m \<and> params_ok m \<and> foreign_reasoning target m"
    using ms portable_foreign [OF _ target(2)] by (auto simp: portable_def)
  from target(1) consider "target = ProviderAnthropic" | "target = ProviderOpenAI" | "target = ProviderOpenAICompat"
    | "target = ProviderOllama" | "target = ProviderGoogle" by (auto simp: providers_def)
  then show ?thesis
  proof cases
    case 1
    with anthropic_continues [OF v plain, of model] f show ?thesis by (simp add: continues_on_def)
  next
    case 2
    with openai_continues [OF v plain] f show ?thesis by (simp add: continues_on_def provider_consts)
  next
    case 3
    with compat_valid_requests_convert [OF v, of model "[]" None] plain f show ?thesis
      by (auto simp: continues_on_def provider_consts compat_buildTools_def compat_toolChoice_def)
  next
    case 4
    with ollama_valid_requests_convert [OF v, of model "[]"] plain f show ?thesis
      by (auto simp: continues_on_def provider_consts ollama_buildTools_def validateToolChoice_def RequiresTools_def Let_def)
  next
    case 5
    with google_continues [OF v plain] f show ?thesis by (simp add: continues_on_def provider_consts)
  qed
qed

text \<open>
  C24: a conversation moves between providers. Let the conversation so far and the answers of one provider be portable (texts not empty,
  parameters that are JSON objects or null, reasoning of that provider only). Then what a tool loop over it leaves behind, questions and
  answers, tool calls and results, cut or not by \<open>KeepLast\<close>, less the last answer when an executor stopped the run before that answer's
  calls had results, followed by the next question, is a request that passes validation and that the adapters of all other providers
  convert, reasoning of the first one included; Anthropic's exactly when it starts with a user message. Without a
  compactor it starts as the conversation did.
\<close>

theorem conversation_moves_between_providers:
  assumes "validateConfig cfg = Inr v" and "Run c cfg w = Some (out, w')"
    and "ValidateMessages (cr_Messages (lc_Request cfg)) = None" and "\<forall>m \<in> set (cr_Messages (lc_Request cfg)). portable source m"
    and "client_wf (the (lc_Client cfg))" and "answers_each (portable source) (the (lc_Client cfg))"
    and "\<And>f. lc_Compact cfg = Some f \<Longrightarrow> \<exists>kl. KeepLast kl = Inr f"
    and "question \<noteq> []" and "target \<in> providers" and "source \<noteq> target"
  shows "validateChatRequest (next_request (carried out) question) = None \<and>
    (continues_on target model (next_request (carried out) question) \<longleftrightarrow>
       (target = ProviderAnthropic \<longrightarrow> m_Role (hd (carried out)) = RoleUser)) \<and>
    (carried out = out_Messages out \<or>
       (out_Messages out = carried out @ [rsp_Message (out_Response out)] \<and> rsp_ToolCalls (out_Response out) \<noteq> [] \<and>
        out_Kind out \<in> {OutcomeToolError, OutcomeCanceled, OutcomeDeadline})) \<and>
    (lc_Compact cfg = None \<longrightarrow> prefix (cr_Messages (lc_Request cfg)) (carried out))"
proof -
  have ok: "outcome_messages_ok out" by (rule run_messages_ok [OF assms(1,3,5,2)])
  note valid = carried_valid(1) [OF ok] and same = carried_valid(2) [OF ok]
  have v: "validateChatRequest (next_request (carried out) question) = None" using valid by (rule next_request_valid)
  have "keeps_each (portable source) f" if "lc_Compact cfg = Some f" for f
    using assms(7) [OF that] keep_last_portable by (auto simp: KeepLast_def split: if_splits)
  from run_each_message [OF assms(1,2,4) this assms(6) portable_results]
  have "\<forall>m \<in> set (out_Messages out). portable source m" by blast
  then have "\<forall>m \<in> set (carried out). portable source m" using same by auto
  then have "\<forall>m \<in> set (cr_Messages (next_request (carried out) question)). portable source m"
    using portable_UserText [OF assms(8)] by (auto simp: next_request_sel)
  moreover have "carried out \<noteq> []" using valid by (simp add: ValidateMessages_None_iff)
  ultimately have "continues_on target model (next_request (carried out) question) \<longleftrightarrow>
      (target = ProviderAnthropic \<longrightarrow> m_Role (hd (carried out)) = RoleUser)"
    using plain_request_continues [OF v _ _ _ assms(9,10), of model] by (simp add: next_request_sel)
  moreover have "prefix (cr_Messages (lc_Request cfg)) (carried out)" if plain: "lc_Compact cfg = None"
  proof (cases "carried out = out_Messages out")
    case False
    with same have "out_Messages out = carried out @ [rsp_Message (out_Response out)]" by blast
    with run_appends [OF assms(1,2) plain] have "cr_Messages (lc_Request cfg) = out_Messages out \<or> prefix (cr_Messages (lc_Request cfg)) (carried out)"
      by simp
    with assms(3) False show ?thesis by (auto simp: carried_def)
  qed (use run_appends [OF assms(1,2) plain] in simp)
  ultimately show ?thesis using v same by blast
qed

text \<open>A run over the Anthropic adapter: the API thinks and asks for a call until it has a result, then answers.\<close>

definition claude_message :: "message_new_params \<Rightarrow> anthropic_message" where
  "claude_message p = (if length (mnp_Messages p) = 1 then demo_answer
     else demo_answer\<lparr>am_Content := [TextBlock ''Claude.''], am_StopReason := ''end_turn''\<rparr>)"

definition claude_api :: "logged_world anthropic_client" where
  "claude_api = \<lparr>an_Messages_New = (\<lambda>ctx p extra w. (Inr (claude_message p), w)), an_model = ''claude'', an_noListing = [],
     an_errors = \<lparr>ee_sdk_error = (\<lambda>e. None), ee_err_text = (\<lambda>e. []), ee_http_date = (\<lambda>s. None), ee_now = 0\<rparr>, an_raw = (\<lambda>_. JNull)\<rparr>"

definition claude_config :: "logged_world loop_config" where
  "claude_config = demo_config\<lparr>lc_Client := Some \<lparr>cc_Model = anthropic_Model claude_api, cc_Complete = anthropic_Complete claude_api\<rparr>\<rparr>"

lemma claude_sel [simp]:
  "the (lc_Client claude_config) = \<lparr>cc_Model = anthropic_Model claude_api, cc_Complete = anthropic_Complete claude_api\<rparr>"
  "lc_Compact claude_config = None" "cr_Messages (lc_Request claude_config) = [UserText ''hi'']" "max_iterations claude_config = 8"
  by (simp_all add: claude_config_def demo_config_def max_iterations_def defaultMaxIterations_def zero_request_def)

lemma claude_validate:
  "validateConfig claude_config = Inr ([tl_Definition lookup_tool], \<lparr>tch_Type = ToolChoiceAuto, tch_Name = []\<rparr>)"
  by (simp add: validateConfig_def claude_config_def demo_config_def lookup_tool_def zero_request_def isZeroToolChoice_def
      effective_choice_def check_choice_def isKnownToolChoiceType_def RequiresTools_def tool_choice_consts)

lemma rawToMap_empty: "rawToMap ''{}'' = Inr (Some [])"
  using rawToMap_args [of "[]"] by (simp add: json_map_def sorted_keys_def)

lemma claude_answer:
  assumes "anthropic_Complete claude_api c req w = ((resp, None), w')"
  shows "portable ProviderAnthropic (rsp_Message resp) \<and> response_wf resp"
proof -
  from assms obtain extra p where "resp = anthropic_respond claude_api req extra (claude_message p)"
    by (auto simp: anthropic_Complete_def claude_api_def split: sum.splits)
  then show ?thesis
    by (auto simp: anthropic_respond_def anthropic_toResponse_def claude_message_def demo_answer_def response_step_def reasoningPart_def
        portable_def texts_ok_def params_ok_def response_wf_def part_legal_def call_part_ok_def reasoning_part_ok_def call_ids_def
        List.map_filter_simps rawToMap_empty zero_part_def Let_def provider_consts)
qed

theorem conversation_moves_between_providers_witness:
  "\<exists>out w'. Run background claude_config demo_world = Some (out, w') \<and> hd (carried out) = UserText ''hi'' \<and>
     (\<forall>target \<in> providers - {ProviderAnthropic}. \<forall>model. continues_on target model (next_request (carried out) ''And then?''))"
proof -
  obtain out w' where run: "Run background claude_config demo_world = Some (out, w')"
    using bounded_run_ends [of 8 "start_state [UserText ''hi'']" background claude_config "[tl_Definition lookup_tool]"
        "\<lparr>tch_Type = ToolChoiceAuto, tch_Name = []\<rparr>" demo_world]
    by (auto simp: Run_def claude_validate start_state_def in_int64_def MinInt_def MaxInt_def)
  have "client_wf (the (lc_Client claude_config))" "answers_each (portable ProviderAnthropic) (the (lc_Client claude_config))"
    using claude_answer by (auto simp: client_wf_def answers_each_def)
  note moves = conversation_moves_between_providers [OF claude_validate run, of ProviderAnthropic "''And then?''"]
  have "continues_on target model (next_request (carried out) ''And then?'') \<and> prefix [UserText ''hi''] (carried out)"
    if "target \<in> providers" "target \<noteq> ProviderAnthropic" for target model
    using moves [of target model] that \<open>client_wf _\<close> \<open>answers_each _ _\<close> demo_valid portable_UserText [of "''hi''"] by auto
  then have all: "\<forall>target \<in> providers - {ProviderAnthropic}. \<forall>model.
      continues_on target model (next_request (carried out) ''And then?'') \<and> prefix [UserText ''hi''] (carried out)" by blast
  moreover have "ProviderOpenAI \<in> providers - {ProviderAnthropic}" by (simp add: providers_def provider_consts)
  ultimately have "prefix [UserText ''hi''] (carried out)" by blast
  then have "hd (carried out) = UserText ''hi''" by (auto simp: prefix_def)
  with run all show ?thesis by blast
qed

end
