(* ===== verification/TestLLM.thy ===== *)
theory TestLLM
  imports AdapterLaws
begin

text \<open>
  The fake clients of \<open>llms/testllm\<close> (\<open>chat.go\<close>, \<open>copy.go\<close>, \<open>embedding.go\<close>). Requests are values here, so the deep copies that keep
  a recording apart from its caller are the recording itself; what the copies change, the JSON form of
  the provider parameters, is modelled. The copies themselves are in \<open>Store\<close> and \<open>Isolation\<close>. The fake's state is what its mutex protects; \<open>ctx.Err()\<close> at its check is an argument.
\<close>

section \<open>The chat fake\<close>

record 'w fake_chat =
  fk_Func :: "(ctx \<Rightarrow> chat_request \<Rightarrow> 'w \<Rightarrow> (chat_response \<times> error option) \<times> 'w) option"
  fk_Err :: "error option"
  fk_ModelRef :: model_ref
  fk_Responses :: "chat_response list"
  fk_Text :: string

record fake_state =
  fs_calls :: "chat_request list"
  fs_idx :: nat

definition jsonSnapshot :: "(string \<times> json) list \<Rightarrow> error + (string \<times> json) list" where
  "jsonSnapshot v =
     (if \<not> valid_json (JObj v) then Inl json_error
      else case (case decode_first (encode_json True (JObj v)) of None \<Rightarrow> None | Some j \<Rightarrow> to_map j) of
        Some (Some m) \<Rightarrow> Inr m
      | Some None \<Rightarrow> Inr []
      | None \<Rightarrow> Inl json_error)"

text \<open>\<open>keys\<close> is the order in which the source's loop meets the entries.\<close>

definition recordChatRequest :: "provider_id list \<Rightarrow> chat_request \<Rightarrow> provider_id \<Rightarrow> chat_request \<times> error option" where
  "recordChatRequest keys req selected =
     (let snap = (\<lambda>k. case cr_ProviderParams req k of None \<Rightarrow> None | Some v \<Rightarrow> Some (jsonSnapshot v));
          bad = (\<lambda>k. (case snap k of Some (Inl _) \<Rightarrow> selected = [] \<or> k = selected | _ \<Rightarrow> False))
      in (req\<lparr>cr_ProviderParams := (\<lambda>k. case snap k of None \<Rightarrow> None | Some (Inl _) \<Rightarrow> Some [] | Some (Inr m) \<Rightarrow> Some m)\<rparr>,
          map_option (\<lambda>k. Wrapped (''ProviderParams['' @ quote k @ ''] does not marshal to JSON'') [json_error]) (find bad keys)))"

definition fake_AssistantText :: "string \<Rightarrow> message" where
  "fake_AssistantText s = \<lparr>m_Role = RoleAssistant, m_Content = [Text s]\<rparr>"

text \<open>The second critical section, and the answer for an index.\<close>

definition take_index :: "'w fake_chat \<Rightarrow> fake_state \<Rightarrow> nat \<times> fake_state" where
  "take_index f st = (fs_idx st, if fs_idx st < length (fk_Responses f) then st\<lparr>fs_idx := Suc (fs_idx st)\<rparr> else st)"

definition scripted :: "'w fake_chat \<Rightarrow> nat \<Rightarrow> chat_response" where
  "scripted f idx =
     (if fk_Responses f = []
      then zero_response\<lparr>rsp_Message := fake_AssistantText (fk_Text f), rsp_Text := fk_Text f\<rparr>
      else if idx < length (fk_Responses f) then fk_Responses f ! idx
      else last (fk_Responses f))"

definition fake_Complete :: "provider_id list \<Rightarrow> 'w fake_chat \<Rightarrow> ctx \<Rightarrow> error option \<Rightarrow> chat_request \<Rightarrow> fake_state \<Rightarrow> 'w \<Rightarrow>
    (chat_response \<times> error option) \<times> fake_state \<times> 'w" where
  "fake_Complete keys f ctx ctxErr req st w =
     (let (rec, recErr) = recordChatRequest keys req (mr_Provider (fk_ModelRef f));
          st = st\<lparr>fs_calls := fs_calls st @ [rec]\<rparr> in
      case recErr of
        Some err \<Rightarrow> ((zero_response, Some (ProviderError (mr_Provider (fk_ModelRef f)) (mr_Name (fk_ModelRef f)) ErrorKindBadRequest 0
          (''testllm: '' @ error_text err) 0 None)), st, w)
      | None \<Rightarrow>
          (case ctxErr of
             Some err \<Rightarrow> ((zero_response, Some (Wrapped ''testllm: context done'' [err])), st, w)
           | None \<Rightarrow>
               (let (idx, st) = take_index f st in
                case fk_Func f of
                  Some fn \<Rightarrow> (let (out, w') = fn ctx req w in (out, st, w'))
                | None \<Rightarrow>
                    (case fk_Err f of
                       Some err \<Rightarrow> ((zero_response, Some err), st, w)
                     | None \<Rightarrow> ((scripted f idx, None), st, w)))))"

definition fake_Calls :: "fake_state \<Rightarrow> chat_request list" where "fake_Calls st = fs_calls st"
definition fake_Reset :: "fake_state \<Rightarrow> fake_state" where "fake_Reset st = st\<lparr>fs_calls := [], fs_idx := 0\<rparr>"

definition TextResponse :: "string \<Rightarrow> chat_response" where
  "TextResponse s = zero_response\<lparr>rsp_Message := fake_AssistantText s, rsp_Text := s, rsp_StopReason := ''end_turn''\<rparr>"

definition ToolCallResponse :: "string \<Rightarrow> string \<Rightarrow> string \<Rightarrow> chat_response" where
  "ToolCallResponse i name params =
     (let tc = \<lparr>tc_ID = i, tc_Name = name, tc_Parameters = params, tc_ProviderSignature = []\<rparr> in
      zero_response\<lparr>rsp_Message := \<lparr>m_Role = RoleAssistant,
        m_Content = [zero_part\<lparr>cp_Type := ContentToolCall, cp_ToolCall := Some tc\<rparr>]\<rparr>,
        rsp_ToolCalls := [tc], rsp_StopReason := ''tool_use''\<rparr>)"

section \<open>The embedding fake\<close>

text \<open>\<open>float32\<close> rounding: to nearest, ties to even, at 24 significant bits.\<close>

definition fl32 :: "rat \<Rightarrow> rat" where
  "fl32 x = (if x = 0 then 0 else of_int (rne (x / 2 powi (fexp x - 23))) * 2 powi (fexp x - 23))"

definition defaultFakeDimensions :: int where "defaultFakeDimensions = 8"

record 'w fake_embedding =
  fe_Func :: "(ctx \<Rightarrow> embedding_request \<Rightarrow> 'w \<Rightarrow> (embedding_response \<times> error option) \<times> 'w) option"
  fe_Err :: "error option"
  fe_Vectors :: "string \<rightharpoonup> rat list"
  fe_ModelRef :: model_ref
  fe_Usage :: usage
  fe_Dims :: int

definition fake_DefaultDimensions :: "'w fake_embedding \<Rightarrow> int" where
  "fake_DefaultDimensions f = (if fe_Dims f > 0 then fe_Dims f else defaultFakeDimensions)"

text \<open>The little-endian value of four bytes; \<open>sha256\<close> is the digest of the standard library.\<close>

definition Uint32 :: "nat list \<Rightarrow> nat" where
  "Uint32 bs = bs ! 0 + 256 * bs ! 1 + 65536 * bs ! 2 + 16777216 * bs ! 3"

definition hashVector :: "(string \<Rightarrow> nat list) \<Rightarrow> string \<Rightarrow> nat \<Rightarrow> rat list" where
  "hashVector sha256 text' dims =
     map (\<lambda>i. fl32 (fl (rat_of_nat (Uint32 (sha256 (itoa (int i) @ '':'' @ text'))) / 2 ^ 32))) [0..<dims]"

definition fake_Embed :: "(string \<Rightarrow> nat list) \<Rightarrow> 'w fake_embedding \<Rightarrow> ctx \<Rightarrow> error option \<Rightarrow> embedding_request \<Rightarrow> embedding_request list \<Rightarrow> 'w \<Rightarrow>
    (embedding_response \<times> error option) \<times> embedding_request list \<times> 'w" where
  "fake_Embed sha256 f ctx ctxErr req calls w =
     (let calls = calls @ [req] in
      case ctxErr of
        Some err \<Rightarrow> ((zero_embedding_response, Some (Wrapped ''testllm: context done'' [err])), calls, w)
      | None \<Rightarrow>
          (case fe_Func f of
             Some fn \<Rightarrow> (let (out, w') = fn ctx req w in (out, calls, w'))
           | None \<Rightarrow>
               (case fe_Err f of
                  Some err \<Rightarrow> ((zero_embedding_response, Some err), calls, w)
                | None \<Rightarrow>
                    (let dims = (if er_Dimensions req > 0 then er_Dimensions req else fake_DefaultDimensions f) in
                     ((\<lparr>ersp_Vectors = map (\<lambda>inp. \<lparr>ev_ID = ei_ID inp, ev_Values =
                           (case fe_Vectors f (ei_Text inp) of Some vs \<Rightarrow> vs | None \<Rightarrow> hashVector sha256 (ei_Text inp) (nat dims))\<rparr>) (er_Inputs req),
                         ersp_Usage = fe_Usage f, ersp_Raw = None\<rparr>, None), calls, w)))))"

definition fake_embedding_Calls :: "embedding_request list \<Rightarrow> embedding_request list" where "fake_embedding_Calls calls = calls"
definition fake_embedding_Reset :: "embedding_request list \<Rightarrow> embedding_request list" where "fake_embedding_Reset calls = []"

section \<open>The script\<close>

text \<open>Calls one after another; each with what its context says.\<close>

fun complete_all :: "provider_id list \<Rightarrow> 'w fake_chat \<Rightarrow> ctx \<Rightarrow> (error option \<times> chat_request) list \<Rightarrow> fake_state \<Rightarrow> 'w \<Rightarrow>
    (chat_response \<times> error option) list \<times> fake_state" where
  "complete_all keys f ctx [] st w = ([], st)"
| "complete_all keys f ctx ((ctxErr, req) # calls) st w =
     (let (out, st, w) = fake_Complete keys f ctx ctxErr req st w; (outs, st) = complete_all keys f ctx calls st w in (out # outs, st))"

text \<open>The calls that get as far as the script.\<close>

definition live_call :: "provider_id list \<Rightarrow> 'w fake_chat \<Rightarrow> error option \<times> chat_request \<Rightarrow> bool" where
  "live_call keys f call \<longleftrightarrow> fst call = None \<and> snd (recordChatRequest keys (snd call) (mr_Provider (fk_ModelRef f))) = None"

definition live_results :: "(chat_response \<times> error option) list \<Rightarrow> chat_response list" where
  "live_results outs = map fst (filter (\<lambda>(r, x). x = None) outs)"

lemma fake_Complete_script:
  fixes f :: "'w fake_chat"
  assumes "fk_Func f = None" and "fk_Err f = None"
    and "st' = st\<lparr>fs_calls := fs_calls st @ [fst (recordChatRequest keys (snd call) (mr_Provider (fk_ModelRef f)))]\<rparr>"
  shows "live_call keys f call \<Longrightarrow>
      fake_Complete keys f ctx (fst call) (snd call) st w = ((scripted f (fs_idx st), None), snd (take_index f st'), w)"
    and "\<not> live_call keys f call \<Longrightarrow>
      \<exists>r x. fake_Complete keys f ctx (fst call) (snd call) st w = ((r, Some x), st', w)"
  using assms
  by (auto simp: fake_Complete_def live_call_def take_index_def Let_def split: prod.split option.split)

lemma complete_all_script:
  assumes "fk_Func f = None" and "fk_Err f = None" and "fs_idx st \<le> length (fk_Responses f)" and "complete_all keys f ctx calls st w = (outs, st')"
  shows "live_results outs = map (\<lambda>k. scripted f (fs_idx st + k)) [0..<length (filter (live_call keys f) calls)] \<and>
    fs_calls st' = fs_calls st @ map (\<lambda>call. fst (recordChatRequest keys (snd call) (mr_Provider (fk_ModelRef f)))) calls"
  using assms(3,4)
proof (induction calls arbitrary: st outs)
  case (Cons call calls)
  obtain ctxErr req where call: "call = (ctxErr, req)" by (cases call)
  let ?st1 = "st\<lparr>fs_calls := fs_calls st @ [fst (recordChatRequest keys req (mr_Provider (fk_ModelRef f)))]\<rparr>"
  note step = fake_Complete_script [OF assms(1,2) refl]
  show ?case
  proof (cases "live_call keys f call")
    case True
    let ?st2 = "snd (take_index f ?st1)"
    have idx: "fs_idx ?st2 \<le> length (fk_Responses f)" "fs_calls ?st2 = fs_calls ?st1"
      "\<And>k. scripted f (fs_idx ?st2 + k) = scripted f (Suc (fs_idx st + k))"
      using Cons.prems(1) by (auto simp: take_index_def scripted_def)
    obtain outs' where rest: "complete_all keys f ctx calls ?st2 w = (outs', st')" "outs = (scripted f (fs_idx st), None) # outs'"
      using step(1) [OF True, where ctx = ctx and w = w and st = st] Cons.prems(2) by (auto simp: call split: prod.splits)
    have "map (\<lambda>k. scripted f (fs_idx st + k)) [0..<Suc n] =
        scripted f (fs_idx st) # map (\<lambda>k. scripted f (Suc (fs_idx st + k))) [0..<n]" for n
      by (simp add: upt_conv_Cons map_Suc_upt [symmetric] del: upt_Suc)
    with Cons.IH [OF idx(1) rest(1)] rest(2) True idx(2,3) show ?thesis by (simp add: live_results_def call)
  next
    case False
    from step(2) [OF False, where ctx = ctx and w = w and st = st] obtain r x where out: "fake_Complete keys f ctx ctxErr req st w = ((r, Some x), ?st1, w)"
      by (auto simp: call)
    then obtain outs' where rest: "complete_all keys f ctx calls ?st1 w = (outs', st')" "outs = (r, Some x) # outs'"
      using Cons.prems(2) by (auto simp: call split: prod.splits)
    with Cons.IH [of ?st1 outs'] Cons.prems(1) False show ?thesis by (simp add: live_results_def call)
  qed
qed (auto simp: live_results_def)

text \<open>
  The fake follows its script: of calls made one after another, those that get past the request and context checks get the
  scripted responses in order, the last one again and again once they run out, and every call is recorded, the failed ones too.
\<close>

theorem fake_follows_script:
  assumes "fk_Func f = None" and "fk_Err f = None" and "fk_Responses f \<noteq> []" and "complete_all keys f ctx calls (fake_Reset st) w = (outs, st')"
  shows "live_results outs =
      map (\<lambda>k. fk_Responses f ! min k (length (fk_Responses f) - 1)) [0..<length (filter (live_call keys f) calls)] \<and>
    fake_Calls st' = map (\<lambda>call. fst (recordChatRequest keys (snd call) (mr_Provider (fk_ModelRef f)))) calls"
proof -
  have "scripted f k = fk_Responses f ! min k (length (fk_Responses f) - 1)" for k
  proof (cases "k < length (fk_Responses f)")
    case False
    then have "min k (length (fk_Responses f) - 1) = length (fk_Responses f) - 1" by simp
    with False assms(3) show ?thesis by (simp add: scripted_def last_conv_nth)
  qed (auto simp: scripted_def min_def)
  with complete_all_script [OF assms(1,2) _ assms(4)] show ?thesis by (simp add: fake_Reset_def fake_Calls_def)
qed

section \<open>Hash vectors\<close>

lemma fl32_one: "fl32 1 = 1"
  by code_simp

lemma fl_one: "fl 1 = 1"
  by code_simp

lemma fl32_unit:
  assumes "0 \<le> x" and "x < 1"
  shows "0 \<le> fl32 x \<and> fl32 x \<le> 1"
proof (cases "x = 0")
  case False
  with assms have x: "0 < x" by simp
  let ?u = "(2 :: rat) powi (fexp x - 23)"
  have u: "0 < ?u" by simp
  from fexp_bounds [OF False] x have b: "2 powi fexp x \<le> x" "x < 2 powi (fexp x + 1)" by simp_all
  have e: "fexp x + 1 \<le> 0"
  proof (rule ccontr)
    assume "\<not> fexp x + 1 \<le> 0"
    then have "(2 :: rat) powi 0 \<le> 2 powi fexp x" by (intro powi_mono) simp_all
    with b(1) assms(2) show False by simp
  qed
  have split: "(2 :: rat) powi (fexp x + 1) = 2 ^ 24 * ?u"
    by (simp add: power_int_add [symmetric] power_int_diff power_int_add)
  then have "x / ?u \<le> of_int (2 ^ 24)" using b(2) u by (simp add: field_simps)
  then have "rne (x / ?u) \<le> 2 ^ 24" using rne_mono [of "x / ?u" "of_int (2 ^ 24)"] by (simp only: rne_of_int)
  then have "rat_of_int (rne (x / ?u)) * ?u \<le> 2 ^ 24 * ?u" using u by (intro mult_right_mono) simp_all
  also have "\<dots> \<le> 1" unfolding split [symmetric] using powi_mono [OF e] by simp
  finally have "rat_of_int (rne (x / ?u)) * ?u \<le> 1" .
  moreover have "0 \<le> rne (x / ?u)" using rne_mono [of "of_int 0" "x / ?u"] x u by (simp only: rne_of_int) simp
  ultimately show ?thesis using u False by (simp add: fl32_def)
qed (simp add: fl32_def)

text \<open>A hash vector has the length asked for and its components lie in the closed unit interval.\<close>

lemma Uint32_bound:
  fixes sha256 :: "string \<Rightarrow> nat list"
  assumes "\<And>t. 4 \<le> length (sha256 t) \<and> (\<forall>b \<in> set (sha256 t). b < 256)"
  shows "Uint32 (sha256 t) < 2 ^ 32"
proof -
  have "sha256 t ! i < 256" if "i < 4" for i
    using assms [of t] that by (metis nth_mem order_less_le_trans)
  from this [of 0] this [of 1] this [of 2] this [of 3] show ?thesis by (simp add: Uint32_def)
qed

theorem hash_vectors_in_unit_interval:
  fixes sha256 :: "string \<Rightarrow> nat list"
  assumes "\<And>t. 4 \<le> length (sha256 t) \<and> (\<forall>b \<in> set (sha256 t). b < 256)"
  shows "length (hashVector sha256 s dims) = dims \<and> (\<forall>v \<in> set (hashVector sha256 s dims). 0 \<le> v \<and> v \<le> 1)"
proof -
  have "0 \<le> fl32 (fl (rat_of_nat n / 2 ^ 32)) \<and> fl32 (fl (rat_of_nat n / 2 ^ 32)) \<le> 1" if "n < 2 ^ 32" for n
  proof (cases "fl (rat_of_nat n / 2 ^ 32) = 1")
    case True
    show ?thesis unfolding True by (simp add: fl32_one)
  next
    case False
    have "rat_of_nat n / 2 ^ 32 \<le> 1" using that by simp
    then have "fl (rat_of_nat n / 2 ^ 32) \<le> fl 1" by (rule fl_mono)
    moreover have "fl 0 \<le> fl (rat_of_nat n / 2 ^ 32)" by (rule fl_mono) simp
    ultimately show ?thesis using False by (intro fl32_unit) (simp_all add: fl_one)
  qed
  note this [OF Uint32_bound [OF assms]]
  then show ?thesis unfolding hashVector_def by (intro conjI ballI) (auto simp del: of_nat_less_numeral_power_cancel_iff)
qed

lemma fl32_top: "fl32 (fl (4294967295 / 4294967296)) = 1"
proof -
  have e: "fexp (4294967295 / 4294967296) = -1"
    by (rule fexp_unique) (simp_all add: power_int_minus)
  have "rne (4294967295 / 4294967296 / 2 powi (-1 - 52)) = 4294967295 * 2 ^ 21"
    by (rule rne_of_int_eq) (simp add: power_int_minus)
  then have flx: "fl (4294967295 / 4294967296) = 4294967295 / 4294967296"
    by (simp add: fl_def e power_int_minus)
  have floor_eq: "\<lfloor>4294967295 / 256 :: rat\<rfloor> = 16777215"
    by (rule floor_unique) simp_all
  have "rne (4294967295 / 4294967296 / 2 powi (-1 - 23)) = 2 ^ 24"
    by (simp add: rne_def power_int_minus Let_def floor_eq)
  then show ?thesis unfolding flx by (simp add: fl32_def e power_int_minus)
qed

text \<open>The closed end is reached: four bytes of ones round up to exactly one, as a \<open>float32\<close>.\<close>

theorem hash_component_can_be_one: "hashVector (\<lambda>_. replicate 32 255) ''gopher'' 1 = [1]"
  by (simp add: hashVector_def Uint32_def fl32_top)

end
