(* ===== verification/Store.thy ===== *)
theory Store
  imports TestLLM "HOL-Library.Monad_Syntax" "HOL-Library.Sublist"
begin

text \<open>
  Memory, for the code whose point is what it shares: \<open>llms/testllm/copy.go\<close>. A store is the list of the objects allocated so far,
  and an address is an index into it. A slice is an array with an offset and a length, a pointer or
  map an address or nil. Objects have the source's fields with references in place of the values of the other theories; \<open>read_\<close>
  functions give the value an object stands for together with the addresses it was read from, its footprint.
\<close>

section \<open>Objects\<close>

datatype go_slice = NilSlice | Slice nat nat nat

datatype go_any = AnyNil | AnyBool bool | AnyNum string | AnyStr string | AnyMap "nat option" | AnySlice go_slice

record call_obj =
  co_ID :: string
  co_Name :: string
  co_Parameters :: go_slice
  co_ProviderSignature :: go_slice

record reasoning_obj =
  ro_Provider :: provider_id
  ro_Text :: string
  ro_ProviderData :: go_slice

record part_obj =
  po_Type :: content_part_type
  po_Text :: string
  po_ToolCall :: "nat option"
  po_ToolResult :: "nat option"
  po_Reasoning :: "nat option"
  po_CacheBreakpoint :: bool

record message_obj =
  mo_Role :: role
  mo_Content :: go_slice

record tool_obj =
  tdo_Name :: string
  tdo_Description :: string
  tdo_InputSchema :: go_slice

record request_obj =
  qo_System :: go_slice
  qo_Messages :: go_slice
  qo_Tools :: go_slice
  qo_ToolChoice :: tool_choice
  qo_Purpose :: purpose
  qo_MaxTokens :: int
  qo_Temperature :: "nat option"
  qo_Metadata :: "nat option"
  qo_Reasoning :: "nat option"
  qo_ProviderParams :: "nat option"

record embedding_obj =
  eo_Inputs :: go_slice
  eo_Purpose :: purpose
  eo_Dimensions :: int
  eo_Task :: string
  eo_Metadata :: "nat option"

datatype cell =
    ByteCell string
  | PartCell "part_obj list"
  | MessageCell "message_obj list"
  | ToolCell "tool_obj list"
  | InputCell "embedding_input list"
  | CallCell call_obj
  | ResultCell tool_result
  | ReasoningCell reasoning_obj
  | FloatCell rat
  | ConfigCell reasoning_config
  | StringMapCell metadata
  | ParamsCell "(provider_id \<times> nat option) list"
  | ObjectCell "(string \<times> go_any) list"
  | ArrayCell "go_any list"

type_synonym store = "cell list"

fun bytes_of where "bytes_of (ByteCell x) = Some x" | "bytes_of _ = None"
fun parts_of where "parts_of (PartCell x) = Some x" | "parts_of _ = None"
fun messages_of where "messages_of (MessageCell x) = Some x" | "messages_of _ = None"
fun tools_of where "tools_of (ToolCell x) = Some x" | "tools_of _ = None"
fun inputs_of where "inputs_of (InputCell x) = Some x" | "inputs_of _ = None"
fun call_of where "call_of (CallCell x) = Some x" | "call_of _ = None"
fun result_of where "result_of (ResultCell x) = Some x" | "result_of _ = None"
fun reasoning_of where "reasoning_of (ReasoningCell x) = Some x" | "reasoning_of _ = None"
fun float_of where "float_of (FloatCell x) = Some x" | "float_of _ = None"
fun config_of where "config_of (ConfigCell x) = Some x" | "config_of _ = None"
fun strings_of where "strings_of (StringMapCell x) = Some x" | "strings_of _ = None"
fun params_of where "params_of (ParamsCell x) = Some x" | "params_of _ = None"
fun object_of where "object_of (ObjectCell x) = Some x" | "object_of _ = None"
fun array_of where "array_of (ArrayCell x) = Some x" | "array_of _ = None"

section \<open>Reading and copying\<close>

text \<open>A reader gives a value and its footprint, or nothing where the store does not hold an object of its type.\<close>

type_synonym ('x, 'v) reader = "store \<Rightarrow> 'x \<Rightarrow> ('v \<times> nat list) option"
type_synonym 'x copier = "'x \<Rightarrow> store \<Rightarrow> ('x \<times> store) option"

definition fetch :: "(cell \<Rightarrow> 'x option) \<Rightarrow> store \<Rightarrow> nat \<Rightarrow> 'x option" where
  "fetch get h a = (if a < length h then get (h ! a) else None)"

definition window :: "nat \<Rightarrow> nat \<Rightarrow> 'x list \<Rightarrow> 'x list option" where
  "window off n xs = (if off + n \<le> length xs then Some (take n (drop off xs)) else None)"

definition read_plain :: "('x, 'x) reader" where "read_plain h x = Some (x, [])"
definition copy_plain :: "'x copier" where "copy_plain x h = Some (x, h)"

fun read_list :: "('x, 'v) reader \<Rightarrow> ('x list, 'v list) reader" where
  "read_list rd h [] = Some ([], [])"
| "read_list rd h (x # xs) = do { (v, F) \<leftarrow> rd h x; (vs, G) \<leftarrow> read_list rd h xs; Some (v # vs, F @ G) }"

fun copy_list :: "'x copier \<Rightarrow> 'x list copier" where
  "copy_list cp [] h = Some ([], h)"
| "copy_list cp (x # xs) h = do { (x, h) \<leftarrow> cp x h; (xs, h) \<leftarrow> copy_list cp xs h; Some (x # xs, h) }"

definition read_pair :: "('x, 'v) reader \<Rightarrow> ('y, 'u) reader \<Rightarrow> ('x \<times> 'y, 'v \<times> 'u) reader" where
  "read_pair rd1 rd2 h xy = do { (v, F) \<leftarrow> rd1 h (fst xy); (u, G) \<leftarrow> rd2 h (snd xy); Some ((v, u), F @ G) }"

definition copy_pair :: "'x copier \<Rightarrow> 'y copier \<Rightarrow> ('x \<times> 'y) copier" where
  "copy_pair cp1 cp2 xy h = do { (x, h) \<leftarrow> cp1 (fst xy) h; (y, h) \<leftarrow> cp2 (snd xy) h; Some ((x, y), h) }"

definition read_slice :: "(cell \<Rightarrow> 'x list option) \<Rightarrow> ('x, 'v) reader \<Rightarrow> (go_slice, 'v list) reader" where
  "read_slice get rd h s =
     (case s of
        NilSlice \<Rightarrow> Some ([], [])
      | Slice a off n \<Rightarrow> do { xs \<leftarrow> fetch get h a; ys \<leftarrow> window off n xs; (vs, F) \<leftarrow> read_list rd h ys; Some (vs, a # F) })"

text \<open>A copied slice is nil, or a new array of the elements it shows, each copied in order.\<close>

definition copy_slice :: "(cell \<Rightarrow> 'x list option) \<Rightarrow> ('x list \<Rightarrow> cell) \<Rightarrow> 'x copier \<Rightarrow> go_slice copier" where
  "copy_slice get mk cp s h =
     (case s of
        NilSlice \<Rightarrow> Some (NilSlice, h)
      | Slice a off n \<Rightarrow> do { xs \<leftarrow> fetch get h a; ys \<leftarrow> window off n xs; (ys, h) \<leftarrow> copy_list cp ys h;
          Some (Slice (length h) 0 n, h @ [mk ys]) })"

definition read_ptr :: "(cell \<Rightarrow> 'x option) \<Rightarrow> ('x, 'v) reader \<Rightarrow> (nat option, 'v option) reader" where
  "read_ptr get rd h p =
     (case p of
        None \<Rightarrow> Some (None, [])
      | Some a \<Rightarrow> do { x \<leftarrow> fetch get h a; (v, F) \<leftarrow> rd h x; Some (Some v, a # F) })"

definition copy_ptr :: "(cell \<Rightarrow> 'x option) \<Rightarrow> ('x \<Rightarrow> cell) \<Rightarrow> 'x copier \<Rightarrow> nat option copier" where
  "copy_ptr get mk cp p h =
     (case p of
        None \<Rightarrow> Some (None, h)
      | Some a \<Rightarrow> do { x \<leftarrow> fetch get h a; (x, h) \<leftarrow> cp x h; Some (Some (length h), h @ [mk x]) })"

lemma prefix_same: "prefix h h' \<Longrightarrow> a < length h \<Longrightarrow> a < length h' \<and> h' ! a = h ! a"
  by (auto simp: prefix_def nth_append)

section \<open>What a copy promises\<close>

text \<open>
  The promise: a readable object is copied, into new memory only, and the copy reads the same. The first two laws
  say what a footprint is: it lies in the store, and nothing else matters to the value.
\<close>

locale copyable =
  fixes rd :: "('x, 'v) reader" and cp :: "'x copier"
  assumes bounded: "rd h x = Some (v, F) \<Longrightarrow> a \<in> set F \<Longrightarrow> a < length h"
    and framed: "rd h x = Some (v, F) \<Longrightarrow> (\<And>a. a \<in> set F \<Longrightarrow> a < length h' \<and> h' ! a = h ! a) \<Longrightarrow> rd h' x = Some (v, F)"
    and copied: "rd h x = Some (v, F) \<Longrightarrow>
      \<exists>x' h' F'. cp x h = Some (x', h') \<and> prefix h h' \<and> rd h' x' = Some (v, F') \<and> (\<forall>a \<in> set F'. length h \<le> a)"
begin

text \<open>More memory does not change a value.\<close>

lemma extended: "rd h x = Some (v, F) \<Longrightarrow> prefix h h' \<Longrightarrow> rd h' x = Some (v, F)"
  using bounded by (blast intro: framed dest: prefix_same)

lemma list_bounded: "read_list rd h xs = Some (vs, F) \<Longrightarrow> a \<in> set F \<Longrightarrow> a < length h"
  by (induction xs arbitrary: vs F) (auto simp: bind_eq_Some_conv dest: bounded)

lemma list_framed:
  "read_list rd h xs = Some (vs, F) \<Longrightarrow> (\<And>a. a \<in> set F \<Longrightarrow> a < length h' \<and> h' ! a = h ! a) \<Longrightarrow> read_list rd h' xs = Some (vs, F)"
proof (induction xs arbitrary: vs F)
  case (Cons x xs)
  from Cons.prems(1) obtain v F1 us F2 where r: "rd h x = Some (v, F1)" "read_list rd h xs = Some (us, F2)" "vs = v # us" "F = F1 @ F2"
    by (auto simp: bind_eq_Some_conv)
  have "rd h' x = Some (v, F1)" by (rule framed [OF r(1)]) (use Cons.prems(2) r(4) in auto)
  moreover have "read_list rd h' xs = Some (us, F2)" by (rule Cons.IH [OF r(2)]) (use Cons.prems(2) r(4) in auto)
  ultimately show ?case using r(3,4) by simp
qed simp

lemma list_copied:
  "read_list rd h xs = Some (vs, F) \<Longrightarrow>
     \<exists>xs' h' F'. copy_list cp xs h = Some (xs', h') \<and> prefix h h' \<and> read_list rd h' xs' = Some (vs, F') \<and> (\<forall>a \<in> set F'. length h \<le> a)"
proof (induction xs arbitrary: h vs F)
  case (Cons x xs)
  from Cons.prems obtain v F1 us F2 where r: "rd h x = Some (v, F1)" "read_list rd h xs = Some (us, F2)" "vs = v # us"
    by (auto simp: bind_eq_Some_conv)
  from copied [OF r(1)] obtain x' h1 F1' where c: "cp x h = Some (x', h1)" "prefix h h1" "rd h1 x' = Some (v, F1')"
    "\<forall>a \<in> set F1'. length h \<le> a" by blast
  have "read_list rd h1 xs = Some (us, F2)"
    by (rule list_framed [OF r(2)]) (use list_bounded [OF r(2)] c(2) in \<open>blast dest: prefix_same\<close>)
  from Cons.IH [OF this] obtain xs' h2 F2' where d: "copy_list cp xs h1 = Some (xs', h2)" "prefix h1 h2" "read_list rd h2 xs' = Some (us, F2')"
    "\<forall>a \<in> set F2'. length h1 \<le> a" by blast
  have "rd h2 x' = Some (v, F1')" by (rule extended [OF c(3) d(2)])
  moreover have "\<forall>a \<in> set (F1' @ F2'). length h \<le> a" using prefix_length_le [OF c(2)] c(4) d(4) by auto
  ultimately show ?case using c(1,2) d(1-3) r(3) by (auto intro: prefix_order.trans)
qed simp

lemma list_copyable: "copyable (read_list rd) (copy_list cp)"
  by unfold_locales (use list_bounded list_framed list_copied in blast)+

end

lemma copy_list_length: "copy_list cp xs h = Some (ys, h') \<Longrightarrow> length ys = length xs"
  by (induction xs arbitrary: h ys h') (auto simp: bind_eq_Some_conv)

lemma fetch_extended: "fetch get h a = Some x \<Longrightarrow> prefix h h' \<Longrightarrow> fetch get h' a = Some x"
  by (auto simp: fetch_def prefix_def nth_append split: if_splits)

lemma fetch_new: "get c = Some x \<Longrightarrow> fetch get (h @ [c]) (length h) = Some x"
  by (simp add: fetch_def)

lemma plain_copyable: "copyable read_plain copy_plain"
  by unfold_locales (auto simp: read_plain_def copy_plain_def)

text \<open>Slices, pointers and pairs keep the promise of what they hold, and so does an object made of them.\<close>

context copyable begin

lemma slice_copyable:
  assumes get: "\<And>xs. get (mk xs) = Some xs"
  shows "copyable (read_slice get rd) (copy_slice get mk cp)"
proof
  fix h s vs F a assume "read_slice get rd h s = Some (vs, F)" and "a \<in> set F"
  then show "a < length h"
    by (auto simp: read_slice_def bind_eq_Some_conv fetch_def split: go_slice.splits if_splits dest: list_bounded)
next
  fix h s vs F h' assume r: "read_slice get rd h s = Some (vs, F)" and same: "\<And>a. a \<in> set F \<Longrightarrow> a < length h' \<and> h' ! a = h ! a"
  show "read_slice get rd h' s = Some (vs, F)"
  proof (cases s)
    case (Slice b off n)
    with r obtain xs ys G where s: "fetch get h b = Some xs" "window off n xs = Some ys" "read_list rd h ys = Some (vs, G)" "F = b # G"
      by (auto simp: read_slice_def bind_eq_Some_conv)
    have "fetch get h' b = Some xs" using s(1,4) same [of b] by (simp add: fetch_def split: if_splits)
    moreover have "read_list rd h' ys = Some (vs, G)" by (rule list_framed [OF s(3)]) (use same s(4) in simp)
    ultimately show ?thesis using s(2,4) by (simp add: Slice read_slice_def)
  qed (use r in \<open>simp add: read_slice_def\<close>)
next
  fix h s vs F assume r: "read_slice get rd h s = Some (vs, F)"
  show "\<exists>s' h' F'. copy_slice get mk cp s h = Some (s', h') \<and> prefix h h' \<and> read_slice get rd h' s' = Some (vs, F') \<and> (\<forall>a \<in> set F'. length h \<le> a)"
  proof (cases s)
    case (Slice b off n)
    with r obtain xs ys G where s: "fetch get h b = Some xs" "window off n xs = Some ys" "read_list rd h ys = Some (vs, G)" "F = b # G"
      by (auto simp: read_slice_def bind_eq_Some_conv)
    from list_copied [OF s(3)] obtain ys' h1 G' where c: "copy_list cp ys h = Some (ys', h1)" "prefix h h1" "read_list rd h1 ys' = Some (vs, G')"
      "\<forall>a \<in> set G'. length h \<le> a" by blast
    have len: "length ys' = n" using s(2) copy_list_length [OF c(1)] by (auto simp: window_def split: if_splits)
    have "read_list rd (h1 @ [mk ys']) ys' = Some (vs, G')"
      by (rule list_framed [OF c(3)]) (use list_bounded [OF c(3)] in \<open>auto simp: nth_append intro: less_SucI\<close>)
    then have "read_slice get rd (h1 @ [mk ys']) (Slice (length h1) 0 n) = Some (vs, length h1 # G')"
      using len by (simp add: read_slice_def fetch_new [where get = get, OF get] window_def)
    moreover have "copy_slice get mk cp s h = Some (Slice (length h1) 0 n, h1 @ [mk ys'])"
      by (simp add: Slice copy_slice_def s(1,2) c(1))
    moreover have "prefix h (h1 @ [mk ys'])" "\<forall>a \<in> set (length h1 # G'). length h \<le> a" using c(2,4) by (auto dest: prefix_length_le)
    ultimately show ?thesis by blast
  qed (use r in \<open>simp add: read_slice_def copy_slice_def\<close>)
qed

lemma ptr_copyable:
  assumes get: "\<And>x. get (mk x) = Some x"
  shows "copyable (read_ptr get rd) (copy_ptr get mk cp)"
proof
  fix h p v F a assume "read_ptr get rd h p = Some (v, F)" and "a \<in> set F"
  then show "a < length h"
    by (auto simp: read_ptr_def bind_eq_Some_conv fetch_def split: option.splits if_splits dest: bounded)
next
  fix h p v F h' assume r: "read_ptr get rd h p = Some (v, F)" and same: "\<And>a. a \<in> set F \<Longrightarrow> a < length h' \<and> h' ! a = h ! a"
  show "read_ptr get rd h' p = Some (v, F)"
  proof (cases p)
    case (Some b)
    with r obtain x u G where s: "fetch get h b = Some x" "rd h x = Some (u, G)" "F = b # G" "v = Some u"
      by (auto simp: read_ptr_def bind_eq_Some_conv)
    have "fetch get h' b = Some x" using s(1,3) same [of b] by (simp add: fetch_def split: if_splits)
    moreover have "rd h' x = Some (u, G)" by (rule framed [OF s(2)]) (use same s(3) in simp)
    ultimately show ?thesis using s(3,4) by (simp add: Some read_ptr_def)
  qed (use r in \<open>simp add: read_ptr_def\<close>)
next
  fix h p v F assume r: "read_ptr get rd h p = Some (v, F)"
  show "\<exists>p' h' F'. copy_ptr get mk cp p h = Some (p', h') \<and> prefix h h' \<and> read_ptr get rd h' p' = Some (v, F') \<and> (\<forall>a \<in> set F'. length h \<le> a)"
  proof (cases p)
    case (Some b)
    with r obtain x u G where s: "fetch get h b = Some x" "rd h x = Some (u, G)" "v = Some u"
      by (auto simp: read_ptr_def bind_eq_Some_conv)
    from copied [OF s(2)] obtain x' h1 G' where c: "cp x h = Some (x', h1)" "prefix h h1" "rd h1 x' = Some (u, G')"
      "\<forall>a \<in> set G'. length h \<le> a" by blast
    have "rd (h1 @ [mk x']) x' = Some (u, G')" by (rule extended [OF c(3)]) simp
    then have "read_ptr get rd (h1 @ [mk x']) (Some (length h1)) = Some (v, length h1 # G')"
      by (simp add: read_ptr_def fetch_new [where get = get, OF get] s(3))
    moreover have "copy_ptr get mk cp p h = Some (Some (length h1), h1 @ [mk x'])" by (simp add: Some copy_ptr_def s(1) c(1))
    moreover have "prefix h (h1 @ [mk x'])" "\<forall>a \<in> set (length h1 # G'). length h \<le> a" using c(2,4) by (auto dest: prefix_length_le)
    ultimately show ?thesis by blast
  qed (use r in \<open>simp add: read_ptr_def copy_ptr_def\<close>)
qed

text \<open>An object \<open>x\<close> with the references \<open>f x\<close>, its value made from theirs.\<close>

lemma object_copyable:
  assumes upd: "\<And>x y. f (upd y x) = y" "\<And>x y v. g (upd y x) v = g x v"
  shows "copyable (\<lambda>h x. map_option (\<lambda>(v, F). (g x v, F)) (rd h (f x))) (\<lambda>x h. map_option (\<lambda>(y, h). (upd y x, h)) (cp (f x) h))"
proof
  fix h x v F a assume "map_option (\<lambda>(v, F). (g x v, F)) (rd h (f x)) = Some (v, F)" and "a \<in> set F"
  then show "a < length h" by (auto dest: bounded)
next
  fix h x v F h' assume "map_option (\<lambda>(v, F). (g x v, F)) (rd h (f x)) = Some (v, F)" and same: "\<And>a. a \<in> set F \<Longrightarrow> a < length h' \<and> h' ! a = h ! a"
  then obtain u where u: "rd h (f x) = Some (u, F)" "v = g x u" by auto
  from framed [OF u(1) same] u(2) show "map_option (\<lambda>(v, F). (g x v, F)) (rd h' (f x)) = Some (v, F)" by simp
next
  fix h x v F assume "map_option (\<lambda>(v, F). (g x v, F)) (rd h (f x)) = Some (v, F)"
  then obtain u where u: "rd h (f x) = Some (u, F)" "v = g x u" by auto
  from copied [OF u(1)] obtain y h' F' where "cp (f x) h = Some (y, h')" "prefix h h'" "rd h' y = Some (u, F')" "\<forall>a \<in> set F'. length h \<le> a" by blast
  then show "\<exists>x' h' F'. map_option (\<lambda>(y, h). (upd y x, h)) (cp (f x) h) = Some (x', h') \<and> prefix h h' \<and>
      map_option (\<lambda>(v, F). (g x' v, F)) (rd h' (f x')) = Some (v, F') \<and> (\<forall>a \<in> set F'. length h \<le> a)"
    by (intro exI [of _ "upd y x"] exI [of _ h'] exI [of _ F']) (simp add: upd u(2))
qed

end

lemma pair_copyable:
  assumes "copyable rd1 cp1" and "copyable rd2 cp2"
  shows "copyable (read_pair rd1 rd2) (copy_pair cp1 cp2)"
proof
  fix h xy v F a assume "read_pair rd1 rd2 h xy = Some (v, F)" and "a \<in> set F"
  then show "a < length h"
    using copyable.bounded [OF assms(1)] copyable.bounded [OF assms(2)] by (auto simp: read_pair_def bind_eq_Some_conv)
next
  fix h xy v F h' assume r: "read_pair rd1 rd2 h xy = Some (v, F)" and same: "\<And>a. a \<in> set F \<Longrightarrow> a < length h' \<and> h' ! a = h ! a"
  from r obtain u1 F1 u2 F2 where s: "rd1 h (fst xy) = Some (u1, F1)" "rd2 h (snd xy) = Some (u2, F2)" "v = (u1, u2)" "F = F1 @ F2"
    by (auto simp: read_pair_def bind_eq_Some_conv)
  have "rd1 h' (fst xy) = Some (u1, F1)" by (rule copyable.framed [OF assms(1) s(1)]) (use same s(4) in auto)
  moreover have "rd2 h' (snd xy) = Some (u2, F2)" by (rule copyable.framed [OF assms(2) s(2)]) (use same s(4) in auto)
  ultimately show "read_pair rd1 rd2 h' xy = Some (v, F)" using s(3,4) by (simp add: read_pair_def)
next
  fix h xy v F assume r: "read_pair rd1 rd2 h xy = Some (v, F)"
  from r obtain u1 F1 u2 F2 where s: "rd1 h (fst xy) = Some (u1, F1)" "rd2 h (snd xy) = Some (u2, F2)" "v = (u1, u2)" "F = F1 @ F2"
    by (auto simp: read_pair_def bind_eq_Some_conv)
  from copyable.copied [OF assms(1) s(1)] obtain x h1 G1 where c: "cp1 (fst xy) h = Some (x, h1)" "prefix h h1" "rd1 h1 x = Some (u1, G1)"
    "\<forall>a \<in> set G1. length h \<le> a" by blast
  from copyable.copied [OF assms(2) copyable.extended [OF assms(2) s(2) c(2)]] obtain y h2 G2 where
    d: "cp2 (snd xy) h1 = Some (y, h2)" "prefix h1 h2" "rd2 h2 y = Some (u2, G2)" "\<forall>a \<in> set G2. length h1 \<le> a" by blast
  have "rd1 h2 x = Some (u1, G1)" by (rule copyable.extended [OF assms(1) c(3) d(2)])
  with d(3) s(3) have "read_pair rd1 rd2 h2 (x, y) = Some (v, G1 @ G2)" by (simp add: read_pair_def)
  moreover have "copy_pair cp1 cp2 xy h = Some ((x, y), h2)" by (simp add: copy_pair_def c(1) d(1))
  moreover have "prefix h h2" using c(2) d(2) by (rule prefix_order.trans)
  moreover have "\<forall>a \<in> set (G1 @ G2). length h \<le> a" using prefix_length_le [OF c(2)] c(4) d(4) by auto
  ultimately show "\<exists>x' h' F'. copy_pair cp1 cp2 xy h = Some (x', h') \<and> prefix h h' \<and> read_pair rd1 rd2 h' x' = Some (v, F') \<and> (\<forall>a \<in> set F'. length h \<le> a)"
    by blast
qed

section \<open>The copies of copy.go\<close>

definition read_bytes :: "(go_slice, string) reader" where "read_bytes = read_slice bytes_of read_plain"
definition clone_bytes :: "go_slice copier" where "clone_bytes = copy_slice bytes_of ByteCell copy_plain"

definition read_call :: "(call_obj, tool_call) reader" where
  "read_call h c = do { (params, F) \<leftarrow> read_bytes h (co_Parameters c); (sig, G) \<leftarrow> read_bytes h (co_ProviderSignature c);
     Some (\<lparr>tc_ID = co_ID c, tc_Name = co_Name c, tc_Parameters = params, tc_ProviderSignature = sig\<rparr>, F @ G) }"

definition copy_call :: "call_obj copier" where
  "copy_call c h = do { (params, h) \<leftarrow> clone_bytes (co_Parameters c) h; (sig, h) \<leftarrow> clone_bytes (co_ProviderSignature c) h;
     Some (c\<lparr>co_Parameters := params, co_ProviderSignature := sig\<rparr>, h) }"

definition read_reasoning :: "(reasoning_obj, reasoning) reader" where
  "read_reasoning h r = do { (d, F) \<leftarrow> read_bytes h (ro_ProviderData r);
     Some (\<lparr>rs_Provider = ro_Provider r, rs_Text = ro_Text r, rs_ProviderData = d\<rparr>, F) }"

definition copy_reasoning :: "reasoning_obj copier" where
  "copy_reasoning r h = do { (d, h) \<leftarrow> clone_bytes (ro_ProviderData r) h; Some (r\<lparr>ro_ProviderData := d\<rparr>, h) }"

definition read_part :: "(part_obj, content_part) reader" where
  "read_part h p = do { (tc, F) \<leftarrow> read_ptr call_of read_call h (po_ToolCall p); (tr, G) \<leftarrow> read_ptr result_of read_plain h (po_ToolResult p);
     (r, H) \<leftarrow> read_ptr reasoning_of read_reasoning h (po_Reasoning p);
     Some (\<lparr>cp_Type = po_Type p, cp_Text = po_Text p, cp_ToolCall = tc, cp_ToolResult = tr, cp_Reasoning = r,
            cp_CacheBreakpoint = po_CacheBreakpoint p\<rparr>, F @ G @ H) }"

definition copy_part :: "part_obj copier" where
  "copy_part p h = do { (tc, h) \<leftarrow> copy_ptr call_of CallCell copy_call (po_ToolCall p) h;
     (tr, h) \<leftarrow> copy_ptr result_of ResultCell copy_plain (po_ToolResult p) h;
     (r, h) \<leftarrow> copy_ptr reasoning_of ReasoningCell copy_reasoning (po_Reasoning p) h;
     Some (p\<lparr>po_ToolCall := tc, po_ToolResult := tr, po_Reasoning := r\<rparr>, h) }"

definition read_parts :: "(go_slice, content_part list) reader" where "read_parts = read_slice parts_of read_part"
definition copyContentParts :: "go_slice copier" where "copyContentParts = copy_slice parts_of PartCell copy_part"

definition read_message :: "(message_obj, message) reader" where
  "read_message h m = do { (ps, F) \<leftarrow> read_parts h (mo_Content m); Some (\<lparr>m_Role = mo_Role m, m_Content = ps\<rparr>, F) }"

definition copy_message :: "message_obj copier" where
  "copy_message m h = do { (ps, h) \<leftarrow> copyContentParts (mo_Content m) h; Some (m\<lparr>mo_Content := ps\<rparr>, h) }"

definition read_tool :: "(tool_obj, tool_definition) reader" where
  "read_tool h t = do { (s, F) \<leftarrow> read_bytes h (tdo_InputSchema t);
     Some (\<lparr>td_Name = tdo_Name t, td_Description = tdo_Description t, td_InputSchema = s\<rparr>, F) }"

definition copy_tool :: "tool_obj copier" where
  "copy_tool t h = do { (s, h) \<leftarrow> clone_bytes (tdo_InputSchema t) h; Some (t\<lparr>tdo_InputSchema := s\<rparr>, h) }"

text \<open>Documents. The fuel bounds the nesting; a nil map or slice reads as \<open>null\<close>, which is how it marshals.\<close>

fun read_any :: "nat \<Rightarrow> (go_any, json) reader" where
  "read_any n h AnyNil = Some (JNull, [])"
| "read_any n h (AnyBool b) = Some (JBool b, [])"
| "read_any n h (AnyNum lit) = Some (JNum lit, [])"
| "read_any n h (AnyStr t) = Some (JStr t, [])"
| "read_any n h (AnyMap None) = Some (JNull, [])"
| "read_any n h (AnySlice NilSlice) = Some (JNull, [])"
| "read_any 0 h v = None"
| "read_any (Suc n) h (AnyMap (Some a)) =
     do { (fs, F) \<leftarrow> read_ptr object_of (read_list (read_pair read_plain (read_any n))) h (Some a); Some (JObj (the fs), F) }"
| "read_any (Suc n) h (AnySlice (Slice a off k)) =
     do { (js, F) \<leftarrow> read_slice array_of (read_any n) h (Slice a off k); Some (JArr js, F) }"

fun deepCopyJSON :: "nat \<Rightarrow> go_any copier" where
  "deepCopyJSON n (AnyMap None) h = Some (AnyNil, h)"
| "deepCopyJSON n (AnySlice NilSlice) h = Some (AnyNil, h)"
| "deepCopyJSON (Suc n) (AnyMap (Some a)) h =
     do { (m, h) \<leftarrow> copy_ptr object_of ObjectCell (copy_list (copy_pair copy_plain (deepCopyJSON n))) (Some a) h; Some (AnyMap m, h) }"
| "deepCopyJSON (Suc n) (AnySlice (Slice a off k)) h =
     do { (s, h) \<leftarrow> copy_slice array_of ArrayCell (deepCopyJSON n) (Slice a off k) h; Some (AnySlice s, h) }"
| "deepCopyJSON 0 (AnyMap (Some a)) h = None"
| "deepCopyJSON 0 (AnySlice (Slice a off k)) h = None"
| "deepCopyJSON n v h = Some (v, h)"

text \<open>An entry of \<open>ProviderParams\<close>: the assertion to \<open>map[string]any\<close> makes a nil map of a nil copy.\<close>

definition read_entry :: "nat \<Rightarrow> (nat option, (string \<times> json) list) reader" where
  "read_entry n h m = do { (j, F) \<leftarrow> read_any n h (AnyMap m); Some (case j of JObj fs \<Rightarrow> fs | _ \<Rightarrow> [], F) }"

definition copy_entry :: "nat \<Rightarrow> nat option copier" where
  "copy_entry n m h = do { (v, h) \<leftarrow> deepCopyJSON n (AnyMap m) h; Some (case v of AnyMap m \<Rightarrow> m | _ \<Rightarrow> None, h) }"

definition read_params :: "nat \<Rightarrow> (nat option, (provider_id \<times> (string \<times> json) list) list option) reader" where
  "read_params n = read_ptr params_of (read_list (read_pair read_plain (read_entry n)))"

definition copy_params :: "nat \<Rightarrow> nat option copier" where
  "copy_params n = copy_ptr params_of ParamsCell (copy_list (copy_pair copy_plain (copy_entry n)))"

definition read_metadata :: "(nat option, metadata option) reader" where "read_metadata = read_ptr strings_of read_plain"
definition clone_metadata :: "nat option copier" where "clone_metadata = copy_ptr strings_of StringMapCell copy_plain"

definition param_map :: "(provider_id \<times> (string \<times> json) list) list option \<Rightarrow> (provider_id \<rightharpoonup> (string \<times> json) list)" where
  "param_map ps = map_of (case ps of None \<Rightarrow> [] | Some ps \<Rightarrow> ps)"

definition read_request :: "nat \<Rightarrow> (request_obj, chat_request) reader" where
  "read_request n h q = do { (sys, F1) \<leftarrow> read_parts h (qo_System q); (ms, F2) \<leftarrow> read_slice messages_of read_message h (qo_Messages q);
     (ts, F3) \<leftarrow> read_slice tools_of read_tool h (qo_Tools q); (temp, F4) \<leftarrow> read_ptr float_of read_plain h (qo_Temperature q);
     (rc, F5) \<leftarrow> read_ptr config_of read_plain h (qo_Reasoning q); (meta, F6) \<leftarrow> read_metadata h (qo_Metadata q);
     (pp, F7) \<leftarrow> read_params n h (qo_ProviderParams q);
     Some (\<lparr>cr_System = sys, cr_Messages = ms, cr_Tools = ts, cr_ToolChoice = qo_ToolChoice q, cr_Purpose = qo_Purpose q,
            cr_MaxTokens = qo_MaxTokens q, cr_Temperature = temp, cr_Metadata = (case meta of None \<Rightarrow> Map.empty | Some m \<Rightarrow> m),
            cr_Reasoning = rc, cr_ProviderParams = param_map pp\<rparr>, F1 @ F2 @ F3 @ F4 @ F5 @ F6 @ F7) }"

definition copyChatRequest :: "nat \<Rightarrow> request_obj copier" where
  "copyChatRequest n q h = do { (sys, h) \<leftarrow> copyContentParts (qo_System q) h; (ms, h) \<leftarrow> copy_slice messages_of MessageCell copy_message (qo_Messages q) h;
     (ts, h) \<leftarrow> copy_slice tools_of ToolCell copy_tool (qo_Tools q) h; (temp, h) \<leftarrow> copy_ptr float_of FloatCell copy_plain (qo_Temperature q) h;
     (rc, h) \<leftarrow> copy_ptr config_of ConfigCell copy_plain (qo_Reasoning q) h; (meta, h) \<leftarrow> clone_metadata (qo_Metadata q) h;
     (pp, h) \<leftarrow> copy_params n (qo_ProviderParams q) h;
     Some (q\<lparr>qo_System := sys, qo_Messages := ms, qo_Tools := ts, qo_Temperature := temp, qo_Reasoning := rc, qo_Metadata := meta,
             qo_ProviderParams := pp\<rparr>, h) }"

definition read_embedding :: "(embedding_obj, embedding_request) reader" where
  "read_embedding h e = do { (ins, F) \<leftarrow> read_slice inputs_of read_plain h (eo_Inputs e); (meta, G) \<leftarrow> read_metadata h (eo_Metadata e);
     Some (\<lparr>er_Inputs = ins, er_Purpose = eo_Purpose e, er_Dimensions = eo_Dimensions e, er_Task = eo_Task e,
            er_Metadata = (case meta of None \<Rightarrow> Map.empty | Some m \<Rightarrow> m)\<rparr>, F @ G) }"

definition copyEmbeddingRequest :: "embedding_obj copier" where
  "copyEmbeddingRequest e h = do { (ins, h) \<leftarrow> copy_slice inputs_of InputCell copy_plain (eo_Inputs e) h; (meta, h) \<leftarrow> clone_metadata (eo_Metadata e) h;
     Some (e\<lparr>eo_Inputs := ins, eo_Metadata := meta\<rparr>, h) }"

text \<open>The copies keep the promise, bottom up. An object's chain of reads is the read of the tuple of its references.\<close>

lemma object_copyableI:
  assumes "copyable rd cp"
    and "\<And>h x. rd' h x = map_option (\<lambda>(v, F). (g x v, F)) (rd h (f x))"
    and "\<And>h x. cp' x h = map_option (\<lambda>(y, h). (upd y x, h)) (cp (f x) h)"
    and "\<And>x y. f (upd y x) = y" and "\<And>x y v. g (upd y x) v = g x v"
  shows "copyable rd' cp'"
proof -
  have "rd' = (\<lambda>h x. map_option (\<lambda>(v, F). (g x v, F)) (rd h (f x)))" "cp' = (\<lambda>x h. map_option (\<lambda>(y, h). (upd y x, h)) (cp (f x) h))"
    by (simp_all add: fun_eq_iff assms(2,3))
  then show ?thesis using copyable.object_copyable [OF assms(1), of f upd g] assms(4,5) by simp
qed

lemma bytes_copyable: "copyable read_bytes clone_bytes"
  unfolding read_bytes_def clone_bytes_def by (rule copyable.slice_copyable [OF plain_copyable]) simp

lemma call_copyable: "copyable read_call copy_call"
  by (rule object_copyableI [OF pair_copyable [OF bytes_copyable bytes_copyable],
        where f = "\<lambda>c. (co_Parameters c, co_ProviderSignature c)" and upd = "\<lambda>(a, b) c. c\<lparr>co_Parameters := a, co_ProviderSignature := b\<rparr>"
          and g = "\<lambda>c (a, b). \<lparr>tc_ID = co_ID c, tc_Name = co_Name c, tc_Parameters = a, tc_ProviderSignature = b\<rparr>"])
    (auto simp: read_call_def copy_call_def read_pair_def copy_pair_def split: Option.bind_split prod.splits)

lemma reasoning_copyable: "copyable read_reasoning copy_reasoning"
  by (rule object_copyableI [OF bytes_copyable, where f = ro_ProviderData and upd = "\<lambda>d r. r\<lparr>ro_ProviderData := d\<rparr>"
          and g = "\<lambda>r d. \<lparr>rs_Provider = ro_Provider r, rs_Text = ro_Text r, rs_ProviderData = d\<rparr>"])
    (auto simp: read_reasoning_def copy_reasoning_def split: Option.bind_split prod.splits)

lemma part_copyable: "copyable read_part copy_part"
  by (rule object_copyableI [OF pair_copyable [OF copyable.ptr_copyable [OF call_copyable, where get = call_of and mk = CallCell]
          pair_copyable [OF copyable.ptr_copyable [OF plain_copyable, where get = result_of and mk = ResultCell]
            copyable.ptr_copyable [OF reasoning_copyable, where get = reasoning_of and mk = ReasoningCell]]],
        where f = "\<lambda>p. (po_ToolCall p, po_ToolResult p, po_Reasoning p)"
          and upd = "\<lambda>(a, b, c) p. p\<lparr>po_ToolCall := a, po_ToolResult := b, po_Reasoning := c\<rparr>"
          and g = "\<lambda>p (a, b, c). \<lparr>cp_Type = po_Type p, cp_Text = po_Text p, cp_ToolCall = a, cp_ToolResult = b, cp_Reasoning = c,
            cp_CacheBreakpoint = po_CacheBreakpoint p\<rparr>"])
    (auto simp: read_part_def copy_part_def read_pair_def copy_pair_def split: Option.bind_split prod.splits)

lemma parts_copyable: "copyable read_parts copyContentParts"
  unfolding read_parts_def copyContentParts_def by (rule copyable.slice_copyable [OF part_copyable]) simp

lemma message_copyable: "copyable read_message copy_message"
  by (rule object_copyableI [OF parts_copyable, where f = mo_Content and upd = "\<lambda>ps m. m\<lparr>mo_Content := ps\<rparr>"
          and g = "\<lambda>m ps. \<lparr>m_Role = mo_Role m, m_Content = ps\<rparr>"])
    (auto simp: read_message_def copy_message_def split: Option.bind_split prod.splits)

lemma tool_copyable: "copyable read_tool copy_tool"
  by (rule object_copyableI [OF bytes_copyable, where f = tdo_InputSchema and upd = "\<lambda>s t. t\<lparr>tdo_InputSchema := s\<rparr>"
          and g = "\<lambda>t s. \<lparr>td_Name = tdo_Name t, td_Description = tdo_Description t, td_InputSchema = s\<rparr>"])
    (auto simp: read_tool_def copy_tool_def split: Option.bind_split prod.splits)

lemma metadata_copyable: "copyable read_metadata clone_metadata"
  unfolding read_metadata_def clone_metadata_def by (rule copyable.ptr_copyable [OF plain_copyable]) simp

text \<open>A document's copy: fuel that reads it copies it.\<close>

lemma any_copyable: "copyable (read_any n) (deepCopyJSON n)"
proof (induction n)
  case 0
  show ?case
  proof
    fix h v j F a assume "read_any 0 h v = Some (j, F)" and "a \<in> set F"
    then show "a < length h" by (auto elim!: read_any.elims)
  next
    fix h v j F h' assume "read_any 0 h v = Some (j, F)"
    then show "read_any 0 h' v = Some (j, F)" by (auto elim!: read_any.elims)
  next
    fix h v j F assume "read_any 0 h v = Some (j, F)"
    then show "\<exists>v' h' F'. deepCopyJSON 0 v h = Some (v', h') \<and> prefix h h' \<and> read_any 0 h' v' = Some (j, F') \<and> (\<forall>a \<in> set F'. length h \<le> a)"
      by (auto elim!: read_any.elims)
  qed
next
  case (Suc n)
  have P: "copyable (read_ptr object_of (read_list (read_pair read_plain (read_any n))))
      (copy_ptr object_of ObjectCell (copy_list (copy_pair copy_plain (deepCopyJSON n))))"
    by (rule copyable.ptr_copyable [OF copyable.list_copyable [OF pair_copyable [OF plain_copyable Suc]]]) simp
  have S: "copyable (read_slice array_of (read_any n)) (copy_slice array_of ArrayCell (deepCopyJSON n))"
    by (rule copyable.slice_copyable [OF Suc]) simp
  show ?case
  proof
    fix h v j F a assume "read_any (Suc n) h v = Some (j, F)" and "a \<in> set F"
    then show "a < length h"
      by (cases "(Suc n, h, v)" rule: read_any.cases)
        (auto simp: bind_eq_Some_conv dest: copyable.bounded [OF P] copyable.bounded [OF S])
  next
    fix h v j F h' assume r: "read_any (Suc n) h v = Some (j, F)" and same: "\<And>a. a \<in> set F \<Longrightarrow> a < length h' \<and> h' ! a = h ! a"
    show "read_any (Suc n) h' v = Some (j, F)"
      using r by (cases "(Suc n, h, v)" rule: read_any.cases)
        (auto simp: bind_eq_Some_conv dest!: copyable.framed [OF P _ same] copyable.framed [OF S _ same])
  next
    fix h v j F assume r: "read_any (Suc n) h v = Some (j, F)"
    show "\<exists>v' h' F'. deepCopyJSON (Suc n) v h = Some (v', h') \<and> prefix h h' \<and> read_any (Suc n) h' v' = Some (j, F') \<and> (\<forall>a \<in> set F'. length h \<le> a)"
      using r
    proof (cases "(Suc n, h, v)" rule: read_any.cases)
      case (8 m h1 a)
      with r obtain fs where fs: "read_ptr object_of (read_list (read_pair read_plain (read_any n))) h (Some a) = Some (Some fs, F)" "j = JObj fs"
        by (auto simp: bind_eq_Some_conv read_ptr_def)
      from copyable.copied [OF P fs(1)] obtain p h' F' where c:
        "copy_ptr object_of ObjectCell (copy_list (copy_pair copy_plain (deepCopyJSON n))) (Some a) h = Some (p, h')" "prefix h h'"
        "read_ptr object_of (read_list (read_pair read_plain (read_any n))) h' p = Some (Some fs, F')" "\<forall>a \<in> set F'. length h \<le> a" by blast
      from c(3) obtain b where "p = Some b" by (cases p) (auto simp: read_ptr_def)
      with c 8 fs(2) show ?thesis by simp
    next
      case (9 m h1 a off k)
      with r obtain js where js: "read_slice array_of (read_any n) h (Slice a off k) = Some (js, F)" "j = JArr js"
        by (auto simp: bind_eq_Some_conv)
      from copyable.copied [OF S js(1)] obtain s h' F' where c:
        "copy_slice array_of ArrayCell (deepCopyJSON n) (Slice a off k) h = Some (s, h')" "prefix h h'"
        "read_slice array_of (read_any n) h' s = Some (js, F')" "\<forall>a \<in> set F'. length h \<le> a" by blast
      from c(1) obtain b where "s = Slice b 0 k" by (auto simp: copy_slice_def bind_eq_Some_conv)
      with c 9 js(2) show ?thesis by simp
    qed auto
  qed
qed

lemma deepCopyJSON_map: "deepCopyJSON n (AnyMap m) h = Some (v, h') \<Longrightarrow> v = (case m of None \<Rightarrow> AnyNil | Some _ \<Rightarrow> v) \<and> (\<exists>m'. v = AnyMap m' \<or> v = AnyNil)"
  by (cases "(n, AnyMap m, h)" rule: deepCopyJSON.cases) (auto simp: bind_eq_Some_conv)

lemma entry_copyable: "copyable (read_entry n) (copy_entry n)"
proof
  fix h m v F a assume "read_entry n h m = Some (v, F)" and "a \<in> set F"
  then show "a < length h" by (auto simp: read_entry_def bind_eq_Some_conv dest: copyable.bounded [OF any_copyable])
next
  fix h m v F h' assume "read_entry n h m = Some (v, F)" and same: "\<And>a. a \<in> set F \<Longrightarrow> a < length h' \<and> h' ! a = h ! a"
  then show "read_entry n h' m = Some (v, F)"
    by (auto simp: read_entry_def bind_eq_Some_conv dest!: copyable.framed [OF any_copyable _ same])
next
  fix h m v F assume "read_entry n h m = Some (v, F)"
  then obtain j where j: "read_any n h (AnyMap m) = Some (j, F)" "v = (case j of JObj fs \<Rightarrow> fs | _ \<Rightarrow> [])"
    by (auto simp: read_entry_def bind_eq_Some_conv)
  from copyable.copied [OF any_copyable j(1)] obtain u h' F' where c: "deepCopyJSON n (AnyMap m) h = Some (u, h')" "prefix h h'"
    "read_any n h' u = Some (j, F')" "\<forall>a \<in> set F'. length h \<le> a" by blast
  have "read_entry n h' (case u of AnyMap m \<Rightarrow> m | _ \<Rightarrow> None) = Some (v, F')"
    using c(1,3) j(2) deepCopyJSON_map [OF c(1)] by (auto simp: read_entry_def)
  with c show "\<exists>m' h' F'. copy_entry n m h = Some (m', h') \<and> prefix h h' \<and> read_entry n h' m' = Some (v, F') \<and> (\<forall>a \<in> set F'. length h \<le> a)"
    by (auto simp: copy_entry_def)
qed

lemma params_copyable: "copyable (read_params n) (copy_params n)"
  unfolding read_params_def copy_params_def
  by (rule copyable.ptr_copyable [OF copyable.list_copyable [OF pair_copyable [OF plain_copyable entry_copyable]]]) simp

lemma request_copyable: "copyable (read_request n) (copyChatRequest n)"
  by (rule object_copyableI [OF pair_copyable [OF parts_copyable
          pair_copyable [OF copyable.slice_copyable [OF message_copyable, where get = messages_of and mk = MessageCell]
          pair_copyable [OF copyable.slice_copyable [OF tool_copyable, where get = tools_of and mk = ToolCell]
          pair_copyable [OF copyable.ptr_copyable [OF plain_copyable, where get = float_of and mk = FloatCell]
          pair_copyable [OF copyable.ptr_copyable [OF plain_copyable, where get = config_of and mk = ConfigCell]
          pair_copyable [OF metadata_copyable params_copyable [of n]]]]]]],
        where f = "\<lambda>q. (qo_System q, qo_Messages q, qo_Tools q, qo_Temperature q, qo_Reasoning q, qo_Metadata q, qo_ProviderParams q)"
          and upd = "\<lambda>(sys, ms, ts, temp, rc, meta, pp) q. q\<lparr>qo_System := sys, qo_Messages := ms, qo_Tools := ts, qo_Temperature := temp,
            qo_Reasoning := rc, qo_Metadata := meta, qo_ProviderParams := pp\<rparr>"
          and g = "\<lambda>q (sys, ms, ts, temp, rc, meta, pp). \<lparr>cr_System = sys, cr_Messages = ms, cr_Tools = ts, cr_ToolChoice = qo_ToolChoice q,
            cr_Purpose = qo_Purpose q, cr_MaxTokens = qo_MaxTokens q, cr_Temperature = temp,
            cr_Metadata = (case meta of None \<Rightarrow> Map.empty | Some m \<Rightarrow> m), cr_Reasoning = rc, cr_ProviderParams = param_map pp\<rparr>"])
    (auto simp: read_request_def copyChatRequest_def read_pair_def copy_pair_def split: Option.bind_split prod.splits)

lemma embedding_copyable: "copyable read_embedding copyEmbeddingRequest"
  by (rule object_copyableI [OF pair_copyable [OF copyable.slice_copyable [OF plain_copyable, where get = inputs_of and mk = InputCell] metadata_copyable],
        where f = "\<lambda>e. (eo_Inputs e, eo_Metadata e)" and upd = "\<lambda>(a, b) e. e\<lparr>eo_Inputs := a, eo_Metadata := b\<rparr>"
          and g = "\<lambda>e (ins, meta). \<lparr>er_Inputs = ins, er_Purpose = eo_Purpose e, er_Dimensions = eo_Dimensions e, er_Task = eo_Task e,
            er_Metadata = (case meta of None \<Rightarrow> Map.empty | Some m \<Rightarrow> m)\<rparr>"])
    (auto simp: read_embedding_def copyEmbeddingRequest_def read_pair_def copy_pair_def split: Option.bind_split prod.splits)

interpretation parts_copy: copyable read_parts copyContentParts by (rule parts_copyable)
interpretation request_copy: copyable "read_request n" "copyChatRequest n" for n by (rule request_copyable)
interpretation embedding_copy: copyable read_embedding copyEmbeddingRequest by (rule embedding_copyable)

text \<open>Fuel that is enough stays enough.\<close>

lemma read_list_mono:
  assumes "\<And>x v F. rd h x = Some (v, F) \<Longrightarrow> rd' h x = Some (v, F)"
  shows "read_list rd h xs = Some (vs, F) \<Longrightarrow> read_list rd' h xs = Some (vs, F)"
  using assms by (induction xs arbitrary: vs F) (fastforce simp: bind_eq_Some_conv)+

lemma read_any_mono: "read_any n h v = Some (j, F) \<Longrightarrow> read_any (Suc n) h v = Some (j, F)"
proof (induction n arbitrary: v j F)
  case 0
  then show ?case by (auto elim!: read_any.elims)
next
  case (Suc n)
  have pairs: "read_pair read_plain (read_any n) h x = Some (v, F) \<Longrightarrow> read_pair read_plain (read_any (Suc n)) h x = Some (v, F)" for x v F
    by (auto simp: read_pair_def bind_eq_Some_conv Suc.IH simp del: read_any.simps)
  from Suc.prems show ?case
  proof (cases "(Suc n, h, v)" rule: read_any.cases)
    case (8 m h1 a)
    then show ?thesis using Suc.prems
      by (simp add: read_ptr_def bind_eq_Some_conv split_beta del: read_list.simps) (use read_list_mono [where rd = "read_pair read_plain (read_any n)" and rd' = "read_pair read_plain (read_any (Suc n))", OF pairs] in blast)
  next
    case (9 m h1 a off k)
    then show ?thesis using Suc.prems
      by (simp add: read_slice_def bind_eq_Some_conv split_beta del: read_list.simps) (use read_list_mono [where rd = "read_any n" and rd' = "read_any (Suc n)", OF Suc.IH] in blast)
  qed (auto)
qed

end
