(* ===== verification/Isolation.thy ===== *)
theory Isolation
  imports Store
begin

text \<open>
  The fakes' recordings (\<open>llms/testllm/copy.go\<close>, \<open>chat.go\<close>, \<open>embedding.go\<close>) over the memory of \<open>Store\<close>: what
  a fake recorded, and what it hands out, is out of reach of every write of the program around it. Requests are
  those a program can build from the source's types with \<open>ProviderParams\<close> of JSON shape; fuel bounds their nesting.
\<close>

section \<open>Fuel\<close>

lemma read_any_fuel: "read_any n h v = Some (j, F) \<Longrightarrow> n \<le> m \<Longrightarrow> read_any m h v = Some (j, F)"
  by (induction m rule: nat_induct) (auto simp: le_Suc_eq simp del: read_any.simps intro: read_any_mono)

lemma read_entries_fuel:
  assumes "read_list (read_pair read_plain (read_entry n)) h es = Some (ps, F)" and "n \<le> m"
  shows "read_list (read_pair read_plain (read_entry m)) h es = Some (ps, F)"
  by (rule read_list_mono [OF _ assms(1)])
    (auto simp: read_pair_def read_plain_def read_entry_def bind_eq_Some_conv intro: read_any_fuel [OF _ assms(2)])

lemma read_params_fuel: "read_params n h p = Some (ps, F) \<Longrightarrow> n \<le> m \<Longrightarrow> read_params m h p = Some (ps, F)"
  by (auto simp: read_params_def read_ptr_def bind_eq_Some_conv split: option.splits dest: read_entries_fuel)

lemma read_params_None [simp]: "read_params n h None = Some (None, [])"
  by (simp add: read_params_def read_ptr_def)

text \<open>A request is its other fields and its parameters.\<close>

lemma read_request_params:
  "read_request n h q = Some (v, F) \<longleftrightarrow>
     (\<exists>u G ps H. read_request 0 h (q\<lparr>qo_ProviderParams := None\<rparr>) = Some (u, G) \<and> read_params n h (qo_ProviderParams q) = Some (ps, H) \<and>
        v = u\<lparr>cr_ProviderParams := param_map ps\<rparr> \<and> F = G @ H)"
  by (auto simp: read_request_def bind_eq_Some_conv)

lemma read_request_with:
  assumes "read_request 0 h out = Some (u, G)" and "qo_ProviderParams out = None" and "read_params m h p = Some (ps, H)"
  shows "read_request m h (out\<lparr>qo_ProviderParams := p\<rparr>) = Some (u\<lparr>cr_ProviderParams := param_map ps\<rparr>, G @ H)"
proof -
  have e: "out\<lparr>qo_ProviderParams := None\<rparr> = out" using assms(2) by simp
  show ?thesis
    by (rule iffD2 [OF read_request_params], rule exI [of _ u], rule exI [of _ G], rule exI [of _ ps], rule exI [of _ H]) (simp add: assms e)
qed

lemma read_request_fuel:
  assumes "read_request n h q = Some (v, F)" and "n \<le> m"
  shows "read_request m h q = Some (v, F)"
proof -
  from iffD1 [OF read_request_params assms(1)] obtain u G ps H where
    r: "read_request 0 h (q\<lparr>qo_ProviderParams := None\<rparr>) = Some (u, G)" "read_params n h (qo_ProviderParams q) = Some (ps, H)"
      "v = u\<lparr>cr_ProviderParams := param_map ps\<rparr>" "F = G @ H" by (elim exE conjE)
  show ?thesis
    by (rule iffD2 [OF read_request_params], intro exI conjI) (rule r(1), rule read_params_fuel [OF r(2) assms(2)], rule r(3), rule r(4))
qed

lemma copyChatRequest_None: "copyChatRequest n (q\<lparr>qo_ProviderParams := None\<rparr>) h = Some (q', h') \<Longrightarrow> qo_ProviderParams q' = None"
  by (auto simp: copyChatRequest_def bind_eq_Some_conv copy_params_def copy_ptr_def)

section \<open>Recording\<close>

text \<open>The decoder's memory: children first.\<close>

fun alloc_any :: "json \<Rightarrow> store \<Rightarrow> go_any \<times> store"
  and alloc_list :: "json list \<Rightarrow> store \<Rightarrow> go_any list \<times> store"
  and alloc_fields :: "(string \<times> json) list \<Rightarrow> store \<Rightarrow> (string \<times> go_any) list \<times> store" where
  "alloc_any JNull h = (AnyNil, h)"
| "alloc_any (JBool b) h = (AnyBool b, h)"
| "alloc_any (JNum lit) h = (AnyNum lit, h)"
| "alloc_any (JStr t) h = (AnyStr t, h)"
| "alloc_any (JArr js) h = (let (vs, h) = alloc_list js h in (AnySlice (Slice (length h) 0 (length vs)), h @ [ArrayCell vs]))"
| "alloc_any (JObj fs) h = (let (es, h) = alloc_fields fs h in (AnyMap (Some (length h)), h @ [ObjectCell es]))"
| "alloc_list [] h = ([], h)"
| "alloc_list (j # js) h = (let (v, h) = alloc_any j h; (vs, h) = alloc_list js h in (v # vs, h))"
| "alloc_fields [] h = ([], h)"
| "alloc_fields (kj # fs) h = (let (v, h) = alloc_any (snd kj) h; (es, h) = alloc_fields fs h in ((fst kj, v) # es, h))"

text \<open>A nil map marshals to \<open>null\<close>, which decodes to a nil map.\<close>

definition store_jsonSnapshot :: "nat \<Rightarrow> nat option \<Rightarrow> store \<Rightarrow> ((error + nat option) \<times> store) option" where
  "store_jsonSnapshot n v h = do { (j, _) \<leftarrow> read_any n h (AnyMap v);
     Some (if \<not> valid_json j then (Inl json_error, h)
           else case (case decode_first (encode_json True j) of None \<Rightarrow> None | Some d \<Rightarrow> to_map d) of
             None \<Rightarrow> (Inl json_error, h)
           | Some None \<Rightarrow> (Inr None, h)
           | Some (Some m) \<Rightarrow> (let (es, h) = alloc_fields m h in (Inr (Some (length h)), h @ [ObjectCell es]))) }"

definition snapshot_error :: "provider_id \<Rightarrow> provider_id \<Rightarrow> error + 'a \<Rightarrow> error option \<Rightarrow> error option" where
  "snapshot_error selected k snap firstErr =
     (case snap of
        Inl err \<Rightarrow> if firstErr = None \<and> (selected = [] \<or> k = selected)
          then Some (Wrapped (''ProviderParams['' @ quote k @ ''] does not marshal to JSON'') [err]) else firstErr
      | Inr _ \<Rightarrow> firstErr)"

fun snapshot_entries :: "nat \<Rightarrow> provider_id \<Rightarrow> (provider_id \<times> nat option) list \<Rightarrow> store \<Rightarrow> error option \<Rightarrow>
    ((provider_id \<times> nat option) list \<times> store \<times> error option) option" where
  "snapshot_entries n selected [] h firstErr = Some ([], h, firstErr)"
| "snapshot_entries n selected ((k, v) # es) h firstErr =
     do { (snap, h) \<leftarrow> store_jsonSnapshot n v h;
          (out, h, err) \<leftarrow> snapshot_entries n selected es h (snapshot_error selected k snap firstErr);
          Some ((k, case snap of Inl _ \<Rightarrow> None | Inr m \<Rightarrow> m) # out, h, err) }"

definition store_recordChatRequest :: "nat \<Rightarrow> request_obj \<Rightarrow> provider_id \<Rightarrow> store \<Rightarrow> ((request_obj \<times> error option) \<times> store) option" where
  "store_recordChatRequest n r selected h =
     do { (out, h) \<leftarrow> copyChatRequest n (r\<lparr>qo_ProviderParams := None\<rparr>) h;
          case qo_ProviderParams r of
            None \<Rightarrow> Some ((out, None), h)
          | Some a \<Rightarrow> do { params \<leftarrow> fetch params_of h a; (snaps, h, firstErr) \<leftarrow> snapshot_entries n selected params h None;
              Some ((out\<lparr>qo_ProviderParams := Some (length h)\<rparr>, firstErr), h @ [ParamsCell snaps]) } }"

text \<open>What the decoder allocates is new and reads as the document.\<close>

definition reads_new :: "(nat \<Rightarrow> ('x, 'v) reader) \<Rightarrow> store \<Rightarrow> store \<Rightarrow> 'x \<Rightarrow> 'v \<Rightarrow> bool" where
  "reads_new rd h h' x v \<longleftrightarrow> prefix h h' \<and> (\<exists>n F. (\<forall>m \<ge> n. rd m h' x = Some (v, F)) \<and> (\<forall>a \<in> set F. length h \<le> a))"

abbreviation "read_anys n \<equiv> read_list (read_any n)"
abbreviation "read_fields n \<equiv> read_list (read_pair read_plain (read_any n))"

lemma reads_new_refl: "(\<And>m. rd m h x = Some (v, [])) \<Longrightarrow> reads_new rd h h x v"
  unfolding reads_new_def by (intro conjI exI [of _ 0] exI [of _ "[]"]) simp_all

lemma reads_new_cons:
  assumes x: "reads_new rd h h1 x v" and xs: "reads_new (\<lambda>n. read_list (rd n)) h1 h2 xs vs" and c: "\<And>n. \<exists>cp. copyable (rd n) cp"
  shows "reads_new (\<lambda>n. read_list (rd n)) h h2 (x # xs) (v # vs)"
proof -
  from x obtain n F where r: "prefix h h1" "\<And>m. m \<ge> n \<Longrightarrow> rd m h1 x = Some (v, F)" "\<forall>a \<in> set F. length h \<le> a" by (auto simp: reads_new_def)
  from xs obtain k G where s: "prefix h1 h2" "\<And>m. m \<ge> k \<Longrightarrow> read_list (rd m) h2 xs = Some (vs, G)" "\<forall>a \<in> set G. length h1 \<le> a"
    by (auto simp: reads_new_def)
  have "rd m h2 x = Some (v, F)" if "m \<ge> n" for m
  proof -
    from c obtain cp where "copyable (rd m) cp" by blast
    then show ?thesis using r(2) [OF that] s(1) by (rule copyable.extended)
  qed
  with s(2) have "\<forall>m \<ge> max n k. read_list (rd m) h2 (x # xs) = Some (v # vs, F @ G)" by simp
  moreover have "\<forall>a \<in> set (F @ G). length h \<le> a" using r(3) s(3) prefix_length_le [OF r(1)] by auto
  moreover have "prefix h h2" using r(1) s(1) by (rule prefix_order.trans)
  ultimately show ?thesis unfolding reads_new_def by blast
qed

lemma alloc_reads:
  "alloc_any j h = (v, h') \<Longrightarrow> reads_new read_any h h' v j"
  "alloc_list js h = (vs, h') \<Longrightarrow> reads_new (\<lambda>n. read_anys n) h h' vs js"
  "alloc_fields fs h = (es, h') \<Longrightarrow> reads_new (\<lambda>n. read_fields n) h h' es fs"
proof (induction j h and js h and fs h arbitrary: v h' and vs h' and es h' rule: alloc_any_alloc_list_alloc_fields.induct)
  case (5 js h)
  obtain ws h1 where a: "alloc_list js h = (ws, h1)" by (cases "alloc_list js h")
  from "5.IH" [OF a] obtain n F where r: "prefix h h1" "\<And>m. m \<ge> n \<Longrightarrow> read_anys m h1 ws = Some (js, F)" "\<forall>a \<in> set F. length h \<le> a"
    by (auto simp: reads_new_def)
  have "read_any m (h1 @ [ArrayCell ws]) (AnySlice (Slice (length h1) 0 (length ws))) = Some (JArr js, length h1 # F)" if "m \<ge> Suc n" for m
  proof -
    from that obtain k where k: "m = Suc k" "k \<ge> n" by (cases m) auto
    have "read_anys k (h1 @ [ArrayCell ws]) ws = Some (js, F)"
      by (rule copyable.extended [OF copyable.list_copyable [OF any_copyable] r(2) [OF k(2)]]) simp
    then show ?thesis by (simp add: k(1) read_slice_def window_def fetch_def)
  qed
  moreover have "\<forall>a \<in> set (length h1 # F). length h \<le> a" using r(3) prefix_length_le [OF r(1)] by auto
  moreover have "prefix h (h1 @ [ArrayCell ws])" using r(1) by simp
  moreover have "v = AnySlice (Slice (length h1) 0 (length ws))" "h' = h1 @ [ArrayCell ws]" using "5.prems" a by auto
  ultimately show ?case unfolding reads_new_def by blast
next
  case (6 fs h)
  obtain ws h1 where a: "alloc_fields fs h = (ws, h1)" by (cases "alloc_fields fs h")
  from "6.IH" [OF a] obtain n F where r: "prefix h h1" "\<And>m. m \<ge> n \<Longrightarrow> read_fields m h1 ws = Some (fs, F)" "\<forall>a \<in> set F. length h \<le> a"
    by (auto simp: reads_new_def)
  have "read_any m (h1 @ [ObjectCell ws]) (AnyMap (Some (length h1))) = Some (JObj fs, length h1 # F)" if "m \<ge> Suc n" for m
  proof -
    from that obtain k where k: "m = Suc k" "k \<ge> n" by (cases m) auto
    have "read_fields k (h1 @ [ObjectCell ws]) ws = Some (fs, F)"
      by (rule copyable.extended [OF copyable.list_copyable [OF pair_copyable [OF plain_copyable any_copyable]] r(2) [OF k(2)]]) simp
    then show ?thesis by (simp add: k(1) read_ptr_def fetch_def)
  qed
  moreover have "\<forall>a \<in> set (length h1 # F). length h \<le> a" using r(3) prefix_length_le [OF r(1)] by auto
  moreover have "prefix h (h1 @ [ObjectCell ws])" using r(1) by simp
  moreover have "v = AnyMap (Some (length h1))" "h' = h1 @ [ObjectCell ws]" using "6.prems" a by auto
  ultimately show ?case unfolding reads_new_def by blast
next
  case (8 j js h)
  obtain v1 h1 where a: "alloc_any j h = (v1, h1)" by (cases "alloc_any j h")
  obtain vs1 h2 where b: "alloc_list js h1 = (vs1, h2)" by (cases "alloc_list js h1")
  have "reads_new (\<lambda>n. read_anys n) h h2 (v1 # vs1) (j # js)"
    by (rule reads_new_cons [OF "8.IH"(1) [OF a] "8.IH"(2) [OF a [symmetric] refl b]]) (use any_copyable in blast)
  with "8.prems" a b show ?case by simp
next
  case (10 kj fs h)
  obtain v1 h1 where a: "alloc_any (snd kj) h = (v1, h1)" by (cases "alloc_any (snd kj) h")
  obtain es1 h2 where b: "alloc_fields fs h1 = (es1, h2)" by (cases "alloc_fields fs h1")
  have "reads_new (\<lambda>n. read_pair read_plain (read_any n)) h h1 (fst kj, v1) kj"
    using "10.IH"(1) [OF a] unfolding reads_new_def read_pair_def read_plain_def by (elim conjE exE) (intro exI conjI; force)
  from reads_new_cons [OF this "10.IH"(2) [OF a [symmetric] refl b]] pair_copyable [OF plain_copyable any_copyable]
  have "reads_new (\<lambda>n. read_fields n) h h2 ((fst kj, v1) # es1) (kj # fs)" by blast
  with "10.prems" a b show ?case by simp
qed (auto simp: reads_new_refl)

lemma snapshot_nil:
  "valid_json JNull" "(case decode_first (encode_json True JNull) of None \<Rightarrow> None | Some d \<Rightarrow> to_map d) = Some None" "jsonSnapshot [] = Inr []"
  by code_simp+

text \<open>The snapshot of an entry is the value-level one, in new memory.\<close>

definition snapshot_fields :: "error + 'a list \<Rightarrow> 'a list" where
  "snapshot_fields s = (case s of Inl _ \<Rightarrow> [] | Inr m \<Rightarrow> m)"

lemma read_entry_map: "read_entry n h None = Some ([], [])" "read_any n h (AnyMap (Some a)) = Some (JObj fs, F) \<Longrightarrow> read_entry n h (Some a) = Some (fs, F)"
  by (simp_all add: read_entry_def)

lemma snapshot_reads:
  assumes "read_entry n h v = Some (fs, F)"
  shows "\<exists>snap h'. store_jsonSnapshot n v h = Some (snap, h') \<and>
    reads_new read_entry h h' (case snap of Inl _ \<Rightarrow> None | Inr m \<Rightarrow> m) (snapshot_fields (jsonSnapshot fs)) \<and>
    (\<forall>selected k err. snapshot_error selected k snap err = snapshot_error selected k (jsonSnapshot fs) err)"
proof (cases v)
  case None
  with assms have fs: "fs = []" by (simp add: read_entry_map)
  have "store_jsonSnapshot n v h = Some (Inr None, h)" by (simp add: None store_jsonSnapshot_def snapshot_nil del: encode_json.simps)
  moreover have "reads_new read_entry h h None []" by (rule reads_new_refl) (simp add: read_entry_map)
  ultimately show ?thesis by (simp add: fs snapshot_nil snapshot_fields_def snapshot_error_def)
next
  case (Some a)
  with assms obtain j where j: "read_any n h (AnyMap (Some a)) = Some (j, F)" "fs = (case j of JObj fs \<Rightarrow> fs | _ \<Rightarrow> [])"
    by (auto simp: read_entry_def bind_eq_Some_conv)
  from j(1) obtain gs where "j = JObj gs" by (cases n) (auto simp: bind_eq_Some_conv)
  with j have j: "read_any n h (AnyMap (Some a)) = Some (JObj fs, F)" by simp
  let ?d = "case decode_first (encode_json True (JObj fs)) of None \<Rightarrow> None | Some d \<Rightarrow> to_map d"
  consider (bad) "jsonSnapshot fs = Inl json_error" "store_jsonSnapshot n v h = Some (Inl json_error, h)"
    | (null) "jsonSnapshot fs = Inr []" "store_jsonSnapshot n v h = Some (Inr None, h)"
    | (object) m where "jsonSnapshot fs = Inr m"
        "store_jsonSnapshot n v h = Some (let (es, h) = alloc_fields m h in (Inr (Some (length h)), h @ [ObjectCell es]))"
    using j by (cases "valid_json (JObj fs)"; cases ?d; cases "the ?d")
      (auto simp: jsonSnapshot_def store_jsonSnapshot_def Some simp del: valid_json.simps encode_json.simps)
  then show ?thesis
  proof cases
    case bad
    moreover have "reads_new read_entry h h None []" by (rule reads_new_refl) (simp add: read_entry_map)
    ultimately show ?thesis by (simp add: snapshot_fields_def snapshot_error_def)
  next
    case null
    moreover have "reads_new read_entry h h None []" by (rule reads_new_refl) (simp add: read_entry_map)
    ultimately show ?thesis by (simp add: snapshot_fields_def snapshot_error_def)
  next
    case (object m)
    obtain v' h' where a: "alloc_any (JObj m) h = (v', h')" by (cases "alloc_any (JObj m) h")
    then obtain es h1 where e: "alloc_fields m h = (es, h1)" "v' = AnyMap (Some (length h1))" "h' = h1 @ [ObjectCell es]"
      by (cases "alloc_fields m h") auto
    from alloc_reads(1) [OF a] have "reads_new read_entry h h' (Some (length h1)) m"
      unfolding reads_new_def e(2) by (blast intro: read_entry_map(2))
    with object e show ?thesis by (simp add: snapshot_fields_def snapshot_error_def)
  qed
qed

text \<open>The loop over the entries.\<close>

abbreviation "read_entries n \<equiv> read_list (read_pair read_plain (read_entry n))"

lemma keyed: "read_pair read_plain rd h (k, x) = do { (v, F) \<leftarrow> rd h x; Some ((k, v), F) }"
  by (simp add: read_pair_def read_plain_def)

fun first_error :: "provider_id \<Rightarrow> (provider_id \<times> (string \<times> json) list) list \<Rightarrow> error option \<Rightarrow> error option" where
  "first_error selected [] err = err"
| "first_error selected ((k, fs) # ps) err = first_error selected ps (snapshot_error selected k (jsonSnapshot fs) err)"

lemma snapshot_entries_reads:
  assumes "read_entries n h es = Some (ps, F)"
  shows "\<exists>out h'. snapshot_entries n selected es h err = Some (out, h', first_error selected ps err) \<and>
    reads_new (\<lambda>n. read_entries n) h h' out (map (\<lambda>(k, fs). (k, snapshot_fields (jsonSnapshot fs))) ps)"
  using assms
proof (induction es arbitrary: h ps F err)
  case Nil
  have "reads_new (\<lambda>n. read_entries n) h h [] []" by (rule reads_new_refl) simp
  with Nil show ?case by simp
next
  case (Cons e es)
  obtain k v where e: "e = (k, v)" by (cases e)
  from Cons.prems obtain fs G ps' H where r: "read_entry n h v = Some (fs, G)" "read_entries n h es = Some (ps', H)" "ps = (k, fs) # ps'"
    by (auto simp: e keyed bind_eq_Some_conv)
  from snapshot_reads [OF r(1)] obtain snap h1 where s: "store_jsonSnapshot n v h = Some (snap, h1)"
    "reads_new read_entry h h1 (case snap of Inl _ \<Rightarrow> None | Inr m \<Rightarrow> m) (snapshot_fields (jsonSnapshot fs))"
    "\<And>err. snapshot_error selected k snap err = snapshot_error selected k (jsonSnapshot fs) err" by blast
  have "read_entries n h1 es = Some (ps', H)"
    by (rule copyable.extended [OF copyable.list_copyable [OF pair_copyable [OF plain_copyable entry_copyable]] r(2)]) (use s(2) in \<open>simp add: reads_new_def\<close>)
  from Cons.IH [OF this] obtain out h2 where o: "snapshot_entries n selected es h1 (snapshot_error selected k (jsonSnapshot fs) err) =
      Some (out, h2, first_error selected ps' (snapshot_error selected k (jsonSnapshot fs) err))"
    "reads_new (\<lambda>n. read_entries n) h1 h2 out (map (\<lambda>(k, fs). (k, snapshot_fields (jsonSnapshot fs))) ps')" by blast
  let ?x = "(k, case snap of Inl _ \<Rightarrow> None | Inr m \<Rightarrow> m)"
  have "reads_new (\<lambda>n. read_pair read_plain (read_entry n)) h h1 ?x (k, snapshot_fields (jsonSnapshot fs))"
    using s(2) unfolding reads_new_def read_pair_def read_plain_def by (elim conjE exE) (intro exI conjI; force)
  from reads_new_cons [OF this o(2)] pair_copyable [OF plain_copyable entry_copyable]
  have "reads_new (\<lambda>n. read_entries n) h h2 (?x # out) ((k, snapshot_fields (jsonSnapshot fs)) # map (\<lambda>(k, fs). (k, snapshot_fields (jsonSnapshot fs))) ps')"
    by blast
  then show ?case by (simp add: e r(3) s(1,3) o(1))
qed

lemma first_error_find:
  "first_error selected ps err =
     (case err of
        Some e \<Rightarrow> Some e
      | None \<Rightarrow> map_option (\<lambda>(k, _). Wrapped (''ProviderParams['' @ quote k @ ''] does not marshal to JSON'') [json_error])
          (find (\<lambda>(k, fs). (case jsonSnapshot fs of Inl _ \<Rightarrow> selected = [] \<or> k = selected | Inr _ \<Rightarrow> False)) ps))"
proof (induction selected ps err rule: first_error.induct)
  case (2 selected k fs ps err)
  have "jsonSnapshot fs = Inl e \<Longrightarrow> e = json_error" for e by (auto simp: jsonSnapshot_def split: if_splits option.splits)
  with 2 show ?case by (auto simp: snapshot_error_def split: option.splits sum.splits)
qed (simp split: option.split)

lemma find_keys:
  "distinct (map fst ps) \<Longrightarrow> find (\<lambda>k. P k (map_of ps k)) (map fst ps) = map_option fst (find (\<lambda>(k, x). P k (Some x)) ps)"
proof (induction ps)
  case (Cons p ps)
  have "find (\<lambda>k. P k (map_of (p # ps) k)) (map fst ps) = find (\<lambda>k. P k (map_of ps k)) (map fst ps)"
  proof (rule find_cong [OF refl])
    fix k assume "k \<in> set (map fst ps)"
    moreover have "fst p \<notin> set (map fst ps)" using Cons.prems by simp
    ultimately have "k \<noteq> fst p" by blast
    then show "P k (map_of (p # ps) k) = P k (map_of ps k)" by simp
  qed
  with Cons show ?case by (cases p) auto
qed simp

text \<open>The recording in memory is the recording of values: the request with its parameters as documents, in new memory, and the error.\<close>

lemma recorded_params:
  "fst (recordChatRequest keys (u\<lparr>cr_ProviderParams := param_map (Some ps)\<rparr>) selected) =
     u\<lparr>cr_ProviderParams := param_map (Some (map (\<lambda>(k, fs). (k, snapshot_fields (jsonSnapshot fs))) ps))\<rparr>"
proof -
  have "(case (case map_of ps k of None \<Rightarrow> None | Some v \<Rightarrow> Some (jsonSnapshot v)) of
        None \<Rightarrow> None | Some (Inl _) \<Rightarrow> Some [] | Some (Inr m) \<Rightarrow> Some m) =
      map_of (map (\<lambda>(k, fs). (k, snapshot_fields (jsonSnapshot fs))) ps) k" for k
    by (induction ps) (auto simp: snapshot_fields_def split: sum.split)
  then show ?thesis by (simp add: recordChatRequest_def Let_def param_map_def)
qed

definition param_keys :: "store \<Rightarrow> request_obj \<Rightarrow> provider_id list" where
  "param_keys h q = (case Option.bind (qo_ProviderParams q) (fetch params_of h) of None \<Rightarrow> [] | Some es \<Rightarrow> map fst es)"

lemma read_entries_keys: "read_entries n h es = Some (ps, F) \<Longrightarrow> map fst es = map fst ps"
  by (induction es arbitrary: ps F) (auto simp: read_pair_def read_plain_def bind_eq_Some_conv)

lemma recording_agrees:
  assumes q: "read_request n h q = Some (v, F)"
  shows "\<exists>q' err h' m G. store_recordChatRequest n q selected h = Some ((q', err), h') \<and> prefix h h' \<and>
    read_request m h' q' = Some (fst (recordChatRequest [] v selected), G) \<and> (\<forall>a \<in> set G. length h \<le> a) \<and>
    (distinct (param_keys h q) \<longrightarrow> err = snd (recordChatRequest (param_keys h q) v selected))"
proof -
  from iffD1 [OF read_request_params q] obtain u F1 ps F2 where
    r: "read_request 0 h (q\<lparr>qo_ProviderParams := None\<rparr>) = Some (u, F1)" "read_params n h (qo_ProviderParams q) = Some (ps, F2)"
      "v = u\<lparr>cr_ProviderParams := param_map ps\<rparr>" by (elim exE conjE)
  from copyable.copied [OF request_copyable read_request_fuel [OF r(1), of n]] obtain out h1 G1 where
    c: "copyChatRequest n (q\<lparr>qo_ProviderParams := None\<rparr>) h = Some (out, h1)" "prefix h h1" "read_request n h1 out = Some (u, G1)"
      "\<forall>a \<in> set G1. length h \<le> a" by auto
  from copyChatRequest_None [OF c(1)] have none: "qo_ProviderParams out = None" .
  then have out: "out\<lparr>qo_ProviderParams := None\<rparr> = out" by simp
  from iffD1 [OF read_request_params c(3)] none obtain u0 where
    u: "read_request 0 h1 out = Some (u0, G1)" "u = u0\<lparr>cr_ProviderParams := param_map None\<rparr>" by (auto simp: out)
  show ?thesis
  proof (cases "qo_ProviderParams q")
    case None
    with r(2) have "v = u" using u(2) by (simp add: r(3))
    moreover have "fst (recordChatRequest [] u selected) = u" using u(2) by (simp add: recordChatRequest_def Let_def param_map_def)
    moreover have "snd (recordChatRequest [] u selected) = None" by (simp add: recordChatRequest_def Let_def)
    moreover have "store_recordChatRequest n q selected h = Some ((out, None), h1)" by (simp add: store_recordChatRequest_def c(1) None)
    ultimately show ?thesis using c(2-4) by (auto simp: param_keys_def None)
  next
    case (Some a)
    with r(2) obtain es qs H where e: "fetch params_of h a = Some es" "read_entries n h es = Some (qs, H)" "ps = Some qs"
      by (auto simp: read_params_def read_ptr_def bind_eq_Some_conv)
    have e1: "read_entries n h1 es = Some (qs, H)"
      by (rule copyable.extended [OF copyable.list_copyable [OF pair_copyable [OF plain_copyable entry_copyable]] e(2) c(2)])
    from snapshot_entries_reads [OF e1] obtain snaps h2 where
      s: "snapshot_entries n selected es h1 None = Some (snaps, h2, first_error selected qs None)"
        "reads_new (\<lambda>n. read_entries n) h1 h2 snaps (map (\<lambda>(k, fs). (k, snapshot_fields (jsonSnapshot fs))) qs)" by blast
    from s(2) obtain m G2 where g: "prefix h1 h2" "read_entries m h2 snaps = Some (map (\<lambda>(k, fs). (k, snapshot_fields (jsonSnapshot fs))) qs, G2)"
      "\<forall>a \<in> set G2. length h1 \<le> a" by (auto simp: reads_new_def)
    let ?q = "out\<lparr>qo_ProviderParams := Some (length h2)\<rparr>" and ?h = "h2 @ [ParamsCell snaps]"
    have p: "read_params m ?h (Some (length h2)) = Some (Some (map (\<lambda>(k, fs). (k, snapshot_fields (jsonSnapshot fs))) qs), length h2 # G2)"
      using copyable.extended [OF copyable.list_copyable [OF pair_copyable [OF plain_copyable entry_copyable]] g(2), of ?h]
      by (simp add: read_params_def read_ptr_def fetch_def)
    have "read_request 0 ?h out = Some (u0, G1)"
      by (rule copyable.extended [OF request_copyable u(1)]) (use g(1) in simp)
    from read_request_with [OF this none p] have rd: "read_request m ?h ?q = Some (fst (recordChatRequest [] v selected), G1 @ length h2 # G2)"
      by (simp add: r(3) e(3) u(2) recorded_params)
    have keys': "param_keys h q = map fst qs" using read_entries_keys [OF e(2)] by (simp add: param_keys_def Some e(1))
    have err: "first_error selected qs None = snd (recordChatRequest (param_keys h q) v selected)" if keys: "distinct (param_keys h q)"
      using find_keys [of qs "\<lambda>k x. (case map_option jsonSnapshot x of Some (Inl _) \<Rightarrow> selected = [] \<or> k = selected | _ \<Rightarrow> False)"] keys
      by (simp add: first_error_find recordChatRequest_def Let_def keys' r(3) e(3) param_map_def map_option_case case_prod_beta split: option.split)
    have "store_recordChatRequest n q selected h = Some ((?q, first_error selected qs None), ?h)"
      using fetch_extended [OF e(1) c(2)] by (simp add: store_recordChatRequest_def c(1) Some s(1))
    moreover have "prefix h ?h" using c(2) g(1) by (auto intro: prefix_order.trans)
    moreover have "\<forall>a \<in> set (G1 @ length h2 # G2). length h \<le> a"
      using c(4) g(3) prefix_length_le [OF c(2)] prefix_length_le [OF g(1)] by auto
    ultimately show ?thesis using rd err by blast
  qed
qed

section \<open>Isolation\<close>

text \<open>
  A fake between its callers: \<open>rc_known\<close> is the memory the program has its hands on, everything it allocated itself and everything the fake
  handed out, and any of it may be overwritten with anything at any time. \<open>rc_log\<close> is what was recorded, as values.
\<close>

record ('x, 'v) recorder =
  rc_store :: store
  rc_calls :: "'x list"
  rc_log :: "'v list"
  rc_known :: "nat set"

inductive recorder_step :: "(nat \<Rightarrow> ('x, 'v) reader) \<Rightarrow> (nat \<Rightarrow> 'x copier) \<Rightarrow> (nat \<Rightarrow> 'x copier) \<Rightarrow> ('v \<Rightarrow> 'v) \<Rightarrow>
    ('x, 'v) recorder \<Rightarrow> ('x, 'v) recorder \<Rightarrow> bool" for rd cp rc val where
  step_alloc: "recorder_step rd cp rc val s (s\<lparr>rc_store := rc_store s @ [c], rc_known := insert (length (rc_store s)) (rc_known s)\<rparr>)"
| step_write: "a \<in> rc_known s \<Longrightarrow> recorder_step rd cp rc val s (s\<lparr>rc_store := (rc_store s)[a := c]\<rparr>)"
| step_record: "rd n (rc_store s) x = Some (v, F) \<Longrightarrow> rc n x (rc_store s) = Some (x', h) \<Longrightarrow>
    recorder_step rd cp rc val s (s\<lparr>rc_store := h, rc_calls := rc_calls s @ [x'], rc_log := rc_log s @ [val v]\<rparr>)"
| step_calls: "read_list (rd n) (rc_store s) (rc_calls s) = Some (vs, F) \<Longrightarrow> copy_list (cp n) (rc_calls s) (rc_store s) = Some (xs, h) \<Longrightarrow>
    recorder_step rd cp rc val s (s\<lparr>rc_store := h, rc_known := rc_known s \<union> {length (rc_store s)..<length h}\<rparr>)"
| step_reset: "recorder_step rd cp rc val s (s\<lparr>rc_calls := [], rc_log := []\<rparr>)"

definition recorder_start :: "store \<Rightarrow> ('x, 'v) recorder" where
  "recorder_start h = \<lparr>rc_store = h, rc_calls = [], rc_log = [], rc_known = {..<length h}\<rparr>"

definition isolated :: "(nat \<Rightarrow> ('x, 'v) reader) \<Rightarrow> ('x, 'v) recorder \<Rightarrow> bool" where
  "isolated rd s \<longleftrightarrow> rc_known s \<subseteq> {..<length (rc_store s)} \<and>
     (\<exists>n F. read_list (rd n) (rc_store s) (rc_calls s) = Some (rc_log s, F) \<and> set F \<inter> rc_known s = {})"

locale recording =
  fixes rd :: "nat \<Rightarrow> ('x, 'v) reader" and cp rc :: "nat \<Rightarrow> 'x copier" and val :: "'v \<Rightarrow> 'v"
  assumes copy: "copyable (rd n) (cp n)"
    and fuel: "rd n h x = Some (v, F) \<Longrightarrow> n \<le> m \<Longrightarrow> rd m h x = Some (v, F)"
    and recorded: "rd n h x = Some (v, F) \<Longrightarrow> rc n x h = Some (x', h') \<Longrightarrow>
      prefix h h' \<and> (\<exists>m G. rd m h' x' = Some (val v, G) \<and> (\<forall>a \<in> set G. length h \<le> a))"
begin

lemma list_fuel: "read_list (rd n) h xs = Some (vs, F) \<Longrightarrow> n \<le> m \<Longrightarrow> read_list (rd m) h xs = Some (vs, F)"
  by (rule read_list_mono [where rd = "rd n"]) (auto intro: fuel)

lemma list_copy: "copyable (read_list (rd n)) (copy_list (cp n))"
  by (rule copyable.list_copyable [OF copy])

lemma read_list_append:
  "read_list (rd n) h xs = Some (vs, F) \<Longrightarrow> rd n h x = Some (v, G) \<Longrightarrow> read_list (rd n) h (xs @ [x]) = Some (vs @ [v], F @ G)"
  by (induction xs arbitrary: vs F) (auto simp: bind_eq_Some_conv)

lemma isolatedI:
  "rc_known s \<subseteq> {..<length (rc_store s)} \<Longrightarrow> read_list (rd n) (rc_store s) (rc_calls s) = Some (rc_log s, F) \<Longrightarrow> set F \<inter> rc_known s = {} \<Longrightarrow> isolated rd s"
  unfolding isolated_def by blast

lemma step_isolated:
  assumes "recorder_step rd cp rc val s s'" and "isolated rd s"
  shows "isolated rd s'"
proof -
  from assms(2) obtain n F where known: "rc_known s \<subseteq> {..<length (rc_store s)}"
    and r: "read_list (rd n) (rc_store s) (rc_calls s) = Some (rc_log s, F)" and apart: "set F \<inter> rc_known s = {}"
    unfolding isolated_def by blast
  have bounded: "a < length (rc_store s)" if "a \<in> set F" for a by (rule copyable.bounded [OF list_copy r that])
  from assms(1) show ?thesis
  proof (cases rule: recorder_step.cases)
    case (step_alloc c)
    have "read_list (rd n) (rc_store s @ [c]) (rc_calls s) = Some (rc_log s, F)" by (rule copyable.extended [OF list_copy r]) simp
    with step_alloc known apart bounded show ?thesis by (intro isolatedI [of _ n F]) auto
  next
    case (step_write a c)
    have "a \<noteq> b" if "b \<in> set F" for b using that apart step_write(2) by blast
    then have "read_list (rd n) ((rc_store s)[a := c]) (rc_calls s) = Some (rc_log s, F)"
      by (intro copyable.framed [OF list_copy r]) (simp add: bounded)
    with step_write known apart show ?thesis by (intro isolatedI [of _ n F]) auto
  next
    case (step_record k x v G x' h)
    from recorded [OF step_record(2,3)] obtain m H where n: "prefix (rc_store s) h" "rd m h x' = Some (val v, H)"
      "\<forall>a \<in> set H. length (rc_store s) \<le> a" by blast
    have "read_list (rd (max n m)) h (rc_calls s) = Some (rc_log s, F)"
      by (rule copyable.extended [OF list_copy list_fuel [OF r] n(1)]) simp
    with fuel [OF n(2), of "max n m"] have "read_list (rd (max n m)) h (rc_calls s @ [x']) = Some (rc_log s @ [val v], F @ H)"
      by (intro read_list_append) simp_all
    with step_record known apart n(3) prefix_length_le [OF n(1)] show ?thesis
      by (intro isolatedI [of _ "max n m" "F @ H"]) fastforce+
  next
    case (step_calls k vs G xs h)
    from copyable.copied [OF list_copy step_calls(2)] step_calls(3) have "prefix (rc_store s) h" by auto
    then have "read_list (rd n) h (rc_calls s) = Some (rc_log s, F)" and "length (rc_store s) \<le> length h"
      by (auto intro: copyable.extended [OF list_copy r] prefix_length_le)
    with step_calls(1) known apart bounded show ?thesis by (intro isolatedI [of _ n F]) fastforce+
  next
    case step_reset
    with known show ?thesis by (intro isolatedI [of _ n "[]"]) auto
  qed
qed

lemma reachable_isolated:
  assumes "(recorder_step rd cp rc val)\<^sup>*\<^sup>* (recorder_start h) s"
  shows "isolated rd s"
  using assms
proof (induction rule: rtranclp_induct)
  case base
  show ?case by (rule isolatedI [of _ 0 "[]"]) (simp_all add: recorder_start_def)
qed (rule step_isolated)

text \<open>What the fake then hands out reads as the log too, and is new memory.\<close>

lemma isolated_calls:
  assumes "isolated rd s"
  shows "\<exists>n xs h F. copy_list (cp n) (rc_calls s) (rc_store s) = Some (xs, h) \<and> read_list (rd n) h xs = Some (rc_log s, F) \<and>
    (\<forall>a \<in> set F. length (rc_store s) \<le> a)"
  using assms copyable.copied [OF list_copy] unfolding isolated_def by blast

end

section \<open>The chat fake and the embedding fake\<close>

definition chat_record :: "provider_id \<Rightarrow> nat \<Rightarrow> request_obj copier" where
  "chat_record selected n q h = map_option (\<lambda>((q', _), h'). (q', h')) (store_recordChatRequest n q selected h)"

abbreviation "chat_step selected \<equiv>
  recorder_step read_request copyChatRequest (chat_record selected) (\<lambda>v. fst (recordChatRequest [] v selected))"

abbreviation "embedding_step \<equiv>
  recorder_step (\<lambda>_. read_embedding) (\<lambda>_. copyEmbeddingRequest) (\<lambda>_. copyEmbeddingRequest) (\<lambda>v. v)"

lemma store_record_reads:
  assumes "read_request n h q = Some (v, F)" and "store_recordChatRequest n q selected h = Some ((q', err), h')"
  shows "prefix h h' \<and> (\<exists>m G. read_request m h' q' = Some (fst (recordChatRequest [] v selected), G) \<and> (\<forall>a \<in> set G. length h \<le> a))"
  using recording_agrees [OF assms(1), of selected] assms(2) by auto

interpretation chat_recording: recording read_request copyChatRequest "chat_record selected" "\<lambda>v. fst (recordChatRequest [] v selected)" for selected
proof (rule recording.intro)
  fix n show "copyable (read_request n) (copyChatRequest n)" by (rule request_copyable)
next
  fix n h q v F m assume "read_request n h q = Some (v, F)" and "n \<le> m"
  then show "read_request m h q = Some (v, F)" by (rule read_request_fuel)
next
  fix n h q v F q' h' assume r: "read_request n h q = Some (v, F)" and "chat_record selected n q h = Some (q', h')"
  with store_record_reads [OF r] show "prefix h h' \<and>
      (\<exists>m G. read_request m h' q' = Some (fst (recordChatRequest [] v selected), G) \<and> (\<forall>a \<in> set G. length h \<le> a))"
    by (auto simp: chat_record_def)
qed

interpretation embedding_recording: recording "\<lambda>_. read_embedding" "\<lambda>_. copyEmbeddingRequest" "\<lambda>_. copyEmbeddingRequest" "\<lambda>v. v"
proof (rule recording.intro)
  show "copyable read_embedding copyEmbeddingRequest" by (rule embedding_copyable)
next
  fix h e v F e' h' assume r: "read_embedding h e = Some (v, F)" and "copyEmbeddingRequest e h = Some (e', h')"
  with embedding_copy.copied [OF r] show "prefix h h' \<and> (\<exists>(m :: nat) G. read_embedding h' e' = Some (v, G) \<and> (\<forall>a \<in> set G. length h \<le> a))"
    by auto
qed

text \<open>
  C25: a fake's recordings cannot be changed from outside: whatever the program around it allocates and overwrites, in requests it passed before
  and in what \<open>Calls\<close> gave it, the recorded requests read as they were when they were recorded, \<open>Calls\<close> returns copies that
  read the same and are new memory, and a request that can be read is recorded, with the error the fake reports.
\<close>

theorem recordings_are_isolated:
  assumes "(chat_step selected)\<^sup>*\<^sup>* (recorder_start h0) s"
  shows "(\<exists>n F. read_list (read_request n) (rc_store s) (rc_calls s) = Some (rc_log s, F) \<and> set F \<inter> rc_known s = {}) \<and>
    (\<exists>n qs h F. copy_list (copyChatRequest n) (rc_calls s) (rc_store s) = Some (qs, h) \<and>
       read_list (read_request n) h qs = Some (rc_log s, F) \<and> (\<forall>a \<in> set F. length (rc_store s) \<le> a)) \<and>
    (\<forall>n q v F. read_request n (rc_store s) q = Some (v, F) \<longrightarrow> distinct (param_keys (rc_store s) q) \<longrightarrow>
       (\<exists>q' h. store_recordChatRequest n q selected (rc_store s) =
          Some ((q', snd (recordChatRequest (param_keys (rc_store s) q) v selected)), h)))"
proof -
  from chat_recording.reachable_isolated [OF assms] have i: "isolated read_request s" .
  then have "\<exists>n F. read_list (read_request n) (rc_store s) (rc_calls s) = Some (rc_log s, F) \<and> set F \<inter> rc_known s = {}"
    unfolding isolated_def by blast
  moreover note chat_recording.isolated_calls [OF i]
  ultimately show ?thesis using recording_agrees by blast
qed

lemma embedding_recordings_are_isolated:
  assumes "embedding_step\<^sup>*\<^sup>* (recorder_start h0) s"
  shows "isolated (\<lambda>_. read_embedding) s \<and>
    (\<exists>es h F. copy_list copyEmbeddingRequest (rc_calls s) (rc_store s) = Some (es, h) \<and> read_list read_embedding h es = Some (rc_log s, F) \<and>
       (\<forall>a \<in> set F. length (rc_store s) \<le> a))"
  using embedding_recording.reachable_isolated [OF assms] embedding_recording.isolated_calls by blast

definition demo_objects :: store where
  "demo_objects = [ByteCell ''{}'', CallCell \<lparr>co_ID = ''1'', co_Name = ''f'', co_Parameters = Slice 0 0 2, co_ProviderSignature = NilSlice\<rparr>,
     PartCell [\<lparr>po_Type = ContentToolCall, po_Text = [], po_ToolCall = Some 1, po_ToolResult = None, po_Reasoning = None, po_CacheBreakpoint = False\<rparr>],
     MessageCell [\<lparr>mo_Role = RoleAssistant, mo_Content = Slice 2 0 1\<rparr>],
     ArrayCell [AnyNum ''1''], ObjectCell [(''a'', AnySlice (Slice 4 0 1))], ParamsCell [(''openai'', Some 5)]]"

definition demo_request_obj :: request_obj where
  "demo_request_obj = \<lparr>qo_System = NilSlice, qo_Messages = Slice 3 0 1, qo_Tools = NilSlice, qo_ToolChoice = \<lparr>tch_Type = ToolChoiceAuto, tch_Name = []\<rparr>,
     qo_Purpose = ''chat'', qo_MaxTokens = 0, qo_Temperature = None, qo_Metadata = None, qo_Reasoning = None, qo_ProviderParams = Some 6\<rparr>"

text \<open>The request is recorded; then its tool call's arguments are overwritten.\<close>

definition demo_recorder :: "(request_obj, chat_request) recorder" where
  "demo_recorder =
     (let x = the (chat_record [] 2 demo_request_obj demo_objects) in
      \<lparr>rc_store = (snd x)[0 := ByteCell ''[]''], rc_calls = [fst x],
       rc_log = [fst (recordChatRequest [] (fst (the (read_request 2 demo_objects demo_request_obj))) [])], rc_known = {..<length demo_objects}\<rparr>)"

lemma demo_recorder_reachable: "(chat_step [])\<^sup>*\<^sup>* (recorder_start demo_objects) demo_recorder"
proof -
  let ?s = "recorder_start demo_objects :: (request_obj, chat_request) recorder"
  have "read_request 2 demo_objects demo_request_obj \<noteq> None" by code_simp
  then obtain v F where v: "read_request 2 demo_objects demo_request_obj = Some (v, F)" by auto
  have "chat_record [] 2 demo_request_obj demo_objects \<noteq> None" by code_simp
  then obtain q h where q: "chat_record [] 2 demo_request_obj demo_objects = Some (q, h)" by auto
  let ?t = "?s\<lparr>rc_store := h, rc_calls := rc_calls ?s @ [q], rc_log := rc_log ?s @ [fst (recordChatRequest [] v [])]\<rparr>"
  have "chat_step [] ?s ?t" by (rule step_record [where x = demo_request_obj and n = 2]) (simp_all add: recorder_start_def v q)
  moreover have "chat_step [] ?t (?t\<lparr>rc_store := (rc_store ?t)[0 := ByteCell ''[]'']\<rparr>)"
    by (rule step_write) (simp add: recorder_start_def demo_objects_def)
  moreover have "?t\<lparr>rc_store := (rc_store ?t)[0 := ByteCell ''[]'']\<rparr> = demo_recorder"
    by (simp add: demo_recorder_def recorder_start_def v q)
  ultimately show ?thesis by (metis (no_types, lifting) converse_rtranclp_into_rtranclp r_into_rtranclp)
qed

theorem recordings_are_isolated_witness:
  "fetch bytes_of (rc_store demo_recorder) 0 = Some ''[]'' \<and>
   map (\<lambda>v. map (\<lambda>m. map (\<lambda>p. map_option tc_Parameters (cp_ToolCall p)) (m_Content m)) (cr_Messages v)) (rc_log demo_recorder) = [[[Some ''{}'']]] \<and>
   (\<exists>n F. read_list (read_request n) (rc_store demo_recorder) (rc_calls demo_recorder) = Some (rc_log demo_recorder, F) \<and>
      set F \<inter> rc_known demo_recorder = {})"
proof (intro conjI)
  show "fetch bytes_of (rc_store demo_recorder) 0 = Some ''[]''" by code_simp
  show "map (\<lambda>v. map (\<lambda>m. map (\<lambda>p. map_option tc_Parameters (cp_ToolCall p)) (m_Content m)) (cr_Messages v)) (rc_log demo_recorder) = [[[Some ''{}'']]]"
    by code_simp
qed (use recordings_are_isolated [OF demo_recorder_reachable] in blast)

end
