(* ===== verification/ChatDemo.thy ===== *)
theory ChatDemo
  imports ConstructProps Chain
begin

text \<open>
  The demo server of \<open>examples/chat\<close>: \<open>providers.go\<close>, which finds one model per provider, and the handlers of
  \<open>server.go\<close>. The environment, the SDKs under the constructors and \<open>url.Parse\<close> are a record; log lines are left out. A reply is its status and
  the value it encodes. \<open>newServer\<close>'s mux is given by the paths it serves; the body of a request is a string.
\<close>

section \<open>Choosing a model (providers.go)\<close>

record ModelOption =
  mop_ID :: string
  mop_Label :: string
  mop_ProviderName :: string
  mop_Model :: string

record ('tr, 'hc, 'w) demo_env =
  de_Getenv :: "string \<Rightarrow> string"
  de_anthropic :: "'tr sdk_option list \<Rightarrow> 'w anthropic_catalog"
  de_openai :: "'tr sdk_option list \<Rightarrow> 'w openai_catalog"
  de_google :: "'tr genai_client_config \<Rightarrow> error + 'w google_catalog"
  de_transport :: "'tr transport_env"
  de_ollama :: "'hc \<Rightarrow> 'w ollama_catalog"
  de_http :: 'hc
  de_url :: "string \<Rightarrow> error + (string \<times> string)"
  de_compat :: "'tr sdk_option list \<Rightarrow> 'w compat_catalog"

fun envFirst :: "(string \<Rightarrow> string) \<Rightarrow> string list \<Rightarrow> string" where
  "envFirst getenv [] = []"
| "envFirst getenv (n # ns) = (if getenv n \<noteq> [] then getenv n else envFirst getenv ns)"

text \<open>The label has an em dash between the vendor and the model.\<close>

definition modelOption :: "string \<Rightarrow> string \<Rightarrow> string \<Rightarrow> ModelOption" where
  "modelOption providerName vendorLabel modelID =
     \<lparr>mop_ID = providerName @ ''/'' @ modelID, mop_Label = vendorLabel @ '' '' @ [CHR 0xE2, CHR 0x80, CHR 0x94] @ '' '' @ modelID,
      mop_ProviderName = providerName, mop_Model = modelID\<rparr>"

text \<open>The loops keep the best entry so far.\<close>

fun newestByCreated_loop :: "string \<Rightarrow> model_info option \<Rightarrow> model_info list \<Rightarrow> model_info option" where
  "newestByCreated_loop fam newest [] = newest"
| "newestByCreated_loop fam newest (m # ms) =
     (if mdi_Family m \<noteq> fam then newestByCreated_loop fam newest ms
      else case newest of
        None \<Rightarrow> newestByCreated_loop fam (Some m) ms
      | Some n \<Rightarrow>
          (if mdi_Created m > mdi_Created n then newestByCreated_loop fam (Some m) ms
           else if mdi_Created m = mdi_Created n \<and> mdi_ID m > mdi_ID n then newestByCreated_loop fam (Some m) ms
           else newestByCreated_loop fam newest ms))"

definition newestByCreated :: "model_info list \<Rightarrow> string \<Rightarrow> model_info option" where
  "newestByCreated models fam = newestByCreated_loop fam None models"

text \<open>\<open>strconv.ParseFloat\<close> of digits and points.\<close>

definition ParseFloat_digits :: "string \<Rightarrow> rat option" where
  "ParseFloat_digits s =
     (let major = takeWhile is_digit s; minor = drop (Suc (length major)) s in
      if (major = [] \<and> minor = []) \<or> \<not> list_all is_digit minor then None
      else let v = fl (of_int (digits_value (major @ minor)) / 10 ^ length minor) in if v \<ge> 2 ^ 1024 then None else Some v)"

definition versionOfGeminiID :: "string \<Rightarrow> rat" where
  "versionOfGeminiID i =
     (if take 7 i \<noteq> ''gemini-'' then 0
      else
        let rest = drop 7 i; num = takeWhile (\<lambda>x. x = CHR ''.'' \<or> is_digit x) rest in
        if num = rest \<or> num = [] then 0
        else case ParseFloat_digits num of None \<Rightarrow> 0 | Some v \<Rightarrow> v)"

fun newestByGeminiVersion_loop :: "string \<Rightarrow> model_info option \<Rightarrow> rat \<Rightarrow> model_info list \<Rightarrow> model_info option \<times> rat" where
  "newestByGeminiVersion_loop fam newest bestV [] = (newest, bestV)"
| "newestByGeminiVersion_loop fam newest bestV (m # ms) =
     (if mdi_Family m \<noteq> fam then newestByGeminiVersion_loop fam newest bestV ms
      else
        let v = versionOfGeminiID (mdi_ID m) in
        if v > bestV \<or> (v = bestV \<and> mdi_ID m > (case newest of None \<Rightarrow> [] | Some n \<Rightarrow> mdi_ID n))
        then newestByGeminiVersion_loop fam (Some m) v ms
        else newestByGeminiVersion_loop fam newest bestV ms)"

definition newestByGeminiVersion :: "model_info list \<Rightarrow> string \<Rightarrow> model_info option" where
  "newestByGeminiVersion models fam =
     (let (newest, bestV) = newestByGeminiVersion_loop fam None (- 1) models in if bestV < 0 then None else newest)"

definition listTimeout :: int where "listTimeout = 8 * 1000000000"

text \<open>\<open>Context.Deadline\<close>; a context that is going to be cancelled has none.\<close>

definition ctx_Deadline :: "ctx \<Rightarrow> int option" where
  "ctx_Deadline c = (case c_done c of Some (t, e) \<Rightarrow> if e = DeadlineExceeded then Some t else None | None \<Rightarrow> None)"

definition withListTimeout :: "ctx \<Rightarrow> 'a world_scheme \<Rightarrow> ctx" where
  "withListTimeout parent w =
     (case ctx_Deadline parent of
        Some deadline \<Rightarrow> if time_sub deadline (w_clock w) < listTimeout then parent else WithTimeout parent listTimeout w
      | None \<Rightarrow> WithTimeout parent listTimeout w)"

definition anthropicPreferredFamilies :: "string list" where "anthropicPreferredFamilies = [''claude-opus'', ''claude-sonnet'', ''claude-haiku'']"
definition openAIPreferredFamilies :: "string list" where "openAIPreferredFamilies = [''gpt-5'', ''gpt-4o'', ''o3'']"
definition googlePreferredFamilies :: "string list" where "googlePreferredFamilies = [''gemini-pro'', ''gemini-flash'']"

text \<open>The first family with a model.\<close>

fun first_family :: "(string \<Rightarrow> model_info option) \<Rightarrow> string list \<Rightarrow> model_info option" where
  "first_family newest [] = None"
| "first_family newest (fam # fams) = (case newest fam of Some m \<Rightarrow> Some m | None \<Rightarrow> first_family newest fams)"

type_synonym ('tr, 'hc, 'a) detector =
  "('tr, 'hc, 'a world_scheme) demo_env \<Rightarrow> ctx \<Rightarrow> 'a world_scheme \<Rightarrow> ModelOption option \<times> 'a world_scheme"

definition anthropic_key :: "(string \<Rightarrow> string) \<Rightarrow> string" where
  "anthropic_key getenv = envFirst getenv [''ANTHROPIC_API_KEY'', ''MAESTRO_ANTHROPIC_API_KEY'']"

definition google_key :: "(string \<Rightarrow> string) \<Rightarrow> string" where
  "google_key getenv = envFirst getenv [''GEMINI_API_KEY'', ''GOOGLE_GENAI_API_KEY'', ''GOOGLE_API_KEY'']"

definition anthropicOption :: "('tr, 'hc, 'a) detector" where
  "anthropicOption env ctx w =
     (let key = anthropic_key (de_Getenv env) in
      if key = [] then (None, w)
      else case anthropic_New (de_anthropic env) [anthropic_WithAPIKey key, anthropic_WithModel ''claude-haiku-4-5-20251001''] of
        Inl err \<Rightarrow> (None, w)
      | Inr c \<Rightarrow>
          (case anthropic_ListModels c (withListTimeout ctx w) w of
             ((models, Some err), w') \<Rightarrow> (None, w')
           | ((models, None), w') \<Rightarrow>
               (map_option (\<lambda>newest. modelOption ''anthropic'' ''Anthropic'' (mdi_ID newest))
                  (first_family (newestByCreated models) anthropicPreferredFamilies), w')))"

definition openAIOption :: "('tr, 'hc, 'a) detector" where
  "openAIOption env ctx w =
     (let key = de_Getenv env ''OPENAI_API_KEY'' in
      if key = [] then (None, w)
      else case openai_New (de_openai env) [openai_WithAPIKey key, openai_WithModel ''gpt-4o-mini''] of
        Inl err \<Rightarrow> (None, w)
      | Inr c \<Rightarrow>
          (case openai_ListModels c (withListTimeout ctx w) w of
             ((models, Some err), w') \<Rightarrow> (None, w')
           | ((models, None), w') \<Rightarrow>
               (map_option (\<lambda>newest. modelOption ''openai'' ''OpenAI'' (mdi_ID newest))
                  (first_family (newestByCreated models) openAIPreferredFamilies), w')))"

definition googleOption :: "('tr, 'hc, 'a) detector" where
  "googleOption env ctx w =
     (let key = google_key (de_Getenv env) in
      if key = [] then (None, w)
      else case google_New (de_google env) (de_transport env) [google_WithAPIKey key, google_WithModel ''gemini-2.5-flash''] of
        Inl err \<Rightarrow> (None, w)
      | Inr c \<Rightarrow>
          (case google_ListModels c (withListTimeout ctx w) w of
             ((models, Some err), w') \<Rightarrow> (None, w')
           | ((models, None), w') \<Rightarrow>
               (map_option (\<lambda>newest. modelOption ''google'' ''Google'' (mdi_ID newest))
                  (first_family (newestByGeminiVersion models) googlePreferredFamilies), w')))"

definition ollama_host :: "(string \<Rightarrow> string) \<Rightarrow> string" where
  "ollama_host getenv = (if getenv ''OLLAMA_HOST'' = [] then ''http://localhost:11434'' else getenv ''OLLAMA_HOST'')"

definition newest_pulled :: "model_info list \<Rightarrow> model_info \<Rightarrow> model_info" where
  "newest_pulled models first =
     foldl (\<lambda>newest m. if mdi_Created m > mdi_Created newest \<or> (mdi_Created m = mdi_Created newest \<and> mdi_ID m > mdi_ID newest)
       then m else newest) first models"

definition ollamaOption :: "('tr, 'hc, 'a) detector" where
  "ollamaOption env ctx w =
     (case ollama_New (de_ollama env) (de_http env) (de_url env)
        [ollama_WithBaseURL (ollama_host (de_Getenv env)), ollama_WithModel ''placeholder''] of
        Inl err \<Rightarrow> (None, w)
      | Inr c \<Rightarrow>
          (case ollama_ListModels c (withListTimeout ctx w) w of
             ((models, Some err), w') \<Rightarrow> (None, w')
           | (([], None), w') \<Rightarrow> (None, w')
           | ((m # ms, None), w') \<Rightarrow> (Some (modelOption ''ollama'' ''Ollama'' (mdi_ID (newest_pulled (m # ms) m))), w')))"

definition vllmOption :: "('tr, 'hc, 'a) detector" where
  "vllmOption env ctx w =
     (let base = de_Getenv env ''MAESTRO_VLLM'' in
      if base = [] then (None, w)
      else case compat_New (de_compat env) [compat_WithBaseURL base, compat_WithModel ''placeholder''] of
        Inl err \<Rightarrow> (None, w)
      | Inr c \<Rightarrow>
          (case compat_ListModels c (withListTimeout ctx w) w of
             ((models, Some err), w') \<Rightarrow> (None, w')
           | (([], None), w') \<Rightarrow> (None, w')
           | ((m # ms, None), w') \<Rightarrow> (Some (modelOption ''vllm'' ''vLLM'' (mdi_ID m)), w')))"

fun detect_all :: "('tr, 'hc, 'a) detector list \<Rightarrow> ('tr, 'hc, 'a world_scheme) demo_env \<Rightarrow> ctx \<Rightarrow> 'a world_scheme \<Rightarrow> ModelOption list \<times> 'a world_scheme" where
  "detect_all [] env ctx w = ([], w)"
| "detect_all (d # ds) env ctx w =
     (let (opt, w) = d env ctx w; (rest, w) = detect_all ds env ctx w in (case opt of None \<Rightarrow> rest | Some x \<Rightarrow> x # rest, w))"

definition detectAvailable :: "('tr, 'hc, 'a world_scheme) demo_env \<Rightarrow> ctx \<Rightarrow> 'a world_scheme \<Rightarrow> ModelOption list \<times> 'a world_scheme" where
  "detectAvailable env ctx w = detect_all [anthropicOption, openAIOption, googleOption, ollamaOption, vllmOption] env ctx w"

section \<open>The server (server.go)\<close>

record apiMessage =
  apm_Role :: string
  apm_Text :: string

record chatRequest =
  crq_ModelID :: string
  crq_History :: "apiMessage list"

record chatResponse =
  crs_Text :: string
  crs_Model :: string
  crs_StopReason :: string
  crs_InputTokens :: int
  crs_OutputTokens :: int
  crs_ReasoningTokens :: int
  crs_BillableOutputTokens :: int
  crs_TotalTokens :: int
  crs_LatencyMS :: int
  crs_Error :: string

definition error_body :: "string \<Rightarrow> chatResponse" where
  "error_body msg = \<lparr>crs_Text = [], crs_Model = [], crs_StopReason = [], crs_InputTokens = 0, crs_OutputTokens = 0,
     crs_ReasoningTokens = 0, crs_BillableOutputTokens = 0, crs_TotalTokens = 0, crs_LatencyMS = 0, crs_Error = msg\<rparr>"

datatype reply = Plain int string | Json int chatResponse | Options "ModelOption list" | Page | Static string

text \<open>Decoding the body; the elements of the history are decoded from zero values.\<close>

definition set_apiMessage :: "string \<Rightarrow> json \<Rightarrow> apiMessage \<Rightarrow> apiMessage option" where
  "set_apiMessage k v m =
     (if k = ''role'' then map_option (\<lambda>s. m\<lparr>apm_Role := s\<rparr>) (decode_string v (apm_Role m))
      else if k = ''text'' then map_option (\<lambda>s. m\<lparr>apm_Text := s\<rparr>) (decode_string v (apm_Text m))
      else Some m)"

definition set_chatRequest :: "string \<Rightarrow> json \<Rightarrow> chatRequest \<Rightarrow> chatRequest option" where
  "set_chatRequest k v r =
     (if k = ''modelid'' then map_option (\<lambda>s. r\<lparr>crq_ModelID := s\<rparr>) (decode_string v (crq_ModelID r))
      else if k = ''history'' then
        (case v of
           JArr js \<Rightarrow> map_option (\<lambda>ms. r\<lparr>crq_History := ms\<rparr>) (decode_list (decode_struct set_apiMessage \<lparr>apm_Role = [], apm_Text = []\<rparr>) js)
         | JNull \<Rightarrow> Some (r\<lparr>crq_History := []\<rparr>)
         | _ \<Rightarrow> None)
      else Some r)"

definition decode_chatRequest :: "string \<Rightarrow> chatRequest option" where
  "decode_chatRequest body =
     (case decode_first body of
        None \<Rightarrow> None
      | Some j \<Rightarrow> decode_struct set_chatRequest \<lparr>crq_ModelID = [], crq_History = []\<rparr> j)"

definition findOption :: "ModelOption list \<Rightarrow> string \<Rightarrow> ModelOption option" where
  "findOption options i = find (\<lambda>opt. mop_ID opt = i) options"

text \<open>A conversion that panics ends the handler; \<open>demo_request_converts\<close> shows that none of the handler's requests does.\<close>

definition returned :: "((chat_response \<times> error option) \<times> 'w) option \<Rightarrow> 'w \<Rightarrow> (chat_response \<times> error option) \<times> 'w" where
  "returned res w = (case res of Some r \<Rightarrow> r | None \<Rightarrow> ((zero_response, None), w))"

definition anthropic_chat :: "'w anthropic_catalog \<Rightarrow> 'w chat_client" where
  "anthropic_chat c = (let cl = anthropic_client.truncate c in \<lparr>cc_Model = anthropic_Model cl, cc_Complete = anthropic_Complete cl\<rparr>)"

definition openai_chat :: "'w openai_catalog \<Rightarrow> 'w chat_client" where
  "openai_chat c = (let cl = openai_client.truncate c in
     \<lparr>cc_Model = openai_Model cl, cc_Complete = (\<lambda>ctx req w. returned (openai_Complete cl ctx req w) w)\<rparr>)"

definition google_chat :: "'w google_catalog \<Rightarrow> 'w chat_client" where
  "google_chat c = (let cl = google_client.truncate c in
     \<lparr>cc_Model = google_Model cl, cc_Complete = (\<lambda>ctx req w. returned (google_Complete cl ctx req w) w)\<rparr>)"

definition ollama_chat :: "'w ollama_catalog \<Rightarrow> 'w chat_client" where
  "ollama_chat c = (let cl = ollama_client.truncate c in \<lparr>cc_Model = ollama_Model cl, cc_Complete = ollama_Complete cl\<rparr>)"

definition compat_chat :: "'w compat_catalog \<Rightarrow> 'w chat_client" where
  "compat_chat c = (let cl = compat_client.truncate c in \<lparr>cc_Model = compat_Model cl, cc_Complete = compat_Complete cl\<rparr>)"

definition buildClient :: "('tr, 'hc, 'w) demo_env \<Rightarrow> ModelOption \<Rightarrow> error + 'w chat_client" where
  "buildClient env opt =
     (if mop_ProviderName opt = ''anthropic'' then
        map_sum id anthropic_chat (anthropic_New (de_anthropic env) [anthropic_WithAPIKey (anthropic_key (de_Getenv env)), anthropic_WithModel (mop_Model opt)])
      else if mop_ProviderName opt = ''openai'' then
        map_sum id openai_chat (openai_New (de_openai env) [openai_WithAPIKey (envFirst (de_Getenv env) [''OPENAI_API_KEY'']), openai_WithModel (mop_Model opt)])
      else if mop_ProviderName opt = ''google'' then
        map_sum id google_chat (google_New (de_google env) (de_transport env) [google_WithAPIKey (google_key (de_Getenv env)), google_WithModel (mop_Model opt)])
      else if mop_ProviderName opt = ''ollama'' then
        (let host = envFirst (de_Getenv env) [''OLLAMA_HOST'']; host = (if host = [] then ''http://localhost:11434'' else host) in
         map_sum id ollama_chat (ollama_New (de_ollama env) (de_http env) (de_url env) [ollama_WithBaseURL host, ollama_WithModel (mop_Model opt)]))
      else if mop_ProviderName opt = ''vllm'' then
        map_sum id compat_chat (compat_New (de_compat env) [compat_WithBaseURL (envFirst (de_Getenv env) [''MAESTRO_VLLM'']), compat_WithModel (mop_Model opt)])
      else Inl (Wrapped (''unknown provider '' @ quote (mop_ProviderName opt)) []))"

definition friendlyErr :: "error option \<Rightarrow> string" where
  "friendlyErr err =
     (case errors_As is_ProviderError err of
        Some pe \<Rightarrow> pe_Kind pe @ '': '' @ pe_Message pe
      | None \<Rightarrow> (case err of None \<Rightarrow> [] | Some e \<Rightarrow> error_text e))"

definition server_config :: "(unit, 'w) recommended_config" where
  "server_config = \<lparr>rc_Limiter = None, rc_Estimator = None, rc_Observer = None, rc_Retry = None,
     rc_Circuit = \<lparr>FailureThreshold = 0, SuccessThreshold = 0, OpenTimeout = 0\<rparr>, rc_Timeout = 30 * 1000000000\<rparr>"

text \<open>The messages, or the first role that is neither.\<close>

fun neutral_messages :: "apiMessage list \<Rightarrow> string + message list" where
  "neutral_messages [] = Inr []"
| "neutral_messages (m # ms) =
     (if apm_Role m = ''user'' then map_sum id ((#) (UserText (apm_Text m))) (neutral_messages ms)
      else if apm_Role m = ''assistant'' then map_sum id ((#) (AssistantText (apm_Text m))) (neutral_messages ms)
      else Inl (apm_Role m))"

definition demo_chat_request :: "message list \<Rightarrow> chat_request" where
  "demo_chat_request msgs = zero_request\<lparr>cr_Purpose := ''chat'', cr_Messages := msgs, cr_MaxTokens := 1024\<rparr>"

definition ok_body :: "string \<Rightarrow> chat_response \<Rightarrow> int \<Rightarrow> chatResponse" where
  "ok_body model resp latency =
     \<lparr>crs_Text = rsp_Text resp, crs_Model = model, crs_StopReason = rsp_StopReason resp,
      crs_InputTokens = u_InputTokens (rsp_Usage resp), crs_OutputTokens = u_OutputTokens (rsp_Usage resp),
      crs_ReasoningTokens = u_ReasoningTokens (rsp_Usage resp), crs_BillableOutputTokens = u_BillableOutputTokens (rsp_Usage resp),
      crs_TotalTokens = u_TotalTokens (rsp_Usage resp), crs_LatencyMS = go_div latency 1000000, crs_Error = []\<rparr>"

text \<open>\<open>CircuitChat\<close> creates its breaker when the chain is built, so every request starts with a new one.\<close>

definition complete_demo :: "'a chain_world_scheme chat_client \<Rightarrow> ctx \<Rightarrow> chat_request \<Rightarrow> 'a chain_world_scheme \<Rightarrow>
    (chat_response \<times> error option) \<times> 'a chain_world_scheme" where
  "complete_demo base ctx req w =
     cc_Complete (RecommendedChat server_config base) (WithTimeout ctx (60 * 1000000000) w) req
       (w\<lparr>cw_breaker := new_breaker (rc_Circuit (server_config :: (unit, 'a chain_world_scheme) recommended_config)) (cc_Model base)\<rparr>)"

definition handleChat :: "('tr, 'hc, 'a chain_world_scheme) demo_env \<Rightarrow> ModelOption list \<Rightarrow> ctx \<Rightarrow> string \<Rightarrow> string \<Rightarrow>
    'a chain_world_scheme \<Rightarrow> reply \<times> 'a chain_world_scheme" where
  "handleChat env options ctx meth body w =
     (if meth \<noteq> ''POST'' then (Plain 405 ''method not allowed'', w)
      else case decode_chatRequest body of
        None \<Rightarrow> (Json 400 (error_body (''invalid JSON: '' @ error_text json_error)), w)
      | Some req \<Rightarrow>
          (if crq_History req = [] then (Json 400 (error_body ''history is empty''), w)
           else case findOption options (crq_ModelID req) of
             None \<Rightarrow> (Json 400 (error_body (''unknown model: '' @ crq_ModelID req)), w)
           | Some opt \<Rightarrow>
               (case buildClient env opt of
                  Inl err \<Rightarrow> (Json 500 (error_body (error_text err)), w)
                | Inr base \<Rightarrow>
                    (case neutral_messages (crq_History req) of
                       Inl role \<Rightarrow> (Json 400 (error_body (''unknown role: '' @ role)), w)
                     | Inr msgs \<Rightarrow>
                         (case complete_demo base ctx (demo_chat_request msgs) w of
                            ((resp, Some err), w') \<Rightarrow> (Json 502 (error_body (friendlyErr (Some err))), w')
                          | ((resp, None), w') \<Rightarrow> (Json 200 (ok_body (mop_Model opt) resp (w_clock w' - w_clock w)), w'))))))"

definition servePage :: "string \<Rightarrow> reply" where
  "servePage path = (if path \<noteq> ''/'' then Plain 404 ''404 page not found'' else Page)"

definition newServer :: "('tr, 'hc, 'a chain_world_scheme) demo_env \<Rightarrow> ModelOption list \<Rightarrow> ctx \<Rightarrow> string \<Rightarrow> string \<Rightarrow> string \<Rightarrow>
    'a chain_world_scheme \<Rightarrow> reply \<times> 'a chain_world_scheme" where
  "newServer env options ctx meth path body w =
     (if path = ''/api/chat'' then handleChat env options ctx meth body w
      else if path = ''/api/providers'' then (Options options, w)
      else if take 8 path = ''/static/'' then (Static (drop 8 path), w)
      else (servePage path, w))"

definition estimateTokensForDisplay :: "string \<Rightarrow> int" where
  "estimateTokensForDisplay s = EstimateTextTokens (TrimSpace s)"

section \<open>Start (main.go)\<close>

text \<open>\<open>PORT\<close> overrides the flag \<open>addr\<close>. Without a provider the program exits; otherwise it serves at the address with this handler.\<close>

definition listen_addr :: "string \<Rightarrow> string \<Rightarrow> string" where
  "listen_addr addr port = (if port \<noteq> [] then '':'' @ port else addr)"

definition chat_main :: "('tr, 'hc, 'a chain_world_scheme) demo_env \<Rightarrow> string \<Rightarrow> 'a chain_world_scheme \<Rightarrow>
    (int + string \<times> (ctx \<Rightarrow> string \<Rightarrow> string \<Rightarrow> string \<Rightarrow> 'a chain_world_scheme \<Rightarrow> reply \<times> 'a chain_world_scheme)) \<times> 'a chain_world_scheme" where
  "chat_main env addr w =
     (case detectAvailable env background w of (options, w') \<Rightarrow>
        (if options = [] then Inl 1 else Inr (listen_addr addr (de_Getenv env ''PORT''), newServer env options), w'))"

end
