(* ===== verification/ChatDemoProps.thy ===== *)
theory ChatDemoProps
  imports ChatDemo
begin

text \<open>
  What the demo server does: the model it offers for a provider is the one the toolkit's own ordering puts first, everything it offers can be
  selected, and nothing but a well-formed conversation for such a model reaches a provider.
\<close>

section \<open>The newest model\<close>

context strict_order
begin

lemma trans: "lt x y \<Longrightarrow> lt y z \<Longrightarrow> lt x z"
  using tied [of x y z] asym [of y z] by blast

lemma SliceStable_Cons: "\<exists>rest. SliceStable lt (x # xs) =
    (case SliceStable lt xs of [] \<Rightarrow> x | y # _ \<Rightarrow> if lt y x then y else x) # rest"
  by (cases "SliceStable lt xs") (simp_all add: SliceStable_def)

text \<open>One pass that replaces the best entry by a better one finds the first of the stable order.\<close>

lemma best_first:
  "foldl (\<lambda>b x. if lt x b then x else b) b xs = (case SliceStable lt xs of [] \<Rightarrow> b | y # _ \<Rightarrow> if lt y b then y else b)"
proof (induction xs arbitrary: b)
  case (Cons x xs)
  obtain rest where r: "SliceStable lt (x # xs) = (case SliceStable lt xs of [] \<Rightarrow> x | y # _ \<Rightarrow> if lt y x then y else x) # rest"
    using SliceStable_Cons by blast
  show ?case
  proof (cases "SliceStable lt xs")
    case (Cons y ys)
    then show ?thesis using r Cons.IH [of "if lt x b then x else b"] trans [of y x b] tied [of y b x] asym by auto
  qed (use r Cons.IH [of "if lt x b then x else b"] in simp)
qed (simp add: SliceStable_def)

lemma best_of_list: "foldl (\<lambda>b x. if lt x b then x else b) x (x # xs) = hd (SliceStable lt (x # xs))"
  using best_first [of x xs] SliceStable_Cons [of x xs] asym [of x x] by (auto split: list.split)

end

definition first_of :: "'a list \<Rightarrow> 'a option" where
  "first_of xs = (case xs of [] \<Rightarrow> None | x # _ \<Rightarrow> Some x)"

lemma newestByCreated_loop_best:
  "newestByCreated_loop fam (Some b) ms = Some (foldl (\<lambda>b x. if newer_created x b then x else b) b (filter (\<lambda>m. mdi_Family m = fam) ms))"
  by (induction ms arbitrary: b) (auto simp: newer_created_def)

lemma newestByCreated_first:
  "newestByCreated ms fam = first_of (SliceStable newer_created (filter (\<lambda>m. mdi_Family m = fam) ms))"
proof -
  have "newestByCreated_loop fam None ms =
      (case filter (\<lambda>m. mdi_Family m = fam) ms of [] \<Rightarrow> None | b # bs \<Rightarrow> Some (foldl (\<lambda>b x. if newer_created x b then x else b) b bs))"
    by (induction ms) (auto simp: newestByCreated_loop_best)
  then show ?thesis
    using created.best_first created.SliceStable_Cons [of "hd (filter (\<lambda>m. mdi_Family m = fam) ms)" "tl (filter (\<lambda>m. mdi_Family m = fam) ms)"]
    by (cases "filter (\<lambda>m. mdi_Family m = fam) ms") (auto simp: newestByCreated_def first_of_def SliceStable_def split: list.split)
qed

lemma newest_pulled_first: "newest_pulled (m # ms) m = hd (SliceStable newer_created (m # ms))"
proof -
  have "newest_pulled (m # ms) m = foldl (\<lambda>b x. if newer_created x b then x else b) m (m # ms)"
    unfolding newest_pulled_def by (rule foldl_cong) (auto simp: newer_created_def)
  then show ?thesis by (simp only: created.best_of_list)
qed

section \<open>Gemini versions\<close>

text \<open>An id as the API lists them: a number with at most one point between \<open>gemini-\<close> and a hyphen.\<close>

definition versioned :: "string \<Rightarrow> string \<Rightarrow> string \<Rightarrow> string \<Rightarrow> bool" where
  "versioned i major minor rest \<longleftrightarrow> i = ''gemini-'' @ major @ (if minor = [] then [] else ''.'' @ minor) @ ''-'' @ rest \<and>
     major \<noteq> [] \<and> list_all is_digit major \<and> list_all is_digit minor"

lemma takeWhile_all: "list_all P xs \<Longrightarrow> \<not> P y \<Longrightarrow> takeWhile P (xs @ y # ys) = xs"
  by (induction xs) auto

lemma digit_consts [simp]: "\<not> is_digit CHR ''.''" "\<not> is_digit CHR ''-''"
  by (simp_all add: is_digit_def)

lemma versioned_versionOf:
  assumes "versioned i major minor rest"
  shows "versionOf i = (let v = fl (of_int (digits_value (major @ minor)) / 10 ^ length minor) in if v \<ge> 2 ^ 1024 then 0 else v)"
proof -
  let ?s = "major @ (if minor = [] then [] else ''.'' @ minor) @ ''-'' @ rest"
  have i: "i = ''gemini-'' @ ?s" and d: "major \<noteq> []" "list_all is_digit major" "list_all is_digit minor" using assms by (simp_all add: versioned_def)
  have "stripPrefix i = i" by (simp add: i stripPrefix_def TrimPrefix_def resourcePrefix_def vertexResourcePrefix_def)
  moreover have "match_ci ''gemini-'' i = Some ''gemini-''" by (simp add: i lower_def)
  then have "match_version i = Some (major, minor)"
    using d by (cases "minor = []") (simp_all add: match_version_def i takeWhile_all)
  then have "version_find i = Some (major, minor)" by (simp add: i)
  ultimately show ?thesis by (simp add: versionOf_def)
qed

lemma versioned_versionOfGeminiID:
  assumes "versioned i major minor rest"
  shows "versionOfGeminiID i = (let v = fl (of_int (digits_value (major @ minor)) / 10 ^ length minor) in if v \<ge> 2 ^ 1024 then 0 else v)"
proof -
  let ?num = "major @ (if minor = [] then [] else ''.'' @ minor)"
  have i: "take 7 i = ''gemini-''" "drop 7 i = ?num @ ''-'' @ rest" and d: "major \<noteq> []" "list_all is_digit major" "list_all is_digit minor"
    using assms by (simp_all add: versioned_def)
  have "list_all (\<lambda>x. x = CHR ''.'' \<or> is_digit x) ?num" using d by (auto simp: list_all_iff)
  then have "takeWhile (\<lambda>x. x = CHR ''.'' \<or> is_digit x) (drop 7 i) = ?num"
    using takeWhile_all [of "\<lambda>x. x = CHR ''.'' \<or> is_digit x" ?num "CHR ''-''" rest] by (simp add: i(2))
  moreover have "takeWhile is_digit ?num = major"
    using d by (cases "minor = []") (simp_all add: takeWhile_all takeWhile_eq_all_conv list_all_iff)
  then have "ParseFloat_digits ?num = (let v = fl (of_int (digits_value (major @ minor)) / 10 ^ length minor) in if v \<ge> 2 ^ 1024 then None else Some v)"
    using d by (simp add: ParseFloat_digits_def Let_def)
  ultimately show ?thesis using d i by (simp add: versionOfGeminiID_def Let_def)
qed

lemma newestByGeminiVersion_loop_best:
  assumes "\<forall>m \<in> set ms. mdi_Family m = fam \<longrightarrow> versionOfGeminiID (mdi_ID m) = versionOf (mdi_ID m)"
  shows "fst (newestByGeminiVersion_loop fam (Some b) (versionOf (mdi_ID b)) ms) =
      Some (foldl (\<lambda>b x. if newer_version x b then x else b) b (filter (\<lambda>m. mdi_Family m = fam) ms))" (is "fst (?loop b ms) = Some (?best b ms)")
    and "snd (newestByGeminiVersion_loop fam (Some b) (versionOf (mdi_ID b)) ms) =
      versionOf (mdi_ID (foldl (\<lambda>b x. if newer_version x b then x else b) b (filter (\<lambda>m. mdi_Family m = fam) ms)))"
  using assms by (induction ms arbitrary: b) (auto simp: newer_version_def Let_def)

lemma digits_value_nonneg: "list_all is_digit s \<Longrightarrow> 0 \<le> digits_value s"
proof -
  have "0 \<le> acc \<Longrightarrow> list_all is_digit s \<Longrightarrow> 0 \<le> foldl (\<lambda>acc x. 10 * acc + (int (of_char x) - 48)) acc s" for acc
    by (induction s arbitrary: acc) (auto simp: is_digit_def)
  then show "list_all is_digit s \<Longrightarrow> 0 \<le> digits_value s" by (simp add: digits_value_def)
qed

lemma versioned_nonneg: "versioned i major minor rest \<Longrightarrow> 0 \<le> versionOf i"
  using versioned_versionOf [of i major minor rest]
  by (auto simp: Let_def versioned_def list_all_append intro!: fl_nonneg divide_nonneg_nonneg digits_value_nonneg)

text \<open>On such ids the demo's choice is the first of the toolkit's order.\<close>

lemma newestByGeminiVersion_first:
  assumes "\<forall>m \<in> set ms. mdi_Family m = fam \<longrightarrow> (\<exists>major minor rest. versioned (mdi_ID m) major minor rest)"
  shows "newestByGeminiVersion ms fam = first_of (SliceStable newer_version (filter (\<lambda>m. mdi_Family m = fam) ms))"
proof -
  have v: "\<forall>m \<in> set ms. mdi_Family m = fam \<longrightarrow> versionOfGeminiID (mdi_ID m) = versionOf (mdi_ID m) \<and> 0 \<le> versionOf (mdi_ID m)"
    using assms versioned_versionOf versioned_versionOfGeminiID versioned_nonneg by metis
  have "newestByGeminiVersion_loop fam None (- 1) ms =
      (case filter (\<lambda>m. mdi_Family m = fam) ms of
         [] \<Rightarrow> (None, - 1)
       | b # bs \<Rightarrow> (let x = foldl (\<lambda>b x. if newer_version x b then x else b) b bs in (Some x, versionOf (mdi_ID x))))"
    using v
  proof (induction ms)
    case (Cons m ms)
    show ?case
    proof (cases "mdi_Family m = fam")
      case True
      with Cons.prems have "versionOfGeminiID (mdi_ID m) = versionOf (mdi_ID m)" "0 \<le> versionOf (mdi_ID m)" by auto
      with True newestByGeminiVersion_loop_best [of ms fam m] Cons.prems show ?thesis
        by (auto simp: Let_def prod_eq_iff)
    qed (use Cons in simp)
  qed simp
  moreover have "0 \<le> versionOf (mdi_ID (foldl (\<lambda>b x. if newer_version x b then x else b) b bs))"
    if "filter (\<lambda>m. mdi_Family m = fam) ms = b # bs" for b bs
  proof -
    have "foldl (\<lambda>b x. if newer_version x b then x else b) b bs \<in> set (b # bs)"
      by (induction bs rule: rev_induct) auto
    then have "foldl (\<lambda>b x. if newer_version x b then x else b) b bs \<in> set (filter (\<lambda>m. mdi_Family m = fam) ms)" by (simp only: that)
    with v show ?thesis by auto
  qed
  ultimately show ?thesis
    using version.best_first version.SliceStable_Cons [of "hd (filter (\<lambda>m. mdi_Family m = fam) ms)" "tl (filter (\<lambda>m. mdi_Family m = fam) ms)"]
    by (cases "filter (\<lambda>m. mdi_Family m = fam) ms")
      (auto simp: newestByGeminiVersion_def first_of_def SliceStable_def Let_def split: list.split)
qed

text \<open>On others it need not be: the toolkit reads the version wherever and in whatever case \<open>gemini-\<close> occurs, the demo only at the front.\<close>

definition demo_gemini_catalog :: "model_info list" where
  "demo_gemini_catalog = [demo_info ''gemini-1-pro'' ''gemini-pro'' 0, demo_info ''Gemini-2-pro'' ''gemini-pro'' 0]"

lemma demo_gemini_versions:
  "versionOf ''gemini-1-pro'' = 1" "versionOf ''Gemini-2-pro'' = 2" "versionOfGeminiID ''gemini-1-pro'' = 1" "versionOfGeminiID ''Gemini-2-pro'' = 0"
proof -
  have f: "version_find (stripPrefix ''gemini-1-pro'') = Some (''1'', [])" "version_find (stripPrefix ''Gemini-2-pro'') = Some (''2'', [])"
    by (code_simp, code_simp)
  have d: "digits_value ''1'' = 1" "digits_value ''2'' = 2" by (code_simp, code_simp)
  have fl: "fl 1 = 1" "fl 2 = 2" by (code_simp, code_simp)
  show one: "versionOf ''gemini-1-pro'' = 1" and "versionOf ''Gemini-2-pro'' = 2" by (simp_all add: versionOf_def f d fl)
  have "versioned ''gemini-1-pro'' ''1'' [] ''pro''" by code_simp
  from versioned_versionOfGeminiID [OF this] show "versionOfGeminiID ''gemini-1-pro'' = 1" by (simp add: d fl)
  show "versionOfGeminiID ''Gemini-2-pro'' = 0" by (simp add: versionOfGeminiID_def)
qed

lemma gemini_choice_differs:
  "newestByGeminiVersion demo_gemini_catalog ''gemini-pro'' = Some (demo_info ''gemini-1-pro'' ''gemini-pro'' 0)"
  "google_LatestInFamily ''gemini-1-pro'' demo_gemini_catalog = Some (demo_info ''Gemini-2-pro'' ''gemini-pro'' 0)"
proof -
  have fam: "google_familyOf ''gemini-1-pro'' = ''gemini-pro''" by code_simp
  have "newer_version (demo_info ''Gemini-2-pro'' ''gemini-pro'' 0) (demo_info ''gemini-1-pro'' ''gemini-pro'' 0)"
    by (simp add: newer_version_def demo_info_def demo_gemini_versions)
  then show "google_LatestInFamily ''gemini-1-pro'' demo_gemini_catalog = Some (demo_info ''Gemini-2-pro'' ''gemini-pro'' 0)"
    by (simp add: google_LatestInFamily_def fam demo_gemini_catalog_def demo_info_def SliceStable_def demo_gemini_versions Let_def)
  show "newestByGeminiVersion demo_gemini_catalog ''gemini-pro'' = Some (demo_info ''gemini-1-pro'' ''gemini-pro'' 0)"
    by (simp add: newestByGeminiVersion_def demo_gemini_catalog_def demo_info_def demo_gemini_versions)
qed

section \<open>What is offered can be selected\<close>

definition offered :: "('tr, 'hc, 'a world_scheme) demo_env \<Rightarrow> string \<Rightarrow> ModelOption \<Rightarrow> bool" where
  "offered env name opt \<longleftrightarrow> mop_ProviderName opt = name \<and> mop_ID opt = name @ ''/'' @ mop_Model opt \<and>
     (mop_Model opt = [] \<longrightarrow> name \<in> {''ollama'', ''vllm''}) \<and>
     (mop_Model opt \<noteq> [] \<longrightarrow> (\<exists>base. buildClient env opt = Inr base \<and> mr_Name (cc_Model base) = mop_Model opt))"

definition offers :: "('tr, 'hc, 'a world_scheme) demo_env \<Rightarrow> ('tr, 'hc, 'a) detector \<Rightarrow> string \<Rightarrow> bool" where
  "offers env d name \<longleftrightarrow> (\<forall>ctx w opt w'. d env ctx w = (Some opt, w') \<longrightarrow> offered env name opt)"

lemma detect_all_offers:
  assumes "list_all2 (offers env) ds names" and "distinct names" and "detect_all ds env ctx w = (opts, w')"
  shows "distinct (map mop_ProviderName opts) \<and> set (map mop_ProviderName opts) \<subseteq> set names \<and> (\<forall>opt \<in> set opts. offered env (mop_ProviderName opt) opt)"
  using assms
proof (induction ds names arbitrary: w opts w' rule: list_all2_induct)
  case (Cons d ds n names)
  obtain o1 w1 where d: "d env ctx w = (o1, w1)" by (cases "d env ctx w")
  obtain rest w2 where r: "detect_all ds env ctx w1 = (rest, w2)" by (cases "detect_all ds env ctx w1")
  from Cons.IH [OF _ r] Cons.prems(1) have ih: "distinct (map mop_ProviderName rest)" "set (map mop_ProviderName rest) \<subseteq> set names"
    "\<forall>opt \<in> set rest. offered env (mop_ProviderName opt) opt" by simp_all
  show ?case
  proof (cases o1)
    case None
    with Cons.prems d r ih show ?thesis by auto
  next
    case (Some x)
    with Cons.hyps(1) d have x: "offered env n x" by (auto simp: offers_def)
    then have name: "mop_ProviderName x = n" by (simp add: offered_def)
    have opts: "opts = x # rest" using Some Cons.prems(2) d r by simp
    have "n \<notin> set (map mop_ProviderName rest)" using ih(2) Cons.prems(1) by auto
    with ih x show ?thesis by (auto simp: opts name)
  qed
qed simp

lemma slash_id: "n @ ''/'' @ m = n' @ ''/'' @ m' \<Longrightarrow> CHR ''/'' \<notin> set n \<Longrightarrow> CHR ''/'' \<notin> set n' \<Longrightarrow> n = n'"
  by (induction n arbitrary: n') (auto simp: Cons_eq_append_conv append_eq_Cons_conv)

lemma find_by_key: "distinct (map f xs) \<Longrightarrow> x \<in> set xs \<Longrightarrow> find (\<lambda>y. f y = f x) xs = Some x"
  by (induction xs) auto

lemma first_family_mem: "first_family newest fams = Some m \<Longrightarrow> \<exists>fam \<in> set fams. newest fam = Some m"
  by (induction fams) (auto split: option.splits)

lemma newestByCreated_mem: "newestByCreated ms fam = Some m \<Longrightarrow> m \<in> set ms \<and> mdi_Family m = fam"
  using created.set_SliceStable [of "filter (\<lambda>m. mdi_Family m = fam) ms"]
  by (auto simp: newestByCreated_first first_of_def split: list.splits)

lemma newestByGeminiVersion_mem: "newestByGeminiVersion ms fam = Some m \<Longrightarrow> m \<in> set ms \<and> mdi_Family m = fam"
proof -
  have "fst (newestByGeminiVersion_loop fam b v ms) = Some m \<Longrightarrow> b = Some m \<or> (m \<in> set ms \<and> mdi_Family m = fam)" for b v
    by (induction ms arbitrary: b v) (auto simp: Let_def split: if_splits)
  from this [of None "- 1"] show "newestByGeminiVersion ms fam = Some m \<Longrightarrow> m \<in> set ms \<and> mdi_Family m = fam"
    by (auto simp: newestByGeminiVersion_def split: prod.splits if_splits)
qed

lemma empty_families: "anthropic_familyOf [] = []" "openai_familyOf [] = []" "google_familyOf [] = []"
  by (code_simp, code_simp, code_simp)

lemma anthropic_offers: "offers env anthropicOption ''anthropic''"
proof -
  have "offered env ''anthropic'' opt" if "anthropicOption env ctx w = (Some opt, w')" for ctx w opt w'
  proof -
    let ?key = "anthropic_key (de_Getenv env)"
    from that obtain c models newest where key: "?key \<noteq> []"
      and l: "anthropic_ListModels c (withListTimeout ctx w) w = ((models, None), w')"
      and n: "first_family (newestByCreated models) anthropicPreferredFamilies = Some newest"
      and opt: "opt = modelOption ''anthropic'' ''Anthropic'' (mdi_ID newest)"
      by (auto simp: anthropicOption_def Let_def split: if_splits sum.splits prod.splits option.splits)
    from first_family_mem [OF n] obtain fam where "fam \<in> set anthropicPreferredFamilies" "newestByCreated models fam = Some newest" by blast
    then have "newest \<in> set models" "mdi_Family newest \<noteq> []" by (auto simp: anthropicPreferredFamilies_def dest: newestByCreated_mem)
    with l have "mdi_ID newest \<noteq> []"
      by (auto simp: anthropic_ListModels_def empty_families split: if_splits prod.splits option.splits)
    with key show ?thesis
      by (auto simp: offered_def opt modelOption_def buildClient_def anthropic_New_def apply_options_def anthropic_WithAPIKey_def
          anthropic_WithModel_def zero_anthropic_settings_def anthropic_chat_def anthropic_Model_def anthropic_client.truncate_def)
  qed
  then show ?thesis by (auto simp: offers_def)
qed

lemma openai_offers: "offers env openAIOption ''openai''"
proof -
  have "offered env ''openai'' opt" if "openAIOption env ctx w = (Some opt, w')" for ctx w opt w'
  proof -
    from that obtain c models newest where key: "de_Getenv env ''OPENAI_API_KEY'' \<noteq> []"
      and l: "openai_ListModels c (withListTimeout ctx w) w = ((models, None), w')"
      and n: "first_family (newestByCreated models) openAIPreferredFamilies = Some newest"
      and opt: "opt = modelOption ''openai'' ''OpenAI'' (mdi_ID newest)"
      by (auto simp: openAIOption_def Let_def split: if_splits sum.splits prod.splits option.splits)
    from first_family_mem [OF n] obtain fam where "fam \<in> set openAIPreferredFamilies" "newestByCreated models fam = Some newest" by blast
    then have "newest \<in> set models" "mdi_Family newest \<noteq> []" by (auto simp: openAIPreferredFamilies_def dest: newestByCreated_mem)
    with l have "mdi_ID newest \<noteq> []"
      by (auto simp: openai_ListModels_def openai_info_def empty_families split: sum.splits prod.splits)
    with key show ?thesis
      by (auto simp: offered_def opt modelOption_def buildClient_def openai_New_def apply_options_def openai_WithAPIKey_def openai_validate_def
          openai_WithModel_def zero_openai_settings_def openai_chat_def openai_Model_def openai_client.truncate_def Let_def)
  qed
  then show ?thesis by (auto simp: offers_def)
qed

lemma google_offers: "offers env googleOption ''google''"
proof -
  have "offered env ''google'' opt" if "googleOption env ctx w = (Some opt, w')" for ctx w opt w'
  proof -
    let ?key = "google_key (de_Getenv env)"
    from that obtain c models newest where key: "?key \<noteq> []"
      and c: "google_New (de_google env) (de_transport env) [google_WithAPIKey ?key, google_WithModel ''gemini-2.5-flash''] = Inr c"
      and l: "google_ListModels c (withListTimeout ctx w) w = ((models, None), w')"
      and n: "first_family (newestByGeminiVersion models) googlePreferredFamilies = Some newest"
      and opt: "opt = modelOption ''google'' ''Google'' (mdi_ID newest)"
      by (auto simp: googleOption_def Let_def split: if_splits sum.splits prod.splits option.splits)
    from first_family_mem [OF n] obtain fam where "fam \<in> set googlePreferredFamilies" "newestByGeminiVersion models fam = Some newest" by blast
    then have "newest \<in> set models" "mdi_Family newest \<noteq> []" by (auto simp: googlePreferredFamilies_def dest: newestByGeminiVersion_mem)
    with l have "mdi_ID newest \<noteq> []"
      by (auto simp: google_ListModels_def empty_families Let_def split: if_splits prod.splits option.splits)
    with key c show ?thesis
      by (auto simp: offered_def opt modelOption_def buildClient_def google_New_def apply_options_def google_WithAPIKey_def clientConfig_def
          applyTransport_def google_WithModel_def zero_google_settings_def google_chat_def google_Model_def google_client.truncate_def Let_def
          split: sum.splits)
  qed
  then show ?thesis by (auto simp: offers_def)
qed

lemma ollama_offers: "offers env ollamaOption ''ollama''"
proof -
  have "offered env ''ollama'' opt" if "ollamaOption env ctx w = (Some opt, w')" for ctx w opt w'
  proof -
    from that obtain c i where
      c: "ollama_New (de_ollama env) (de_http env) (de_url env) [ollama_WithBaseURL (ollama_host (de_Getenv env)), ollama_WithModel ''placeholder''] = Inr c"
      and opt: "opt = modelOption ''ollama'' ''Ollama'' i"
      by (auto simp: ollamaOption_def split: sum.splits prod.splits option.splits list.splits)
    have "ollama_host (de_Getenv env) = (let host = envFirst (de_Getenv env) [''OLLAMA_HOST''] in if host = [] then ''http://localhost:11434'' else host)"
      by (simp add: ollama_host_def Let_def)
    with c show ?thesis
      by (auto simp: offered_def opt modelOption_def buildClient_def ollama_New_def apply_options_def ollama_WithBaseURL_def
          ollama_WithModel_def zero_ollama_settings_def ollama_chat_def ollama_Model_def ollama_client.truncate_def Let_def
          split: sum.splits prod.splits if_splits)
  qed
  then show ?thesis by (auto simp: offers_def)
qed

lemma vllm_offers: "offers env vllmOption ''vllm''"
proof -
  have "offered env ''vllm'' opt" if "vllmOption env ctx w = (Some opt, w')" for ctx w opt w'
  proof -
    from that obtain i where key: "de_Getenv env ''MAESTRO_VLLM'' \<noteq> []" and opt: "opt = modelOption ''vllm'' ''vLLM'' i"
      by (auto simp: vllmOption_def Let_def split: if_splits sum.splits prod.splits option.splits list.splits)
    from key show ?thesis
      by (auto simp: offered_def opt modelOption_def buildClient_def compat_New_def apply_options_def compat_WithBaseURL_def
          compat_WithModel_def zero_compat_settings_def compat_chat_def compat_Model_def compat_client.truncate_def Let_def)
  qed
  then show ?thesis by (auto simp: offers_def)
qed

text \<open>
  C27: every entry of the demo's drop-down can be selected: its id finds it and no other, there is at most one per provider, and the client
  the chat handler builds for it can be built and is for that model. Only a local server that lists a model without a name is an exception.
\<close>

theorem detected_options_work:
  assumes "detectAvailable env ctx w = (options, w')" and "opt \<in> set options"
    and "mop_ProviderName opt \<in> {''ollama'', ''vllm''} \<Longrightarrow> mop_Model opt \<noteq> []"
  shows "findOption options (mop_ID opt) = Some opt \<and> distinct (map mop_ProviderName options) \<and>
    (\<exists>base. buildClient env opt = Inr base \<and> mr_Name (cc_Model base) = mop_Model opt)"
proof -
  have "list_all2 (offers env) [anthropicOption, openAIOption, googleOption, ollamaOption, vllmOption]
      [''anthropic'', ''openai'', ''google'', ''ollama'', ''vllm'']"
    by (simp add: anthropic_offers openai_offers google_offers ollama_offers vllm_offers)
  from detect_all_offers [OF this _ assms(1) [unfolded detectAvailable_def]]
  have names: "distinct (map mop_ProviderName options)"
      "set (map mop_ProviderName options) \<subseteq> {''anthropic'', ''openai'', ''google'', ''ollama'', ''vllm''}"
    and offered: "\<And>x. x \<in> set options \<Longrightarrow> offered env (mop_ProviderName x) x" by simp_all
  have "mop_ProviderName x = mop_ProviderName y" if "x \<in> set options" "y \<in> set options" "mop_ID x = mop_ID y" for x y
  proof (rule slash_id)
    show "mop_ProviderName x @ ''/'' @ mop_Model x = mop_ProviderName y @ ''/'' @ mop_Model y"
      using offered [OF that(1)] offered [OF that(2)] that(3) by (simp add: offered_def)
    have "mop_ProviderName z \<in> {''anthropic'', ''openai'', ''google'', ''ollama'', ''vllm''}" if "z \<in> set options" for z
      using names(2) that by auto
    then have "CHR ''/'' \<notin> set (mop_ProviderName z)" if "z \<in> set options" for z using that by fastforce
    then show "CHR ''/'' \<notin> set (mop_ProviderName x)" "CHR ''/'' \<notin> set (mop_ProviderName y)" using that by blast+
  qed
  note same = this
  have inj: "inj_on mop_ProviderName (set options)" "distinct options" using names(1) by (simp_all only: distinct_map)
  have "inj_on mop_ID (set options)"
    by (rule inj_onI, rule inj_onD [OF inj(1)]) (use same in blast)+
  then have "distinct (map mop_ID options)" using inj(2) by (simp only: distinct_map)
  from find_by_key [OF this assms(2)] have "findOption options (mop_ID opt) = Some opt" by (simp add: findOption_def)
  with names(1) offered [OF assms(2)] assms(3) show ?thesis by (auto simp: offered_def)
qed

section \<open>What reaches a provider\<close>

text \<open>None of the handler's requests makes a conversion panic: they have no tools.\<close>

lemma demo_request_converts:
  "openai_Complete c ctx (demo_chat_request msgs) w \<noteq> None" "google_Complete g ctx (demo_chat_request msgs) w \<noteq> None"
proof -
  have "openai_toParams (oa_model c) (demo_chat_request msgs) \<noteq> None"
    by (simp add: openai_toParams_def openai_buildTools_def demo_chat_request_def zero_request_def split: sum.split)
  then show "openai_Complete c ctx (demo_chat_request msgs) w \<noteq> None"
    by (auto simp: openai_Complete_def split: sum.split option.split prod.split)
  have "google_toParams (gg_number_text g) (gg_model g) (demo_chat_request msgs) \<noteq> None"
    by (simp add: google_toParams_def google_buildTools_def demo_chat_request_def zero_request_def split: sum.split)
  then show "google_Complete g ctx (demo_chat_request msgs) w \<noteq> None"
    by (auto simp: google_Complete_def split: sum.split option.split prod.split)
qed

definition at_most :: "('w \<Rightarrow> int) \<Rightarrow> int \<Rightarrow> 'w \<Rightarrow> 'w \<Rightarrow> bool" where
  "at_most calls n w w' \<longleftrightarrow> calls w \<le> calls w' \<and> calls w' \<le> calls w + n"

lemma retry_at_most:
  assumes out: "outside calls" and call: "\<And>c w r w'. call c w = (r, w') \<Longrightarrow> at_most calls 1 w w'"
  shows "attempt \<le> MaxAttempts cfg \<Longrightarrow> retry_loop c cfg zero call attempt delay w = (re, w') \<Longrightarrow>
     at_most calls (MaxAttempts cfg - attempt + 1) w w' \<and> (snd re = None \<longrightarrow> (\<exists>c w1 w2. call c w1 = (re, w2)))"
proof (induction "nat (MaxAttempts cfg - attempt)" arbitrary: attempt delay w rule: less_induct)
  case less
  have quiet: "calls w3 = calls w1" if "jittered x f w1 = (wait, w2)" and "sleep_or_done c wait w2 = (b, w3)" for x f w1 wait w2 b w3
    using silent_more [OF out, of w1 w3] jittered_frame [OF that(1)] sleep_frame [OF that(2)] by (simp add: silent_def)
  from less.prems show ?case
  proof (cases rule: retry_loop_cases)
    case stop
    from call [OF stop(1)] stop(1) less.prems(1) show ?thesis by (auto simp: at_most_def)
  next
    case (ended r1 e1 w1 wait w2)
    have "snd re \<noteq> None" using sleep_done_Err [OF ended(4)] ended(5) by simp
    with call [OF ended(1)] quiet [OF ended(3,4)] ended(2) show ?thesis by (auto simp: at_most_def)
  next
    case (again r1 e1 w1 wait w2 w3)
    from less.hyps [OF _ _ again(5)] again(2)
    have "at_most calls (MaxAttempts cfg - (attempt + 1) + 1) w3 w' \<and> (snd re = None \<longrightarrow> (\<exists>c w1 w2. call c w1 = (re, w2)))" by simp
    with call [OF again(1)] quiet [OF again(3,4)] show ?thesis by (simp add: at_most_def)
  qed
qed

lemma complete_demo_spec:
  assumes out: "outside calls" and base: "\<And>c req w r w'. cc_Complete base c req w = (r, w') \<Longrightarrow> at_most calls 1 w w'"
    and run: "complete_demo base ctx req w = ((resp, err), w')"
  shows "at_most calls 5 w w' \<and> (validateChatRequest req \<noteq> None \<longrightarrow> calls w' = calls w) \<and>
    (err = None \<longrightarrow> validateChatRequest req = None \<and> (\<exists>c w1 w2. cc_Complete base c req w1 = ((resp, None), w2)))"
proof -
  let ?cfg = "server_config :: (unit, 'a chain_world_scheme) recommended_config"
  let ?w = "w\<lparr>cw_breaker := new_breaker (rc_Circuit ?cfg) (cc_Model base)\<rparr>"
  let ?c = "WithTimeout ctx (60 * 1000000000) w"
  have start: "calls ?w = calls w" using silent_breaker [OF out] by (simp add: silent_def)
  have breaker: "calls (v\<lparr>cw_breaker := b\<rparr>) = calls v" for v b using silent_breaker [OF out] by (simp add: silent_def)
  show ?thesis
  proof (cases "validateChatRequest req")
    case (Some e)
    with run start show ?thesis by (auto simp: complete_demo_def RecommendedChat_order ValidationChat_def at_most_def)
  next
    case None
    let ?guarded = "\<lambda>c. guarded zero_response (cc_Complete base c req)"
    let ?call = "\<lambda>c. withTimeout c (30 * 1000000000) ?guarded"
    have attempt: "cc_Complete (attempt_chat ?cfg base) c req = ?call c" for c
      by (simp add: attempt_chat_def server_config_def TimeoutChat_def CircuitChat_def MetricsChat_def)
    have max: "MaxAttempts (retry_normalized (retryOrDefault None)) = 5" by code_simp
    have loop: "retry_loop ?c (retry_normalized (retryOrDefault None)) zero_response ?call 1
        (InitialDelay (retry_normalized (retryOrDefault None))) ?w = ((resp, err), w')"
      using run None by (simp add: complete_demo_def RecommendedChat_order ValidationChat_def RetryChat_def retry_def attempt) (simp add: server_config_def)
    have guarded: "at_most calls 1 v v' \<and> (snd r = None \<longrightarrow> (\<exists>v1 v2. cc_Complete base c req v1 = (r, v2)))" if "?guarded c v = (r, v')" for c v r v'
    proof -
      obtain e b where a: "allow (w_clock v) (cw_breaker v) = (e, b)" by (metis prod.exhaust)
      obtain r1 e1 v1 where c: "cc_Complete base c req (v\<lparr>cw_breaker := b\<rparr>) = ((r1, e1), v1)" by (metis prod.exhaust)
      show ?thesis using that a c base [OF c] breaker by (cases e) (auto simp: guarded_def at_most_def)
    qed
    have call: "at_most calls 1 v v' \<and> (snd r = None \<longrightarrow> (\<exists>c v1 v2. cc_Complete base c req v1 = (r, v2)))" if "?call c v = (r, v')" for c v r v'
      using guarded [of "WithTimeout c (30 * 1000000000) v" v r v'] that by (simp add: withTimeout_def) blast
    have "at_most calls (5 - 1 + 1) ?w w' \<and> (err = None \<longrightarrow> (\<exists>c w1 w2. ?call c w1 = ((resp, err), w2)))"
      using retry_at_most [OF out _ _ loop] call max by auto
    with None start call show ?thesis by (fastforce simp: at_most_def)
  qed
qed

definition served :: "('tr, 'hc, 'w) demo_env \<Rightarrow> ModelOption list \<Rightarrow> string \<Rightarrow> string \<Rightarrow> ModelOption \<Rightarrow> 'w chat_client \<Rightarrow> message list \<Rightarrow> bool" where
  "served env options meth body opt base msgs \<longleftrightarrow> meth = ''POST'' \<and> buildClient env opt = Inr base \<and>
     (\<exists>req. decode_chatRequest body = Some req \<and> crq_History req \<noteq> [] \<and> findOption options (crq_ModelID req) = Some opt \<and>
        neutral_messages (crq_History req) = Inr msgs)"

text \<open>A body that decodes to a request with a history, for a model on offer; and the roles the page sends.\<close>

definition well_formed :: "ModelOption list \<Rightarrow> string \<Rightarrow> chatRequest \<Rightarrow> ModelOption \<Rightarrow> bool" where
  "well_formed options body req opt \<longleftrightarrow>
     decode_chatRequest body = Some req \<and> crq_History req \<noteq> [] \<and> findOption options (crq_ModelID req) = Some opt"

definition known_roles :: "chatRequest \<Rightarrow> bool" where
  "known_roles req \<longleftrightarrow> (\<forall>m \<in> set (crq_History req). apm_Role m \<in> {''user'', ''assistant''})"

lemma neutral_messages_roles: "(\<exists>msgs. neutral_messages ms = Inr msgs) \<longleftrightarrow> (\<forall>m \<in> set ms. apm_Role m \<in> {''user'', ''assistant''})"
proof (induction ms)
  case (Cons m ms)
  then show ?case by (cases "neutral_messages ms") auto
qed simp

lemma neutral_messages_known: "neutral_messages (crq_History req) = Inr msgs \<Longrightarrow> known_roles req"
    "neutral_messages (crq_History req) = Inl role \<Longrightarrow> \<not> known_roles req"
  using neutral_messages_roles [of "crq_History req"] by (auto simp: known_roles_def)

text \<open>The ways a request goes.\<close>

lemma handleChat_cases:
  assumes "handleChat env options ctx meth body w = (reply, w')"
  obtains (verb) "meth \<noteq> ''POST''" "reply = Plain 405 ''method not allowed''" "w' = w"
  | (body) msg where "meth = ''POST''" "\<And>req opt. \<not> well_formed options body req opt" "reply = Json 400 (error_body msg)" "w' = w"
  | (client) req opt e where "meth = ''POST''" "well_formed options body req opt" "buildClient env opt = Inl e"
      "reply = Json 500 (error_body (error_text e))" "w' = w"
  | (role) req opt base msg where "meth = ''POST''" "well_formed options body req opt" "buildClient env opt = Inr base" "\<not> known_roles req"
      "reply = Json 400 (error_body msg)" "w' = w"
  | (run) req opt base msgs resp err where "meth = ''POST''" "well_formed options body req opt" "buildClient env opt = Inr base" "known_roles req"
      "neutral_messages (crq_History req) = Inr msgs" "complete_demo base ctx (demo_chat_request msgs) w = ((resp, err), w')"
      "reply = (case err of Some e \<Rightarrow> Json 502 (error_body (friendlyErr (Some e))) | None \<Rightarrow> Json 200 (ok_body (mop_Model opt) resp (w_clock w' - w_clock w)))"
proof (cases "meth = ''POST''")
  case post: True
  show ?thesis
  proof (cases "\<exists>req opt. well_formed options body req opt")
    case True
    then obtain req opt where ok: "well_formed options body req opt" by blast
    then have req: "decode_chatRequest body = Some req" "crq_History req \<noteq> []" "findOption options (crq_ModelID req) = Some opt"
      by (simp_all add: well_formed_def)
    show ?thesis
    proof (cases "buildClient env opt")
      case (Inl e)
      with assms post req show ?thesis by (intro client [OF post ok Inl]) (simp_all add: handleChat_def)
    next
      case built: (Inr base)
      show ?thesis
      proof (cases "neutral_messages (crq_History req)")
        case (Inl r)
        with assms post req built show ?thesis
          by (intro role [OF post ok built neutral_messages_known(2) [OF Inl]]) (auto simp: handleChat_def)
      next
        case (Inr msgs)
        obtain resp err w1 where "complete_demo base ctx (demo_chat_request msgs) w = ((resp, err), w1)" by (metis prod.exhaust)
        with assms post req built Inr show ?thesis
          by (intro run [OF post ok built neutral_messages_known(1) [OF Inr] Inr, of resp err]; cases err) (auto simp: handleChat_def)
      qed
    qed
  next
    case False
    then have no: "\<not> well_formed options body req opt" for req opt by blast
    have "(\<exists>msg. reply = Json 400 (error_body msg)) \<and> w' = w"
    proof (cases "decode_chatRequest body")
      case (Some req)
      show ?thesis
      proof (cases "crq_History req = []")
        case True
        with assms post Some show ?thesis by (auto simp: handleChat_def)
      next
        case False
        with no [of req] Some have "findOption options (crq_ModelID req) = None"
          by (cases "findOption options (crq_ModelID req)") (auto simp: well_formed_def)
        with False assms post Some show ?thesis unfolding handleChat_def by auto
      qed
    qed (use assms post in \<open>auto simp: handleChat_def\<close>)
    with body [OF post no] show ?thesis by blast
  qed
qed (use assms verb in \<open>simp add: handleChat_def\<close>)

text \<open>The answer of the recommended chain, or its error.\<close>

definition chain_answer :: "('tr, 'hc, 'a chain_world_scheme) demo_env \<Rightarrow> ModelOption list \<Rightarrow> ctx \<Rightarrow> string \<Rightarrow> string \<Rightarrow>
    'a chain_world_scheme \<Rightarrow> 'a chain_world_scheme \<Rightarrow> int \<Rightarrow> chatResponse \<Rightarrow> bool" where
  "chain_answer env options ctx meth body w w' code b \<longleftrightarrow>
     (\<exists>opt base msgs resp err. served env options meth body opt base msgs \<and>
        complete_demo base ctx (demo_chat_request msgs) w = ((resp, err), w') \<and>
        (case err of
           None \<Rightarrow> code = 200 \<and> ValidateMessages msgs = None \<and>
             (\<exists>c w1 w2. cc_Complete base c (demo_chat_request msgs) w1 = ((resp, None), w2)) \<and>
             b = ok_body (mop_Model opt) resp (w_clock w' - w_clock w)
         | Some e \<Rightarrow> code = 502 \<and> b = error_body (friendlyErr (Some e))))"

lemma served_answer:
  assumes out: "outside calls" and served: "served env options meth body opt base msgs"
    and base: "\<And>c req w r w'. cc_Complete base c req w = (r, w') \<Longrightarrow> at_most calls 1 w w'"
    and run: "complete_demo base ctx (demo_chat_request msgs) w = ((resp, err), w')"
    and reply: "reply = (case err of Some e \<Rightarrow> Json 502 (error_body (friendlyErr (Some e)))
      | None \<Rightarrow> Json 200 (ok_body (mop_Model opt) resp (w_clock w' - w_clock w)))"
  shows "at_most calls 5 w w' \<and>
    (calls w' \<noteq> calls w \<longrightarrow> (\<exists>opt base msgs. served env options meth body opt base msgs \<and> ValidateMessages msgs = None)) \<and>
    (\<exists>code b. reply = Json code b \<and> code \<in> {200, 502} \<and> chain_answer env options ctx meth body w w' code b)"
proof -
  have valid: "validateChatRequest (demo_chat_request msgs) = ValidateMessages msgs"
    by (simp add: validateChatRequest_def demo_chat_request_def zero_request_def)
  have spec: "at_most calls 5 w w'" "ValidateMessages msgs \<noteq> None \<longrightarrow> calls w' = calls w"
      "err = None \<longrightarrow> ValidateMessages msgs = None \<and> (\<exists>c w1 w2. cc_Complete base c (demo_chat_request msgs) w1 = ((resp, None), w2))"
    using complete_demo_spec [OF out _ run] base unfolding valid by blast+
  have "calls w' \<noteq> calls w \<longrightarrow> (\<exists>opt base msgs. served env options meth body opt base msgs \<and> ValidateMessages msgs = None)"
    using spec(2) served by (intro impI exI [of _ opt] exI [of _ base] exI [of _ msgs]) simp
  moreover obtain code b where code: "reply = Json code b" "code \<in> {200, 502}" using reply by (cases err) auto
  moreover have "chain_answer env options ctx meth body w w' code b"
    unfolding chain_answer_def using served run reply spec(3) code(1)
    by (intro exI [of _ opt] exI [of _ base] exI [of _ msgs] exI [of _ resp] exI [of _ err]) (cases err, auto)
  ultimately show ?thesis using spec(1) by blast
qed

text \<open>
  C26: what the chat endpoint calls and which status it answers. It calls a provider only for a POST whose body is a request with a
  history, for a model on offer whose client can be built, with the roles of the UI and as a valid transcript, and then at most five times.
  The status is 405 exactly for another method; 400 exactly when the body does not decode, its history is empty, its model is not on
  offer or one of its roles is unknown; 500 exactly when the model's client cannot be built; all three leave everything as it was. Otherwise
  it is 200 when the recommended chain answers, with the client's answer to that history, and 502 with the chain's error when
  it fails, which includes a transcript that the chain's validator refuses.
\<close>

theorem chat_requests_checked:
  assumes "outside calls"
    and "\<And>opt base c req w r w'. buildClient env opt = Inr base \<Longrightarrow> cc_Complete base c req w = (r, w') \<Longrightarrow> at_most calls 1 w w'"
    and "handleChat env options ctx meth body w = (reply, w')"
  shows "at_most calls 5 w w' \<and>
    (calls w' \<noteq> calls w \<longrightarrow> (\<exists>opt base msgs. served env options meth body opt base msgs \<and> ValidateMessages msgs = None)) \<and>
    ((\<exists>msg. reply = Plain 405 msg) \<longleftrightarrow> meth \<noteq> ''POST'') \<and>
    ((\<exists>b. reply = Json 400 b) \<longleftrightarrow> meth = ''POST'' \<and>
       (\<forall>req opt. well_formed options body req opt \<longrightarrow> \<not> known_roles req \<and> (\<exists>base. buildClient env opt = Inr base))) \<and>
    ((\<exists>b. reply = Json 500 b) \<longleftrightarrow> meth = ''POST'' \<and> (\<exists>req opt e. well_formed options body req opt \<and> buildClient env opt = Inl e)) \<and>
    (case reply of
       Plain code msg \<Rightarrow> w' = w
     | Json code b \<Rightarrow>
         if code \<in> {400, 500} then w' = w \<and> b = error_body (crs_Error b)
         else chain_answer env options ctx meth body w w' code b
     | _ \<Rightarrow> False)"
  using assms(3)
proof (cases rule: handleChat_cases)
  case (run req opt base msgs resp err)
  have served: "served env options meth body opt base msgs" using run(1-3,5) by (auto simp: served_def well_formed_def)
  from served_answer [OF assms(1) served _ run(6,7)] assms(2) [OF run(3)] obtain code b where
    calls: "at_most calls 5 w w'" "calls w' \<noteq> calls w \<longrightarrow> (\<exists>opt base msgs. served env options meth body opt base msgs \<and> ValidateMessages msgs = None)"
    and reply: "reply = Json code b" "code \<in> {200, 502}" "chain_answer env options ctx meth body w w' code b" by blast
  have one: "well_formed options body req' opt' \<Longrightarrow> req' = req \<and> opt' = opt" for req' opt'
    using run(2) by (simp add: well_formed_def)
  have iff405: "((\<exists>msg. reply = Plain 405 msg) \<longleftrightarrow> meth \<noteq> ''POST'')" using reply(1) run(1) by auto
  have iff400: "((\<exists>b. reply = Json 400 b) \<longleftrightarrow> meth = ''POST'' \<and>
       (\<forall>req opt. well_formed options body req opt \<longrightarrow> \<not> known_roles req \<and> (\<exists>base. buildClient env opt = Inr base)))"
    using run(2,4) reply(1,2) by auto
  have iff500: "((\<exists>b. reply = Json 500 b) \<longleftrightarrow> meth = ''POST'' \<and> (\<exists>req opt e. well_formed options body req opt \<and> buildClient env opt = Inl e))"
    using one run(3) reply(1,2) by fastforce
  have other: "\<not> code \<in> {400, 500}" using reply(2) by auto
  show ?thesis
    using reply(3) by (intro conjI calls iff405 iff400 iff500) (simp only: reply(1) reply.case if_not_P [OF other])
next
  case (role req opt base msg)
  then have one: "well_formed options body req' opt' \<Longrightarrow> req' = req \<and> opt' = opt" for req' opt'
    by (simp add: well_formed_def)
  have "\<forall>req' opt'. well_formed options body req' opt' \<longrightarrow> \<not> known_roles req' \<and> (\<exists>base. buildClient env opt' = Inr base)"
    "\<not> (\<exists>req' opt' e. well_formed options body req' opt' \<and> buildClient env opt' = Inl e)"
    using one role(3,4) by fastforce+
  with role show ?thesis by (simp add: at_most_def error_body_def)
next
  case (client req opt e)
  then have "\<not> (\<forall>req opt. well_formed options body req opt \<longrightarrow> \<not> known_roles req \<and> (\<exists>base. buildClient env opt = Inr base))"
    by fastforce
  moreover have "\<exists>req opt e. well_formed options body req opt \<and> buildClient env opt = Inl e" using client by blast
  ultimately show ?thesis using client(1,4,5) by (simp add: at_most_def error_body_def)
next
  case (body msg)
  then show ?thesis by (simp add: at_most_def error_body_def)
qed (auto simp: at_most_def error_body_def)

section \<open>Witnesses\<close>

definition counting_anthropic :: "counted_world anthropic_catalog" where
  "counting_anthropic = \<lparr>an_Messages_New = (\<lambda>ctx p extra w. (Inl json_error, w\<lparr>kw_calls := kw_calls w + 1\<rparr>)), an_model = [], an_noListing = [],
     an_errors = \<lparr>ee_sdk_error = (\<lambda>e. None), ee_err_text = (\<lambda>e. []), ee_http_date = (\<lambda>s. None), ee_now = 0\<rparr>, an_raw = (\<lambda>m. JNull),
     an_Models_All = (\<lambda>ctx w. (([\<lparr>anm_ID = ''claude-opus-4'', anm_CreatedAt = 1, anm_Raw = JNull\<rparr>], None), w))\<rparr>"

text \<open>Only an Anthropic key is set.\<close>

definition anthropic_only :: "(nat, nat, counted_world) demo_env" where
  "anthropic_only = \<lparr>de_Getenv = (\<lambda>n. if n = ''ANTHROPIC_API_KEY'' then ''key'' else []), de_anthropic = (\<lambda>os. counting_anthropic),
     de_openai = undefined, de_google = undefined, de_transport = undefined, de_ollama = undefined, de_http = 0,
     de_url = (\<lambda>u. Inl json_error), de_compat = undefined\<rparr>"

definition demo_body :: string where
  "demo_body = encode_json True (JObj [(''modelId'', JStr ''anthropic/claude-opus-4''),
     (''history'', JArr [JObj [(''role'', JStr ''user''), (''text'', JStr ''hi'')]])])"

lemma demo_key: "anthropic_key (de_Getenv anthropic_only) = ''key''"
  by (simp add: anthropic_key_def anthropic_only_def)

lemma demo_anthropic_New:
  "model \<noteq> [] \<Longrightarrow> anthropic_New (de_anthropic anthropic_only) [anthropic_WithAPIKey ''key'', anthropic_WithModel model] =
     Inr (counting_anthropic\<lparr>an_model := model\<rparr>)"
  by (simp add: anthropic_New_def apply_options_def anthropic_WithAPIKey_def anthropic_WithModel_def zero_anthropic_settings_def
      anthropic_only_def counting_anthropic_def)

lemma demo_no_other:
  "buildClient anthropic_only opt = Inr base \<Longrightarrow> mop_ProviderName opt = ''anthropic'' \<and> base = anthropic_chat (counting_anthropic\<lparr>an_model := mop_Model opt\<rparr>)"
proof -
  have "openai_New api [openai_WithAPIKey [], openai_WithModel m] \<noteq> Inr c" for api :: "nat sdk_option list \<Rightarrow> counted_world openai_catalog" and m c
    by (simp add: openai_New_def apply_options_def openai_WithAPIKey_def openai_WithModel_def zero_openai_settings_def openai_validate_def Let_def)
  moreover have "google_New api env [google_WithAPIKey [], google_WithModel m] \<noteq> Inr c"
    for api :: "nat genai_client_config \<Rightarrow> error + counted_world google_catalog" and env m c
    by (simp add: google_New_def apply_options_def google_WithAPIKey_def google_WithModel_def zero_google_settings_def clientConfig_def Let_def)
  moreover have "compat_New api [compat_WithBaseURL [], compat_WithModel m] \<noteq> Inr c" for api :: "nat sdk_option list \<Rightarrow> counted_world compat_catalog" and m c
    by (simp add: compat_New_def apply_options_def compat_WithBaseURL_def compat_WithModel_def zero_compat_settings_def Let_def)
  moreover have "ollama_New api hc (\<lambda>u. Inl json_error) opts \<noteq> Inr c" for api :: "nat \<Rightarrow> counted_world ollama_catalog" and hc opts c
    by (simp add: ollama_New_def Let_def)
  moreover have "mop_Model opt = [] \<Longrightarrow> anthropic_New api [anthropic_WithAPIKey k, anthropic_WithModel (mop_Model opt)] \<noteq> Inr c"
    for api :: "nat sdk_option list \<Rightarrow> counted_world anthropic_catalog" and k c
    by (simp add: anthropic_New_def apply_options_def anthropic_WithAPIKey_def anthropic_WithModel_def zero_anthropic_settings_def Let_def)
  moreover have "de_Getenv anthropic_only ''OPENAI_API_KEY'' = []" "google_key (de_Getenv anthropic_only) = []"
    "de_Getenv anthropic_only ''MAESTRO_VLLM'' = []" "de_url anthropic_only = (\<lambda>u. Inl json_error)"
    by (simp_all add: anthropic_only_def google_key_def)
  moreover assume "buildClient anthropic_only opt = Inr base"
  ultimately show ?thesis
    by (auto simp: buildClient_def demo_key demo_anthropic_New map_sum_def Let_def split: if_splits sum.splits)
      (metis demo_anthropic_New sum.inject(2))
qed

lemma demo_list:
  "c = counting_anthropic\<lparr>an_model := m\<rparr> \<Longrightarrow>
     anthropic_ListModels c ctx w = (([\<lparr>mdi_ID = ''claude-opus-4'', mdi_Family = ''claude-opus'', mdi_Created = 1, mdi_Raw = JNull\<rparr>], None), w)"
proof -
  have "anthropic_familyOf ''claude-opus-4'' = ''claude-opus''" by code_simp
  then show "c = counting_anthropic\<lparr>an_model := m\<rparr> \<Longrightarrow> ?thesis" by (simp add: anthropic_ListModels_def counting_anthropic_def)
qed

lemma demo_detect:
  "detectAvailable anthropic_only background counted_start = ([modelOption ''anthropic'' ''Anthropic'' ''claude-opus-4''], counted_start)"
proof -
  have "anthropicOption anthropic_only background counted_start = (Some (modelOption ''anthropic'' ''Anthropic'' ''claude-opus-4''), counted_start)"
    by (simp add: anthropicOption_def demo_key demo_anthropic_New demo_list [OF refl] anthropicPreferredFamilies_def newestByCreated_def)
  moreover have "openAIOption anthropic_only background counted_start = (None, counted_start)"
    "googleOption anthropic_only background counted_start = (None, counted_start)"
    "vllmOption anthropic_only background counted_start = (None, counted_start)"
    by (simp_all add: openAIOption_def googleOption_def vllmOption_def google_key_def anthropic_only_def)
  moreover have "ollamaOption anthropic_only background counted_start = (None, counted_start)"
    by (simp add: ollamaOption_def ollama_New_def anthropic_only_def Let_def apply_options_def ollama_WithModel_def ollama_WithBaseURL_def
        zero_ollama_settings_def)
  ultimately show ?thesis by (simp add: detectAvailable_def)
qed

theorem detected_options_work_witness:
  "\<exists>base. buildClient anthropic_only (modelOption ''anthropic'' ''Anthropic'' ''claude-opus-4'') = Inr base \<and>
     mr_Name (cc_Model base) = ''claude-opus-4''"
  using detected_options_work [OF demo_detect, of "modelOption ''anthropic'' ''Anthropic'' ''claude-opus-4''"]
  by (simp add: modelOption_def)

lemma counting_anthropic_at_most:
  assumes "cc_Complete (anthropic_chat (counting_anthropic\<lparr>an_model := m\<rparr>)) c req w = (r, w')"
  shows "at_most kw_calls 1 w w'"
proof -
  have "an_Messages_New (anthropic_client.truncate (counting_anthropic\<lparr>an_model := m\<rparr>)) c p extra w = (Inl json_error, w\<lparr>kw_calls := kw_calls w + 1\<rparr>)"
    for p extra by (simp add: counting_anthropic_def anthropic_client.truncate_def)
  with assms show ?thesis
    by (auto simp: anthropic_chat_def anthropic_Complete_def at_most_def Let_def split: sum.splits)
qed

theorem chat_requests_checked_witness:
  "handleChat anthropic_only [modelOption ''anthropic'' ''Anthropic'' ''claude-opus-4''] background ''POST'' [] counted_start =
     (Json 400 (error_body ''invalid JSON: decoding JSON''), counted_start) \<and>
   at_most kw_calls 5 counted_start
     (snd (handleChat anthropic_only [modelOption ''anthropic'' ''Anthropic'' ''claude-opus-4''] background ''POST'' demo_body counted_start)) \<and>
   (\<exists>base. served anthropic_only [modelOption ''anthropic'' ''Anthropic'' ''claude-opus-4''] ''POST'' demo_body
      (modelOption ''anthropic'' ''Anthropic'' ''claude-opus-4'') base [UserText ''hi''])"
proof (intro conjI)
  let ?opt = "modelOption ''anthropic'' ''Anthropic'' ''claude-opus-4''"
  have "decode_chatRequest [] = None" by code_simp
  then show "handleChat anthropic_only [?opt] background ''POST'' [] counted_start = (Json 400 (error_body ''invalid JSON: decoding JSON''), counted_start)"
    by (simp add: handleChat_def json_error_def)
  obtain reply w' where run: "handleChat anthropic_only [?opt] background ''POST'' demo_body counted_start = (reply, w')" by fastforce
  have "at_most kw_calls 1 w w'" if "buildClient anthropic_only opt = Inr base" "cc_Complete base c req w = (r, w')" for opt base c req w r w'
    using that demo_no_other counting_anthropic_at_most by blast
  from chat_requests_checked [OF outside_calls this run]
  show "at_most kw_calls 5 counted_start (snd (handleChat anthropic_only [?opt] background ''POST'' demo_body counted_start))" by (simp add: run)
  have "decode_chatRequest demo_body = Some \<lparr>crq_ModelID = ''anthropic/claude-opus-4'', crq_History = [\<lparr>apm_Role = ''user'', apm_Text = ''hi''\<rparr>]\<rparr>"
    by code_simp
  then show "\<exists>base. served anthropic_only [?opt] ''POST'' demo_body ?opt base [UserText ''hi'']"
    by (simp add: served_def findOption_def modelOption_def buildClient_def demo_key demo_anthropic_New)
qed

end
