(* ===== verification/LiveTest.thy ===== *)
theory LiveTest
  imports CompactLoop ChatDemo
begin

text \<open>
  The live scenarios of \<open>llms/internal/livetest\<close>: provider-neutral checks that a test runs against a real client. A scenario is a function of the
  client and the world, which also holds the variables its closures share (\<open>live_world\<close>); a run that does not
  return is \<open>None\<close>. A verdict names the checks that failed by the fixed beginning of their message; log lines are left out.
\<close>

section \<open>The test\<close>

text \<open>\<open>Skip\<close>, \<open>Fatalf\<close>, which ends the test, and the messages of \<open>Errorf\<close>, which does not.\<close>

datatype verdict = Skipped | Fatal string | Finished "string list"

record live_world = world +
  lv_empty :: "int list"
  lv_readDeploy :: bool
  lv_visited :: "string list"
  lv_revealed :: "string set"
  lv_reads :: int

definition codename :: string where "codename = ''HARBOR-FINCH-42''"
definition scenarioTimeout :: int where "scenarioTimeout = 3 * 60 * 1000000000"
definition maxTokens :: int where "maxTokens = 1024"

text \<open>\<open>trace.onIteration\<close>: of the lines it keeps only the empty responses decide anything.\<close>

definition onIteration :: "iteration_event \<Rightarrow> 'a live_world_scheme \<Rightarrow> 'a live_world_scheme" where
  "onIteration e w =
     (if ie_NumToolCalls e = 0 \<and> TrimSpace (rsp_Text (ie_Response e)) = [] then w\<lparr>lv_empty := lv_empty w @ [ie_Index e]\<rparr> else w)"

definition live_truncate :: "string \<Rightarrow> int \<Rightarrow> string" where
  "live_truncate s n = (if int (length s) \<le> n then s else take (nat n) s @ [CHR 0xE2, CHR 0x80, CHR 0xA6])"

definition withRetry :: "'a world_scheme chat_client \<Rightarrow> 'a world_scheme chat_client" where
  "withRetry c = ChainChat c [RetryChat DefaultRetryConfig]"

definition toolDef :: "string \<Rightarrow> string \<Rightarrow> string \<Rightarrow> tool_definition" where
  "toolDef name desc schema = \<lparr>td_Name = name, td_Description = desc, td_InputSchema = schema\<rparr>"

text \<open>One string field of the arguments: an ill-typed member is skipped, the error is dropped.\<close>

definition string_arg :: "string \<Rightarrow> tool_call \<Rightarrow> string" where
  "string_arg name call =
     (case unmarshal (tc_Parameters call) of
        Some (JObj fs) \<Rightarrow> foldl (\<lambda>s (k, v). if fold_name k = name then (case v of JStr t \<Rightarrow> t | _ \<Rightarrow> s) else s) [] fs
      | _ \<Rightarrow> [])"

definition pathArg :: "tool_call \<Rightarrow> string" where "pathArg call = string_arg ''path'' call"

definition no_arguments :: string where
  "no_arguments = encode_json False (JObj [(''type'', JStr ''object''), (''properties'', JObj [])])"

definition one_argument :: "string \<Rightarrow> string" where
  "one_argument name = encode_json False (JObj [(''type'', JStr ''object''),
     (''properties'', JObj [(name, JObj [(''type'', JStr ''string'')])]), (''required'', JArr [JStr name])])"

definition said :: "string \<Rightarrow> exec_result \<times> error option" where
  "said s = (\<lparr>xr_Content = s, xr_IsError = False, xr_Stop = False\<rparr>, None)"

definition complained :: "string \<Rightarrow> exec_result \<times> error option" where
  "complained s = (\<lparr>xr_Content = s, xr_IsError = True, xr_Stop = False\<rparr>, None)"

definition live_tool :: "tool_definition \<Rightarrow> (ctx \<Rightarrow> tool_call \<Rightarrow> 'w \<Rightarrow> (exec_result \<times> error option) \<times> 'w) \<Rightarrow> 'w tool" where
  "live_tool def exec = \<lparr>tl_Execute = Some exec, tl_Definition = def\<rparr>"

definition live_config :: "'a live_world_scheme chat_client \<Rightarrow> chat_request \<Rightarrow> 'a live_world_scheme tool list \<Rightarrow> int \<Rightarrow> 'a live_world_scheme compactor option \<Rightarrow>
    'a live_world_scheme loop_config" where
  "live_config c req tools maxIter hook =
     \<lparr>lc_Request = req, lc_Client = Some (withRetry c), lc_Compact = hook, lc_OnIteration = Some onIteration, lc_OnToolCall = Some (\<lambda>e w. w),
      lc_ToolChoice = \<lparr>tch_Type = [], tch_Name = []\<rparr>, lc_Tools = tools, lc_MaxIterations = maxIter\<rparr>"

section \<open>Tool loops (toolloop.go)\<close>

definition project_files :: "string \<rightharpoonup> string" where
  "project_files =
     [''README.md'' \<mapsto> ''# harbor'' @ [CHR 0x0A] @ ''Internal service. Deployment settings live under config/.'',
      ''config/deploy.yaml'' \<mapsto> ''service: harbor'' @ [CHR 0x0A] @ ''region: us-central1'' @ [CHR 0x0A] @ ''codename: '' @ [CHR 0x22] @ codename @
        [CHR 0x22, CHR 0x0A] @ ''replicas: 3'' @ [CHR 0x0A],
      ''src/main.go'' \<mapsto> ''package main'' @ [CHR 0x0A, CHR 0x0A] @ ''func main() {}'' @ [CHR 0x0A]]"

definition listFiles :: "'a live_world_scheme tool" where
  "listFiles = live_tool (toolDef ''list_files'' ''List every file path in the project.'' no_arguments)
     (\<lambda>c call w. (said (encode_json False (JArr [JStr ''README.md'', JStr ''config/deploy.yaml'', JStr ''src/main.go''])), w))"

definition missing_argument :: "string \<Rightarrow> tool_call \<Rightarrow> exec_result \<times> error option" where
  "missing_argument name call = complained (''missing required argument '' @ quote name @ ''; got '' @ tc_Parameters call)"

definition readFile :: "'a live_world_scheme tool" where
  "readFile = live_tool (toolDef ''read_file'' ''Read a project file by path.'' (one_argument ''path''))
     (\<lambda>c call w.
        let p = pathArg call in
        if p = [] then (missing_argument ''path'' call, w)
        else case project_files p of
          None \<Rightarrow> (complained (''no such file '' @ quote p @ ''; use list_files''), w)
        | Some body \<Rightarrow> (said body, if p = ''config/deploy.yaml'' then w\<lparr>lv_readDeploy := True\<rparr> else w))"

definition submit :: "'a live_world_scheme tool" where
  "submit = live_tool (toolDef ''submit_answer'' ''Submit the final answer. Call exactly once, when you are certain.'' (one_argument ''codename''))
     (\<lambda>c call w.
        (let a = string_arg ''codename'' call in
         if a = [] then missing_argument ''codename'' call
         else if a \<noteq> codename then complained ''incorrect codename; keep investigating with the tools''
         else (\<lparr>xr_Content = ''accepted'', xr_IsError = False, xr_Stop = True\<rparr>, None), w))"

definition convergence_request :: chat_request where
  "convergence_request = zero_request\<lparr>cr_Purpose := ''chat'',
     cr_System := [Text (''You investigate a software project using tools. You cannot see any file without calling a tool. '' @
       ''When you have found the answer, call submit_answer. Never answer in plain text.'')],
     cr_Messages := [UserText (''What is this project'' @ [CHR 0x27] @ ''s deployment codename?'')], cr_MaxTokens := maxTokens\<rparr>"

definition ToolLoopConvergence :: "'a live_world_scheme chat_client \<Rightarrow> 'a live_world_scheme \<Rightarrow> (verdict \<times> 'a live_world_scheme) option" where
  "ToolLoopConvergence c w =
     (let w = w\<lparr>lv_readDeploy := False, lv_empty := []\<rparr> in
      case Run (WithTimeout background scenarioTimeout w) (live_config c convergence_request [listFiles, readFile, submit] 8 None) w of
        None \<Rightarrow> None
      | Some (out, w') \<Rightarrow>
          Some (if out_Kind out \<noteq> OutcomeTerminalTool then Fatal ''did not converge on submit_answer''
                else if map_option tc_Name (out_TerminalCall out) \<noteq> Some ''submit_answer'' then Fatal ''terminal call''
                else if \<not> lv_readDeploy w' \<or> out_Iterations out < 2 then Fatal ''submitted without investigating''
                else Finished (if lv_empty w' \<noteq> [] then [''empty response(s) mid-session''] else []), w'))"

definition live_chain :: "string list" where
  "live_chain = [''n1'', ''q7rk'', ''x2mb'', ''f9tw'', ''c4hz'', ''w8pd'']"

definition hops :: nat where "hops = length live_chain"

definition chain_notes :: "string \<rightharpoonup> string" where
  "chain_notes = (map_of (map (\<lambda>i. (live_chain ! i, ''Not here yet. Continue with note '' @ live_chain ! Suc i @ ''.'')) [0..<hops - 1]))
     (live_chain ! (hops - 1) \<mapsto> ''End of chain. The vault code is '' @ codename @ ''.'')"

text \<open>\<open>slices.Index\<close>; the note is in the chain when it is looked up.\<close>

fun index_of :: "string list \<Rightarrow> string \<Rightarrow> nat" where
  "index_of [] x = 0"
| "index_of (y # ys) x = (if x = y then 0 else Suc (index_of ys x))"

definition readNote :: "'a live_world_scheme tool" where
  "readNote = live_tool (toolDef ''read_note'' ''Read a note by id.'' (one_argument ''id''))
     (\<lambda>c call w.
        let i = string_arg ''id'' call in
        case chain_notes i of
          None \<Rightarrow> (complained (''no note '' @ quote i @ ''; only read ids you were given''), w)
        | Some body \<Rightarrow>
            (if i \<notin> lv_revealed w then (complained (''no note '' @ quote i @ ''; only read ids you were given''), w)
             else
               let w = (if i \<in> set (lv_visited w) then w else w\<lparr>lv_visited := lv_visited w @ [i]\<rparr>);
                   k = index_of live_chain i;
                   w = (if Suc k < hops then w\<lparr>lv_revealed := insert (live_chain ! Suc k) (lv_revealed w)\<rparr> else w)
               in (said body, w)))"

definition conversation_request :: chat_request where
  "conversation_request = zero_request\<lparr>cr_Purpose := ''chat'',
     cr_System := [Text (''Follow the chain of notes with read_note, one note at a time, until a note gives the vault code. '' @
       ''Then reply in plain text with the vault code.'')],
     cr_Messages := [UserText ''Start at note n1. What is the vault code?''], cr_MaxTokens := maxTokens\<rparr>"

definition LongToolConversation :: "bool \<Rightarrow> 'a live_world_scheme chat_client \<Rightarrow> 'a live_world_scheme \<Rightarrow> (verdict \<times> 'a live_world_scheme) option" where
  "LongToolConversation short c w =
     (if short then Some (Skipped, w)
      else
        let w = w\<lparr>lv_revealed := {hd live_chain}, lv_visited := [], lv_empty := []\<rparr> in
        case Run (WithTimeout background scenarioTimeout w) (live_config c conversation_request [readNote] (int hops + 4) None) w of
          None \<Rightarrow> None
        | Some (out, w') \<Rightarrow>
            Some (if lv_empty w' \<noteq> [] then Fatal ''empty response(s) in long tool session''
                  else if out_Kind out \<noteq> OutcomeFinalAnswer then Fatal ''kind''
                  else if lv_visited w' \<noteq> live_chain then Fatal ''notes visited''
                  else if out_Iterations out < int hops then Fatal ''iterations''
                  else if \<not> contains (rsp_Text (out_Response out)) codename then Fatal ''final answer''
                  else Finished [], w'))"

text \<open>\<open>strings.ToLower\<close> as far as ASCII letters come out: two other letters have them as their lower case.\<close>

fun ToLower_ascii :: "string \<Rightarrow> string" where
  "ToLower_ascii (a # b # s) =
     (if a = CHR 0xC4 \<and> b = CHR 0xB0 then CHR ''i'' # ToLower_ascii s
      else if a = CHR 0xE2 \<and> b = CHR 0x84 \<and> take 1 s = [CHR 0xAA] then CHR ''k'' # ToLower_ascii (drop 1 s)
      else lower a # ToLower_ascii (b # s))"
| "ToLower_ascii [a] = [lower a]"
| "ToLower_ascii [] = []"

text \<open>This one observes nothing.\<close>

definition ToolLoopNoTools :: "'a live_world_scheme chat_client \<Rightarrow> 'a live_world_scheme \<Rightarrow> (verdict \<times> 'a live_world_scheme) option" where
  "ToolLoopNoTools c w =
     (case Run (WithTimeout background scenarioTimeout w)
        ((live_config c (zero_request\<lparr>cr_Messages := [UserText ''What is the capital of France? Answer in one word.''], cr_MaxTokens := maxTokens\<rparr>) [] 0 None)
           \<lparr>lc_OnIteration := None, lc_OnToolCall := None\<rparr>) w of
        None \<Rightarrow> None
      | Some (out, w') \<Rightarrow>
          Some (if out_Kind out \<noteq> OutcomeFinalAnswer then Fatal ''kind''
                else Finished ((if out_Iterations out \<noteq> 0 then [''iterations''] else []) @
                  (if \<not> contains (ToLower_ascii (rsp_Text (out_Response out))) ''paris'' then [''answer''] else [])), w'))"

section \<open>Context overflow (context.go)\<close>

text \<open>\<open>words\<close> is not negative: \<open>strings.Repeat\<close> panics otherwise.\<close>

definition hellos :: "int \<Rightarrow> string" where "hellos words = concat (replicate (nat words) ''hello '')"

definition ContextOverflow :: "bool \<Rightarrow> 'a live_world_scheme chat_client \<Rightarrow> int \<Rightarrow> 'a live_world_scheme \<Rightarrow> (verdict \<times> 'a live_world_scheme) option" where
  "ContextOverflow short c words w =
     (if short then Some (Skipped, w)
      else case Run (WithTimeout background scenarioTimeout w)
        ((live_config c (zero_request\<lparr>cr_Messages := [UserText (hellos words)], cr_MaxTokens := 16\<rparr>) [] 0 None)
           \<lparr>lc_OnIteration := None, lc_OnToolCall := None\<rparr>) w of
        None \<Rightarrow> None
      | Some (out, w') \<Rightarrow>
          let pe = errors_As is_ProviderError (out_Err out) in
          Some (if out_Kind out \<noteq> OutcomeContextExceeded then Fatal ''kind''
                else if map_option pe_Kind pe \<noteq> Some ErrorKindContextLength \<or> Retryable (out_Err out) then Fatal ''Err''
                else Finished (if length (out_Messages out) \<noteq> 1 then [''Messages has''] else []), w'))"

section \<open>Compaction (compact.go)\<close>

definition readLog :: "int \<Rightarrow> 'a live_world_scheme tool" where
  "readLog words = live_tool (toolDef ''read_log'' ''Read the service log.'' no_arguments)
     (\<lambda>c call w.
        let w = w\<lparr>lv_reads := lv_reads w + 1\<rparr> in
        if lv_reads w = 1 then (said (hellos words), w) else (said (''deploy finished; release codename '' @ codename), w))"

definition CompactOnOverflow :: "bool \<Rightarrow> 'a live_world_scheme chat_client \<Rightarrow> int \<Rightarrow> 'a live_world_scheme \<Rightarrow> (verdict \<times> 'a live_world_scheme) option" where
  "CompactOnOverflow short c words w =
     (if short then Some (Skipped, w)
      else
        let w = w\<lparr>lv_reads := 0, lv_empty := []\<rparr> in
        case KeepLast \<lparr>kl_Turns = 0, kl_AtTokens = 0\<rparr> of
          Inl err \<Rightarrow> Some (Fatal (error_text err), w)
        | Inr keep \<Rightarrow>
            (case Run (WithTimeout background scenarioTimeout w)
               (live_config c (zero_request\<lparr>cr_System := [Text ''Use the read_log tool to answer. Reply in one short sentence.''],
                  cr_Messages := [UserText ''What release codename does the service log report?''], cr_MaxTokens := maxTokens\<rparr>)
                [readLog words] 0 (Some keep)) w of
               None \<Rightarrow> None
             | Some (out, w') \<Rightarrow>
                 Some (if out_Kind out \<noteq> OutcomeFinalAnswer then Fatal ''kind''
                       else if out_Compactions out \<noteq> 1 \<or> lv_reads w' \<noteq> 2 then Fatal ''Compactions''
                       else Finished (if \<not> contains (rsp_Text (out_Response out)) codename then [''final answer''] else []), w')))"

definition compactChain :: "string \<rightharpoonup> string" where
  "compactChain = [''alpha'' \<mapsto> ''7341. The next key to look up is beta.'', ''beta'' \<mapsto> ''2958. The next key to look up is gamma.'',
     ''gamma'' \<mapsto> ''6612. That was the last key.'']"

definition lookup_key :: "'a live_world_scheme tool" where
  "lookup_key = live_tool (toolDef ''lookup'' ''Look up the value stored under a key.'' (one_argument ''key''))
     (\<lambda>c call w.
        (case compactChain (ToLower_ascii (TrimSpace (string_arg ''key'' call))) of
           None \<Rightarrow> complained ''no such key''
         | Some v \<Rightarrow> said v, w))"

text \<open>The compactor is wrapped for its log lines only; the values of the chain are checked in one order.\<close>

definition CompactSummarize :: "bool \<Rightarrow> 'a live_world_scheme chat_client \<Rightarrow> 'a live_world_scheme chat_client option \<Rightarrow> 'a live_world_scheme \<Rightarrow>
    (verdict \<times> 'a live_world_scheme) option" where
  "CompactSummarize short c summarizer w =
     (if short then Some (Skipped, w)
      else
        let summarizer = (case summarizer of None \<Rightarrow> c | Some s \<Rightarrow> s); w = w\<lparr>lv_empty := []\<rparr> in
        case Summarize \<lparr>sm_Client = Some (withRetry summarizer), sm_Prompt = [], sm_Purpose = [], sm_KeepTurns = 1, sm_AtTokens = 1,
            sm_MaxTokens = maxTokens, sm_TruncateRunes = 0\<rparr> of
          Inl err \<Rightarrow> Some (Fatal (error_text err), w)
        | Inr summ \<Rightarrow>
            (case Run (WithTimeout background scenarioTimeout w)
               (live_config c (zero_request\<lparr>cr_System := [Text ''Use the lookup tool, one call per reply.''],
                  cr_Messages := [UserText (''Start by looking up the key alpha. Each result names the next key '' @
                    ''to look up; follow the chain until the last key, then reply with every key and its value as '' @
                    ''key=value, comma-separated.'')], cr_MaxTokens := maxTokens\<rparr>)
                [lookup_key] 8 (Some summ)) w of
               None \<Rightarrow> None
             | Some (out, w') \<Rightarrow>
                 Some (if out_Kind out \<noteq> OutcomeFinalAnswer then Fatal ''kind''
                       else if out_Compactions out < 1 \<or> u_InputTokens (out_CompactionUsage out) = 0 then Fatal ''Compactions''
                       else Finished (map (\<lambda>v. ''final answer lacks '' @ v)
                         (filter (\<lambda>v. \<not> contains (rsp_Text (out_Response out)) v) [''7341'', ''2958'', ''6612''])), w')))"

section \<open>Single calls (cache.go, effort.go, params.go)\<close>

definition cachePrompt :: string where
  "cachePrompt = concat (map (\<lambda>i. ''Fact '' @ itoa i @ '': the item numbered '' @ itoa i @ '' is filed under shelf '' @ itoa (i mod 17) @
     '' in aisle '' @ itoa (i mod 5) @ ''. '') [0..399])"

definition live_complete :: "'a live_world_scheme chat_client \<Rightarrow> chat_request \<Rightarrow> 'a live_world_scheme \<Rightarrow> (chat_response \<times> error option) \<times> 'a live_world_scheme" where
  "live_complete c req w = cc_Complete (withRetry c) (WithTimeout background scenarioTimeout w) req w"

definition cached_request :: "bool \<Rightarrow> chat_request" where
  "cached_request mark = zero_request\<lparr>cr_Messages := [\<lparr>m_Role = RoleUser,
     m_Content = [(Text cachePrompt)\<lparr>cp_CacheBreakpoint := mark\<rparr>, Text ''Which aisle holds item 123? Answer with just the number.'']\<rparr>],
     cr_MaxTokens := 512\<rparr>"

fun cached_calls :: "nat \<Rightarrow> 'a live_world_scheme chat_client \<Rightarrow> chat_request \<Rightarrow> 'a live_world_scheme \<Rightarrow> (string + usage list) \<times> 'a live_world_scheme" where
  "cached_calls 0 c req w = (Inr [], w)"
| "cached_calls (Suc n) c req w =
     (case live_complete c req w of
        ((resp, Some err), w) \<Rightarrow> (Inl ''call'', w)
      | ((resp, None), w) \<Rightarrow>
          (let u = rsp_Usage resp in
           if u_CacheReadTokens u < 0 \<or> u_CacheWriteTokens u < 0 \<or> go_add (u_CacheReadTokens u) (u_CacheWriteTokens u) > u_InputTokens u
           then (Inl ''cache tokens are not a subset of InputTokens'', w)
           else case cached_calls n c req w of (r, w) \<Rightarrow> (map_sum id ((#) u) r, w)))"

definition CachedInput :: "'a live_world_scheme chat_client \<Rightarrow> bool \<Rightarrow> 'a live_world_scheme \<Rightarrow> (string + usage list) \<times> 'a live_world_scheme" where
  "CachedInput c mark w = cached_calls 3 c (cached_request mark) w"

definition AnyCacheRead :: "usage list \<Rightarrow> bool" where
  "AnyCacheRead usages = list_ex (\<lambda>u. u_CacheReadTokens u > 0) usages"

definition effortPrompt :: string where
  "effortPrompt = ''How many integers n with 1 <= n <= 300 have a digit sum divisible by 7? Answer with just the number.''"

record ReasoningSetting =
  rst_Config :: "reasoning_config option"
  rst_Applied :: "reasoning_config option"

fun ReasoningControlPrompt :: "'a live_world_scheme chat_client \<Rightarrow> string \<Rightarrow> ReasoningSetting list \<Rightarrow> 'a live_world_scheme \<Rightarrow>
    (string + usage list) \<times> 'a live_world_scheme" where
  "ReasoningControlPrompt c prompt [] w = (Inr [], w)"
| "ReasoningControlPrompt c prompt (s # settings) w =
     (case live_complete c (zero_request\<lparr>cr_Messages := [UserText prompt], cr_MaxTokens := 16000, cr_Reasoning := rst_Config s\<rparr>) w of
        ((resp, Some err), w) \<Rightarrow> (Inl ''reasoning'', w)
      | ((resp, None), w) \<Rightarrow>
          (if rsp_AppliedReasoning resp \<noteq> rst_Applied s then (Inl ''AppliedReasoning'', w)
           else case ReasoningControlPrompt c prompt settings w of (r, w) \<Rightarrow> (map_sum id ((#) (rsp_Usage resp)) r, w)))"

definition ReasoningControl :: "'a live_world_scheme chat_client \<Rightarrow> ReasoningSetting list \<Rightarrow> 'a live_world_scheme \<Rightarrow> (string + usage list) \<times> 'a live_world_scheme" where
  "ReasoningControl c settings w = ReasoningControlPrompt c effortPrompt settings w"

definition Same :: "reasoning_config \<Rightarrow> ReasoningSetting" where "Same cfg = \<lparr>rst_Config = Some cfg, rst_Applied = Some cfg\<rparr>"

definition ProviderParamsOverride :: "'a live_world_scheme chat_client \<Rightarrow> (string \<times> json) list \<Rightarrow> 'a live_world_scheme \<Rightarrow>
    (string + chat_response) \<times> 'a live_world_scheme" where
  "ProviderParamsOverride c params w =
     (case live_complete c (zero_request\<lparr>cr_Messages := [UserText ''Write a 500-word essay about lighthouses.''], cr_MaxTokens := 1024,
        cr_ProviderParams := [mr_Provider (cc_Model c) \<mapsto> params]\<rparr>) w of
        ((resp, Some err), w) \<Rightarrow> (Inl ''Complete with ProviderParams'', w)
      | ((resp, None), w) \<Rightarrow>
          (if u_BillableOutputTokens (rsp_Usage resp) > 32 then (Inl ''billable output'', w) else (Inr resp, w)))"

section \<open>Reasoning replay (reasoning.go)\<close>

definition replay_notes :: "string \<rightharpoonup> string" where
  "replay_notes = [''a'' \<mapsto> ''Not here yet. Continue with note b.'', ''b'' \<mapsto> ''End of chain. The answer word is '' @ codename @ ''.'']"

definition replayNote :: "'a live_world_scheme tool" where
  "replayNote = live_tool (toolDef ''read_note'' ''Read a note by id.'' (one_argument ''id''))
     (\<lambda>c call w. (case replay_notes (TrimSpace (string_arg ''id'' call)) of None \<Rightarrow> complained ''no such note'' | Some body \<Rightarrow> said body, w))"

definition replay_system :: "content_part list" where
  "replay_system = [Text (''Follow the chain of notes with read_note, one note at a time, until a note gives the answer word. '' @
     ''Before each tool call, think about what the notes so far tell you. '' @ ''Then reply in plain text with the answer word.'')]"

definition live_hasReasoning :: "message \<Rightarrow> bool" where
  "live_hasReasoning m = list_ex (\<lambda>p. cp_Type p = ContentReasoning) (m_Content m)"

definition logReasoning :: "message list \<Rightarrow> nat" where
  "logReasoning msgs = length (filter (\<lambda>m. m_Role m = RoleAssistant \<and> live_hasReasoning m) msgs)"

definition runReasoningLoop :: "'a live_world_scheme chat_client \<Rightarrow> content_part list \<Rightarrow> 'a live_world_scheme tool list \<Rightarrow> 'a live_world_scheme \<Rightarrow>
    ((outcome \<times> nat) \<times> 'a live_world_scheme) option" where
  "runReasoningLoop c system tools w =
     (let w = w\<lparr>lv_empty := []\<rparr> in
      map_option (\<lambda>(out, w'). ((out, logReasoning (out_Messages out)), w'))
        (Run (WithTimeout background scenarioTimeout w)
          (live_config c (zero_request\<lparr>cr_System := system, cr_Messages := [UserText ''Start at note a. What is the answer word?''],
             cr_MaxTokens := 4096\<rparr>) tools 6 None) w))"

text \<open>\<open>left\<close> attempts are left after this one.\<close>

fun reasoningLoop :: "nat \<Rightarrow> 'a live_world_scheme chat_client \<Rightarrow> content_part list \<Rightarrow> 'a live_world_scheme tool list \<Rightarrow> 'a live_world_scheme \<Rightarrow>
    ((string + message list) \<times> 'a live_world_scheme) option" where
  "reasoningLoop left c system tools w =
     (case runReasoningLoop c system tools w of
        None \<Rightarrow> None
      | Some ((out, withReasoning), w') \<Rightarrow>
          (let retryable = (withReasoning = 0 \<or> (out_Kind out = OutcomeEmptyResponse \<and> rsp_StopReason (out_Response out) = ''refusal''));
               checked = (if out_Kind out \<noteq> OutcomeFinalAnswer then Inl ''1. tool loop: kind''
                 else if out_Iterations out < 2 then Inl ''1. tool loop: iterations''
                 else if withReasoning = 0 then Inl ''1. tool loop: no assistant turn carried a reasoning part''
                 else Inr (out_Messages out))
           in case left of
             0 \<Rightarrow> Some (checked, w')
           | Suc left' \<Rightarrow> if retryable then reasoningLoop left' c system tools w' else Some (checked, w')))"

text \<open>\<open>err_text\<close> is \<open>Error()\<close>. The transcript of step 1 is not empty.\<close>

definition follow :: "'a live_world_scheme chat_client \<Rightarrow> ctx \<Rightarrow> content_part list \<Rightarrow> tool_definition \<Rightarrow> message list \<Rightarrow> 'a live_world_scheme \<Rightarrow>
    error option \<times> 'a live_world_scheme" where
  "follow c ctx system tool msgs w =
     (case cc_Complete (withRetry c) ctx (zero_request\<lparr>cr_System := system, cr_Messages := msgs @ [UserText ''Repeat the answer word only.''],
        cr_Tools := [tool], cr_MaxTokens := 1024\<rparr>) w of ((resp, err), w') \<Rightarrow> (err, w'))"

definition reasoningFollowUps :: "(error \<Rightarrow> string) \<Rightarrow> 'a live_world_scheme chat_client \<Rightarrow> content_part list \<Rightarrow> tool_definition \<Rightarrow> message list \<Rightarrow>
    'a live_world_scheme \<Rightarrow> verdict \<times> 'a live_world_scheme" where
  "reasoningFollowUps err_text c system tool msgs w =
     (let ctx = WithTimeout background scenarioTimeout w;
          edited = UserText ''Start at note a, please. What is the answer word?'' # tl msgs in
      case follow c ctx system tool msgs w of
        (Some err, w) \<Rightarrow> (Fatal ''2. unchanged transcript rejected'', w)
      | (None, w) \<Rightarrow>
          (case follow c ctx system tool edited w of
             (err, w) \<Rightarrow>
               if map_option pe_Kind (errors_As is_ProviderError err) \<noteq> Some ErrorKindBadRequest \<or> \<not> contains (err_text (the err)) ''signature''
               then (Fatal ''3. edited transcript'', w)
               else case follow c ctx system tool (WithoutReasoning edited) w of
                 (Some err, w) \<Rightarrow> (Fatal ''4. edited transcript without reasoning rejected'', w)
               | (None, w) \<Rightarrow> (Finished [], w)))"

definition ReasoningReplay :: "(error \<Rightarrow> string) \<Rightarrow> bool \<Rightarrow> 'a live_world_scheme chat_client \<Rightarrow> 'a live_world_scheme \<Rightarrow> (verdict \<times> 'a live_world_scheme) option" where
  "ReasoningReplay err_text short c w =
     (if short then Some (Skipped, w)
      else case reasoningLoop 2 c replay_system [replayNote] w of
        None \<Rightarrow> None
      | Some (Inl msg, w') \<Rightarrow> Some (Fatal msg, w')
      | Some (Inr msgs, w') \<Rightarrow> Some (reasoningFollowUps err_text c replay_system (tl_Definition (replayNote :: 'a live_world_scheme tool)) msgs w'))"

end
