(* ===== verification/LiveTestProps.thy ===== *)
theory LiveTestProps
  imports LiveTest AdapterLaws
begin

text \<open>
  What the live scenarios establish about a client: what the notes tool lets a model read, which clients the context
  scenario accepts, and that the caching scenario never blames an adapter whose usage adds up.
\<close>

section \<open>Retries\<close>

text \<open>What the wrapped call keeps, and time and chance do not touch, retrying keeps.\<close>

lemma retry_loop_keeps:
  assumes out: "\<And>w w'. world.more w = world.more w' \<Longrightarrow> P w = P w'" and call: "\<And>c. keeps P (call c)"
  shows "attempt \<le> MaxAttempts cfg \<Longrightarrow> retry_loop c cfg zero call attempt delay w = (re, w') \<Longrightarrow> P w \<Longrightarrow> P w'"
proof (induction "nat (MaxAttempts cfg - attempt)" arbitrary: attempt delay w rule: less_induct)
  case less
  have quiet: "P w3" if "jittered x f w1 = (wait, w2)" and "sleep_or_done c wait w2 = (b, w3)" and "P w1" for x f w1 wait w2 b w3
    using out [of w3 w1] jittered_frame [OF that(1)] sleep_frame [OF that(2)] that(3) by simp
  from less.prems(1,2) show ?case
  proof (cases rule: retry_loop_cases)
    case stop
    from keepsD [OF call stop(1) less.prems(3)] show ?thesis .
  next
    case (ended r1 e1 w1 wait w2)
    from quiet [OF ended(3,4) keepsD [OF call ended(1) less.prems(3)]] show ?thesis .
  next
    case (again r1 e1 w1 wait w2 w3)
    from quiet [OF again(3,4) keepsD [OF call again(1) less.prems(3)]] less.hyps [OF _ _ again(5)] again(2) show ?thesis by simp
  qed
qed

lemma DefaultRetryConfig_attempts [simp]: "MaxAttempts (retry_normalized DefaultRetryConfig) = 5"
  by code_simp

lemma withRetry_eq: "cc_Complete (withRetry c) ctx req w =
    retry_loop ctx (retry_normalized DefaultRetryConfig) zero_response (\<lambda>ctx. cc_Complete c ctx req) 1
      (InitialDelay (retry_normalized DefaultRetryConfig)) w"
  by (simp add: withRetry_def ChainChat_def RetryChat_def retry_def)

lemma withRetry_keeps:
  assumes "\<And>w w'. world.more w = world.more w' \<Longrightarrow> P w = P w'" and "\<And>ctx req. keeps P (cc_Complete c ctx req)"
  shows "keeps P (cc_Complete (withRetry c) ctx req)"
proof (unfold keeps_def, intro allI impI)
  fix w assume "P w"
  obtain r w' where run: "cc_Complete (withRetry c) ctx req w = (r, w')" by (metis prod.exhaust)
  have "P w'"
    by (rule retry_loop_keeps [OF assms(1) assms(2) _ run [unfolded withRetry_eq] \<open>P w\<close>]) simp_all
  with run show "P (snd (cc_Complete (withRetry c) ctx req w))" by simp
qed

section \<open>Runs\<close>

lemma Run_returns:
  assumes "0 \<le> lc_MaxIterations cfg" and "in_int64 (lc_MaxIterations cfg)"
  obtains out w' where "Run c cfg w = Some (out, w')"
proof (cases "validateConfig cfg")
  case (Inl e)
  with that show ?thesis by (auto simp: Run_def)
next
  case (Inr v)
  obtain tools choice where v: "v = (tools, choice)" by (cases v)
  have max: "0 < max_iterations cfg" "in_int64 (max_iterations cfg)"
    using assms by (auto simp: max_iterations_def defaultMaxIterations_def go_int_defs)
  from bounded_run_ends [OF max, of "start_state (cr_Messages (lc_Request cfg))" c cfg tools choice w] max(1)
  obtain out w' where "run_loop c cfg tools choice (max_iterations cfg) (start_state (cr_Messages (lc_Request cfg))) w = Some (out, w')"
    by (auto simp: start_state_def)
  with that Inr v show ?thesis by (simp add: Run_def)
qed

section \<open>The chain of notes\<close>

text \<open>The notes read are the first \<open>k\<close> of the chain, and those revealed are one more.\<close>

definition chain_read :: "'a live_world_scheme \<Rightarrow> bool" where
  "chain_read w \<longleftrightarrow> (\<exists>k \<le> hops. lv_visited w = take k live_chain \<and> lv_revealed w = set (take (Suc k) live_chain))"

definition leaves_notes :: "'a live_world_scheme chat_client \<Rightarrow> bool" where
  "leaves_notes c \<longleftrightarrow> (\<forall>ctx req w r w'. cc_Complete c ctx req w = (r, w') \<longrightarrow>
     lv_visited w' = lv_visited w \<and> lv_revealed w' = lv_revealed w)"

lemma chain_facts: "distinct live_chain" "length live_chain = hops" "hops = 6"
  by (simp_all add: live_chain_def hops_def)

lemma index_of_nth: "distinct xs \<Longrightarrow> k < length xs \<Longrightarrow> index_of xs (xs ! k) = k"
  by (induction xs arbitrary: k) (auto simp: nth_Cons' split: if_splits)

lemma in_take_chain: "i \<in> set (take k live_chain) \<longleftrightarrow> (\<exists>j < k. j < hops \<and> i = live_chain ! j)"
  by (auto simp: in_set_conv_nth chain_facts)

lemma readNote_keeps: "keeps chain_read (the (tl_Execute readNote) c call)"
proof (unfold keeps_def, intro allI impI)
  fix w :: "'a live_world_scheme"
  assume "chain_read w"
  then obtain k where k: "k \<le> hops" "lv_visited w = take k live_chain" "lv_revealed w = set (take (Suc k) live_chain)"
    by (auto simp: chain_read_def)
  let ?i = "string_arg ''id'' call"
  show "chain_read (snd (the (tl_Execute readNote) c call w))"
  proof (cases "chain_notes ?i = None \<or> ?i \<notin> lv_revealed w")
    case True
    with \<open>chain_read w\<close> show ?thesis
      by (auto simp: readNote_def live_tool_def Let_def split: option.split)
  next
    case False
    then obtain body j where j: "chain_notes ?i = Some body" "j \<le> k" "j < hops" "?i = live_chain ! j"
      using k(3) by (auto simp: in_take_chain less_Suc_eq_le)
    have idx: "index_of live_chain ?i = j" using j chain_facts by (simp add: index_of_nth)
    let ?v = "if j = k then Suc k else k"
    have visited: "(if ?i \<in> set (lv_visited w) then lv_visited w else lv_visited w @ [?i]) = take ?v live_chain"
    proof (cases "j = k")
      case True
      with j k have "?i \<notin> set (take k live_chain)" using chain_facts nth_eq_iff_index_eq [of live_chain k] by (auto simp: in_take_chain)
      with True j k chain_facts show ?thesis by (simp add: take_Suc_conv_app_nth)
    next
      case False
      with j(2) have "j < k" by simp
      with j(3,4) have "?i \<in> set (take k live_chain)" unfolding in_take_chain by blast
      with False k show ?thesis by simp
    qed
    have revealed: "(if Suc j < hops then insert (live_chain ! Suc j) (lv_revealed w) else lv_revealed w) = set (take (Suc ?v) live_chain)"
    proof (cases "j = k")
      case True
      with k j have "Suc k < hops \<Longrightarrow> take (Suc (Suc k)) live_chain = take (Suc k) live_chain @ [live_chain ! Suc k]"
        "\<not> Suc k < hops \<Longrightarrow> take (Suc (Suc k)) live_chain = take (Suc k) live_chain"
        using chain_facts by (simp_all add: take_Suc_conv_app_nth)
      with True k(3) show ?thesis by (cases "Suc k < hops") simp_all
    next
      case False
      with j(2) have "Suc j < Suc k" by simp
      then have "Suc j < hops \<Longrightarrow> live_chain ! Suc j \<in> set (take (Suc k) live_chain)" unfolding in_take_chain by blast
      with False k(3) show ?thesis by (simp add: insert_absorb)
    qed
    have "?v \<le> hops" using j k by auto
    have "lv_visited (snd (the (tl_Execute readNote) c call w)) = (if ?i \<in> set (lv_visited w) then lv_visited w else lv_visited w @ [?i])"
      "lv_revealed (snd (the (tl_Execute readNote) c call w)) = (if Suc j < hops then insert (live_chain ! Suc j) (lv_revealed w) else lv_revealed w)"
      using j(1) False by (simp_all add: readNote_def live_tool_def Let_def idx)
    note this [unfolded visited revealed]
    with \<open>?v \<le> hops\<close> show ?thesis unfolding chain_read_def by blast
  qed
qed

lemma notes_config_keeps:
  assumes "leaves_notes c"
  shows "parts_keep chain_read (live_config c req [readNote] n None)"
proof -
  have "keeps chain_read (cc_Complete c ctx req)" for ctx req
    unfolding keeps_def using assms by (metis chain_read_def leaves_notes_def prod.collapse)
  moreover have "chain_read w = chain_read w'" if "world.more w = world.more w'" for w w' :: "'a live_world_scheme"
    using that by (cases w; cases w') (simp add: chain_read_def)
  ultimately have "keeps chain_read (cc_Complete (withRetry c) ctx req)" for ctx req
    by (intro withRetry_keeps)
  then show ?thesis by (simp add: parts_keep_def live_config_def readNote_keeps)
qed

text \<open>
  C28: the chain of notes is read in order. Whatever a client answers, with the retries the scenario adds, \<open>LongToolConversation\<close>
  returns, and the notes it has let the model read are a beginning of the chain: no note is read before the one that names
  it. A verdict without complaint means that the whole chain has been read.
\<close>

theorem chain_followed_in_order:
  assumes "leaves_notes c"
  shows "\<exists>v w'. LongToolConversation False c w = Some (v, w') \<and> (\<exists>k \<le> hops. lv_visited w' = take k live_chain) \<and>
    (v = Finished [] \<longrightarrow> lv_visited w' = live_chain)"
proof -
  let ?w = "w\<lparr>lv_revealed := {hd live_chain}, lv_visited := [], lv_empty := []\<rparr>"
  let ?cfg = "live_config c conversation_request [readNote] (int hops + 4) None" and ?c = "WithTimeout background scenarioTimeout ?w"
  obtain out w' where run: "Run ?c ?cfg ?w = Some (out, w')"
    by (rule Run_returns [of ?cfg ?c ?w]) (simp_all add: live_config_def chain_facts go_int_defs)
  have "chain_read ?w" unfolding chain_read_def by (intro exI [of _ 0]) (simp add: live_chain_def)
  with run have "chain_read w'"
    by (intro Run_keeps [OF notes_config_keeps [OF assms] _ _ run]) (auto simp: live_config_def onIteration_def chain_read_def)
  with run show ?thesis
    by (auto simp: LongToolConversation_def chain_read_def Let_def)
qed

section \<open>Context overflow\<close>

text \<open>Without a compactor a turn sends the transcript as it is, once.\<close>

lemma send_plain:
  "send c None client req lst cn w =
     (case cc_Complete client c req w of
        ((resp, None), w) \<Rightarrow> (Sent resp (cr_Messages req), cn, w)
      | ((resp, Some e), w) \<Rightarrow> (case classifyStop c e (llmErrorKind e) w of (kind, err) \<Rightarrow> (SendStopped (cr_Messages req) kind err, cn, w)))"
  by (auto simp: send_def send_calls.simps split: prod.split option.split)

text \<open>So transcripts only grow, and a response is never the reason for a context outcome.\<close>

lemma run_iteration_grows:
  assumes plain: "lc_Compact cfg = None" and run: "run_iteration c cfg tools choice maxIter st w = (res, w')"
  shows "(\<forall>st'. res = Inl st' \<longrightarrow> length (ls_transcript st) < length (ls_transcript st')) \<and>
    (\<forall>out. res = Inr out \<longrightarrow> length (ls_transcript st) \<le> length (out_Messages out))"
  using run
proof (cases rule: run_iteration_cases)
  case (stopped sent kind err cn)
  then have "sent = ls_transcript st" by (auto simp: plain send_plain split: prod.splits option.splits)
  with stopped(4) show ?thesis by simp
next
  case (responded resp sent cn c1 req1 w1 w2 r)
  then have "sent = ls_transcript st" by (auto simp: plain send_plain split: prod.splits option.splits)
  with responded(4) show ?thesis
    by (cases rule: handle_response_cases) (use responded(5) in auto)
qed

lemma handle_response_kind:
  "handle_response c cfg maxIter st resp w = (Inr out, w') \<Longrightarrow> out_Kind out \<noteq> OutcomeContextExceeded"
  by (erule handle_response_cases) (auto dest: classifyStop_kind simp: outcome_consts)

lemma run_loop_grows:
  assumes plain: "lc_Compact cfg = None" and run: "run_loop c cfg tools choice maxIter st w = Some (out, w')"
  shows "length (ls_transcript st) \<le> length (out_Messages out)"
  by (rule run_loop_invariant [OF run, where I = "\<lambda>st' w. length (ls_transcript st) \<le> length (ls_transcript st')"])
    (use run_iteration_grows [OF plain] in fastforce)+

definition overflow_request :: "int \<Rightarrow> chat_request" where
  "overflow_request words = zero_request\<lparr>cr_Messages := [UserText (hellos words)], cr_MaxTokens := 16,
     cr_ToolChoice := \<lparr>tch_Type = ToolChoiceAuto, tch_Name = []\<rparr>\<rparr>"

abbreviation overflow_config :: "'a live_world_scheme chat_client \<Rightarrow> int \<Rightarrow> 'a live_world_scheme loop_config" where
  "overflow_config c words \<equiv> (live_config c (zero_request\<lparr>cr_Messages := [UserText (hellos words)], cr_MaxTokens := 16\<rparr>) [] 0 None)
     \<lparr>lc_OnIteration := None, lc_OnToolCall := None\<rparr>"

lemma overflow_config_valid: "validateConfig (overflow_config c words) = Inr ([], \<lparr>tch_Type = ToolChoiceAuto, tch_Name = []\<rparr>)"
  by (simp add: validateConfig_def live_config_def zero_request_def
      isZeroToolChoice_def effective_choice_def check_choice_def isKnownToolChoiceType_def RequiresTools_def tool_choice_consts)

text \<open>The outcome of the scenario's run, by the answer to its first request.\<close>

lemma overflow_outcome:
  assumes call: "cc_Complete (withRetry c) ctx (overflow_request words) w = ((resp, err), w1)"
    and run: "Run ctx (overflow_config c words) w = Some (out, w')"
  shows "(\<forall>e. err = Some e \<longrightarrow> w' = w1 \<and> length (out_Messages out) = 1 \<and>
      classifyStop ctx e (llmErrorKind e) w1 = (out_Kind out, the (out_Err out)) \<and> out_Err out \<noteq> None) \<and>
    (err = None \<longrightarrow> out_Kind out \<noteq> OutcomeContextExceeded \<or> length (out_Messages out) \<noteq> 1)"
proof -
  let ?cfg = "overflow_config c words" and ?st = "start_state [UserText (hellos words)]"
  let ?choice = "\<lparr>tch_Type = ToolChoiceAuto, tch_Name = []\<rparr>"
  have plain: "lc_Compact ?cfg = None" by (simp add: live_config_def)
  have cfg: "cr_Messages (lc_Request ?cfg) = [UserText (hellos words)]" "the (lc_Client ?cfg) = withRetry c"
    by (simp_all add: live_config_def)
  have req: "(lc_Request ?cfg)\<lparr>cr_Messages := ls_transcript ?st, cr_Tools := [], cr_ToolChoice := ?choice\<rparr> = overflow_request words"
    by (simp add: live_config_def start_state_def overflow_request_def zero_request_def)
  have messages: "cr_Messages (overflow_request words) = [UserText (hellos words)]"
    by (simp add: overflow_request_def zero_request_def)
  have loop: "run_loop ctx ?cfg [] ?choice (max_iterations ?cfg) ?st w = Some (out, w')"
    using run cfg by (simp add: Run_def overflow_config_valid)
  note iteration = run_iteration_def [of ctx ?cfg "[]" ?choice "max_iterations ?cfg" ?st w, unfolded Let_def req plain send_plain cfg call prod.case]
  show ?thesis
  proof (cases err)
    case (Some e)
    obtain kind e' where cl: "classifyStop ctx e (llmErrorKind e) w1 = (kind, e')" by (metis prod.exhaust)
    from run_loop_stop [OF iteration [unfolded Some option.case cl prod.case send_result.case]] loop messages
    have "w' = w1" "length (out_Messages out) = 1" "out_Kind out = kind" "out_Err out = Some e'"
      by auto
    with Some cl show ?thesis by simp
  next
    case None
    obtain r w2 where h: "handle_response ctx ?cfg (max_iterations ?cfg)
        (?st\<lparr>ls_transcript := cr_Messages (overflow_request words), ls_compaction := ls_compaction ?st\<rparr>) resp w1 = (r, w2)"
      by (metis prod.exhaust)
    note iteration = iteration [unfolded None option.case prod.case send_result.case h]
    show ?thesis
    proof (cases r)
      case (Inl st')
      note it = iteration [unfolded Inl prod.case sum.case]
      from run_iteration_grows [OF plain it] have "1 < length (ls_transcript st')" by (simp add: start_state_def)
      moreover have "length (ls_transcript st') \<le> length (out_Messages out)"
        using loop run_loop_step [OF it] by (intro run_loop_grows [OF plain]) simp
      ultimately show ?thesis using None by simp
    next
      case (Inr out')
      note it = iteration [unfolded Inr prod.case sum.case]
      from run_loop_stop [OF it] loop handle_response_kind [OF h [unfolded Inr]] None show ?thesis by auto
    qed
  qed
qed

text \<open>
  C29: the overflow scenario accepts exactly the clients that report an overflow as the error model says. Whatever the client
  does, \<open>ContextOverflow\<close> returns, and its verdict is without complaint if and only if the request it makes, with its retries,
  ended with a provider error of the context-length kind, without being canceled and within the scenario's time.
\<close>

theorem context_overflow_recognised:
  assumes "cc_Complete (withRetry c) (WithTimeout background scenarioTimeout w) (overflow_request words) w = ((resp, err), w1)"
  shows "\<exists>v w'. ContextOverflow False c words w = Some (v, w') \<and>
    (v = Finished [] \<longleftrightarrow> (\<exists>pe. errors_As is_ProviderError err = Some pe \<and> pe_Kind pe = ErrorKindContextLength) \<and>
       ctx_Err (WithTimeout background scenarioTimeout w) w1 = None \<and> \<not> errors_Is err Canceled)"
proof -
  let ?c = "WithTimeout background scenarioTimeout w"
  obtain out w' where run: "Run ?c (overflow_config c words) w = Some (out, w')"
    by (rule Run_returns [of "overflow_config c words" ?c w]) (simp_all add: live_config_def go_int_defs)
  note o = overflow_outcome [OF assms run]
  show ?thesis
  proof (cases err)
    case None
    with o run show ?thesis by (auto simp: ContextOverflow_def Let_def)
  next
    case (Some e)
    with o obtain e' where e': "out_Err out = Some e'" "classifyStop ?c e (llmErrorKind e) w1 = (out_Kind out, e')"
      "w' = w1" "length (out_Messages out) = 1" by auto
    have kind: "out_Kind out = OutcomeContextExceeded \<longleftrightarrow> ctx_Err ?c w1 = None \<and> \<not> errors_Is err Canceled \<and>
        (\<exists>pe. errors_As is_ProviderError err = Some pe \<and> pe_Kind pe = ErrorKindContextLength)"
      using e'(2) Some by (auto simp: classifyStop_def llmErrorKind_def outcome_consts split: option.splits if_splits)
    have same: "out_Kind out = OutcomeContextExceeded \<Longrightarrow> e' = e"
      using e'(2) by (auto simp: classifyStop_def outcome_consts split: option.splits if_splits)
    show ?thesis
    proof (cases "out_Kind out = OutcomeContextExceeded")
      case True
      with kind obtain pe where "errors_As is_ProviderError err = Some pe" "pe_Kind pe = ErrorKindContextLength" by blast
      with True same Some e' run kind show ?thesis
        by (auto simp: ContextOverflow_def Let_def Retryable_def ProviderError_Retryable_def)
    next
      case False
      with run kind show ?thesis by (auto simp: ContextOverflow_def Let_def)
    qed
  qed
qed

section \<open>Cached input\<close>

text \<open>A client whose usage adds up, as that of the adapters does, is never blamed for its cache tokens.\<close>

lemma cached_calls_subset:
  assumes "\<And>ctx req w resp w'. cc_Complete (withRetry c) ctx req w = ((resp, None), w') \<Longrightarrow>
      usage_fits (rsp_Usage resp) \<and> 0 \<le> u_InputTokens (rsp_Usage resp) \<and> in_int64 (u_InputTokens (rsp_Usage resp))"
  shows "cached_calls n c req w = (r, w') \<Longrightarrow> r = Inl ''call'' \<or> (\<exists>us. r = Inr us \<and> length us = n)"
proof (induction n arbitrary: w r w')
  case (Suc n)
  obtain resp err w1 where call: "live_complete c req w = ((resp, err), w1)" by (metis prod.exhaust)
  show ?case
  proof (cases err)
    case None
    let ?u = "rsp_Usage resp"
    have u: "usage_fits ?u" "0 \<le> u_InputTokens ?u" "in_int64 (u_InputTokens ?u)"
      using assms call None by (auto simp: live_complete_def)
    then have "go_add (u_CacheReadTokens ?u) (u_CacheWriteTokens ?u) = u_CacheReadTokens ?u + u_CacheWriteTokens ?u"
      by (intro go_add_exact) (auto simp: usage_fits_def cache_fits_def go_int_defs)
    with u have ok: "\<not> (u_CacheReadTokens ?u < 0 \<or> u_CacheWriteTokens ?u < 0 \<or>
        go_add (u_CacheReadTokens ?u) (u_CacheWriteTokens ?u) > u_InputTokens ?u)"
      by (auto simp: usage_fits_def cache_fits_def)
    obtain r2 w2 where rest: "cached_calls n c req w1 = (r2, w2)" by (metis prod.exhaust)
    with Suc.prems call None ok have "r = map_sum id ((#) ?u) r2" "w' = w2" by (auto simp: Let_def)
    with Suc.IH [OF rest] show ?thesis by auto
  qed (use Suc.prems call in simp)
qed simp

section \<open>Witnesses\<close>

text \<open>A client that follows the chain, one note for each turn it is shown, and then answers.\<close>

definition ask_note :: "nat \<Rightarrow> tool_call" where
  "ask_note k = \<lparr>tc_ID = ''c'' @ itoa (int k), tc_Name = ''read_note'',
     tc_Parameters = [CHR 0x7B, CHR 0x22, CHR ''i'', CHR ''d'', CHR 0x22, CHR 0x3A, CHR 0x22] @ live_chain ! k @ [CHR 0x22, CHR 0x7D], tc_ProviderSignature = []\<rparr>"

definition following_client :: "live_world chat_client" where
  "following_client = \<lparr>cc_Model = \<lparr>mr_Provider = ''openai'', mr_Name = ''m''\<rparr>,
     cc_Complete = (\<lambda>c req w. ((let k = length (cr_Messages req) div 2 in
        if k < hops then zero_response\<lparr>rsp_Message := \<lparr>m_Role = RoleAssistant, m_Content =
            [zero_part\<lparr>cp_Type := ContentToolCall, cp_ToolCall := Some (ask_note k)\<rparr>]\<rparr>, rsp_ToolCalls := [ask_note k]\<rparr>
        else zero_response\<lparr>rsp_Message := AssistantText codename, rsp_Text := codename\<rparr>, None), w))\<rparr>"

definition live_start :: live_world where
  "live_start = \<lparr>w_clock = 0, w_tie = (\<lambda>_. False), w_rand = (\<lambda>_. 0), w_draws = 0, w_oob = (\<lambda>_. MinInt),
     lv_empty = [], lv_readDeploy = False, lv_visited = [], lv_revealed = {}, lv_reads = 0\<rparr>"

declare run_loop.simps [code]

lemma following_client_passes:
  "case LongToolConversation False following_client live_start of Some (v, w') \<Rightarrow> v = Finished [] | None \<Rightarrow> False"
  by code_simp

theorem chain_followed_in_order_witness:
  "\<exists>w'. LongToolConversation False following_client live_start = Some (Finished [], w') \<and> lv_visited w' = live_chain"
proof -
  have "leaves_notes following_client"
    by (simp add: leaves_notes_def following_client_def)
  from chain_followed_in_order [OF this, of live_start] following_client_passes show ?thesis by auto
qed

text \<open>A client whose provider refuses every request as too long.\<close>

definition refusing_client :: "live_world chat_client" where
  "refusing_client = \<lparr>cc_Model = \<lparr>mr_Provider = ''openai'', mr_Name = ''m''\<rparr>,
     cc_Complete = (\<lambda>c req w. ((zero_response, Some (ProviderError ''openai'' ''m'' ErrorKindContextLength 400 [] 0 None)), w))\<rparr>"

theorem context_overflow_recognised_witness:
  "\<exists>w'. ContextOverflow False refusing_client 2 live_start = Some (Finished [], w')"
proof -
  let ?err = "Some (ProviderError ''openai'' ''m'' ErrorKindContextLength 400 [] 0 None)"
  have "cc_Complete (withRetry refusing_client) (WithTimeout background scenarioTimeout live_start) (overflow_request 2) live_start =
      ((zero_response, ?err), live_start)"
    by (simp add: withRetry_eq retry_loop.simps refusing_client_def ProviderError_Retryable_def)
  from context_overflow_recognised [OF this] show ?thesis
    by (auto simp: errors_As_self errors_Is_def ctx_Err_def live_start_def WithTimeout_def background_def scenarioTimeout_def)
qed

end
